(* ===== verification/Prelude.thy ===== *)
theory Prelude
  imports Main "HOL-Library.AList" "HOL-Library.Multiset" "HOL-Library.Word"
begin

text \<open>
  Shared vocabulary of the development: Go strings and byte slices, decimal formatting and
  \<open>strings.Split\<close>, slice expressions that panic, Go maps as association lists and the
  order in which a \<open>range\<close> loop visits them, and the rounding of integers to float64.
  The collection \<open>gomap_simps\<close> holds the facts about maps that component proofs share,
  \<open>fmt_simps\<close> those about formatted strings.
\<close>

named_theorems gomap_simps "lookup and key facts of Go maps"
named_theorems fmt_simps "facts about formatted strings"

type_synonym byte = "8 word"
type_synonym u32 = "32 word"
type_synonym u64 = "64 word"

text \<open>The zero \<open>time.Time\<close>, the first of January of year 1, in nanoseconds from 1970.\<close>

definition zero_time :: int where
  "zero_time = - 62135596800000000000"

section \<open>Strings\<close>

text \<open>Decimal digits, as \<open>%d\<close> and \<open>strconv.FormatUint\<close> print them.\<close>

definition digits :: string where
  "digits = ''0123456789''"

fun show_nat :: "nat \<Rightarrow> string" where
  "show_nat n = (if n < 10 then [digits ! n] else show_nat (n div 10) @ [digits ! (n mod 10)])"

declare show_nat.simps [simp del]

definition show_int :: "int \<Rightarrow> string" where
  "show_int i = (if i < 0 then CHR ''-'' # show_nat (nat (- i)) else show_nat (nat i))"

definition show_u64 :: "u64 \<Rightarrow> string" where
  "show_u64 w = show_nat (unat w)"

definition digit_val :: "char \<Rightarrow> nat option" where
  "digit_val c = map_of (zip digits [0, 1, 2, 3, 4, 5, 6, 7, 8, 9]) c"

fun parse_digits :: "nat \<Rightarrow> string \<Rightarrow> nat option" where
  "parse_digits acc [] = Some acc"
| "parse_digits acc (c # cs) =
     (case digit_val c of None \<Rightarrow> None | Some d \<Rightarrow> parse_digits (10 * acc + d) cs)"

text \<open>\<open>strconv.ParseUint(s, 10, 64)\<close>: a non-empty run of digits below \<open>2 ^ 64\<close>.\<close>

definition parse_uint :: "string \<Rightarrow> u64 option" where
  "parse_uint s =
     (if s = [] then None
      else case parse_digits 0 s of
        None \<Rightarrow> None
      | Some n \<Rightarrow> if n < 2 ^ 64 then Some (of_nat n) else None)"

lemma digit_cases:
  assumes "d < 10"
  shows "d = 0 \<or> d = 1 \<or> d = 2 \<or> d = 3 \<or> d = 4 \<or> d = 5 \<or> d = 6 \<or> d = 7 \<or> d = 8 \<or> d = (9::nat)"
  using assms by arith

lemma digit_val_digit [simp]: "d < 10 \<Longrightarrow> digit_val (digits ! d) = Some d"
  by (drule digit_cases) (auto simp: digit_val_def digits_def)

lemma digit_not_colon [simp]: "d < 10 \<Longrightarrow> digits ! d \<noteq> CHR '':''"
  by (drule digit_cases) (auto simp: digits_def)

lemma digit_not_minus [simp]: "d < 10 \<Longrightarrow> digits ! d \<noteq> CHR ''-''"
  by (drule digit_cases) (auto simp: digits_def)

lemma parse_digits_append:
  "parse_digits acc (xs @ ys) =
     (case parse_digits acc xs of None \<Rightarrow> None | Some a \<Rightarrow> parse_digits a ys)"
  by (induction xs arbitrary: acc) (auto split: option.splits)

lemma parse_digits_show_nat: "parse_digits 0 (show_nat n) = Some n"
proof (induction n rule: show_nat.induct)
  case (1 n)
  show ?case
  proof (cases "n < 10")
    case True
    then show ?thesis by (simp add: show_nat.simps [of n])
  next
    case False
    with 1 have "parse_digits 0 (show_nat (n div 10)) = Some (n div 10)" by simp
    with False show ?thesis by (simp add: show_nat.simps [of n] parse_digits_append)
  qed
qed

lemma show_nat_nonempty [simp]: "show_nat n \<noteq> []"
  by (subst show_nat.simps) simp

lemma show_nat_inject [fmt_simps]: "show_nat m = show_nat n \<longleftrightarrow> m = n"
  by (metis option.inject parse_digits_show_nat)

lemma show_u64_inject [fmt_simps]: "show_u64 v = show_u64 w \<longleftrightarrow> v = w"
  by (simp add: show_u64_def show_nat_inject word_unat_eq_iff)

lemma show_nat_no_colon [fmt_simps]: "CHR '':'' \<notin> set (show_nat n)"
proof (induction n rule: show_nat.induct)
  case (1 n)
  show ?case
  proof (cases "n < 10")
    case True
    then have "CHR '':'' \<noteq> digits ! n" by (metis digit_not_colon)
    with True show ?thesis by (simp add: show_nat.simps [of n])
  next
    case False
    have "n mod 10 < 10" by simp
    then have "CHR '':'' \<noteq> digits ! (n mod 10)" by (metis digit_not_colon)
    with False 1 show ?thesis by (simp add: show_nat.simps [of n])
  qed
qed

lemma show_u64_no_colon [fmt_simps]: "CHR '':'' \<notin> set (show_u64 w)"
  by (simp add: show_u64_def show_nat_no_colon)

lemma parse_uint_show_u64 [fmt_simps]: "parse_uint (show_u64 w) = Some w"
proof -
  have "unat w < 2 ^ 64" using unsigned_less [of w] by simp
  then show ?thesis by (simp add: parse_uint_def show_u64_def parse_digits_show_nat)
qed

text \<open>\<open>strconv.ParseInt\<close> and \<open>Atoi\<close>: an optional sign and digits, within 64 bits.\<close>

definition parse_int :: "string \<Rightarrow> int option" where
  "parse_int s =
     (let (neg, ds) = (case s of c # cs \<Rightarrow> if c = CHR ''-'' then (True, cs) else if c = CHR ''+'' then (False, cs) else (False, s)
                     | [] \<Rightarrow> (False, [])) in
      if ds = [] then None
      else case parse_digits 0 ds of
        None \<Rightarrow> None
      | Some n \<Rightarrow> let i = (if neg then - int n else int n) in if - (2 ^ 63) \<le> i \<and> i < 2 ^ 63 then Some i else None)"

definition int63 :: "int \<Rightarrow> bool" where
  "int63 n \<longleftrightarrow> - (2 ^ 63) \<le> n \<and> n < 2 ^ 63"

lemma show_nat_head: "\<exists>c cs. show_nat n = c # cs \<and> c \<noteq> CHR ''-'' \<and> c \<noteq> CHR ''+''"
proof -
  obtain c cs where n: "show_nat n = c # cs" by (cases "show_nat n") auto
  have "digit_val c \<noteq> None" using parse_digits_show_nat [of n] unfolding n by (auto split: option.splits)
  then have "c \<noteq> CHR ''-''" "c \<noteq> CHR ''+''" by (auto simp: digit_val_def digits_def)
  with n show ?thesis by blast
qed

lemma parse_int_show_int [fmt_simps]:
  assumes "int63 i"
  shows "parse_int (show_int i) = Some i"
proof -
  obtain c cs where n: "show_nat (nat \<bar>i\<bar>) = c # cs" and c: "c \<noteq> CHR ''-''" "c \<noteq> CHR ''+''"
    using show_nat_head by blast
  have d: "parse_digits 0 (c # cs) = Some (nat \<bar>i\<bar>)" using parse_digits_show_nat unfolding n [symmetric] .
  show ?thesis
  proof (cases "i < 0")
    case True
    then have "show_int i = CHR ''-'' # c # cs" using n by (simp add: show_int_def)
    then show ?thesis using d assms True by (simp add: parse_int_def int63_def del: parse_digits.simps)
  next
    case False
    then have "show_int i = c # cs" using n by (simp add: show_int_def)
    then show ?thesis using d c assms False by (simp add: parse_int_def int63_def del: parse_digits.simps)
  qed
qed

lemma show_int_u64: "show_int (uint (w :: u64)) = show_u64 w"
  by (simp add: show_int_def show_u64_def)

text \<open>\<open>strings.Split(s, sep)\<close> for a one-character separator.\<close>

fun split_on :: "char \<Rightarrow> string \<Rightarrow> string list" where
  "split_on c [] = [[]]"
| "split_on c (x # xs) =
     (if x = c then [] # split_on c xs
      else case split_on c xs of [] \<Rightarrow> [[x]] | w # ws \<Rightarrow> (x # w) # ws)"

lemma split_on_nonempty [simp]: "split_on c s \<noteq> []"
  by (cases s) (auto split: list.splits)

lemma split_on_none [fmt_simps]: "c \<notin> set s \<Longrightarrow> split_on c s = [s]"
  by (induction s) auto

lemma split_on_append [fmt_simps]:
  "c \<notin> set a \<Longrightarrow> split_on c (a @ c # b) = a # split_on c b"
  by (induction a) auto

definition has_prefix :: "string \<Rightarrow> string \<Rightarrow> bool" where
  "has_prefix p s \<longleftrightarrow> take (length p) s = p"

definition trim_prefix :: "string \<Rightarrow> string \<Rightarrow> string" where
  "trim_prefix p s = (if has_prefix p s then drop (length p) s else s)"

lemma has_prefix_append [fmt_simps]: "has_prefix p (p @ s)"
  by (simp add: has_prefix_def)

lemma trim_prefix_append [fmt_simps]: "trim_prefix p (p @ s) = s"
  by (simp add: trim_prefix_def has_prefix_append)

text \<open>Two colon-free strings around the same separator are determined by the whole.\<close>

lemma colon_split_inject:
  assumes "CHR '':'' \<notin> set a" and "CHR '':'' \<notin> set a'"
    and "a @ CHR '':'' # b = a' @ CHR '':'' # b'"
  shows "a = a' \<and> b = b'"
  using assms
proof (induction a arbitrary: a')
  case Nil
  then show ?case by (cases a') auto
next
  case (Cons x a)
  then show ?case by (cases a') auto
qed

text \<open>\<open>s[:n]\<close> panics when \<open>n\<close> exceeds the length: \<open>None\<close> is the panic.\<close>

definition slice_to :: "nat \<Rightarrow> 'a list \<Rightarrow> 'a list option" where
  "slice_to n xs = (if n \<le> length xs then Some (take n xs) else None)"

text \<open>\<open>[]byte(s)\<close>.\<close>

definition text_bytes :: "string \<Rightarrow> byte list" where
  "text_bytes s = map of_char s"

text \<open>\<open>hex.EncodeToString\<close>: two lower-case digits per byte.\<close>

definition hex_digits :: string where
  "hex_digits = ''0123456789abcdef''"

definition hex_byte :: "byte \<Rightarrow> string" where
  "hex_byte b = [hex_digits ! (unat b div 16), hex_digits ! (unat b mod 16)]"

definition hex_encode :: "byte list \<Rightarrow> string" where
  "hex_encode bs = concat (map hex_byte bs)"

lemma length_hex_encode [simp]: "length (hex_encode bs) = 2 * length bs"
  by (induction bs) (auto simp: hex_encode_def hex_byte_def)

lemma hex_encode_Nil [simp]: "hex_encode [] = []"
  by (simp add: hex_encode_def)

lemma unat_byte: "unat (b :: byte) < 256"
  using unsigned_less [of b] by simp

lemma hex_digit_inject: "i < 16 \<Longrightarrow> j < 16 \<Longrightarrow> hex_digits ! i = hex_digits ! j \<Longrightarrow> i = j"
proof -
  have "distinct hex_digits" "length hex_digits = 16" by (simp_all add: hex_digits_def)
  then show "i < 16 \<Longrightarrow> j < 16 \<Longrightarrow> hex_digits ! i = hex_digits ! j \<Longrightarrow> i = j" by (simp add: nth_eq_iff_index_eq)
qed

lemma hex_byte_inject: "hex_byte a = hex_byte b \<longleftrightarrow> a = b"
proof
  assume h: "hex_byte a = hex_byte b"
  have "unat a div 16 < 16" "unat b div 16 < 16" using unat_byte [of a] unat_byte [of b] by simp_all
  then have "unat a div 16 = unat b div 16" "unat a mod 16 = unat b mod 16"
    using h by (auto simp: hex_byte_def intro: hex_digit_inject)
  then have "unat a = unat b" by (metis div_mult_mod_eq)
  then show "a = b" by (simp add: word_unat_eq_iff)
qed simp

lemma hex_encode_Cons: "hex_encode (b # bs) = hex_byte b @ hex_encode bs"
  by (simp add: hex_encode_def)

lemma hex_encode_inject: "hex_encode as = hex_encode bs \<longleftrightarrow> as = bs"
proof
  show "hex_encode as = hex_encode bs \<Longrightarrow> as = bs"
  proof (induction as arbitrary: bs)
    case Nil
    then show ?case by (cases bs) (auto simp: hex_encode_Cons hex_byte_def)
  next
    case (Cons a as)
    then obtain b bs' where b: "bs = b # bs'" by (cases bs) (auto simp: hex_encode_Cons hex_byte_def)
    have "hex_byte a = hex_byte b \<and> hex_encode as = hex_encode bs'"
      using Cons.prems by (simp add: b hex_encode_Cons hex_byte_def)
    with Cons.IH show ?case by (simp add: b hex_byte_inject)
  qed
qed simp

section \<open>Maps\<close>

text \<open>
  A Go map is an association list with distinct keys; the position of an entry carries no
  meaning. Go leaves the order of a \<open>range\<close> loop open, so a model of such a loop takes
  the order as an argument \<open>ro\<close>: a function of the loop's tag and the keys. What
  \<open>ro\<close> returns is used when it is a permutation of the keys, so that every \<open>ro\<close>
  stands for a legal order and every legal order has an \<open>ro\<close>.
\<close>

type_synonym ('k, 'v) gomap = "('k \<times> 'v) list"
type_synonym range_order = "string \<Rightarrow> string list \<Rightarrow> string list"

definition go_ok :: "('k, 'v) gomap \<Rightarrow> bool" where
  "go_ok m \<longleftrightarrow> distinct (map fst m)"

definition mget :: "'v \<Rightarrow> ('k, 'v) gomap \<Rightarrow> 'k \<Rightarrow> 'v" where
  "mget z m k = (case map_of m k of None \<Rightarrow> z | Some v \<Rightarrow> v)"

definition order_keys :: "range_order \<Rightarrow> string \<Rightarrow> string list \<Rightarrow> string list" where
  "order_keys ro t ks = (if mset (ro t ks) = mset ks then ro t ks else ks)"

definition range_map :: "range_order \<Rightarrow> string \<Rightarrow> (string, 'v) gomap \<Rightarrow> (string \<times> 'v) list" where
  "range_map ro t m =
     map (\<lambda>k. (k, the (map_of m k))) (order_keys ro t (map fst m))"

definition in_order :: range_order where
  "in_order t ks = ks"

lemma go_ok_Nil [simp]: "go_ok []"
  by (simp add: go_ok_def)

lemma go_ok_update [simp]: "go_ok m \<Longrightarrow> go_ok (AList.update k v m)"
  by (simp add: go_ok_def distinct_update)

lemma go_ok_delete [simp]: "go_ok m \<Longrightarrow> go_ok (AList.delete k m)"
  by (simp add: go_ok_def distinct_delete)

lemma map_of_update [gomap_simps]: "map_of (AList.update k v m) = (map_of m)(k \<mapsto> v)"
  by (simp add: update_conv')

lemma map_of_delete [gomap_simps]: "map_of (AList.delete k m) = (map_of m)(k := None)"
  by (simp add: delete_conv')

lemma keys_update [gomap_simps]: "fst ` set (AList.update k v m) = insert k (fst ` set m)"
  by (simp add: dom_update)

lemma mset_order_keys [simp]: "mset (order_keys ro t ks) = mset ks"
  by (simp add: order_keys_def)

lemma set_order_keys [simp]: "set (order_keys ro t ks) = set ks"
  by (metis mset_order_keys set_mset_mset)

lemma length_order_keys [simp]: "length (order_keys ro t ks) = length ks"
  by (metis mset_order_keys size_mset)

lemma order_keys_in_order [simp]: "order_keys in_order t ks = ks"
  by (simp add: order_keys_def in_order_def)

lemma map_self_pairs: "go_ok m \<Longrightarrow> map (\<lambda>k. (k, the (map_of m k))) (map fst m) = m"
  unfolding go_ok_def by (induction m) (auto simp: map_idI image_iff intro!: map_idI)

lemma mset_range_map: "go_ok m \<Longrightarrow> mset (range_map ro t m) = mset m"
proof -
  assume ok: "go_ok m"
  have "mset (range_map ro t m) =
      image_mset (\<lambda>k. (k, the (map_of m k))) (mset (map fst m))"
    by (simp add: range_map_def del: mset_map) (simp add: mset_map)
  also have "\<dots> = mset (map (\<lambda>k. (k, the (map_of m k))) (map fst m))"
    by (simp only: mset_map)
  also have "\<dots> = mset m"
    using map_self_pairs [OF ok] by simp
  finally show ?thesis .
qed

lemma set_range_map: "go_ok m \<Longrightarrow> set (range_map ro t m) = set m"
  by (metis mset_range_map set_mset_mset)

lemma length_range_map [simp]: "length (range_map ro t m) = length m"
  by (simp add: range_map_def)

lemma range_map_Nil [simp]: "range_map ro t [] = []"
  by (metis length_0_conv length_range_map list.size(3))

lemma go_ok_range_map [simp]: "go_ok m \<Longrightarrow> go_ok (range_map ro t m)"
proof -
  assume "go_ok m"
  then have "distinct (order_keys ro t (map fst m))"
    by (metis go_ok_def mset_order_keys mset_eq_imp_distinct_iff)
  then show ?thesis by (simp add: go_ok_def range_map_def comp_def)
qed

lemma range_map_in_order: "go_ok m \<Longrightarrow> range_map in_order t m = m"
  by (simp add: range_map_def map_self_pairs [unfolded map_map])

lemma map_of_range_map: "go_ok m \<Longrightarrow> map_of (range_map ro t m) = map_of m"
  by (intro map_of_inject_set [THEN iffD2]) (auto simp: set_range_map go_ok_def [symmetric])

lemma delete_all:
  "map_of (fold AList.delete ks m) k = (if k \<in> set ks then None else map_of m k) \<and>
   (go_ok m \<longrightarrow> go_ok (fold AList.delete ks m))"
  by (induction ks arbitrary: m) (auto simp: gomap_simps)

lemma keys_map_of: "k \<in> fst ` set m \<longleftrightarrow> map_of m k \<noteq> None"
  by (simp add: map_of_eq_None_iff)

lemma entry_map_of: "go_ok m \<Longrightarrow> (k, b) \<in> set m \<longleftrightarrow> map_of m k = Some b"
  by (simp add: go_ok_def)

lemma length_keys: "go_ok m \<Longrightarrow> length m = card (fst ` set m)"
  by (metis distinct_card go_ok_def length_map list.set_map)

lemma length_update: "go_ok m \<Longrightarrow> length (AList.update k v m) = (if k \<in> fst ` set m then length m else length m + 1)"
  by (simp add: length_keys gomap_simps insert_absorb)

lemma length_delete: "go_ok m \<Longrightarrow> k \<in> fst ` set m \<Longrightarrow> length (AList.delete k m) + 1 = length m"
proof -
  assume m: "go_ok m" "k \<in> fst ` set m"
  have "fst ` set (AList.delete k m) = fst ` set m - {k}"
    by (rule set_eqI) (auto simp only: keys_map_of map_of_delete fun_upd_apply Diff_iff singleton_iff split: if_splits)
  then show ?thesis using m by (simp add: length_keys) (metis Suc_pred card_gt_0_iff empty_iff finite_imageI finite_set)
qed

section \<open>Integers as float64\<close>

text \<open>
  A JSON number decoded into an \<open>interface{}\<close> is a float64. An integer is rounded to
  53 significant bits, half to even.
\<close>

fun bit_len :: "nat \<Rightarrow> nat" where
  "bit_len n = (if n = 0 then 0 else Suc (bit_len (n div 2)))"

declare bit_len.simps [simp del]

definition round_even :: "nat \<Rightarrow> nat \<Rightarrow> nat" where
  "round_even n u =
     (let q = n div u; r = n mod u in
      if 2 * r < u \<or> (2 * r = u \<and> even q) then q * u else (q + 1) * u)"

definition f64_nat :: "nat \<Rightarrow> nat" where
  "f64_nat n = (if n \<le> 2 ^ 53 then n else round_even n (2 ^ (bit_len n - 53)))"

definition f64 :: "int \<Rightarrow> int" where
  "f64 i = (if i < 0 then - int (f64_nat (nat (- i))) else int (f64_nat (nat i)))"

lemma f64_exact: "\<bar>i\<bar> \<le> 2 ^ 53 \<Longrightarrow> f64 i = i"
  by (auto simp: f64_def f64_nat_def)

lemma f64_nonneg: "0 \<le> i \<Longrightarrow> 0 \<le> f64 i"
  by (simp add: f64_def)

end
