(* ===== verification/Float64.thy ===== *)
theory Float64
  imports Prelude Complex_Main
begin

text \<open>
  Go's \<open>float64\<close>: the values of IEEE 754 binary64 as rationals with the two infinities and NaN, and
  arithmetic as the exact result rounded to nearest, ties to even. The two zeros are one value; they
  differ only as divisors and when printed, which the code modelled here never does. The order of the type is that of
  \<open>sort.Float64s\<close>, with NaN first; the comparison operators of the language are \<open>flt\<close>.
\<close>

datatype float64 = NaN | Inf bool | Fin rat

section \<open>Rounding\<close>

definition pow2 :: "int \<Rightarrow> rat" where
  "pow2 e = (if 0 \<le> e then 2 ^ nat e else 1 / 2 ^ nat (- e))"

text \<open>The binary exponent of a positive number.\<close>

definition exponent_of :: "rat \<Rightarrow> int" where
  "exponent_of q =
     (let (a, b) = quotient_of q; k = int (bit_len (nat a)) - int (bit_len (nat b)) in
      if pow2 k \<le> q then k else k - 1)"

definition half_even :: "rat \<Rightarrow> int" where
  "half_even q = (let n = \<lfloor>q\<rfloor>; d = q - of_int n in if d < 1/2 \<or> d = 1/2 \<and> even n then n else n + 1)"

definition ulp_exp :: "rat \<Rightarrow> int" where
  "ulp_exp q = max (exponent_of q - 52) (- 1074)"

definition round_pos :: "rat \<Rightarrow> rat" where
  "round_pos q = of_int (half_even (q / pow2 (ulp_exp q))) * pow2 (ulp_exp q)"

definition round64 :: "rat \<Rightarrow> float64" where
  "round64 q =
     (if q = 0 then Fin 0
      else let r = round_pos \<bar>q\<bar> in if 2 ^ 1024 \<le> r then Inf (q < 0) else Fin (sgn q * r))"

section \<open>Operations\<close>

fun fadd :: "float64 \<Rightarrow> float64 \<Rightarrow> float64" where
  "fadd (Fin p) (Fin q) = round64 (p + q)"
| "fadd (Inf a) (Inf b) = (if a = b then Inf a else NaN)"
| "fadd (Inf a) (Fin q) = Inf a"
| "fadd (Fin p) (Inf b) = Inf b"
| "fadd _ _ = NaN"

fun fneg :: "float64 \<Rightarrow> float64" where
  "fneg (Fin p) = Fin (- p)"
| "fneg (Inf a) = Inf (\<not> a)"
| "fneg NaN = NaN"

definition fsub :: "float64 \<Rightarrow> float64 \<Rightarrow> float64" where
  "fsub x y = fadd x (fneg y)"

fun fmul :: "float64 \<Rightarrow> float64 \<Rightarrow> float64" where
  "fmul (Fin p) (Fin q) = round64 (p * q)"
| "fmul (Inf a) (Inf b) = Inf (a \<noteq> b)"
| "fmul (Inf a) (Fin q) = (if q = 0 then NaN else Inf (a \<noteq> (q < 0)))"
| "fmul (Fin p) (Inf b) = (if p = 0 then NaN else Inf ((p < 0) \<noteq> b))"
| "fmul _ _ = NaN"

fun fdiv :: "float64 \<Rightarrow> float64 \<Rightarrow> float64" where
  "fdiv (Fin p) (Fin q) = (if q = 0 then if p = 0 then NaN else Inf (p < 0) else round64 (p / q))"
| "fdiv (Inf a) (Fin q) = Inf (a \<noteq> (q < 0))"
| "fdiv (Fin p) (Inf b) = Fin 0"
| "fdiv _ _ = NaN"

fun flt :: "float64 \<Rightarrow> float64 \<Rightarrow> bool" where
  "flt (Fin p) (Fin q) \<longleftrightarrow> p < q"
| "flt (Inf a) (Inf b) \<longleftrightarrow> a \<and> \<not> b"
| "flt (Inf a) (Fin q) \<longleftrightarrow> a"
| "flt (Fin p) (Inf b) \<longleftrightarrow> \<not> b"
| "flt _ _ \<longleftrightarrow> False"

definition feq :: "float64 \<Rightarrow> float64 \<Rightarrow> bool" where
  "feq x y \<longleftrightarrow> x = y \<and> x \<noteq> NaN"

text \<open>Conversions: \<open>float64(n)\<close>, and \<open>int64(x)\<close>, which truncates and is \<open>- 2 ^ 63\<close> where the value does
  not fit (the language leaves that to the machine).\<close>

definition f_of_int :: "int \<Rightarrow> float64" where
  "f_of_int n = round64 (of_int n)"

definition trunc :: "rat \<Rightarrow> int" where
  "trunc q = (if q < 0 then - \<lfloor>- q\<rfloor> else \<lfloor>q\<rfloor>)"

fun f_to_int :: "float64 \<Rightarrow> int" where
  "f_to_int (Fin q) = (let n = trunc q in if - (2 ^ 63) \<le> n \<and> n < 2 ^ 63 then n else - (2 ^ 63))"
| "f_to_int _ = - (2 ^ 63)"

text \<open>\<open>math.Sqrt\<close>: the root is never half-way between two values, so comparing squares decides.\<close>

fun isqrt :: "nat \<Rightarrow> nat" where
  "isqrt n = (if n = 0 then 0 else let r = 2 * isqrt (n div 4) in if (r + 1) * (r + 1) \<le> n then r + 1 else r)"

declare isqrt.simps [simp del]

definition sqrt_pos :: "rat \<Rightarrow> rat" where
  "sqrt_pos q =
     (let u = pow2 (exponent_of q div 2 - 52); x = q / (u * u); m = int (isqrt (nat \<lfloor>x\<rfloor>)) in
      of_int (if x < (of_int m + 1/2) * (of_int m + 1/2) then m else m + 1) * u)"

fun fsqrt :: "float64 \<Rightarrow> float64" where
  "fsqrt (Fin q) = (if q < 0 then NaN else if q = 0 then Fin 0 else Fin (sqrt_pos q))"
| "fsqrt (Inf a) = (if a then NaN else Inf a)"
| "fsqrt NaN = NaN"

section \<open>The order of sorted slices\<close>

fun frank :: "float64 \<Rightarrow> nat \<times> rat" where
  "frank NaN = (0, 0)"
| "frank (Inf a) = (if a then (1, 0) else (3, 0))"
| "frank (Fin q) = (2, q)"

instantiation float64 :: linorder
begin

definition less_float64 :: "float64 \<Rightarrow> float64 \<Rightarrow> bool" where
  "x < y \<longleftrightarrow> fst (frank x) < fst (frank y) \<or> fst (frank x) = fst (frank y) \<and> snd (frank x) < snd (frank y)"

definition less_eq_float64 :: "float64 \<Rightarrow> float64 \<Rightarrow> bool" where
  "(x :: float64) \<le> y \<longleftrightarrow> x < y \<or> x = y"

instance
proof
  fix x y :: float64
  show "x \<le> y \<or> y \<le> x"
    by (cases x; cases y) (auto simp: less_float64_def less_eq_float64_def)
qed (auto simp: less_float64_def less_eq_float64_def)

end

lemma flt_less: "x \<noteq> NaN \<Longrightarrow> y \<noteq> NaN \<Longrightarrow> flt x y \<longleftrightarrow> x < y"
  by (cases x; cases y) (auto simp: less_float64_def)

lemma flt_NaN [simp]: "\<not> flt NaN y" "\<not> flt x NaN"
  by simp (cases x; simp)

lemma Fin_le [simp]: "Fin p \<le> Fin q \<longleftrightarrow> p \<le> q" "Fin p < Fin q \<longleftrightarrow> p < q"
  by (auto simp: less_float64_def less_eq_float64_def)

section \<open>What rounding does\<close>

lemma pow2_pos [simp]: "0 < pow2 e"
  by (simp add: pow2_def)

lemma pow2_nonzero [simp]: "pow2 e \<noteq> 0"
  by (simp add: pow2_def)

lemma bit_len_bounds: "0 < n \<Longrightarrow> 2 ^ (bit_len n - 1) \<le> n \<and> n < 2 ^ bit_len n"
proof (induction n rule: bit_len.induct)
  case (1 n)
  show ?case
  proof (cases "n = 1")
    case True
    then show ?thesis by (simp add: bit_len.simps)
  next
    case False
    with 1 have IH: "2 ^ (bit_len (n div 2) - 1) \<le> n div 2 \<and> n div 2 < 2 ^ bit_len (n div 2)" by auto
    from False 1(2) have "0 < n div 2" by linarith
    then obtain k where k: "bit_len (n div 2) = Suc k"
      by (metis bit_len.simps not_gr_zero)
    have "bit_len n = Suc (Suc k)" using 1(2) k by (simp add: bit_len.simps [of n])
    moreover have "2 * 2 ^ k \<le> n \<and> n < 2 * (2 * 2 ^ k)" using IH k by (simp add: less_mult_imp_div_less) linarith
    ultimately show ?thesis by simp
  qed
qed

lemma half_even_bounds: "q - 1/2 \<le> of_int (half_even q)" "of_int (half_even q) \<le> q + 1/2"
proof -
  define n where "n = \<lfloor>q\<rfloor>"
  have "of_int n \<le> q" "q < of_int n + 1" using floor_correct [of q] by (auto simp: n_def)
  then show "q - 1/2 \<le> of_int (half_even q)" "of_int (half_even q) \<le> q + 1/2"
    unfolding half_even_def Let_def n_def [symmetric] by (auto split: if_splits)
qed

lemma half_even_of_int [simp]: "half_even (of_int n) = n"
  by (simp add: half_even_def)

lemma half_even_mono:
  assumes "p \<le> q"
  shows "half_even p \<le> half_even q"
proof (cases "\<lfloor>p\<rfloor> = \<lfloor>q\<rfloor>")
  case True
  with assms show ?thesis by (auto simp: half_even_def Let_def)
next
  case False
  with floor_mono [OF assms] have "\<lfloor>p\<rfloor> + 1 \<le> \<lfloor>q\<rfloor>" by simp
  moreover have "half_even p \<le> \<lfloor>p\<rfloor> + 1" "\<lfloor>q\<rfloor> \<le> half_even q"
    by (simp_all add: half_even_def Let_def)
  ultimately show ?thesis by simp
qed


text \<open>The exponent is the binary logarithm, rounded down.\<close>

lemma pow2_add: "pow2 (a + b) = pow2 a * pow2 b"
proof -
  have "pow2 e = (2 :: rat) powi e" for e by (simp add: pow2_def power_int_def field_simps)
  then show ?thesis by (simp add: power_int_add)
qed

lemma pow2_diff: "pow2 (int m - int n) = 2 ^ m / 2 ^ n"
  using pow2_add [of "int m" "- int n"] by (simp add: pow2_def)

lemma pow2_Suc: "pow2 (e + 1) = 2 * pow2 e"
  using pow2_add [of e 1] by (simp add: pow2_def)

lemma exponent_of_bounds:
  assumes "0 < q"
  shows "pow2 (exponent_of q) \<le> q" "q < 2 * pow2 (exponent_of q)"
proof -
  obtain a b where ab: "quotient_of q = (a, b)" by fastforce
  then have q: "q = of_int a / of_int b" and b: "0 < b"
    using quotient_of_div quotient_of_denom_pos by auto
  from assms q b have a: "0 < a" by (simp add: zero_less_divide_iff)
  define i where "i = bit_len (nat a)"
  define j where "j = bit_len (nat b)"
  have i: "0 < i" "2 ^ (i - 1) \<le> nat a" "nat a < 2 ^ i"
    using a bit_len_bounds [of "nat a"] bit_len.simps [of "nat a"] by (auto simp: i_def)
  have j: "0 < j" "2 ^ (j - 1) \<le> nat b" "nat b < 2 ^ j"
    using b bit_len_bounds [of "nat b"] bit_len.simps [of "nat b"] by (auto simp: j_def)
  have A: "(2 :: rat) ^ (i - 1) \<le> of_int a" "(of_int a :: rat) < 2 ^ i"
    using i a by (metis (no_types, lifting) of_int_le_iff of_int_power of_int_numeral of_nat_le_iff
        of_nat_numeral of_nat_power int_nat_eq less_imp_le,
      metis (no_types, lifting) of_int_less_iff of_int_power of_int_numeral of_nat_less_iff
        of_nat_numeral of_nat_power int_nat_eq less_imp_le)
  have B: "(2 :: rat) ^ (j - 1) \<le> of_int b" "(of_int b :: rat) < 2 ^ j"
    using j b by (metis (no_types, lifting) of_int_le_iff of_int_power of_int_numeral of_nat_le_iff
        of_nat_numeral of_nat_power int_nat_eq less_imp_le,
      metis (no_types, lifting) of_int_less_iff of_int_power of_int_numeral of_nat_less_iff
        of_nat_numeral of_nat_power int_nat_eq less_imp_le)
  have bq: "0 < (of_int b :: rat)" using b by simp
  have I: "(2 :: rat) ^ i = 2 * 2 ^ (i - 1)" "(2 :: rat) ^ j = 2 * 2 ^ (j - 1)"
    using i(1) j(1) by (simp_all flip: power_Suc)
  have lo: "pow2 (int i - int j) < 2 * q"
  proof -
    have "(2 :: rat) ^ i * of_int b < 2 ^ i * 2 ^ j" using B(2) by simp
    also have "\<dots> \<le> 2 * of_int a * 2 ^ j" using A(1) I(1) by simp
    finally show ?thesis using bq by (simp add: pow2_diff q field_simps)
  qed
  have hi: "q < 2 * pow2 (int i - int j)"
  proof -
    have "of_int a * (2 :: rat) ^ j < 2 ^ i * 2 ^ j" using A(2) by simp
    also have "\<dots> \<le> 2 * 2 ^ i * of_int b" using B(1) I(2) by simp
    finally show ?thesis using bq by (simp add: pow2_diff q field_simps)
  qed
  have e: "exponent_of q = (if pow2 (int i - int j) \<le> q then int i - int j else int i - int j - 1)"
    by (simp add: exponent_of_def ab i_def j_def Let_def)
  have h: "pow2 (int i - int j) = 2 * pow2 (int i - int j - 1)"
    using pow2_Suc [of "int i - int j - 1"] by simp
  show "pow2 (exponent_of q) \<le> q" using lo h by (simp add: e)
  show "q < 2 * pow2 (exponent_of q)" using hi h by (simp add: e)
qed

lemma pow2_mono: "a \<le> b \<Longrightarrow> pow2 a \<le> pow2 b"
proof -
  have "pow2 e = (2 :: rat) powi e" for e by (simp add: pow2_def power_int_def field_simps)
  then show "a \<le> b \<Longrightarrow> pow2 a \<le> pow2 b" by (simp add: power_int_increasing)
qed

text \<open>Rounding does not pass an integer of at most 53 bits, and leaves it as it is.\<close>

lemma nat_over_ulp: "e \<le> 0 \<Longrightarrow> of_int n / pow2 e = of_int (n * 2 ^ nat (- e))"
  by (auto simp: pow2_def)

lemma ulp_exp_small:
  assumes "0 < q" and "q < 2 ^ 53"
  shows "ulp_exp q \<le> 0"
proof (rule ccontr)
  assume "\<not> ulp_exp q \<le> 0"
  then have "53 \<le> exponent_of q" by (simp add: ulp_exp_def)
  then have "pow2 53 \<le> pow2 (exponent_of q)" by (rule pow2_mono)
  then show False using exponent_of_bounds(1) [OF assms(1)] assms(2) by (simp add: pow2_def)
qed

lemma half_even_between:
  assumes "of_int m \<le> q" and "q \<le> of_int n"
  shows "m \<le> half_even q" "half_even q \<le> n"
  using half_even_mono [OF assms(1)] half_even_mono [OF assms(2)] by simp_all

lemma round_pos_between:
  assumes "0 < q" and "q < 2 ^ 53" and "of_int m \<le> q" and "q \<le> of_int n"
  shows "of_int m \<le> round_pos q" "round_pos q \<le> of_int n"
proof -
  let ?e = "ulp_exp q"
  have e: "?e \<le> 0" using assms(1,2) by (rule ulp_exp_small)
  have d: "x / pow2 ?e \<le> y / pow2 ?e" if "x \<le> y" for x y
    using that by (simp add: divide_right_mono less_imp_le)
  have "m * 2 ^ nat (- ?e) \<le> half_even (q / pow2 ?e)" "half_even (q / pow2 ?e) \<le> n * 2 ^ nat (- ?e)"
    using half_even_between [of "m * 2 ^ nat (- ?e)" "q / pow2 ?e" "n * 2 ^ nat (- ?e)"]
      d [OF assms(3)] d [OF assms(4)] nat_over_ulp [OF e] by simp_all
  then have "of_int (m * 2 ^ nat (- ?e)) * pow2 ?e \<le> round_pos q"
    "round_pos q \<le> of_int (n * 2 ^ nat (- ?e)) * pow2 ?e"
    unfolding round_pos_def by (simp_all only: mult_right_mono of_int_le_iff less_imp_le pow2_pos)
  then show "of_int m \<le> round_pos q" "round_pos q \<le> of_int n"
    by (simp_all only: nat_over_ulp [OF e, symmetric]) simp_all
qed


lemma exponent_of_unique:
  assumes "pow2 e \<le> q" and "q < 2 * pow2 e"
  shows "exponent_of q = e"
proof -
  have q: "0 < q" using assms(1) pow2_pos [of e] by linarith
  have no: "\<not> f + 1 \<le> g" if "q < 2 * pow2 f" "pow2 g \<le> q" for f g
    using pow2_mono [of "f + 1" g] pow2_Suc [of f] that by linarith
  from no [OF assms(2) exponent_of_bounds(1) [OF q]] no [OF exponent_of_bounds(2) [OF q] assms(1)]
  show ?thesis by linarith
qed

lemma round_pos_exact:
  assumes "0 < n" and "n \<le> 2 ^ 53"
  shows "round_pos (of_int n) = of_int n"
proof (cases "n = 2 ^ 53")
  case True
  have e: "exponent_of (2 ^ 53) = 53" by (rule exponent_of_unique) (simp_all add: pow2_def)
  have "half_even (of_int (2 ^ 52)) = 2 ^ 52" by (rule half_even_of_int)
  then show ?thesis unfolding True
    by (simp add: round_pos_def ulp_exp_def e [simplified] pow2_def)
next
  case False
  with assms have "(of_int n :: rat) < of_int (2 ^ 53)" by (simp only: of_int_less_iff)
  then have "(of_int n :: rat) < 2 ^ 53" by simp
  then show ?thesis using round_pos_between [of "of_int n" n n] assms by simp
qed

lemma f_of_int_exact:
  assumes "\<bar>n\<bar> \<le> 2 ^ 53"
  shows "f_of_int n = Fin (of_int n)"
proof (cases "n = 0")
  case False
  have r: "round_pos \<bar>of_int n\<bar> = \<bar>of_int n\<bar>"
    using round_pos_exact [of "\<bar>n\<bar>"] assms False by (simp add: of_int_abs)
  have "\<bar>of_int n :: rat\<bar> \<le> of_int (2 ^ 53)" using assms by (simp only: of_int_le_iff flip: of_int_abs)
  then have "\<bar>of_int n :: rat\<bar> < 2 ^ 1024" by simp
  with r False show ?thesis by (simp add: f_of_int_def round64_def Let_def sgn_mult_abs)
qed (simp add: f_of_int_def round64_def)


lemma round64_exact: "\<bar>n\<bar> \<le> 2 ^ 53 \<Longrightarrow> round64 (of_int n) = Fin (of_int n)"
  using f_of_int_exact by (simp add: f_of_int_def)

text \<open>A product that is not negative and does not exceed a small integer truncates to at most that integer.\<close>

lemma round64_to_int_le:
  assumes "0 \<le> q" and "q \<le> of_int n" and "n \<le> 2 ^ 53"
  shows "\<exists>r. round64 q = Fin r \<and> 0 \<le> r \<and> r \<le> of_int n"
proof (cases "q = of_int n \<or> q = 0")
  case True
  then show ?thesis
  proof
    assume q: "q = of_int n"
    with assms(1) have "0 \<le> n" by simp
    then show ?thesis using round64_exact [of n] assms(3) by (simp add: q)
  qed (use assms in \<open>auto simp: round64_def\<close>)
next
  case False
  have "of_int n \<le> (of_int (2 ^ 53) :: rat)" using assms(3) by (simp only: of_int_le_iff)
  with False assms have q: "0 < q" "q < 2 ^ 53" by simp_all
  have b: "0 \<le> round_pos q" "round_pos q \<le> of_int n"
    using round_pos_between [OF q, of 0 n] assms by simp_all
  moreover have "round_pos q < 2 ^ 1024"
  proof -
    have "round_pos q \<le> 2 ^ 53" using b(2) \<open>of_int n \<le> of_int (2 ^ 53)\<close> by simp
    also have "\<dots> < 2 ^ 1024" by simp
    finally show ?thesis .
  qed
  ultimately show ?thesis using q by (simp add: round64_def Let_def not_le)
qed

lemma trunc_bounds: "0 \<le> r \<Longrightarrow> r \<le> of_int n \<Longrightarrow> 0 \<le> trunc r \<and> trunc r \<le> n"
  by (simp add: trunc_def floor_le_iff)


lemma trunc_le: "0 \<le> r \<Longrightarrow> of_int (trunc r) \<le> r"
  by (simp add: trunc_def)

end
