(* ===== verification/FloatText.thy ===== *)
theory FloatText
  imports Float64
begin

text \<open>
  The texts of a \<open>float64\<close> with a fraction: the shortest decimal digits that read back as the same
  value, as \<open>strconv.AppendFloat\<close> with precision -1 prints them in its forms \<open>f\<close> and \<open>e\<close>.
\<close>

text \<open>The decimal exponent of a positive number: \<open>10 ^ e \<le> q < 10 ^ (e + 1)\<close>.\<close>

definition pow10 :: "int \<Rightarrow> rat" where
  "pow10 e = (if 0 \<le> e then 10 ^ nat e else 1 / 10 ^ nat (- e))"

definition dec_exponent :: "rat \<Rightarrow> int" where
  "dec_exponent q =
     (let (a, b) = quotient_of q; k = int (length (show_nat (nat a))) - int (length (show_nat (nat b))) in
      if pow10 k \<le> q then k else k - 1)"

text \<open>The number of \<open>n\<close> digits nearest to \<open>q\<close>, in units of the last digit.\<close>

definition dec_round :: "rat \<Rightarrow> int \<Rightarrow> nat \<Rightarrow> int" where
  "dec_round q e n = half_even (q / pow10 (e - int n + 1))"

text \<open>
  The nearest number of \<open>n\<close> digits need not read back as \<open>q\<close> though its neighbour beyond \<open>q\<close> does: below a
  power of two values lie closer. Seventeen digits tell all values apart.
\<close>

definition reads_back :: "rat \<Rightarrow> int \<Rightarrow> int \<Rightarrow> bool" where
  "reads_back q u d \<longleftrightarrow> round_pos (of_int d * pow10 u) = q"

fun shortest_digits :: "rat \<Rightarrow> int \<Rightarrow> nat list \<Rightarrow> int \<times> int" where
  "shortest_digits q e [] = (dec_round q e 17, e - 16)"
| "shortest_digits q e (n # ns) =
     (let d = dec_round q e n; u = e - int n + 1; d' = (if of_int d * pow10 u < q then d + 1 else d - 1) in
      if reads_back q u d then (d, u) else if reads_back q u d' then (d', u) else shortest_digits q e ns)"

text \<open>The digits without trailing zeros and the position of the point among them.\<close>

definition strip_zeros :: "string \<Rightarrow> string" where
  "strip_zeros s = rev (dropWhile (\<lambda>c. c = CHR ''0'') (rev s))"

definition decimal :: "rat \<Rightarrow> string \<times> int" where
  "decimal q =
     (if q = 0 then ([], 0)
      else let (d, u) = shortest_digits q (dec_exponent q) [1 ..< 18]; s = show_nat (nat d) in
        (strip_zeros s, int (length s) + u))"

definition form_f :: "string \<times> int \<Rightarrow> string" where
  "form_f x =
     (let (ds, p) = x in
      if p \<le> 0 then ''0'' @ (if ds = [] then [] else ''.'' @ replicate (nat (- p)) CHR ''0'' @ ds)
      else take (nat p) ds @ replicate (nat p - length ds) CHR ''0'' @
        (if nat p < length ds then CHR ''.'' # drop (nat p) ds else []))"

text \<open>The exponent has at least two digits; \<open>encoding/json\<close> shortens \<open>e-0\<close> to \<open>e-\<close>.\<close>

definition form_e :: "bool \<Rightarrow> string \<times> int \<Rightarrow> string" where
  "form_e json x =
     (let (ds, p) = x; e = p - 1; s = show_nat (nat \<bar>e\<bar>) in
      take 1 ds @ (if length ds \<le> 1 then [] else CHR ''.'' # drop 1 ds) @ ''e'' @ (if e < 0 then ''-'' else ''+'') @
        (if length s < 2 \<and> \<not> (json \<and> e < 0) then ''0'' @ s else s))"

definition signed :: "rat \<Rightarrow> string \<Rightarrow> string" where
  "signed q s = (if q < 0 then CHR ''-'' # s else s)"

text \<open>Form \<open>f\<close>, \<open>%v\<close> and \<open>%.0f\<close> of any value.\<close>

fun float_f :: "float64 \<Rightarrow> string" where
  "float_f (Fin q) = signed q (form_f (decimal \<bar>q\<bar>))"
| "float_f (Inf s) = (if s then ''-Inf'' else ''+Inf'')"
| "float_f NaN = ''NaN''"

fun float_v :: "float64 \<Rightarrow> string" where
  "float_v (Fin q) =
     (let x = decimal \<bar>q\<bar>; e = snd x - 1 in
      signed q (if q = 0 \<or> - 4 \<le> e \<and> e < 6 then form_f x else form_e False x))"
| "float_v x = float_f x"

fun float_0f :: "float64 \<Rightarrow> string" where
  "float_0f (Fin q) = signed q (show_nat (nat (half_even \<bar>q\<bar>)))"
| "float_0f x = float_f x"

text \<open>JSON; infinities and NaN have none.\<close>

fun float_json :: "float64 \<Rightarrow> string" where
  "float_json (Fin q) =
     (let x = decimal \<bar>q\<bar> in
      signed q (if q \<noteq> 0 \<and> (\<bar>q\<bar> < pow10 (- 6) \<or> pow10 21 \<le> \<bar>q\<bar>) then form_e True x else form_f x))"
| "float_json x = []"

end
