(* ===== verification/Json.thy ===== *)
theory Json
  imports FloatText
begin

text \<open>
  JSON as the program uses \<open>encoding/json\<close>: values, the type assertions made on an
  \<open>interface{}\<close>, and the decoding of an object into a struct, which goes on after a
  field of the wrong type and reports it at the end. Text that is not a JSON object or array
  is a \<open>Txt\<close> blob. \<open>JNum\<close> is a number without a fraction or an exponent, \<open>JFlt\<close> one with; fractions occur
  in the statistics that are written. A number
  read through an \<open>interface{}\<close> is rounded to float64; one decoded into an integer field
  is exact and range-checked. Objects have distinct keys, and no two that name the same struct
  field up to case.
\<close>

named_theorems json_simps "JSON decoding facts"

datatype json =
    JNull
  | JBool bool
  | JNum int
  | JFlt float64
  | JStr string
  | JArr "json list"
  | JObj "(string \<times> json) list"

text \<open>How \<open>json.Marshal\<close> writes a float: one without a fraction looks like an integer below \<open>1e21\<close>.\<close>

fun enc_float :: "float64 \<Rightarrow> json" where
  "enc_float (Fin q) = (if q = of_int \<lfloor>q\<rfloor> \<and> \<bar>q\<bar> < 10 ^ 21 then JNum \<lfloor>q\<rfloor> else JFlt (Fin q))"
| "enc_float x = JFlt x"

text \<open>What a Redis string or a network message holds: bare text, or marshalled JSON.\<close>

datatype blob = Txt string | Js json

text \<open>\<open>json.Marshal\<close> fails on infinities and NaN, and what is then stored is the empty text.\<close>

definition finite_float :: "float64 \<Rightarrow> bool" where
  "finite_float x = (case x of Fin q \<Rightarrow> True | _ \<Rightarrow> False)"

fun marshals :: "json \<Rightarrow> bool" where
  "marshals (JFlt x) = finite_float x"
| "marshals (JArr js) = list_all marshals js"
| "marshals (JObj kvs) = list_all (\<lambda>(k, j). marshals j) kvs"
| "marshals _ = True"

definition marshal :: "json \<Rightarrow> blob" where
  "marshal j = (if marshals j then Js j else Txt [])"

fun unmarshal :: "blob \<Rightarrow> json option" where
  "unmarshal (Txt s) = None"
| "unmarshal (Js j) = Some j"

text \<open>\<open>json.Unmarshal\<close> into a map: \<open>null\<close> gives the nil map without an error.\<close>

fun unmarshal_map :: "blob \<Rightarrow> (string, json) gomap option option" where
  "unmarshal_map (Js (JObj kvs)) = Some (Some kvs)"
| "unmarshal_map (Js JNull) = Some None"
| "unmarshal_map _ = None"

section \<open>Type assertions on decoded interface values\<close>

text \<open>Whoever asserts a number converts it to an integer next, which cuts off the fraction.\<close>

fun as_str :: "json \<Rightarrow> string option" where
  "as_str (JStr s) = Some s"
| "as_str _ = None"

fun as_num :: "json \<Rightarrow> int option" where
  "as_num (JNum n) = Some (f64 n)"
| "as_num (JFlt x) = Some (f_to_int x)"
| "as_num _ = None"

fun as_obj :: "json \<Rightarrow> (string, json) gomap option" where
  "as_obj (JObj kvs) = Some kvs"
| "as_obj _ = None"

fun as_arr :: "json \<Rightarrow> json list option" where
  "as_arr (JArr js) = Some js"
| "as_arr _ = None"

text \<open>\<open>m[k]\<close> followed by an assertion: absent and ill-typed both fail.\<close>

definition get_str :: "string \<Rightarrow> (string, json) gomap \<Rightarrow> string option" where
  "get_str k m = Option.bind (map_of m k) as_str"

definition get_num :: "string \<Rightarrow> (string, json) gomap \<Rightarrow> int option" where
  "get_num k m = Option.bind (map_of m k) as_num"

definition get_obj :: "string \<Rightarrow> (string, json) gomap \<Rightarrow> (string, json) gomap option" where
  "get_obj k m = Option.bind (map_of m k) as_obj"

definition get_arr :: "string \<Rightarrow> (string, json) gomap \<Rightarrow> json list option" where
  "get_arr k m = Option.bind (map_of m k) as_arr"

text \<open>Numbers that went through an \<open>interface{}\<close> are marshalled back as float64.\<close>

fun refloat :: "json \<Rightarrow> json" where
  "refloat (JNum n) = JNum (f64 n)"
| "refloat (JArr js) = JArr (map refloat js)"
| "refloat (JObj kvs) = JObj (map (\<lambda>(k, j). (k, refloat j)) kvs)"
| "refloat j = j"

section \<open>Field names\<close>

definition lower_char :: "char \<Rightarrow> char" where
  "lower_char c =
     (case map_of (zip ''ABCDEFGHIJKLMNOPQRSTUVWXYZ'' ''abcdefghijklmnopqrstuvwxyz'') c of
        None \<Rightarrow> c
      | Some d \<Rightarrow> d)"

definition lower :: "string \<Rightarrow> string" where
  "lower s = map lower_char s"

text \<open>A struct field takes the entry whose key equals its name up to case.\<close>

fun field :: "string \<Rightarrow> (string, json) gomap \<Rightarrow> json option" where
  "field n [] = None"
| "field n ((k, v) # kvs) = (if lower k = lower n then Some v else field n kvs)"

section \<open>Decoding into typed fields\<close>

text \<open>
  A decoder takes the field's present value and returns the new one and whether the type
  fitted. \<open>null\<close> leaves a value as it is; a misfit leaves it and is reported.
\<close>

type_synonym 'a dec = "'a \<Rightarrow> json \<Rightarrow> 'a \<times> bool"

fun dec_str :: "string dec" where
  "dec_str cur (JStr s) = (s, True)"
| "dec_str cur JNull = (cur, True)"
| "dec_str cur _ = (cur, False)"

fun dec_bool :: "bool dec" where
  "dec_bool cur (JBool b) = (b, True)"
| "dec_bool cur JNull = (cur, True)"
| "dec_bool cur _ = (cur, False)"

fun dec_u64 :: "u64 dec" where
  "dec_u64 cur (JNum n) = (if 0 \<le> n \<and> n < 2 ^ 64 then (word_of_int n, True) else (cur, False))"
| "dec_u64 cur JNull = (cur, True)"
| "dec_u64 cur _ = (cur, False)"

fun dec_u32 :: "u32 dec" where
  "dec_u32 cur (JNum n) = (if 0 \<le> n \<and> n < 2 ^ 32 then (word_of_int n, True) else (cur, False))"
| "dec_u32 cur JNull = (cur, True)"
| "dec_u32 cur _ = (cur, False)"

fun dec_int :: "int dec" where
  "dec_int cur (JNum n) = (if - (2 ^ 63) \<le> n \<and> n < 2 ^ 63 then (n, True) else (cur, False))"
| "dec_int cur JNull = (cur, True)"
| "dec_int cur _ = (cur, False)"

fun dec_list :: "'a \<Rightarrow> 'a dec \<Rightarrow> 'a list dec" where
  "dec_list z d cur (JArr js) = (map (\<lambda>j. fst (d z j)) js, list_all (\<lambda>j. snd (d z j)) js)"
| "dec_list z d cur JNull = ([], True)"
| "dec_list z d cur _ = (cur, False)"

fun dec_map :: "'a \<Rightarrow> 'a dec \<Rightarrow> (string, 'a) gomap dec" where
  "dec_map z d cur (JObj kvs) =
     (map (\<lambda>(k, j). (k, fst (d z j))) kvs, list_all (\<lambda>(k, j). snd (d z j)) kvs)"
| "dec_map z d cur JNull = ([], True)"
| "dec_map z d cur _ = (cur, False)"

definition dec_field :: "string \<Rightarrow> 'a dec \<Rightarrow> (string, json) gomap \<Rightarrow> 'a \<Rightarrow> 'a \<times> bool" where
  "dec_field n d kvs cur = (case field n kvs of None \<Rightarrow> (cur, True) | Some j \<Rightarrow> d cur j)"

lemma dec_u64_exact [json_simps]: "dec_u64 cur (JNum (uint w)) = (w, True)"
  using unsigned_less [of w] by simp

lemma dec_u32_exact [json_simps]: "dec_u32 cur (JNum (uint w)) = (w, True)"
  using unsigned_less [of w] by simp

lemma dec_list_map:
  assumes "\<And>x. x \<in> set xs \<Longrightarrow> d z (e x) = (x, True)"
  shows "dec_list z d cur (JArr (map e xs)) = (xs, True)"
  using assms by (auto simp: list_all_iff comp_def intro!: map_idI)

lemma dec_map_map:
  assumes "\<And>k x. (k, x) \<in> set m \<Longrightarrow> d z (e x) = (x, True)"
  shows "dec_map z d cur (JObj (map (\<lambda>(k, x). (k, e x)) m)) = (m, True)"
  using assms by (auto simp: list_all_iff comp_def case_prod_unfold intro!: map_idI)

section \<open>Byte slices in JSON: base64\<close>

definition b64_alphabet :: string where
  "b64_alphabet = ''ABCDEFGHIJKLMNOPQRSTUVWXYZabcdefghijklmnopqrstuvwxyz0123456789+/''"

definition b64_char :: "nat \<Rightarrow> char" where
  "b64_char n = b64_alphabet ! n"

definition b64_val :: "char \<Rightarrow> nat option" where
  "b64_val c = map_of (zip b64_alphabet [0..<64]) c"

fun b64_encode :: "byte list \<Rightarrow> string" where
  "b64_encode [] = []"
| "b64_encode [a] =
     (let n = unat a * 65536 in
      [b64_char (n div 262144), b64_char (n div 4096 mod 64), CHR ''='', CHR ''=''])"
| "b64_encode [a, b] =
     (let n = unat a * 65536 + unat b * 256 in
      [b64_char (n div 262144), b64_char (n div 4096 mod 64), b64_char (n div 64 mod 64), CHR ''=''])"
| "b64_encode (a # b # c # bs) =
     (let n = unat a * 65536 + unat b * 256 + unat c in
      [b64_char (n div 262144), b64_char (n div 4096 mod 64), b64_char (n div 64 mod 64),
       b64_char (n mod 64)] @ b64_encode bs)"

definition b64_quad :: "char \<Rightarrow> char \<Rightarrow> char \<Rightarrow> char \<Rightarrow> nat option" where
  "b64_quad p q r s =
     (case (b64_val p, b64_val q, b64_val r, b64_val s) of
        (Some a, Some b, Some c, Some d) \<Rightarrow> Some (a * 262144 + b * 4096 + c * 64 + d)
      | _ \<Rightarrow> None)"

fun b64_decode :: "string \<Rightarrow> byte list option" where
  "b64_decode [] = Some []"
| "b64_decode (p # q # r # s # cs) =
     (if s = CHR ''='' \<and> r = CHR ''='' \<and> cs = [] then
        map_option (\<lambda>n. [of_nat (n div 65536)]) (b64_quad p q (CHR ''A'') (CHR ''A''))
      else if s = CHR ''='' \<and> cs = [] then
        map_option (\<lambda>n. [of_nat (n div 65536), of_nat (n div 256 mod 256)])
          (b64_quad p q r (CHR ''A''))
      else
        (case b64_quad p q r s of
           None \<Rightarrow> None
         | Some n \<Rightarrow>
             map_option (\<lambda>bs. of_nat (n div 65536) # of_nat (n div 256 mod 256) # of_nat (n mod 256) # bs)
               (b64_decode cs)))"
| "b64_decode _ = None"

lemma b64_alphabet_distinct: "distinct b64_alphabet"
  by (simp add: b64_alphabet_def)

lemma length_b64_alphabet: "length b64_alphabet = 64"
  by (simp add: b64_alphabet_def)

lemma b64_val_char [simp]: "n < 64 \<Longrightarrow> b64_val (b64_char n) = Some n"
  using b64_alphabet_distinct length_b64_alphabet
  by (simp add: b64_val_def b64_char_def map_of_zip_nth)

lemma b64_char_not_pad [simp]: "n < 64 \<Longrightarrow> b64_char n \<noteq> CHR ''=''"
proof -
  assume "n < 64"
  then have "b64_char n \<in> set b64_alphabet"
    by (simp add: b64_char_def length_b64_alphabet)
  then show ?thesis by (auto simp: b64_alphabet_def)
qed

lemma b64_val_A [simp]: "b64_val (CHR ''A'') = Some 0"
  by (simp add: b64_val_def b64_alphabet_def upt_rec)

lemma sextets_sum:
  assumes "n = q1 * 64 + r0" and "q1 = q2 * 64 + r1" and "q2 = q3 * 64 + (r2 :: nat)"
  shows "q3 * 262144 + r2 * 4096 + r1 * 64 + r0 = n"
  using assms by simp

lemma octets:
  assumes "y < 256" and "z < (256 :: nat)"
  shows "(x * 65536 + y * 256 + z) div 65536 = x"
    and "(x * 65536 + y * 256 + z) div 256 mod 256 = y"
    and "(x * 65536 + y * 256 + z) mod 256 = z"
proof -
  have e: "x * 65536 + y * 256 + z = z + (y + x * 256) * 256" by simp
  have d: "(x * 65536 + y * 256 + z) div 256 = y + x * 256"
    unfolding e using assms(2) by simp
  show "(x * 65536 + y * 256 + z) div 256 mod 256 = y"
    unfolding d using assms(1) by simp
  have "(x * 65536 + y * 256 + z) div 65536 = (x * 65536 + y * 256 + z) div 256 div 256"
    by (simp flip: div_mult2_eq)
  also have "\<dots> = x" unfolding d using assms(1) by simp
  finally show "(x * 65536 + y * 256 + z) div 65536 = x" .
  show "(x * 65536 + y * 256 + z) mod 256 = z"
    unfolding e using assms(2) by (simp only: mod_mult_self1 mod_less)
qed

lemma b64_quad_chars:
  assumes "n < 16777216"
  shows "b64_quad (b64_char (n div 262144)) (b64_char (n div 4096 mod 64))
     (b64_char (n div 64 mod 64)) (b64_char (n mod 64)) = Some n"
proof -
  have "n div 262144 < 64" using assms by (simp add: less_mult_imp_div_less)
  moreover have "n div 262144 * 262144 + n div 4096 mod 64 * 4096 + n div 64 mod 64 * 64 + n mod 64 = n"
  proof -
    have "n div 4096 = n div 64 div 64" "n div 262144 = n div 64 div 64 div 64"
      by (simp_all flip: div_mult2_eq)
    then show ?thesis
      using sextets_sum [of n "n div 64" "n mod 64" "n div 64 div 64" "n div 64 mod 64"
          "n div 64 div 64 div 64" "n div 64 div 64 mod 64"] by simp
  qed
  ultimately show ?thesis by (simp add: b64_quad_def)
qed

lemma b64_roundtrip: "b64_decode (b64_encode bs) = Some bs"
proof (induction bs rule: b64_encode.induct)
  case 1
  show ?case by simp
next
  case (2 a)
  define n where "n = unat a * 65536"
  have n: "n < 16777216" using unat_byte [of a] by (simp add: n_def)
  have z: "n div 64 mod 64 = 0" "n mod 64 = 0" by (auto simp: n_def)
  have A: "b64_char 0 = CHR ''A''" by (simp add: b64_char_def b64_alphabet_def)
  have "b64_quad (b64_char (n div 262144)) (b64_char (n div 4096 mod 64)) (CHR ''A'') (CHR ''A'') = Some n"
    using b64_quad_chars [OF n] by (simp add: z A)
  moreover have "of_nat (n div 65536) = a" by (simp add: n_def)
  ultimately show ?case by (simp add: Let_def flip: n_def)
next
  case (3 a b)
  define n where "n = unat a * 65536 + unat b * 256"
  have n: "n < 16777216" using unat_byte [of a] unat_byte [of b] by (simp add: n_def)
  have z: "n mod 64 = 0" unfolding n_def by presburger
  have A: "b64_char 0 = CHR ''A''" by (simp add: b64_char_def b64_alphabet_def)
  have q: "b64_quad (b64_char (n div 262144)) (b64_char (n div 4096 mod 64))
      (b64_char (n div 64 mod 64)) (CHR ''A'') = Some n"
    using b64_quad_chars [OF n] by (simp add: z A)
  have d: "n div 65536 = unat a" "n div 256 mod 256 = unat b"
    using unat_byte [of b] by (simp_all add: n_def)
  have "b64_char (n div 64 mod 64) \<noteq> CHR ''=''" by simp
  with q d show ?case by (simp add: Let_def flip: n_def)
next
  case (4 a b c bs)
  define n where "n = unat a * 65536 + unat b * 256 + unat c"
  have n: "n < 16777216"
    using unat_byte [of a] unat_byte [of b] unat_byte [of c] by (simp add: n_def)
  have d: "n div 65536 = unat a" "n div 256 mod 256 = unat b" "n mod 256 = unat c"
    using octets [OF unat_byte unat_byte, of "unat a" b c] by (simp_all add: n_def)
  have "b64_char (n mod 64) \<noteq> CHR ''=''" by simp
  with b64_quad_chars [OF n] d "4.IH" show ?case by (simp add: Let_def flip: n_def)
qed

definition enc_bytes :: "byte list \<Rightarrow> json" where
  "enc_bytes bs = JStr (b64_encode bs)"

fun dec_bytes :: "byte list dec" where
  "dec_bytes cur (JStr s) = (case b64_decode s of None \<Rightarrow> (cur, False) | Some bs \<Rightarrow> (bs, True))"
| "dec_bytes cur JNull = ([], True)"
| "dec_bytes cur _ = (cur, False)"

lemma dec_enc_bytes [json_simps]: "dec_bytes cur (enc_bytes bs) = (bs, True)"
  by (simp add: enc_bytes_def b64_roundtrip)

end
