(* ===== verification/GoText.thy ===== *)
theory GoText
  imports Json "HOL-Library.Char_ord" "HOL-Library.List_Lexorder"
begin

text \<open>
  Go text handling the handlers rely on: \<open>%v\<close> of an \<open>interface{}\<close>, \<open>strconv.ParseFloat\<close> of a
  decimal, parsing of JSON text, and \<open>pkgs/utils/epoch_formatter.go\<close>. Hexadecimal, infinite and
  not-a-number floats and JSON numbers with a fraction are outside the model: \<open>parse_float\<close> and
  \<open>parse_json\<close> reject them.
\<close>

section \<open>Printing an interface value\<close>

text \<open>\<open>%v\<close> of a float64: the shortest digits that read back, in exponent form from \<open>1e+06\<close> on.\<close>

definition round_digits :: "nat \<Rightarrow> nat \<Rightarrow> nat" where
  "round_digits d n =
     (let k = length (show_nat n) in if k \<le> d then n else round_even n (10 ^ (k - d)))"

fun shortest :: "nat \<Rightarrow> nat list \<Rightarrow> nat" where
  "shortest n [] = n"
| "shortest n (d # ds) = (if f64_nat (round_digits d n) = n then round_digits d n else shortest n ds)"

definition two_digits :: "nat \<Rightarrow> string" where
  "two_digits n = (if n < 10 then CHR ''0'' # show_nat n else show_nat n)"

definition show_f64_nat :: "nat \<Rightarrow> string" where
  "show_f64_nat n =
     (if n < 1000000 then show_nat n
      else let s = show_nat (shortest n [1..<18]); ds = strip_zeros s; e = length s - 1 in
        (if length ds \<le> 1 then ds else hd ds # CHR ''.'' # tl ds) @ ''e+'' @ two_digits e)"

definition show_f64 :: "int \<Rightarrow> string" where
  "show_f64 i = (if i < 0 then CHR ''-'' # show_f64_nat (nat (- i)) else show_f64_nat (nat i))"

fun join_with :: "string \<Rightarrow> string list \<Rightarrow> string" where
  "join_with sep [] = []"
| "join_with sep [x] = x"
| "join_with sep (x # y # xs) = x @ sep @ join_with sep (y # xs)"

fun show_val :: "json \<Rightarrow> string" where
  "show_val JNull = ''<nil>''"
| "show_val (JBool b) = (if b then ''true'' else ''false'')"
| "show_val (JNum n) = show_f64 (f64 n)"
| "show_val (JFlt x) = float_v x"
| "show_val (JStr s) = s"
| "show_val (JArr js) = ''['' @ join_with '' '' (map show_val js) @ '']''"
| "show_val (JObj kvs) =
     ''map['' @ join_with '' ''
       (map (\<lambda>(k, s). k @ '':'' @ s) (sort_key fst (map (\<lambda>(k, j). (k, show_val j)) kvs))) @ '']''"

text \<open>\<open>fmt.Sprintf("%v", m[k])\<close>: an absent key prints as the nil interface.\<close>

definition show_get :: "string \<Rightarrow> (string, json) gomap \<Rightarrow> string" where
  "show_get k m = (case map_of m k of None \<Rightarrow> ''<nil>'' | Some j \<Rightarrow> show_val j)"

section \<open>Parsing a float\<close>

definition take_digits :: "string \<Rightarrow> string \<times> string" where
  "take_digits s = (takeWhile (\<lambda>c. digit_val c \<noteq> None) s, dropWhile (\<lambda>c. digit_val c \<noteq> None) s)"

definition nat_of_digits :: "string \<Rightarrow> nat" where
  "nat_of_digits s = (case parse_digits 0 s of None \<Rightarrow> 0 | Some n \<Rightarrow> n)"

definition round_div :: "nat \<Rightarrow> nat \<Rightarrow> nat" where
  "round_div p q =
     (let d = p div q; r = p mod q in if 2 * r < q \<or> (2 * r = q \<and> even d) then d else d + 1)"

text \<open>The integer part of \<open>p / q\<close> rounded to a float64.\<close>

definition f64_trunc :: "nat \<Rightarrow> nat \<Rightarrow> nat" where
  "f64_trunc p q =
     (let l = bit_len (p div q) in
      if l \<le> 53 then round_div (p * 2 ^ (53 - l)) q div 2 ^ (53 - l)
      else round_div p (q * 2 ^ (l - 53)) * 2 ^ (l - 53))"

text \<open>\<open>[eE][+-]?digits\<close>, or nothing.\<close>

definition parse_exponent :: "string \<Rightarrow> int option" where
  "parse_exponent s =
     (case s of
        [] \<Rightarrow> Some 0
      | c # cs \<Rightarrow>
          if c = CHR ''e'' \<or> c = CHR ''E'' then
            (let (neg, ds) = (case cs of
                 [] \<Rightarrow> (False, [])
               | d # r \<Rightarrow> if d = CHR ''-'' then (True, r) else if d = CHR ''+'' then (False, r) else (False, cs))
             in if ds = [] \<or> snd (take_digits ds) \<noteq> [] then None
                else Some (if neg then - int (nat_of_digits ds) else int (nat_of_digits ds)))
          else None)"

definition split_sign :: "string \<Rightarrow> bool \<times> string" where
  "split_sign s = (case s of
       [] \<Rightarrow> (False, [])
     | c # cs \<Rightarrow> if c = CHR ''-'' then (True, cs) else if c = CHR ''+'' then (False, cs) else (False, s))"

definition split_point :: "string \<Rightarrow> string \<times> string \<times> string" where
  "split_point u =
     (let (ip, r) = take_digits u;
          (fp, r') = (case r of c # cs \<Rightarrow> if c = CHR ''.'' then take_digits cs else ([], r) | [] \<Rightarrow> ([], []))
      in (ip, fp, r'))"

text \<open>
  \<open>parse_float\<close> yields whether the float is negative and its integer part without the sign. A
  magnitude of \<open>1e310\<close> or more is a range error, one below \<open>1e-323\<close> is zero.
\<close>

definition scaled_trunc :: "nat \<Rightarrow> int \<Rightarrow> nat option" where
  "scaled_trunc m x =
     (let top = x + int (length (show_nat m)) in
      if m = 0 then Some 0
      else if 310 < top then None
      else if 0 \<le> x then Some (f64_trunc (m * 10 ^ nat x) 1)
      else if top < 0 then Some 0
      else Some (f64_trunc m (10 ^ nat (- x))))"

definition parse_float :: "string \<Rightarrow> (bool \<times> nat) option" where
  "parse_float s =
     (let (neg, u) = split_sign s; (ip, fp, r) = split_point u in
      if ip = [] \<and> fp = [] then None
      else case parse_exponent r of
        None \<Rightarrow> None
      | Some e \<Rightarrow>
          (let m = nat_of_digits (ip @ fp); x = e - int (length fp) in
           map_option (\<lambda>n. (neg \<and> m \<noteq> 0 \<and> - 323 < x + int (length (show_nat m)), n)) (scaled_trunc m x)))"

text \<open>The float itself; one too large is an error.\<close>

definition parse_f64 :: "string \<Rightarrow> float64 option" where
  "parse_f64 s =
     (let (neg, u) = split_sign s; (ip, fp, r) = split_point u in
      if ip = [] \<and> fp = [] then None
      else case parse_exponent r of
        None \<Rightarrow> None
      | Some e \<Rightarrow>
          (case round64 (of_nat (nat_of_digits (ip @ fp)) * pow10 (e - int (length fp))) of
             Fin q \<Rightarrow> Some (Fin (if neg then - q else q))
           | _ \<Rightarrow> None))"

section \<open>Trimming\<close>

text \<open>\<open>strings.Trim\<close> with a set of characters, and \<open>strings.TrimSpace\<close> of a text of bytes.\<close>

definition trim_chars :: "(char \<Rightarrow> bool) \<Rightarrow> string \<Rightarrow> string" where
  "trim_chars p s = rev (dropWhile p (rev (dropWhile p s)))"

definition is_blank :: "char \<Rightarrow> bool" where
  "is_blank c \<longleftrightarrow> of_char c \<in> {9, 10, 11, 12, 13, 32 :: nat}"

definition trim_space :: "string \<Rightarrow> string" where
  "trim_space s = trim_chars is_blank s"

lemma trim_chars_clean: "(\<And>c. c \<in> set s \<Longrightarrow> \<not> p c) \<Longrightarrow> trim_chars p s = s"
proof -
  assume a: "\<And>c. c \<in> set s \<Longrightarrow> \<not> p c"
  have d: "dropWhile p t = t" if "set t \<subseteq> set s" for t
    using that a by (cases t) auto
  show ?thesis unfolding trim_chars_def by (simp add: d)
qed

lemma set_trim_chars: "set (trim_chars p s) \<subseteq> set s"
proof
  fix x assume "x \<in> set (trim_chars p s)"
  then have "x \<in> set (dropWhile p (rev (dropWhile p s)))" by (simp add: trim_chars_def)
  from set_dropWhileD [OF this] show "x \<in> set s" using set_dropWhileD [of x p s] by simp
qed

section \<open>Parsing JSON text\<close>

definition is_space :: "char \<Rightarrow> bool" where
  "is_space c \<longleftrightarrow> of_char c \<in> {9, 10, 13, 32 :: nat}"

definition skip_ws :: "string \<Rightarrow> string" where
  "skip_ws = dropWhile is_space"

definition escapes :: "(char \<times> char) list" where
  "escapes = [(CHR 0x22, CHR 0x22), (CHR 0x5C, CHR 0x5C), (CHR ''/'', CHR ''/''), (CHR ''b'', CHR 0x08),
     (CHR ''f'', CHR 0x0C), (CHR ''n'', CHR 0x0A), (CHR ''r'', CHR 0x0D), (CHR ''t'', CHR 0x09)]"

text \<open>The rest of a string literal after its opening quote.\<close>

fun parse_str :: "string \<Rightarrow> (string \<times> string) option" where
  "parse_str [] = None"
| "parse_str [c] = (if c = CHR 0x22 then Some ([], []) else None)"
| "parse_str (c # d # cs) =
     (if c = CHR 0x22 then Some ([], d # cs)
      else if c = CHR 0x5C then
        (case map_of escapes d of
           None \<Rightarrow> None
         | Some x \<Rightarrow> map_option (\<lambda>(s, r). (x # s, r)) (parse_str cs))
      else if of_char c < (32 :: nat) then None
      else map_option (\<lambda>(s, r). (c # s, r)) (parse_str (d # cs)))"

definition parse_num :: "string \<Rightarrow> (json \<times> string) option" where
  "parse_num s =
     (let (neg, u) = (case s of c # cs \<Rightarrow> if c = CHR ''-'' then (True, cs) else (False, s) | [] \<Rightarrow> (False, []));
          (ds, r) = take_digits u in
      if ds = [] \<or> (hd ds = CHR ''0'' \<and> tl ds \<noteq> []) then None
      else Some (JNum (if neg then - int (nat_of_digits ds) else int (nat_of_digits ds)), r))"

text \<open>
  A value, the elements after \<open>[\<close> and the members after \<open>{\<close>; each step consumes a character, so
  the length of the text is fuel enough.
\<close>

fun parse_val :: "nat \<Rightarrow> string \<Rightarrow> (json \<times> string) option"
  and parse_elems :: "nat \<Rightarrow> string \<Rightarrow> (json list \<times> string) option"
  and parse_members :: "nat \<Rightarrow> string \<Rightarrow> ((string \<times> json) list \<times> string) option" where
  "parse_val 0 s = None"
| "parse_val (Suc n) s0 =
     (let s = skip_ws s0 in
      case s of
        [] \<Rightarrow> None
      | c # cs \<Rightarrow>
          if c = CHR 0x22 then map_option (\<lambda>(x, r). (JStr x, r)) (parse_str cs)
          else if c = CHR ''['' then
            (case skip_ws cs of
               d # r \<Rightarrow> if d = CHR '']'' then Some (JArr [], r)
                        else map_option (\<lambda>(js, r'). (JArr js, r')) (parse_elems n cs)
             | [] \<Rightarrow> None)
          else if c = CHR ''{'' then
            (case skip_ws cs of
               d # r \<Rightarrow> if d = CHR ''}'' then Some (JObj [], r)
                        else map_option (\<lambda>(kvs, r'). (JObj kvs, r')) (parse_members n cs)
             | [] \<Rightarrow> None)
          else if has_prefix ''null'' s then Some (JNull, drop 4 s)
          else if has_prefix ''true'' s then Some (JBool True, drop 4 s)
          else if has_prefix ''false'' s then Some (JBool False, drop 5 s)
          else parse_num s)"
| "parse_elems 0 s = None"
| "parse_elems (Suc n) s =
     (case parse_val n s of
        None \<Rightarrow> None
      | Some (j, r) \<Rightarrow>
          (case skip_ws r of
             [] \<Rightarrow> None
           | c # cs \<Rightarrow>
               if c = CHR '']'' then Some ([j], cs)
               else if c = CHR '','' then map_option (\<lambda>(js, r'). (j # js, r')) (parse_elems n cs)
               else None))"
| "parse_members 0 s = None"
| "parse_members (Suc n) s =
     (case skip_ws s of
        [] \<Rightarrow> None
      | q # t \<Rightarrow>
          if q \<noteq> CHR 0x22 then None
          else case parse_str t of
            None \<Rightarrow> None
          | Some (k, r) \<Rightarrow>
              (case skip_ws r of
                 [] \<Rightarrow> None
               | d # r1 \<Rightarrow>
                   if d \<noteq> CHR '':'' then None
                   else case parse_val n r1 of
                     None \<Rightarrow> None
                   | Some (j, r2) \<Rightarrow>
                       (case skip_ws r2 of
                          [] \<Rightarrow> None
                        | c # cs \<Rightarrow>
                            if c = CHR ''}'' then Some ([(k, j)], cs)
                            else if c = CHR '','' then
                              map_option (\<lambda>(kvs, r'). ((k, j) # kvs, r')) (parse_members n cs)
                            else None)))"

definition parse_json :: "string \<Rightarrow> json option" where
  "parse_json s =
     (case parse_val (Suc (length s)) s of
        None \<Rightarrow> None
      | Some (j, r) \<Rightarrow> if skip_ws r = [] then Some j else None)"

text \<open>The bytes of a string, seen as a blob.\<close>

definition blob_of_text :: "string \<Rightarrow> blob" where
  "blob_of_text s = (case parse_json s of None \<Rightarrow> Txt s | Some j \<Rightarrow> Js j)"

section \<open>Epoch formatter\<close>

definition isScientificNotation :: "string \<Rightarrow> bool" where
  "isScientificNotation s \<longleftrightarrow> 0 < length s \<and> (last s = CHR ''e'' \<or> last s = CHR ''E'')"

definition show_float :: "bool \<times> nat \<Rightarrow> string" where
  "show_float x = (if fst x then CHR ''-'' # show_nat (snd x) else show_nat (snd x))"

fun FormatEpochID :: "json \<Rightarrow> string" where
  "FormatEpochID (JStr v) =
     (if isScientificNotation v
      then (case parse_float v of None \<Rightarrow> v | Some x \<Rightarrow> show_float x)
      else v)"
| "FormatEpochID (JNum n) = show_int (f64 n)"
| "FormatEpochID (JFlt x) = float_0f x"
| "FormatEpochID j = show_val j"

definition ends_e :: "string \<Rightarrow> bool" where
  "ends_e s \<longleftrightarrow> s \<noteq> [] \<and> last s \<in> {CHR ''e'', CHR ''E''}"

lemma ends_e_Cons: "ends_e (c # cs) \<longleftrightarrow> (if cs = [] then c \<in> {CHR ''e'', CHR ''E''} else ends_e cs)"
  by (simp add: ends_e_def)

lemma digit_val_e [simp]: "digit_val CHR ''e'' = None" "digit_val CHR ''E'' = None"
  by (simp_all add: digit_val_def digits_def)

lemma ends_e_take_digits: "ends_e s \<Longrightarrow> ends_e (snd (take_digits s))"
  by (induction s) (auto simp: take_digits_def ends_e_Cons split: if_splits)

lemma parse_exponent_ends_e: "ends_e s \<Longrightarrow> parse_exponent s = None"
proof (cases s)
  case (Cons c cs)
  assume e: "ends_e s"
  have d: "ds = [] \<or> snd (take_digits ds) \<noteq> []" if "ds = [] \<or> ends_e ds" for ds
    using that ends_e_take_digits [of ds] by (auto simp: ends_e_def)
  show ?thesis
    using e d [of cs] d [of "tl cs"]
    by (auto simp: Cons parse_exponent_def ends_e_Cons Let_def split: list.splits if_splits)
qed (simp add: ends_e_def)

lemma parse_float_ends_e: "ends_e s \<Longrightarrow> parse_float s = None"
proof -
  assume e: "ends_e s"
  then have "ends_e (snd (split_sign s))"
    by (auto simp: split_sign_def ends_e_Cons split: list.splits if_splits)
  then have r: "ends_e (snd (take_digits (snd (split_sign s))))" by (rule ends_e_take_digits)
  then have "ends_e (snd (snd (split_point (snd (split_sign s)))))"
    using ends_e_take_digits [of "tl (snd (take_digits (snd (split_sign s))))"]
    by (auto simp: split_point_def Let_def case_prod_unfold ends_e_Cons split: list.splits if_splits)
  then have "parse_exponent (snd (snd (split_point (snd (split_sign s))))) = None"
    by (rule parse_exponent_ends_e)
  then show ?thesis
    by (simp add: parse_float_def Let_def case_prod_unfold)
qed

text \<open>The epoch formatter returns every string as it is: what it takes for scientific notation,
  a final \<open>e\<close>, never parses as a float, so \<open>2.3e+07\<close> stays in scientific notation.\<close>

theorem FormatEpochID_string: "FormatEpochID (JStr v) = v"
  using parse_float_ends_e [of v] by (auto simp: isScientificNotation_def ends_e_def)

end
