(* ===== verification/Env.thy ===== *)
theory Env
  imports Json
begin

text \<open>
  What the program asks of its surroundings, and programs that ask. Redis, IPFS, the clock and
  the P2P network are not part of the repository: a handler is a \<open>prog\<close>, a tree of the
  calls it makes and of what it does with each reply, and the surroundings are an argument
  \<open>R\<close> of \<open>run\<close> and \<open>trace\<close>. \<open>Panic\<close> is a Go run-time panic.

  Where a theorem needs the store to behave, it assumes \<open>reliable R v\<close>: seen through the
  abstraction \<open>v\<close>, every reply and every state change of \<open>R\<close> is the documented one
  of \<open>store_step\<close> (Redis without failures and without expiry during the run, an arbitrary
  clock, an arbitrary IPFS node).
\<close>

named_theorems prog_simps "running programs"

datatype call =
    Now
  | NowNano
  | RGet string
  | RSet string blob nat
  | RSetNX string blob nat
  | RDel "string list"
  | RExists string
  | RExpire string nat
  | RSAdd string string
  | RSMembers string
  | RSCard string
  | RSIsMember string string
  | RLPush string blob
  | RBRPop string
  | RLLen string
  | RIncr string
  | RHSet string "(string \<times> blob) list"
  | RHIncrBy string string int
  | RHGetAll string
  | RZAdd string int string
  | RPublish string string
  | RScan nat string
  | RZCount string int int
  | RZRange string int "int option"
  | RZRangeW string int "int option"
  | RZRevRange string nat
  | RZRevBy string int nat
  | RZRemTo string int
  | RXAdd string "(string \<times> blob) list"
  | RXAck string string string
  | RXInfo string
  | RXDelivered string
  | RPing
  | RXGroups string
  | RXGroupMk string string
  | RXGroup string string
  | RXRead string string string int
  | RXPending string string string int
  | RXClaim string string string int string
  | RXConsumers string string
  | RXTrim string nat
  | RXTrimMin string int
  | RXRange string "int option" "int option"
  | RLTrim string nat
  | RPipe "call list"
  | IpfsAdd json
  | IpfsGet string
  | TopicPublish string blob
  | Spawn string

datatype reply =
    ErrR
  | NilR
  | OkR
  | IntR int
  | BlobR blob
  | StrsR "string list"
  | HashR "(string \<times> blob) list"
  | CidR string
  | ScanR "string list" nat
  | ScoredR "(string \<times> int) list"
  | EntriesR "(string \<times> blob) list list"
  | MsgsR "(string \<times> (string \<times> blob) list) list"
  | PendingR "(string \<times> int) list"
  | ConsumersR "(string \<times> int \<times> int) list"

text \<open>The number a reply carries; the zero value when there was an error.\<close>

fun int_of :: "reply \<Rightarrow> int" where
  "int_of (IntR n) = n"
| "int_of _ = 0"

fun is_write :: "call \<Rightarrow> bool" where
  "is_write Now = False"
| "is_write NowNano = False"
| "is_write (RGet k) = False"
| "is_write (RExists k) = False"
| "is_write (RSMembers k) = False"
| "is_write (RSCard k) = False"
| "is_write (RSIsMember k m) = False"
| "is_write (RLLen k) = False"
| "is_write (RHGetAll k) = False"
| "is_write (RScan n p) = False"
| "is_write (RZCount k a b) = False"
| "is_write (RZRange k a b) = False"
| "is_write (RZRangeW k a b) = False"
| "is_write (RZRevRange k n) = False"
| "is_write (RZRevBy k a n) = False"
| "is_write (RXInfo k) = False"
| "is_write (RXRange k a b) = False"
| "is_write (RXDelivered k) = False"
| "is_write (RXPending k g c n) = False"
| "is_write (RXConsumers k g) = False"
| "is_write RPing = False"
| "is_write (RXGroups k) = False"
| "is_write (IpfsGet c) = False"
| "is_write _ = True"

section \<open>Programs\<close>

datatype 'a prog = Ret 'a | Call call "reply \<Rightarrow> 'a prog" | Panic

primrec bindp :: "'a prog \<Rightarrow> ('a \<Rightarrow> 'b prog) \<Rightarrow> 'b prog" where
  "bindp (Ret a) f = f a"
| "bindp (Call c k) f = Call c (\<lambda>r. bindp (k r) f)"
| "bindp Panic f = Panic"

text \<open>A \<open>for\<close> loop with its accumulated variables.\<close>

fun for_each :: "('x \<Rightarrow> 'a \<Rightarrow> 'a prog) \<Rightarrow> 'x list \<Rightarrow> 'a \<Rightarrow> 'a prog" where
  "for_each body [] a = Ret a"
| "for_each body (x # xs) a = bindp (body x a) (\<lambda>a'. for_each body xs a')"

definition exec :: "call \<Rightarrow> unit prog" where
  "exec c = Call c (\<lambda>_. Ret ())"

fun execs :: "call list \<Rightarrow> unit prog" where
  "execs [] = Ret ()"
| "execs (c # cs) = Call c (\<lambda>_. execs cs)"

text \<open>A slice expression or type assertion that panics when it does not fit.\<close>

definition or_panic :: "'a option \<Rightarrow> ('a \<Rightarrow> 'b prog) \<Rightarrow> 'b prog" where
  "or_panic x f = (case x of None \<Rightarrow> Panic | Some a \<Rightarrow> f a)"

section \<open>Running\<close>

type_synonym 's environment = "'s \<Rightarrow> call \<Rightarrow> reply \<times> 's"

primrec run :: "'s environment \<Rightarrow> 'a prog \<Rightarrow> 's \<Rightarrow> 'a option \<times> 's" where
  "run R (Ret a) = (\<lambda>s. (Some a, s))"
| "run R (Call c k) = (\<lambda>s. let (r, s') = R s c in run R (k r) s')"
| "run R Panic = (\<lambda>s. (None, s))"

text \<open>The calls a run makes, in order.\<close>

primrec trace :: "'s environment \<Rightarrow> 'a prog \<Rightarrow> 's \<Rightarrow> call list" where
  "trace R (Ret a) = (\<lambda>s. [])"
| "trace R (Call c k) = (\<lambda>s. let (r, s') = R s c in c # trace R (k r) s')"
| "trace R Panic = (\<lambda>s. [])"

abbreviation outcome :: "'s environment \<Rightarrow> 'a prog \<Rightarrow> 's \<Rightarrow> 'a option" where
  "outcome R p s \<equiv> fst (run R p s)"

abbreviation final :: "'s environment \<Rightarrow> 'a prog \<Rightarrow> 's \<Rightarrow> 's" where
  "final R p s \<equiv> snd (run R p s)"

lemma run_Call [prog_simps]: "run R (Call c k) s = run R (k (fst (R s c))) (snd (R s c))"
  by (simp add: case_prod_unfold Let_def)

lemma trace_Call [prog_simps]:
  "trace R (Call c k) s = c # trace R (k (fst (R s c))) (snd (R s c))"
  by (simp add: case_prod_unfold Let_def)

declare run.simps(2) [simp del] trace.simps(2) [simp del]

lemma run_bindp [prog_simps]:
  "run R (bindp p f) s =
     (case run R p s of (None, s') \<Rightarrow> (None, s') | (Some a, s') \<Rightarrow> run R (f a) s')"
  by (induction p arbitrary: s) (auto simp: run_Call)

lemma trace_bindp [prog_simps]:
  "trace R (bindp p f) s =
     trace R p s @ (case run R p s of (None, s') \<Rightarrow> [] | (Some a, s') \<Rightarrow> trace R (f a) s')"
  by (induction p arbitrary: s) (auto simp: run_Call trace_Call)

lemma bindp_assoc: "bindp (bindp p f) g = bindp p (\<lambda>a. bindp (f a) g)"
  by (induction p) auto

lemma bindp_Ret [simp]: "bindp p Ret = p"
  by (induction p) auto

lemma run_exec [prog_simps]: "run R (exec c) s = (Some (), snd (R s c))"
  by (simp add: exec_def run_Call)

lemma trace_exec [prog_simps]: "trace R (exec c) s = [c]"
  by (simp add: exec_def trace_Call)

lemma trace_execs [prog_simps]: "trace R (execs cs) s = cs"
  by (induction cs arbitrary: s) (auto simp: trace_Call)

lemma outcome_execs [prog_simps]: "outcome R (execs cs) s = Some ()"
  by (induction cs arbitrary: s) (auto simp: run_Call)

lemma or_panic_Some [simp]: "or_panic (Some a) f = f a"
  by (simp add: or_panic_def)

lemma or_panic_None [simp]: "or_panic None f = Panic"
  by (simp add: or_panic_def)

text \<open>
  Facts about every call a program can make, whatever the replies: a program all of whose
  calls satisfy \<open>P\<close>, and one that can never panic.
\<close>

primrec calls_sat :: "(call \<Rightarrow> bool) \<Rightarrow> 'a prog \<Rightarrow> bool" where
  "calls_sat P (Ret a) \<longleftrightarrow> True"
| "calls_sat P (Call c k) \<longleftrightarrow> P c \<and> (\<forall>r. calls_sat P (k r))"
| "calls_sat P Panic \<longleftrightarrow> True"

primrec no_panic :: "'a prog \<Rightarrow> bool" where
  "no_panic (Ret a) \<longleftrightarrow> True"
| "no_panic (Call c k) \<longleftrightarrow> (\<forall>r. no_panic (k r))"
| "no_panic Panic \<longleftrightarrow> False"

lemma calls_sat_trace: "calls_sat P p \<Longrightarrow> c \<in> set (trace R p s) \<Longrightarrow> P c"
  by (induction p arbitrary: s) (auto simp: trace_Call)

lemma no_panic_outcome: "no_panic p \<Longrightarrow> outcome R p s \<noteq> None"
  by (induction p arbitrary: s) (auto simp: run_Call)

lemma calls_sat_bindp [intro]:
  "calls_sat P p \<Longrightarrow> (\<And>a. calls_sat P (f a)) \<Longrightarrow> calls_sat P (bindp p f)"
  by (induction p) auto

lemma no_panic_bindp [intro]:
  "no_panic p \<Longrightarrow> (\<And>a. no_panic (f a)) \<Longrightarrow> no_panic (bindp p f)"
  by (induction p) auto

lemma calls_sat_for_each [intro]:
  "(\<And>x a. x \<in> set xs \<Longrightarrow> calls_sat P (body x a)) \<Longrightarrow> calls_sat P (for_each body xs a)"
  by (induction xs arbitrary: a) auto

lemma no_panic_for_each [intro]:
  "(\<And>x a. x \<in> set xs \<Longrightarrow> no_panic (body x a)) \<Longrightarrow> no_panic (for_each body xs a)"
  by (induction xs arbitrary: a) auto

lemma calls_sat_exec [simp]: "calls_sat P (exec c) = P c"
  by (simp add: exec_def)

lemma calls_sat_execs [simp]: "calls_sat P (execs cs) = list_all P cs"
  by (induction cs) auto

lemma no_panic_exec [simp]: "no_panic (exec c)"
  by (simp add: exec_def)

lemma no_panic_execs [simp]: "no_panic (execs cs)"
  by (induction cs) auto

section \<open>The documented behaviour of the surroundings\<close>

record store =
  strs :: "(string, blob) gomap"
  lists :: "string \<Rightarrow> blob list"
  sets :: "string \<Rightarrow> string list"
  hashes :: "string \<Rightarrow> (string, blob) gomap"
  zsets :: "string \<Rightarrow> (string, int) gomap"
  streams :: "string \<Rightarrow> (string \<times> blob) list list"
  arrived :: "string \<Rightarrow> nat \<Rightarrow> int"
  groups :: "string \<Rightarrow> string list"
  entryID :: "string \<Rightarrow> nat \<Rightarrow> string"
  trimmedOff :: "string \<Rightarrow> nat"
  groupCursor :: "string \<Rightarrow> string \<Rightarrow> nat"
  groupPending :: "string \<Rightarrow> string \<Rightarrow> (nat \<times> string \<times> int) list"
  consumersSeen :: "string \<Rightarrow> string \<Rightarrow> (string \<times> int) list"
  acked :: "(string \<times> string) list"
  ttls :: "string \<Rightarrow> nat option"
  published :: "(string \<times> string) list"
  gossiped :: "(string \<times> blob) list"
  clock :: "nat \<Rightarrow> int"
  readings :: nat
  ipfs :: "json \<Rightarrow> string option"
  pinned :: "string \<Rightarrow> blob option"
  spawned :: "string list"
  scanPages :: "string \<Rightarrow> string list \<Rightarrow> string list list"

definition empty_store :: store where
  "empty_store = \<lparr>strs = [], lists = (\<lambda>_. []), sets = (\<lambda>_. []), hashes = (\<lambda>_. []),
     zsets = (\<lambda>_. []), streams = (\<lambda>_. []), arrived = (\<lambda>_ _. 0), groups = (\<lambda>_. []),
     entryID = (\<lambda>_. show_nat), trimmedOff = (\<lambda>_. 0), groupCursor = (\<lambda>_ _. 0),
     groupPending = (\<lambda>_ _. []), consumersSeen = (\<lambda>_ _. []), acked = [], ttls = (\<lambda>_. None), published = [],
     gossiped = [], clock = (\<lambda>_. 0), readings = 0, ipfs = (\<lambda>_. None), pinned = (\<lambda>_. None),
     spawned = [], scanPages = (\<lambda>_ ks. [ks])\<rparr>"

text \<open>
  A group of a stream has a cursor, the number of entries it was handed (counting those trimmed off the stream since),
  and a list of pending ones, each with its consumer and the time of delivery, that an acknowledgement removes.
  How Redis names entries (\<open>entryID\<close>), when they \<open>arrived\<close>, in milliseconds, and for how long each consumer of a
  group was idle is arbitrary.
\<close>

text \<open>A stream made for a consumer group exists though it is empty.\<close>

definition stream_exists :: "store \<Rightarrow> string \<Rightarrow> bool" where
  "stream_exists d k \<longleftrightarrow> streams d k \<noteq> [] \<or> groups d k \<noteq> []"

definition key_exists :: "store \<Rightarrow> string \<Rightarrow> bool" where
  "key_exists d k \<longleftrightarrow>
     map_of (strs d) k \<noteq> None \<or> lists d k \<noteq> [] \<or> sets d k \<noteq> [] \<or> hashes d k \<noteq> [] \<or> zsets d k \<noteq> [] \<or>
     stream_exists d k"

text \<open>The last entry that a group was handed.\<close>

definition last_delivered :: "store \<Rightarrow> string \<Rightarrow> string \<Rightarrow> string" where
  "last_delivered d k g = (if groupCursor d k g = 0 then ''0-0'' else entryID d k (groupCursor d k g - 1))"

text \<open>What a group is handed: up to \<open>n\<close> entries from its cursor on, which become pending.\<close>

definition group_read :: "store \<Rightarrow> string \<Rightarrow> string \<Rightarrow> string \<Rightarrow> nat \<Rightarrow> (nat \<times> (string \<times> blob) list) list \<times> store" where
  "group_read d k g c n =
     (let i = max (groupCursor d k g) (trimmedOff d k); es = take n (drop (i - trimmedOff d k) (streams d k)) in
      (enumerate i es,
       d\<lparr>readings := Suc (readings d),
         groupCursor := (groupCursor d)(k := (groupCursor d k)(g := i + length es)),
         groupPending := (groupPending d)(k := (groupPending d k)(g := groupPending d k g @
           map (\<lambda>j. (j, c, clock d (readings d))) [i ..< i + length es]))\<rparr>))"

text \<open>
  A claim takes over a pending entry that was delivered at least so long ago; one that was trimmed off meanwhile is
  no longer pending after it.
\<close>

definition claimable :: "store \<Rightarrow> string \<Rightarrow> int \<Rightarrow> string \<Rightarrow> nat \<times> string \<times> int \<Rightarrow> bool" where
  "claimable d k idle i p \<longleftrightarrow> entryID d k (fst p) = i \<and> idle \<le> clock d (readings d) - snd (snd p)"

definition group_claim :: "store \<Rightarrow> string \<Rightarrow> string \<Rightarrow> string \<Rightarrow> int \<Rightarrow> string \<Rightarrow> (string \<times> (string \<times> blob) list) list \<times> store" where
  "group_claim d k g c idle i =
     (let d' = d\<lparr>readings := Suc (readings d)\<rparr>; ps = groupPending d k g;
          set = (\<lambda>ps. d'\<lparr>groupPending := (groupPending d)(k := (groupPending d k)(g := ps))\<rparr>) in
      case find (claimable d k idle i) ps of
        None \<Rightarrow> ([], d')
      | Some (j, _) \<Rightarrow>
          if trimmedOff d k \<le> j \<and> j - trimmedOff d k < length (streams d k)
          then ([(i, streams d k ! (j - trimmedOff d k))],
            set (map (\<lambda>p. if fst p = j then (j, c, clock d (readings d)) else p) ps))
          else ([], set (filter (\<lambda>p. fst p \<noteq> j) ps)))"

lemma group_keeps [simp]:
  "strs (snd (group_read d k g c n)) = strs d" "sets (snd (group_read d k g c n)) = sets d"
  "streams (snd (group_read d k g c n)) = streams d"
  "strs (snd (group_claim d k g c idle i)) = strs d" "sets (snd (group_claim d k g c idle i)) = sets d"
  "streams (snd (group_claim d k g c idle i)) = streams d"
  by (auto simp: group_read_def group_claim_def Let_def split: option.split)

definition set_ttl :: "nat \<Rightarrow> nat option" where
  "set_ttl t = (if t = 0 then None else Some t)"

definition del_key :: "string \<Rightarrow> store \<Rightarrow> store" where
  "del_key k d = d\<lparr>strs := AList.delete k (strs d), lists := (lists d)(k := []),
     sets := (sets d)(k := []), hashes := (hashes d)(k := []), zsets := (zsets d)(k := []),
     streams := (streams d)(k := []), groups := (groups d)(k := []), trimmedOff := (trimmedOff d)(k := 0),
     groupCursor := (groupCursor d)(k := \<lambda>_. 0), groupPending := (groupPending d)(k := \<lambda>_. []), ttls := (ttls d)(k := None)\<rparr>"

fun blob_int :: "blob option \<Rightarrow> int" where
  "blob_int (Some (Js (JNum n))) = n"
| "blob_int _ = 0"

text \<open>A field of a hash comes back as text.\<close>

fun field_text :: "blob option \<Rightarrow> string" where
  "field_text (Some (Txt s)) = s"
| "field_text (Some (Js (JNum n))) = show_int n"
| "field_text (Some (Js (JFlt x))) = float_f x"
| "field_text _ = []"

text \<open>The clock counts nanoseconds; \<open>Now\<close> is \<open>time.Now().Unix()\<close>.\<close>

text \<open>
  The patterns of SCAN: \<open>*\<close> is any run of characters, \<open>?\<close> any character, brackets hold a class of characters and ranges,
  negated after a caret, and a backslash takes the next character as it is. \<open>glob_class\<close> reads a class up to its
  closing bracket: whether it has the character, and the rest of the pattern.
\<close>

function glob_class :: "char \<Rightarrow> string \<Rightarrow> bool \<times> string" where
  "glob_class c [] = (False, [])"
| "glob_class c (p # ps) =
     (if p = CHR 0x5C \<and> ps \<noteq> [] then let (m, rest) = glob_class c (tl ps) in (hd ps = c \<or> m, rest)
      else if p = CHR '']'' then (False, ps)
      else if 2 \<le> length ps \<and> hd ps = CHR ''-''
      then
        let (m, rest) = glob_class c (drop 2 ps); a = of_char p :: nat; b = of_char (ps ! 1) in
        (min a b \<le> of_char c \<and> of_char c \<le> max a b \<or> m, rest)
      else let (m, rest) = glob_class c ps in (p = c \<or> m, rest))"
  by pat_completeness auto
termination by (relation "measure (\<lambda>(c, ps). length ps)") auto

lemma glob_class_shorter [termination_simp]: "length (snd (glob_class c ps)) \<le> length ps"
  by (induction c ps rule: glob_class.induct) (auto simp: Let_def split: prod.split)

function glob :: "string \<Rightarrow> string \<Rightarrow> bool" where
  "glob [] s = (s = [])"
| "glob (p # ps) [] = (p = CHR ''*'' \<and> glob ps [])"
| "glob (p # ps) (c # s) =
     (if p = CHR ''*'' then glob ps (c # s) \<or> glob (p # ps) s
      else if p = CHR ''?'' then glob ps s
      else if p = CHR ''['' then
        (let negated = (ps \<noteq> [] \<and> hd ps = CHR ''^''); body = (if negated then tl ps else ps) in
         fst (glob_class c body) \<noteq> negated \<and> glob (snd (glob_class c body)) s)
      else if p = CHR 0x5C \<and> ps \<noteq> [] then hd ps = c \<and> glob (tl ps) s
      else p = c \<and> glob ps s)"
  by pat_completeness auto
termination
proof (relation "measure (\<lambda>(ps, s). length ps + length s)")
  show "((snd (glob_class c body), s), p # ps, c # s) \<in> measure (\<lambda>(ps, s). length ps + length s)"
    if "body = (if negated then tl ps else ps)" for p ps c s and negated :: bool and body
    using glob_class_shorter [of c body] that by (auto split: if_splits)
qed auto

text \<open>
  SCAN hands out keys in pages of any size, in any order, and may hand out a key more than once; what Redis documents is
  that a walk ends, reports only keys that are there, and misses none. \<open>scanPages\<close> is what it does for a pattern and
  the string keys; where that breaks the promise, one page with all of them stands in. A cursor is the number of a page.
\<close>

definition scan_pages :: "store \<Rightarrow> string \<Rightarrow> string list list" where
  "scan_pages d p =
     (let pages = scanPages d p (map fst (strs d)) in
      if list_all (\<lambda>(k, b). k \<in> set (concat pages)) (strs d) \<and> list_all (key_exists d) (concat pages)
      then pages else [map fst (strs d)])"

text \<open>A sorted set lists its members by score, those of one score in the order of their bytes.\<close>

fun text_le :: "string \<Rightarrow> string \<Rightarrow> bool" where
  "text_le [] t = True"
| "text_le (c # s) [] = False"
| "text_le (c # s) (e # t) =
     ((of_char c :: nat) < of_char e \<or> (of_char c :: nat) = of_char e \<and> text_le s t)"

definition scored_le :: "string \<times> int \<Rightarrow> string \<times> int \<Rightarrow> bool" where
  "scored_le x y \<longleftrightarrow> snd x < snd y \<or> snd x = snd y \<and> text_le (fst x) (fst y)"

fun scored_insert :: "string \<times> int \<Rightarrow> (string \<times> int) list \<Rightarrow> (string \<times> int) list" where
  "scored_insert x [] = [x]"
| "scored_insert x (y # ys) = (if scored_le x y then x # y # ys else y # scored_insert x ys)"

definition by_score :: "(string, int) gomap \<Rightarrow> (string \<times> int) list" where
  "by_score m = foldr scored_insert m []"

lemma mset_by_score: "mset (by_score m) = mset m"
proof -
  have "mset (scored_insert x ys) = add_mset x (mset ys)" for x ys by (induction ys) auto
  then show ?thesis unfolding by_score_def by (induction m) auto
qed

lemma set_by_score: "set (by_score m) = set m"
  using mset_by_score by (metis set_mset_mset)

definition in_scores :: "int \<Rightarrow> int option \<Rightarrow> string \<times> int \<Rightarrow> bool" where
  "in_scores lo hi x \<longleftrightarrow> lo \<le> snd x \<and> (case hi of None \<Rightarrow> True | Some h \<Rightarrow> snd x \<le> h)"

fun store_step :: "store \<Rightarrow> call \<Rightarrow> reply \<times> store" where
  "store_step d Now =
     (IntR (clock d (readings d) div 1000000000), d\<lparr>readings := Suc (readings d)\<rparr>)"
| "store_step d NowNano = (IntR (clock d (readings d)), d\<lparr>readings := Suc (readings d)\<rparr>)"
| "store_step d (RGet k) = (case map_of (strs d) k of None \<Rightarrow> NilR | Some b \<Rightarrow> BlobR b, d)"
| "store_step d (RSet k b t) =
     (OkR, d\<lparr>strs := AList.update k b (strs d), ttls := (ttls d)(k := set_ttl t)\<rparr>)"
| "store_step d (RSetNX k b t) =
     (if map_of (strs d) k = None
      then (IntR 1, d\<lparr>strs := AList.update k b (strs d), ttls := (ttls d)(k := set_ttl t)\<rparr>)
      else (IntR 0, d))"
| "store_step d (RDel ks) =
     (IntR (int (length (filter (key_exists d) ks))), fold del_key ks d)"
| "store_step d (RExists k) = (IntR (if key_exists d k then 1 else 0), d)"
| "store_step d (RExpire k t) =
     (if key_exists d k then (IntR 1, d\<lparr>ttls := (ttls d)(k := set_ttl t)\<rparr>) else (IntR 0, d))"
| "store_step d (RSAdd k m) =
     (if m \<in> set (sets d k) then (IntR 0, d)
      else (IntR 1, d\<lparr>sets := (sets d)(k := sets d k @ [m])\<rparr>))"
| "store_step d (RSMembers k) = (StrsR (sets d k), d)"
| "store_step d (RSCard k) = (IntR (int (length (sets d k))), d)"
| "store_step d (RSIsMember k m) = (IntR (if m \<in> set (sets d k) then 1 else 0), d)"
| "store_step d (RLPush k b) =
     (IntR (int (Suc (length (lists d k)))), d\<lparr>lists := (lists d)(k := b # lists d k)\<rparr>)"
| "store_step d (RBRPop k) =
     (if lists d k = [] then (NilR, d)
      else (BlobR (last (lists d k)), d\<lparr>lists := (lists d)(k := butlast (lists d k))\<rparr>))"
| "store_step d (RLLen k) = (IntR (int (length (lists d k))), d)"
| "store_step d (RIncr k) =
     (IntR (blob_int (map_of (strs d) k) + 1),
      d\<lparr>strs := AList.update k (Js (JNum (blob_int (map_of (strs d) k) + 1))) (strs d)\<rparr>)"
| "store_step d (RHSet k fs) =
     (OkR, d\<lparr>hashes := (hashes d)(k := fold (\<lambda>(f, b) h. AList.update f b h) fs (hashes d k))\<rparr>)"
| "store_step d (RHIncrBy k f n) =
     (let m = blob_int (map_of (hashes d k) f) + n in
      (IntR m, d\<lparr>hashes := (hashes d)(k := AList.update f (Js (JNum m)) (hashes d k))\<rparr>))"
| "store_step d (RHGetAll k) = (HashR (hashes d k), d)"
| "store_step d (RZAdd k x m) =
     (OkR, d\<lparr>zsets := (zsets d)(k := AList.update m x (zsets d k))\<rparr>)"
| "store_step d (RZCount k lo hi) = (IntR (int (length (filter (in_scores lo (Some hi)) (zsets d k)))), d)"
| "store_step d (RZRange k lo hi) = (StrsR (map fst (filter (in_scores lo hi) (by_score (zsets d k)))), d)"
| "store_step d (RZRangeW k lo hi) = (ScoredR (filter (in_scores lo hi) (by_score (zsets d k))), d)"
| "store_step d (RZRevBy k lo n) =
     (StrsR (take n (map fst (filter (in_scores lo None) (rev (by_score (zsets d k)))))), d)"
| "store_step d (RZRevRange k n) = (ScoredR (take n (rev (by_score (zsets d k)))), d)"
| "store_step d (RZRemTo k hi) =
     (IntR (int (length (filter (\<lambda>x. snd x \<le> hi) (zsets d k)))),
      d\<lparr>zsets := (zsets d)(k := filter (\<lambda>x. hi < snd x) (zsets d k))\<rparr>)"
| "store_step d (RPublish ch m) = (OkR, d\<lparr>published := published d @ [(ch, m)]\<rparr>)"
| "store_step d (RScan cur p) =
     (let pages = scan_pages d p in
      (ScanR (if cur < length pages then filter (glob p) (pages ! cur) else [])
         (if Suc cur < length pages then Suc cur else 0), d))"
| "store_step d (RXAdd k fs) = (OkR, d\<lparr>streams := (streams d)(k := streams d k @ [fs])\<rparr>)"
| "store_step d (RXAck k g i) =
     (let ps = filter (\<lambda>p. entryID d k (fst p) \<noteq> i) (groupPending d k g) in
      (IntR (int (length (groupPending d k g) - length ps)),
       d\<lparr>acked := acked d @ [(k, i)], groupPending := (groupPending d)(k := (groupPending d k)(g := ps))\<rparr>))"
| "store_step d (RXRead k g c n) =
     (if g \<notin> set (groups d k) then (ErrR, d)
      else
        let (ms, d') = group_read d k g c (nat n) in
        if ms = [] then (NilR, d) else (MsgsR (map (\<lambda>(i, e). (entryID d k i, e)) ms), d'))"
| "store_step d (RXPending k g c n) =
     (if g \<notin> set (groups d k) then (ErrR, d)
      else (PendingR (take (nat n) (map (\<lambda>(i, c', t). (entryID d k i, clock d (readings d) - t))
          (filter (\<lambda>(i, c', t). c' = c) (groupPending d k g)))), d\<lparr>readings := Suc (readings d)\<rparr>))"
| "store_step d (RXClaim k g c idle i) =
     (if g \<notin> set (groups d k) then (ErrR, d)
      else let (ms, d') = group_claim d k g c idle i in (MsgsR ms, d'))"
| "store_step d (RXConsumers k g) =
     (if g \<notin> set (groups d k) then (ErrR, d)
      else (ConsumersR (map (\<lambda>(c, idle). (c, int (length (filter (\<lambda>(i, c', t). c' = c) (groupPending d k g))), idle))
        (consumersSeen d k g)), d))"
| "store_step d (RXInfo k) = (if stream_exists d k then IntR (int (length (streams d k))) else ErrR, d)"
| "store_step d (RXDelivered k) =
     (if stream_exists d k then HashR (map (\<lambda>g. (g, Txt (last_delivered d k g))) (groups d k)) else ErrR, d)"
| "store_step d RPing = (OkR, d)"
| "store_step d (RXGroups k) = (if stream_exists d k then StrsR (groups d k) else ErrR, d)"
| "store_step d (RXGroupMk k g) =
     (if g \<in> set (groups d k) then (ErrR, d) else (OkR, d\<lparr>groups := (groups d)(k := groups d k @ [g])\<rparr>))"
| "store_step d (RXGroup k g) =
     (if g \<in> set (groups d k) \<or> \<not> stream_exists d k then (ErrR, d)
      else (OkR, d\<lparr>groups := (groups d)(k := groups d k @ [g])\<rparr>))"
| "store_step d (RXTrim k n) =
     (IntR (int (length (streams d k) - n)), d\<lparr>streams := (streams d)(k := drop (length (streams d k) - n) (streams d k)),
        trimmedOff := (trimmedOff d)(k := trimmedOff d k + (length (streams d k) - n)),
        arrived := (arrived d)(k := \<lambda>i. arrived d k (i + (length (streams d k) - n)))\<rparr>)"
| "store_step d (RXTrimMin k t) =
     (let n = length (takeWhile (\<lambda>i. arrived d k i < t) [0 ..< length (streams d k)]) in
      (IntR (int n), d\<lparr>streams := (streams d)(k := drop n (streams d k)), trimmedOff := (trimmedOff d)(k := trimmedOff d k + n),
        arrived := (arrived d)(k := \<lambda>i. arrived d k (i + n))\<rparr>))"
| "store_step d (RXRange k lo hi) =
     (if key_exists d k \<and> \<not> stream_exists d k then ErrR
      else EntriesR (map snd (filter (\<lambda>(i, e). (case lo of None \<Rightarrow> True | Some t \<Rightarrow> t \<le> arrived d k i) \<and>
          (case hi of None \<Rightarrow> True | Some t \<Rightarrow> arrived d k i \<le> t)) (enumerate 0 (streams d k)))), d)"
| "store_step d (RLTrim k n) = (OkR, d\<lparr>lists := (lists d)(k := take n (lists d k))\<rparr>)"
| "store_step d (RPipe []) = (OkR, d)"
| "store_step d (RPipe (c # cs)) = store_step (snd (store_step d c)) (RPipe cs)"
| "store_step d (IpfsAdd j) = (case ipfs d j of None \<Rightarrow> ErrR | Some c \<Rightarrow> CidR c, d)"
| "store_step d (IpfsGet c) = (case pinned d c of None \<Rightarrow> ErrR | Some b \<Rightarrow> BlobR b, d)"
| "store_step d (TopicPublish t b) = (OkR, d\<lparr>gossiped := gossiped d @ [(t, b)]\<rparr>)"
| "store_step d (Spawn t) = (OkR, d\<lparr>spawned := spawned d @ [t]\<rparr>)"

definition reliable :: "'s environment \<Rightarrow> ('s \<Rightarrow> store) \<Rightarrow> bool" where
  "reliable R v \<longleftrightarrow>
     (\<forall>s c. fst (R s c) = fst (store_step (v s) c) \<and> v (snd (R s c)) = snd (store_step (v s) c))"

lemma reliable_step:
  assumes "reliable R v"
  shows "fst (R s c) = fst (store_step (v s) c)" and "v (snd (R s c)) = snd (store_step (v s) c)"
  using assms by (simp_all add: reliable_def)

lemma reliable_store: "reliable store_step (\<lambda>d. d)"
  by (simp add: reliable_def)

text \<open>A whole run agrees with the documented one: the outcome, the calls, the final state.\<close>

lemma reliable_run:
  assumes "reliable R v"
  shows "outcome R p s = outcome store_step p (v s)"
    and "trace R p s = trace store_step p (v s)"
    and "v (final R p s) = final store_step p (v s)"
proof (induction p arbitrary: s)
  case (Call c k)
  have r: "fst (R s c) = fst (store_step (v s) c)" "v (snd (R s c)) = snd (store_step (v s) c)" for s
    using assms by (auto simp: reliable_def)
  { case 1 show ?case by (simp only: run_Call Call.IH(1) [OF rangeI] r) }
  { case 2 show ?case by (simp only: trace_Call Call.IH(2) [OF rangeI] r) }
  { case 3 show ?case by (simp only: run_Call Call.IH(3) [OF rangeI] r) }
qed auto

section \<open>What a call can change\<close>

text \<open>The keys whose string or set a call writes or deletes; every other one stays as it is.\<close>

fun touches :: "call \<Rightarrow> string set" where
  "touches (RSet k b t) = {k}"
| "touches (RSetNX k b t) = {k}"
| "touches (RIncr k) = {k}"
| "touches (RSAdd k m) = {k}"
| "touches (RDel ks) = set ks"
| "touches (RPipe []) = {}"
| "touches (RPipe (c # cs)) = touches c \<union> touches (RPipe cs)"
| "touches _ = {}"

lemma touches_pipe: "touches (RPipe cs) = (\<Union>c \<in> set cs. touches c)"
  by (induction cs) auto

lemma del_keys_other:
  "k \<notin> set ks \<Longrightarrow> map_of (strs (fold del_key ks d)) k = map_of (strs d) k \<and> sets (fold del_key ks d) k = sets d k"
  by (induction ks arbitrary: d) (auto simp: del_key_def map_of_delete)

lemma untouched:
  "k \<notin> touches c \<Longrightarrow>
     map_of (strs (snd (store_step d c))) k = map_of (strs d) k \<and> sets (snd (store_step d c)) k = sets d k"
  by (induction d c rule: store_step.induct)
    (auto simp: map_of_update del_keys_other Let_def case_prod_unfold split: option.splits)

lemma untouched_fold:
  assumes "\<And>c. c \<in> set cs \<Longrightarrow> k \<notin> touches c"
  shows "map_of (strs (fold (\<lambda>c d. snd (store_step d c)) cs d)) k = map_of (strs d) k \<and>
    sets (fold (\<lambda>c d. snd (store_step d c)) cs d) k = sets d k"
  using assms
proof (induction cs arbitrary: d)
  case (Cons c cs)
  then show ?case using untouched [of k c d] by simp
qed simp

text \<open>The surroundings after a sequence of calls.\<close>

definition after :: "'s environment \<Rightarrow> call list \<Rightarrow> 's \<Rightarrow> 's" where
  "after R cs s = fold (\<lambda>c s. snd (R s c)) cs s"

lemma after_simps [simp]:
  "after R [] s = s" "after R (c # cs) s = after R cs (snd (R s c))" "after R (cs @ ds) s = after R ds (after R cs s)"
  by (simp_all add: after_def)

lemma final_after: "final R p s = after R (trace R p s) s"
  by (induction p arbitrary: s) (auto simp: run_Call trace_Call)

lemma final_trace: "final store_step p d = fold (\<lambda>c d. snd (store_step d c)) (trace store_step p d) d"
  by (induction p arbitrary: d) (auto simp: run_Call trace_Call)

lemma untouched_run:
  assumes "\<And>c. c \<in> set (trace store_step p d) \<Longrightarrow> k \<notin> touches c"
  shows "map_of (strs (final store_step p d)) k = map_of (strs d) k \<and> sets (final store_step p d) k = sets d k"
  unfolding final_trace by (rule untouched_fold) (rule assms)

text \<open>A property of the loop's variables that every turn preserves.\<close>

lemma for_each_invariant:
  assumes "outcome R (for_each body xs a) s = Some a'" and "I a"
    and "\<And>x a s a'. x \<in> set xs \<Longrightarrow> I a \<Longrightarrow> outcome R (body x a) s = Some a' \<Longrightarrow> I a'"
  shows "I a'"
  using assms
proof (induction xs arbitrary: a s)
  case (Cons x xs)
  from Cons.prems(1) obtain a1 s1 where 1: "run R (body x a) s = (Some a1, s1)"
    and 2: "outcome R (for_each body xs a1) s1 = Some a'"
    by (auto simp: run_bindp split: prod.splits option.splits)
  have "I a1" using Cons.prems(3) [of x a s a1] Cons.prems(2) 1 by simp
  from 2 this show ?case
    by (rule Cons.IH) (rule Cons.prems(3), simp_all)
qed simp

end
