(* ===== verification/Keys.thy ===== *)
theory Keys
  imports Env
begin

text \<open>
  \<open>pkgs/redis/keys.go\<close>: the Redis keys. \<open>keyBuilder\<close> is the struct, each method and each
  package function a definition of the same name (\<open>Global\<dots>\<close> where a function shares its
  name with a method). A namespaced key is \<open>ns kb suffix\<close>. The locale \<open>epoch_key\<close> is what
  the other components rely on: a family of keys that tells epochs and markets apart.
\<close>

named_theorems key_defs "definitions of the keys"

record keyBuilder =
  ProtocolState :: string
  DataMarket :: string

definition NewKeyBuilder :: "string \<Rightarrow> string \<Rightarrow> keyBuilder" where
  "NewKeyBuilder protocolState dataMarket =
     \<lparr>ProtocolState = protocolState, DataMarket = dataMarket\<rparr>"

definition ns :: "keyBuilder \<Rightarrow> string \<Rightarrow> string" where
  "ns kb s = ProtocolState kb @ CHR '':'' # DataMarket kb @ CHR '':'' # s"

text \<open>Contract addresses and validator names hold no colon.\<close>

definition colon_free :: "string \<Rightarrow> bool" where
  "colon_free s \<longleftrightarrow> CHR '':'' \<notin> set s"

definition kb_ok :: "keyBuilder \<Rightarrow> bool" where
  "kb_ok kb \<longleftrightarrow> colon_free (ProtocolState kb) \<and> colon_free (DataMarket kb)"

definition SubmissionQueue :: "keyBuilder \<Rightarrow> string" where [key_defs]:
  "SubmissionQueue kb = ns kb (''submissionQueue'')"

definition IncomingBatch :: "keyBuilder \<Rightarrow> string \<Rightarrow> string \<Rightarrow> string" where [key_defs]:
  "IncomingBatch kb epochID validatorID = ns kb (''incoming:batch:'' @ epochID @ '':'' @ validatorID)"

definition AggregationQueue :: "keyBuilder \<Rightarrow> string" where [key_defs]:
  "AggregationQueue kb = ns kb (''aggregation:queue'')"

definition OutgoingBroadcastBatch :: "keyBuilder \<Rightarrow> string" where [key_defs]:
  "OutgoingBroadcastBatch kb = ns kb (''outgoing:broadcast:batch'')"

definition ProcessingSubmission :: "keyBuilder \<Rightarrow> string \<Rightarrow> string" where [key_defs]:
  "ProcessingSubmission kb sid = ''processingSubmission:'' @ sid"

definition ProcessedSubmission :: "keyBuilder \<Rightarrow> string \<Rightarrow> string \<Rightarrow> string" where [key_defs]:
  "ProcessedSubmission kb sequencerID submissionID = ns kb (''processed:'' @ sequencerID @ '':'' @ submissionID)"

definition EpochProcessed :: "keyBuilder \<Rightarrow> string \<Rightarrow> string" where [key_defs]:
  "EpochProcessed kb epochID = ns kb (''epoch:'' @ epochID @ '':processed'')"

definition EpochWindow :: "keyBuilder \<Rightarrow> string \<Rightarrow> string" where [key_defs]:
  "EpochWindow kb epochID = ns kb (''epoch:'' @ epochID @ '':window'')"

definition FinalizationQueue :: "keyBuilder \<Rightarrow> string" where [key_defs]:
  "FinalizationQueue kb = ns kb (''finalizationQueue'')"

definition BatchPart :: "keyBuilder \<Rightarrow> string \<Rightarrow> int \<Rightarrow> string" where [key_defs]:
  "BatchPart kb epochID partID = ns kb (''batch:part:'' @ epochID @ '':'' @ show_int partID)"

definition EpochPartsCompleted :: "keyBuilder \<Rightarrow> string \<Rightarrow> string" where [key_defs]:
  "EpochPartsCompleted kb epochID = ns kb (''epoch:'' @ epochID @ '':parts:completed'')"

definition EpochPartsTotal :: "keyBuilder \<Rightarrow> string \<Rightarrow> string" where [key_defs]:
  "EpochPartsTotal kb epochID = ns kb (''epoch:'' @ epochID @ '':parts:total'')"

definition EpochPartsReady :: "keyBuilder \<Rightarrow> string \<Rightarrow> string" where [key_defs]:
  "EpochPartsReady kb epochID = ns kb (''epoch:'' @ epochID @ '':parts:ready'')"

definition AggregationQueueLevel1 :: "keyBuilder \<Rightarrow> string" where [key_defs]:
  "AggregationQueueLevel1 kb = ns kb (''aggregationQueue'')"

definition FinalizedBatch :: "keyBuilder \<Rightarrow> string \<Rightarrow> string" where [key_defs]:
  "FinalizedBatch kb epochID = ns kb (''finalized:'' @ epochID)"

definition BatchAggregated :: "keyBuilder \<Rightarrow> string \<Rightarrow> string" where [key_defs]:
  "BatchAggregated kb epochID = ns kb (''batch:aggregated:'' @ epochID)"

definition AggregationStream :: "keyBuilder \<Rightarrow> string" where [key_defs]:
  "AggregationStream kb = ns kb (''stream:aggregation:notifications'')"

definition AggregatorConsumerGroup :: "keyBuilder \<Rightarrow> string" where [key_defs]:
  "AggregatorConsumerGroup kb = ns kb (''consumers:aggregator'')"

definition EpochValidators :: "keyBuilder \<Rightarrow> string \<Rightarrow> string" where [key_defs]:
  "EpochValidators kb epochID = ns kb (''epoch:'' @ epochID @ '':validators'')"

definition ActiveEpochs :: "keyBuilder \<Rightarrow> string" where [key_defs]:
  "ActiveEpochs kb = ns kb (''epochs:active'')"

definition MetricsEpochsTimeline :: "keyBuilder \<Rightarrow> string" where [key_defs]:
  "MetricsEpochsTimeline kb = ns kb (''metrics:epochs:timeline'')"

definition MetricsBatchesTimeline :: "keyBuilder \<Rightarrow> string" where [key_defs]:
  "MetricsBatchesTimeline kb = ns kb (''metrics:batches:timeline'')"

definition MetricsBatchLocal :: "keyBuilder \<Rightarrow> string \<Rightarrow> string" where [key_defs]:
  "MetricsBatchLocal kb epochID = ns kb (''metrics:batch:local:'' @ epochID)"

definition MetricsBatchAggregated :: "keyBuilder \<Rightarrow> string \<Rightarrow> string" where [key_defs]:
  "MetricsBatchAggregated kb epochID = ns kb (''metrics:batch:aggregated:'' @ epochID)"

definition MetricsBatchValidators :: "keyBuilder \<Rightarrow> string \<Rightarrow> string" where [key_defs]:
  "MetricsBatchValidators kb epochID = ns kb (''metrics:batch:'' @ epochID @ '':validators'')"

definition MetricsEpochInfo :: "keyBuilder \<Rightarrow> string \<Rightarrow> string" where [key_defs]:
  "MetricsEpochInfo kb epochID = ns kb (''metrics:epoch:'' @ epochID @ '':info'')"

definition MetricsEpochParts :: "keyBuilder \<Rightarrow> string \<Rightarrow> string" where [key_defs]:
  "MetricsEpochParts kb epochID = ns kb (''metrics:epoch:'' @ epochID @ '':parts'')"

definition MetricsEpochValidated :: "keyBuilder \<Rightarrow> string \<Rightarrow> string" where [key_defs]:
  "MetricsEpochValidated kb epochID = ns kb (''metrics:epoch:'' @ epochID @ '':validated'')"

definition MetricsValidatorBatches :: "keyBuilder \<Rightarrow> string \<Rightarrow> string" where [key_defs]:
  "MetricsValidatorBatches kb validatorID = ns kb (''metrics:validator:'' @ validatorID @ '':batches'')"

definition MetricsBatchPart :: "keyBuilder \<Rightarrow> string \<Rightarrow> int \<Rightarrow> string" where [key_defs]:
  "MetricsBatchPart kb epochID partID = ns kb (''metrics:part:'' @ epochID @ '':'' @ show_int partID)"

definition DashboardSummary :: "keyBuilder \<Rightarrow> string" where [key_defs]:
  "DashboardSummary kb = ns kb (''dashboard:summary'')"

definition StatsCurrent :: "keyBuilder \<Rightarrow> string" where [key_defs]:
  "StatsCurrent kb = ns kb (''stats:current'')"

definition StatsDaily :: "keyBuilder \<Rightarrow> string" where [key_defs]:
  "StatsDaily kb = ns kb (''stats:daily'')"

definition StatsHourly :: "keyBuilder \<Rightarrow> int \<Rightarrow> string" where [key_defs]:
  "StatsHourly kb timestamp = ns kb (''stats:hourly:'' @ show_int timestamp)"

definition MetricsSubmissionsTimeline :: "keyBuilder \<Rightarrow> string" where [key_defs]:
  "MetricsSubmissionsTimeline kb = ns kb (''metrics:submissions:timeline'')"

definition MetricsSubmissionsMetadata :: "keyBuilder \<Rightarrow> string \<Rightarrow> string" where [key_defs]:
  "MetricsSubmissionsMetadata kb entityID = ns kb (''metrics:submissions:metadata:'' @ entityID)"

definition MetricsValidationsTimeline :: "keyBuilder \<Rightarrow> string" where [key_defs]:
  "MetricsValidationsTimeline kb = ns kb (''metrics:validations:timeline'')"

definition MetricsPartsTimeline :: "keyBuilder \<Rightarrow> string" where [key_defs]:
  "MetricsPartsTimeline kb = ns kb (''metrics:parts:timeline'')"

definition MetricsParticipation :: "keyBuilder \<Rightarrow> string" where [key_defs]:
  "MetricsParticipation kb = ns kb (''metrics:participation'')"

definition MetricsCurrentEpoch :: "keyBuilder \<Rightarrow> string" where [key_defs]:
  "MetricsCurrentEpoch kb = ns kb (''metrics:current_epoch'')"

definition PipelineHealth :: "string \<Rightarrow> string" where [key_defs]:
  "PipelineHealth component = ''pipeline:health:'' @ component"

definition SubmissionStats :: "string \<Rightarrow> string" where [key_defs]:
  "SubmissionStats epochID = ''submission_stats:'' @ epochID"

definition ValidatorActive :: "string \<Rightarrow> string" where [key_defs]:
  "ValidatorActive validatorID = ''validator:active:'' @ validatorID"

definition WorkerStatus :: "string \<Rightarrow> string \<Rightarrow> string" where [key_defs]:
  "WorkerStatus workerType workerID = ''worker:'' @ workerType @ '':'' @ workerID @ '':status''"

definition WorkerHeartbeat :: "string \<Rightarrow> string \<Rightarrow> string" where [key_defs]:
  "WorkerHeartbeat workerType workerID = ''worker:'' @ workerType @ '':'' @ workerID @ '':heartbeat''"

definition WorkerCurrentBatch :: "string \<Rightarrow> string \<Rightarrow> string" where [key_defs]:
  "WorkerCurrentBatch workerType workerID = ''worker:'' @ workerType @ '':'' @ workerID @ '':current_batch''"

definition WorkerCurrentEpoch :: "string \<Rightarrow> string" where [key_defs]:
  "WorkerCurrentEpoch workerType = ''worker:'' @ workerType @ '':current_epoch''"

definition WorkerBatchesProcessed :: "string \<Rightarrow> string \<Rightarrow> string" where [key_defs]:
  "WorkerBatchesProcessed workerType workerID = ''worker:'' @ workerType @ '':'' @ workerID @ '':batches_processed''"

definition WorkerLastError :: "string \<Rightarrow> string \<Rightarrow> string" where [key_defs]:
  "WorkerLastError workerType workerID = ''worker:'' @ workerType @ '':'' @ workerID @ '':last_error''"

definition BatchPartStatus :: "string \<Rightarrow> int \<Rightarrow> string" where [key_defs]:
  "BatchPartStatus epochID batchID = ''batch:'' @ epochID @ '':part:'' @ show_int batchID @ '':status''"

definition BatchPartWorker :: "string \<Rightarrow> int \<Rightarrow> string" where [key_defs]:
  "BatchPartWorker epochID batchID = ''batch:'' @ epochID @ '':part:'' @ show_int batchID @ '':worker''"

definition MetricsProcessingRate :: "string" where [key_defs]:
  "MetricsProcessingRate = ''metrics:processing_rate''"

definition MetricsAvgLatency :: "string" where [key_defs]:
  "MetricsAvgLatency = ''metrics:avg_latency''"

definition MetricsTotalProcessed :: "string" where [key_defs]:
  "MetricsTotalProcessed = ''metrics:total_processed''"

definition GlobalMetricsSubmissionsTimeline :: "string" where [key_defs]:
  "GlobalMetricsSubmissionsTimeline = ''metrics:submissions:timeline''"

definition GlobalMetricsValidationsTimeline :: "string" where [key_defs]:
  "GlobalMetricsValidationsTimeline = ''metrics:validations:timeline''"

definition GlobalMetricsEpochsTimeline :: "string" where [key_defs]:
  "GlobalMetricsEpochsTimeline = ''metrics:epochs:timeline''"

definition GlobalMetricsBatchesTimeline :: "string" where [key_defs]:
  "GlobalMetricsBatchesTimeline = ''metrics:batches:timeline''"

definition GlobalMetricsPartsTimeline :: "string" where [key_defs]:
  "GlobalMetricsPartsTimeline = ''metrics:parts:timeline''"

definition BatchFinalized :: "string \<Rightarrow> string" where [key_defs]:
  "BatchFinalized epochID = ''batch:finalized:'' @ epochID"


lemma ns_same [fmt_simps]: "ns kb a = ns kb b \<longleftrightarrow> a = b"
  by (simp add: ns_def)

lemma ns_inject:
  assumes "kb_ok kb" and "kb_ok kb'" and "ns kb a = ns kb' b"
  shows "kb = kb' \<and> a = b"
proof -
  have "ProtocolState kb = ProtocolState kb' \<and>
      DataMarket kb @ CHR '':'' # a = DataMarket kb' @ CHR '':'' # b"
    using assms by (intro colon_split_inject) (auto simp: kb_ok_def colon_free_def ns_def)
  moreover from this have "DataMarket kb = DataMarket kb' \<and> a = b"
    using assms by (intro colon_split_inject) (auto simp: kb_ok_def colon_free_def)
  ultimately show ?thesis by (cases kb; cases kb') auto
qed

section \<open>Families of keys indexed by epoch\<close>

locale epoch_key =
  fixes key :: "keyBuilder \<Rightarrow> string \<Rightarrow> string"
    and suffix :: "string \<Rightarrow> string"
  assumes key_ns: "key kb e = ns kb (suffix e)"
    and suffix_inject: "suffix e = suffix e' \<Longrightarrow> e = e'"
begin

lemma same_market: "key kb e = key kb e' \<longleftrightarrow> e = e'"
  by (auto simp: key_ns ns_same dest: suffix_inject)

lemma separate: "kb_ok kb \<Longrightarrow> kb_ok kb' \<Longrightarrow> key kb e = key kb' e' \<longleftrightarrow> kb = kb' \<and> e = e'"
  by (auto simp: key_ns dest: ns_inject suffix_inject)

end

interpretation processed_key: epoch_key EpochProcessed "\<lambda>e. ''epoch:'' @ e @ '':processed''"
  by unfold_locales (auto simp: EpochProcessed_def)

interpretation window_key: epoch_key EpochWindow "\<lambda>e. ''epoch:'' @ e @ '':window''"
  by unfold_locales (auto simp: EpochWindow_def)

interpretation completed_key: epoch_key EpochPartsCompleted "\<lambda>e. ''epoch:'' @ e @ '':parts:completed''"
  by unfold_locales (auto simp: EpochPartsCompleted_def)

interpretation total_key: epoch_key EpochPartsTotal "\<lambda>e. ''epoch:'' @ e @ '':parts:total''"
  by unfold_locales (auto simp: EpochPartsTotal_def)

interpretation ready_key: epoch_key EpochPartsReady "\<lambda>e. ''epoch:'' @ e @ '':parts:ready''"
  by unfold_locales (auto simp: EpochPartsReady_def)

interpretation finalized_key: epoch_key FinalizedBatch "\<lambda>e. ''finalized:'' @ e"
  by unfold_locales (auto simp: FinalizedBatch_def)

interpretation aggregated_key: epoch_key BatchAggregated "\<lambda>e. ''batch:aggregated:'' @ e"
  by unfold_locales (auto simp: BatchAggregated_def)

interpretation validators_key: epoch_key EpochValidators "\<lambda>e. ''epoch:'' @ e @ '':validators''"
  by unfold_locales (auto simp: EpochValidators_def)

section \<open>Keys read back\<close>

lemma BatchPart_inject [fmt_simps]:
  "CHR '':'' \<notin> set e \<Longrightarrow> CHR '':'' \<notin> set e' \<Longrightarrow>
     BatchPart kb e i = BatchPart kb e' j \<longleftrightarrow> e = e' \<and> show_int i = show_int j"
  by (auto simp: BatchPart_def ns_same dest: colon_split_inject)

lemma IncomingBatch_split:
  assumes "kb_ok kb" and "colon_free e"
  shows "split_on CHR '':'' (IncomingBatch kb e v) =
     [ProtocolState kb, DataMarket kb, ''incoming'', ''batch'', e] @ split_on CHR '':'' v"
proof -
  have "split_on CHR '':'' (''incoming'' @ CHR '':'' # ''batch'' @ CHR '':'' # e @ CHR '':'' # v) =
      ''incoming'' # ''batch'' # e # split_on CHR '':'' v"
    using assms by (subst split_on_append, simp, subst split_on_append, simp)
      (simp add: split_on_append colon_free_def)
  then show ?thesis
    using assms by (simp add: IncomingBatch_def ns_def split_on_append kb_ok_def colon_free_def)
qed

end
