(* ===== verification/Submissions.thy ===== *)
theory Submissions
  imports Keys
begin

text \<open>
  \<open>pkgs/submissions/types.go\<close>: the data of a submission, its JSON form as the collector sends
  it and as the dequeuer stores it. A \<open>nil\<close> slice or pointer is \<open>None\<close>.
\<close>

record snapshotRequest =
  SlotId :: u64
  Deadline :: u64
  SnapshotCid :: string
  EpochId :: u64
  ProjectId :: string
  AggregateRequest :: bool

record snapshotSubmission =
  Request :: snapshotRequest
  Signature :: string
  Header :: string
  SubProtocolState :: string
  SubDataMarket :: string
  NodeVersion :: "string option"

record p2pSnapshotSubmission =
  P2PEpochID :: u64
  P2PSubmissions :: "snapshotSubmission option list option"
  SnapshotterID :: string
  P2PSignature :: "byte list"

record processedSubmission =
  ID :: string
  Submission :: snapshotSubmission
  SnapshotterAddr :: string
  DataMarketAddr :: string
  ProcessedAt :: int
  PsValidatorID :: string
  MetaData :: "(string, json) gomap"

record submissionMetadata =
  SubmitterID :: string
  SnapshotCID :: string
  MdTimestamp :: u64
  MdSignature :: "byte list"
  SlotID :: u64
  VoteCount :: int
  ValidatorsConfirming :: "string list"

definition zero_request :: snapshotRequest where
  "zero_request = \<lparr>SlotId = 0, Deadline = 0, SnapshotCid = [], EpochId = 0, ProjectId = [],
     AggregateRequest = False\<rparr>"

definition zero_submission :: snapshotSubmission where
  "zero_submission = \<lparr>Request = zero_request, Signature = [], Header = [],
     SubProtocolState = [], SubDataMarket = [], NodeVersion = None\<rparr>"

definition zero_metadata :: submissionMetadata where
  "zero_metadata = \<lparr>SubmitterID = [], SnapshotCID = [], MdTimestamp = 0, MdSignature = [],
     SlotID = 0, VoteCount = 0, ValidatorsConfirming = []\<rparr>"

section \<open>Decoding\<close>

fun dec_request :: "snapshotRequest dec" where
  "dec_request cur (JObj kvs) =
     (let (a, oka) = dec_field ''slotId'' dec_u64 kvs (SlotId cur);
          (b, okb) = dec_field ''deadline'' dec_u64 kvs (Deadline cur);
          (c, okc) = dec_field ''snapshotCid'' dec_str kvs (SnapshotCid cur);
          (e, oke) = dec_field ''epochId'' dec_u64 kvs (EpochId cur);
          (p, okp) = dec_field ''projectId'' dec_str kvs (ProjectId cur);
          (g, okg) = dec_field ''aggregate_request'' dec_bool kvs (AggregateRequest cur)
      in (\<lparr>SlotId = a, Deadline = b, SnapshotCid = c, EpochId = e, ProjectId = p,
            AggregateRequest = g\<rparr>, oka \<and> okb \<and> okc \<and> oke \<and> okp \<and> okg))"
| "dec_request cur JNull = (cur, True)"
| "dec_request cur _ = (cur, False)"

fun dec_ostr :: "string option dec" where
  "dec_ostr cur (JStr s) = (Some s, True)"
| "dec_ostr cur JNull = (None, True)"
| "dec_ostr cur _ = (cur, False)"

fun dec_submission :: "snapshotSubmission dec" where
  "dec_submission cur (JObj kvs) =
     (let (r, okr) = dec_field ''request'' dec_request kvs (Request cur);
          (s, oks) = dec_field ''signature'' dec_str kvs (Signature cur);
          (h, okh) = dec_field ''header'' dec_str kvs (Header cur);
          (p, okp) = dec_field ''protocolState'' dec_str kvs (SubProtocolState cur);
          (m, okm) = dec_field ''dataMarket'' dec_str kvs (SubDataMarket cur);
          (n, okn) = dec_field ''nodeVersion'' dec_ostr kvs (NodeVersion cur)
      in (\<lparr>Request = r, Signature = s, Header = h, SubProtocolState = p, SubDataMarket = m,
            NodeVersion = n\<rparr>, okr \<and> oks \<and> okh \<and> okp \<and> okm \<and> okn))"
| "dec_submission cur JNull = (cur, True)"
| "dec_submission cur _ = (cur, False)"

text \<open>An element of \<open>[]*SnapshotSubmission\<close>: \<open>null\<close> is the nil pointer.\<close>

fun dec_submission_ptr :: "snapshotSubmission option dec" where
  "dec_submission_ptr cur JNull = (None, True)"
| "dec_submission_ptr cur j = (let (s, ok) = dec_submission zero_submission j in (Some s, ok))"

fun dec_submissions :: "snapshotSubmission option list option dec" where
  "dec_submissions cur (JArr js) =
     (Some (map (\<lambda>j. fst (dec_submission_ptr None j)) js),
      list_all (\<lambda>j. snd (dec_submission_ptr None j)) js)"
| "dec_submissions cur JNull = (None, True)"
| "dec_submissions cur _ = (cur, False)"

fun decode_p2p :: "json \<Rightarrow> p2pSnapshotSubmission \<times> bool" where
  "decode_p2p (JObj kvs) =
     (let (e, oke) = dec_field ''epoch_id'' dec_u64 kvs 0;
          (ss, okss) = dec_field ''submissions'' dec_submissions kvs None;
          (i, oki) = dec_field ''snapshotter_id'' dec_str kvs [];
          (g, okg) = dec_field ''signature'' dec_bytes kvs []
      in (\<lparr>P2PEpochID = e, P2PSubmissions = ss, SnapshotterID = i, P2PSignature = g\<rparr>,
          oke \<and> okss \<and> oki \<and> okg))"
| "decode_p2p JNull = (\<lparr>P2PEpochID = 0, P2PSubmissions = None, SnapshotterID = [], P2PSignature = []\<rparr>, True)"
| "decode_p2p _ = (\<lparr>P2PEpochID = 0, P2PSubmissions = None, SnapshotterID = [], P2PSignature = []\<rparr>, False)"

section \<open>Encoding\<close>

text \<open>\<open>omitempty\<close>: a zero value leaves its key out.\<close>

definition omit :: "bool \<Rightarrow> string \<Rightarrow> json \<Rightarrow> (string \<times> json) list" where
  "omit zero k j = (if zero then [] else [(k, j)])"

definition enc_request :: "snapshotRequest \<Rightarrow> json" where
  "enc_request r = JObj (omit (SlotId r = 0) ''slotId'' (JNum (uint (SlotId r))) @
     [(''deadline'', JNum (uint (Deadline r)))] @
     omit (SnapshotCid r = []) ''snapshotCid'' (JStr (SnapshotCid r)) @
     omit (EpochId r = 0) ''epochId'' (JNum (uint (EpochId r))) @
     omit (ProjectId r = []) ''projectId'' (JStr (ProjectId r)) @
     omit (\<not> AggregateRequest r) ''aggregate_request'' (JBool True))"

definition enc_submission :: "snapshotSubmission \<Rightarrow> json" where
  "enc_submission s = JObj ([(''request'', enc_request (Request s)), (''signature'', JStr (Signature s))] @
     omit (Header s = []) ''header'' (JStr (Header s)) @
     omit (SubProtocolState s = []) ''protocolState'' (JStr (SubProtocolState s)) @
     [(''dataMarket'', JStr (SubDataMarket s))] @
     (case NodeVersion s of None \<Rightarrow> [] | Some v \<Rightarrow> [(''nodeVersion'', JStr v)]))"

text \<open>\<open>ProcessedSubmission\<close> has no tags: its keys are the field names. The time, in nanoseconds, is written as the RFC 3339 text
  that \<open>timeText\<close> makes of it.\<close>

definition enc_processed :: "(int \<Rightarrow> string) \<Rightarrow> processedSubmission \<Rightarrow> json" where
  "enc_processed timeText p = JObj [(''ID'', JStr (ID p)), (''Submission'', enc_submission (Submission p)),
     (''SnapshotterAddr'', JStr (SnapshotterAddr p)), (''DataMarketAddr'', JStr (DataMarketAddr p)),
     (''ProcessedAt'', JStr (timeText (ProcessedAt p))), (''ValidatorID'', JStr (PsValidatorID p)),
     (''MetaData'', JObj (MetaData p))]"

definition enc_metadata :: "submissionMetadata \<Rightarrow> json" where
  "enc_metadata m = JObj [(''submitter_id'', JStr (SubmitterID m)),
     (''snapshot_cid'', JStr (SnapshotCID m)), (''timestamp'', JNum (uint (MdTimestamp m))),
     (''signature'', enc_bytes (MdSignature m)), (''slot_id'', JNum (uint (SlotID m))),
     (''vote_count'', JNum (VoteCount m)),
     (''validators_confirming'', JArr (map JStr (ValidatorsConfirming m)))]"

fun dec_metadata :: "submissionMetadata dec" where
  "dec_metadata cur (JObj kvs) =
     (let (a, oka) = dec_field ''submitter_id'' dec_str kvs (SubmitterID cur);
          (b, okb) = dec_field ''snapshot_cid'' dec_str kvs (SnapshotCID cur);
          (c, okc) = dec_field ''timestamp'' dec_u64 kvs (MdTimestamp cur);
          (d, okd) = dec_field ''signature'' dec_bytes kvs (MdSignature cur);
          (e, oke) = dec_field ''slot_id'' dec_u64 kvs (SlotID cur);
          (f, okf) = dec_field ''vote_count'' dec_int kvs (VoteCount cur);
          (g, okg) = dec_field ''validators_confirming'' (dec_list [] dec_str) kvs (ValidatorsConfirming cur)
      in (\<lparr>SubmitterID = a, SnapshotCID = b, MdTimestamp = c, MdSignature = d, SlotID = e,
            VoteCount = f, ValidatorsConfirming = g\<rparr>,
          oka \<and> okb \<and> okc \<and> okd \<and> oke \<and> okf \<and> okg))"
| "dec_metadata cur JNull = (cur, True)"
| "dec_metadata cur _ = (cur, False)"

section \<open>Round trips\<close>

lemma lower_names [json_simps]:
  "lower ''request'' = ''request''"
  "lower ''slotId'' = ''slotid''"
  "lower ''deadline'' = ''deadline''"
  "lower ''snapshotCid'' = ''snapshotcid''"
  "lower ''epochId'' = ''epochid''"
  "lower ''projectId'' = ''projectid''"
  "lower ''aggregate_request'' = ''aggregate_request''"
  "lower ''signature'' = ''signature''"
  "lower ''header'' = ''header''"
  "lower ''protocolState'' = ''protocolstate''"
  "lower ''dataMarket'' = ''datamarket''"
  "lower ''nodeVersion'' = ''nodeversion''"
  "lower ''submitter_id'' = ''submitter_id''"
  "lower ''snapshot_cid'' = ''snapshot_cid''"
  "lower ''timestamp'' = ''timestamp''"
  "lower ''slot_id'' = ''slot_id''"
  "lower ''vote_count'' = ''vote_count''"
  "lower ''validators_confirming'' = ''validators_confirming''"
  "lower ''epoch_id'' = ''epoch_id''"
  "lower ''submissions'' = ''submissions''"
  "lower ''snapshotter_id'' = ''snapshotter_id''"
  by (simp_all add: lower_def lower_char_def)

lemma field_append:
  "field n (xs @ ys) = (case field n xs of None \<Rightarrow> field n ys | Some j \<Rightarrow> Some j)"
  by (induction xs) (auto split: prod.splits)

lemma field_omit:
  "field n (omit z k j @ ys) =
     (if lower k = lower n \<and> \<not> z then Some j else field n ys)"
  by (simp add: omit_def)

lemma field_omit_last:
  "field n (omit z k j) = (if lower k = lower n \<and> \<not> z then Some j else None)"
  by (simp add: omit_def)

lemmas field_simps' = field_omit field_omit_last dec_field_def lower_names

lemma dec_enc_request: "dec_request zero_request (enc_request r) = (r, True)"
  by (cases r) (simp add: enc_request_def zero_request_def field_simps' Let_def dec_u64_exact
      del: dec_u64.simps)

lemma dec_enc_submission: "dec_submission zero_submission (enc_submission s) = (s, True)"
  using dec_enc_request [of "Request s"]
  by (cases s) (simp add: enc_submission_def zero_submission_def field_simps' Let_def
      del: dec_request.simps split: option.splits)

lemma dec_enc_metadata:
  "- (2 ^ 63) \<le> VoteCount m \<Longrightarrow> VoteCount m < 2 ^ 63 \<Longrightarrow>
     dec_metadata zero_metadata (enc_metadata m) = (m, True)"
proof -
  assume v: "- (2 ^ 63) \<le> VoteCount m" "VoteCount m < 2 ^ 63"
  have l: "dec_list [] dec_str cur (JArr (map JStr xs)) = (xs, True)" for cur xs
    by (rule dec_list_map) simp
  show ?thesis using v
    by (cases m) (simp add: enc_metadata_def zero_metadata_def field_simps' Let_def
        dec_u64_exact l dec_enc_bytes del: dec_u64.simps dec_list.simps)
qed

end
