(* ===== verification/Eip712.thy ===== *)
theory Eip712
  imports Submissions
begin

text \<open>
  \<open>pkgs/crypto/eip712.go\<close> and \<open>pkgs/submissions/slot_validator.go\<close>: who signed a submission,
  and whether that signer holds the slot. go-ethereum and libp2p are outside the repository: the
  functions the code calls are the fields of \<open>golib\<close>, an argument of every definition that
  uses one. \<open>sane_lib\<close> states the documented facts some theorems rely on.
\<close>

type_synonym addr = "byte list"

datatype tdValue = TdInt int | TdStr string

record typedData =
  tdTypes :: "(string \<times> (string \<times> string) list) list"
  tdPrimary :: string
  tdDomain :: "(string \<times> tdValue) list"
  tdMessage :: "(string \<times> tdValue) list"

record golib =
  IsHexAddress :: "string \<Rightarrow> bool"
  HexToAddress :: "string \<Rightarrow> addr"
  AddrHex :: "addr \<Rightarrow> string"
  AddrOfText :: "string \<Rightarrow> addr option"
  Hex2Bytes :: "string \<Rightarrow> byte list"
  HashStruct :: "typedData \<Rightarrow> string \<Rightarrow> (string \<times> tdValue) list \<Rightarrow> byte list option"
  Keccak256 :: "byte list \<Rightarrow> byte list"
  Ecrecover :: "byte list \<Rightarrow> byte list \<Rightarrow> byte list option"
  UnmarshalPubkey :: "byte list \<Rightarrow> byte list option"
  PubkeyToAddress :: "byte list \<Rightarrow> addr"
  Sha256 :: "byte list \<Rightarrow> byte list"
  HourOf :: "int \<Rightarrow> string"
  FloatToU64 :: "int \<Rightarrow> u64"
  FloatToInt :: "int \<Rightarrow> int"
  FloatToU32 :: "int \<Rightarrow> u32"
  TimeText :: "int \<Rightarrow> string"
  ParseTime :: "string \<Rightarrow> int option"

text \<open>\<open>HourOf\<close> is \<open>Format("2006010215")\<close> of a Unix time, \<open>TimeText\<close> and \<open>ParseTime\<close> the RFC 3339 text of
  a time in nanoseconds; \<open>FloatToU64\<close>, \<open>FloatToInt\<close> and \<open>FloatToU32\<close> are what
  the platform makes of a float64 outside the integer type's range, which the language leaves open.\<close>

definition u64_of_float :: "golib \<Rightarrow> int \<Rightarrow> u64" where
  "u64_of_float L x = (if 0 \<le> x \<and> x < 2 ^ 64 then word_of_int x else FloatToU64 L x)"

definition int_of_float :: "golib \<Rightarrow> int \<Rightarrow> int" where
  "int_of_float L x = (if - (2 ^ 63) \<le> x \<and> x < 2 ^ 63 then x else FloatToInt L x)"

definition u32_of_float :: "golib \<Rightarrow> int \<Rightarrow> u32" where
  "u32_of_float L x = (if 0 \<le> x \<and> x < 2 ^ 32 then word_of_int x else FloatToU32 L x)"

definition zero_addr :: addr where
  "zero_addr = replicate 20 0"

text \<open>
  A hex decoder makes at most one byte of two characters, \<open>Hex\<close> never yields the empty
  string, and SHA-256 has 32 bytes.
\<close>

definition sane_lib :: "golib \<Rightarrow> bool" where
  "sane_lib L \<longleftrightarrow>
     (\<forall>s. 2 * length (Hex2Bytes L s) \<le> length s) \<and>
     (\<forall>a. AddrHex L a \<noteq> []) \<and>
     (\<forall>bs. length (Sha256 L bs) = 32)"

section \<open>EIP-712\<close>

record eip712Request =
  rqSlotId :: u64
  rqDeadline :: u64
  rqSnapshotCid :: string
  rqEpochId :: u64
  rqProjectId :: string

record eip712Verifier =
  chainID :: int
  verifyingContract :: addr

datatype verifyError =
    InvalidContract string
  | InvalidSigLength nat
  | InvalidRecoveryId byte
  | EcrecoverFailed
  | PubkeyFailed
  | DomainHashFailed
  | MessageHashFailed
  | EmptySignature

definition NewEIP712Verifier :: "golib \<Rightarrow> int \<Rightarrow> string \<Rightarrow> verifyError + eip712Verifier" where
  "NewEIP712Verifier L cid contract =
     (if \<not> IsHexAddress L contract then Inl (InvalidContract contract)
      else Inr \<lparr>chainID = cid, verifyingContract = HexToAddress L contract\<rparr>)"

text \<open>\<open>big.NewInt(int64(x))\<close>: a value of \<open>2 ^ 63\<close> or more comes out negative.\<close>

definition big_of_u64 :: "u64 \<Rightarrow> tdValue" where
  "big_of_u64 w = TdInt (sint w)"

definition typed_data :: "golib \<Rightarrow> eip712Verifier \<Rightarrow> eip712Request \<Rightarrow> typedData" where
  "typed_data L v rq =
     \<lparr>tdTypes =
        [(''EIP712Domain'', [(''name'', ''string''), (''version'', ''string''),
            (''chainId'', ''uint256''), (''verifyingContract'', ''address'')]),
         (''EIPRequest'', [(''slotId'', ''uint256''), (''deadline'', ''uint256''),
            (''snapshotCid'', ''string''), (''epochId'', ''uint256''), (''projectId'', ''string'')])],
      tdPrimary = ''EIPRequest'',
      tdDomain = [(''name'', TdStr ''PowerloomProtocolContract''), (''version'', TdStr ''0.1''),
         (''chainId'', TdInt (chainID v)),
         (''verifyingContract'', TdStr (AddrHex L (verifyingContract v)))],
      tdMessage = [(''slotId'', big_of_u64 (rqSlotId rq)), (''deadline'', big_of_u64 (rqDeadline rq)),
         (''snapshotCid'', TdStr (rqSnapshotCid rq)), (''epochId'', big_of_u64 (rqEpochId rq)),
         (''projectId'', TdStr (rqProjectId rq))]\<rparr>"

definition HashRequest :: "golib \<Rightarrow> eip712Verifier \<Rightarrow> eip712Request \<Rightarrow> verifyError + byte list" where
  "HashRequest L v rq =
     (let td = typed_data L v rq in
      case HashStruct L td ''EIP712Domain'' (tdDomain td) of
        None \<Rightarrow> Inl DomainHashFailed
      | Some domainSeparator \<Rightarrow>
          (case HashStruct L td (tdPrimary td) (tdMessage td) of
             None \<Rightarrow> Inl MessageHashFailed
           | Some typedDataHash \<Rightarrow>
               Inr (Keccak256 L ([25, 1] @ domainSeparator @ typedDataHash))))"

definition RecoverAddress :: "golib \<Rightarrow> byte list \<Rightarrow> byte list \<Rightarrow> verifyError + addr" where
  "RecoverAddress L msgHash sig =
     (if length sig \<noteq> 65 then Inl (InvalidSigLength (length sig))
      else if sig ! 64 \<noteq> 27 \<and> sig ! 64 \<noteq> 28 then Inl (InvalidRecoveryId (sig ! 64))
      else case Ecrecover L msgHash (sig[64 := sig ! 64 - 27]) of
        None \<Rightarrow> Inl EcrecoverFailed
      | Some raw \<Rightarrow>
          (case UnmarshalPubkey L raw of
             None \<Rightarrow> Inl PubkeyFailed
           | Some pk \<Rightarrow> Inr (PubkeyToAddress L pk)))"

text \<open>The debug line slices the signature text to 20 characters before anything is hashed.\<close>

definition VerifySignature ::
  "golib \<Rightarrow> eip712Verifier \<Rightarrow> eip712Request \<Rightarrow> string \<Rightarrow> (verifyError + addr) prog" where
  "VerifySignature L v rq sigStr =
     (let sig = Hex2Bytes L sigStr in
      if length sig \<noteq> 65 then Ret (Inl (InvalidSigLength (length sig)))
      else or_panic (slice_to 20 sigStr) (\<lambda>_.
        Ret (case HashRequest L v rq of
               Inl e \<Rightarrow> Inl e
             | Inr h \<Rightarrow> RecoverAddress L h sig)))"

text \<open>What a successful recovery means: the signer of a 65-byte signature over this request.\<close>

definition signed_by :: "golib \<Rightarrow> eip712Verifier \<Rightarrow> eip712Request \<Rightarrow> string \<Rightarrow> addr \<Rightarrow> bool" where
  "signed_by L v rq sigStr a \<longleftrightarrow>
     (\<exists>h raw pk. let sig = Hex2Bytes L sigStr in
        length sig = 65 \<and> sig ! 64 \<in> {27, 28} \<and> HashRequest L v rq = Inr h \<and>
        Ecrecover L h (sig[64 := sig ! 64 - 27]) = Some raw \<and>
        UnmarshalPubkey L raw = Some pk \<and> a = PubkeyToAddress L pk)"

lemma RecoverAddress_Inr:
  "RecoverAddress L h sig = Inr a \<longleftrightarrow>
     length sig = 65 \<and> sig ! 64 \<in> {27, 28} \<and>
     (\<exists>raw pk. Ecrecover L h (sig[64 := sig ! 64 - 27]) = Some raw \<and>
        UnmarshalPubkey L raw = Some pk \<and> a = PubkeyToAddress L pk)"
  by (auto simp: RecoverAddress_def split: if_splits option.splits)

lemma VerifySignature_sane:
  assumes "sane_lib L"
  shows "VerifySignature L v rq sigStr =
     Ret (if length (Hex2Bytes L sigStr) \<noteq> 65
          then Inl (InvalidSigLength (length (Hex2Bytes L sigStr)))
          else case HashRequest L v rq of
             Inl e \<Rightarrow> Inl e
           | Inr h \<Rightarrow> RecoverAddress L h (Hex2Bytes L sigStr))"
proof -
  have "2 * length (Hex2Bytes L sigStr) \<le> length sigStr"
    using assms by (simp add: sane_lib_def)
  then show ?thesis by (simp add: VerifySignature_def Let_def slice_to_def)
qed

lemma VerifySignature_Ret:
  "VerifySignature L v rq sigStr = Ret (Inr a) \<Longrightarrow> signed_by L v rq sigStr a"
  by (auto simp: VerifySignature_def signed_by_def Let_def slice_to_def RecoverAddress_Inr
      split: if_splits sum.splits)

section \<open>Slots\<close>

record slotInfo =
  SnapshotterAddress :: addr
  NodePrice :: int
  AmountSentOnL1 :: int
  MintedOn :: int
  BurnedOn :: int
  LastUpdated :: int
  IsLegacy :: bool
  ClaimedTokens :: bool
  Active :: bool
  IsKyced :: bool

definition zero_slot :: slotInfo where
  "zero_slot = \<lparr>SnapshotterAddress = zero_addr, NodePrice = 0, AmountSentOnL1 = 0, MintedOn = 0,
     BurnedOn = 0, LastUpdated = 0, IsLegacy = False, ClaimedTokens = False, Active = False,
     IsKyced = False\<rparr>"

fun dec_addr :: "golib \<Rightarrow> addr dec" where
  "dec_addr L cur (JStr s) = (case AddrOfText L s of None \<Rightarrow> (cur, False) | Some a \<Rightarrow> (a, True))"
| "dec_addr L cur JNull = (cur, True)"
| "dec_addr L cur _ = (cur, False)"

fun dec_big :: "int dec" where
  "dec_big cur (JNum n) = (n, True)"
| "dec_big cur JNull = (cur, True)"
| "dec_big cur _ = (cur, False)"

text \<open>\<open>json.Unmarshal\<close> of the cached slot; a field of the wrong type fails the whole.\<close>

fun decode_slot :: "golib \<Rightarrow> blob \<Rightarrow> slotInfo option" where
  "decode_slot L (Js (JObj kvs)) =
     (let (a, oka) = dec_field ''SnapshotterAddress'' (dec_addr L) kvs zero_addr;
          (p, okp) = dec_field ''NodePrice'' dec_big kvs 0;
          (m, okm) = dec_field ''AmountSentOnL1'' dec_big kvs 0;
          (t, okt) = dec_field ''MintedOn'' dec_big kvs 0;
          (u, oku) = dec_field ''BurnedOn'' dec_big kvs 0;
          (w, okw) = dec_field ''LastUpdated'' dec_big kvs 0;
          (l, okl) = dec_field ''IsLegacy'' dec_bool kvs False;
          (c, okc) = dec_field ''ClaimedTokens'' dec_bool kvs False;
          (b, okb) = dec_field ''Active'' dec_bool kvs False;
          (k, okk) = dec_field ''IsKyced'' dec_bool kvs False
      in if oka \<and> okp \<and> okm \<and> okt \<and> oku \<and> okw \<and> okl \<and> okc \<and> okb \<and> okk
         then Some \<lparr>SnapshotterAddress = a, NodePrice = p, AmountSentOnL1 = m, MintedOn = t,
                BurnedOn = u, LastUpdated = w, IsLegacy = l, ClaimedTokens = c, Active = b,
                IsKyced = k\<rparr>
         else None)"
| "decode_slot L (Js JNull) = Some zero_slot"
| "decode_slot L _ = None"

datatype slotError =
    SlotNotFound u64
  | SlotFetchFailed u64
  | SlotParseFailed u64
  | SlotInactive u64
  | SnapshotterMismatch u64 addr addr

definition slot_key :: "u64 \<Rightarrow> string" where
  "slot_key slotID = ''SlotInfo.'' @ show_u64 slotID"

definition ValidateSnapshotterForSlot :: "golib \<Rightarrow> u64 \<Rightarrow> addr \<Rightarrow> (slotError + unit) prog" where
  "ValidateSnapshotterForSlot L slotID signer =
     Call (RGet (slot_key slotID)) (\<lambda>r.
       case r of
         NilR \<Rightarrow> Ret (Inl (SlotNotFound slotID))
       | BlobR b \<Rightarrow>
           (case decode_slot L b of
              None \<Rightarrow> Ret (Inl (SlotParseFailed slotID))
            | Some slot \<Rightarrow>
                if \<not> Active slot then Ret (Inl (SlotInactive slotID))
                else if SnapshotterAddress slot \<noteq> signer
                then Ret (Inl (SnapshotterMismatch slotID (SnapshotterAddress slot) signer))
                else Ret (Inr ()))
       | _ \<Rightarrow> Ret (Inl (SlotFetchFailed slotID)))"

definition GetSlotSnapshotter :: "golib \<Rightarrow> u64 \<Rightarrow> (slotError + addr) prog" where
  "GetSlotSnapshotter L slotID =
     Call (RGet (slot_key slotID)) (\<lambda>r.
       case r of
         NilR \<Rightarrow> Ret (Inl (SlotNotFound slotID))
       | BlobR b \<Rightarrow>
           (case decode_slot L b of
              None \<Rightarrow> Ret (Inl (SlotParseFailed slotID))
            | Some slot \<Rightarrow> Ret (Inr (SnapshotterAddress slot)))
       | _ \<Rightarrow> Ret (Inl (SlotFetchFailed slotID)))"

text \<open>The slot check passes exactly on an active cached slot registered to the signer.\<close>

definition slot_held :: "golib \<Rightarrow> reply \<Rightarrow> addr \<Rightarrow> bool" where
  "slot_held L r a \<longleftrightarrow>
     (case r of BlobR b \<Rightarrow>
        (case decode_slot L b of None \<Rightarrow> False
         | Some slot \<Rightarrow> Active slot \<and> SnapshotterAddress slot = a)
      | _ \<Rightarrow> False)"

lemma ValidateSnapshotterForSlot_ok:
  "outcome R (ValidateSnapshotterForSlot L slotID a) s = Some (Inr ()) \<longleftrightarrow>
     slot_held L (fst (R s (RGet (slot_key slotID)))) a"
  by (auto simp: ValidateSnapshotterForSlot_def slot_held_def run_Call
      split: reply.splits option.splits if_splits)

lemma ValidateSnapshotterForSlot_trace:
  "trace R (ValidateSnapshotterForSlot L slotID a) s = [RGet (slot_key slotID)]"
  by (auto simp: ValidateSnapshotterForSlot_def trace_Call split: reply.splits option.splits)

lemma ValidateSnapshotterForSlot_no_panic: "no_panic (ValidateSnapshotterForSlot L slotID a)"
  by (auto simp: ValidateSnapshotterForSlot_def split: reply.splits option.splits)

section \<open>A concrete library\<close>

text \<open>An instance of the outside functions for the examples: it accepts 130-character
  signatures and recovers one fixed address.\<close>

definition demo_addr :: addr where
  "demo_addr = replicate 20 1"

definition demo_lib :: golib where
  "demo_lib = \<lparr>IsHexAddress = (\<lambda>s. s \<noteq> []), HexToAddress = (\<lambda>_. demo_addr),
     AddrHex = (\<lambda>_. ''0x01''), AddrOfText = (\<lambda>s. if s = ''0x01'' then Some demo_addr else None),
     Hex2Bytes = (\<lambda>s. if length s = 130 then replicate 64 0 @ [27] else []),
     HashStruct = (\<lambda>_ _ _. Some []), Keccak256 = (\<lambda>bs. bs), Ecrecover = (\<lambda>_ _. Some [1]),
     UnmarshalPubkey = Some, PubkeyToAddress = (\<lambda>_. demo_addr),
     Sha256 = (\<lambda>_. replicate 32 0), HourOf = (\<lambda>_. ''2024010100''),
     FloatToU64 = (\<lambda>_. 0), FloatToInt = (\<lambda>_. 0), FloatToU32 = (\<lambda>_. 0),
     TimeText = (\<lambda>_. ''2024-01-01T00:00:00Z''), ParseTime = (\<lambda>_. Some 0)\<rparr>"

lemma sane_demo_lib: "sane_lib demo_lib"
  by (simp add: sane_lib_def demo_lib_def)

end
