(* ===== verification/Dedup.thy ===== *)
theory Dedup
  imports Eip712 GoText
begin

text \<open>
  \<open>pkgs/deduplication/deduplicator.go\<close>: a process-local LRU cache in front of an atomic SETNX.
  The cache is hashicorp's, outside the repository: its functions are the fields of \<open>lruLib\<close>
  and \<open>sane_lru\<close> is what is relied on, that it never holds a key that was not added.
\<close>

record 'c lruLib =
  lruNew :: "int \<Rightarrow> 'c option"
  lruContains :: "'c \<Rightarrow> string \<Rightarrow> bool"
  lruAdd :: "'c \<Rightarrow> string \<Rightarrow> 'c"
  lruLen :: "'c \<Rightarrow> int"
  lruPurge :: "'c \<Rightarrow> 'c"

definition sane_lru :: "'c lruLib \<Rightarrow> bool" where
  "sane_lru U \<longleftrightarrow>
     (\<forall>n c k. lruNew U n = Some c \<longrightarrow> \<not> lruContains U c k) \<and>
     (\<forall>c k k'. lruContains U (lruAdd U c k) k' \<longrightarrow> k' = k \<or> lruContains U c k') \<and>
     (\<forall>c k. \<not> lruContains U (lruPurge U c) k)"

record 'c deduplicator =
  localCache :: 'c
  ddTtl :: nat
  keyPrefix :: string

definition NewDeduplicator :: "'c lruLib \<Rightarrow> int \<Rightarrow> nat \<Rightarrow> 'c deduplicator option" where
  "NewDeduplicator U localCacheSize ttl =
     (case lruNew U localCacheSize of
        None \<Rightarrow> None
      | Some c \<Rightarrow> Some \<lparr>localCache = c, ddTtl = ttl, keyPrefix = ''dedup:''\<rparr>)"

definition dedup_text :: "string \<Rightarrow> u64 \<Rightarrow> string \<Rightarrow> string" where
  "dedup_text projectID epochID snapshotCID = projectID @ '':'' @ show_u64 epochID @ '':'' @ snapshotCID"

definition GenerateKey :: "golib \<Rightarrow> string \<Rightarrow> u64 \<Rightarrow> string \<Rightarrow> string" where
  "GenerateKey L projectID epochID snapshotCID =
     hex_encode (take 16 (Sha256 L (text_bytes (dedup_text projectID epochID snapshotCID))))"

text \<open>The result is \<open>None\<close> for an error of Redis, else whether the key is new.\<close>

definition CheckAndMark ::
  "'c lruLib \<Rightarrow> 'c deduplicator \<Rightarrow> string \<Rightarrow> (bool option \<times> 'c deduplicator) prog" where
  "CheckAndMark U d key =
     (if lruContains U (localCache d) key then Ret (Some False, d)
      else Call Now (\<lambda>t.
        Call (RSetNX (keyPrefix d @ key)
           (Js (JNum (case t of IntR n \<Rightarrow> n | _ \<Rightarrow> 0))) (ddTtl d)) (\<lambda>r.
        case r of
          IntR n \<Rightarrow> Ret (Some (n = 1), d\<lparr>localCache := lruAdd U (localCache d) key\<rparr>)
        | _ \<Rightarrow> Ret (None, d))))"

text \<open>The scan of \<open>GetStats\<close> runs until the cursor is back at zero; the fuel bounds its pages.\<close>

fun count_keys :: "nat \<Rightarrow> string \<Rightarrow> nat \<Rightarrow> int \<Rightarrow> int option prog" where
  "count_keys 0 pattern cursor sum0 = Ret None"
| "count_keys (Suc n) pattern cursor sum0 =
     Call (RScan cursor pattern) (\<lambda>r.
       case r of
         ScanR ks next \<Rightarrow>
           (let sum' = sum0 + int (length ks) in
            if next = 0 then Ret (Some sum') else count_keys n pattern next sum')
       | _ \<Rightarrow> Ret None)"

definition GetStats :: "'c lruLib \<Rightarrow> nat \<Rightarrow> 'c deduplicator \<Rightarrow> (string, int) gomap option prog" where
  "GetStats U fuel d =
     bindp (count_keys fuel (keyPrefix d @ ''*'') 0 0) (\<lambda>t.
       Ret (map_option (\<lambda>n. [(''total_dedup_keys'', n), (''local_cache_size'', lruLen U (localCache d)),
         (''ttl_seconds'', int (ddTtl d)), (''estimated_memory'', n * 100)]) t))"

definition ClearLocal :: "'c lruLib \<Rightarrow> 'c deduplicator \<Rightarrow> 'c deduplicator" where
  "ClearLocal U d = d\<lparr>localCache := lruPurge U (localCache d)\<rparr>"

section \<open>Exactly once\<close>

text \<open>
  Several processes share one store; a session is the order in which their checks reach it.
  \<open>check_all\<close> runs it: event \<open>(i, key)\<close> is a check by process \<open>i\<close>.
\<close>

fun check_all ::
  "'c lruLib \<Rightarrow> 's environment \<Rightarrow> (nat \<times> string) list \<Rightarrow> (nat \<Rightarrow> 'c deduplicator) \<Rightarrow> 's \<Rightarrow> bool option list" where
  "check_all U R [] D s = []"
| "check_all U R ((i, key) # es) D s =
     (case run R (CheckAndMark U (D i) key) s of
        (None, s') \<Rightarrow> []
      | (Some (b, d'), s') \<Rightarrow> b # check_all U R es (D(i := d')) s')"

definition marked :: "store \<Rightarrow> string \<Rightarrow> bool" where
  "marked st key \<longleftrightarrow> map_of (strs st) (''dedup:'' @ key) \<noteq> None"

definition fresh_dedup :: "'c lruLib \<Rightarrow> 'c deduplicator \<Rightarrow> store \<Rightarrow> bool" where
  "fresh_dedup U d st \<longleftrightarrow>
     keyPrefix d = ''dedup:'' \<and> (\<forall>k. lruContains U (localCache d) k \<longrightarrow> marked st k)"

text \<open>The answers of a session in which every key is new at its first check and old afterwards.\<close>

fun first_times :: "(string \<Rightarrow> bool) \<Rightarrow> (nat \<times> string) list \<Rightarrow> bool option list" where
  "first_times seen [] = []"
| "first_times seen ((i, key) # es) = Some (\<not> seen key) # first_times (\<lambda>k. k = key \<or> seen k) es"

lemma run_check:
  assumes "reliable R v"
  shows "\<exists>d' s'. run R (CheckAndMark U d key) s = (outcome R (CheckAndMark U d key) s, s') \<and>
     v s' = final store_step (CheckAndMark U d key) (v s) \<and>
     outcome R (CheckAndMark U d key) s = outcome store_step (CheckAndMark U d key) (v s)"
  using reliable_run [OF assms, of "CheckAndMark U d key" s] by (metis prod.collapse)

lemma check_step:
  assumes U: "sane_lru U" and f: "fresh_dedup U d st"
  shows "\<exists>d'. outcome store_step (CheckAndMark U d key) st = Some (Some (\<not> marked st key), d') \<and>
      fresh_dedup U d' (final store_step (CheckAndMark U d key) st)" (is ?A)
    "marked (final store_step (CheckAndMark U d key) st) = (\<lambda>k. k = key \<or> marked st k)" (is ?B)
proof -
  have p: "keyPrefix d = ''dedup:''" using f by (simp add: fresh_dedup_def)
  have c: "lruContains U (localCache d) k \<Longrightarrow> marked st k" for k using f by (simp add: fresh_dedup_def)
  have B: ?B
  proof (cases "lruContains U (localCache d) key")
    case True
    with c show ?thesis by (auto simp: CheckAndMark_def)
  next
    case False
    then show ?thesis
      by (intro ext) (auto simp: CheckAndMark_def p prog_simps marked_def map_of_update)
  qed
  have ?A
  proof (cases "lruContains U (localCache d) key")
    case True
    with c f show ?thesis by (auto simp: CheckAndMark_def)
  next
    case False
    let ?d = "d\<lparr>localCache := lruAdd U (localCache d) key\<rparr>"
    have "outcome store_step (CheckAndMark U d key) st = Some (Some (\<not> marked st key), ?d)"
      by (simp add: CheckAndMark_def False p prog_simps marked_def)
    moreover have "lruContains U (lruAdd U (localCache d) key) k \<Longrightarrow> k = key \<or> lruContains U (localCache d) k" for k
      using U by (simp add: sane_lru_def)
    then have "fresh_dedup U ?d (final store_step (CheckAndMark U d key) st)"
      using c p unfolding fresh_dedup_def B by auto
    ultimately show ?thesis by blast
  qed
  with B show ?A ?B by blast+
qed

lemma fresh_other: "fresh_dedup U d st \<Longrightarrow> (\<And>k. marked st k \<Longrightarrow> marked st' k) \<Longrightarrow> fresh_dedup U d st'"
  by (auto simp: fresh_dedup_def)

text \<open>C22. However many processes share the store, in whatever order their checks reach it and whatever
  their caches evict, a key is reported new exactly once: at the first check of a key the store
  does not hold yet. (While the marks have not expired.)\<close>

theorem dedup_exactly_once:
  assumes "reliable R v" and "sane_lru U" and "\<And>i. fresh_dedup U (D i) (v s)"
  shows "check_all U R es D s = first_times (marked (v s)) es"
  using assms(3)
proof (induction es arbitrary: D s)
  case Nil
  show ?case by simp
next
  case (Cons e es)
  obtain i key where e: "e = (i, key)" by (cases e)
  obtain d' where o: "outcome store_step (CheckAndMark U (D i) key) (v s) = Some (Some (\<not> marked (v s) key), d')"
    and f: "fresh_dedup U d' (final store_step (CheckAndMark U (D i) key) (v s))"
    and m: "marked (final store_step (CheckAndMark U (D i) key) (v s)) = (\<lambda>k. k = key \<or> marked (v s) k)"
    using check_step [OF assms(2) Cons.prems [of i], of key] by blast
  define s' where "s' = final R (CheckAndMark U (D i) key) s"
  have v': "v s' = final store_step (CheckAndMark U (D i) key) (v s)"
    and r: "run R (CheckAndMark U (D i) key) s = (Some (Some (\<not> marked (v s) key), d'), s')"
    using reliable_run [OF assms(1), of "CheckAndMark U (D i) key" s] o
    by (simp_all add: s'_def prod_eq_iff)
  have "fresh_dedup U ((D(i := d')) j) (v s')" for j
    using f fresh_other [OF Cons.prems] m by (auto simp: v')
  then have "check_all U R es (D(i := d')) s' = first_times (marked (v s')) es" by (rule Cons.IH)
  then show ?case by (simp add: e r m v')
qed

definition list_lru :: "string list lruLib" where
  "list_lru = \<lparr>lruNew = (\<lambda>n. if 0 < n then Some [] else None), lruContains = (\<lambda>c k. k \<in> set c),
     lruAdd = (\<lambda>c k. take 2 (k # c)), lruLen = (\<lambda>c. int (length c)), lruPurge = (\<lambda>c. [])\<rparr>"

lemma sane_list_lru: "sane_lru list_lru"
proof -
  have "k' = k \<or> k' \<in> set c" if "k' \<in> set (take 2 (k # c))" for c k and k' :: string
    using set_take_subset [of 2 "k # c"] that by auto
  then show ?thesis by (simp add: sane_lru_def list_lru_def)
qed

theorem dedup_exactly_once_witness:
  "check_all list_lru store_step [(0, ''a''), (1, ''a''), (1, ''b''), (0, ''a'')]
     (\<lambda>_. \<lparr>localCache = [], ddTtl = 60, keyPrefix = ''dedup:''\<rparr>) empty_store
   = [Some True, Some False, Some True, Some False]"
  by (subst dedup_exactly_once [OF reliable_store sane_list_lru])
    (auto simp: fresh_dedup_def list_lru_def marked_def empty_store_def)

section \<open>Keys\<close>

text \<open>The name a key is made from is determined for project IDs without a colon, and only for those.\<close>

lemma dedup_text_inject:
  assumes "CHR '':'' \<notin> set p" and "CHR '':'' \<notin> set p'"
    and "dedup_text p e c = dedup_text p' e' c'"
  shows "p = p' \<and> e = e' \<and> c = c'"
proof -
  have 1: "p = p'" and "show_u64 e @ '':'' @ c = show_u64 e' @ '':'' @ c'"
    using colon_split_inject [OF assms(1, 2), of "show_u64 e @ '':'' @ c"] assms(3)
    by (auto simp: dedup_text_def)
  then show ?thesis
    using colon_split_inject [OF show_u64_no_colon show_u64_no_colon, of e c e' c']
    by (auto simp: show_u64_inject)
qed

text \<open>Two submissions get one deduplication key only when project, epoch and CID agree, for project
  IDs without a colon and a hash whose first sixteen bytes do not collide on the two texts.\<close>

theorem GenerateKey_sound:
  assumes "CHR '':'' \<notin> set p" and "CHR '':'' \<notin> set p'"
    and "take 16 (Sha256 L (text_bytes (dedup_text p e c))) =
           take 16 (Sha256 L (text_bytes (dedup_text p' e' c'))) \<Longrightarrow>
         dedup_text p e c = dedup_text p' e' c'"
  shows "GenerateKey L p e c = GenerateKey L p' e' c' \<longleftrightarrow> p = p' \<and> e = e' \<and> c = c'"
proof
  assume "GenerateKey L p e c = GenerateKey L p' e' c'"
  then have "dedup_text p e c = dedup_text p' e' c'"
    using assms(3) hex_encode_inject unfolding GenerateKey_def by blast
  then show "p = p' \<and> e = e' \<and> c = c'" by (rule dedup_text_inject [OF assms(1, 2)])
qed simp

theorem GenerateKey_sound_witness:
  "GenerateKey (demo_lib\<lparr>Sha256 := (\<lambda>bs. drop 2 bs)\<rparr>) ''p'' 1 ''c'' \<noteq>
   GenerateKey (demo_lib\<lparr>Sha256 := (\<lambda>bs. drop 2 bs)\<rparr>) ''p'' 2 ''c''"
proof -
  have t: "dedup_text ''p'' 1 ''c'' = ''p:1:c''" "dedup_text ''p'' 2 ''c'' = ''p:2:c''"
    by (simp_all add: dedup_text_def show_u64_def show_nat.simps digits_def)
  have n: "(of_char CHR ''1'' :: byte) \<noteq> of_char CHR ''2''" by simp
  have "(1 :: u64) \<noteq> 2" by simp
  then show ?thesis
    using GenerateKey_sound [of "''p''" "''p''" "demo_lib\<lparr>Sha256 := (\<lambda>bs. drop 2 bs)\<rparr>" 1 "''c''" 2 "''c''"] n
    unfolding t text_bytes_def by simp
qed

end
