(* ===== verification/Dequeuer.thy ===== *)
theory Dequeuer
  imports Eip712
begin

text \<open>
  \<open>pkgs/submissions/dequeuer.go\<close>: a submission is validated, its signature verified, its slot
  checked, and then it is remembered, stored for the epoch and counted. \<open>dequeuer\<close> is the
  struct; the mutexes guard single operations and are left out. The processing rate (a float
  for display) is not kept.
\<close>

record dequeuerStats =
  TotalProcessed :: u64
  SuccessfulCount :: u64
  FailedCount :: u64
  LastProcessedAt :: int

record dequeuer =
  dqKeys :: keyBuilder
  dqSequencerID :: string
  dqVerifier :: eip712Verifier
  enableSlotValidation :: bool
  processedSubmissions :: "(string, processedSubmission) gomap"
  stats :: dequeuerStats

datatype validationError =
    HeartbeatSkipped
  | EmptySnapshotCid
  | EmptyProjectId
  | EmptyDataMarket

datatype processError =
    ValidationFailed validationError
  | SignatureFailed verifyError
  | SlotFailed slotError

definition NewDequeuer ::
  "golib \<Rightarrow> keyBuilder \<Rightarrow> string \<Rightarrow> int \<Rightarrow> string \<Rightarrow> bool \<Rightarrow> verifyError + dequeuer" where
  "NewDequeuer L kb sequencerID cid contract enableSlot =
     (case NewEIP712Verifier L cid contract of
        Inl e \<Rightarrow> Inl e
      | Inr v \<Rightarrow> Inr \<lparr>dqKeys = kb, dqSequencerID = sequencerID, dqVerifier = v,
          enableSlotValidation = enableSlot, processedSubmissions = [],
          stats = \<lparr>TotalProcessed = 0, SuccessfulCount = 0, FailedCount = 0, LastProcessedAt = 0\<rparr>\<rparr>)"

section \<open>Validation and signature\<close>

definition is_heartbeat :: "snapshotSubmission \<Rightarrow> bool" where
  "is_heartbeat sub \<longleftrightarrow> EpochId (Request sub) = 0 \<and> SnapshotCid (Request sub) = []"

definition validateSubmission :: "snapshotSubmission \<Rightarrow> validationError + unit" where
  "validateSubmission sub =
     (if is_heartbeat sub then Inl HeartbeatSkipped
      else if SnapshotCid (Request sub) = [] then Inl EmptySnapshotCid
      else if ProjectId (Request sub) = [] then Inl EmptyProjectId
      else if SubDataMarket sub = [] then Inl EmptyDataMarket
      else Inr ())"

definition eip_request :: "snapshotRequest \<Rightarrow> eip712Request" where
  "eip_request r = \<lparr>rqSlotId = SlotId r, rqDeadline = Deadline r, rqSnapshotCid = SnapshotCid r,
     rqEpochId = EpochId r, rqProjectId = ProjectId r\<rparr>"

text \<open>A failed verification is logged with the first 20 characters of the signature.\<close>

definition verifySignature ::
  "golib \<Rightarrow> dequeuer \<Rightarrow> snapshotSubmission \<Rightarrow> (verifyError + addr) prog" where
  "verifySignature L d sub =
     (if is_heartbeat sub then Ret (Inr zero_addr)
      else if Signature sub = [] then Ret (Inl EmptySignature)
      else bindp (VerifySignature L (dqVerifier d) (eip_request (Request sub)) (Signature sub)) (\<lambda>r.
        case r of
          Inl e \<Rightarrow> or_panic (slice_to 20 (Signature sub)) (\<lambda>_. Ret (Inl e))
        | Inr a \<Rightarrow> Ret (Inr a)))"

section \<open>Bookkeeping\<close>

definition updateStats :: "bool \<Rightarrow> int \<Rightarrow> dequeuer \<Rightarrow> dequeuer" where
  "updateStats success now d =
     (let st = stats d in
      d\<lparr>stats := \<lparr>TotalProcessed = TotalProcessed st + 1,
          SuccessfulCount = SuccessfulCount st + (if success then 1 else 0),
          FailedCount = FailedCount st + (if success then 0 else 1),
          LastProcessedAt = now\<rparr>\<rparr>)"

text \<open>
  The exchange sort of \<open>cleanupOldSubmissions\<close>: position \<open>i\<close> is compared with every later
  one and swapped with any that is older.
\<close>

type_synonym entry = "string \<times> int"

fun exchange :: "entry \<Rightarrow> entry list \<Rightarrow> entry \<times> entry list" where
  "exchange x [] = (x, [])"
| "exchange x (y # ys) =
     (if snd y < snd x
      then (let (m, zs) = exchange y ys in (m, x # zs))
      else (let (m, zs) = exchange x ys in (m, y # zs)))"

lemma length_exchange: "length (snd (exchange x ys)) = length ys"
  by (induction ys arbitrary: x) (auto simp: Let_def case_prod_unfold)

function sort_entries :: "entry list \<Rightarrow> entry list" where
  "sort_entries [] = []"
| "sort_entries (x # xs) = (let (m, zs) = exchange x xs in m # sort_entries zs)"
  by pat_completeness auto
termination
  by (relation "measure length") (auto, metis length_exchange lessI snd_conv)

definition cleanupOldSubmissions :: "range_order \<Rightarrow> dequeuer \<Rightarrow> dequeuer" where
  "cleanupOldSubmissions ro d =
     (if length (processedSubmissions d) \<le> 500 then d
      else
        let entries = map (\<lambda>(i, p). (i, ProcessedAt p))
              (range_map ro ''processedSubmissions'' (processedSubmissions d));
            toRemove = length entries - 500
        in d\<lparr>processedSubmissions :=
             fold (\<lambda>e m. AList.delete (fst e) m) (take toRemove (sort_entries entries))
               (processedSubmissions d)\<rparr>)"

definition remember :: "range_order \<Rightarrow> string \<Rightarrow> processedSubmission \<Rightarrow> dequeuer \<Rightarrow> dequeuer" where
  "remember ro i p d =
     (let d' = d\<lparr>processedSubmissions := AList.update i p (processedSubmissions d)\<rparr> in
      if 1000 < length (processedSubmissions d') then cleanupOldSubmissions ro d' else d')"

definition GetProcessedCount :: "dequeuer \<Rightarrow> u64 \<Rightarrow> nat" where
  "GetProcessedCount d e =
     length (filter (\<lambda>(i, p). EpochId (Request (Submission p)) = e) (processedSubmissions d))"

section \<open>Storing\<close>

text \<open>The namespace is the submission's own protocol state and market.\<close>

definition sub_keys :: "snapshotSubmission \<Rightarrow> keyBuilder" where
  "sub_keys sub = \<lparr>ProtocolState = SubProtocolState sub, DataMarket = SubDataMarket sub\<rparr>"

definition storeProcessingResult :: "golib \<Rightarrow> dequeuer \<Rightarrow> string \<Rightarrow> processedSubmission \<Rightarrow> call list" where
  "storeProcessingResult L d i p =
     (let sub = Submission p; kb = sub_keys sub;
          epochKey = ns kb (''epoch:'' @ show_u64 (EpochId (Request sub)) @ '':processed'') in
      [RSet (ns kb (''processed:'' @ dqSequencerID d @ '':'' @ i)) (Js (enc_processed (TimeText L) p)) 600,
       RSAdd epochKey i,
       RExpire epochKey 3600])"

definition submission_entity :: "snapshotSubmission \<Rightarrow> int \<Rightarrow> string \<Rightarrow> string" where
  "submission_entity sub now peerID =
     ''received:'' @ show_u64 (EpochId (Request sub)) @ '':'' @ show_u64 (SlotId (Request sub)) @
     '':'' @ ProjectId (Request sub) @ '':'' @ show_int now @ '':'' @ peerID"

definition monitoring_calls ::
  "golib \<Rightarrow> dequeuer \<Rightarrow> string \<Rightarrow> processedSubmission \<Rightarrow> string \<Rightarrow> int \<Rightarrow> int \<Rightarrow> int \<Rightarrow> call list" where
  "monitoring_calls L d i p peerID now nowHour now2 =
     (let sub = Submission p; rq = Request sub; kb = dqKeys d;
          entity = submission_entity sub now peerID;
          hour = HourOf L nowHour;
          validated = ''metrics:epoch:'' @ show_u64 (EpochId rq) @ '':validated'';
          hourly = ''metrics:hourly:'' @ hour @ '':validations'' in
      [RZAdd (MetricsSubmissionsTimeline kb) now entity,
       RSet (MetricsSubmissionsMetadata kb entity)
         (Js (JObj [(''epoch_id'', JNum (uint (EpochId rq))), (''slot_id'', JNum (uint (SlotId rq))),
            (''project_id'', JStr (ProjectId rq)), (''timestamp'', JNum now),
            (''cid'', JStr (SnapshotCid rq)), (''peer_id'', JStr peerID),
            (''entity_id'', JStr entity)])) 86400,
       RZAdd (MetricsValidationsTimeline kb) now i,
       RSet (''metrics:validation:'' @ i)
         (Js (JObj [(''submission_id'', JStr i), (''epoch_id'', JNum (uint (EpochId rq))),
            (''project_id'', JStr (ProjectId rq)), (''validator_id'', JStr (dqSequencerID d)),
            (''snapshotter'', JStr (SnapshotterAddr p)), (''timestamp'', JNum now),
            (''data_market'', JStr (SubDataMarket sub))])) 3600,
       RSAdd validated i,
       RExpire validated 7200,
       RHIncrBy hourly ''total'' 1,
       RExpire hourly 7200,
       RZAdd GlobalMetricsSubmissionsTimeline now2 (''validated:'' @ i @ '':'' @ show_int now2),
       RPublish ''state:change'' (''submission:validated:'' @ i)])"

section \<open>Processing\<close>

definition fail_with :: "processError \<Rightarrow> dequeuer \<Rightarrow> ((processError + unit) \<times> dequeuer) prog" where
  "fail_with e d = Call NowNano (\<lambda>t. Ret (Inl e, updateStats False (int_of t) d))"

text \<open>The steps after every check has passed.\<close>

definition accept_submission ::
  "golib \<Rightarrow> range_order \<Rightarrow> dequeuer \<Rightarrow> snapshotSubmission \<Rightarrow> string \<Rightarrow> (string, json) gomap \<Rightarrow> addr \<Rightarrow>
     ((processError + unit) \<times> dequeuer) prog" where
  "accept_submission L ro d sub i meta a =
     Call NowNano (\<lambda>t0.
       let p = \<lparr>ID = i, Submission = sub, SnapshotterAddr = AddrHex L a,
                DataMarketAddr = SubDataMarket sub, ProcessedAt = int_of t0,
                PsValidatorID = dqSequencerID d, MetaData = meta\<rparr>;
           d1 = remember ro i p d
       in bindp (execs (storeProcessingResult L d1 i p)) (\<lambda>_.
          Call NowNano (\<lambda>t1.
          let d2 = updateStats True (int_of t1) d1;
              peerID = (case get_str ''peer_id'' meta of None \<Rightarrow> [] | Some s \<Rightarrow> s)
          in Call Now (\<lambda>t2. Call Now (\<lambda>th. Call Now (\<lambda>t3.
             Call (RPipe (monitoring_calls L d2 i p peerID (int_of t2) (int_of th) (int_of t3))) (\<lambda>_.
             Ret (Inr (), d2))))))))"

definition ProcessSubmission ::
  "golib \<Rightarrow> range_order \<Rightarrow> dequeuer \<Rightarrow> snapshotSubmission \<Rightarrow> string \<Rightarrow> (string, json) gomap \<Rightarrow>
     ((processError + unit) \<times> dequeuer) prog" where
  "ProcessSubmission L ro d sub i meta =
     (if map_of (processedSubmissions d) i \<noteq> None then Ret (Inr (), d)
      else case validateSubmission sub of
        Inl e \<Rightarrow> fail_with (ValidationFailed e) d
      | Inr _ \<Rightarrow>
          bindp (verifySignature L d sub) (\<lambda>r.
          case r of
            Inl e \<Rightarrow> fail_with (SignatureFailed e) d
          | Inr a \<Rightarrow>
              if enableSlotValidation d \<and> a \<noteq> zero_addr
              then bindp (ValidateSnapshotterForSlot L (SlotId (Request sub)) a) (\<lambda>q.
                case q of
                  Inl e \<Rightarrow> fail_with (SlotFailed e) d
                | Inr _ \<Rightarrow> accept_submission L ro d sub i meta a)
              else accept_submission L ro d sub i meta a))"

section \<open>The sort and the clean-up\<close>

lemma exchange_mset: "mset (fst (exchange x ys) # snd (exchange x ys)) = mset (x # ys)"
proof (induction ys arbitrary: x)
  case (Cons y ys)
  show ?case using Cons [of x] Cons [of y] by (auto simp: case_prod_unfold Let_def)
qed simp

lemma exchange_least_all:
  "snd (fst (exchange x ys)) \<le> snd x \<and> (\<forall>z \<in> set ys. snd (fst (exchange x ys)) \<le> snd z)"
proof (induction ys arbitrary: x)
  case (Cons y ys)
  show ?case
  proof (cases "snd y < snd x")
    case True
    then show ?thesis using Cons [of y] by (auto simp: case_prod_unfold Let_def)
  next
    case False
    then show ?thesis using Cons [of x] by (auto simp: case_prod_unfold Let_def)
  qed
qed simp

lemma exchange_least: "z \<in> set (x # ys) \<Longrightarrow> snd (fst (exchange x ys)) \<le> snd z"
  using exchange_least_all [of x ys] by auto

lemma sort_entries_mset: "mset (sort_entries xs) = mset xs"
proof (induction xs rule: sort_entries.induct)
  case (2 x xs)
  obtain m zs where e: "exchange x xs = (m, zs)" by fastforce
  have "mset (sort_entries zs) = mset zs" using "2.IH" [OF e [symmetric] refl] by simp
  then show ?case using exchange_mset [of x xs] e by simp
qed simp

lemma set_sort_entries: "set (sort_entries xs) = set xs"
  by (metis set_mset_mset sort_entries_mset)

lemma length_sort_entries: "length (sort_entries xs) = length xs"
  by (metis size_mset sort_entries_mset)

lemma sort_entries_sorted: "sorted (map snd (sort_entries xs))"
proof (induction xs rule: sort_entries.induct)
  case (2 x xs)
  obtain m zs where e: "exchange x xs = (m, zs)" by fastforce
  have "mset (m # zs) = mset (x # xs)" using exchange_mset [of x xs] e by simp
  then have "set (m # zs) = set (x # xs)" by (metis set_mset_mset)
  then have "\<forall>z \<in> set zs. snd m \<le> snd z" using exchange_least [of _ x xs] e by auto
  moreover have "sorted (map snd (sort_entries zs))" using "2.IH" [OF e [symmetric] refl] by simp
  ultimately show ?case using e by (auto simp: set_sort_entries)
qed simp

lemma fold_delete: "fold (\<lambda>e m. AList.delete (fst e) m) es m = filter (\<lambda>(k, v). k \<notin> fst ` set es) m"
proof (induction es arbitrary: m)
  case (Cons e es)
  have "filter (\<lambda>(k, v). k \<notin> fst ` set es) (AList.delete (fst e) m) =
      filter (\<lambda>(k, v). k \<notin> fst ` set (e # es)) m"
    by (induction m) auto
  with Cons show ?case by simp
qed (simp add: case_prod_unfold)

section \<open>How a submission fares\<close>

text \<open>The one slot lookup that verification can make, and what it needs to say.\<close>

definition slot_lookup :: "dequeuer \<Rightarrow> snapshotSubmission \<Rightarrow> addr \<Rightarrow> call list" where
  "slot_lookup d sub a =
     (if enableSlotValidation d \<and> a \<noteq> zero_addr then [RGet (slot_key (SlotId (Request sub)))] else [])"

definition slot_cleared :: "golib \<Rightarrow> 's environment \<Rightarrow> 's \<Rightarrow> dequeuer \<Rightarrow> snapshotSubmission \<Rightarrow> addr \<Rightarrow> bool" where
  "slot_cleared L R s d sub a \<longleftrightarrow>
     (enableSlotValidation d \<and> a \<noteq> zero_addr \<longrightarrow>
        slot_held L (fst (R s (RGet (slot_key (SlotId (Request sub)))))) a)"

lemma outcome_fail_with:
  "outcome R (fail_with e d) s = Some (Inl e, updateStats False (int_of (fst (R s NowNano))) d)"
  by (simp add: fail_with_def run_Call)

lemma trace_fail_with: "trace R (fail_with e d) s = [NowNano]"
  by (simp add: fail_with_def trace_Call)

lemma outcome_accept:
  "\<exists>d'. outcome R (accept_submission L ro d sub i meta a) s = Some (Inr (), d')"
  by (simp add: accept_submission_def run_Call run_bindp Let_def case_prod_unfold outcome_execs)

lemma verifySignature_cases:
  assumes "\<not> is_heartbeat sub"
  shows "verifySignature L d sub = Panic \<or> (\<exists>e. verifySignature L d sub = Ret (Inl e)) \<or>
     (\<exists>a. verifySignature L d sub = Ret (Inr a) \<and>
        signed_by L (dqVerifier d) (eip_request (Request sub)) (Signature sub) a)"
proof (cases "Signature sub = []")
  case True
  then show ?thesis using assms by (simp add: verifySignature_def)
next
  case False
  let ?V = "VerifySignature L (dqVerifier d) (eip_request (Request sub)) (Signature sub)"
  have v: "verifySignature L d sub = bindp ?V (\<lambda>r. case r of
      Inl e \<Rightarrow> or_panic (slice_to 20 (Signature sub)) (\<lambda>_. Ret (Inl e)) | Inr a \<Rightarrow> Ret (Inr a))"
    using assms False by (simp add: verifySignature_def)
  have "?V = Panic \<or> (\<exists>e. ?V = Ret (Inl e)) \<or> (\<exists>a. ?V = Ret (Inr a))"
    by (auto simp: VerifySignature_def Let_def or_panic_def split: option.splits sum.splits)
      (metis sum.exhaust)
  then show ?thesis
    using VerifySignature_Ret [of L "dqVerifier d"]
    by (auto simp: v or_panic_def split: option.splits)
qed

lemma validate_not_heartbeat: "validateSubmission sub = Inr u \<Longrightarrow> \<not> is_heartbeat sub"
  by (auto simp: validateSubmission_def split: if_splits)

text \<open>
  A submission not seen before ends in one of three ways: a panic in verification, a failure
  that only counts itself, or acceptance of a signed submission whose slot is cleared.
\<close>

lemma ProcessSubmission_cases:
  assumes new: "map_of (processedSubmissions d) i = None"
  obtains (panic) "verifySignature L d sub = Panic" "validateSubmission sub = Inr ()"
      "outcome R (ProcessSubmission L ro d sub i meta) s = None"
      "trace R (ProcessSubmission L ro d sub i meta) s = []"
  | (fail) e t where
      "outcome R (ProcessSubmission L ro d sub i meta) s = Some (Inl e, updateStats False t d)"
      "set (trace R (ProcessSubmission L ro d sub i meta) s) \<subseteq>
         {NowNano, RGet (slot_key (SlotId (Request sub)))}"
  | (accept) a s' where
      "validateSubmission sub = Inr ()"
      "signed_by L (dqVerifier d) (eip_request (Request sub)) (Signature sub) a"
      "slot_cleared L R s d sub a"
      "run R (ProcessSubmission L ro d sub i meta) s = run R (accept_submission L ro d sub i meta a) s'"
      "s' = after R (slot_lookup d sub a) s"
      "trace R (ProcessSubmission L ro d sub i meta) s =
         slot_lookup d sub a @ trace R (accept_submission L ro d sub i meta a) s'"
proof (cases "validateSubmission sub")
  case (Inl e)
  then show ?thesis using new fail
    by (simp add: ProcessSubmission_def outcome_fail_with trace_fail_with)
next
  case (Inr u)
  then have v: "validateSubmission sub = Inr ()" by simp
  let ?P = "ProcessSubmission L ro d sub i meta"
  have nh: "\<not> is_heartbeat sub" using Inr by (rule validate_not_heartbeat)
  consider (panic) "verifySignature L d sub = Panic"
    | (err) e where "verifySignature L d sub = Ret (Inl e)"
    | (ok) a where "verifySignature L d sub = Ret (Inr a)"
        "signed_by L (dqVerifier d) (eip_request (Request sub)) (Signature sub) a"
    using verifySignature_cases [OF nh, of L d] by blast
  then show ?thesis
  proof cases
    case panic
    then show ?thesis using v new that(1) by (simp add: ProcessSubmission_def)
  next
    case (err e)
    then show ?thesis using v new fail
      by (simp add: ProcessSubmission_def outcome_fail_with trace_fail_with)
  next
    case (ok a)
    show ?thesis
    proof (cases "enableSlotValidation d \<and> a \<noteq> zero_addr")
      case False
      then have "?P = accept_submission L ro d sub i meta a"
        by (simp only: ProcessSubmission_def) (simp only: v new ok simp_thms if_False if_True
            sum.case bindp.simps)
      then show ?thesis using accept [OF v ok(2)] False by (auto simp: slot_cleared_def slot_lookup_def)
    next
      case True
      let ?V = "ValidateSnapshotterForSlot L (SlotId (Request sub)) a"
      obtain q where q: "outcome R ?V s = Some q"
        by (metis no_panic_outcome ValidateSnapshotterForSlot_no_panic not_None_eq)
      have P: "?P = bindp ?V (\<lambda>q. case q of Inl e \<Rightarrow> fail_with (SlotFailed e) d
          | Inr _ \<Rightarrow> accept_submission L ro d sub i meta a)"
        using v new ok True by (simp add: ProcessSubmission_def)
      show ?thesis
      proof (cases q)
        case (Inl e)
        then show ?thesis using fail q
          by (simp add: P run_bindp trace_bindp case_prod_unfold outcome_fail_with trace_fail_with
              ValidateSnapshotterForSlot_trace)
      next
        case (Inr w)
        then have "slot_held L (fst (R s (RGet (slot_key (SlotId (Request sub)))))) a"
          using q ValidateSnapshotterForSlot_ok [of R L "SlotId (Request sub)" a s] by simp
        then show ?thesis
          using accept [OF v ok(2), of "final R ?V s"] q Inr True final_after [of R ?V s]
          by (simp add: P run_bindp trace_bindp case_prod_unfold ValidateSnapshotterForSlot_trace
              slot_cleared_def slot_lookup_def)
      qed
    qed
  qed
qed

section \<open>Properties\<close>

lemma processSubmission_seen:
  "map_of (processedSubmissions d) i \<noteq> None \<Longrightarrow> ProcessSubmission L ro d sub i meta = Ret (Inr (), d)"
  by (simp add: ProcessSubmission_def)

text \<open>C1. Nothing about a submission is written to the store unless it is well formed and its signature recovers to an
  address; and where slot validation is switched on, which by default it is not, and that address is not the zero one, unless
  the cached slot is active and registered to it. Whatever the surroundings answer.\<close>
theorem processed_is_verified:
  assumes "c \<in> set (trace R (ProcessSubmission L ro d sub i meta) s)" and "is_write c"
  shows "validateSubmission sub = Inr () \<and>
     (\<exists>a. signed_by L (dqVerifier d) (eip_request (Request sub)) (Signature sub) a \<and>
        (enableSlotValidation d \<and> a \<noteq> zero_addr \<longrightarrow>
           slot_held L (fst (R s (RGet (slot_key (SlotId (Request sub)))))) a))"
proof (cases "map_of (processedSubmissions d) i")
  case (Some p)
  then show ?thesis using assms(1) by (simp add: processSubmission_seen)
next
  case None
  then show ?thesis
  proof (cases rule: ProcessSubmission_cases [where R = R and L = L and ro = ro and sub = sub
        and meta = meta and s = s])
    case panic
    then show ?thesis using assms(1) by simp
  next
    case (fail e t)
    then show ?thesis using assms by auto
  next
    case (accept a s')
    then show ?thesis unfolding slot_cleared_def by blast
  qed
qed

text \<open>A rejected submission leaves no trace but its count: nothing is written to the store,
  the remembered submissions stay, and exactly the failure and total counters move.\<close>
theorem rejected_changes_only_counters:
  assumes "outcome R (ProcessSubmission L ro d sub i meta) s = Some (Inl e, d')"
  shows "(\<forall>c \<in> set (trace R (ProcessSubmission L ro d sub i meta) s). \<not> is_write c) \<and>
     processedSubmissions d' = processedSubmissions d \<and>
     FailedCount (stats d') = FailedCount (stats d) + 1 \<and>
     TotalProcessed (stats d') = TotalProcessed (stats d) + 1 \<and>
     SuccessfulCount (stats d') = SuccessfulCount (stats d)"
proof (cases "map_of (processedSubmissions d) i")
  case (Some p)
  then show ?thesis using assms by (simp add: processSubmission_seen)
next
  case None
  then show ?thesis
  proof (cases rule: ProcessSubmission_cases [where R = R and L = L and ro = ro and sub = sub
        and meta = meta and s = s])
    case panic
    then show ?thesis using assms by simp
  next
    case (fail e' t)
    then show ?thesis using assms by (auto simp: updateStats_def Let_def)
  next
    case (accept a s')
    then show ?thesis using assms outcome_accept [of R L ro d sub i meta a s'] by auto
  qed
qed

lemma go_ok_filter: "go_ok m \<Longrightarrow> go_ok (filter P m)"
  by (simp add: go_ok_def distinct_map_filter)

text \<open>Dropping from a map the keys of the first entries of its sorted time list.\<close>

definition timed :: "('v \<Rightarrow> int) \<Rightarrow> (string, 'v) gomap \<Rightarrow> entry list \<Rightarrow> bool" where
  "timed t m es \<longleftrightarrow> go_ok m \<and> mset es = mset (map (\<lambda>(i, p). (i, t p)) m) \<and> sorted (map snd es)"

lemma timed_distinct: "timed t m es \<Longrightarrow> distinct (map fst es)"
proof -
  assume a: "timed t m es"
  have "mset (map fst es) = image_mset fst (mset es)" by (simp only: mset_map)
  also have "\<dots> = mset (map fst m)"
    using a by (simp add: timed_def case_prod_unfold image_mset.compositionality comp_def)
  finally show ?thesis using a by (metis go_ok_def mset_eq_imp_distinct_iff timed_def)
qed

lemma timed_set: "timed t m es \<Longrightarrow> set es = (\<lambda>(i, p). (i, t p)) ` set m"
  unfolding timed_def by (metis list.set_map set_mset_mset)

lemma timed_taken:
  assumes a: "timed t m es" and q: "(j, q) \<in> set m"
  shows "j \<in> fst ` set (take n es) \<longleftrightarrow> (j, t q) \<in> set (take n es)"
proof
  assume "j \<in> fst ` set (take n es)"
  then obtain u where u: "(j, u) \<in> set (take n es)" by force
  then have "(j, u) \<in> set es" by (meson in_set_takeD)
  moreover have "(j, t q) \<in> set es" using timed_set [OF a] q by force
  ultimately have "u = t q" using timed_distinct [OF a] by (metis eq_key_imp_eq_value)
  with u show "(j, t q) \<in> set (take n es)" by simp
qed force

lemma timed_older:
  assumes a: "timed t m es" and p: "(i, p) \<in> set m" and q: "(j, q) \<in> set m"
    and out: "i \<notin> fst ` set (take n es)" and "in": "j \<in> fst ` set (take n es)"
  shows "t q \<le> t p"
proof -
  have "(i, t p) \<in> set (take n es @ drop n es)" using timed_set [OF a] p by force
  then have "(i, t p) \<in> set (take n es) \<or> (i, t p) \<in> set (drop n es)"
    by (simp only: set_append Un_iff)
  then have "(i, t p) \<in> set (drop n es)" using timed_taken [OF a p] out by blast
  moreover have "(j, t q) \<in> set (take n es)" using timed_taken [OF a q] "in" by simp
  moreover have "sorted (map snd (take n es) @ map snd (drop n es))"
    using a by (metis append_take_drop_id map_append timed_def)
  ultimately show ?thesis by (force simp: sorted_append)
qed

lemma timed_count:
  assumes a: "timed t m es" and n: "n \<le> length m"
  shows "length (filter (\<lambda>(k, v). k \<notin> fst ` set (take n es)) m) = length m - n"
proof -
  let ?D = "fst ` set (take n es)"
  let ?in = "filter (\<lambda>x. fst x \<in> ?D) m"
  have len: "length es = length m" using a by (metis length_map size_mset timed_def)
  have "set (map fst ?in) = ?D"
  proof -
    have "?D \<subseteq> fst ` set m" using timed_set [OF a] by (force dest: in_set_takeD)
    then have "{k. k \<in> fst ` set m \<and> k \<in> ?D} = ?D" by blast
    moreover have "set (map fst ?in) = {k. k \<in> fst ` set m \<and> k \<in> ?D}" by force
    ultimately show ?thesis by simp
  qed
  moreover have "distinct (map fst ?in)" using a by (simp add: timed_def go_ok_def distinct_map_filter)
  ultimately have "length ?in = card ?D" by (metis distinct_card length_map)
  also have "\<dots> = length (take n es)"
    using timed_distinct [OF a] by (metis distinct_card distinct_take length_map list.set_map take_map)
  finally have "length ?in = n" using len n by simp
  then show ?thesis
    using sum_length_filter_compl [of "\<lambda>x. fst x \<in> ?D" m] by (simp add: case_prod_unfold)
qed

lemma timed_entries:
  assumes "go_ok (processedSubmissions d)"
  shows "timed ProcessedAt (processedSubmissions d)
     (sort_entries (map (\<lambda>(i, p). (i, ProcessedAt p))
        (range_map ro ''processedSubmissions'' (processedSubmissions d))))"
  using assms by (simp add: timed_def sort_entries_mset sort_entries_sorted mset_range_map)

lemma cleanup_eq:
  "500 < length (processedSubmissions d) \<Longrightarrow>
     processedSubmissions (cleanupOldSubmissions ro d) =
       filter (\<lambda>(k, v). k \<notin> fst ` set (take (length (processedSubmissions d) - 500)
           (sort_entries (map (\<lambda>(i, p). (i, ProcessedAt p))
             (range_map ro ''processedSubmissions'' (processedSubmissions d))))))
         (processedSubmissions d)"
  by (simp add: cleanupOldSubmissions_def Let_def fold_delete)

lemma cleanup_length:
  "go_ok (processedSubmissions d) \<Longrightarrow> 500 < length (processedSubmissions d) \<Longrightarrow>
     length (processedSubmissions (cleanupOldSubmissions ro d)) = 500"
  unfolding cleanup_eq by (subst timed_count [OF timed_entries]) auto

text \<open>Clean-up keeps exactly 500 submissions and drops none that is newer than one it keeps,
  in whatever order the map is visited.\<close>
theorem cleanup_keeps_newest:
  assumes "go_ok (processedSubmissions d)" and "500 < length (processedSubmissions d)"
    and "d' = cleanupOldSubmissions ro d"
  shows "length (processedSubmissions d') = 500 \<and>
     set (processedSubmissions d') \<subseteq> set (processedSubmissions d) \<and>
     (\<forall>i p j q. (i, p) \<in> set (processedSubmissions d') \<longrightarrow>
        (j, q) \<in> set (processedSubmissions d) - set (processedSubmissions d') \<longrightarrow>
        ProcessedAt q \<le> ProcessedAt p)"
proof (intro conjI allI impI)
  show "length (processedSubmissions d') = 500" using assms cleanup_length by simp
  show "set (processedSubmissions d') \<subseteq> set (processedSubmissions d)"
    unfolding assms(3) cleanup_eq [OF assms(2)] by auto
next
  fix i p j q
  assume "(i, p) \<in> set (processedSubmissions d')"
    and "(j, q) \<in> set (processedSubmissions d) - set (processedSubmissions d')"
  then show "ProcessedAt q \<le> ProcessedAt p"
    unfolding assms(3) cleanup_eq [OF assms(2)]
    by (intro timed_older [OF timed_entries [OF assms(1)], of i p j q]) auto
qed

definition dq_ok :: "dequeuer \<Rightarrow> bool" where
  "dq_ok d \<longleftrightarrow> go_ok (processedSubmissions d) \<and> length (processedSubmissions d) \<le> 1000 \<and>
     TotalProcessed (stats d) = SuccessfulCount (stats d) + FailedCount (stats d)"

lemma dq_ok_updateStats: "dq_ok d \<Longrightarrow> dq_ok (updateStats b t d)"
  by (simp add: dq_ok_def updateStats_def Let_def)

lemma cleanup_stats: "stats (cleanupOldSubmissions ro d) = stats d"
  by (simp add: cleanupOldSubmissions_def Let_def)

lemma dq_ok_remember: "dq_ok d \<Longrightarrow> dq_ok (remember ro i p d)"
proof -
  assume ok: "dq_ok d"
  let ?d = "d\<lparr>processedSubmissions := AList.update i p (processedSubmissions d)\<rparr>"
  have g: "go_ok (processedSubmissions ?d)" and st: "stats ?d = stats d"
    using ok by (simp_all add: dq_ok_def)
  show ?thesis
  proof (cases "1000 < length (processedSubmissions ?d)")
    case True
    then have "length (processedSubmissions (cleanupOldSubmissions ro ?d)) = 500"
      using g by (intro cleanup_length) auto
    moreover have "go_ok (processedSubmissions (cleanupOldSubmissions ro ?d))"
      using True g by (subst cleanup_eq) (auto intro: go_ok_filter)
    ultimately show ?thesis using ok True st by (simp add: dq_ok_def remember_def Let_def cleanup_stats)
  next
    case False
    then show ?thesis using ok g st by (simp add: dq_ok_def remember_def Let_def)
  qed
qed

lemma accept_outcome_eq:
  "outcome R (accept_submission L ro d sub i meta a) s = Some (r, d') \<Longrightarrow>
     \<exists>p t. d' = updateStats True t (remember ro i p d)"
  by (auto simp: accept_submission_def run_Call run_bindp Let_def case_prod_unfold outcome_execs
      split: option.splits)

text \<open>The dequeuer's invariant: the remembered submissions are keyed once each and never more
  than a thousand, and every submission counted is counted as a success or as a failure
  (modulo \<open>2 ^ 64\<close>). Processing keeps it, whatever the surroundings answer.\<close>

theorem ProcessSubmission_keeps_dq_ok:
  assumes "dq_ok d" and "outcome R (ProcessSubmission L ro d sub i meta) s = Some (r, d')"
  shows "dq_ok d'"
proof (cases "map_of (processedSubmissions d) i")
  case (Some p)
  then show ?thesis using assms by (simp add: processSubmission_seen)
next
  case None
  then show ?thesis
  proof (cases rule: ProcessSubmission_cases [where R = R and L = L and ro = ro and sub = sub
        and meta = meta and s = s])
    case panic
    then show ?thesis using assms by simp
  next
    case (fail e t)
    then show ?thesis using assms by (auto intro: dq_ok_updateStats)
  next
    case (accept a s')
    then have "outcome R (accept_submission L ro d sub i meta a) s' = Some (r, d')"
      using assms(2) by simp
    then show ?thesis using assms(1)
      by (auto dest!: accept_outcome_eq intro: dq_ok_updateStats dq_ok_remember)
  qed
qed

lemma accept_no_panic: "no_panic (accept_submission L ro d sub i meta a)"
  unfolding accept_submission_def Let_def by (simp, intro allI no_panic_bindp) auto

lemma verifySignature_panic_iff:
  assumes "sane_lib L" and "\<not> is_heartbeat sub"
  shows "verifySignature L d sub = Panic \<longleftrightarrow> Signature sub \<noteq> [] \<and> length (Signature sub) < 20"
proof (cases "Signature sub = []")
  case True
  then show ?thesis using assms(2) by (simp add: verifySignature_def)
next
  case False
  have "2 * length (Hex2Bytes L (Signature sub)) \<le> length (Signature sub)"
    using assms(1) by (simp add: sane_lib_def)
  then show ?thesis using False assms
    by (auto simp: verifySignature_def VerifySignature_sane slice_to_def split: sum.splits)
qed

text \<open>A well-formed, unseen submission with a non-empty signature text of fewer than 20
  characters crashes the process: the error line slices it. Every other one is answered.\<close>
theorem processing_panics_iff_short_signature:
  assumes "sane_lib L" and "map_of (processedSubmissions d) i = None"
    and "validateSubmission sub = Inr ()"
  shows "outcome R (ProcessSubmission L ro d sub i meta) s = None \<longleftrightarrow>
     Signature sub \<noteq> [] \<and> length (Signature sub) < 20"
proof -
  note iff = verifySignature_panic_iff [OF assms(1) validate_not_heartbeat [OF assms(3)], of d]
  show ?thesis
    using assms(2)
  proof (cases rule: ProcessSubmission_cases [where R = R and L = L and ro = ro
        and sub = sub and meta = meta and s = s])
    case panic
    then show ?thesis using iff by simp
  next
    case (fail e t)
    then have "verifySignature L d sub \<noteq> Panic"
      using assms by (auto simp: ProcessSubmission_def)
    then show ?thesis using fail iff by simp
  next
    case (accept a s')
    then have some: "outcome R (ProcessSubmission L ro d sub i meta) s \<noteq> None"
      using no_panic_outcome [OF accept_no_panic] by metis
    then have "verifySignature L d sub \<noteq> Panic"
      using assms by (auto simp: ProcessSubmission_def)
    then show ?thesis using some iff by auto
  qed
qed

text \<open>What acceptance stores, and the calls it makes; \<open>reading R cs s c\<close> is the clock's answer to \<open>c\<close> after the calls \<open>cs\<close>.\<close>

definition accepted_record ::
  "golib \<Rightarrow> dequeuer \<Rightarrow> snapshotSubmission \<Rightarrow> string \<Rightarrow> (string, json) gomap \<Rightarrow> addr \<Rightarrow> int \<Rightarrow> processedSubmission" where
  "accepted_record L d sub i meta a t = \<lparr>ID = i, Submission = sub, SnapshotterAddr = AddrHex L a,
     DataMarketAddr = SubDataMarket sub, ProcessedAt = t, PsValidatorID = dqSequencerID d, MetaData = meta\<rparr>"

definition sender_of :: "(string, json) gomap \<Rightarrow> string" where
  "sender_of meta = (case get_str ''peer_id'' meta of None \<Rightarrow> [] | Some x \<Rightarrow> x)"

definition reading :: "'s environment \<Rightarrow> call list \<Rightarrow> 's \<Rightarrow> call \<Rightarrow> int" where
  "reading R cs s c = int_of (fst (R (after R cs s) c))"

definition accept_calls ::
  "golib \<Rightarrow> 's environment \<Rightarrow> 's \<Rightarrow> dequeuer \<Rightarrow> snapshotSubmission \<Rightarrow> string \<Rightarrow> (string, json) gomap \<Rightarrow> addr \<Rightarrow> call list" where
  "accept_calls L R s d sub i meta a =
     (let p = accepted_record L d sub i meta a (reading R [] s NowNano);
          before = [NowNano] @ storeProcessingResult L d i p @ [NowNano] in
      before @ [Now, Now, Now, RPipe (monitoring_calls L d i p (sender_of meta) (reading R before s Now)
        (reading R (before @ [Now]) s Now) (reading R (before @ [Now, Now]) s Now))])"

lemma accept_trace: "trace R (accept_submission L ro d sub i meta a) s = accept_calls L R s d sub i meta a"
proof -
  have q: "dqSequencerID (remember ro i p d) = dqSequencerID d" "dqKeys (remember ro i p d) = dqKeys d" for p
    by (simp_all add: remember_def cleanupOldSubmissions_def Let_def)
  have st: "storeProcessingResult L (remember ro i p d) i p = storeProcessingResult L d i p" for p
    by (simp add: storeProcessingResult_def q)
  have mc: "monitoring_calls L (updateStats True t (remember ro i p d)) i p = monitoring_calls L d i p" for p t
    by (simp add: fun_eq_iff monitoring_calls_def updateStats_def Let_def q)
  have fin: "final R (execs cs) s = after R cs s" for cs s by (simp add: final_after trace_execs)
  show ?thesis
    by (simp add: accept_submission_def trace_Call trace_bindp run_bindp Let_def case_prod_unfold accept_calls_def
        outcome_execs trace_execs st mc fin reading_def accepted_record_def sender_of_def)
qed

lemma accepted_calls:
  assumes "outcome R (ProcessSubmission L ro d sub i meta) s = Some (Inr (), d')"
    and "map_of (processedSubmissions d) i = None"
  shows "\<exists>a. signed_by L (dqVerifier d) (eip_request (Request sub)) (Signature sub) a \<and>
     trace R (ProcessSubmission L ro d sub i meta) s =
       slot_lookup d sub a @ accept_calls L R (after R (slot_lookup d sub a) s) d sub i meta a"
  using assms(2)
proof (cases rule: ProcessSubmission_cases [where R = R and L = L and ro = ro
      and sub = sub and meta = meta and s = s])
  case panic
  then show ?thesis using assms by simp
next
  case (fail e t)
  then show ?thesis using assms by simp
next
  case (accept a s')
  then show ?thesis unfolding accept_trace by blast
qed

lemma store_result_keys:
  "storeProcessingResult L d i p =
     [RSet (ProcessedSubmission (sub_keys (Submission p)) (dqSequencerID d) i) (Js (enc_processed (TimeText L) p)) 600,
      RSAdd (EpochProcessed (sub_keys (Submission p)) (show_u64 (EpochId (Request (Submission p))))) i,
      RExpire (EpochProcessed (sub_keys (Submission p)) (show_u64 (EpochId (Request (Submission p))))) 3600]"
  by (simp add: storeProcessingResult_def Let_def ProcessedSubmission_def EpochProcessed_def)

lemma accepted_valid:
  assumes "outcome R (ProcessSubmission L ro d sub i meta) s = Some (Inr (), d')"
    and "map_of (processedSubmissions d) i = None"
  shows "validateSubmission sub = Inr ()"
  using assms(2)
proof (cases rule: ProcessSubmission_cases [where R = R and L = L and ro = ro
      and sub = sub and meta = meta and s = s])
  case panic
  then show ?thesis using assms by simp
next
  case (fail e t)
  then show ?thesis using assms by simp
next
  case (accept a s')
  then show ?thesis by simp
qed

text \<open>C7. An accepted new submission makes exactly these calls, in this order: the slot lookup
  if slot validation is on and the signer is not the zero address; the clock; the record under the submission's own
  namespace with a ten-minute TTL, its ID in the epoch's processed set with an hour's TTL; the clock four times and one
  monitoring pipeline. The record is fixed in every field: the submission, its ID, market and metadata, the recovered
  signer, this sequencer, and the time that was just read, as its RFC 3339 text; so are the times and the sender in the pipeline.\<close>
theorem accepted_submission_calls:
  assumes "outcome R (ProcessSubmission L ro d sub i meta) s = Some (Inr (), d')"
    and "map_of (processedSubmissions d) i = None"
  shows "\<exists>a. signed_by L (dqVerifier d) (eip_request (Request sub)) (Signature sub) a \<and>
    (let look = (if enableSlotValidation d \<and> a \<noteq> zero_addr then [RGet (slot_key (SlotId (Request sub)))] else []);
         p = \<lparr>ID = i, Submission = sub, SnapshotterAddr = AddrHex L a, DataMarketAddr = SubDataMarket sub,
           ProcessedAt = reading R look s NowNano, PsValidatorID = dqSequencerID d, MetaData = meta\<rparr>;
         sender = (case get_str ''peer_id'' meta of None \<Rightarrow> [] | Some x \<Rightarrow> x);
         before = look @
           [NowNano,
            RSet (ProcessedSubmission (sub_keys sub) (dqSequencerID d) i) (Js (enc_processed (TimeText L) p)) 600,
            RSAdd (EpochProcessed (sub_keys sub) (show_u64 (EpochId (Request sub)))) i,
            RExpire (EpochProcessed (sub_keys sub) (show_u64 (EpochId (Request sub)))) 3600,
            NowNano] in
     trace R (ProcessSubmission L ro d sub i meta) s =
       before @ [Now, Now, Now, RPipe (monitoring_calls L d i p sender (reading R before s Now)
         (reading R (before @ [Now]) s Now) (reading R (before @ [Now, Now]) s Now))])"
proof -
  obtain a where a: "signed_by L (dqVerifier d) (eip_request (Request sub)) (Signature sub) a"
    "trace R (ProcessSubmission L ro d sub i meta) s =
       slot_lookup d sub a @ accept_calls L R (after R (slot_lookup d sub a) s) d sub i meta a"
    using accepted_calls [OF assms] by blast
  show ?thesis
    by (rule exI [of _ a]) (simp add: a accept_calls_def store_result_keys Let_def reading_def accepted_record_def
        sender_of_def slot_lookup_def)
qed

section \<open>Examples\<close>

definition demo_sub :: snapshotSubmission where
  "demo_sub = \<lparr>Request = \<lparr>SlotId = 3, Deadline = 9, SnapshotCid = ''Qm'', EpochId = 7,
     ProjectId = ''p'', AggregateRequest = False\<rparr>, Signature = replicate 130 (CHR ''a''),
     Header = [], SubProtocolState = ''0xP'', SubDataMarket = ''0xM'', NodeVersion = None\<rparr>"

definition demo_dq :: dequeuer where
  "demo_dq = \<lparr>dqKeys = \<lparr>ProtocolState = ''0xP'', DataMarket = ''0xM''\<rparr>, dqSequencerID = ''v1'',
     dqVerifier = \<lparr>chainID = 1, verifyingContract = demo_addr\<rparr>, enableSlotValidation = False,
     processedSubmissions = [],
     stats = \<lparr>TotalProcessed = 0, SuccessfulCount = 0, FailedCount = 0, LastProcessedAt = 0\<rparr>\<rparr>"

lemma demo_valid: "validateSubmission demo_sub = Inr ()"
  by (simp add: validateSubmission_def demo_sub_def is_heartbeat_def)

lemma demo_verify: "verifySignature demo_lib demo_dq demo_sub = Ret (Inr demo_addr)"
  by (simp add: verifySignature_def is_heartbeat_def VerifySignature_def demo_sub_def demo_dq_def
      demo_lib_def Let_def slice_to_def HashRequest_def RecoverAddress_def nth_append numeral_eq_Suc)

lemma demo_process: "ProcessSubmission demo_lib ro demo_dq demo_sub i meta =
    accept_submission demo_lib ro demo_dq demo_sub i meta demo_addr"
  using demo_verify by (simp add: ProcessSubmission_def demo_valid) (simp add: demo_dq_def)

lemma demo_outcome: "\<exists>d'. outcome store_step (ProcessSubmission demo_lib ro demo_dq demo_sub i meta) s
    = Some (Inr (), d')"
  unfolding demo_process by (rule outcome_accept)

text \<open>A dequeuer that validates slots, and a store in which slot 3 is the demo signer's.\<close>

definition demo_strict :: dequeuer where
  "demo_strict = demo_dq\<lparr>enableSlotValidation := True\<rparr>"

definition demo_slot_store :: store where
  "demo_slot_store = empty_store\<lparr>strs :=
     [(''SlotInfo.3'', Js (JObj [(''SnapshotterAddress'', JStr ''0x01''), (''Active'', JBool True)]))]\<rparr>"

lemma demo_slot_key: "slot_key (SlotId (Request demo_sub)) = ''SlotInfo.3''"
  by (simp add: slot_key_def demo_sub_def show_u64_def show_nat.simps digits_def)

lemma demo_slot: "slot_held demo_lib (fst (store_step demo_slot_store (RGet ''SlotInfo.3''))) demo_addr"
  by (simp add: slot_held_def demo_slot_store_def dec_field_def demo_lib_def lower_def lower_char_def)

lemma demo_strict_writes:
  "RSAdd (EpochProcessed (sub_keys demo_sub) ''7'') ''i'' \<in>
     set (trace store_step (ProcessSubmission demo_lib in_order demo_strict demo_sub ''i'' []) demo_slot_store)"
proof -
  let ?V = "ValidateSnapshotterForSlot demo_lib (SlotId (Request demo_sub)) demo_addr"
  have v: "verifySignature demo_lib demo_strict demo_sub = Ret (Inr demo_addr)"
  proof -
    have "dqVerifier demo_strict = dqVerifier demo_dq" by (simp add: demo_strict_def)
    then show ?thesis using demo_verify by (simp only: verifySignature_def)
  qed
  have z: "demo_addr \<noteq> zero_addr" by (simp add: demo_addr_def zero_addr_def)
  have q: "outcome store_step ?V demo_slot_store = Some (Inr ())"
    using demo_slot unfolding ValidateSnapshotterForSlot_ok demo_slot_key .
  have e: "show_u64 (EpochId (Request demo_sub)) = ''7''" by (simp add: demo_sub_def show_u64_def show_nat.simps digits_def)
  have "ProcessSubmission demo_lib in_order demo_strict demo_sub ''i'' [] = bindp ?V (\<lambda>q. case q of
      Inl e \<Rightarrow> fail_with (SlotFailed e) demo_strict | Inr _ \<Rightarrow> accept_submission demo_lib in_order demo_strict demo_sub ''i'' [] demo_addr)"
    using v z by (simp add: ProcessSubmission_def demo_valid) (simp add: demo_strict_def demo_dq_def)
  then show ?thesis using q
    by (simp add: trace_bindp case_prod_unfold accept_trace accept_calls_def Let_def store_result_keys accepted_record_def e)
qed

theorem processed_is_verified_witness:
  "\<exists>a. signed_by demo_lib (dqVerifier demo_strict) (eip_request (Request demo_sub)) (Signature demo_sub) a \<and>
     a \<noteq> zero_addr \<and> slot_held demo_lib (fst (store_step demo_slot_store (RGet ''SlotInfo.3''))) a"
proof -
  have "is_write (RSAdd (EpochProcessed (sub_keys demo_sub) ''7'') ''i'')" by simp
  from processed_is_verified [OF demo_strict_writes this]
  obtain a where a: "signed_by demo_lib (dqVerifier demo_strict) (eip_request (Request demo_sub)) (Signature demo_sub) a"
    "enableSlotValidation demo_strict \<and> a \<noteq> zero_addr \<longrightarrow> slot_held demo_lib (fst (store_step demo_slot_store (RGet ''SlotInfo.3''))) a"
    unfolding demo_slot_key by blast
  moreover have "a \<noteq> zero_addr" using a(1) by (auto simp: signed_by_def demo_lib_def demo_addr_def zero_addr_def)
  ultimately show ?thesis by (auto simp: demo_strict_def)
qed

theorem rejected_changes_only_counters_witness:
  "outcome store_step (ProcessSubmission demo_lib in_order demo_dq zero_submission ''i'' []) empty_store =
     Some (Inl (ValidationFailed HeartbeatSkipped), updateStats False 0 demo_dq) \<and>
   FailedCount (stats (updateStats False 0 demo_dq)) = 1"
proof -
  have o: "outcome store_step (ProcessSubmission demo_lib in_order demo_dq zero_submission ''i'' []) empty_store =
     Some (Inl (ValidationFailed HeartbeatSkipped), updateStats False 0 demo_dq)"
    by (simp add: ProcessSubmission_def demo_dq_def validateSubmission_def is_heartbeat_def
        zero_submission_def zero_request_def outcome_fail_with empty_store_def)
  show ?thesis
    using o rejected_changes_only_counters [OF o] by (simp add: demo_dq_def)
qed

theorem cleanup_keeps_newest_witness:
  "length (processedSubmissions (cleanupOldSubmissions in_order (demo_dq\<lparr>processedSubmissions :=
      map (\<lambda>n. (show_nat n, \<lparr>ID = show_nat n, Submission = demo_sub, SnapshotterAddr = [],
        DataMarketAddr = [], ProcessedAt = int n, PsValidatorID = [], MetaData = []\<rparr>)) [0..<600]\<rparr>))) = 500"
proof -
  let ?d = "demo_dq\<lparr>processedSubmissions :=
      map (\<lambda>n. (show_nat n, \<lparr>ID = show_nat n, Submission = demo_sub, SnapshotterAddr = [],
        DataMarketAddr = [], ProcessedAt = int n, PsValidatorID = [], MetaData = []\<rparr>)) [0..<600]\<rparr>"
  have "go_ok (processedSubmissions ?d)"
    by (simp add: go_ok_def comp_def distinct_map inj_on_def show_nat_inject)
  moreover have "500 < length (processedSubmissions ?d)" by simp
  ultimately show ?thesis using cleanup_keeps_newest [of ?d _ in_order] by blast
qed

theorem ProcessSubmission_keeps_dq_ok_witness:
  "dq_ok demo_dq \<and> (\<exists>d'. outcome store_step
      (ProcessSubmission demo_lib in_order demo_dq demo_sub ''i'' []) empty_store = Some (Inr (), d') \<and> dq_ok d')"
proof -
  have ok: "dq_ok demo_dq" by (simp add: dq_ok_def demo_dq_def)
  obtain d' where "outcome store_step (ProcessSubmission demo_lib in_order demo_dq demo_sub ''i'' [])
      empty_store = Some (Inr (), d')" using demo_outcome by blast
  with ok ProcessSubmission_keeps_dq_ok [OF ok this] show ?thesis by blast
qed

theorem processing_panics_iff_short_signature_witness:
  "outcome store_step (ProcessSubmission demo_lib in_order demo_dq (demo_sub\<lparr>Signature := ''0xdead''\<rparr>)
     ''i'' []) empty_store = None"
proof -
  have v: "validateSubmission (demo_sub\<lparr>Signature := ''0xdead''\<rparr>) = Inr ()"
    by (simp add: validateSubmission_def demo_sub_def is_heartbeat_def)
  have n: "map_of (processedSubmissions demo_dq) ''i'' = None" by (simp add: demo_dq_def)
  show ?thesis
    using processing_panics_iff_short_signature [OF sane_demo_lib n v, of store_step in_order "[]" empty_store]
    by simp
qed

theorem accepted_submission_calls_witness:
  "trace store_step (ProcessSubmission demo_lib in_order demo_dq demo_sub ''i'' []) empty_store =
    [NowNano,
     RSet (ProcessedSubmission (sub_keys demo_sub) ''v1'' ''i'') (Js (enc_processed (TimeText demo_lib) \<lparr>ID = ''i'', Submission = demo_sub,
       SnapshotterAddr = ''0x01'', DataMarketAddr = ''0xM'', ProcessedAt = 0, PsValidatorID = ''v1'', MetaData = []\<rparr>)) 600,
     RSAdd (EpochProcessed (sub_keys demo_sub) ''7'') ''i'', RExpire (EpochProcessed (sub_keys demo_sub) ''7'') 3600,
     NowNano, Now, Now, Now,
     RPipe (monitoring_calls demo_lib demo_dq ''i'' \<lparr>ID = ''i'', Submission = demo_sub, SnapshotterAddr = ''0x01'',
       DataMarketAddr = ''0xM'', ProcessedAt = 0, PsValidatorID = ''v1'', MetaData = []\<rparr> [] 0 0 0)]"
proof -
  obtain d' where o: "outcome store_step (ProcessSubmission demo_lib in_order demo_dq demo_sub ''i'' [])
      empty_store = Some (Inr (), d')" using demo_outcome by blast
  have n: "map_of (processedSubmissions demo_dq) ''i'' = None" by (simp add: demo_dq_def)
  have f: "show_u64 (EpochId (Request demo_sub)) = ''7''" "AddrHex demo_lib x = ''0x01''" "SubDataMarket demo_sub = ''0xM''"
    "dqSequencerID demo_dq = ''v1''" "enableSlotValidation demo_dq = False" for x
    by (simp_all add: demo_sub_def demo_lib_def demo_dq_def show_u64_def show_nat.simps digits_def)
  show ?thesis
    using accepted_submission_calls [OF o n] unfolding f by (simp add: Let_def reading_def empty_store_def get_str_def)
qed

end
