(* ===== verification/Intake.thy ===== *)
theory Intake
  imports Dedup Dequeuer
begin

text \<open>
  \<open>cmd/unified/main.go\<close>, the path of a gossip message into the dequeuer: \<open>queueSubmissionFromP2P\<close>
  parses, deduplicates, enriches and queues it, and one round of \<open>runDequeuerWorker\<close> pops it,
  decodes it and hands its submissions to \<open>ProcessSubmission\<close>. Log lines that slice a string
  are kept, since they can panic.
\<close>

record 'c sequencer =
  seqKeys :: keyBuilder
  seqDedup :: "'c deduplicator option"
  seqDequeuer :: "dequeuer option"
  seqRedis :: bool
  cfgProtocolState :: string
  cfgDataMarkets :: "string list"

section \<open>Queueing\<close>

fun is_epoch_zero :: "json \<Rightarrow> bool" where
  "is_epoch_zero (JNum n) = (f64 n = 0)"
| "is_epoch_zero (JStr v) = (v = ''0'')"
| "is_epoch_zero _ = False"

definition is_heartbeat_msg :: "(string, json) gomap \<Rightarrow> bool" where
  "is_heartbeat_msg info \<longleftrightarrow>
     (\<exists>e. map_of info ''epoch_id'' = Some e \<and> is_epoch_zero e) \<and> map_of info ''submissions'' = Some JNull"

definition dedup_epoch :: "golib \<Rightarrow> (string, json) gomap \<Rightarrow> u64" where
  "dedup_epoch L info =
     (case map_of info ''epoch_id'' of
        Some (JNum n) \<Rightarrow> u64_of_float L (f64 n)
      | Some (JStr v) \<Rightarrow> (case parse_uint v of None \<Rightarrow> 0 | Some e \<Rightarrow> e)
      | _ \<Rightarrow> 0)"

text \<open>\<open>True\<close> when the message is a duplicate and is dropped.\<close>

definition drop_duplicate ::
  "golib \<Rightarrow> 'c lruLib \<Rightarrow> 'c sequencer \<Rightarrow> (string, json) gomap \<Rightarrow> (bool \<times> 'c sequencer) prog" where
  "drop_duplicate L U s info =
     (case (seqDedup s, get_obj ''request'' info) of
        (Some d, Some request) \<Rightarrow>
          (let projectID = show_get ''project_id'' request;
               snapshotCID = show_get ''snapshot_cid'' request in
           if projectID \<noteq> [] \<and> snapshotCID \<noteq> [] then
             (let key = GenerateKey L projectID (dedup_epoch L info) snapshotCID in
              bindp (CheckAndMark U d key) (\<lambda>(isNew, d').
                let s' = s\<lparr>seqDedup := Some d'\<rparr> in
                if isNew = Some False then or_panic (slice_to 16 key) (\<lambda>_. Ret (True, s'))
                else Ret (False, s')))
           else Ret (False, s))
      | _ \<Rightarrow> Ret (False, s))"

definition enrich :: "'c sequencer \<Rightarrow> (string, json) gomap \<Rightarrow> (string, json) gomap" where
  "enrich s info =
     info @
     (if map_of info ''protocol_state'' = None
      then [(''protocol_state'', JStr (cfgProtocolState s))] else []) @
     (if map_of info ''data_market'' = None \<and> cfgDataMarkets s \<noteq> []
      then [(''data_market'', JStr (hd (cfgDataMarkets s)))] else [])"

definition or_unknown :: "string \<Rightarrow> (string, json) gomap option \<Rightarrow> string" where
  "or_unknown k info =
     (case Option.bind info (\<lambda>m. map_of m k) of None \<Rightarrow> ''unknown'' | Some j \<Rightarrow> show_val j)"

definition queue_metrics ::
  "golib \<Rightarrow> 'c sequencer \<Rightarrow> string \<Rightarrow> string \<Rightarrow> string \<Rightarrow> string \<Rightarrow> string \<Rightarrow> int \<Rightarrow> int \<Rightarrow> int \<Rightarrow> call list" where
  "queue_metrics L s submissionID epochID projectID peer16 market now nowHour now2 =
     (let hourly = ''metrics:hourly:'' @ HourOf L nowHour @ '':submissions'' in
      [RZAdd (MetricsSubmissionsTimeline (seqKeys s)) now submissionID,
       RSet (''metrics:submission:'' @ submissionID)
         (Js (JObj [(''epoch_id'', JStr epochID), (''project_id'', JStr projectID),
            (''peer_id'', JStr peer16), (''timestamp'', JNum now), (''data_market'', JStr market)])) 3600,
       RHIncrBy hourly ''total'' 1,
       RExpire hourly 7200,
       RZAdd (MetricsSubmissionsTimeline (seqKeys s)) now2 (''received:'' @ submissionID @ '':'' @ show_int now2),
       RPublish ''state:change'' (''submission:received:'' @ submissionID)])"

definition enqueue ::
  "golib \<Rightarrow> 'c sequencer \<Rightarrow> blob \<Rightarrow> (string, json) gomap option \<Rightarrow> string \<Rightarrow> unit prog" where
  "enqueue L s data info peerID =
     Call (RLPush (SubmissionQueue (seqKeys s)) data) (\<lambda>r.
       if r = ErrR then Ret ()
       else
         let epochID = or_unknown ''epochId'' info; projectID = or_unknown ''projectId'' info in
         or_panic (slice_to 16 peerID) (\<lambda>peer16.
         bindp
           (if epochID \<noteq> ''0'' \<or> projectID \<noteq> [] then
              Call NowNano (\<lambda>tn. Call Now (\<lambda>t. Call Now (\<lambda>th.
                if cfgDataMarkets s = [] then Panic
                else Call Now (\<lambda>t2.
                  let i = epochID @ ''-'' @ projectID @ ''-'' @ show_int (int_of tn) in
                  exec (RPipe (queue_metrics L s i epochID projectID peer16 (hd (cfgDataMarkets s))
                    (int_of t) (int_of th) (int_of t2)))))))
            else Ret ())
           (\<lambda>_. exec (RLLen (SubmissionQueue (seqKeys s))))))"

definition queueSubmissionFromP2P ::
  "golib \<Rightarrow> 'c lruLib \<Rightarrow> 'c sequencer \<Rightarrow> blob \<Rightarrow> string \<Rightarrow> 'c sequencer prog" where
  "queueSubmissionFromP2P L U s data peerID =
     (case unmarshal_map data of
        None \<Rightarrow> or_panic (slice_to 16 peerID) (\<lambda>_.
          if seqRedis s then bindp (enqueue L s data None peerID) (\<lambda>_. Ret s) else Ret s)
      | Some None \<Rightarrow> if seqRedis s then bindp (enqueue L s data None peerID) (\<lambda>_. Ret s) else Ret s
      | Some (Some info) \<Rightarrow>
          if map_of info ''epoch_id'' \<noteq> None \<and> slice_to 16 peerID = None then Panic
          else if is_heartbeat_msg info then Ret s
          else bindp (drop_duplicate L U s info) (\<lambda>(dup, s').
            if dup \<or> \<not> seqRedis s' then Ret s'
            else let info' = enrich s' info in
              bindp (enqueue L s' (Js (refloat (JObj info'))) (Some info') peerID) (\<lambda>_. Ret s')))"

section \<open>Dequeuing\<close>

definition unwrap :: "blob \<Rightarrow> string \<times> blob" where
  "unwrap raw =
     (case unmarshal raw of
        Some (JObj w) \<Rightarrow>
          if map_of w ''peer_id'' \<notin> {None, Some JNull} \<and> map_of w ''data'' \<notin> {None, Some JNull} then
            (case get_str ''peer_id'' w of None \<Rightarrow> [] | Some p \<Rightarrow> p,
             case get_str ''data'' w of None \<Rightarrow> raw | Some t \<Rightarrow> blob_of_text t)
          else ([], raw)
      | _ \<Rightarrow> ([], raw))"

definition submission_id :: "snapshotSubmission \<Rightarrow> string" where
  "submission_id sub =
     show_u64 (EpochId (Request sub)) @ ''-'' @ ProjectId (Request sub) @ ''-'' @
     show_u64 (SlotId (Request sub)) @ ''-'' @ SnapshotCid (Request sub)"

definition process_popped ::
  "golib \<Rightarrow> range_order \<Rightarrow> string \<Rightarrow> snapshotSubmission \<Rightarrow> dequeuer option \<Rightarrow> dequeuer option prog" where
  "process_popped L ro peerID sub od =
     (case od of
        None \<Rightarrow> Ret None
      | Some d \<Rightarrow>
          bindp (ProcessSubmission L ro d sub (submission_id sub) [(''peer_id'', JStr peerID)])
            (\<lambda>(_, d'). Ret (Some d')))"

text \<open>A nil element of the batch is dereferenced.\<close>

definition process_element ::
  "golib \<Rightarrow> range_order \<Rightarrow> string \<Rightarrow> snapshotSubmission option \<Rightarrow> dequeuer option \<Rightarrow> dequeuer option prog" where
  "process_element L ro peerID e od = or_panic e (\<lambda>sub. process_popped L ro peerID sub od)"

definition process_payload ::
  "golib \<Rightarrow> range_order \<Rightarrow> string \<Rightarrow> blob \<Rightarrow> dequeuer option \<Rightarrow> dequeuer option prog" where
  "process_payload L ro peerID data od =
     (case unmarshal data of
        None \<Rightarrow> Ret od
      | Some j \<Rightarrow>
          (case (decode_p2p j, dec_submission zero_submission j) of
             ((p, okp), (sub, ok)) \<Rightarrow>
               (case (okp, P2PSubmissions p) of
                  (True, Some subs) \<Rightarrow> for_each (process_element L ro peerID) subs od
                | _ \<Rightarrow> if ok then process_popped L ro peerID sub od else Ret od)))"

text \<open>One round of the worker's loop.\<close>

definition dequeue_round :: "golib \<Rightarrow> range_order \<Rightarrow> 'c sequencer \<Rightarrow> 'c sequencer prog" where
  "dequeue_round L ro s =
     Call (RBRPop (SubmissionQueue (seqKeys s))) (\<lambda>r.
       case r of
         BlobR raw \<Rightarrow>
           bindp (process_payload L ro (fst (unwrap raw)) (snd (unwrap raw)) (seqDequeuer s))
             (\<lambda>od. Ret (s\<lparr>seqDequeuer := od\<rparr>))
       | _ \<Rightarrow> Ret s)"

section \<open>What enrichment reaches\<close>

lemma lower_enriched [json_simps]:
  "lower ''protocol_state'' = ''protocol_state''" "lower ''data_market'' = ''data_market''"
  by (simp_all add: lower_def lower_char_def)

text \<open>The keys that enrichment adds name no field of either message type.\<close>

lemma field_enrich:
  assumes "lower n \<noteq> ''protocol_state''" and "lower n \<noteq> ''data_market''"
  shows "field n (enrich s info) = field n info"
proof -
  have "lower ''protocol_state'' \<noteq> lower n" "lower ''data_market'' \<noteq> lower n"
    using assms unfolding lower_enriched by metis+
  then show ?thesis by (simp add: enrich_def field_append split: option.split)
qed

lemma decode_p2p_enrich: "decode_p2p (JObj (enrich s info)) = decode_p2p (JObj info)"
  by (simp add: dec_field_def field_enrich lower_names)

text \<open>Enrichment is lost: the dequeuer decodes an enriched submission exactly as it decodes the
  original, since it reads \<open>protocolState\<close> and \<open>dataMarket\<close> where \<open>queueSubmissionFromP2P\<close> writes
  \<open>protocol_state\<close> and \<open>data_market\<close>. No configured default ever reaches a submission.\<close>

theorem enrichment_never_decoded:
  "dec_submission cur (JObj (enrich s info)) = dec_submission cur (JObj info) \<and>
   decode_p2p (JObj (enrich s info)) = decode_p2p (JObj info)"
  by (simp add: dec_field_def field_enrich lower_names)

section \<open>From the queue to the dequeuer\<close>

fun small_json :: "json \<Rightarrow> bool" where
  "small_json (JNum n) \<longleftrightarrow> \<bar>n\<bar> \<le> 2 ^ 53"
| "small_json (JArr js) \<longleftrightarrow> (\<forall>j \<in> set js. small_json j)"
| "small_json (JObj kvs) \<longleftrightarrow> (\<forall>(k, j) \<in> set kvs. small_json j)"
| "small_json j \<longleftrightarrow> True"

lemma refloat_small: "small_json j \<Longrightarrow> refloat j = j"
proof (induction j rule: refloat.induct)
  case (1 n)
  then show ?case by (simp add: f64_exact)
next
  case (2 js)
  then show ?case by (auto intro!: map_idI)
next
  case (3 kvs)
  then show ?case by (fastforce intro!: map_idI)
qed auto

text \<open>The message a collector sends.\<close>

definition enc_p2p :: "u64 \<Rightarrow> snapshotSubmission list \<Rightarrow> string \<Rightarrow> byte list \<Rightarrow> (string, json) gomap" where
  "enc_p2p e subs i sig =
     [(''epoch_id'', JNum (uint e)), (''submissions'', JArr (map enc_submission subs)),
      (''snapshotter_id'', JStr i), (''signature'', enc_bytes sig)]"

lemma dec_submissions_enc:
  "dec_submissions cur (JArr (map enc_submission subs)) = (Some (map Some subs), True)"
proof -
  have "dec_submission_ptr None (enc_submission s) = (Some s, True)" for s
    using dec_enc_submission [of s] by (simp add: enc_submission_def)
  then show ?thesis by (simp add: list_all_iff)
qed

lemma decode_enc_p2p:
  "decode_p2p (JObj (enc_p2p e subs i sig)) =
     (\<lparr>P2PEpochID = e, P2PSubmissions = Some (map Some subs), SnapshotterID = i, P2PSignature = sig\<rparr>, True)"
  by (simp add: enc_p2p_def dec_field_def lower_names dec_submissions_enc dec_u64_exact dec_enc_bytes
      del: dec_submissions.simps dec_u64.simps)

lemma small_enrich: "small_json (JObj info) \<Longrightarrow> small_json (JObj (enrich s info))"
  by (auto simp: enrich_def)

lemma lists_pipe_metrics:
  "lists (snd (store_step st (RPipe (queue_metrics L s i e p q m t th t2)))) = lists st"
  by (simp add: queue_metrics_def Let_def)

text \<open>Queueing on a reliable store appends exactly one entry to the queue.\<close>

lemma enqueue_run:
  assumes "16 \<le> length peerID" and "cfgDataMarkets s \<noteq> []"
  shows "outcome store_step (enqueue L s data info peerID) st = Some ()"
    "lists (final store_step (enqueue L s data info peerID) st) =
       (lists st)(SubmissionQueue (seqKeys s) := data # lists st (SubmissionQueue (seqKeys s)))"
  using assms
  by (auto simp: enqueue_def prog_simps slice_to_def Let_def lists_pipe_metrics)

text \<open>C32. A batch that a collector sends is handed to the dequeuer unchanged: queued on a reliable store
  and popped, it is processed submission by submission, in the sender's order, each under the ID
  made of its epoch, project, slot and CID. (For numbers of at most 53 bits: larger ones are rounded on
  the way through the queue.)\<close>

theorem queued_batch_is_processed:
  assumes "reliable R v" and "lists (v st) (SubmissionQueue (seqKeys s)) = []"
    and "seqRedis s" and "cfgDataMarkets s \<noteq> []" and "16 \<le> length peerID"
    and "small_json (JObj (enc_p2p e subs i sig))"
  shows "\<exists>st'. outcome R (queueSubmissionFromP2P L U s (Js (JObj (enc_p2p e subs i sig))) peerID) st = Some s \<and>
     v st' = v (final R (queueSubmissionFromP2P L U s (Js (JObj (enc_p2p e subs i sig))) peerID) st)
               \<lparr>lists := lists (v st)\<rparr> \<and>
     run R (dequeue_round L ro s)
       (final R (queueSubmissionFromP2P L U s (Js (JObj (enc_p2p e subs i sig))) peerID) st) =
     run R (bindp (for_each (process_element L ro []) (map Some subs) (seqDequeuer s))
       (\<lambda>od. Ret (s\<lparr>seqDequeuer := od\<rparr>))) st'"
proof -
  let ?info = "enc_p2p e subs i sig" and ?q = "SubmissionQueue (seqKeys s)"
  let ?Q = "queueSubmissionFromP2P L U s (Js (JObj ?info)) peerID"
  let ?data = "Js (JObj (enrich s ?info))"
  have hb: "\<not> is_heartbeat_msg ?info" by (simp add: is_heartbeat_msg_def enc_p2p_def)
  have dd: "drop_duplicate L U s ?info = Ret (False, s)"
    by (simp add: drop_duplicate_def enc_p2p_def get_obj_def split: option.split)
  have rf: "refloat (JObj (enrich s ?info)) = JObj (enrich s ?info)"
    by (rule refloat_small [OF small_enrich [OF assms(6)]])
  have Q: "?Q = bindp (enqueue L s ?data (Some (enrich s ?info)) peerID) (\<lambda>_. Ret s)"
    using assms(3,5) by (simp add: queueSubmissionFromP2P_def hb dd slice_to_def Let_def rf del: refloat.simps)
  define st1 where "st1 = final R ?Q st"
  define st' where "st' = snd (R st1 (RBRPop ?q))"
  have E: "outcome store_step (enqueue L s ?data (Some (enrich s ?info)) peerID) (v st) = Some ()"
    "lists (final store_step (enqueue L s ?data (Some (enrich s ?info)) peerID) (v st)) ?q = [?data]"
    "lists (final store_step (enqueue L s ?data (Some (enrich s ?info)) peerID) (v st)) =
      (lists (v st))(?q := [?data])"
    using enqueue_run [OF assms(5,4), of L ?data "Some (enrich s ?info)" "v st"] assms(2) by simp_all
  have o: "outcome R ?Q st = Some s" and l: "lists (v st1) = (lists (v st))(?q := [?data])"
    using E unfolding st1_def reliable_run [OF assms(1)] Q by (simp_all add: prog_simps case_prod_unfold split: prod.splits option.splits)
  have pop: "fst (R st1 (RBRPop ?q)) = BlobR ?data" "v st' = (v st1)\<lparr>lists := lists (v st)\<rparr>"
    using assms(1,2) l unfolding reliable_def st'_def by (auto simp: fun_upd_idem)
  have "run R (dequeue_round L ro s) st1 =
     run R (bindp (process_payload L ro (fst (unwrap ?data)) (snd (unwrap ?data)) (seqDequeuer s))
             (\<lambda>od. Ret (s\<lparr>seqDequeuer := od\<rparr>))) st'"
    by (simp add: dequeue_round_def run_Call pop(1) st'_def)
  also have "unwrap ?data = ([], ?data)"
    by (simp add: unwrap_def enrich_def enc_p2p_def)
  finally have "run R (dequeue_round L ro s) st1 =
     run R (bindp (for_each (process_element L ro []) (map Some subs) (seqDequeuer s))
       (\<lambda>od. Ret (s\<lparr>seqDequeuer := od\<rparr>))) st'"
    by (simp add: process_payload_def decode_p2p_enrich decode_enc_p2p case_prod_unfold
        del: decode_p2p.simps dec_submission.simps)
  with o pop(2) show ?thesis unfolding st1_def by blast
qed

definition demo_seq :: "string list sequencer" where
  "demo_seq = \<lparr>seqKeys = \<lparr>ProtocolState = ''0xP'', DataMarket = ''0xM''\<rparr>,
     seqDedup = Some \<lparr>localCache = [], ddTtl = 60, keyPrefix = ''dedup:''\<rparr>,
     seqDequeuer = Some demo_dq, seqRedis = True, cfgProtocolState = ''0xP'', cfgDataMarkets = [''0xM'']\<rparr>"

definition demo_peer :: string where
  "demo_peer = replicate 52 (CHR ''Q'')"

lemma demo_small: "small_json (JObj (enc_p2p 7 [demo_sub] ''s'' []))"
  by (simp add: enc_p2p_def enc_submission_def enc_request_def demo_sub_def omit_def enc_bytes_def)

theorem queued_batch_is_processed_witness:
  "outcome store_step (queueSubmissionFromP2P demo_lib list_lru demo_seq
     (Js (JObj (enc_p2p 7 [demo_sub] ''s'' []))) demo_peer) empty_store = Some demo_seq"
proof -
  have "lists empty_store (SubmissionQueue (seqKeys demo_seq)) = []" "seqRedis demo_seq"
    "cfgDataMarkets demo_seq \<noteq> []" "16 \<le> length demo_peer"
    by (simp_all add: empty_store_def demo_seq_def demo_peer_def)
  from queued_batch_is_processed [OF reliable_store this demo_small, of demo_lib list_lru in_order]
  show ?thesis by blast
qed

section \<open>Messages that crash or disappear\<close>

lemma for_each_nil_panics:
  "None \<in> set es \<Longrightarrow> outcome R (for_each (process_element L ro peerID) es od) s = None"
proof (induction es arbitrary: od s)
  case (Cons e es)
  then show ?case
    by (cases e) (auto simp: process_element_def run_bindp split: option.splits prod.splits)
qed simp

text \<open>A batch with a null among its submissions crashes the worker that pops it, and with it the
  process: the nil pointer is dereferenced before \<open>ProcessSubmission\<close> is called.\<close>

theorem null_submission_crashes_worker:
  assumes "fst (R s (RBRPop (SubmissionQueue (seqKeys sq)))) = BlobR raw"
    and "unmarshal (snd (unwrap raw)) = Some (JObj kvs)"
    and "decode_p2p (JObj kvs) = (p, True)" and "P2PSubmissions p = Some es" and "None \<in> set es"
  shows "outcome R (dequeue_round L ro sq) s = None"
proof -
  define s' where "s' = snd (R s (RBRPop (SubmissionQueue (seqKeys sq))))"
  have "outcome R (for_each (process_element L ro (fst (unwrap raw))) es (seqDequeuer sq)) s' = None"
    by (rule for_each_nil_panics [OF assms(5)])
  then obtain t where "run R (for_each (process_element L ro (fst (unwrap raw))) es (seqDequeuer sq)) s' = (None, t)"
    by (metis prod.collapse)
  then show ?thesis using assms(1-4)
    by (simp add: dequeue_round_def run_Call process_payload_def run_bindp case_prod_unfold flip: s'_def
        del: decode_p2p.simps dec_submission.simps)
qed

theorem null_submission_crashes_worker_witness:
  "outcome store_step (dequeue_round demo_lib in_order demo_seq)
     (empty_store\<lparr>lists := (\<lambda>_. [Js (JObj [(''submissions'', JArr [JNull])])])\<rparr>) = None"
proof (rule null_submission_crashes_worker [where es = "[None]"])
  show "fst (store_step (empty_store\<lparr>lists := (\<lambda>_. [Js (JObj [(''submissions'', JArr [JNull])])])\<rparr>)
      (RBRPop (SubmissionQueue (seqKeys demo_seq)))) = BlobR (Js (JObj [(''submissions'', JArr [JNull])]))"
    by simp
  show "unmarshal (snd (unwrap (Js (JObj [(''submissions'', JArr [JNull])])))) =
      Some (JObj [(''submissions'', JArr [JNull])])"
    by (simp add: unwrap_def)
  show "decode_p2p (JObj [(''submissions'', JArr [JNull])]) =
      (\<lparr>P2PEpochID = 0, P2PSubmissions = Some [None], SnapshotterID = [], P2PSignature = []\<rparr>, True)"
    by (simp add: dec_field_def lower_names)
qed simp_all

text \<open>Both fields that the deduplication looks for are missing from a submission's request.\<close>

definition bare_single :: "(string, json) gomap \<Rightarrow> bool" where
  "bare_single info \<longleftrightarrow> map_of info ''epoch_id'' = None \<and>
     (\<exists>rq. get_obj ''request'' info = Some rq \<and>
        map_of rq ''project_id'' = None \<and> map_of rq ''snapshot_cid'' = None)"

definition nil_key :: "golib \<Rightarrow> string" where
  "nil_key L = GenerateKey L ''<nil>'' 0 ''<nil>''"

lemma drop_duplicate_bare:
  assumes "bare_single info" and "seqDedup s = Some d"
  shows "drop_duplicate L U s info =
     bindp (CheckAndMark U d (nil_key L)) (\<lambda>(isNew, d').
       if isNew = Some False then or_panic (slice_to 16 (nil_key L)) (\<lambda>_. Ret (True, s\<lparr>seqDedup := Some d'\<rparr>))
       else Ret (False, s\<lparr>seqDedup := Some d'\<rparr>))"
  using assms unfolding nil_key_def
  by (auto simp: drop_duplicate_def bare_single_def show_get_def dedup_epoch_def Let_def)

lemma queue_bare:
  assumes "bare_single info"
  shows "queueSubmissionFromP2P L U s (Js (JObj info)) peerID =
     bindp (drop_duplicate L U s info) (\<lambda>(dup, s').
       if dup \<or> \<not> seqRedis s' then Ret s'
       else bindp (enqueue L s' (Js (refloat (JObj (enrich s' info)))) (Some (enrich s' info)) peerID) (\<lambda>_. Ret s'))"
  using assms by (simp add: queueSubmissionFromP2P_def bare_single_def is_heartbeat_msg_def Let_def cong: if_cong)

lemma trace_CheckAndMark_no_push: "RLPush q b \<notin> set (trace R (CheckAndMark U d k) s)"
  by (auto simp: CheckAndMark_def trace_Call split: reply.splits)

lemma length_nil_key: "sane_lib L \<Longrightarrow> length (nil_key L) = 32"
  by (simp add: nil_key_def GenerateKey_def sane_lib_def)

text \<open>A single submission keyed as the collector's JSON tags say is deduplicated under the key of
  \<open><nil>:0:<nil>\<close>, whatever it contains: once the store holds that key, every further one is
  dropped without being queued, though it is another project, epoch and CID.\<close>

theorem single_submissions_collide:
  assumes "reliable R v" and "sane_lib L" and "sane_lru U"
    and "bare_single info" and "seqDedup s = Some d" and "fresh_dedup U d (v st)"
    and "marked (v st) (nil_key L)"
  shows "\<exists>s'. outcome R (queueSubmissionFromP2P L U s (Js (JObj info)) peerID) st = Some s' \<and>
     (\<forall>q b. RLPush q b \<notin> set (trace R (queueSubmissionFromP2P L U s (Js (JObj info)) peerID) st))"
proof -
  obtain d' where o: "outcome R (CheckAndMark U d (nil_key L)) st = Some (Some False, d')"
    using check_step(1) [OF assms(3,6), of "nil_key L"] assms(7)
    by (auto simp: reliable_run(1) [OF assms(1), of "CheckAndMark U d (nil_key L)"])
  have 1: "run R (drop_duplicate L U s info) st =
      (Some (True, s\<lparr>seqDedup := Some d'\<rparr>), final R (CheckAndMark U d (nil_key L)) st)"
    "trace R (drop_duplicate L U s info) st = trace R (CheckAndMark U d (nil_key L)) st"
    using o length_nil_key [OF assms(2)]
    by (cases "run R (CheckAndMark U d (nil_key L)) st";
        simp add: drop_duplicate_bare [OF assms(4,5)] prog_simps slice_to_def)+
  then have "run R (queueSubmissionFromP2P L U s (Js (JObj info)) peerID) st =
      (Some (s\<lparr>seqDedup := Some d'\<rparr>), final R (CheckAndMark U d (nil_key L)) st)"
    "trace R (queueSubmissionFromP2P L U s (Js (JObj info)) peerID) st = trace R (CheckAndMark U d (nil_key L)) st"
    by (simp_all add: queue_bare [OF assms(4)] prog_simps)
  then show ?thesis using trace_CheckAndMark_no_push by (metis fst_conv)
qed

theorem single_submissions_collide_witness:
  "\<exists>s'. outcome store_step (queueSubmissionFromP2P demo_lib list_lru demo_seq
       (Js (enc_submission demo_sub)) demo_peer)
     (empty_store\<lparr>strs := [(''dedup:'' @ nil_key demo_lib, Txt ''1'')]\<rparr>) = Some s'"
proof -
  obtain info where e: "enc_submission demo_sub = JObj info" by (simp add: enc_submission_def)
  then have "bare_single info"
    by (auto simp: bare_single_def enc_submission_def enc_request_def omit_def demo_sub_def get_obj_def)
  moreover have "seqDedup demo_seq = Some \<lparr>localCache = [], ddTtl = 60, keyPrefix = ''dedup:''\<rparr>"
    by (simp add: demo_seq_def)
  moreover have "fresh_dedup list_lru \<lparr>localCache = [], ddTtl = 60, keyPrefix = ''dedup:''\<rparr>
      (empty_store\<lparr>strs := [(''dedup:'' @ nil_key demo_lib, Txt ''1'')]\<rparr>)"
    by (simp add: fresh_dedup_def list_lru_def)
  moreover have "marked (empty_store\<lparr>strs := [(''dedup:'' @ nil_key demo_lib, Txt ''1'')]\<rparr>) (nil_key demo_lib)"
    by (simp add: marked_def)
  ultimately show ?thesis
    using single_submissions_collide [OF reliable_store sane_demo_lib sane_list_lru] unfolding e by blast
qed

text \<open>A heartbeat, epoch zero with null submissions, is never queued, counted or remembered: handling
  it makes no call at all.\<close>

theorem heartbeat_makes_no_call:
  assumes "is_heartbeat_msg info"
  shows "trace R (queueSubmissionFromP2P L U s (Js (JObj info)) peerID) st = []"
  using assms by (auto simp: queueSubmissionFromP2P_def is_heartbeat_msg_def or_panic_def)

theorem heartbeat_makes_no_call_witness:
  "trace store_step (queueSubmissionFromP2P demo_lib list_lru demo_seq
     (Js (JObj [(''epoch_id'', JNum 0), (''submissions'', JNull)])) demo_peer) empty_store = []"
  by (rule heartbeat_makes_no_call) (simp add: is_heartbeat_msg_def f64_exact)

end
