(* ===== verification/Tally.thy ===== *)
theory Tally
  imports Prelude
begin

text \<open>
  Vote counting. Four components run the same kind of loop: count votes in a map from CID to
  count (\<open>bump\<close>, \<open>m[k]++\<close>), then range over the map and keep the entry with strictly more
  votes than any before. The locale \<open>plurality\<close> is the contract of such a selection loop;
  each component's own loop is an interpretation of it. The order of the entries is Go's
  unspecified range order, so the lemmas say what holds in every order.
\<close>

definition bump :: "string \<Rightarrow> (string, int) gomap \<Rightarrow> (string, int) gomap" where
  "bump k m = AList.update k (mget 0 m k + 1) m"

lemma bump_go_ok [simp]: "go_ok m \<Longrightarrow> go_ok (bump k m)"
  by (simp add: bump_def)

lemma mget_bump: "mget 0 (bump k m) x = mget 0 m x + (if x = k then 1 else 0)"
  by (simp add: bump_def mget_def gomap_simps)

lemma bump_keys: "fst ` set (bump k m) = insert k (fst ` set m)"
  by (simp add: bump_def gomap_simps)

lemma mget_fold_bump: "mget 0 (fold bump xs m) x = mget 0 m x + int (count_list xs x)"
  by (induction xs arbitrary: m) (auto simp: mget_bump)

lemma go_ok_fold_bump [simp]: "go_ok m \<Longrightarrow> go_ok (fold bump xs m)"
  by (induction xs arbitrary: m) auto

lemma keys_fold_bump: "fst ` set (fold bump xs m) = set xs \<union> fst ` set m"
  by (induction xs arbitrary: m) (auto simp: bump_keys)

lemma mget_in: "go_ok m \<Longrightarrow> (k, v) \<in> set m \<Longrightarrow> mget z m k = v"
  by (simp add: go_ok_def mget_def)

lemma mget_absent: "k \<notin> fst ` set m \<Longrightarrow> mget z m k = z"
  by (auto simp: mget_def map_of_eq_None_iff [THEN iffD2])

lemma in_mget: "k \<in> fst ` set m \<Longrightarrow> (k, mget z m k) \<in> set m"
  unfolding mget_def by (metis map_of_SomeD map_of_eq_None_iff not_None_eq option.simps(5))

locale plurality =
  fixes pick :: "(string \<times> int) list \<Rightarrow> string \<times> int"
  assumes pick_Nil: "pick [] = ('''', 0)"
    and pick_snoc: "pick (vs @ [(c, n)]) = (if snd (pick vs) < n then (c, n) else pick vs)"
begin

lemma votes_nonneg: "0 \<le> snd (pick vs)"
  by (induction vs rule: rev_induct) (auto simp: pick_Nil pick_snoc)

lemma votes_max: "(c, n) \<in> set vs \<Longrightarrow> n \<le> snd (pick vs)"
proof (induction vs rule: rev_induct)
  case (snoc v vs)
  then show ?case by (cases v) (auto simp: pick_snoc)
qed simp

lemma winner_in: "0 < snd (pick vs) \<Longrightarrow> pick vs \<in> set vs"
proof (induction vs rule: rev_induct)
  case (snoc v vs)
  then show ?case by (cases v) (auto simp: pick_snoc split: if_splits)
qed (simp add: pick_Nil)

lemma no_votes: "snd (pick vs) = 0 \<Longrightarrow> pick vs = ('''', 0)"
proof (induction vs rule: rev_induct)
  case (snoc v vs)
  then show ?case using votes_nonneg [of vs] by (cases v) (auto simp: pick_snoc split: if_splits)
qed (simp add: pick_Nil)

lemma nobody_iff: "snd (pick vs) = 0 \<longleftrightarrow> (\<forall>(c, n) \<in> set vs. n \<le> 0)"
proof
  assume "snd (pick vs) = 0"
  then show "\<forall>(c, n) \<in> set vs. n \<le> 0" using votes_max by fastforce
next
  assume all: "\<forall>(c, n) \<in> set vs. n \<le> 0"
  show "snd (pick vs) = 0"
  proof (rule ccontr)
    assume "snd (pick vs) \<noteq> 0"
    then have "0 < snd (pick vs)" using votes_nonneg [of vs] by simp
    then show False using winner_in [of vs] all by (auto simp: case_prod_unfold)
  qed
qed

text \<open>The winning count does not depend on the order of the loop.\<close>

lemma votes_order: "set vs = set vs' \<Longrightarrow> snd (pick vs) = snd (pick vs')"
proof -
  assume eq: "set vs = set vs'"
  have le: "snd (pick us) \<le> snd (pick ws)" if "set us = set ws" for us ws
  proof (cases "snd (pick us) = 0")
    case True
    then show ?thesis using votes_nonneg [of ws] by simp
  next
    case False
    then have "pick us \<in> set ws" using winner_in [of us] votes_nonneg [of us] that by force
    then show ?thesis using votes_max [of "fst (pick us)" "snd (pick us)" ws] by simp
  qed
  show ?thesis using le [OF eq] le [OF eq [symmetric]] by simp
qed

text \<open>A strict leader wins in every order.\<close>

lemma strict_leader:
  assumes "go_ok vs" and "(c, n) \<in> set vs" and "0 < n"
    and lead: "\<And>c' n'. (c', n') \<in> set vs \<Longrightarrow> c' \<noteq> c \<Longrightarrow> n' < n"
  shows "pick vs = (c, n)"
proof -
  have ge: "n \<le> snd (pick vs)" using assms(2) by (rule votes_max)
  with \<open>0 < n\<close> have "pick vs \<in> set vs" by (intro winner_in) simp
  then have p: "(fst (pick vs), snd (pick vs)) \<in> set vs" by simp
  have c: "fst (pick vs) = c" using lead [OF p] ge by fastforce
  have "snd (pick vs) = n"
    using p c assms(1,2) unfolding go_ok_def by (metis eq_key_imp_eq_value)
  with c show ?thesis by (metis prod.collapse)
qed

lemma votes_range: "go_ok m \<Longrightarrow> snd (pick (range_map ro t m)) = snd (pick m)"
  by (intro votes_order) (simp add: set_range_map)

lemma strict_leader_range:
  assumes "go_ok m" and "(c, n) \<in> set m" and "0 < n"
    and "\<And>c' n'. (c', n') \<in> set m \<Longrightarrow> c' \<noteq> c \<Longrightarrow> n' < n"
  shows "pick (range_map ro t m) = (c, n)"
  using assms by (intro strict_leader) (auto simp: set_range_map)

end

end
