(* ===== verification/Windows.thy ===== *)
theory Windows
  imports Intake Tally
begin

text \<open>
  \<open>pkgs/eventmonitor/monitor.go\<close>: polling the chain for \<open>EpochReleased\<close> logs, the submission window
  of each epoch, and what its closing triggers: collecting the epoch's submissions, splitting the
  projects into batches and queueing them for the finalizers. The Ethereum node is outside the
  repository: the head and the logs it returns are arguments. Durations are whole seconds, and a
  poll sends its events to the channel in order (a full channel only delays it). The per-market
  cache of key builders is left out: its entries are \<open>NewKeyBuilder\<close> of the market.
\<close>

section \<open>State\<close>

record ethLog =
  Topics :: "byte list list"
  LogData :: "byte list"
  LogBlock :: u64
  TxHash :: "byte list"

record epochReleasedEvent =
  EvEpochID :: nat
  EvMarket :: addr
  EvTimestamp :: u64
  EvTx :: "byte list"
  EvBlock :: u64

record epochWindow =
  WinEpochID :: nat
  WinMarket :: string
  WinStart :: int
  WinDuration :: nat
  WinStartBlock :: u64

record windowManager =
  activeWindows :: "(string, epochWindow) gomap"
  semUsed :: nat
  maxWindows :: nat
  wmProtocol :: string
  finalizationBatchSize :: int

record eventMonitor =
  lastProcessedBlock :: u64
  windowManager :: windowManager
  windowDuration :: nat
  monMarkets :: "string list"

definition window_key :: "string \<Rightarrow> nat \<Rightarrow> string" where
  "window_key dataMarket epochID = dataMarket @ '':'' @ show_nat epochID"

section \<open>Logs\<close>

definition nat_of_bytes :: "byte list \<Rightarrow> nat" where
  "nat_of_bytes bs = fold (\<lambda>b n. n * 256 + unat b) bs 0"

definition parseEpochReleasedEvent :: "golib \<Rightarrow> ethLog \<Rightarrow> epochReleasedEvent option" where
  "parseEpochReleasedEvent L v =
     (if length (Topics v) < 3 then None
      else if length (LogData v) < 96 then None
      else Some \<lparr>EvEpochID = nat_of_bytes (Topics v ! 2),
         EvMarket = HexToAddress L (''0x'' @ hex_encode (Topics v ! 1)),
         EvTimestamp = of_nat (nat_of_bytes (take 32 (drop 64 (LogData v)))),
         EvTx = TxHash v, EvBlock = LogBlock v\<rparr>)"

definition isValidDataMarket :: "eventMonitor \<Rightarrow> string \<Rightarrow> bool" where
  "isValidDataMarket m address = List.member (monMarkets m) address"

definition accepted_events :: "golib \<Rightarrow> eventMonitor \<Rightarrow> ethLog list \<Rightarrow> epochReleasedEvent list" where
  "accepted_events L m logs =
     filter (\<lambda>ev. isValidDataMarket m (AddrHex L (EvMarket ev)))
       (List.map_filter (parseEpochReleasedEvent L) logs)"

text \<open>
  One poll: \<open>head\<close> is the node's answer for the current block, \<open>node\<close> its answer for a range of
  blocks; \<open>None\<close> is an error. The result holds the events sent.
\<close>

definition checkForNewEvents ::
  "golib \<Rightarrow> eventMonitor \<Rightarrow> u64 option \<Rightarrow> (int \<Rightarrow> int \<Rightarrow> ethLog list option) \<Rightarrow>
     epochReleasedEvent list \<times> eventMonitor" where
  "checkForNewEvents L m head node =
     (case head of
        None \<Rightarrow> ([], m)
      | Some currentBlock \<Rightarrow>
          if currentBlock \<le> lastProcessedBlock m then ([], m)
          else
            let limit = lastProcessedBlock m + 1000;
                toBlock = (if currentBlock < limit then currentBlock else limit) in
            (case node (sint (lastProcessedBlock m + 1)) (sint toBlock) of
               None \<Rightarrow> ([], m)
             | Some logs \<Rightarrow> (accepted_events L m logs, m\<lparr>lastProcessedBlock := toBlock\<rparr>)))"

section \<open>The window table and its semaphore\<close>

definition has_window :: "windowManager \<Rightarrow> string \<Rightarrow> bool" where
  "has_window wm key \<longleftrightarrow> map_of (activeWindows wm) key \<noteq> None"

definition acquire :: "windowManager \<Rightarrow> windowManager option" where
  "acquire wm = (if semUsed wm < maxWindows wm then Some (wm\<lparr>semUsed := semUsed wm + 1\<rparr>) else None)"

definition insert_window :: "string \<Rightarrow> epochWindow \<Rightarrow> windowManager \<Rightarrow> windowManager" where
  "insert_window key w wm = wm\<lparr>activeWindows := AList.update key w (activeWindows wm)\<rparr>"

definition remove_window :: "string \<Rightarrow> windowManager \<Rightarrow> windowManager" where
  "remove_window key wm = wm\<lparr>activeWindows := AList.delete key (activeWindows wm)\<rparr>"

definition release :: "windowManager \<Rightarrow> windowManager" where
  "release wm = wm\<lparr>semUsed := semUsed wm - 1\<rparr>"

definition GetActiveCount :: "windowManager \<Rightarrow> nat" where
  "GetActiveCount wm = length (activeWindows wm)"

definition IsWindowOpen :: "windowManager \<Rightarrow> string \<Rightarrow> nat \<Rightarrow> bool" where
  "IsWindowOpen wm dataMarket epochID = has_window wm (window_key dataMarket epochID)"

text \<open>The timers are stopped and the table emptied; the semaphore is not touched.\<close>

definition Shutdown :: "windowManager \<Rightarrow> windowManager" where
  "Shutdown wm = wm\<lparr>activeWindows := []\<rparr>"

section \<open>Opening a window\<close>

datatype startError = AlreadyActive | TooManyWindows nat

definition open_metrics :: "keyBuilder \<Rightarrow> nat \<Rightarrow> string \<Rightarrow> nat \<Rightarrow> u64 \<Rightarrow> int \<Rightarrow> call list" where
  "open_metrics kb epochID dataMarket duration startBlock now =
     (let e = show_nat epochID; info = MetricsEpochInfo kb e in
      [RZAdd (MetricsEpochsTimeline kb) now (''open:'' @ e),
       RHSet info [(''status'', Txt ''open''), (''start'', Js (JNum now)), (''data_market'', Txt dataMarket),
         (''duration'', Js (JNum (int duration))), (''start_block'', Js (JNum (uint startBlock)))],
       RExpire info 7200,
       RPublish ''state:change'' (''epoch:open:'' @ e)])"

definition StartSubmissionWindow ::
  "windowManager \<Rightarrow> string \<Rightarrow> nat \<Rightarrow> nat \<Rightarrow> u64 \<Rightarrow> ((startError + unit) \<times> windowManager) prog" where
  "StartSubmissionWindow wm dataMarket epochID duration startBlock =
     (let key = window_key dataMarket epochID in
      if has_window wm key then Ret (Inl AlreadyActive, wm)
      else case acquire wm of
        None \<Rightarrow> Ret (Inl (TooManyWindows (GetActiveCount wm)), wm)
      | Some wm1 \<Rightarrow>
          Call Now (\<lambda>t0.
          let w = \<lparr>WinEpochID = epochID, WinMarket = dataMarket, WinStart = int_of t0,
                WinDuration = duration, WinStartBlock = startBlock\<rparr>;
              wm2 = insert_window key w wm1;
              kb = NewKeyBuilder (wmProtocol wm) dataMarket
          in Call (Spawn (''closeWindow:'' @ key)) (\<lambda>_.
             Call (RSet (EpochWindow kb (show_nat epochID)) (Txt ''open'') duration) (\<lambda>_.
             Call Now (\<lambda>t.
             Call (RPipe (open_metrics kb epochID dataMarket duration startBlock (int_of t))) (\<lambda>_.
             Ret (Inr (), wm2)))))))"

text \<open>\<open>EpochEnd\<close> is never set: the nil \<open>*big.Int\<close> prints as \<open><nil>\<close>.\<close>

definition handleEpochReleased :: "golib \<Rightarrow> eventMonitor \<Rightarrow> epochReleasedEvent \<Rightarrow> eventMonitor prog" where
  "handleEpochReleased L m ev =
     Call NowNano (\<lambda>t.
       if 2 * int (windowDuration m) * 1000000000 < int_of t - sint (EvTimestamp ev) * 1000000000
       then Ret m
       else
         let market = AddrHex L (EvMarket ev); e = show_nat (EvEpochID ev);
             epochKey = ''epoch:'' @ market @ '':'' @ e @ '':info'';
             kb = NewKeyBuilder (wmProtocol (windowManager m)) market
         in Call Now (\<lambda>t1. Call NowNano (\<lambda>t2.
            Call (RPipe [RHSet epochKey [(''epoch_id'', Txt e), (''epoch_end'', Txt ''<nil>''),
                 (''data_market'', Txt market), (''released_at'', Js (JNum (uint (EvTimestamp ev)))),
                 (''block_number'', Js (JNum (uint (EvBlock ev)))), (''tx_hash'', Txt (''0x'' @ hex_encode (EvTx ev))),
                 (''window_start'', Js (JNum (int_of t1))),
                 (''window_end'', Js (JNum ((int_of t2 + int (windowDuration m) * 1000000000) div 1000000000)))],
               RExpire epochKey 86400,
               RSAdd (ActiveEpochs kb) e,
               RExpire (ActiveEpochs kb) 86400]) (\<lambda>_.
            bindp (StartSubmissionWindow (windowManager m) market (EvEpochID ev) (windowDuration m) (EvBlock ev))
              (\<lambda>(_, wm'). Ret (m\<lparr>windowManager := wm'\<rparr>))))))"

section \<open>Collecting an epoch's submissions\<close>

datatype scanResult = ScanDone "string list" | ScanFailed | OutOfFuel

fun scanKeys :: "nat \<Rightarrow> string \<Rightarrow> nat \<Rightarrow> string list \<Rightarrow> scanResult prog" where
  "scanKeys 0 pattern cursor keys = Ret OutOfFuel"
| "scanKeys (Suc n) pattern cursor keys =
     Call (RScan cursor pattern) (\<lambda>r. case r of
       ScanR ks next \<Rightarrow>
         if next = 0 then Ret (ScanDone (keys @ ks)) else scanKeys n pattern next (keys @ ks)
     | _ \<Rightarrow> Ret ScanFailed)"

record collected =
  projectVotes :: "(string, (string, int) gomap) gomap"
  projectMetadata :: "(string, json list) gomap"

text \<open>The project, the CID, the request and the submission of a stored record.\<close>

definition parse_stored ::
  "(string, json) gomap \<Rightarrow> (string \<times> string \<times> (string, json) gomap \<times> (string, json) gomap) option" where
  "parse_stored record =
     (case get_obj ''Submission'' record of
        None \<Rightarrow> None
      | Some subData \<Rightarrow>
          (case get_obj ''request'' subData of
             None \<Rightarrow> None
           | Some request \<Rightarrow>
               (case (get_str ''projectId'' request, get_str ''snapshotCid'' request) of
                  (Some p, Some c) \<Rightarrow> Some (p, c, request, subData)
                | _ \<Rightarrow> None)))"

definition add_vote :: "string \<Rightarrow> string \<Rightarrow> collected \<Rightarrow> collected" where
  "add_vote p c acc =
     acc\<lparr>projectVotes := AList.update p (bump c (mget [] (projectVotes acc) p)) (projectVotes acc)\<rparr>"

definition add_metadata :: "string \<Rightarrow> json \<Rightarrow> collected \<Rightarrow> collected" where
  "add_metadata p j acc =
     acc\<lparr>projectMetadata := AList.update p (mget [] (projectMetadata acc) p @ [j]) (projectMetadata acc)\<rparr>"

definition metadata_json ::
  "golib \<Rightarrow> string \<Rightarrow> string \<Rightarrow> (string, json) gomap \<Rightarrow> (string, json) gomap \<Rightarrow> int \<Rightarrow> json" where
  "metadata_json L submitterID cid request subData now =
     JObj [(''submitter_id'', JStr submitterID), (''snapshot_cid'', JStr cid),
       (''slot_id'', JNum (uint (case get_num ''slotId'' request of None \<Rightarrow> 0 | Some n \<Rightarrow> u64_of_float L n))),
       (''signature'', JStr (case get_str ''signature'' subData of None \<Rightarrow> [] | Some s \<Rightarrow> s)),
       (''timestamp'', JNum now)]"

text \<open>One stored record: the vote is counted first, the submitter's address looked at after.\<close>

definition count_record :: "golib \<Rightarrow> string \<Rightarrow> collected \<Rightarrow> collected prog" where
  "count_record L key acc =
     Call (RGet key) (\<lambda>r. case r of
       BlobR b \<Rightarrow>
         (case unmarshal_map b of
            Some (Some record) \<Rightarrow>
              (case parse_stored record of
                 None \<Rightarrow> Ret acc
               | Some (p, c, request, subData) \<Rightarrow>
                   let acc1 = add_vote p c acc in
                   (case get_str ''SnapshotterAddr'' record of
                      None \<Rightarrow> Ret acc1
                    | Some a \<Rightarrow>
                        if a = [] then Ret acc1
                        else Call Now (\<lambda>t.
                          Ret (add_metadata p (metadata_json L a c request subData (int_of t)) acc1))))
          | _ \<Rightarrow> Ret acc)
     | _ \<Rightarrow> Ret acc)"

definition processed_pattern :: "string \<Rightarrow> string \<Rightarrow> string \<Rightarrow> string" where
  "processed_pattern protocolState dataMarket submissionID =
     ns (NewKeyBuilder protocolState dataMarket) (''processed:*:'' @ submissionID)"

definition count_submission ::
  "golib \<Rightarrow> nat \<Rightarrow> windowManager \<Rightarrow> string \<Rightarrow> string \<Rightarrow> collected option \<Rightarrow> collected option prog" where
  "count_submission L fuel wm dataMarket i acc =
     (case acc of
        None \<Rightarrow> Ret None
      | Some a \<Rightarrow>
          bindp (scanKeys fuel (processed_pattern (wmProtocol wm) dataMarket i) 0 []) (\<lambda>r. case r of
            ScanDone keys \<Rightarrow> bindp (for_each (count_record L) keys a) (\<lambda>a'. Ret (Some a'))
          | ScanFailed \<Rightarrow> Ret (Some a)
          | OutOfFuel \<Rightarrow> Ret None))"

definition project_entry :: "collected \<Rightarrow> string \<Rightarrow> (string, int) gomap \<Rightarrow> json" where
  "project_entry acc p votes =
     JObj [(''cid_votes'', JObj (map (\<lambda>(c, n). (c, JNum n)) votes)),
       (''total_submissions'', JNum (int (length votes))),
       (''submission_metadata'', (case map_of (projectMetadata acc) p of
          None \<Rightarrow> JNull | Some js \<Rightarrow> JArr js))]"

definition project_submissions :: "collected \<Rightarrow> (string, json) gomap" where
  "project_submissions acc = map (\<lambda>(p, votes). (p, project_entry acc p votes)) (projectVotes acc)"

text \<open>\<open>None\<close> when a scan did not end within the fuel.\<close>

definition collectEpochSubmissions ::
  "golib \<Rightarrow> nat \<Rightarrow> windowManager \<Rightarrow> string \<Rightarrow> nat \<Rightarrow> (string, json) gomap option prog" where
  "collectEpochSubmissions L fuel wm dataMarket epochID =
     (let kb = NewKeyBuilder (wmProtocol wm) dataMarket; e = show_nat epochID in
      Call (RSMembers (EpochProcessed kb e)) (\<lambda>r. case r of
        StrsR ids \<Rightarrow>
          bindp (for_each (count_submission L fuel wm dataMarket) ids
              (Some \<lparr>projectVotes = [], projectMetadata = []\<rparr>)) (\<lambda>acc. case acc of
            None \<Rightarrow> Ret None
          | Some a \<Rightarrow>
              let ps = project_submissions a in
              Call (RSet (ns kb (''batch:ready:'' @ e)) (Js (JObj ps)) 3600) (\<lambda>_. Ret (Some ps)))
      | _ \<Rightarrow> Ret (Some [])))"

section \<open>Splitting and queueing\<close>

record splitState =
  spBatches :: "(string, json) gomap list"
  spCurrent :: "(string, json) gomap"
  spCount :: int

definition split_step :: "int \<Rightarrow> string \<times> json \<Rightarrow> splitState \<Rightarrow> splitState" where
  "split_step batchSize x st =
     (let current = AList.update (fst x) (snd x) (spCurrent st); count = spCount st + 1 in
      if batchSize \<le> count
      then \<lparr>spBatches = spBatches st @ [current], spCurrent = [], spCount = 0\<rparr>
      else st\<lparr>spCurrent := current, spCount := count\<rparr>)"

definition splitIntoBatches :: "range_order \<Rightarrow> (string, json) gomap \<Rightarrow> int \<Rightarrow> (string, json) gomap list" where
  "splitIntoBatches ro subs batchSize =
     (let st = fold (split_step batchSize) (range_map ro ''submissions'' subs)
            \<lparr>spBatches = [], spCurrent = [], spCount = 0\<rparr> in
      if spCurrent st \<noteq> [] then spBatches st @ [spCurrent st] else spBatches st)"

definition batch_data :: "nat \<Rightarrow> string \<Rightarrow> nat \<Rightarrow> nat \<Rightarrow> (string, json) gomap \<Rightarrow> json" where
  "batch_data epochID dataMarket totalBatches i batch =
     JObj [(''epoch_id'', JStr (show_nat epochID)), (''batch_id'', JNum (int i)),
       (''total_batches'', JNum (int totalBatches)), (''projects'', JObj batch),
       (''data_market'', JStr dataMarket)]"

definition triggerFinalization ::
  "golib \<Rightarrow> nat \<Rightarrow> range_order \<Rightarrow> windowManager \<Rightarrow> string \<Rightarrow> nat \<Rightarrow> bool prog" where
  "triggerFinalization L fuel ro wm dataMarket epochID =
     bindp (collectEpochSubmissions L fuel wm dataMarket epochID) (\<lambda>r. case r of
       None \<Rightarrow> Ret False
     | Some subs \<Rightarrow>
         let batchSize = (if finalizationBatchSize wm \<le> 0 then 20 else finalizationBatchSize wm);
             batches = splitIntoBatches ro subs batchSize;
             kb = NewKeyBuilder (wmProtocol wm) dataMarket; e = show_nat epochID in
         Call Now (\<lambda>t.
         Call (RSet (ns kb (''epoch:'' @ e @ '':batch:meta''))
             (Js (JObj [(''epoch_id'', JStr e), (''total_batches'', JNum (int (length batches))),
                (''total_projects'', JNum (int (length subs))), (''created_at'', JNum (int_of t)),
                (''data_market'', JStr dataMarket)])) 7200) (\<lambda>_.
         bindp (execs (map (\<lambda>(i, batch). RLPush (FinalizationQueue kb)
             (Js (batch_data epochID dataMarket (length batches) i batch))) (List.enumerate 0 batches)))
           (\<lambda>_. Ret True))))"

definition close_metrics :: "keyBuilder \<Rightarrow> nat \<Rightarrow> int \<Rightarrow> call list" where
  "close_metrics kb epochID now =
     (let e = show_nat epochID in
      [RZAdd (MetricsEpochsTimeline kb) now (''close:'' @ e),
       RHSet (MetricsEpochInfo kb e) [(''status'', Txt ''closed''), (''end'', Js (JNum now))],
       RPublish ''state:change'' (''epoch:closed:'' @ e)])"

definition closeWindow ::
  "golib \<Rightarrow> nat \<Rightarrow> range_order \<Rightarrow> windowManager \<Rightarrow> string \<Rightarrow> nat \<Rightarrow> windowManager prog" where
  "closeWindow L fuel ro wm dataMarket epochID =
     (let key = window_key dataMarket epochID; kb = NewKeyBuilder (wmProtocol wm) dataMarket in
      if \<not> has_window wm key then Ret wm
      else
        let wm' = release (remove_window key wm) in
        Call (RSet (EpochWindow kb (show_nat epochID)) (Txt ''closed'') 3600) (\<lambda>_.
        bindp (triggerFinalization L fuel ro wm' dataMarket epochID) (\<lambda>_.
        Call Now (\<lambda>t.
        Call (RPipe (close_metrics kb epochID (int_of t))) (\<lambda>_. Ret wm')))))"

section \<open>Batches partition the projects\<close>

lemma update_fresh: "k \<notin> fst ` set m \<Longrightarrow> AList.update k v m = m @ [(k, v)]"
  by (induction m) auto

definition split_inv :: "nat \<Rightarrow> (string \<times> json) list \<Rightarrow> splitState \<Rightarrow> bool" where
  "split_inv n xs st \<longleftrightarrow> concat (spBatches st) @ spCurrent st = xs \<and>
     (\<forall>b \<in> set (spBatches st). length b = n) \<and>
     spCount st = int (length (spCurrent st)) \<and> length (spCurrent st) < n"

lemma split_step_inv:
  assumes "split_inv n xs st" and "fst x \<notin> fst ` set xs"
  shows "split_inv n (xs @ [x]) (split_step (int n) x st)"
proof -
  have "fst x \<notin> fst ` set (spCurrent st)" using assms by (auto simp: split_inv_def)
  then show ?thesis
    using assms(1) by (auto simp: split_inv_def split_step_def Let_def update_fresh)
qed

lemma split_fold_inv:
  assumes "split_inv n ys st" and "distinct (map fst (ys @ xs))"
  shows "split_inv n (ys @ xs) (fold (split_step (int n)) xs st)"
  using assms
proof (induction xs arbitrary: ys st)
  case (Cons x xs)
  have "split_inv n (ys @ [x]) (split_step (int n) x st)"
    using Cons.prems by (intro split_step_inv) auto
  from Cons.IH [OF this] Cons.prems(2) show ?case by simp
qed simp

text \<open>Splitting an epoch's projects into batches of \<open>n\<close> loses and duplicates none: the batches, one
  after the other, are the projects in the order the map was visited; none is empty; every batch
  but the last has exactly \<open>n\<close> projects and the last at most \<open>n\<close>.\<close>

theorem batches_partition_projects:
  assumes "go_ok subs" and "0 < n"
  shows "mset (concat (splitIntoBatches ro subs (int n))) = mset subs \<and>
    (\<forall>b \<in> set (splitIntoBatches ro subs (int n)). b \<noteq> [] \<and> length b \<le> n) \<and>
    (\<forall>b \<in> set (butlast (splitIntoBatches ro subs (int n))). length b = n)"
proof -
  let ?xs = "range_map ro ''submissions'' subs"
  define st where "st = fold (split_step (int n)) ?xs \<lparr>spBatches = [], spCurrent = [], spCount = 0\<rparr>"
  have "split_inv n [] \<lparr>spBatches = [], spCurrent = [], spCount = 0\<rparr>"
    using assms(2) by (simp add: split_inv_def)
  moreover have "distinct (map fst ([] @ ?xs))"
    using go_ok_range_map [OF assms(1)] by (simp add: go_ok_def)
  ultimately have I: "split_inv n ?xs st" using split_fold_inv [of n "[]"] by (simp add: st_def)
  have b: "splitIntoBatches ro subs (int n) =
      (if spCurrent st \<noteq> [] then spBatches st @ [spCurrent st] else spBatches st)"
    by (simp add: splitIntoBatches_def Let_def st_def)
  have "concat (splitIntoBatches ro subs (int n)) = ?xs" using I by (auto simp: b split_inv_def)
  moreover have "\<forall>b \<in> set (splitIntoBatches ro subs (int n)). b \<noteq> [] \<and> length b \<le> n"
    using I assms(2) by (auto simp: b split_inv_def)
  moreover have "\<forall>b \<in> set (butlast (splitIntoBatches ro subs (int n))). length b = n"
    using I by (auto simp: b split_inv_def dest: in_set_butlastD)
  ultimately show ?thesis using mset_range_map [OF assms(1)] by metis
qed

theorem batches_partition_projects_witness:
  "mset (concat (splitIntoBatches in_order [(''a'', JNull), (''b'', JNull), (''c'', JNull)] (int 2))) =
   mset [(''a'', JNull), (''b'', JNull), (''c'', JNull)]"
proof -
  have "go_ok [(''a'', JNull), (''b'', JNull), (''c'', JNull)]" by (simp add: go_ok_def)
  moreover have "0 < (2 :: nat)" by simp
  ultimately show ?thesis using batches_partition_projects [of _ 2 in_order] by blast
qed

section \<open>Polling misses nothing\<close>

text \<open>The logs of a chain are those of its blocks; a poll may find the node unreachable.\<close>

definition logs_between :: "(int \<Rightarrow> ethLog list) \<Rightarrow> int \<Rightarrow> int \<Rightarrow> ethLog list" where
  "logs_between chain a b = concat (map chain [a..b])"

fun poll_all ::
  "golib \<Rightarrow> (int \<Rightarrow> ethLog list) \<Rightarrow> eventMonitor \<Rightarrow> (u64 option \<times> bool) list \<Rightarrow>
     epochReleasedEvent list \<times> eventMonitor" where
  "poll_all L chain m [] = ([], m)"
| "poll_all L chain m ((head, ok) # ps) =
     (let (evs, m') = checkForNewEvents L m head (\<lambda>a b. if ok then Some (logs_between chain a b) else None);
          (evs', m'') = poll_all L chain m' ps
      in (evs @ evs', m''))"

lemma accepted_events_append:
  "accepted_events L m (xs @ ys) = accepted_events L m xs @ accepted_events L m ys"
  by (simp add: accepted_events_def map_filter_def)

lemma logs_between_append:
  "a \<le> b + 1 \<Longrightarrow> b \<le> c \<Longrightarrow> logs_between chain a c = logs_between chain a b @ logs_between chain (b + 1) c"
proof (cases "b = c")
  assume "a \<le> b + 1" "b \<le> c" "b \<noteq> c"
  then have "[a..c] = [a..b] @ [b + 1..c]" using upto_split1 [of a "b + 1" c] by simp
  then show ?thesis by (simp add: logs_between_def)
qed (simp add: logs_between_def)

definition small_block :: "u64 \<Rightarrow> bool" where
  "small_block b \<longleftrightarrow> uint b < 2 ^ 62"

lemma sint_small: "uint (b :: u64) < 2 ^ 63 \<Longrightarrow> sint b = uint b"
proof -
  assume b: "uint b < 2 ^ 63"
  have "- (2 ^ 63) \<le> uint b" by (rule order_trans [OF _ uint_ge_0]) simp
  with b show ?thesis by (simp add: sint_uint signed_take_bit_int_eq_self_iff)
qed

lemma uint_plus_small:
  assumes "uint (a :: u64) < 2 ^ 62" and "uint (d :: u64) \<le> 1000"
  shows "uint (a + d) = uint a + uint d"
proof -
  have "(2 :: int) ^ 62 + 1000 < 2 ^ 64" by simp
  with assms have "uint a + uint d < 2 ^ 64" by linarith
  then show ?thesis using uint_ge_0 [of a] uint_ge_0 [of d]
    by (simp add: uint_word_ariths)
qed

lemma poll_step:
  assumes "small_block (lastProcessedBlock m)" and "\<And>b. head = Some b \<Longrightarrow> small_block b"
    and "checkForNewEvents L m head (\<lambda>a b. if ok then Some (logs_between chain a b) else None) = (evs, m')"
  shows "small_block (lastProcessedBlock m') \<and> uint (lastProcessedBlock m) \<le> uint (lastProcessedBlock m') \<and>
    monMarkets m' = monMarkets m \<and>
    evs = accepted_events L m
      (logs_between chain (uint (lastProcessedBlock m) + 1) (uint (lastProcessedBlock m')))"
proof (cases "\<exists>c. head = Some c \<and> lastProcessedBlock m < c \<and> ok")
  case False
  then have "evs = [] \<and> m' = m"
    using assms(3) by (auto simp: checkForNewEvents_def Let_def not_less split: option.splits if_splits)
  then show ?thesis using assms(1) by (simp add: logs_between_def accepted_events_def map_filter_simps)
next
  case True
  then obtain c where c: "head = Some c" "lastProcessedBlock m < c" and ok by blast
  define lim where "lim = lastProcessedBlock m + 1000"
  define b where "b = (if c < lim then c else lim)"
  have u1: "uint (lastProcessedBlock m + 1) = uint (lastProcessedBlock m) + 1"
    using uint_plus_small [of "lastProcessedBlock m" 1] assms(1) by (simp add: small_block_def)
  have ul: "uint lim = uint (lastProcessedBlock m) + 1000"
    using uint_plus_small [of "lastProcessedBlock m" 1000] assms(1) by (simp add: small_block_def lim_def)
  have c62: "uint c < 2 ^ 62" using assms(2) [OF c(1)] by (simp add: small_block_def)
  have b: "uint b \<le> uint c" "uint (lastProcessedBlock m) < uint b"
    using c(2) ul by (auto simp: b_def word_less_def)
  have s: "sint (lastProcessedBlock m + 1) = uint (lastProcessedBlock m) + 1" "sint b = uint b"
    using sint_small [of "lastProcessedBlock m + 1"] sint_small [of b] u1 b c62 by auto
  have "evs = accepted_events L m (logs_between chain (sint (lastProcessedBlock m + 1)) (sint b)) \<and>
      m' = m\<lparr>lastProcessedBlock := b\<rparr>"
    using assms(3) c \<open>ok\<close> by (auto simp: checkForNewEvents_def Let_def b_def lim_def split: if_splits)
  then show ?thesis using b c62 by (simp add: s small_block_def)
qed

text \<open>C30. Polling delivers every accepted event of the chain exactly once and in order: after any series
  of polls, with the node failing at any of them and whatever heads it reports, the events sent are
  those of the blocks from the first unprocessed one to the last processed one. (For block numbers
  below \<open>2 ^ 62\<close>.)\<close>

theorem polling_delivers_each_block_once:
  assumes "small_block (lastProcessedBlock m)"
    and "\<And>b ok. (Some b, ok) \<in> set ps \<Longrightarrow> small_block b"
  shows "fst (poll_all L chain m ps) = accepted_events L m
      (logs_between chain (uint (lastProcessedBlock m) + 1) (uint (lastProcessedBlock (snd (poll_all L chain m ps))))) \<and>
    uint (lastProcessedBlock m) \<le> uint (lastProcessedBlock (snd (poll_all L chain m ps)))"
  using assms
proof (induction ps arbitrary: m)
  case Nil
  then show ?case by (simp add: logs_between_def accepted_events_def map_filter_simps)
next
  case (Cons p ps)
  obtain head ok where p: "p = (head, ok)" by (cases p)
  obtain evs m' where c: "checkForNewEvents L m head
      (\<lambda>a b. if ok then Some (logs_between chain a b) else None) = (evs, m')" by (metis prod.collapse)
  have st: "small_block (lastProcessedBlock m')" "uint (lastProcessedBlock m) \<le> uint (lastProcessedBlock m')"
    "monMarkets m' = monMarkets m"
    "evs = accepted_events L m
      (logs_between chain (uint (lastProcessedBlock m) + 1) (uint (lastProcessedBlock m')))"
    using poll_step [OF Cons.prems(1) _ c] Cons.prems(2) p by auto
  have ev: "accepted_events L m' = accepted_events L m"
    by (rule ext) (simp add: accepted_events_def isValidDataMarket_def st(3))
  obtain evs' m'' where r: "poll_all L chain m' ps = (evs', m'')" by (metis prod.collapse)
  have sm: "(Some b, ok') \<in> set ps \<Longrightarrow> small_block b" for b ok'
    using Cons.prems(2) [of b ok'] by simp
  have IH: "evs' = accepted_events L m (logs_between chain (uint (lastProcessedBlock m') + 1) (uint (lastProcessedBlock m'')))"
    "uint (lastProcessedBlock m') \<le> uint (lastProcessedBlock m'')"
    using Cons.IH [OF st(1) sm] by (simp_all add: r ev)
  have "poll_all L chain m (p # ps) = (evs @ evs', m'')"
    by (simp add: p c r)
  moreover have "logs_between chain (uint (lastProcessedBlock m) + 1) (uint (lastProcessedBlock m'')) =
      logs_between chain (uint (lastProcessedBlock m) + 1) (uint (lastProcessedBlock m')) @
      logs_between chain (uint (lastProcessedBlock m') + 1) (uint (lastProcessedBlock m''))"
    by (rule logs_between_append) (use st(2) IH(2) in linarith)+
  ultimately show ?case
    using st(2) IH st(4) by (simp add: accepted_events_append)
qed

definition demo_monitor :: eventMonitor where
  "demo_monitor = \<lparr>lastProcessedBlock = 10,
     windowManager = \<lparr>activeWindows = [], semUsed = 0, maxWindows = 2, wmProtocol = ''P'',
       finalizationBatchSize = 20\<rparr>,
     windowDuration = 60, monMarkets = [''0x01'']\<rparr>"

definition demo_log :: ethLog where
  "demo_log = \<lparr>Topics = [[], [], [7]], LogData = replicate 96 0, LogBlock = 12, TxHash = []\<rparr>"

theorem polling_delivers_each_block_once_witness:
  "10 \<le> uint (lastProcessedBlock (snd (poll_all demo_lib (\<lambda>b. if b = 12 then [demo_log] else [])
     demo_monitor [(Some 11, True), (None, True), (Some 20, False), (Some 20, True)])))"
proof -
  have "small_block (lastProcessedBlock demo_monitor)" by (simp add: small_block_def demo_monitor_def)
  moreover have "small_block b" if "(Some b, ok) \<in> set [(Some 11, True), (None, True), (Some 20, False), (Some 20, True)]"
    for b ok using that by (auto simp: small_block_def)
  ultimately have "uint (lastProcessedBlock demo_monitor) \<le>
      uint (lastProcessedBlock (snd (poll_all demo_lib (\<lambda>b. if b = 12 then [demo_log] else [])
        demo_monitor [(Some 11, True), (None, True), (Some 20, False), (Some 20, True)])))"
    by (rule polling_delivers_each_block_once [THEN conjunct2])
  moreover have "uint (lastProcessedBlock demo_monitor) = 10" by (simp add: demo_monitor_def)
  ultimately show ?thesis by metis
qed

section \<open>The semaphore\<close>

text \<open>
  The event goroutine opens windows and each window's timer closes its own. The table and the
  channel change in separate atomic steps: between acquiring a slot and inserting the window, and
  between removing a window and releasing its slot, the other goroutines may run.
\<close>

record windowSystem =
  wsManager :: windowManager
  wsStarting :: "(string \<times> epochWindow) option"
  wsClosing :: nat

inductive wstep :: "windowSystem \<Rightarrow> windowSystem \<Rightarrow> bool" where
  start: "wsStarting s = None \<Longrightarrow> \<not> has_window (wsManager s) key \<Longrightarrow> acquire (wsManager s) = Some wm \<Longrightarrow>
     wstep s (s\<lparr>wsManager := wm, wsStarting := Some (key, w)\<rparr>)"
| insert: "wsStarting s = Some (key, w) \<Longrightarrow>
     wstep s (s\<lparr>wsManager := insert_window key w (wsManager s), wsStarting := None\<rparr>)"
| remove: "has_window (wsManager s) key \<Longrightarrow>
     wstep s (s\<lparr>wsManager := remove_window key (wsManager s), wsClosing := wsClosing s + 1\<rparr>)"
| release: "0 < wsClosing s \<Longrightarrow> 0 < semUsed (wsManager s) \<Longrightarrow>
     wstep s (s\<lparr>wsManager := release (wsManager s), wsClosing := wsClosing s - 1\<rparr>)"

definition starting_slots :: "windowSystem \<Rightarrow> nat" where
  "starting_slots s = (if wsStarting s = None then 0 else 1)"

definition ws_inv :: "windowSystem \<Rightarrow> bool" where
  "ws_inv s \<longleftrightarrow> go_ok (activeWindows (wsManager s)) \<and>
     semUsed (wsManager s) = GetActiveCount (wsManager s) + starting_slots s + wsClosing s \<and>
     semUsed (wsManager s) \<le> maxWindows (wsManager s) \<and>
     (\<forall>key w. wsStarting s = Some (key, w) \<longrightarrow> \<not> has_window (wsManager s) key)"

lemma length_delete_present:
  "go_ok m \<Longrightarrow> map_of m k \<noteq> None \<Longrightarrow> Suc (length (AList.delete k m)) = length m"
proof (induction m)
  case (Cons x m)
  show ?case
  proof (cases "fst x = k")
    case True
    with Cons.prems(1) have "k \<notin> fst ` set m" by (auto simp: go_ok_def)
    with True show ?thesis by (simp add: delete_id)
  next
    case False
    with Cons.prems have "go_ok m" "map_of m k \<noteq> None" by (auto simp: go_ok_def)
    with Cons.IH False show ?thesis by simp
  qed
qed simp

lemma ws_inv_step: 
  assumes I: "ws_inv s" and "wstep s s'"
  shows "ws_inv s'"
  using assms(2)
proof cases
  case (start key wm w)
  then show ?thesis using I
    by (auto simp: ws_inv_def acquire_def starting_slots_def GetActiveCount_def has_window_def split: if_splits)
next
  case (insert key w)
  then have "key \<notin> fst ` set (activeWindows (wsManager s))"
    using I by (auto simp: ws_inv_def has_window_def map_of_eq_None_iff)
  with I insert show ?thesis
    by (auto simp: ws_inv_def insert_window_def starting_slots_def GetActiveCount_def update_fresh go_ok_def)
next
  case (remove key)
  have "Suc (length (AList.delete key (activeWindows (wsManager s)))) = length (activeWindows (wsManager s))"
    using length_delete_present [of "activeWindows (wsManager s)" key] I remove
    by (simp add: ws_inv_def has_window_def)
  with I remove show ?thesis
    by (auto simp: ws_inv_def remove_window_def starting_slots_def GetActiveCount_def has_window_def gomap_simps)
next
  case release
  then show ?thesis using I
    by (auto simp: ws_inv_def release_def starting_slots_def GetActiveCount_def has_window_def)
qed

definition ws_init :: "windowManager \<Rightarrow> windowSystem" where
  "ws_init wm = \<lparr>wsManager = wm, wsStarting = None, wsClosing = 0\<rparr>"

lemma ws_inv_reach:
  assumes "wstep\<^sup>*\<^sup>* (ws_init wm) s" and "activeWindows wm = []" and "semUsed wm = 0"
  shows "ws_inv s"
  using assms(1)
proof induction
  case base
  show ?case using assms by (simp add: ws_init_def ws_inv_def starting_slots_def GetActiveCount_def)
next
  case (step s s')
  then show ?case by (auto intro: ws_inv_step)
qed

text \<open>C17. However opening and closing interleave, there are never more active windows than the configured
  maximum, a closing window's release never blocks, and no slot is lost: with nothing in flight a new
  window is refused only when the table is full.\<close>

theorem windows_bounded_and_no_slot_lost:
  assumes "wstep\<^sup>*\<^sup>* (ws_init wm) s" and "activeWindows wm = []" and "semUsed wm = 0"
  shows "GetActiveCount (wsManager s) \<le> maxWindows (wsManager s) \<and>
    (0 < wsClosing s \<longrightarrow> 0 < semUsed (wsManager s)) \<and>
    (wsStarting s = None \<and> wsClosing s = 0 \<longrightarrow>
       (acquire (wsManager s) = None \<longleftrightarrow> GetActiveCount (wsManager s) = maxWindows (wsManager s)))"
  using ws_inv_reach [OF assms] by (auto simp: ws_inv_def starting_slots_def acquire_def)

theorem windows_bounded_and_no_slot_lost_witness:
  "\<exists>s. wstep\<^sup>*\<^sup>* (ws_init (windowManager demo_monitor)) s \<and> wsStarting s \<noteq> None \<and>
     GetActiveCount (wsManager s) \<le> maxWindows (wsManager s)"
proof -
  let ?s = "ws_init (windowManager demo_monitor)"
  obtain wm where a: "acquire (wsManager ?s) = Some wm"
    by (simp add: acquire_def ws_init_def demo_monitor_def)
  have "wstep ?s (?s\<lparr>wsManager := wm, wsStarting := Some (''k'', undefined)\<rparr>)"
    by (rule wstep.start [OF _ _ a]) (simp_all add: ws_init_def has_window_def demo_monitor_def)
  then have r: "wstep\<^sup>*\<^sup>* ?s (?s\<lparr>wsManager := wm, wsStarting := Some (''k'', undefined)\<rparr>)" by blast
  have "activeWindows (windowManager demo_monitor) = []" "semUsed (windowManager demo_monitor) = 0"
    by (simp_all add: demo_monitor_def)
  from windows_bounded_and_no_slot_lost [OF r this] r show ?thesis
    by (intro exI [of _ "?s\<lparr>wsManager := wm, wsStarting := Some (''k'', undefined)\<rparr>"]) simp
qed

end
