(* ===== verification/Workers.thy ===== *)
theory Workers
  imports Keys Env
begin

text \<open>
  \<open>pkgs/workers/monitoring.go\<close>: what a worker records about itself and about the progress of an
  epoch's parts. A result \<open>True\<close> is a nil error. The progress update is two separate steps, an
  atomic increment and a pipeline that writes the count back, and several finalizers run it at
  once: the last section interleaves them.
\<close>

datatype workerType = WorkerTypeFinalizer | WorkerTypeAggregator

datatype workerStatus = WorkerStatusIdle | WorkerStatusProcessing | WorkerStatusFailed

fun type_text :: "workerType \<Rightarrow> string" where
  "type_text WorkerTypeFinalizer = ''finalizer''"
| "type_text WorkerTypeAggregator = ''aggregator''"

fun status_text :: "workerStatus \<Rightarrow> string" where
  "status_text WorkerStatusIdle = ''idle''"
| "status_text WorkerStatusProcessing = ''processing''"
| "status_text WorkerStatusFailed = ''failed''"

record workerMonitor =
  wmWorkerID :: string
  wmWorkerType :: workerType
  wmProtocolState :: string

section \<open>The worker's own state\<close>

definition UpdateHeartbeat :: "workerMonitor \<Rightarrow> bool prog" where
  "UpdateHeartbeat wm =
     Call Now (\<lambda>t.
     Call (RSet (WorkerHeartbeat (type_text (wmWorkerType wm)) (wmWorkerID wm)) (Js (JNum (int_of t))) 300)
       (\<lambda>r. Ret (r \<noteq> ErrR)))"

definition UpdateStatus :: "workerMonitor \<Rightarrow> workerStatus \<Rightarrow> bool prog" where
  "UpdateStatus wm st =
     Call (RSet (WorkerStatus (type_text (wmWorkerType wm)) (wmWorkerID wm)) (Txt (status_text st)) 86400)
       (\<lambda>r. if r = ErrR then Ret False else bindp (UpdateHeartbeat wm) (\<lambda>_. Ret True))"

definition SetCurrentBatch :: "workerMonitor \<Rightarrow> string \<Rightarrow> bool prog" where
  "SetCurrentBatch wm batchInfo =
     (let key = (case wmWorkerType wm of
          WorkerTypeFinalizer \<Rightarrow> WorkerCurrentBatch ''finalizer'' (wmWorkerID wm)
        | WorkerTypeAggregator \<Rightarrow> WorkerCurrentEpoch ''aggregator'') in
      Call (RSet key (Txt batchInfo) 3600) (\<lambda>r. Ret (r \<noteq> ErrR)))"

definition IncrementProcessedCount :: "workerMonitor \<Rightarrow> bool prog" where
  "IncrementProcessedCount wm =
     Call (RIncr (WorkerBatchesProcessed (type_text (wmWorkerType wm)) (wmWorkerID wm)))
       (\<lambda>r. Ret (r \<noteq> ErrR))"

definition ProcessingStarted :: "workerMonitor \<Rightarrow> string \<Rightarrow> unit prog" where
  "ProcessingStarted wm batchInfo =
     bindp (UpdateStatus wm WorkerStatusProcessing) (\<lambda>_.
     bindp (SetCurrentBatch wm batchInfo) (\<lambda>_. Ret ()))"

definition ProcessingCompleted :: "workerMonitor \<Rightarrow> unit prog" where
  "ProcessingCompleted wm =
     bindp (UpdateStatus wm WorkerStatusIdle) (\<lambda>_.
     bindp (IncrementProcessedCount wm) (\<lambda>_.
     if wmWorkerType wm = WorkerTypeFinalizer
     then exec (RDel [WorkerCurrentBatch ''finalizer'' (wmWorkerID wm)])
     else Ret ()))"

definition ProcessingFailed :: "workerMonitor \<Rightarrow> string \<Rightarrow> unit prog" where
  "ProcessingFailed wm err =
     bindp (UpdateStatus wm WorkerStatusFailed) (\<lambda>_.
     Call Now (\<lambda>t.
     exec (RSet (WorkerLastError (type_text (wmWorkerType wm)) (wmWorkerID wm))
       (Js (JObj [(''error'', JStr err), (''timestamp'', JNum (int_of t))])) 3600)))"

definition StartWorker :: "workerMonitor \<Rightarrow> unit prog" where
  "StartWorker wm =
     bindp (UpdateStatus wm WorkerStatusIdle) (\<lambda>_. exec (Spawn ''HeartbeatLoop''))"

definition worker_keys :: "workerMonitor \<Rightarrow> string list" where
  "worker_keys wm =
     (let t = type_text (wmWorkerType wm); i = wmWorkerID wm in
      [WorkerStatus t i, WorkerHeartbeat t i, WorkerCurrentBatch t i, WorkerBatchesProcessed t i,
       WorkerLastError t i])"

definition CleanupWorker :: "workerMonitor \<Rightarrow> unit prog" where
  "CleanupWorker wm = execs (map (\<lambda>k. RDel [k]) (worker_keys wm))"

section \<open>Parts and batches\<close>

definition TrackBatchPart :: "string \<Rightarrow> int \<Rightarrow> string \<Rightarrow> bool prog" where
  "TrackBatchPart epochID batchID status =
     Call (RSet (BatchPartStatus epochID batchID) (Txt status) 7200) (\<lambda>r.
       if r = ErrR then Ret False
       else if status = ''processing''
       then bindp (exec (RSet (BatchPartWorker epochID batchID) (Txt ''worker-id'') 7200)) (\<lambda>_. Ret True)
       else Ret True)"

definition ready_calls :: "keyBuilder \<Rightarrow> string \<Rightarrow> int \<Rightarrow> int \<Rightarrow> call list" where
  "ready_calls kb epochID completed now =
     [RSet (EpochPartsReady kb epochID) (Txt ''true'') 7200,
      RLPush (AggregationQueueLevel1 kb)
        (Js (JObj [(''epoch_id'', JStr epochID), (''parts_completed'', JNum completed),
           (''ready_at'', JNum now)]))]"

definition progress_calls :: "keyBuilder \<Rightarrow> string \<Rightarrow> int \<Rightarrow> int \<Rightarrow> call list" where
  "progress_calls kb epochID completed totalParts =
     [RSet (EpochPartsCompleted kb epochID) (Js (JNum completed)) 7200,
      RSet (EpochPartsTotal kb epochID) (Js (JNum totalParts)) 7200]"

definition UpdateBatchPartsProgress ::
  "string \<Rightarrow> string \<Rightarrow> string \<Rightarrow> int \<Rightarrow> int \<Rightarrow> bool prog" where
  "UpdateBatchPartsProgress protocolState dataMarket epochID completed totalParts =
     (let kb = NewKeyBuilder protocolState dataMarket; cs = progress_calls kb epochID completed totalParts in
      if completed = totalParts \<and> 0 < totalParts
      then Call Now (\<lambda>t. Call (RPipe (cs @ ready_calls kb epochID completed (int_of t))) (\<lambda>r. Ret (r \<noteq> ErrR)))
      else Call (RPipe cs) (\<lambda>r. Ret (r \<noteq> ErrR)))"

definition TrackFinalizedBatch :: "string \<Rightarrow> string \<Rightarrow> string \<Rightarrow> bool prog" where
  "TrackFinalizedBatch epochID ipfsCID merkleRoot =
     Call Now (\<lambda>t.
       let key = BatchFinalized epochID in
       Call (RPipe [RHSet key [(''ipfs_cid'', Txt ipfsCID)], RHSet key [(''merkle_root'', Txt merkleRoot)],
           RHSet key [(''finalized_at'', Js (JNum (int_of t)))], RExpire key 86400]) (\<lambda>r.
       if r = ErrR then Ret False
       else bindp (exec (RIncr MetricsTotalProcessed)) (\<lambda>_. Ret True)))"

text \<open>\<open>rate\<close> is the processing rate printed with \<open>%.2f\<close>.\<close>

definition UpdatePerformanceMetrics :: "string \<Rightarrow> int \<Rightarrow> bool prog" where
  "UpdatePerformanceMetrics rate avgLatency =
     Call (RPipe [RSet MetricsProcessingRate (Txt rate) 300, RSet MetricsAvgLatency (Js (JNum avgLatency)) 300])
       (\<lambda>r. Ret (r \<noteq> ErrR))"

end
