(* ===== verification/Threads.thy ===== *)
theory Threads
  imports Env
begin

text \<open>
  Goroutines sharing one store: a system is the list of their remaining programs and the store.
  One step lets one of them make its next call; Redis executes a call, or a pipeline, as a unit.
  \<open>reaches\<close> is the reflexive transitive closure, \<open>play\<close> runs a given schedule.
\<close>

type_synonym 'a sys = "'a prog list \<times> store"

inductive tstep :: "'a sys \<Rightarrow> 'a sys \<Rightarrow> bool" where
  call: "i < length ps \<Longrightarrow> ps ! i = Call c k \<Longrightarrow>
     tstep (ps, st) (ps[i := k (fst (store_step st c))], snd (store_step st c))"

inductive_cases tstep_elim: "tstep (ps, st) sys'"

abbreviation reaches :: "'a sys \<Rightarrow> 'a sys \<Rightarrow> bool" where
  "reaches \<equiv> tstep\<^sup>*\<^sup>*"

fun finished :: "'a prog \<Rightarrow> bool" where
  "finished (Call c k) = False"
| "finished _ = True"

definition all_done :: "'a sys \<Rightarrow> bool" where
  "all_done sys \<longleftrightarrow> list_all finished (fst sys)"

text \<open>A schedule names the thread that moves; one that has finished or does not exist is skipped.\<close>

fun play :: "nat list \<Rightarrow> 'a sys \<Rightarrow> 'a sys" where
  "play [] sys = sys"
| "play (i # is) (ps, st) =
     (if i < length ps then
        (case ps ! i of
           Call c k \<Rightarrow> play is (ps[i := k (fst (store_step st c))], snd (store_step st c))
         | _ \<Rightarrow> play is (ps, st))
      else play is (ps, st))"

lemma play_reaches: "reaches sys (play is sys)"
proof (induction "is" sys rule: play.induct)
  case (2 i "is" ps st)
  show ?case
  proof (cases "i < length ps")
    case True
    show ?thesis
    proof (cases "ps ! i")
      case (Call c k)
      have "tstep (ps, st) (ps[i := k (fst (store_step st c))], snd (store_step st c))"
        using True Call by (rule tstep.call)
      with 2 True Call show ?thesis
        by (simp add: converse_rtranclp_into_rtranclp)
    qed (use 2 True in auto)
  qed (use 2 in auto)
qed simp

text \<open>An invariant of every step holds in every reachable system.\<close>

lemma reaches_invariant:
  assumes "reaches sys sys'" and "I sys" and "\<And>x y. I x \<Longrightarrow> tstep x y \<Longrightarrow> I y"
  shows "I sys'"
  using assms(1,2) by (induction) (auto intro: assms(3))

text \<open>Some thread can move until all have finished.\<close>

lemma progress: "\<not> all_done sys \<Longrightarrow> \<exists>sys'. tstep sys sys'"
proof -
  assume "\<not> all_done sys"
  then obtain i where "i < length (fst sys)" "\<not> finished (fst sys ! i)"
    by (auto simp: all_done_def list_all_length)
  then show ?thesis by (cases "fst sys ! i"; cases sys) (auto intro: tstep.call)
qed

end
