(* ===== verification/Progress.thy ===== *)
theory Progress
  imports Workers Threads
begin

text \<open>
  The progress of an epoch's parts, as the tail of \<open>processBatchPart\<close> in \<open>cmd/unified/main.go\<close>
  counts it: an atomic increment of the completed counter, and then \<open>UpdateBatchPartsProgress\<close>,
  which writes the count it was given back over the counter. Every finalizer worker that has
  stored a part runs \<open>count_part\<close>; the theorems are about any number of them interleaved.
\<close>

definition count_part ::
  "keyBuilder \<Rightarrow> string \<Rightarrow> string \<Rightarrow> string \<Rightarrow> int \<Rightarrow> bool prog" where
  "count_part kb protocolState dataMarket epochStr totalBatches =
     Call (RIncr (EpochPartsCompleted kb epochStr)) (\<lambda>r.
       UpdateBatchPartsProgress protocolState dataMarket epochStr (int_of r) totalBatches)"

text \<open>Where a worker is between its increment and its write.\<close>

datatype phase = Waiting | Counted int | Stamped int int | Counted_out bool

fun prog_of :: "string \<Rightarrow> string \<Rightarrow> string \<Rightarrow> int \<Rightarrow> phase \<Rightarrow> bool prog" where
  "prog_of p m e n Waiting = count_part (NewKeyBuilder p m) p m e n"
| "prog_of p m e n (Counted c) = UpdateBatchPartsProgress p m e c n"
| "prog_of p m e n (Stamped c t) =
     Call (RPipe (progress_calls (NewKeyBuilder p m) e c n @ ready_calls (NewKeyBuilder p m) e c t))
       (\<lambda>r. Ret (r \<noteq> ErrR))"
| "prog_of p m e n (Counted_out b) = Ret b"

definition counter :: "string \<Rightarrow> string \<Rightarrow> string \<Rightarrow> store \<Rightarrow> int" where
  "counter p m e st = blob_int (map_of (strs st) (EpochPartsCompleted (NewKeyBuilder p m) e))"

definition announced :: "string \<Rightarrow> string \<Rightarrow> store \<Rightarrow> nat" where
  "announced p m st = length (lists st (AggregationQueueLevel1 (NewKeyBuilder p m)))"

definition is_ready :: "string \<Rightarrow> string \<Rightarrow> string \<Rightarrow> store \<Rightarrow> bool" where
  "is_ready p m e st \<longleftrightarrow> map_of (strs st) (EpochPartsReady (NewKeyBuilder p m) e) \<noteq> None"

definition started :: "nat \<Rightarrow> (nat \<Rightarrow> phase) \<Rightarrow> nat set" where
  "started n ph = {i. i < n \<and> ph i \<noteq> Waiting}"

definition tokens :: "nat \<Rightarrow> (nat \<Rightarrow> phase) \<Rightarrow> nat set" where
  "tokens n ph = {i. i < n \<and> (ph i = Counted (int n) \<or> (\<exists>t. ph i = Stamped (int n) t))}"

text \<open>
  The invariant: no count exceeds the number of workers that have incremented, at most one worker
  ever carries the full count or has announced it, and then every worker has incremented.
\<close>

definition part_inv :: "string \<Rightarrow> string \<Rightarrow> string \<Rightarrow> nat \<Rightarrow> (nat \<Rightarrow> phase) \<Rightarrow> store \<Rightarrow> bool" where
  "part_inv p m e n ph st \<longleftrightarrow>
     counter p m e st \<le> int (card (started n ph)) \<and>
     (\<forall>i < n. \<forall>c. ph i = Counted c \<longrightarrow> c \<le> int (card (started n ph))) \<and>
     (\<forall>i < n. \<forall>c t. ph i = Stamped c t \<longrightarrow> c = int n) \<and>
     card (tokens n ph) + announced p m st \<le> 1 \<and>
     (0 < card (tokens n ph) + announced p m st \<longrightarrow> started n ph = {..<n}) \<and>
     (is_ready p m e st \<longrightarrow> 0 < announced p m st)"

lemma progress_keys_distinct:
  "EpochPartsCompleted kb e \<noteq> EpochPartsTotal kb e"
  "EpochPartsCompleted kb e \<noteq> EpochPartsReady kb e"
  "EpochPartsTotal kb e \<noteq> EpochPartsReady kb e"
  by (simp_all add: EpochPartsCompleted_def EpochPartsTotal_def EpochPartsReady_def ns_def)

lemmas progress_keys = progress_keys_distinct progress_keys_distinct [symmetric]

lemma pipe_progress:
  "fst (store_step st (RPipe (progress_calls (NewKeyBuilder p m) e c n))) = OkR"
    "counter p m e (snd (store_step st (RPipe (progress_calls (NewKeyBuilder p m) e c n)))) = c"
    "announced p m (snd (store_step st (RPipe (progress_calls (NewKeyBuilder p m) e c n)))) = announced p m st"
    "is_ready p m e (snd (store_step st (RPipe (progress_calls (NewKeyBuilder p m) e c n)))) = is_ready p m e st"
  by (simp_all add: progress_calls_def counter_def announced_def is_ready_def map_of_update progress_keys)

lemma pipe_ready:
  "fst (store_step st (RPipe (progress_calls (NewKeyBuilder p m) e c n @ ready_calls (NewKeyBuilder p m) e c t))) = OkR"
    "counter p m e (snd (store_step st (RPipe (progress_calls (NewKeyBuilder p m) e c n @ ready_calls (NewKeyBuilder p m) e c t)))) = c"
    "announced p m (snd (store_step st (RPipe (progress_calls (NewKeyBuilder p m) e c n @ ready_calls (NewKeyBuilder p m) e c t)))) =
       Suc (announced p m st)"
    "is_ready p m e (snd (store_step st (RPipe (progress_calls (NewKeyBuilder p m) e c n @ ready_calls (NewKeyBuilder p m) e c t))))"
  by (simp_all add: progress_calls_def ready_calls_def counter_def announced_def is_ready_def
      map_of_update progress_keys)

lemma incr_step:
  "fst (store_step st (RIncr (EpochPartsCompleted (NewKeyBuilder p m) e))) = IntR (counter p m e st + 1)"
  "counter p m e (snd (store_step st (RIncr (EpochPartsCompleted (NewKeyBuilder p m) e)))) = counter p m e st + 1"
  "announced p m (snd (store_step st (RIncr (EpochPartsCompleted (NewKeyBuilder p m) e)))) = announced p m st"
  "is_ready p m e (snd (store_step st (RIncr (EpochPartsCompleted (NewKeyBuilder p m) e)))) = is_ready p m e st"
  by (simp_all add: counter_def announced_def is_ready_def map_of_update progress_keys)

lemma now_step:
  "counter p m e (snd (store_step st Now)) = counter p m e st"
  "announced p m (snd (store_step st Now)) = announced p m st"
  "is_ready p m e (snd (store_step st Now)) = is_ready p m e st"
  by (simp_all add: counter_def announced_def is_ready_def)

lemma finite_started [simp]: "finite (started n ph)" "finite (tokens n ph)"
  by (simp_all add: started_def tokens_def)

lemma started_bound: "started n ph \<subseteq> {..<n}"
  by (auto simp: started_def)

lemma started_move:
  "i < n \<Longrightarrow> x \<noteq> Waiting \<Longrightarrow> started n (ph(i := x)) = insert i (started n ph)"
  by (auto simp: started_def)

lemma tokens_move:
  "i < n \<Longrightarrow> tokens n (ph(i := x)) =
     (if x = Counted (int n) \<or> (\<exists>t. x = Stamped (int n) t) then insert i (tokens n ph) else tokens n ph - {i})"
  by (auto simp: tokens_def)

lemma incr_inv:
  assumes "part_inv p m e n ph st" and i: "i < n" and w: "ph i = Waiting"
  defines "st' \<equiv> snd (store_step st (RIncr (EpochPartsCompleted (NewKeyBuilder p m) e)))"
  shows "part_inv p m e n (ph(i := Counted (counter p m e st + 1))) st'"
proof -
  let ?c = "counter p m e st + 1" and ?ph = "ph(i := Counted (counter p m e st + 1))"
  have ni: "i \<notin> started n ph" "i \<notin> tokens n ph" using w by (auto simp: started_def tokens_def)
  have card: "card (started n ?ph) = Suc (card (started n ph))"
    using ni by (simp add: started_move [OF i])
  have none: "card (tokens n ph) + announced p m st = 0"
    using assms(1) ni(1) i unfolding part_inv_def by auto
  have le: "?c \<le> int (card (started n ?ph))" using assms(1) by (simp add: part_inv_def card)
  have full: "started n ?ph = {..<n}" if "?c = int n"
  proof (rule card_subset_eq [OF _ started_bound])
    show "card (started n ?ph) = card {..<n}"
      using le that card_mono [OF _ started_bound [of n ?ph]] by simp
  qed simp
  have tk: "tokens n ?ph = (if ?c = int n then {i} else {})"
    using none by (simp add: tokens_move [OF i])
  show ?thesis
    using assms(1) le full none unfolding part_inv_def st'_def incr_step tk card
    by (auto simp: card)
qed

lemma write_inv:
  assumes "part_inv p m e n ph st" and i: "i < n" and c: "ph i = Counted c" "c \<noteq> int n"
  defines "st' \<equiv> snd (store_step st (RPipe (progress_calls (NewKeyBuilder p m) e c (int n))))"
  shows "part_inv p m e n (ph(i := Counted_out b)) st'"
proof -
  have s: "started n (ph(i := Counted_out b)) = started n ph"
    using i c(1) by (auto simp: started_def)
  have t: "tokens n (ph(i := Counted_out b)) = tokens n ph"
    using i c by (auto simp: tokens_def)
  show ?thesis using assms(1) i c unfolding part_inv_def st'_def pipe_progress s t by auto
qed

lemma stamp_inv:
  assumes "part_inv p m e n ph st" and i: "i < n" and c: "ph i = Counted (int n)"
  shows "part_inv p m e n (ph(i := Stamped (int n) t)) (snd (store_step st Now))"
proof -
  have s: "started n (ph(i := Stamped (int n) t)) = started n ph"
    using i c by (auto simp: started_def)
  have t: "tokens n (ph(i := Stamped (int n) t)) = tokens n ph"
    using i c by (auto simp: tokens_def)
  show ?thesis using assms(1) unfolding part_inv_def now_step s t by auto
qed

lemma announce_inv:
  assumes "part_inv p m e n ph st" and i: "i < n" and c: "ph i = Stamped c t"
  defines "st' \<equiv> snd (store_step st (RPipe
     (progress_calls (NewKeyBuilder p m) e c (int n) @ ready_calls (NewKeyBuilder p m) e c t)))"
  shows "part_inv p m e n (ph(i := Counted_out b)) st'"
proof -
  have cn: "c = int n" using assms(1) i c by (auto simp: part_inv_def)
  have it: "i \<in> tokens n ph" using i c cn by (auto simp: tokens_def)
  then have "0 < card (tokens n ph)" by (auto simp: card_gt_0_iff)
  moreover have "card (tokens n ph) + announced p m st \<le> 1" using assms(1) by (simp add: part_inv_def)
  ultimately have one: "card (tokens n ph) = 1" "announced p m st = 0" by linarith+
  have s: "started n (ph(i := Counted_out b)) = started n ph"
    using i c by (auto simp: started_def)
  have t: "tokens n (ph(i := Counted_out b)) = {}"
    using one(1) it by (auto simp: tokens_move [OF i] card_1_singleton_iff)
  have "started n ph = {..<n}" using assms(1) one by (auto simp: part_inv_def)
  then show ?thesis using assms(1) cn one unfolding part_inv_def st'_def pipe_ready s t by auto
qed

text \<open>An invariant of phases and store that each of a worker's four moves keeps is one of the system.\<close>

definition sys_inv ::
  "((nat \<Rightarrow> phase) \<Rightarrow> store \<Rightarrow> bool) \<Rightarrow> string \<Rightarrow> string \<Rightarrow> string \<Rightarrow> nat \<Rightarrow> bool sys \<Rightarrow> bool" where
  "sys_inv I p m e n sys \<longleftrightarrow> length (fst sys) = n \<and>
     (\<exists>ph. (\<forall>i < n. fst sys ! i = prog_of p m e (int n) (ph i)) \<and> I ph (snd sys))"

lemma sys_inv_step:
  assumes "sys_inv I p m e n sys" and "tstep sys sys'"
    and increments: "\<And>ph st i. I ph st \<Longrightarrow> i < n \<Longrightarrow> ph i = Waiting \<Longrightarrow>
      I (ph(i := Counted (counter p m e st + 1))) (snd (store_step st (RIncr (EpochPartsCompleted (NewKeyBuilder p m) e))))"
    and writes: "\<And>ph st i c. I ph st \<Longrightarrow> i < n \<Longrightarrow> ph i = Counted c \<Longrightarrow> c \<noteq> int n \<Longrightarrow>
      I (ph(i := Counted_out True)) (snd (store_step st (RPipe (progress_calls (NewKeyBuilder p m) e c (int n)))))"
    and stamps: "\<And>ph st i t. I ph st \<Longrightarrow> i < n \<Longrightarrow> ph i = Counted (int n) \<Longrightarrow>
      I (ph(i := Stamped (int n) t)) (snd (store_step st Now))"
    and announces: "\<And>ph st i c t. I ph st \<Longrightarrow> i < n \<Longrightarrow> ph i = Stamped c t \<Longrightarrow>
      I (ph(i := Counted_out True)) (snd (store_step st (RPipe
        (progress_calls (NewKeyBuilder p m) e c (int n) @ ready_calls (NewKeyBuilder p m) e c t))))"
  shows "sys_inv I p m e n sys'"
proof -
  obtain ps st where sys: "sys = (ps, st)" by (cases sys)
  obtain ph where ps: "length ps = n" "\<And>i. i < n \<Longrightarrow> ps ! i = prog_of p m e (int n) (ph i)"
    and I: "I ph st"
    using assms(1) by (auto simp: sys_inv_def sys)
  from assms(2) [unfolded sys] obtain i c k where i: "i < length ps" and pk: "ps ! i = Call c k"
    and sys': "sys' = (ps[i := k (fst (store_step st c))], snd (store_step st c))"
    by (rule tstep_elim)
  have *: "sys_inv I p m e n sys'"
    if "k (fst (store_step st c)) = prog_of p m e (int n) x" "I (ph(i := x)) (snd (store_step st c))"
    for x
    unfolding sys_inv_def sys'
    using that ps i by (auto intro!: exI [of _ "ph(i := x)"] simp: nth_list_update)
  have pi: "Call c k = prog_of p m e (int n) (ph i)" and i': "i < n" using ps i pk by auto
  show ?thesis
  proof (cases "ph i")
    case Waiting
    with pi show ?thesis
      using increments [OF I i' Waiting]
      by (intro * [of "Counted (counter p m e st + 1)"]) (auto simp: count_part_def incr_step counter_def)
  next
    case (Counted x)
    show ?thesis
    proof (cases "x = int n")
      case True
      with pi Counted i' have "c = Now"
        "k (fst (store_step st c)) = prog_of p m e (int n) (Stamped (int n) (int_of (fst (store_step st Now))))"
        by (auto simp: UpdateBatchPartsProgress_def Let_def)
      with stamps [OF I i'] Counted True show ?thesis by (intro *) auto
    next
      case False
      with pi Counted have "c = RPipe (progress_calls (NewKeyBuilder p m) e x (int n))"
        "k (fst (store_step st c)) = prog_of p m e (int n) (Counted_out True)"
        by (auto simp: UpdateBatchPartsProgress_def Let_def pipe_progress)
      with writes [OF I i' Counted False] show ?thesis by (intro *) auto
    qed
  next
    case (Stamped x t)
    with pi have "c = RPipe (progress_calls (NewKeyBuilder p m) e x (int n) @ ready_calls (NewKeyBuilder p m) e x t)"
      "k (fst (store_step st c)) = prog_of p m e (int n) (Counted_out True)"
      by (auto simp: pipe_ready)
    with announces [OF I i' Stamped] show ?thesis by (intro *) auto
  next
    case (Counted_out b)
    with pi show ?thesis by simp
  qed
qed

definition fresh_epoch :: "string \<Rightarrow> string \<Rightarrow> string \<Rightarrow> store \<Rightarrow> bool" where
  "fresh_epoch p m e st \<longleftrightarrow> map_of (strs st) (EpochPartsCompleted (NewKeyBuilder p m) e) = None \<and>
     map_of (strs st) (EpochPartsReady (NewKeyBuilder p m) e) = None \<and>
     lists st (AggregationQueueLevel1 (NewKeyBuilder p m)) = []"

definition fresh_system :: "string \<Rightarrow> string \<Rightarrow> string \<Rightarrow> nat \<Rightarrow> store \<Rightarrow> bool sys" where
  "fresh_system p m e n st = (replicate n (count_part (NewKeyBuilder p m) p m e (int n)), st)"

lemma part_inv_init: "fresh_epoch p m e st \<Longrightarrow> part_inv p m e n (\<lambda>_. Waiting) st"
  by (simp add: part_inv_def fresh_epoch_def counter_def announced_def is_ready_def started_def tokens_def)

lemma reached_parts:
  assumes "fresh_epoch p m e st" and "reaches (fresh_system p m e n st) sys"
  shows "sys_inv (part_inv p m e n) p m e n sys"
proof (rule reaches_invariant [where I = "sys_inv (part_inv p m e n) p m e n", OF assms(2)])
  show "sys_inv (part_inv p m e n) p m e n (fresh_system p m e n st)"
    using part_inv_init [OF assms(1)] by (auto simp: sys_inv_def fresh_system_def intro!: exI [of _ "\<lambda>_. Waiting"])
qed (rule sys_inv_step, assumption+, (rule incr_inv write_inv stamp_inv announce_inv, assumption+)+)

text \<open>C10. However the workers of an epoch's parts interleave, the epoch is announced for aggregation at
  most once, and only when every part has been counted: the ready mark and the entry in the
  aggregation queue never come early or twice.\<close>

theorem ready_at_most_once_and_never_early:
  assumes "fresh_epoch p m e st"
    and "reaches (replicate n (count_part (NewKeyBuilder p m) p m e (int n)), st) (ps, st')"
  shows "length (lists st' (AggregationQueueLevel1 (NewKeyBuilder p m))) \<le> 1 \<and>
    (map_of (strs st') (EpochPartsReady (NewKeyBuilder p m) e) \<noteq> None \<or>
     lists st' (AggregationQueueLevel1 (NewKeyBuilder p m)) \<noteq> [] \<longrightarrow>
       count_part (NewKeyBuilder p m) p m e (int n) \<notin> set ps)"
proof -
  have "sys_inv (part_inv p m e n) p m e n (ps, st')"
    using reached_parts [OF assms(1), of n "(ps, st')"] assms(2) by (simp add: fresh_system_def)
  then obtain ph where ps: "length ps = n" "\<And>i. i < n \<Longrightarrow> ps ! i = prog_of p m e (int n) (ph i)"
    and I: "part_inv p m e n ph st'" by (auto simp: sys_inv_def)
  have "count_part (NewKeyBuilder p m) p m e (int n) \<notin> set ps" if "started n ph = {..<n}"
  proof
    assume "count_part (NewKeyBuilder p m) p m e (int n) \<in> set ps"
    then obtain i where "i < n" "prog_of p m e (int n) (ph i) = count_part (NewKeyBuilder p m) p m e (int n)"
      using ps by (auto simp: in_set_conv_nth)
    moreover have "ph i \<noteq> Waiting" using that \<open>i < n\<close> by (auto simp: started_def)
    ultimately show False
      by (cases "ph i") (auto simp: count_part_def UpdateBatchPartsProgress_def Let_def split: if_splits)
  qed
  with I show ?thesis by (auto simp: part_inv_def announced_def is_ready_def)
qed

text \<open>The other half fails: the write of an old count undoes a newer increment.\<close>

definition demo_parts :: "bool sys" where
  "demo_parts = (replicate 3 (count_part (NewKeyBuilder ''P'' ''M'') ''P'' ''M'' ''7'' 3), empty_store)"

theorem ready_at_most_once_and_never_early_witness:
  "length (lists (snd (play [0, 0, 1, 1, 2] demo_parts)) (AggregationQueueLevel1 (NewKeyBuilder ''P'' ''M''))) \<le> 1"
proof -
  have f: "fresh_epoch ''P'' ''M'' ''7'' empty_store" by (simp add: fresh_epoch_def empty_store_def)
  have "reaches (replicate 3 (count_part (NewKeyBuilder ''P'' ''M'') ''P'' ''M'' ''7'' (int 3)), empty_store)
      (fst (play [0, 0, 1, 1, 2] demo_parts), snd (play [0, 0, 1, 1, 2] demo_parts))"
    using play_reaches [of demo_parts "[0, 0, 1, 1, 2]"] by (simp add: demo_parts_def)
  from ready_at_most_once_and_never_early [OF f this] show ?thesis by blast
qed

definition incremented :: "string \<Rightarrow> string \<Rightarrow> string \<Rightarrow> store \<Rightarrow> store" where
  "incremented p m e st = snd (store_step st (RIncr (EpochPartsCompleted (NewKeyBuilder p m) e)))"

definition written :: "string \<Rightarrow> string \<Rightarrow> string \<Rightarrow> int \<Rightarrow> int \<Rightarrow> store \<Rightarrow> store" where
  "written p m e c n st = snd (store_step st (RPipe (progress_calls (NewKeyBuilder p m) e c n)))"

lemma play_increment:
  "i < length ps \<Longrightarrow> ps ! i = prog_of p m e n Waiting \<Longrightarrow>
   play (i # is) (ps, st) = play is (ps[i := prog_of p m e n (Counted (counter p m e st + 1))], incremented p m e st)"
  by (simp add: count_part_def incremented_def counter_def)

lemma play_write:
  "i < length ps \<Longrightarrow> ps ! i = prog_of p m e n (Counted c) \<Longrightarrow> c \<noteq> n \<Longrightarrow>
   play (i # is) (ps, st) = play is (ps[i := prog_of p m e n (Counted_out True)], written p m e c n st)"
  by (simp add: UpdateBatchPartsProgress_def Let_def written_def pipe_progress del: store_step.simps)

lemmas progress_view = incr_step [folded incremented_def] pipe_progress [folded written_def]

text \<open>Workers one after the other, each through both its calls, short of the full count.\<close>

lemma count_alone:
  assumes "i < length ps" and "ps ! i = prog_of p m e n Waiting" and "counter p m e st + 1 \<noteq> n"
  shows "\<exists>st'. reaches (ps, st) (ps[i := prog_of p m e n (Counted_out True)], st') \<and> counter p m e st' = counter p m e st + 1 \<and>
    announced p m st' = announced p m st \<and> is_ready p m e st' = is_ready p m e st"
proof -
  let ?c = "counter p m e st + 1"
  let ?st = "written p m e ?c n (incremented p m e st)"
  have "play [i, i] (ps, st) = (ps[i := prog_of p m e n (Counted_out True)], ?st)"
    using assms by (simp add: play_increment [where n = n] play_write [where n = n] del: prog_of.simps play.simps(2))
  then have "reaches (ps, st) (ps[i := prog_of p m e n (Counted_out True)], ?st)" using play_reaches by metis
  then show ?thesis by (intro exI [of _ ?st]) (simp add: progress_view)
qed

lemma count_in_turn:
  assumes "distinct is" and "\<And>i. i \<in> set is \<Longrightarrow> i < length ps \<and> ps ! i = prog_of p m e n Waiting"
    and "counter p m e st + int (length is) < n"
  shows "\<exists>ps' st'. reaches (ps, st) (ps', st') \<and> length ps' = length ps \<and>
    (\<forall>i < length ps. ps' ! i = (if i \<in> set is then prog_of p m e n (Counted_out True) else ps ! i)) \<and>
    counter p m e st' = counter p m e st + int (length is) \<and>
    announced p m st' = announced p m st \<and> is_ready p m e st' = is_ready p m e st"
  using assms
proof (induction "is" arbitrary: ps st)
  case Nil
  then show ?case by (intro exI [of _ ps] exI [of _ st]) simp
next
  case (Cons i "is")
  obtain st1 where 1: "reaches (ps, st) (ps[i := prog_of p m e n (Counted_out True)], st1)" "counter p m e st1 = counter p m e st + 1"
    "announced p m st1 = announced p m st" "is_ready p m e st1 = is_ready p m e st"
    using count_alone [of i ps p m e n st] Cons.prems by auto
  have "\<And>j. j \<in> set is \<Longrightarrow> j < length (ps[i := prog_of p m e n (Counted_out True)]) \<and>
      ps[i := prog_of p m e n (Counted_out True)] ! j = prog_of p m e n Waiting"
    using Cons.prems(1,2) by (auto simp: nth_list_update)
  moreover have "counter p m e st1 + int (length is) < n" using Cons.prems(3) 1(2) by simp
  moreover have "distinct is" using Cons.prems(1) by simp
  ultimately obtain ps' st' where
    2: "reaches (ps[i := prog_of p m e n (Counted_out True)], st1) (ps', st')" "length ps' = length ps"
      "\<forall>j < length ps. ps' ! j = (if j \<in> set is then prog_of p m e n (Counted_out True) else ps[i := prog_of p m e n (Counted_out True)] ! j)"
      "counter p m e st' = counter p m e st1 + int (length is)" "announced p m st' = announced p m st1" "is_ready p m e st' = is_ready p m e st1"
    using Cons.IH [of "ps[i := prog_of p m e n (Counted_out True)]" st1] unfolding length_list_update by blast
  have "reaches (ps, st) (ps', st')" using 1(1) 2(1) by (rule rtranclp_trans)
  then show ?case using 1 2 by (intro exI [of _ ps'] exI [of _ st']) (auto simp: nth_list_update)
qed

text \<open>Worker 1 counts two parts, worker 0 writes its count of one over it, and the others never make up for it.\<close>

lemma stranding_run:
  assumes "fresh_epoch p m e st" and "3 \<le> n"
  shows "\<exists>sys'. reaches (fresh_system p m e n st) sys' \<and> all_done sys' \<and>
    \<not> is_ready p m e (snd sys') \<and> announced p m (snd sys') = 0 \<and> counter p m e (snd sys') = int n - 1"
proof -
  let ?P = "prog_of p m e (int n)"
  let ?done = "?P (Counted_out True)"
  define ps where "ps = replicate n (?P Waiting)"
  define st4 where "st4 = written p m e 1 (int n) (written p m e 2 (int n) (incremented p m e (incremented p m e st)))"
  have c: "counter p m e st = 0" "announced p m st = 0" "\<not> is_ready p m e st"
    using assms(1) by (simp_all add: fresh_epoch_def counter_def announced_def is_ready_def)
  have n: "0 < n" "1 < n" "int n \<noteq> 1" "int n \<noteq> 2" using assms(2) by auto
  have "play [0, 1, 1, 0] (ps, st) = (ps[0 := ?P (Counted 1), 1 := ?P (Counted 2), 1 := ?done, 0 := ?done], st4)"
    using n by (simp add: ps_def st4_def play_increment [where p = p and m = m and e = e and n = "int n"]
        play_write [where p = p and m = m and e = e and n = "int n"] progress_view c nth_list_update
        del: prog_of.simps play.simps(2))
  then have 1: "reaches (ps, st) (ps[0 := ?P (Counted 1), 1 := ?P (Counted 2), 1 := ?done, 0 := ?done], st4)"
    using play_reaches by metis
  have c4: "counter p m e st4 = 1" "announced p m st4 = 0" "\<not> is_ready p m e st4"
    by (simp_all add: st4_def progress_view c)
  define qs where "qs = ps[0 := ?P (Counted 1), 1 := ?P (Counted 2), 1 := ?done, 0 := ?done]"
  have qs: "length qs = n" "\<And>i. i < n \<Longrightarrow> qs ! i = (if i < 2 then ?done else ?P Waiting)"
    by (auto simp: qs_def ps_def nth_list_update less_2_cases_iff)
  have "\<And>i. i \<in> set [2..<n] \<Longrightarrow> i < length qs \<and> qs ! i = ?P Waiting" by (simp add: qs)
  moreover have "counter p m e st4 + int (length [2..<n]) < int n" using c4(1) assms(2) by simp
  ultimately obtain ps' st' where
    2: "reaches (qs, st4) (ps', st')" "length ps' = length qs"
      "\<forall>i < length qs. ps' ! i = (if i \<in> set [2..<n] then ?done else qs ! i)"
      "counter p m e st' = counter p m e st4 + int (length [2..<n])" "announced p m st' = announced p m st4"
      "is_ready p m e st' = is_ready p m e st4"
    using count_in_turn [where st = st4 and ps = qs] distinct_upt by blast
  have "ps' ! i = Ret True" if "i < n" for i
    using 2(3) that by (auto simp: qs)
  then have "all_done (ps', st')" using 2(2) by (simp add: all_done_def list_all_length qs)
  moreover have "reaches (fresh_system p m e n st) (ps', st')"
    using rtranclp_trans [OF 1 [folded qs_def] 2(1)] by (simp add: fresh_system_def ps_def)
  moreover have "counter p m e st' = int n - 1" using 2(4) c4(1) assms(2) by simp
  ultimately show ?thesis using 2(5,6) c4 by (intro exI [of _ "(ps', st')"]) simp
qed

text \<open>With one or two parts no update is lost: as long as nobody carries the full count, the counter is the number of those
  who have counted, and somebody has not.\<close>

definition few_inv :: "string \<Rightarrow> string \<Rightarrow> string \<Rightarrow> nat \<Rightarrow> (nat \<Rightarrow> phase) \<Rightarrow> store \<Rightarrow> bool" where
  "few_inv p m e n ph st \<longleftrightarrow> (announced p m st = 0 \<and> tokens n ph = {} \<longrightarrow>
     card (started n ph) < n \<and> counter p m e st = int (card (started n ph)) \<and>
     (\<forall>i < n. \<forall>c. ph i = Counted c \<longrightarrow> c = counter p m e st))"

lemma few_step:
  assumes "sys_inv (few_inv p m e n) p m e n sys" and "tstep sys sys'" and "n \<le> 2"
  shows "sys_inv (few_inv p m e n) p m e n sys'"
proof (rule sys_inv_step [OF assms(1,2)])
  fix ph st i
  assume I: "few_inv p m e n ph st" and i: "i < n" and w: "ph i = Waiting"
  let ?c = "counter p m e st + 1"
  have ni: "i \<notin> started n ph" "i \<notin> tokens n ph" using w by (auto simp: started_def tokens_def)
  have card: "card (started n (ph(i := Counted ?c))) = Suc (card (started n ph))" using ni by (simp add: started_move [OF i])
  show "few_inv p m e n (ph(i := Counted ?c)) (snd (store_step st (RIncr (EpochPartsCompleted (NewKeyBuilder p m) e))))"
  proof (cases "?c = int n")
    case True
    then show ?thesis using i by (simp add: few_inv_def tokens_move)
  next
    case False
    have t: "tokens n (ph(i := Counted ?c)) = tokens n ph" using False ni i by (simp add: tokens_move)
    show ?thesis
      unfolding few_inv_def incr_step t card
    proof (intro impI)
      assume "announced p m st = 0 \<and> tokens n ph = {}"
      then have c: "counter p m e st = int (card (started n ph))" "card (started n ph) < n" using I by (simp_all add: few_inv_def)
      then have z: "card (started n ph) = 0" "1 < n" using False assms(3) by linarith+
      then have "ph j = Waiting" if "j < n" for j using that by (auto simp: started_def)
      then show "Suc (card (started n ph)) < n \<and> ?c = int (Suc (card (started n ph))) \<and>
          (\<forall>j < n. \<forall>c. (ph(i := Counted ?c)) j = Counted c \<longrightarrow> c = ?c)"
        using c z by auto
    qed
  qed
next
  fix ph st i c
  assume I: "few_inv p m e n ph st" and i: "i < n" and c: "ph i = Counted c" "c \<noteq> int n"
  have s: "started n (ph(i := Counted_out True)) = started n ph" using i c(1) by (auto simp: started_def)
  have t: "tokens n (ph(i := Counted_out True)) = tokens n ph" using i c by (auto simp: tokens_def)
  show "few_inv p m e n (ph(i := Counted_out True)) (snd (store_step st (RPipe (progress_calls (NewKeyBuilder p m) e c (int n)))))"
    unfolding few_inv_def pipe_progress s t
  proof (intro impI)
    assume "announced p m st = 0 \<and> tokens n ph = {}"
    then have "card (started n ph) < n" "counter p m e st = int (card (started n ph))" "c = counter p m e st"
      "\<And>j d. j < n \<Longrightarrow> ph j = Counted d \<Longrightarrow> d = counter p m e st" using I i c(1) by (auto simp: few_inv_def)
    then show "card (started n ph) < n \<and> c = int (card (started n ph)) \<and>
        (\<forall>j < n. \<forall>d. (ph(i := Counted_out True)) j = Counted d \<longrightarrow> d = c)" by simp
  qed
next
  fix ph st i t
  assume "i < n"
  then show "few_inv p m e n (ph(i := Stamped (int n) t)) (snd (store_step st Now))" by (simp add: few_inv_def tokens_move)
next
  fix ph st i c t
  show "few_inv p m e n (ph(i := Counted_out True)) (snd (store_step st (RPipe
      (progress_calls (NewKeyBuilder p m) e c (int n) @ ready_calls (NewKeyBuilder p m) e c t))))"
    by (simp only: few_inv_def pipe_ready) simp
qed

lemma few_announce:
  assumes "fresh_epoch p m e st" and "reaches (fresh_system p m e n st) sys'" and "all_done sys'" and "0 < n" and "n \<le> 2"
  shows "announced p m (snd sys') \<noteq> 0"
proof -
  have "sys_inv (few_inv p m e n) p m e n sys'"
  proof (rule reaches_invariant [where I = "sys_inv (few_inv p m e n) p m e n", OF assms(2)])
    have "few_inv p m e n (\<lambda>_. Waiting) st"
      using assms(1,4) by (simp add: few_inv_def fresh_epoch_def counter_def started_def)
    then show "sys_inv (few_inv p m e n) p m e n (fresh_system p m e n st)"
      by (auto simp: sys_inv_def fresh_system_def intro!: exI [of _ "\<lambda>_. Waiting"])
  qed (rule few_step [OF _ _ assms(5)])
  then obtain ph where ph: "length (fst sys') = n" "\<And>i. i < n \<Longrightarrow> fst sys' ! i = prog_of p m e (int n) (ph i)"
    and I: "few_inv p m e n ph (snd sys')" by (auto simp: sys_inv_def)
  have out: "\<exists>b. ph i = Counted_out b" if "i < n" for i
  proof -
    have "finished (prog_of p m e (int n) (ph i))" using assms(3) ph that by (simp add: all_done_def list_all_length)
    then show ?thesis by (cases "ph i") (simp_all add: count_part_def UpdateBatchPartsProgress_def Let_def split: if_splits)
  qed
  then have "tokens n ph = {}" "started n ph = {..<n}" by (fastforce simp: tokens_def started_def)+
  then show ?thesis using I by (auto simp: few_inv_def)
qed

text \<open>C15. Lost updates can strand an epoch: the workers of an epoch's parts can interleave so that all of them finish and the
  epoch is never announced, exactly when there are at least three parts; with three or more there is a run that leaves the
  counter one short, whatever the epoch and the store it starts from, and with one or two every run that finishes announces it.\<close>

theorem lost_update_strands_epoch:
  assumes "fresh_epoch p m e st" and "0 < n"
  shows "((\<exists>ps st'. reaches (replicate n (count_part (NewKeyBuilder p m) p m e (int n)), st) (ps, st') \<and> all_done (ps, st') \<and>
      lists st' (AggregationQueueLevel1 (NewKeyBuilder p m)) = []) \<longleftrightarrow> 3 \<le> n) \<and>
    (3 \<le> n \<longrightarrow> (\<exists>ps st'. reaches (replicate n (count_part (NewKeyBuilder p m) p m e (int n)), st) (ps, st') \<and> all_done (ps, st') \<and>
      lists st' (AggregationQueueLevel1 (NewKeyBuilder p m)) = [] \<and>
      map_of (strs st') (EpochPartsReady (NewKeyBuilder p m) e) = None \<and> counter p m e st' = int n - 1))"
proof -
  have "3 \<le> n" if "reaches (fresh_system p m e n st) (ps, st')" "all_done (ps, st')"
    "lists st' (AggregationQueueLevel1 (NewKeyBuilder p m)) = []" for ps st'
    using few_announce [OF assms(1) that(1,2) assms(2)] that(3) by (fastforce simp: announced_def)
  moreover have "\<exists>ps st'. reaches (fresh_system p m e n st) (ps, st') \<and> all_done (ps, st') \<and>
      lists st' (AggregationQueueLevel1 (NewKeyBuilder p m)) = [] \<and>
      map_of (strs st') (EpochPartsReady (NewKeyBuilder p m) e) = None \<and> counter p m e st' = int n - 1" if "3 \<le> n"
    using stranding_run [OF assms(1) that] by (auto simp: announced_def is_ready_def)
  ultimately show ?thesis unfolding fresh_system_def by blast
qed

theorem lost_update_strands_epoch_witness:
  "\<exists>ps st'. reaches (replicate 3 (count_part (NewKeyBuilder ''P'' ''M'') ''P'' ''M'' ''7'' 3), empty_store) (ps, st') \<and> all_done (ps, st') \<and>
     lists st' (AggregationQueueLevel1 (NewKeyBuilder ''P'' ''M'')) = []"
proof -
  have "fresh_epoch ''P'' ''M'' ''7'' empty_store" by (simp add: fresh_epoch_def empty_store_def)
  from lost_update_strands_epoch [OF this, of 3] show ?thesis by fastforce
qed

lemma count_part_final:
  assumes "counter p m e st = int j" and "j < n"
  defines "st' \<equiv> final store_step (count_part (NewKeyBuilder p m) p m e (int n)) st"
  shows "counter p m e st' = int (Suc j)"
    "announced p m st' = announced p m st + (if Suc j = n then 1 else 0)"
    "Suc j = n \<Longrightarrow> is_ready p m e st'"
proof -
  let ?s = "snd (store_step st (RIncr (EpochPartsCompleted (NewKeyBuilder p m) e)))"
  have "st' = final store_step (UpdateBatchPartsProgress p m e (int (Suc j)) (int n)) ?s"
    using assms(1) unfolding st'_def count_part_def run_Call incr_step(1) by (simp add: add.commute)
  moreover have "announced p m ?s = announced p m st" by (rule incr_step)
  ultimately show "counter p m e st' = int (Suc j)"
    "announced p m st' = announced p m st + (if Suc j = n then 1 else 0)"
    "Suc j = n \<Longrightarrow> is_ready p m e st'"
    by (auto simp: UpdateBatchPartsProgress_def Let_def run_Call pipe_progress pipe_ready now_step
        simp del: store_step.simps)
qed

definition count_next :: "string \<Rightarrow> string \<Rightarrow> string \<Rightarrow> nat \<Rightarrow> store \<Rightarrow> store" where
  "count_next p m e n st = final store_step (count_part (NewKeyBuilder p m) p m e (int n)) st"

text \<open>Parts counted one after the other do announce their epoch, exactly once, with the last.\<close>

theorem sequential_parts_announce:
  assumes "fresh_epoch p m e st" and "0 < n"
  shows "announced p m ((count_next p m e n ^^ n) st) = 1 \<and> is_ready p m e ((count_next p m e n ^^ n) st) \<and>
    (\<forall>j < n. announced p m ((count_next p m e n ^^ j) st) = 0)"
proof -
  have *: "counter p m e ((count_next p m e n ^^ j) st) = int j \<and> (j < n \<longrightarrow> announced p m ((count_next p m e n ^^ j) st) = 0)"
    if "j \<le> n" for j
    using that
  proof (induction j)
    case 0
    show ?case using assms(1) by (simp add: fresh_epoch_def counter_def announced_def)
  next
    case (Suc j)
    then show ?case using count_part_final [of p m e "(count_next p m e n ^^ j) st" j n] by (simp flip: count_next_def)
  qed
  obtain j where "n = Suc j" using assms(2) by (cases n) auto
  then have j: "(count_next p m e n ^^ n) st = count_next p m e n ((count_next p m e n ^^ j) st)"
      "Suc j = n" "j < n" by simp_all
  have "announced p m ((count_next p m e n ^^ n) st) = 1 \<and> is_ready p m e ((count_next p m e n ^^ n) st)"
    using * [of j] count_part_final [of p m e "(count_next p m e n ^^ j) st" j n] j(2,3)
    unfolding j(1) by (simp flip: count_next_def)
  with * show ?thesis by simp
qed

theorem sequential_parts_announce_witness:
  "announced ''P'' ''M'' ((count_next ''P'' ''M'' ''7'' 2 ^^ 2) empty_store) = 1"
proof -
  have "fresh_epoch ''P'' ''M'' ''7'' empty_store" by (simp add: fresh_epoch_def empty_store_def)
  from sequential_parts_announce [OF this, of 2] show ?thesis by (simp only: zero_less_numeral simp_thms)
qed

end
