(* ===== verification/Finalizer.thy ===== *)
theory Finalizer
  imports Progress Tally GoText Eip712
begin

text \<open>
  \<open>cmd/unified/main.go\<close>, the finalizer: \<open>runFinalizationWorker\<close> pops a part of an epoch's
  batch from the queue and \<open>processBatchPart\<close> selects each project's CID by votes, stores the
  result under the part's key and counts the part. The type assertions that panic, the index
  into the configured markets and the slice in the last log line are kept.
\<close>

record finConfig =
  finKeys :: keyBuilder
  finProtocolState :: string
  finDataMarkets :: "string list"
  finSequencerID :: string

section \<open>Selecting a winner\<close>

text \<open>One project's loop over its votes: the CID with strictly more votes than any before, from
  no CID with none.\<close>

definition select_step :: "string \<times> int \<Rightarrow> string \<times> int \<Rightarrow> string \<times> int" where
  "select_step entry best = (if snd best < snd entry then entry else best)"

definition select_winner :: "(string \<times> int) list \<Rightarrow> string \<times> int" where
  "select_winner votes = fold select_step votes ('''', 0)"

interpretation finalizer_pick: plurality select_winner
  by unfold_locales (simp_all add: select_winner_def select_step_def)

text \<open>The votes of a project: entries that are not numbers are left out.\<close>

definition cid_votes_of :: "golib \<Rightarrow> (string, json) gomap \<Rightarrow> (string, int) gomap" where
  "cid_votes_of L m = List.map_filter (\<lambda>(cid, j). map_option (\<lambda>n. (cid, int_of_float L n)) (as_num j)) m"

record selection =
  selCid :: string
  selVotes :: int
  selTotal :: int
  selUnique :: nat
  selMetadata :: "json list"

definition enc_selection :: "selection \<Rightarrow> json" where
  "enc_selection s = JObj [(''cid'', JStr (selCid s)), (''votes'', JNum (selVotes s)),
     (''total_votes'', JNum (selTotal s)), (''unique_cids'', JNum (int (selUnique s))),
     (''submission_metadata'', if selMetadata s = [] then JNull else JArr (selMetadata s))]"

definition select_project :: "golib \<Rightarrow> range_order \<Rightarrow> json \<Rightarrow> selection option" where
  "select_project L ro data =
     (case as_obj data of
        None \<Rightarrow> None
      | Some projectData \<Rightarrow>
          (case get_obj ''cid_votes'' projectData of
             None \<Rightarrow> None
           | Some raw \<Rightarrow>
               (let votes = cid_votes_of L raw;
                    visited = range_map ro ''cidVotes'' votes;
                    (winner, maxVotes) = select_winner visited in
                if winner = [] then None
                else Some \<lparr>selCid = winner, selVotes = maxVotes, selTotal = sum_list (map snd visited),
                       selUnique = length votes,
                       selMetadata = (case get_arr ''submission_metadata'' projectData of
                         None \<Rightarrow> [] | Some a \<Rightarrow> a)\<rparr>)))"

definition part_results :: "golib \<Rightarrow> range_order \<Rightarrow> (string, json) gomap \<Rightarrow> (string, selection) gomap" where
  "part_results L ro projects =
     fold (\<lambda>(p, data) acc. case select_project L ro data of
        None \<Rightarrow> acc | Some s \<Rightarrow> AList.update p s acc)
       (range_map ro ''projects'' projects) []"

section \<open>Storing a part\<close>

definition part_metrics ::
  "finConfig \<Rightarrow> u64 \<Rightarrow> int \<Rightarrow> int \<Rightarrow> nat \<Rightarrow> int \<Rightarrow> call list" where
  "part_metrics f epochID batchID totalBatches projectCount now =
     (let e = show_u64 epochID; partID = e @ '':'' @ show_int batchID;
          partsKey = ''metrics:epoch:'' @ e @ '':parts'' in
      [RHIncrBy partsKey ''count'' 1,
       RExpire partsKey 7200,
       RSet (''metrics:part:'' @ partID)
         (Js (JObj [(''epoch_id'', JNum (uint epochID)), (''batch_id'', JNum batchID),
            (''total_batches'', JNum totalBatches), (''project_count'', JNum (int projectCount)),
            (''finalizer_id'', JStr (finSequencerID f)), (''timestamp'', JNum now)])) 3600,
       RZAdd ''metrics:parts:timeline'' now partID,
       RPublish ''state:change'' (''part:created:'' @ partID)])"

text \<open>The first three results are logged with the first sixteen characters of their CID.\<close>

definition log_results :: "range_order \<Rightarrow> (string, selection) gomap \<Rightarrow> unit prog" where
  "log_results ro results =
     for_each (\<lambda>(p, s) u. or_panic (slice_to 16 (selCid s)) (\<lambda>_. Ret ()))
       (take 3 (range_map ro ''partResults'' results)) ()"

definition processBatchPart ::
  "golib \<Rightarrow> range_order \<Rightarrow> finConfig \<Rightarrow> u64 \<Rightarrow> int \<Rightarrow> int \<Rightarrow> (string, json) gomap \<Rightarrow> bool prog" where
  "processBatchPart L ro f epochID batchID totalBatches projects =
     (let epochStr = show_u64 epochID; results = part_results L ro projects in
      bindp (TrackBatchPart epochStr batchID ''processing'') (\<lambda>_.
      Call (RSet (BatchPart (finKeys f) epochStr batchID)
             (Js (JObj (map (\<lambda>(p, s). (p, enc_selection s)) results))) 7200) (\<lambda>r.
      if r = ErrR then Ret False
      else
        bindp (TrackBatchPart epochStr batchID ''completed'') (\<lambda>_.
        Call Now (\<lambda>t.
        Call (RPipe (part_metrics f epochID batchID totalBatches (length projects) (int_of t))) (\<lambda>_.
        case finDataMarkets f of
          [] \<Rightarrow> Call (RIncr (EpochPartsCompleted (finKeys f) epochStr)) (\<lambda>_. Panic)
        | market # _ \<Rightarrow>
            bindp (count_part (finKeys f) (finProtocolState f) market epochStr totalBatches) (\<lambda>_.
            bindp (log_results ro results) (\<lambda>_. Ret True))))))))"

section \<open>The worker\<close>

text \<open>\<open>parseEpochID\<close>: a decimal \<open>uint64\<close>, or the integer part of a float in range.
  The range check is against \<open>float64(2 ^ 64 - 1)\<close>, which is \<open>2 ^ 64\<close>.\<close>

definition parseEpochID :: "golib \<Rightarrow> string \<Rightarrow> u64 option" where
  "parseEpochID L s =
     (case parse_uint s of
        Some e \<Rightarrow> Some e
      | None \<Rightarrow>
          (case parse_float s of
             None \<Rightarrow> None
           | Some (neg, n) \<Rightarrow>
               if (neg \<and> 0 < n) \<or> 2 ^ 64 < n then None else Some (u64_of_float L (int n))))"

definition epoch_text :: "json option \<Rightarrow> string option" where
  "epoch_text j = (case j of
       Some (JStr s) \<Rightarrow> Some s
     | Some (JNum n) \<Rightarrow> Some (show_int (f64 n))
     | _ \<Rightarrow> None)"

definition finalize_popped ::
  "golib \<Rightarrow> range_order \<Rightarrow> finConfig \<Rightarrow> workerMonitor \<Rightarrow> blob \<Rightarrow> unit prog" where
  "finalize_popped L ro f wm data =
     (case unmarshal data of
        Some (JObj part) \<Rightarrow>
          (case epoch_text (map_of part ''epoch_id'') of
             None \<Rightarrow> Ret ()
           | Some epochIDStr \<Rightarrow>
               let epochID = (case parseEpochID L epochIDStr of None \<Rightarrow> 0 | Some e \<Rightarrow> e) in
               or_panic (get_num ''batch_id'' part) (\<lambda>b.
               or_panic (get_num ''total_batches'' part) (\<lambda>t.
               case get_obj ''projects'' part of
                 None \<Rightarrow> Ret ()
               | Some projects \<Rightarrow>
                   let batchID = int_of_float L b; totalBatches = int_of_float L t in
                   bindp (ProcessingStarted wm (''epoch:'' @ show_u64 epochID @ '':batch:'' @ show_int batchID @
                     ''/'' @ show_int totalBatches)) (\<lambda>_.
                   bindp (processBatchPart L ro f epochID batchID totalBatches projects) (\<lambda>ok.
                   if ok then ProcessingCompleted wm
                   else ProcessingFailed wm ''failed to store batch part'')))))
      | _ \<Rightarrow> Ret ())"

definition finalizer_round ::
  "golib \<Rightarrow> range_order \<Rightarrow> finConfig \<Rightarrow> workerMonitor \<Rightarrow> unit prog" where
  "finalizer_round L ro f wm =
     Call (RBRPop (FinalizationQueue (finKeys f))) (\<lambda>r.
       case r of BlobR data \<Rightarrow> finalize_popped L ro f wm data | _ \<Rightarrow> Ret ())"

section \<open>The selection is a plurality\<close>

lemma go_ok_cid_votes: "go_ok m \<Longrightarrow> go_ok (cid_votes_of L m)"
proof -
  have sub: "fst ` set (cid_votes_of L m) \<subseteq> fst ` set m" for m
    by (induction m) (auto simp: cid_votes_of_def map_filter_simps split: option.splits)
  show "go_ok m \<Longrightarrow> go_ok (cid_votes_of L m)"
  proof (induction m)
    case (Cons x m)
    have "fst x \<notin> fst ` set (cid_votes_of L m)" using sub [of m] Cons.prems by (auto simp: go_ok_def)
    moreover have "cid_votes_of L (x # m) =
        (case as_num (snd x) of None \<Rightarrow> [] | Some n \<Rightarrow> [(fst x, int_of_float L n)]) @ cid_votes_of L m"
      by (auto simp: cid_votes_of_def map_filter_simps split: option.splits prod.splits)
    ultimately show ?case using Cons by (auto simp: go_ok_def split: option.splits)
  qed (simp add: cid_votes_of_def map_filter_simps)
qed

definition votes_in :: "golib \<Rightarrow> json \<Rightarrow> (string, int) gomap" where
  "votes_in L data = (case Option.bind (as_obj data) (get_obj ''cid_votes'') of
     None \<Rightarrow> [] | Some raw \<Rightarrow> cid_votes_of L raw)"

lemma select_project_winner:
  "select_project L ro data = Some s \<Longrightarrow>
     select_winner (range_map ro ''cidVotes'' (votes_in L data)) = (selCid s, selVotes s) \<and> selCid s \<noteq> []"
  by (auto simp: select_project_def votes_in_def Let_def split: option.splits prod.splits if_splits)

lemma select_project_total:
  "select_project L ro data = Some s \<Longrightarrow>
     selTotal s = sum_list (map snd (range_map ro ''cidVotes'' (votes_in L data))) \<and>
     selUnique s = length (votes_in L data)"
  by (auto simp: select_project_def votes_in_def Let_def split: option.splits prod.splits if_splits)

lemma sum_list_range: "go_ok m \<Longrightarrow> sum_list (map snd (range_map ro t m)) = (sum_list (map snd m) :: int)"
proof -
  assume "go_ok m"
  then have "mset (map snd (range_map ro t m)) = mset (map snd m)"
    using mset_range_map [of m ro t] by simp
  then show ?thesis by (metis sum_mset_sum_list)
qed

lemma selected_winner:
  assumes "select_project L ro data = Some s" and "go_ok (votes_in L data)"
  shows "map_of (votes_in L data) (selCid s) = Some (selVotes s) \<and> 0 < selVotes s \<and>
    (\<forall>(c, n) \<in> set (votes_in L data). n \<le> selVotes s) \<and>
    selTotal s = sum_list (map snd (votes_in L data)) \<and> selUnique s = length (votes_in L data) \<and>
    (\<forall>c n. map_of (votes_in L data) c = Some n \<longrightarrow>
       (\<forall>(c', n') \<in> set (votes_in L data). c' \<noteq> c \<longrightarrow> n' < n) \<longrightarrow> 0 < n \<longrightarrow> selCid s = c)"
proof -
  let ?v = "votes_in L data" and ?r = "range_map ro ''cidVotes'' (votes_in L data)"
  have w: "select_winner ?r = (selCid s, selVotes s)" and ne: "selCid s \<noteq> []"
    using select_project_winner [OF assms(1)] by simp_all
  have pos: "0 < selVotes s"
    using finalizer_pick.votes_nonneg [of ?r] finalizer_pick.no_votes [of ?r] w ne by fastforce
  have "(selCid s, selVotes s) \<in> set ?v"
    using finalizer_pick.winner_in [of ?r] w pos set_range_map [OF assms(2)] by fastforce
  then have m: "map_of ?v (selCid s) = Some (selVotes s)"
    using assms(2) by (simp add: go_ok_def)
  have mx: "\<forall>(c, n) \<in> set ?v. n \<le> selVotes s"
    using finalizer_pick.votes_max [of _ _ ?r] w set_range_map [OF assms(2)] by fastforce
  have lead: "selCid s = c"
    if "map_of ?v c = Some n" "\<forall>(c', n') \<in> set ?v. c' \<noteq> c \<longrightarrow> n' < n" "0 < n" for c n
    using finalizer_pick.strict_leader_range [OF assms(2) map_of_SomeD [OF that(1)] that(3)] that(2) w
    by fastforce
  show ?thesis
    using m pos mx lead select_project_total [OF assms(1)] sum_list_range [OF assms(2)] by auto
qed

text \<open>A project's part result names a CID with the most votes, a positive number of them, next to
  the sum of all votes and the number of CIDs, in whatever order the votes are visited; a CID with
  strictly more votes than every other is the one named in every order.\<close>

theorem selected_cid_is_plurality:
  assumes "select_project L ro data = Some s" and "go_ok (votes_in L data)"
  shows "map_of (votes_in L data) (selCid s) = Some (selVotes s) \<and> 0 < selVotes s \<and>
    (\<forall>(c, n) \<in> set (votes_in L data). n \<le> selVotes s) \<and>
    selTotal s = sum_list (map snd (votes_in L data)) \<and> selUnique s = length (votes_in L data) \<and>
    (\<forall>c n. map_of (votes_in L data) c = Some n \<longrightarrow>
       (\<forall>(c', n') \<in> set (votes_in L data). c' \<noteq> c \<longrightarrow> n' < n) \<longrightarrow> 0 < n \<longrightarrow> selCid s = c)"
  by (rule selected_winner [OF assms])

definition demo_votes :: json where
  "demo_votes = JObj [(''cid_votes'', JObj [(''QmA'', JNum 2), (''QmB'', JNum 5), (''QmC'', JStr ''x'')])]"

lemma demo_votes_in: "votes_in demo_lib demo_votes = [(''QmA'', 2), (''QmB'', 5)]"
  by (simp add: votes_in_def demo_votes_def get_obj_def cid_votes_of_def map_filter_simps int_of_float_def f64_exact)

theorem selected_cid_is_plurality_witness:
  "\<exists>s. select_project demo_lib in_order demo_votes = Some s \<and> selTotal s = 7"
proof -
  have "select_winner (range_map in_order ''cidVotes'' [(''QmA'', 2), (''QmB'', 5)]) = (''QmB'', 5)"
    by (simp add: select_winner_def select_step_def range_map_def)
  then have "\<exists>s. select_project demo_lib in_order demo_votes = Some s"
    using demo_votes_in by (simp add: select_project_def votes_in_def demo_votes_def get_obj_def Let_def)
  then obtain s where s: "select_project demo_lib in_order demo_votes = Some s" ..
  have "go_ok (votes_in demo_lib demo_votes)" by (simp add: demo_votes_in go_ok_def)
  from selected_cid_is_plurality [OF s this] s show ?thesis by (simp add: demo_votes_in)
qed

lemma part_results_fold:
  assumes "distinct (map fst xs)"
  shows "map_of (fold (\<lambda>(p, data) acc. case select_project L ro data of
        None \<Rightarrow> acc | Some s \<Rightarrow> AList.update p s acc) xs acc) p =
     (case map_of xs p of
        None \<Rightarrow> map_of acc p
      | Some data \<Rightarrow> (case select_project L ro data of None \<Rightarrow> map_of acc p | Some s \<Rightarrow> Some s))"
  using assms
proof (induction xs arbitrary: acc)
  case (Cons x xs)
  obtain q d where x: "x = (q, d)" by (cases x)
  have "map_of xs q = None" using Cons.prems by (auto simp: x map_of_eq_None_iff)
  with Cons show ?case
    by (auto simp: x gomap_simps split: option.splits)
qed simp

text \<open>A part's results are the winners of its projects: a project appears when its votes select a CID,
  with the selection of its own data, and no other project appears, in whatever order the projects
  are visited.\<close>

theorem part_results_pointwise:
  assumes "go_ok projects"
  shows "map_of (part_results L ro projects) p =
    Option.bind (map_of projects p) (select_project L ro)"
proof -
  have "distinct (map fst (range_map ro ''projects'' projects))"
    using assms go_ok_range_map unfolding go_ok_def by blast
  then show ?thesis
    by (simp add: part_results_def part_results_fold map_of_range_map [OF assms] split: option.split)
qed

theorem part_results_pointwise_witness:
  "map_of (part_results demo_lib in_order [(''p'', demo_votes), (''q'', JNull)]) ''q'' = None"
  by (subst part_results_pointwise) (auto simp: go_ok_def select_project_def)

section \<open>A part is stored before it is counted\<close>

text \<open>A finalizer counts a part as completed only after storing its results: whatever the surroundings
  answer, every increment of the completed counter comes after the write of the part's results and
  of its completed mark, and a part whose write fails is never counted.\<close>

theorem part_stored_before_counted:
  assumes "RIncr (EpochPartsCompleted (finKeys f) (show_u64 e)) \<in>
      set (trace R (processBatchPart L ro f e b n projects) s)"
  shows "\<exists>pre mid post. trace R (processBatchPart L ro f e b n projects) s = pre @
       [RSet (BatchPart (finKeys f) (show_u64 e) b)
          (Js (JObj (map (\<lambda>(p, x). (p, enc_selection x)) (part_results L ro projects)))) 7200,
        RSet (BatchPartStatus (show_u64 e) b) (Txt ''completed'') 7200] @ mid @
       RIncr (EpochPartsCompleted (finKeys f) (show_u64 e)) # post \<and>
     RIncr (EpochPartsCompleted (finKeys f) (show_u64 e)) \<notin> set (pre @ mid)"
proof -
  let ?I = "RIncr (EpochPartsCompleted (finKeys f) (show_u64 e))"
  let ?S = "RSet (BatchPart (finKeys f) (show_u64 e) b)
          (Js (JObj (map (\<lambda>(p, x). (p, enc_selection x)) (part_results L ro projects)))) 7200"
  define pre where "pre = trace R (TrackBatchPart (show_u64 e) b ''processing'') s"
  have pre: "?I \<notin> set pre"
    by (auto simp: pre_def TrackBatchPart_def trace_Call prog_simps)
  define s1 where "s1 = final R (TrackBatchPart (show_u64 e) b ''processing'') s"
  have tb: "outcome R (TrackBatchPart x y z) st \<noteq> None" for x y z st
    by (intro no_panic_outcome) (auto simp: TrackBatchPart_def)
  obtain ok where o1: "run R (TrackBatchPart (show_u64 e) b ''processing'') s = (Some ok, s1)"
    using tb [of "show_u64 e" b "''processing''" s] by (auto simp: s1_def prod_eq_iff)
  define s2 where "s2 = snd (R s1 ?S)"
  have tc: "trace R (TrackBatchPart (show_u64 e) b ''completed'') st =
      [RSet (BatchPartStatus (show_u64 e) b) (Txt ''completed'') 7200]" for st
    by (auto simp: TrackBatchPart_def trace_Call)
  define s3 where "s3 = final R (TrackBatchPart (show_u64 e) b ''completed'') s2"
  obtain ok2 where o2: "run R (TrackBatchPart (show_u64 e) b ''completed'') s2 = (Some ok2, s3)"
    using tb [of "show_u64 e" b "''completed''" s2] by (auto simp: s3_def prod_eq_iff)
  have ok: "fst (R s1 ?S) \<noteq> ErrR"
    using assms pre
    by (auto simp: processBatchPart_def Let_def trace_bindp o1 trace_Call simp flip: pre_def)
  obtain mid post where "trace R (processBatchPart L ro f e b n projects) s =
      pre @ [?S, RSet (BatchPartStatus (show_u64 e) b) (Txt ''completed'') 7200] @ mid @ ?I # post"
    "?I \<notin> set mid"
  proof
    let ?m = "[Now, RPipe (part_metrics f e b n (length projects) (int_of (fst (R s3 Now))))]"
    show "?I \<notin> set ?m" by simp
    show "trace R (processBatchPart L ro f e b n projects) s =
      pre @ [?S, RSet (BatchPartStatus (show_u64 e) b) (Txt ''completed'') 7200] @ ?m @ ?I #
        drop (length (pre @ [?S, ?S] @ ?m @ [?I])) (trace R (processBatchPart L ro f e b n projects) s)"
      using ok by (auto simp: processBatchPart_def Let_def trace_bindp o1 trace_Call o2 tc count_part_def
          simp flip: pre_def s2_def split: list.splits)
  qed
  with pre show ?thesis by auto
qed

definition demo_fin :: finConfig where
  "demo_fin = \<lparr>finKeys = NewKeyBuilder ''P'' ''M'', finProtocolState = ''P'', finDataMarkets = [''M''],
     finSequencerID = ''v1''\<rparr>"

lemma outcome_log_results:
  "outcome R (log_results ro results) s = None \<longleftrightarrow>
     (\<exists>(p, x) \<in> set (take 3 (range_map ro ''partResults'' results)). length (selCid x) < 16)"
proof -
  have "outcome R (for_each (\<lambda>(p, s) u. or_panic (slice_to 16 (selCid s)) (\<lambda>_. Ret ())) xs ()) s = None \<longleftrightarrow>
      (\<exists>x \<in> set xs. length (selCid (snd x)) < 16)" for xs :: "(string \<times> selection) list" and s
    by (induction xs arbitrary: s) (auto simp: run_bindp slice_to_def case_prod_unfold)
  then show ?thesis by (simp add: log_results_def case_prod_unfold)
qed

lemma outcome_TrackBatchPart: "outcome R (TrackBatchPart x y z) st \<noteq> None"
  by (intro no_panic_outcome) (auto simp: TrackBatchPart_def)

lemma outcome_count_part: "outcome R (count_part kb p m e n) st \<noteq> None"
  by (intro no_panic_outcome) (auto simp: count_part_def UpdateBatchPartsProgress_def Let_def)

lemma outcome_bindp_Some:
  "outcome R p s \<noteq> None \<Longrightarrow>
     outcome R (bindp p f) s = outcome R (f (the (outcome R p s))) (final R p s)"
  by (auto simp: run_bindp case_prod_unfold split: option.splits prod.splits)

text \<open>On a store that accepts writes, handling a part crashes the process exactly when no data market
  is configured or one of the first three results logged has a CID of fewer than sixteen
  characters: the results are stored and counted by then, and the log line slices the CID.\<close>

theorem part_crashes_iff_short_cid:
  assumes "reliable R v"
  shows "outcome R (processBatchPart L ro f e b n projects) s = None \<longleftrightarrow>
    finDataMarkets f = [] \<or>
    (\<exists>(p, x) \<in> set (take 3 (range_map ro ''partResults'' (part_results L ro projects))).
       length (selCid x) < 16)"
proof -
  have set_ok: "fst (R st (RSet k b t)) \<noteq> ErrR" for st k b t
    using assms by (simp add: reliable_def)
  show ?thesis
  proof (cases "finDataMarkets f")
    case Nil
    then show ?thesis
      by (simp add: processBatchPart_def Let_def outcome_bindp_Some outcome_TrackBatchPart run_Call set_ok)
  next
    case (Cons market ms)
    then obtain st where "outcome R (processBatchPart L ro f e b n projects) s =
        outcome R (bindp (log_results ro (part_results L ro projects)) (\<lambda>_. Ret True)) st"
      by (auto simp: processBatchPart_def Let_def outcome_bindp_Some outcome_TrackBatchPart
          outcome_count_part run_Call set_ok)
    moreover have "outcome R (bindp q (\<lambda>_. Ret True)) st = None \<longleftrightarrow> outcome R q st = None" for q :: "unit prog" and st
      by (auto simp: run_bindp split: option.splits prod.splits)
    ultimately show ?thesis using Cons outcome_log_results [of R ro "part_results L ro projects" st] by simp
  qed
qed

lemma demo_short_results:
  "part_results demo_lib in_order [(''p'', demo_votes)] =
     [(''p'', \<lparr>selCid = ''QmB'', selVotes = 5, selTotal = 7, selUnique = 2, selMetadata = []\<rparr>)]"
proof -
  have "select_winner (range_map in_order ''cidVotes'' [(''QmA'', 2), (''QmB'', 5)]) = (''QmB'', 5)"
    by (simp add: select_winner_def select_step_def range_map_def)
  moreover have "sum_list (map snd (range_map in_order ''cidVotes'' [(''QmA'', 2), (''QmB'', 5 :: int)])) = 7"
    by (simp add: range_map_def)
  ultimately show ?thesis
    using demo_votes_in
    by (simp add: part_results_def select_project_def votes_in_def demo_votes_def get_obj_def get_arr_def
        Let_def range_map_def [of in_order "''projects''"])
qed

theorem part_crashes_iff_short_cid_witness:
  "outcome store_step (processBatchPart demo_lib in_order demo_fin 7 0 1 [(''p'', demo_votes)]) empty_store = None"
  by (subst part_crashes_iff_short_cid [OF reliable_store])
    (simp add: demo_short_results range_map_def)

theorem part_stored_before_counted_witness:
  "\<exists>pre mid post. trace store_step (processBatchPart demo_lib in_order demo_fin 7 0 1 []) empty_store = pre @
     [RSet (BatchPart (finKeys demo_fin) (show_u64 7) 0) (Js (JObj [])) 7200,
      RSet (BatchPartStatus (show_u64 7) 0) (Txt ''completed'') 7200] @ mid @
     RIncr (EpochPartsCompleted (finKeys demo_fin) (show_u64 7)) # post"
proof -
  have "RIncr (EpochPartsCompleted (finKeys demo_fin) (show_u64 7)) \<in>
      set (trace store_step (processBatchPart demo_lib in_order demo_fin 7 0 1 []) empty_store)"
    by (simp add: processBatchPart_def Let_def trace_bindp run_bindp TrackBatchPart_def prog_simps
        count_part_def demo_fin_def trace_Call run_Call)
  from part_stored_before_counted [OF this] show ?thesis by (auto simp: part_results_def)
qed

end
