(* ===== verification/Collection.thy ===== *)
theory Collection
  imports Windows Finalizer
begin

text \<open>
  From the dequeuer's store to the finalizer's choice, across \<open>pkgs/submissions\<close>,
  \<open>pkgs/eventmonitor\<close> and \<open>cmd/unified\<close>: the collector counts one vote for each stored record
  that its scans find, what the dequeuer stores is found under the submission's own namespace, and
  the CID that a finalizer selects is one that the most stored records name.
\<close>

section \<open>Scans\<close>

lemma scanKeys_store:
  assumes "0 < n" and "length (scan_pages d pat) \<le> cur + n"
  shows "run store_step (scanKeys n pat cur ks) d =
    (Some (ScanDone (ks @ filter (glob pat) (concat (drop cur (scan_pages d pat))))), d)"
  using assms
proof (induction n arbitrary: cur ks)
  case (Suc n)
  let ?pages = "scan_pages d pat"
  let ?page = "if cur < length ?pages then filter (glob pat) (?pages ! cur) else []"
  have pg: "filter (glob pat) (concat (drop cur ?pages)) = ?page @ filter (glob pat) (concat (drop (Suc cur) ?pages))"
    by (cases "cur < length ?pages") (simp_all add: Cons_nth_drop_Suc [symmetric])
  show ?case
  proof (cases "Suc cur < length ?pages")
    case False
    then have "drop (Suc cur) ?pages = []" by simp
    then show ?thesis using False by (simp add: run_Call pg)
  next
    case True
    then have n: "0 < n" using Suc.prems(2) by (cases n) auto
    have "run store_step (scanKeys (Suc n) pat cur ks) d = run store_step (scanKeys n pat (Suc cur) (ks @ ?page)) d"
      using True by (simp add: run_Call)
    also have "\<dots> = (Some (ScanDone ((ks @ ?page) @ filter (glob pat) (concat (drop (Suc cur) ?pages)))), d)"
      using Suc.prems(2) n by (intro Suc.IH) auto
    finally show ?thesis unfolding pg by simp
  qed
qed simp

text \<open>A walk misses no string key, and reports no key that is not there.\<close>

lemma scan_complete:
  "set (map fst (strs d)) \<subseteq> set (concat (scan_pages d p))" and "k \<in> set (concat (scan_pages d p)) \<Longrightarrow> key_exists d k"
proof -
  have "key_exists d k" if "k \<in> fst ` set (strs d)" for k
    using that by (auto simp: key_exists_def dest: weak_map_of_SomeI)
  then show "k \<in> set (concat (scan_pages d p)) \<Longrightarrow> key_exists d k"
    by (auto simp: scan_pages_def Let_def list_all_iff split: if_splits)
  show "set (map fst (strs d)) \<subseteq> set (concat (scan_pages d p))"
    by (auto simp: scan_pages_def Let_def list_all_iff)
qed

section \<open>Counting\<close>

definition vote_at :: "store \<Rightarrow> string \<Rightarrow> (string \<times> string) option" where
  "vote_at d key = (case map_of (strs d) key of
     None \<Rightarrow> None
   | Some b \<Rightarrow> (case unmarshal_map b of
       Some (Some record) \<Rightarrow> map_option (\<lambda>(p, c, _). (p, c)) (parse_stored record)
     | _ \<Rightarrow> None))"

definition found_keys :: "store \<Rightarrow> string \<Rightarrow> string \<Rightarrow> string \<Rightarrow> string list" where
  "found_keys d protocolState dataMarket i =
     filter (glob (processed_pattern protocolState dataMarket i)) (concat (scan_pages d (processed_pattern protocolState dataMarket i)))"

text \<open>The votes of an epoch in one namespace as the scans report them: one for every time that the key of a record is handed out.\<close>

definition epoch_votes :: "store \<Rightarrow> string \<Rightarrow> string \<Rightarrow> nat \<Rightarrow> (string \<times> string) list" where
  "epoch_votes d protocolState dataMarket epochID =
     concat (map (\<lambda>i. List.map_filter (vote_at d) (found_keys d protocolState dataMarket i))
       (sets d (EpochProcessed (NewKeyBuilder protocolState dataMarket) (show_nat epochID))))"

text \<open>The votes that are stored: for each submission of the epoch one for every record whose key matches its pattern.\<close>

definition stored_keys :: "store \<Rightarrow> string \<Rightarrow> string \<Rightarrow> string \<Rightarrow> string list" where
  "stored_keys d protocolState dataMarket i =
     filter (glob (processed_pattern protocolState dataMarket i)) (remdups (map fst (strs d)))"

definition stored_votes :: "store \<Rightarrow> string \<Rightarrow> string \<Rightarrow> nat \<Rightarrow> (string \<times> string) list" where
  "stored_votes d protocolState dataMarket epochID =
     concat (map (\<lambda>i. List.map_filter (vote_at d) (stored_keys d protocolState dataMarket i))
       (sets d (EpochProcessed (NewKeyBuilder protocolState dataMarket) (show_nat epochID))))"

text \<open>The walks of an epoch's scans: whether each ends within the fuel, and whether none hands out a key twice.\<close>

definition epoch_walks :: "store \<Rightarrow> string \<Rightarrow> string \<Rightarrow> nat \<Rightarrow> string list list list" where
  "epoch_walks d protocolState dataMarket epochID =
     map (\<lambda>i. scan_pages d (processed_pattern protocolState dataMarket i))
       (sets d (EpochProcessed (NewKeyBuilder protocolState dataMarket) (show_nat epochID)))"

definition scans_fit :: "nat \<Rightarrow> store \<Rightarrow> string \<Rightarrow> string \<Rightarrow> nat \<Rightarrow> bool" where
  "scans_fit fuel d protocolState dataMarket epochID \<longleftrightarrow> 0 < fuel \<and>
     list_all (\<lambda>pages. length pages \<le> fuel) (epoch_walks d protocolState dataMarket epochID)"

definition scans_once :: "store \<Rightarrow> string \<Rightarrow> string \<Rightarrow> nat \<Rightarrow> bool" where
  "scans_once d protocolState dataMarket epochID \<longleftrightarrow>
     list_all (\<lambda>pages. distinct (concat pages)) (epoch_walks d protocolState dataMarket epochID)"

lemma vote_at_stored: "vote_at d k \<noteq> None \<Longrightarrow> k \<in> set (map fst (strs d))"
  by (force simp: vote_at_def split: option.splits dest: map_of_SomeD)

lemma count_map_filter: "count_list (List.map_filter f ks) x = length (filter (\<lambda>k. f k = Some x) ks)"
  by (induction ks) (auto simp: map_filter_simps split: option.splits)

lemma found_stored:
  "k \<in> set (found_keys d p m i) \<and> vote_at d k = Some x \<longleftrightarrow> k \<in> set (stored_keys d p m i) \<and> vote_at d k = Some x"
  using scan_complete(1) [of d "processed_pattern p m i"] vote_at_stored [of d k]
  by (auto simp: found_keys_def stored_keys_def)

lemma votes_of_key:
  "count_list (List.map_filter (vote_at d) (stored_keys d p m i)) x \<le> count_list (List.map_filter (vote_at d) (found_keys d p m i)) x"
  "distinct (concat (scan_pages d (processed_pattern p m i))) \<Longrightarrow>
     count_list (List.map_filter (vote_at d) (found_keys d p m i)) x = count_list (List.map_filter (vote_at d) (stored_keys d p m i)) x"
proof -
  let ?P = "\<lambda>k. vote_at d k = Some x"
  have s: "set (filter ?P (found_keys d p m i)) = set (filter ?P (stored_keys d p m i))"
    using found_stored [of _ d p m i x] by auto
  have n: "length (filter ?P (stored_keys d p m i)) = card (set (filter ?P (stored_keys d p m i)))"
    by (simp add: stored_keys_def distinct_card [symmetric])
  show "count_list (List.map_filter (vote_at d) (stored_keys d p m i)) x \<le> count_list (List.map_filter (vote_at d) (found_keys d p m i)) x"
    unfolding count_map_filter n s [symmetric] by (rule card_length)
  assume "distinct (concat (scan_pages d (processed_pattern p m i)))"
  then have "distinct (filter ?P (found_keys d p m i))" by (simp add: found_keys_def)
  from distinct_card [OF this]
  show "count_list (List.map_filter (vote_at d) (found_keys d p m i)) x = count_list (List.map_filter (vote_at d) (stored_keys d p m i)) x"
    unfolding count_map_filter n s [symmetric] by (rule sym)
qed

text \<open>No stored vote is missed; where no scan repeats a key, each counts once.\<close>

lemma reported_votes:
  "count_list (stored_votes d p m e) x \<le> count_list (epoch_votes d p m e) x"
  "scans_once d p m e \<Longrightarrow> count_list (epoch_votes d p m e) x = count_list (stored_votes d p m e) x"
  "set (epoch_votes d p m e) = set (stored_votes d p m e)"
proof -
  let ?f = "\<lambda>i. List.map_filter (vote_at d) (found_keys d p m i)" and ?s = "\<lambda>i. List.map_filter (vote_at d) (stored_keys d p m i)"
  have "count_list (concat (map ?s xs)) x \<le> count_list (concat (map ?f xs)) x" for xs
    by (induction xs) (auto intro!: add_mono votes_of_key(1))
  then show "count_list (stored_votes d p m e) x \<le> count_list (epoch_votes d p m e) x"
    by (simp add: stored_votes_def epoch_votes_def)
  have "\<forall>i \<in> set xs. distinct (concat (scan_pages d (processed_pattern p m i))) \<Longrightarrow>
      count_list (concat (map ?f xs)) x = count_list (concat (map ?s xs)) x" for xs
    by (induction xs) (auto simp: votes_of_key(2))
  then show "scans_once d p m e \<Longrightarrow> count_list (epoch_votes d p m e) x = count_list (stored_votes d p m e) x"
    by (simp add: stored_votes_def epoch_votes_def scans_once_def epoch_walks_def list_all_iff)
  have "set (?f i) = set (?s i)" for i
    using found_stored [of _ d p m i] by (fastforce simp: map_filter_def)
  then show "set (epoch_votes d p m e) = set (stored_votes d p m e)" by (simp add: stored_votes_def epoch_votes_def)
qed

definition count_vote :: "string \<times> string \<Rightarrow> (string, (string, int) gomap) gomap \<Rightarrow> (string, (string, int) gomap) gomap" where
  "count_vote pc pv = AList.update (fst pc) (bump (snd pc) (mget [] pv (fst pc))) pv"

lemma projectVotes_add_vote: "projectVotes (add_vote p c acc) = count_vote (p, c) (projectVotes acc)"
  by (simp add: add_vote_def count_vote_def)

lemma projectVotes_add_metadata [simp]: "projectVotes (add_metadata p j acc) = projectVotes acc"
  by (simp add: add_metadata_def)

text \<open>Counting reads the store and the clock, and nothing else.\<close>

definition same_data :: "store \<Rightarrow> store \<Rightarrow> bool" where
  "same_data d d' \<longleftrightarrow> (\<exists>n. d' = d\<lparr>readings := n\<rparr>)"

lemma same_data_refl [simp]: "same_data d d"
  unfolding same_data_def by (rule exI [of _ "readings d"]) simp

lemma same_data_readings [simp]: "same_data d (d\<lparr>readings := n\<rparr>)"
  by (auto simp: same_data_def)

lemma same_data_trans: "same_data d d' \<Longrightarrow> same_data d' d'' \<Longrightarrow> same_data d d''"
  by (auto simp: same_data_def)

lemma same_data_votes: "same_data d d' \<Longrightarrow> vote_at d' = vote_at d \<and> found_keys d' = found_keys d \<and> scan_pages d' = scan_pages d"
proof -
  have "key_exists (d\<lparr>readings := n\<rparr>) = key_exists d" for n
    by (simp add: key_exists_def stream_exists_def fun_eq_iff)
  then have "scan_pages (d\<lparr>readings := n\<rparr>) = scan_pages d" for n by (intro ext) (simp add: scan_pages_def Let_def cong: if_cong)
  moreover have "vote_at (d\<lparr>readings := n\<rparr>) = vote_at d" for n by (simp add: vote_at_def fun_eq_iff)
  moreover assume "same_data d d'"
  ultimately show ?thesis by (auto simp: same_data_def found_keys_def fun_eq_iff)
qed

lemma count_record_store:
  "\<exists>acc' d'. run store_step (count_record L key acc) d = (Some acc', d') \<and> same_data d d' \<and>
     projectVotes acc' = (case vote_at d key of None \<Rightarrow> projectVotes acc
       | Some pc \<Rightarrow> count_vote pc (projectVotes acc))"
proof (cases "map_of (strs d) key")
  case None
  then show ?thesis by (simp add: count_record_def run_Call vote_at_def)
next
  case (Some b)
  show ?thesis
  proof (cases "Option.bind (Option.bind (unmarshal_map b) id) parse_stored")
    case None
    then show ?thesis using Some
      by (auto simp: count_record_def run_Call vote_at_def bind_eq_None_conv split: option.splits)
  next
    case st: (Some x)
    obtain p c rq sd where x: "x = (p, c, rq, sd)" by (cases x)
    from st obtain rc where r: "unmarshal_map b = Some (Some rc)" "parse_stored rc = Some (p, c, rq, sd)"
      by (auto simp: x bind_eq_Some_conv)
    show ?thesis
      using Some r
      by (auto simp: count_record_def run_Call vote_at_def projectVotes_add_vote Let_def
          split: option.split)
  qed
qed

lemma count_records_store:
  "\<exists>acc' d'. run store_step (for_each (count_record L) keys acc) d = (Some acc', d') \<and> same_data d d' \<and>
     projectVotes acc' = fold count_vote (List.map_filter (vote_at d) keys) (projectVotes acc)"
proof (induction keys arbitrary: acc d)
  case Nil
  show ?case by (simp add: map_filter_simps)
next
  case (Cons key keys)
  obtain a1 d1 where 1: "run store_step (count_record L key acc) d = (Some a1, d1)" "same_data d d1"
    "projectVotes a1 = (case vote_at d key of None \<Rightarrow> projectVotes acc
       | Some pc \<Rightarrow> count_vote pc (projectVotes acc))"
    using count_record_store by blast
  obtain a2 d2 where 2: "run store_step (for_each (count_record L) keys a1) d1 = (Some a2, d2)" "same_data d1 d2"
    "projectVotes a2 = fold count_vote (List.map_filter (vote_at d1) keys) (projectVotes a1)"
    using Cons.IH by blast
  have "same_data d d2" using 1(2) 2(2) by (rule same_data_trans)
  moreover have "projectVotes a2 = fold count_vote (List.map_filter (vote_at d) (key # keys)) (projectVotes acc)"
    using 1(3) 2(3) same_data_votes [OF 1(2)] by (auto simp: map_filter_simps split: option.splits)
  ultimately show ?case using 1(1) 2(1) by (simp add: run_bindp)
qed

lemma count_submissions_store:
  assumes "0 < fuel" and "\<And>i. i \<in> set xs \<Longrightarrow> length (scan_pages d (processed_pattern (wmProtocol wm) m i)) \<le> fuel"
  shows "\<exists>acc' d'. run store_step (for_each (count_submission L fuel wm m) xs (Some acc)) d = (Some (Some acc'), d') \<and>
     same_data d d' \<and>
     projectVotes acc' = fold count_vote (concat (map (\<lambda>i. List.map_filter (vote_at d)
       (found_keys d (wmProtocol wm) m i)) xs)) (projectVotes acc)"
  using assms(2)
proof (induction xs arbitrary: acc d)
  case Nil
  show ?case by simp
next
  case (Cons i xs)
  let ?keys = "found_keys d (wmProtocol wm) m i"
  have sc: "run store_step (scanKeys fuel (processed_pattern (wmProtocol wm) m i) 0 []) d =
      (Some (ScanDone ?keys), d)"
    using scanKeys_store [OF assms(1), of d _ 0] Cons.prems by (simp add: found_keys_def)
  obtain a1 d1 where 1: "run store_step (for_each (count_record L) ?keys acc) d = (Some a1, d1)" "same_data d d1"
    "projectVotes a1 = fold count_vote (List.map_filter (vote_at d) ?keys) (projectVotes acc)"
    using count_records_store by blast
  have "length (scan_pages d1 (processed_pattern (wmProtocol wm) m i)) \<le> fuel" if "i \<in> set xs" for i
    using same_data_votes [OF 1(2)] Cons.prems that by simp
  then obtain a2 d2 where 2: "run store_step (for_each (count_submission L fuel wm m) xs (Some a1)) d1 = (Some (Some a2), d2)"
    "same_data d1 d2"
    "projectVotes a2 = fold count_vote (concat (map (\<lambda>i. List.map_filter (vote_at d1)
       (found_keys d1 (wmProtocol wm) m i)) xs)) (projectVotes a1)"
    using Cons.IH by blast
  have "same_data d d2" using 1(2) 2(2) by (rule same_data_trans)
  moreover have "run store_step (count_submission L fuel wm m i (Some acc)) d = (Some (Some a1), d1)"
    by (simp add: count_submission_def run_bindp sc 1(1))
  ultimately show ?case
    using 1(3) 2(1,3) same_data_votes [OF 1(2)] by (simp add: run_bindp)
qed

lemma collect_store:
  assumes "scans_fit fuel d (wmProtocol wm) m e"
  shows "\<exists>a d'. run store_step (collectEpochSubmissions L fuel wm m e) d = (Some (Some (project_submissions a)), d') \<and>
     projectVotes a = fold count_vote (epoch_votes d (wmProtocol wm) m e) []"
proof -
  let ?ids = "sets d (EpochProcessed (NewKeyBuilder (wmProtocol wm) m) (show_nat e))"
  obtain a d' where "run store_step (for_each (count_submission L fuel wm m) ?ids
      (Some \<lparr>projectVotes = [], projectMetadata = []\<rparr>)) d = (Some (Some a), d')"
    "projectVotes a = fold count_vote (epoch_votes d (wmProtocol wm) m e) []"
    using count_submissions_store [of fuel ?ids d wm m L "\<lparr>projectVotes = [], projectMetadata = []\<rparr>"] assms
    by (auto simp: epoch_votes_def scans_fit_def epoch_walks_def list_all_iff)
  then show ?thesis
    by (auto simp: collectEpochSubmissions_def Let_def run_Call run_bindp)
qed

lemma votes_counted:
  "mget 0 (mget [] (fold count_vote vs pv) p) c = mget 0 (mget [] pv p) c + int (count_list vs (p, c))"
proof (induction vs arbitrary: pv)
  case (Cons v vs)
  have "mget [] (count_vote v pv) p = (if p = fst v then bump (snd v) (mget [] pv p) else mget [] pv p)"
    by (auto simp: count_vote_def mget_def gomap_simps)
  with Cons show ?case by (cases v) (auto simp: mget_bump)
qed simp

definition pv_ok :: "(string, (string, int) gomap) gomap \<Rightarrow> bool" where
  "pv_ok pv \<longleftrightarrow> go_ok pv \<and> (\<forall>(p, m) \<in> set pv. go_ok m)"

lemma pv_ok_fold: "pv_ok pv \<Longrightarrow> pv_ok (fold count_vote vs pv)"
proof (induction vs arbitrary: pv)
  case (Cons v vs)
  have "go_ok (mget [] pv (fst v))"
    using Cons.prems by (auto simp: pv_ok_def mget_def split: option.splits dest: map_of_SomeD)
  moreover have "set (AList.update k x pv) \<subseteq> insert (k, x) (set pv)" for k x
    by (induction pv) auto
  ultimately have "pv_ok (count_vote v pv)"
    using Cons.prems by (fastforce simp: pv_ok_def count_vote_def)
  with Cons.IH show ?case by simp
qed simp


section \<open>What a finalizer makes of it\<close>

lemma cid_votes_of_enc:
  assumes "\<And>c n. (c, n) \<in> set votes \<Longrightarrow> \<bar>n\<bar> \<le> 2 ^ 53"
  shows "cid_votes_of L (map (\<lambda>(c, n). (c, JNum n)) votes) = votes"
  using assms
proof (induction votes)
  case (Cons x votes)
  have "f64 (snd x) = snd x" "int_of_float L (snd x) = snd x"
    using Cons.prems [of "fst x" "snd x"] by (auto simp: f64_exact int_of_float_def)
  moreover have "cid_votes_of L (map (\<lambda>(c, n). (c, JNum n)) votes) = votes"
    using Cons by auto
  ultimately show ?case by (cases x) (simp add: cid_votes_of_def map_filter_simps)
qed (simp add: cid_votes_of_def map_filter_simps)

lemma votes_in_entry:
  assumes "\<And>c n. (c, n) \<in> set votes \<Longrightarrow> \<bar>n\<bar> \<le> 2 ^ 53"
  shows "votes_in L (project_entry a p votes) = votes"
  using cid_votes_of_enc [OF assms] by (simp add: votes_in_def project_entry_def get_obj_def)

lemma map_of_entries: "map_of (map (\<lambda>(k, x). (k, f k x)) m) k = map_option (f k) (map_of m k)"
  by (induction m) auto

lemma count_list_le: "count_list xs x \<le> length xs"
  by (induction xs) auto

text \<open>What the entry of a project holds: the votes of the project, each CID's number of records.\<close>

lemma entry_votes:
  assumes "projectVotes a = fold count_vote vs []" and "length vs \<le> 2 ^ 53"
    and "map_of (project_submissions a) p = Some data"
  obtains votes where "votes_in L data = votes" and "go_ok votes" and "\<And>c. mget 0 votes c = int (count_list vs (p, c))"
proof -
  have ok: "pv_ok (projectVotes a)" unfolding assms(1) by (rule pv_ok_fold) (simp add: pv_ok_def)
  obtain votes where votes: "map_of (projectVotes a) p = Some votes" "data = project_entry a p votes"
    using assms(3) by (auto simp: project_submissions_def map_of_entries)
  have okv: "go_ok votes"
    using ok votes(1) by (auto simp: pv_ok_def dest: map_of_SomeD)
  have n: "mget 0 votes c = int (count_list vs (p, c))" for c
    using votes_counted [of vs "[]" p c] votes(1) by (simp add: assms(1) mget_def)
  have small: "\<bar>k\<bar> \<le> 2 ^ 53" if "(c, k) \<in> set votes" for c k
  proof -
    have "k = int (count_list vs (p, c))" using mget_in [OF okv that] n by metis
    moreover have "int (count_list vs (p, c)) \<le> 2 ^ 53"
      using of_nat_mono [OF order_trans [OF count_list_le [of vs "(p, c)"] assms(2)], where 'a = int] by simp
    ultimately show ?thesis by simp
  qed
  have "votes_in L data = votes" unfolding votes(2) by (rule votes_in_entry [OF small])
  then show thesis using that okv n by blast
qed

lemma entry_plurality:
  assumes "projectVotes a = fold count_vote vs []" and "length vs \<le> 2 ^ 53"
    and "map_of (project_submissions a) p = Some data" and "select_project L ro data = Some sel"
  shows "int (count_list vs (p, selCid sel)) = selVotes sel" and "int (count_list vs (p, c)) \<le> selVotes sel"
proof -
  obtain votes where vi: "votes_in L data = votes" and okv: "go_ok votes"
    and n: "\<And>c. mget 0 votes c = int (count_list vs (p, c))"
    using entry_votes [OF assms(1-3)] by metis
  have S: "map_of votes (selCid sel) = Some (selVotes sel)" "0 < selVotes sel"
    "\<forall>(c, k) \<in> set votes. k \<le> selVotes sel"
    using selected_winner [OF assms(4), unfolded vi, OF okv] by simp_all
  show "int (count_list vs (p, c)) \<le> selVotes sel"
  proof (cases "c \<in> fst ` set votes")
    case True
    then show ?thesis using S(3) in_mget [OF True, of 0] n by fastforce
  next
    case False
    then show ?thesis using mget_absent [OF False, of 0] n S(2) by simp
  qed
  show "int (count_list vs (p, selCid sel)) = selVotes sel"
    using S(1) n by (simp add: mget_def flip: n)
qed


section \<open>What the dequeuer stores is counted\<close>

text \<open>Text in which every character stands for itself, or for more.\<close>

definition glob_plain :: "string \<Rightarrow> bool" where
  "glob_plain s \<longleftrightarrow> CHR ''['' \<notin> set s \<and> CHR 0x5C \<notin> set s"

lemma glob_star: "glob ps s \<Longrightarrow> glob (CHR ''*'' # ps) s"
  by (cases s) auto

lemma glob_literal: "glob_plain a \<Longrightarrow> glob ps s \<Longrightarrow> glob (a @ ps) (a @ s)"
proof (induction a)
  case (Cons c a)
  then have ih: "glob (a @ ps) (a @ s)" and c: "c \<noteq> CHR ''[''" "c \<noteq> CHR 0x5C" by (auto simp: glob_plain_def)
  show ?case
  proof (cases "c = CHR ''*''")
    case True
    show ?thesis using glob_star [OF ih] unfolding True append_Cons glob.simps(3) by simp
  next
    case False
    then show ?thesis using ih c unfolding append_Cons glob.simps(3) by simp
  qed
qed simp

lemma glob_star_skip: "glob ps s \<Longrightarrow> glob (CHR ''*'' # ps) (x @ s)"
  by (induction x) (simp_all only: append_Nil append_Cons glob.simps(3) glob_star simp_thms if_True)

lemma glob_self: "glob_plain s \<Longrightarrow> glob s s"
  using glob_literal [of s "[]" "[]"] by simp

lemma processed_key_found:
  assumes "glob_plain p" and "glob_plain m" and "glob_plain i"
  shows "glob (processed_pattern p m i) (ProcessedSubmission (NewKeyBuilder p m) v i)"
proof -
  have "glob ('':'' @ i) ('':'' @ i)" using assms(3) by (intro glob_self) (simp add: glob_plain_def)
  then have "glob (CHR ''*'' # '':'' @ i) (v @ '':'' @ i)" by (rule glob_star_skip)
  moreover have "glob_plain (p @ '':'' @ m @ '':processed:'')" using assms(1,2) by (simp add: glob_plain_def)
  ultimately show ?thesis using glob_literal [of "p @ '':'' @ m @ '':processed:''"]
    by (fastforce simp: processed_pattern_def ProcessedSubmission_def ns_def NewKeyBuilder_def)
qed

lemma parse_stored_processed:
  assumes "ProjectId (Request (Submission q)) \<noteq> []" and "SnapshotCid (Request (Submission q)) \<noteq> []"
  shows "\<exists>kvs rq sd. unmarshal_map (Js (enc_processed tt q)) = Some (Some kvs) \<and>
    parse_stored kvs = Some (ProjectId (Request (Submission q)), SnapshotCid (Request (Submission q)), rq, sd)"
  using assms
  by (simp add: enc_processed_def parse_stored_def get_obj_def get_str_def enc_submission_def enc_request_def
      omit_def)

text \<open>The keys that the monitoring pipeline writes are not those of the submission's record and set.\<close>

lemma metrics_key_free:
  assumes "kb_ok kb" and "ProtocolState kb \<noteq> ''metrics''"
  shows "ns kb x \<noteq> ''metrics:'' @ y"
proof
  assume "ns kb x = ''metrics:'' @ y"
  then have "ProtocolState kb @ CHR '':'' # (DataMarket kb @ CHR '':'' # x) = ''metrics'' @ CHR '':'' # y"
    by (simp add: ns_def)
  moreover have "CHR '':'' \<notin> set (ProtocolState kb)" using assms(1) by (simp add: kb_ok_def colon_free_def)
  moreover have "CHR '':'' \<notin> set ''metrics''" by simp
  ultimately have "ProtocolState kb = ''metrics''" using colon_split_inject by blast
  with assms(2) show False by simp
qed

lemma monitoring_touches:
  "touches (RPipe (monitoring_calls L d i p pid t th t2)) =
     {MetricsSubmissionsMetadata (dqKeys d) (submission_entity (Submission p) t pid),
      ''metrics:validation:'' @ i, ''metrics:epoch:'' @ show_u64 (EpochId (Request (Submission p))) @ '':validated''}"
  by (auto simp: monitoring_calls_def Let_def)

lemma monitoring_misses:
  assumes "kb_ok kb" and "ProtocolState kb \<noteq> ''metrics''" and "kb_ok (dqKeys d)" and "hd x \<noteq> CHR ''m''" and "x \<noteq> []"
  shows "ns kb x \<notin> touches (RPipe (monitoring_calls L d i p pid t th t2))"
proof -
  have "ns kb x \<noteq> ''metrics:'' @ (''validation:'' @ i)"
    "ns kb x \<noteq> ''metrics:'' @ (''epoch:'' @ show_u64 (EpochId (Request (Submission p))) @ '':validated'')"
    by (rule metrics_key_free [OF assms(1,2)])+
  moreover have "ns kb x \<noteq> MetricsSubmissionsMetadata (dqKeys d) y" for y
  proof
    assume "ns kb x = MetricsSubmissionsMetadata (dqKeys d) y"
    then have "x = ''metrics:submissions:metadata:'' @ y"
      unfolding MetricsSubmissionsMetadata_def using ns_inject [OF assms(1,3)] by blast
    with assms(4) show False by simp
  qed
  ultimately show ?thesis unfolding monitoring_touches by simp
qed

text \<open>The two keys of an accepted submission, in the final store.\<close>

lemma accepted_store:
  assumes "reliable R v" and "outcome R (ProcessSubmission L ro d sub i meta) s = Some (Inr (), d')"
    and "map_of (processedSubmissions d) i = None"
    and "kb_ok (dqKeys d)"
  shows "\<exists>p. Submission p = sub \<and>
    (kb_ok (sub_keys sub) \<and> SubProtocolState sub \<noteq> ''metrics'' \<longrightarrow>
      map_of (strs (v (final R (ProcessSubmission L ro d sub i meta) s)))
        (ProcessedSubmission (sub_keys sub) (dqSequencerID d) i) = Some (Js (enc_processed (TimeText L) p)) \<and>
      i \<in> set (sets (v (final R (ProcessSubmission L ro d sub i meta) s))
        (EpochProcessed (sub_keys sub) (show_u64 (EpochId (Request sub)))))) \<and>
    (\<forall>kb e. kb_ok kb \<and> kb_ok (sub_keys sub) \<and> ProtocolState kb \<noteq> ''metrics'' \<and> kb \<noteq> sub_keys sub \<longrightarrow>
      sets (v (final R (ProcessSubmission L ro d sub i meta) s)) (EpochProcessed kb e) =
      sets (v s) (EpochProcessed kb e))"
proof -
  let ?P = "ProcessSubmission L ro d sub i meta"
  let ?K = "ProcessedSubmission (sub_keys sub) (dqSequencerID d) i"
  let ?E = "EpochProcessed (sub_keys sub) (show_u64 (EpochId (Request sub)))"
  let ?run = "\<lambda>cs d. fold (\<lambda>c d. snd (store_step d c)) cs d"
  obtain a where a: "trace R ?P s = slot_lookup d sub a @ accept_calls L R (after R (slot_lookup d sub a) s) d sub i meta a"
    using accepted_calls [OF assms(2,3)] by blast
  define p where "p = accepted_record L d sub i meta a (reading R [] (after R (slot_lookup d sub a) s) NowNano)"
  have p: "Submission p = sub" by (simp add: p_def accepted_record_def)
  obtain t2 th t3 where t: "trace R ?P s = slot_lookup d sub a @ [NowNano] @
       [RSet ?K (Js (enc_processed (TimeText L) p)) 600, RSAdd ?E i, RExpire ?E 3600] @
       [NowNano, Now, Now, Now, RPipe (monitoring_calls L d i p (sender_of meta) t2 th t3)]"
    unfolding a accept_calls_def by (simp add: Let_def store_result_keys p flip: p_def)
  have look: "slot_lookup d sub a \<in> {[], [RGet (slot_key (SlotId (Request sub)))]}" by (simp add: slot_lookup_def)
  let ?M = "RPipe (monitoring_calls L d i p (sender_of meta) t2 th t3)"
  have f: "v (final R ?P s) = ?run (trace R ?P s) (v s)"
    using final_trace [of ?P "v s"] reliable_run [OF assms(1), of ?P s] by simp
  let ?d1 = "?run (slot_lookup d sub a @ [NowNano]) (v s)"
  let ?d2 = "snd (store_step (snd (store_step ?d1 (RSet ?K (Js (enc_processed (TimeText L) p)) 600))) (RSAdd ?E i))"
  let ?rest = "[RExpire ?E 3600, NowNano, Now, Now, Now, ?M]"
  have fin: "v (final R ?P s) = ?run ?rest ?d2" unfolding f t by simp
  have d2: "map_of (strs ?d2) ?K = Some (Js (enc_processed (TimeText L) p))" "i \<in> set (sets ?d2 ?E)"
    by (auto simp: map_of_update)
  have keep: "map_of (strs (?run ?rest d)) k = map_of (strs d) k \<and> sets (?run ?rest d) k = sets d k"
    if "k \<notin> touches ?M" for k d
    by (rule untouched_fold) (use that in auto)
  have 1: "map_of (strs (v (final R ?P s))) ?K = Some (Js (enc_processed (TimeText L) p)) \<and>
      i \<in> set (sets (v (final R ?P s)) ?E)"
    if "kb_ok (sub_keys sub)" "SubProtocolState sub \<noteq> ''metrics''"
  proof -
    have pk: "ProtocolState (sub_keys sub) \<noteq> ''metrics''" using that(2) by (simp add: sub_keys_def)
    have "?K \<notin> touches ?M" "?E \<notin> touches ?M"
      unfolding ProcessedSubmission_def EpochProcessed_def
      by (rule monitoring_misses [OF that(1) pk assms(4)]; simp)+
    with keep d2 show ?thesis unfolding fin by metis
  qed
  have 2: "sets (v (final R ?P s)) (EpochProcessed kb e) = sets (v s) (EpochProcessed kb e)"
    if "kb_ok kb" "kb_ok (sub_keys sub)" "ProtocolState kb \<noteq> ''metrics''" "kb \<noteq> sub_keys sub" for kb e
  proof -
    have "EpochProcessed kb e \<noteq> ?E"
      using ns_inject [OF that(1,2)] that(4) by (auto simp: EpochProcessed_def)
    moreover have "EpochProcessed kb e \<notin> touches ?M"
      unfolding EpochProcessed_def by (rule monitoring_misses [OF that(1,3) assms(4)]) simp_all
    moreover have "sets ?d1 = sets (v s)" using look by auto
    ultimately show ?thesis using keep [of "EpochProcessed kb e" ?d2] unfolding fin by (auto split: if_splits)
  qed
  show ?thesis using p 1 2 by blast
qed

text \<open>C29. A submission that the dequeuer accepts is counted: after it is processed on a reliable store, its record is among
  the stored votes of its epoch in its own namespace and every collection's scans hand it out, as a vote for its project and
  CID. This is for names and ids in which SCAN's patterns give no other meaning to a character: the code does not escape
  them, and an id with a bracket or a backslash may miss its own record.\<close>

theorem accepted_submission_is_counted:
  assumes "reliable R v" and "outcome R (ProcessSubmission L ro d sub i meta) s = Some (Inr (), d')"
    and "map_of (processedSubmissions d) i = None" and "kb_ok (dqKeys d)" and "kb_ok (sub_keys sub)"
    and "SubProtocolState sub \<noteq> ''metrics''"
    and "glob_plain (SubProtocolState sub)" and "glob_plain (SubDataMarket sub)" and "glob_plain i"
  shows "(ProjectId (Request sub), SnapshotCid (Request sub)) \<in>
      set (stored_votes (v (final R (ProcessSubmission L ro d sub i meta) s))
        (SubProtocolState sub) (SubDataMarket sub) (unat (EpochId (Request sub)))) \<and>
    (ProjectId (Request sub), SnapshotCid (Request sub)) \<in>
      set (epoch_votes (v (final R (ProcessSubmission L ro d sub i meta) s))
        (SubProtocolState sub) (SubDataMarket sub) (unat (EpochId (Request sub))))"
proof -
  let ?d = "v (final R (ProcessSubmission L ro d sub i meta) s)"
  let ?K = "ProcessedSubmission (sub_keys sub) (dqSequencerID d) i"
  have kb: "NewKeyBuilder (SubProtocolState sub) (SubDataMarket sub) = sub_keys sub"
    by (simp add: NewKeyBuilder_def sub_keys_def)
  obtain p where p: "Submission p = sub" "map_of (strs ?d) ?K = Some (Js (enc_processed (TimeText L) p))"
    "i \<in> set (sets ?d (EpochProcessed (sub_keys sub) (show_u64 (EpochId (Request sub)))))"
    using accepted_store [OF assms(1-4)] assms(5,6) by blast
  have "ProjectId (Request sub) \<noteq> []" "SnapshotCid (Request sub) \<noteq> []"
    using accepted_valid [OF assms(2,3)] by (auto simp: validateSubmission_def split: if_splits)
  with parse_stored_processed [where q = p and tt = "TimeText L"] p(1,2)
  have va: "vote_at ?d ?K = Some (ProjectId (Request sub), SnapshotCid (Request sub))"
    by (auto simp: vote_at_def simp del: unmarshal_map.simps)
  have "?K \<in> set (stored_keys ?d (SubProtocolState sub) (SubDataMarket sub) i)"
    using processed_key_found [OF assms(7-9), of "dqSequencerID d"] p(2)
    by (auto simp: stored_keys_def kb image_iff dest!: map_of_SomeD intro: rev_bexI)
  with va p(3) have "(ProjectId (Request sub), SnapshotCid (Request sub)) \<in>
      set (stored_votes ?d (SubProtocolState sub) (SubDataMarket sub) (unat (EpochId (Request sub))))"
    by (force simp: stored_votes_def kb show_u64_def map_filter_def)
  then show ?thesis by (simp add: reported_votes(3))
qed

text \<open>It is counted nowhere else: the processed sets of every other namespace stay as they are. So a
  submission that leaves out its optional \<open>protocolState\<close>, or spells the market's address in another
  case, is verified, accepted, stored, and never counted in the window of its market.\<close>

theorem accepted_submission_uncounted_elsewhere:
  assumes "reliable R v" and "outcome R (ProcessSubmission L ro d sub i meta) s = Some (Inr (), d')"
    and "map_of (processedSubmissions d) i = None" and "kb_ok (dqKeys d)" and "kb_ok (sub_keys sub)"
    and "kb_ok (NewKeyBuilder protocolState dataMarket)" and "protocolState \<noteq> ''metrics''"
    and "protocolState \<noteq> SubProtocolState sub \<or> dataMarket \<noteq> SubDataMarket sub"
  shows "sets (v (final R (ProcessSubmission L ro d sub i meta) s))
      (EpochProcessed (NewKeyBuilder protocolState dataMarket) e) =
    sets (v s) (EpochProcessed (NewKeyBuilder protocolState dataMarket) e)"
proof -
  have "NewKeyBuilder protocolState dataMarket \<noteq> sub_keys sub"
    "ProtocolState (NewKeyBuilder protocolState dataMarket) \<noteq> ''metrics''"
    using assms(7,8) by (auto simp: NewKeyBuilder_def sub_keys_def)
  with accepted_store [OF assms(1-4)] assms(5,6) show ?thesis by blast
qed

section \<open>Examples\<close>

lemma demo_kb_ok: "kb_ok (dqKeys demo_dq)" "kb_ok (sub_keys demo_sub)"
  by (simp_all add: kb_ok_def colon_free_def demo_dq_def demo_sub_def sub_keys_def)

lemma demo_new: "map_of (processedSubmissions demo_dq) i = None"
  by (simp add: demo_dq_def)

theorem accepted_submission_is_counted_witness:
  "(''p'', ''Qm'') \<in> set (stored_votes (final store_step
     (ProcessSubmission demo_lib in_order demo_dq demo_sub ''i'' []) empty_store) ''0xP'' ''0xM'' 7)"
proof -
  obtain d' where o: "outcome store_step (ProcessSubmission demo_lib in_order demo_dq demo_sub ''i'' [])
      empty_store = Some (Inr (), d')" using demo_outcome by blast
  have m: "SubProtocolState demo_sub \<noteq> ''metrics''" "glob_plain (SubProtocolState demo_sub)" "glob_plain (SubDataMarket demo_sub)"
    "glob_plain ''i''" by (simp_all add: demo_sub_def glob_plain_def)
  have f: "ProjectId (Request demo_sub) = ''p''" "SnapshotCid (Request demo_sub) = ''Qm''"
    "SubProtocolState demo_sub = ''0xP''" "SubDataMarket demo_sub = ''0xM''"
    "unat (EpochId (Request demo_sub)) = 7" by (simp_all add: demo_sub_def)
  from accepted_submission_is_counted [OF reliable_store o demo_new demo_kb_ok m] show ?thesis
    unfolding f by blast
qed

theorem accepted_submission_uncounted_elsewhere_witness:
  "sets (final store_step (ProcessSubmission demo_lib in_order demo_dq demo_sub ''i'' []) empty_store)
     (EpochProcessed (NewKeyBuilder ''0xP'' ''0xm'') ''7'') = []"
proof -
  obtain d' where o: "outcome store_step (ProcessSubmission demo_lib in_order demo_dq demo_sub ''i'' [])
      empty_store = Some (Inr (), d')" using demo_outcome by blast
  have m: "kb_ok (NewKeyBuilder ''0xP'' ''0xm'')" "''0xP'' \<noteq> ''metrics''"
    "''0xP'' \<noteq> SubProtocolState demo_sub \<or> ''0xm'' \<noteq> SubDataMarket demo_sub"
    by (simp_all add: demo_sub_def kb_ok_def colon_free_def NewKeyBuilder_def)
  have "sets empty_store k = []" for k by (simp add: empty_store_def)
  with accepted_submission_uncounted_elsewhere [OF reliable_store o demo_new demo_kb_ok m, of "''7''"]
  show ?thesis by simp
qed

definition demo_wm :: windowManager where
  "demo_wm = \<lparr>activeWindows = [], semUsed = 0, maxWindows = 2, wmProtocol = ''P'', finalizationBatchSize = 20\<rparr>"

definition demo_stored :: store where
  "demo_stored = empty_store\<lparr>
     strs := [(''P:M:processed:v:i'', Js (JObj [(''Submission'',
       JObj [(''request'', JObj [(''projectId'', JStr ''p''), (''snapshotCid'', JStr ''QmSixteenLetters'')])])]))],
     sets := (\<lambda>k. if k = EpochProcessed (NewKeyBuilder ''P'' ''M'') (show_nat 7) then [''i''] else [])\<rparr>"

lemma demo_stored_votes: "epoch_votes demo_stored (wmProtocol demo_wm) ''M'' 7 = [(''p'', ''QmSixteenLetters'')]"
  "stored_votes demo_stored (wmProtocol demo_wm) ''M'' 7 = [(''p'', ''QmSixteenLetters'')]"
  "scans_fit 1 demo_stored (wmProtocol demo_wm) ''M'' 7" "scans_once demo_stored (wmProtocol demo_wm) ''M'' 7"
proof -
  have "processed_pattern ''P'' ''M'' ''i'' = ''P:M:processed:*:i''"
    by (simp add: processed_pattern_def ns_def NewKeyBuilder_def)
  then have g: "glob (processed_pattern ''P'' ''M'' ''i'') ''P:M:processed:v:i''"
    using processed_key_found [of "''P''" "''M''" "''i''" "''v''"]
    by (simp add: ProcessedSubmission_def ns_def NewKeyBuilder_def glob_plain_def)
  have pages: "scan_pages demo_stored p = [[''P:M:processed:v:i'']]" for p
    by (simp add: scan_pages_def demo_stored_def empty_store_def key_exists_def)
  show "epoch_votes demo_stored (wmProtocol demo_wm) ''M'' 7 = [(''p'', ''QmSixteenLetters'')]"
    "stored_votes demo_stored (wmProtocol demo_wm) ''M'' 7 = [(''p'', ''QmSixteenLetters'')]"
    using g pages by (simp_all add: epoch_votes_def stored_votes_def found_keys_def stored_keys_def demo_wm_def demo_stored_def
        vote_at_def parse_stored_def get_obj_def get_str_def map_filter_def)
  show "scans_fit 1 demo_stored (wmProtocol demo_wm) ''M'' 7" "scans_once demo_stored (wmProtocol demo_wm) ''M'' 7"
    by (simp_all add: scans_fit_def scans_once_def epoch_walks_def pages list_all_iff)
qed



end
