(* ===== verification/Batches.thy ===== *)
theory Batches
  imports Submissions Eip712
begin

text \<open>
  The batches that validators exchange: \<open>FinalizedBatch\<close> (\<open>pkgs/consensus/batch_generator.go\<close>)
  and \<open>ValidatorBatch\<close> (\<open>pkgs/consensus/p2p_consensus.go\<close>), their JSON forms, and the root
  over projects and CIDs. A nil slice or map and an empty one are one value here, written as the
  empty one (the two differ only in the text, \<open>null\<close> against \<open>[]\<close>). The key
  \<open>batch_ipfs_cid\<close> is the same in both structs, and keys match up to case: the last section
  shows what this makes of a finalized batch that is read as a validator's announcement.
\<close>

record finalizedBatch =
  fbEpochId :: u64
  ProjectIds :: "string list"
  SnapshotCids :: "string list"
  fbMerkleRoot :: "byte list"
  BlsSignature :: "byte list"
  SequencerId :: string
  fbTimestamp :: u64
  ProjectVotes :: "(string, u32) gomap"
  SubmissionDetails :: "(string, submissionMetadata list) gomap"
  ValidatorBatches :: "(string, string) gomap"
  fbIPFSCID :: string
  ValidatorCount :: int

record validatorBatch =
  ValidatorID :: string
  PeerID :: string
  vbEpochID :: u64
  vbIPFSCID :: string
  vbMerkleRoot :: string
  ProjectCount :: int
  vbTimestamp :: u64
  vbSignature :: string
  BatchData :: "finalizedBatch option"
  ReceivedAt :: int
  vbMetadata :: "(string, json) gomap"
  vbLocal :: bool

text \<open>\<open>vbLocal\<close>: the metadata was built by this process, not decoded, so its vote map is a
  \<open>map[string]uint32\<close>. Times are nanoseconds from 1970.\<close>

definition zero_batch :: finalizedBatch where
  "zero_batch = \<lparr>fbEpochId = 0, ProjectIds = [], SnapshotCids = [], fbMerkleRoot = [], BlsSignature = [],
     SequencerId = [], fbTimestamp = 0, ProjectVotes = [], SubmissionDetails = [], ValidatorBatches = [],
     fbIPFSCID = [], ValidatorCount = 0\<rparr>"

definition zero_vbatch :: validatorBatch where
  "zero_vbatch = \<lparr>ValidatorID = [], PeerID = [], vbEpochID = 0, vbIPFSCID = [], vbMerkleRoot = [],
     ProjectCount = 0, vbTimestamp = 0, vbSignature = [], BatchData = None, ReceivedAt = zero_time,
     vbMetadata = [], vbLocal = False\<rparr>"

section \<open>Encoding\<close>

definition enc_batch :: "finalizedBatch \<Rightarrow> json" where
  "enc_batch b = JObj ([(''EpochId'', JNum (uint (fbEpochId b))),
     (''ProjectIds'', JArr (map JStr (ProjectIds b))),
     (''SnapshotCids'', JArr (map JStr (SnapshotCids b))),
     (''MerkleRoot'', enc_bytes (fbMerkleRoot b)),
     (''BlsSignature'', enc_bytes (BlsSignature b)),
     (''SequencerId'', JStr (SequencerId b)),
     (''Timestamp'', JNum (uint (fbTimestamp b))),
     (''ProjectVotes'', JObj (map (\<lambda>(p, n). (p, JNum (uint n))) (ProjectVotes b))),
     (''submission_details'', JObj (map (\<lambda>(p, ms). (p, JArr (map enc_metadata ms))) (SubmissionDetails b)))] @
     omit (ValidatorBatches b = []) ''ValidatorBatches''
       (JObj (map (\<lambda>(v, c). (v, JStr c)) (ValidatorBatches b))) @
     omit (fbIPFSCID b = []) ''batch_ipfs_cid'' (JStr (fbIPFSCID b)) @
     omit (ValidatorCount b = 0) ''ValidatorCount'' (JNum (ValidatorCount b)))"

definition enc_vbatch :: "golib \<Rightarrow> validatorBatch \<Rightarrow> json" where
  "enc_vbatch L v = JObj ([(''validator_id'', JStr (ValidatorID v)), (''peer_id'', JStr (PeerID v)),
     (''epoch_id'', JNum (uint (vbEpochID v))), (''batch_ipfs_cid'', JStr (vbIPFSCID v)),
     (''merkle_root'', JStr (vbMerkleRoot v)), (''project_count'', JNum (ProjectCount v)),
     (''timestamp'', JNum (uint (vbTimestamp v))), (''signature'', JStr (vbSignature v)),
     (''received_at'', JStr (TimeText L (ReceivedAt v)))] @
     omit (vbMetadata v = []) ''metadata'' (JObj (vbMetadata v)))"

section \<open>Decoding\<close>

fun dec_batch :: "finalizedBatch dec" where
  "dec_batch cur (JObj kvs) =
     (let (e, oke) = dec_field ''EpochId'' dec_u64 kvs (fbEpochId cur);
          (ps, okps) = dec_field ''ProjectIds'' (dec_list [] dec_str) kvs (ProjectIds cur);
          (cs, okcs) = dec_field ''SnapshotCids'' (dec_list [] dec_str) kvs (SnapshotCids cur);
          (m, okm) = dec_field ''MerkleRoot'' dec_bytes kvs (fbMerkleRoot cur);
          (g, okg) = dec_field ''BlsSignature'' dec_bytes kvs (BlsSignature cur);
          (s, oks) = dec_field ''SequencerId'' dec_str kvs (SequencerId cur);
          (t, okt) = dec_field ''Timestamp'' dec_u64 kvs (fbTimestamp cur);
          (v, okv) = dec_field ''ProjectVotes'' (dec_map 0 dec_u32) kvs (ProjectVotes cur);
          (d, okd) = dec_field ''submission_details'' (dec_map [] (dec_list zero_metadata dec_metadata)) kvs
            (SubmissionDetails cur);
          (b, okb) = dec_field ''ValidatorBatches'' (dec_map [] dec_str) kvs (ValidatorBatches cur);
          (c, okc) = dec_field ''batch_ipfs_cid'' dec_str kvs (fbIPFSCID cur);
          (n, okn) = dec_field ''ValidatorCount'' dec_int kvs (ValidatorCount cur)
      in (\<lparr>fbEpochId = e, ProjectIds = ps, SnapshotCids = cs, fbMerkleRoot = m, BlsSignature = g,
            SequencerId = s, fbTimestamp = t, ProjectVotes = v, SubmissionDetails = d,
            ValidatorBatches = b, fbIPFSCID = c, ValidatorCount = n\<rparr>,
          oke \<and> okps \<and> okcs \<and> okm \<and> okg \<and> oks \<and> okt \<and> okv \<and> okd \<and> okb \<and> okc \<and> okn))"
| "dec_batch cur JNull = (cur, True)"
| "dec_batch cur _ = (cur, False)"

fun dec_time :: "golib \<Rightarrow> int dec" where
  "dec_time L cur (JStr s) = (case ParseTime L s of None \<Rightarrow> (cur, False) | Some t \<Rightarrow> (t, True))"
| "dec_time L cur JNull = (cur, True)"
| "dec_time L cur _ = (cur, False)"

fun dec_any_map :: "(string, json) gomap dec" where
  "dec_any_map cur (JObj kvs) = (kvs, True)"
| "dec_any_map cur JNull = ([], True)"
| "dec_any_map cur _ = (cur, False)"

fun dec_vbatch :: "golib \<Rightarrow> validatorBatch dec" where
  "dec_vbatch L cur (JObj kvs) =
     (let (i, oki) = dec_field ''validator_id'' dec_str kvs (ValidatorID cur);
          (p, okp) = dec_field ''peer_id'' dec_str kvs (PeerID cur);
          (e, oke) = dec_field ''epoch_id'' dec_u64 kvs (vbEpochID cur);
          (c, okc) = dec_field ''batch_ipfs_cid'' dec_str kvs (vbIPFSCID cur);
          (m, okm) = dec_field ''merkle_root'' dec_str kvs (vbMerkleRoot cur);
          (n, okn) = dec_field ''project_count'' dec_int kvs (ProjectCount cur);
          (t, okt) = dec_field ''timestamp'' dec_u64 kvs (vbTimestamp cur);
          (s, oks) = dec_field ''signature'' dec_str kvs (vbSignature cur);
          (r, okr) = dec_field ''received_at'' (dec_time L) kvs (ReceivedAt cur);
          (d, okd) = dec_field ''metadata'' dec_any_map kvs (vbMetadata cur)
      in (\<lparr>ValidatorID = i, PeerID = p, vbEpochID = e, vbIPFSCID = c, vbMerkleRoot = m,
            ProjectCount = n, vbTimestamp = t, vbSignature = s, BatchData = BatchData cur,
            ReceivedAt = r, vbMetadata = d, vbLocal = vbLocal cur\<rparr>,
          oki \<and> okp \<and> oke \<and> okc \<and> okm \<and> okn \<and> okt \<and> oks \<and> okr \<and> okd))"
| "dec_vbatch L cur JNull = (cur, True)"
| "dec_vbatch L cur _ = (cur, False)"

text \<open>\<open>json.Unmarshal\<close> into a fresh struct: what was filled in, and whether there was no error.\<close>

definition decode_batch :: "blob \<Rightarrow> finalizedBatch \<times> bool" where
  "decode_batch b = (case unmarshal b of None \<Rightarrow> (zero_batch, False) | Some j \<Rightarrow> dec_batch zero_batch j)"

definition decode_vbatch :: "golib \<Rightarrow> blob \<Rightarrow> validatorBatch \<times> bool" where
  "decode_vbatch L b = (case unmarshal b of None \<Rightarrow> (zero_vbatch, False) | Some j \<Rightarrow> dec_vbatch L zero_vbatch j)"

section \<open>The root over projects and CIDs\<close>

text \<open>The text that is hashed: \<open>None\<close> is the index panic of a list of CIDs that is too short.\<close>

fun combined_text :: "string list \<Rightarrow> string list \<Rightarrow> string option" where
  "combined_text [] cs = Some []"
| "combined_text (p # ps) [] = None"
| "combined_text (p # ps) (c # cs) = map_option (\<lambda>r. p @ '':'' @ c @ '','' @ r) (combined_text ps cs)"

definition merkle_root :: "golib \<Rightarrow> string list \<Rightarrow> string list \<Rightarrow> byte list option" where
  "merkle_root L ps cs = map_option (\<lambda>s. Sha256 L (text_bytes s)) (combined_text ps cs)"

lemma combined_text_None: "combined_text ps cs = None \<longleftrightarrow> length cs < length ps"
  by (induction ps cs rule: combined_text.induct) auto

lemma merkle_root_None: "merkle_root L ps cs = None \<longleftrightarrow> length cs < length ps"
  by (simp add: merkle_root_def combined_text_None)

section \<open>Round trips\<close>

lemma lower_batch_names [json_simps]:
  "lower ''EpochId'' = ''epochid''"
  "lower ''ProjectIds'' = ''projectids''"
  "lower ''SnapshotCids'' = ''snapshotcids''"
  "lower ''MerkleRoot'' = ''merkleroot''"
  "lower ''BlsSignature'' = ''blssignature''"
  "lower ''SequencerId'' = ''sequencerid''"
  "lower ''Timestamp'' = ''timestamp''"
  "lower ''ProjectVotes'' = ''projectvotes''"
  "lower ''submission_details'' = ''submission_details''"
  "lower ''ValidatorBatches'' = ''validatorbatches''"
  "lower ''batch_ipfs_cid'' = ''batch_ipfs_cid''"
  "lower ''ValidatorCount'' = ''validatorcount''"
  "lower ''validator_id'' = ''validator_id''"
  "lower ''peer_id'' = ''peer_id''"
  "lower ''merkle_root'' = ''merkle_root''"
  "lower ''project_count'' = ''project_count''"
  "lower ''received_at'' = ''received_at''"
  "lower ''metadata'' = ''metadata''"
  by (simp_all add: lower_def lower_char_def)

lemmas batch_fields = field_omit field_omit_last dec_field_def lower_batch_names lower_names

text \<open>The counts of a batch are Go \<open>int\<close>s.\<close>

definition batch_ok :: "finalizedBatch \<Rightarrow> bool" where
  "batch_ok b \<longleftrightarrow> int63 (ValidatorCount b) \<and>
     (\<forall>(p, ms) \<in> set (SubmissionDetails b). \<forall>m \<in> set ms. int63 (VoteCount m))"

lemma dec_strs: "dec_list [] dec_str cur (JArr (map JStr xs)) = (xs, True)"
  by (rule dec_list_map) simp

lemma dec_details:
  assumes "\<forall>(p, ms) \<in> set d. \<forall>m \<in> set ms. int63 (VoteCount m)"
  shows "dec_map [] (dec_list zero_metadata dec_metadata) cur
      (JObj (map (\<lambda>(p, ms). (p, JArr (map enc_metadata ms))) d)) = (d, True)"
proof (rule dec_map_map)
  fix p ms
  assume "(p, ms) \<in> set d"
  then have "\<And>m. m \<in> set ms \<Longrightarrow> dec_metadata zero_metadata (enc_metadata m) = (m, True)"
    using assms dec_enc_metadata by (auto simp: int63_def)
  then show "dec_list zero_metadata dec_metadata [] (JArr (map enc_metadata ms)) = (ms, True)"
    by (rule dec_list_map)
qed

lemma decode_enc_batch:
  assumes "batch_ok b"
  shows "decode_batch (Js (enc_batch b)) = (b, True)"
proof -
  have v: "dec_map 0 dec_u32 cur (JObj (map (\<lambda>(p, n). (p, JNum (uint n))) m)) = (m, True)" for cur m
    by (rule dec_map_map) (rule dec_u32_exact)
  have c: "dec_map [] dec_str cur (JObj (map (\<lambda>(p, s). (p, JStr s)) m)) = (m, True)" for cur m
    by (rule dec_map_map) simp
  have d: "dec_map [] (dec_list zero_metadata dec_metadata) cur
      (JObj (map (\<lambda>(p, ms). (p, JArr (map enc_metadata ms))) (SubmissionDetails b))) =
      (SubmissionDetails b, True)" for cur
    using assms by (intro dec_details) (simp add: batch_ok_def)
  have n: "int63 (ValidatorCount b)" using assms by (simp add: batch_ok_def)
  show ?thesis
    using n d
    by (cases b) (simp add: decode_batch_def enc_batch_def zero_batch_def batch_fields Let_def int63_def
        dec_u64_exact v c dec_strs dec_enc_bytes del: dec_u64.simps dec_list.simps dec_map.simps)
qed

text \<open>A finalized batch read as a validator's announcement: no error, its CID, and no validator.\<close>

lemma batch_as_vbatch:
  "decode_vbatch L (Js (enc_batch b)) =
     (zero_vbatch\<lparr>vbIPFSCID := fbIPFSCID b, vbTimestamp := fbTimestamp b\<rparr>, True)"
  by (simp add: decode_vbatch_def enc_batch_def zero_vbatch_def batch_fields Let_def dec_u64_exact
      del: dec_u64.simps)

text \<open>An announcement read as a finalized batch: neither projects nor votes.\<close>

lemma vbatch_as_batch:
  "decode_batch (Js (enc_vbatch L v)) =
     (zero_batch\<lparr>fbIPFSCID := vbIPFSCID v, fbTimestamp := vbTimestamp v\<rparr>, True)"
  by (simp add: decode_batch_def enc_vbatch_def zero_batch_def batch_fields Let_def dec_u64_exact
      del: dec_u64.simps)

lemma decode_enc_vbatch:
  assumes "ParseTime L (TimeText L (ReceivedAt v)) = Some (ReceivedAt v)" and "int63 (ProjectCount v)"
  shows "decode_vbatch L (Js (enc_vbatch L v)) = (v\<lparr>BatchData := None, vbLocal := False\<rparr>, True)"
  using assms
  by (cases v) (simp add: decode_vbatch_def enc_vbatch_def zero_vbatch_def batch_fields Let_def int63_def
      dec_u64_exact del: dec_u64.simps)

text \<open>A finalized batch survives the network: decoding its JSON gives the batch back, every field of it
  and of its submissions' metadata, without an error. (For counts that fit a Go \<open>int\<close>.)\<close>

theorem batch_roundtrip:
  assumes "batch_ok b"
  shows "decode_batch (Js (enc_batch b)) = (b, True)"
  by (rule decode_enc_batch [OF assms])

theorem batch_roundtrip_witness:
  "decode_batch (Js (enc_batch (zero_batch\<lparr>ProjectIds := [''p''], fbMerkleRoot := [1, 255], ProjectVotes := [(''p'', 3)]\<rparr>))) =
     (zero_batch\<lparr>ProjectIds := [''p''], fbMerkleRoot := [1, 255], ProjectVotes := [(''p'', 3)]\<rparr>, True)"
  by (rule batch_roundtrip) (simp add: batch_ok_def zero_batch_def int63_def)

end
