(* ===== verification/Aggregator.thy ===== *)
theory Aggregator
  imports Batches Finalizer
begin

text \<open>
  \<open>cmd/aggregator/main.go\<close>. Level 1 joins the parts that the finalizers stored into the local
  finalized batch, stores it and queues it for broadcast. Level 2 waits for a window after the
  first announcement of an epoch on the stream, then merges the local batch with those of the
  other validators. A pending \<open>time.AfterFunc\<close> is an entry of \<open>epochTimers\<close>;
  \<open>window_expires\<close> is its function. \<open>epochBatches\<close> is never used by the code. The reading of the
  stream is in \<open>Consumer\<close>; \<open>reportMetrics\<close>, which only logs, is left out.
\<close>

record aggregator =
  agKeys :: keyBuilder
  agSequencerID :: string
  agIpfs :: bool
  agGroup :: string
  epochTimers :: "(u64, string) gomap"

record xMessage =
  xID :: string
  xValues :: "(string, string) gomap"

text \<open>The values of a stream entry as its reader gets them.\<close>

definition as_message :: "string \<Rightarrow> (string \<times> blob) list \<Rightarrow> xMessage" where
  "as_message i fs = \<lparr>xID = i, xValues = map (\<lambda>(f, x). (f, field_text (Some x))) fs\<rparr>"

definition NewAggregator :: "string \<Rightarrow> string list \<Rightarrow> string \<Rightarrow> bool \<Rightarrow> string \<Rightarrow> aggregator" where
  "NewAggregator protocolState markets sequencerID ipfsClient grp =
     \<lparr>agKeys = NewKeyBuilder protocolState (case markets of [] \<Rightarrow> [] | m # _ \<Rightarrow> m),
      agSequencerID = sequencerID, agIpfs = ipfsClient, agGroup = grp, epochTimers = []\<rparr>"

section \<open>The stream\<close>

definition startAggregationWindow :: "golib \<Rightarrow> string \<Rightarrow> aggregator \<Rightarrow> aggregator" where
  "startAggregationWindow L epochIDStr a =
     (case parseEpochID L epochIDStr of
        None \<Rightarrow> a
      | Some epochID \<Rightarrow>
          if map_of (epochTimers a) epochID \<noteq> None then a
          else a\<lparr>epochTimers := AList.update epochID epochIDStr (epochTimers a)\<rparr>)"

definition stream_fields :: "string list" where
  "stream_fields = [''epoch'', ''validator'', ''batch_key'', ''timestamp'', ''type'']"

definition processStreamMessage :: "golib \<Rightarrow> aggregator \<Rightarrow> xMessage \<Rightarrow> (bool \<times> aggregator) prog" where
  "processStreamMessage L a message =
     (if \<exists>f \<in> set stream_fields. map_of (xValues message) f = None then Ret (False, a)
      else
        let epoch = mget [] (xValues message) ''epoch'' in
        if mget [] (xValues message) ''type'' \<noteq> ''validator_batch'' then Ret (True, a)
        else Call (RExists (BatchAggregated (agKeys a) epoch)) (\<lambda>r. case r of
          IntR n \<Rightarrow> if 0 < n then Ret (True, a) else Ret (True, startAggregationWindow L epoch a)
        | _ \<Rightarrow> Ret (False, a)))"

text \<open>The map among the values is handed to the client library, which decides what becomes of it.\<close>

definition moveToDeadLetterQueue :: "aggregator \<Rightarrow> string \<Rightarrow> xMessage \<Rightarrow> unit prog" where
  "moveToDeadLetterQueue a streamKey message =
     Call Now (\<lambda>t.
     Call (RXAdd (streamKey @ '':dlq'')
       [(''original_id'', Txt (xID message)),
        (''values'', Js (JObj (map (\<lambda>(k, v). (k, JStr v)) (xValues message)))),
        (''error_time'', Js (JNum (int_of t))), (''consumer_group'', Txt (agGroup a)),
        (''error_reason'', Txt ''processing_failed'')]) (\<lambda>_.
     exec (RXAck streamKey (agGroup a) (xID message))))"

definition handle_message :: "golib \<Rightarrow> xMessage \<Rightarrow> aggregator \<Rightarrow> aggregator prog" where
  "handle_message L message a =
     bindp (processStreamMessage L a message) (\<lambda>(ok, a').
       if ok then Ret a'
       else bindp (moveToDeadLetterQueue a (AggregationStream (agKeys a)) message) (\<lambda>_. Ret a'))"

section \<open>Level 1: joining the parts\<close>

definition set_str :: "string \<Rightarrow> (string, json) gomap \<Rightarrow> string \<Rightarrow> string" where
  "set_str k m z = (case get_str k m of None \<Rightarrow> z | Some s \<Rightarrow> s)"

definition set_u64 :: "golib \<Rightarrow> string \<Rightarrow> (string, json) gomap \<Rightarrow> u64" where
  "set_u64 L k m = (case get_num k m of None \<Rightarrow> 0 | Some n \<Rightarrow> u64_of_float L n)"

definition part_metadata :: "golib \<Rightarrow> string \<Rightarrow> (string, json) gomap \<Rightarrow> submissionMetadata" where
  "part_metadata L sequencerID m =
     \<lparr>SubmitterID = set_str ''submitter_id'' m [], SnapshotCID = set_str ''snapshot_cid'' m [],
      MdTimestamp = set_u64 L ''timestamp'' m, MdSignature = text_bytes (set_str ''signature'' m []),
      SlotID = set_u64 L ''slot_id'' m, VoteCount = 1, ValidatorsConfirming = [sequencerID]\<rparr>"

record partsState =
  psProjectIDs :: "string list"
  psSnapshotCIDs :: "string list"
  psVotes :: "(string, u32) gomap"
  psDetails :: "(string, submissionMetadata list) gomap"

definition add_project :: "golib \<Rightarrow> string \<Rightarrow> string \<times> json \<Rightarrow> partsState \<Rightarrow> partsState" where
  "add_project L sequencerID x st =
     (case Option.bind (as_obj (snd x)) (\<lambda>m. map_option (\<lambda>c. (m, c)) (get_str ''cid'' m)) of
        None \<Rightarrow> st
      | Some (m, cid) \<Rightarrow>
          \<lparr>psProjectIDs = psProjectIDs st @ [fst x], psSnapshotCIDs = psSnapshotCIDs st @ [cid],
           psVotes = AList.update (fst x)
             (case get_num ''votes'' m of Some n \<Rightarrow> u32_of_float L n | None \<Rightarrow> 1) (psVotes st),
           psDetails = (case get_arr ''submission_metadata'' m of
               None \<Rightarrow> psDetails st
             | Some js \<Rightarrow> AList.update (fst x)
                 (map (part_metadata L sequencerID) (List.map_filter as_obj js)) (psDetails st))\<rparr>)"

definition join_projects :: "golib \<Rightarrow> range_order \<Rightarrow> string \<Rightarrow> (string, json) gomap \<Rightarrow> partsState" where
  "join_projects L ro sequencerID projectSubmissions =
     fold (add_project L sequencerID) (range_map ro ''projectSubmissions'' projectSubmissions)
       \<lparr>psProjectIDs = [], psSnapshotCIDs = [], psVotes = [], psDetails = []\<rparr>"

definition createFinalizedBatchFromParts ::
  "golib \<Rightarrow> range_order \<Rightarrow> string \<Rightarrow> u64 \<Rightarrow> (string, json) gomap \<Rightarrow> finalizedBatch prog" where
  "createFinalizedBatchFromParts L ro sequencerID epochID projectSubmissions =
     (let st = join_projects L ro sequencerID projectSubmissions in
      or_panic (merkle_root L (psProjectIDs st) (psSnapshotCIDs st)) (\<lambda>root.
      Call Now (\<lambda>t. Ret (zero_batch\<lparr>fbEpochId := epochID, ProjectIds := psProjectIDs st,
        SnapshotCids := psSnapshotCIDs st, fbMerkleRoot := root, SequencerId := sequencerID,
        fbTimestamp := word_of_int (int_of t), ProjectVotes := psVotes st,
        SubmissionDetails := psDetails st\<rparr>))))"

text \<open>A part is merged into the results and its key deleted; one that is missing or unreadable is
  skipped. Keys are distinct, so the order of the merge within a part does not matter.\<close>

definition merge_into :: "(string, 'v) gomap \<Rightarrow> (string, 'v) gomap \<Rightarrow> (string, 'v) gomap" where
  "merge_into part acc = fold (\<lambda>(p, x) m. AList.update p x m) part acc"

definition collect_part ::
  "keyBuilder \<Rightarrow> string \<Rightarrow> nat \<Rightarrow> (string, json) gomap \<Rightarrow> (string, json) gomap prog" where
  "collect_part kb epochStr i acc =
     (let partKey = BatchPart kb epochStr (int i) in
      Call (RGet partKey) (\<lambda>r. case r of
        BlobR data \<Rightarrow>
          (case unmarshal_map data of
             None \<Rightarrow> Ret acc
           | Some m \<Rightarrow> Call (RDel [partKey]) (\<lambda>_.
               Ret (merge_into (case m of None \<Rightarrow> [] | Some kvs \<Rightarrow> kvs) acc)))
      | _ \<Rightarrow> Ret acc))"

definition store_in_ipfs :: "bool \<Rightarrow> finalizedBatch \<Rightarrow> finalizedBatch prog" where
  "store_in_ipfs client b =
     (if client
      then Call (IpfsAdd (enc_batch b)) (\<lambda>r. case r of CidR c \<Rightarrow> Ret (b\<lparr>fbIPFSCID := c\<rparr>) | _ \<Rightarrow> Ret b)
      else Ret b)"

definition local_metrics :: "aggregator \<Rightarrow> u64 \<Rightarrow> int \<Rightarrow> finalizedBatch \<Rightarrow> int \<Rightarrow> call list" where
  "local_metrics a epochID totalParts b now =
     [RZAdd (MetricsBatchesTimeline (agKeys a)) now (''local:'' @ show_u64 epochID),
      RSet (MetricsBatchLocal (agKeys a) (show_u64 epochID))
        (Js (JObj [(''epoch_id'', JNum (uint epochID)), (''type'', JStr ''local''),
           (''validator_id'', JStr (agSequencerID a)), (''ipfs_cid'', JStr (fbIPFSCID b)),
           (''merkle_root'', enc_bytes (fbMerkleRoot b)),
           (''project_count'', JNum (int (length (ProjectIds b)))),
           (''parts_merged'', JNum totalParts), (''timestamp'', JNum now)])) 86400,
      RZAdd (MetricsValidatorBatches (agKeys a) (agSequencerID a)) now (show_u64 epochID),
      RPublish ''state:change'' (''batch:local:'' @ show_u64 epochID)]"

definition broadcast_msg :: "u64 \<Rightarrow> finalizedBatch \<Rightarrow> blob" where
  "broadcast_msg epochID b =
     Js (JObj [(''type'', JStr ''finalized_batch''), (''epochId'', JNum (uint epochID)), (''data'', enc_batch b)])"

definition publish_local ::
  "aggregator \<Rightarrow> string \<Rightarrow> u64 \<Rightarrow> int \<Rightarrow> finalizedBatch \<Rightarrow> unit prog" where
  "publish_local a epochIDStr epochID totalParts b =
     Call (RSet (FinalizedBatch (agKeys a) (show_u64 epochID)) (Js (enc_batch b)) 86400) (\<lambda>r.
     if r = ErrR then Ret ()
     else Call Now (\<lambda>t.
       execs [RPipe (local_metrics a epochID totalParts b (int_of t)),
         RLPush (OutgoingBroadcastBatch (agKeys a)) (broadcast_msg epochID b),
         RDel [EpochPartsCompleted (agKeys a) epochIDStr, EpochPartsTotal (agKeys a) epochIDStr,
           EpochPartsReady (agKeys a) epochIDStr]]))"

definition aggregateWorkerParts ::
  "golib \<Rightarrow> range_order \<Rightarrow> aggregator \<Rightarrow> string \<Rightarrow> int \<Rightarrow> unit prog" where
  "aggregateWorkerParts L ro a epochIDStr totalParts =
     (case parseEpochID L epochIDStr of
        None \<Rightarrow> Ret ()
      | Some epochID \<Rightarrow>
          bindp (for_each (collect_part (agKeys a) (show_u64 epochID)) [0 ..< nat totalParts] []) (\<lambda>results.
          bindp (createFinalizedBatchFromParts L ro (agSequencerID a) epochID results) (\<lambda>b0.
          bindp (store_in_ipfs (agIpfs a) b0) (\<lambda>b.
          publish_local a epochIDStr epochID totalParts b))))"

text \<open>One turn of the queue loop: an entry without a text \<open>epoch_id\<close> and a number of parts panics.\<close>

definition level1_round :: "golib \<Rightarrow> range_order \<Rightarrow> aggregator \<Rightarrow> unit prog" where
  "level1_round L ro a =
     Call (RBRPop (AggregationQueueLevel1 (agKeys a))) (\<lambda>r. case r of
       BlobR data \<Rightarrow>
         (case unmarshal_map data of
            None \<Rightarrow> Ret ()
          | Some m \<Rightarrow>
              let aggData = (case m of None \<Rightarrow> [] | Some kvs \<Rightarrow> kvs) in
              or_panic (get_str ''epoch_id'' aggData) (\<lambda>epochIDStr.
              or_panic (get_num ''parts_completed'' aggData) (\<lambda>n.
              aggregateWorkerParts L ro a epochIDStr (int_of_float L n))))
     | _ \<Rightarrow> Ret ())"

section \<open>Level 2: merging the validators' batches\<close>

record mergeState =
  mgEpochId :: u64
  mgDetails :: "(string, submissionMetadata list) gomap"
  mgVotes :: "(string, u32) gomap"
  mgViews :: "(string, finalizedBatch) gomap"
  mgCIDs :: "(string, string) gomap"

definition append_details ::
  "(string, submissionMetadata list) gomap \<Rightarrow> (string, submissionMetadata list) gomap \<Rightarrow>
     (string, submissionMetadata list) gomap" where
  "append_details new old = fold (\<lambda>(p, subs) d. AList.update p (mget [] d p @ subs) d) new old"

text \<open>The local batch comes first and its votes are taken as they are.\<close>

definition start_merge :: "finalizedBatch option \<Rightarrow> mergeState" where
  "start_merge ourBatch =
     (case ourBatch of
        None \<Rightarrow> \<lparr>mgEpochId = 0, mgDetails = [], mgVotes = [], mgViews = [], mgCIDs = []\<rparr>
      | Some b \<Rightarrow> \<lparr>mgEpochId = fbEpochId b, mgDetails = append_details (SubmissionDetails b) [],
          mgVotes = fold (\<lambda>(p, subs) v. AList.update p (mget 0 (ProjectVotes b) p) v) (SubmissionDetails b) [],
          mgViews = [(SequencerId b, b)], mgCIDs = []\<rparr>)"

text \<open>For each project with submissions, the larger of the two counts.\<close>

definition max_votes :: "finalizedBatch \<Rightarrow> (string, u32) gomap \<Rightarrow> (string, u32) gomap" where
  "max_votes b votes =
     fold (\<lambda>(p, subs) v.
        case map_of v p of
          None \<Rightarrow> AList.update p (mget 0 (ProjectVotes b) p) v
        | Some current \<Rightarrow>
            if current < mget 0 (ProjectVotes b) p then AList.update p (mget 0 (ProjectVotes b) p) v else v)
       (SubmissionDetails b) votes"

definition merge_view :: "string \<Rightarrow> finalizedBatch \<Rightarrow> mergeState \<Rightarrow> mergeState" where
  "merge_view validatorID b st =
     st\<lparr>mgEpochId := (if mgEpochId st = 0 then fbEpochId b else mgEpochId st),
        mgViews := AList.update validatorID b (mgViews st),
        mgDetails := append_details (SubmissionDetails b) (mgDetails st),
        mgVotes := max_votes b (mgVotes st)\<rparr>"

text \<open>An incoming batch is first read as a \<open>ValidatorBatch\<close> with a CID, then as a \<open>FinalizedBatch\<close>.\<close>

definition read_incoming :: "golib \<Rightarrow> string \<Rightarrow> blob \<Rightarrow> mergeState \<Rightarrow> mergeState" where
  "read_incoming L key batchData st =
     (let (vBatch, vok) = decode_vbatch L batchData; (batch, ok) = decode_batch batchData in
      if vok \<and> vbIPFSCID vBatch \<noteq> []
      then
        let st' = st\<lparr>mgCIDs := AList.update (ValidatorID vBatch) (vbIPFSCID vBatch) (mgCIDs st)\<rparr> in
        if ok then merge_view (ValidatorID vBatch) batch st' else st'
      else if \<not> ok then st
      else
        let parts = split_on CHR '':'' key;
            validatorID = (if SequencerId batch \<noteq> [] then SequencerId batch
              else if 4 \<le> length parts then parts ! 3 else []) in
        merge_view validatorID batch st)"

definition merge_incoming :: "golib \<Rightarrow> string \<Rightarrow> mergeState \<Rightarrow> mergeState prog" where
  "merge_incoming L key st =
     Call (RGet key) (\<lambda>r. case r of BlobR d \<Rightarrow> Ret (read_incoming L key d st) | _ \<Rightarrow> Ret st)"

text \<open>One entry per submitter and CID; a repeated one adds its validators and one vote.\<close>

definition sub_key :: "submissionMetadata \<Rightarrow> string" where
  "sub_key m = SubmitterID m @ '':'' @ SnapshotCID m"

definition merge_sub ::
  "submissionMetadata \<Rightarrow> (string, submissionMetadata) gomap \<Rightarrow> (string, submissionMetadata) gomap" where
  "merge_sub m merged =
     (case map_of merged (sub_key m) of
        Some e \<Rightarrow> AList.update (sub_key m)
          (e\<lparr>ValidatorsConfirming := ValidatorsConfirming e @ ValidatorsConfirming m,
             VoteCount := VoteCount e + 1\<rparr>) merged
      | None \<Rightarrow> AList.update (sub_key m) m merged)"

definition merge_subs :: "range_order \<Rightarrow> string \<Rightarrow> submissionMetadata list \<Rightarrow> submissionMetadata list" where
  "merge_subs ro projectID subs =
     map snd (range_map ro (''merged:'' @ projectID) (fold merge_sub subs []))"

text \<open>The CID that most merged submissions name.\<close>

definition consensus_step :: "string \<times> int \<Rightarrow> string \<times> int \<Rightarrow> string \<times> int" where
  "consensus_step x best = (let (cid, n) = x; (consensusCID, maxCount) = best in
     if maxCount < n then (cid, n) else (consensusCID, maxCount))"

definition pick_cid :: "(string \<times> int) list \<Rightarrow> string \<times> int" where
  "pick_cid counts = fold consensus_step counts ('''', 0)"

interpretation consensus_pick: plurality pick_cid
  by unfold_locales (simp_all add: pick_cid_def consensus_step_def case_prod_unfold Let_def)

definition cid_counts :: "submissionMetadata list \<Rightarrow> (string, int) gomap" where
  "cid_counts subs = fold (\<lambda>m. bump (SnapshotCID m)) subs []"

definition consensus_cid :: "range_order \<Rightarrow> string \<Rightarrow> submissionMetadata list \<Rightarrow> string" where
  "consensus_cid ro projectID subs =
     fst (pick_cid (range_map ro (''cidCounts:'' @ projectID) (cid_counts subs)))"

definition finish_merge :: "golib \<Rightarrow> range_order \<Rightarrow> string \<Rightarrow> u64 \<Rightarrow> mergeState \<Rightarrow> finalizedBatch option" where
  "finish_merge L ro sequencerID now st =
     (let details = map (\<lambda>(p, subs). (p, merge_subs ro p subs)) (mgDetails st);
          projectIDs = map fst (range_map ro ''ProjectVotes'' (mgVotes st));
          snapshotCIDs = map (\<lambda>p. consensus_cid ro p (mget [] details p)) projectIDs in
      map_option (\<lambda>root. zero_batch\<lparr>fbEpochId := mgEpochId st, ProjectIds := projectIDs,
          SnapshotCids := snapshotCIDs, fbMerkleRoot := root, SequencerId := sequencerID,
          fbTimestamp := now, ProjectVotes := mgVotes st, SubmissionDetails := details,
          ValidatorBatches := mgCIDs st, ValidatorCount := int (length (mgViews st))\<rparr>)
        (merkle_root L projectIDs snapshotCIDs))"

definition createAggregatedBatch ::
  "golib \<Rightarrow> range_order \<Rightarrow> string \<Rightarrow> finalizedBatch option \<Rightarrow> string list \<Rightarrow> finalizedBatch prog" where
  "createAggregatedBatch L ro sequencerID ourBatch incomingKeys =
     Call Now (\<lambda>t.
     bindp (for_each (merge_incoming L) incomingKeys (start_merge ourBatch)) (\<lambda>st.
     or_panic (finish_merge L ro sequencerID (word_of_int (int_of t)) st) Ret))"

definition extractValidatorIDs :: "string list \<Rightarrow> string list" where
  "extractValidatorIDs ks =
     List.map_filter (\<lambda>key. let parts = split_on CHR '':'' key in
       if 6 \<le> length parts then Some (parts ! 5) else None) ks"

definition aggregated_metrics ::
  "golib \<Rightarrow> aggregator \<Rightarrow> string \<Rightarrow> nat \<Rightarrow> string list \<Rightarrow> finalizedBatch \<Rightarrow> int \<Rightarrow> call list" where
  "aggregated_metrics L a epochIDStr totalValidators incomingKeys b now =
     (let epochID = (case parseEpochID L epochIDStr of None \<Rightarrow> 0 | Some e \<Rightarrow> e);
          ids = extractValidatorIDs incomingKeys in
      [RZAdd (MetricsBatchesTimeline (agKeys a)) now (''aggregated:'' @ FormatEpochID (JStr epochIDStr)),
       RSet (MetricsBatchAggregated (agKeys a) epochIDStr)
         (Js (JObj [(''epoch_id'', JNum (uint epochID)), (''type'', JStr ''aggregated''),
            (''validators_count'', JNum (int totalValidators)),
            (''project_count'', JNum (int (length (ProjectVotes b)))), (''timestamp'', JNum now),
            (''validator_ids'', JArr (map JStr ids)), (''ipfs_cid'', JStr (fbIPFSCID b)),
            (''merkle_root'', enc_bytes (fbMerkleRoot b))])) 86400,
       RSet (MetricsBatchValidators (agKeys a) epochIDStr)
         (Js (JArr (map JStr (ids @ [agSequencerID a])))) 86400,
       RPublish ''state:change'' (''batch:aggregated:'' @ epochIDStr)])"

definition our_batch :: "reply \<Rightarrow> finalizedBatch option" where
  "our_batch r = (case r of
       BlobR d \<Rightarrow> if d = Txt [] then None else Some (fst (decode_batch d))
     | _ \<Rightarrow> None)"

definition incoming_keys :: "aggregator \<Rightarrow> string \<Rightarrow> reply \<Rightarrow> string list" where
  "incoming_keys a epochIDStr r =
     map (IncomingBatch (agKeys a) epochIDStr)
       (filter (\<lambda>v. v \<noteq> agSequencerID a) (case r of StrsR vs \<Rightarrow> vs | _ \<Rightarrow> []))"

definition store_aggregated ::
  "golib \<Rightarrow> aggregator \<Rightarrow> string \<Rightarrow> bool \<Rightarrow> string list \<Rightarrow> finalizedBatch \<Rightarrow> unit prog" where
  "store_aggregated L a epochIDStr own incomingKeys b =
     Call (RSet (BatchAggregated (agKeys a) epochIDStr) (Js (enc_batch b)) 86400) (\<lambda>r.
     if r = ErrR then Ret ()
     else Call Now (\<lambda>t.
       let totalValidators = length incomingKeys + (if own then 1 else 0) in
       execs [RPipe (aggregated_metrics L a epochIDStr totalValidators incomingKeys b (int_of t)),
         RDel (FinalizedBatch (agKeys a) epochIDStr # incomingKeys)]))"

definition aggregateEpoch :: "golib \<Rightarrow> range_order \<Rightarrow> aggregator \<Rightarrow> string \<Rightarrow> unit prog" where
  "aggregateEpoch L ro a epochIDStr =
     Call (RExists (BatchAggregated (agKeys a) epochIDStr)) (\<lambda>r. case r of
       IntR n \<Rightarrow>
         if 0 < n then Ret ()
         else
           Call (RGet (FinalizedBatch (agKeys a) epochIDStr)) (\<lambda>r1.
           Call (RSMembers (EpochValidators (agKeys a) epochIDStr)) (\<lambda>r2.
           let ourBatch = our_batch r1; incomingKeys = incoming_keys a epochIDStr r2 in
           bindp (createAggregatedBatch L ro (agSequencerID a) ourBatch incomingKeys) (\<lambda>b0.
           bindp (store_in_ipfs (agIpfs a) b0) (\<lambda>b.
           store_aggregated L a epochIDStr (ourBatch \<noteq> None) incomingKeys b))))
     | _ \<Rightarrow> Ret ())"

text \<open>The function of the window's timer.\<close>

definition window_expires :: "golib \<Rightarrow> range_order \<Rightarrow> u64 \<Rightarrow> aggregator \<Rightarrow> aggregator prog" where
  "window_expires L ro epochID a =
     (case map_of (epochTimers a) epochID of
        None \<Rightarrow> Ret a
      | Some epochIDStr \<Rightarrow>
          bindp (aggregateEpoch L ro a epochIDStr) (\<lambda>_.
          Ret (a\<lparr>epochTimers := AList.delete epochID (epochTimers a)\<rparr>)))"
lemma store_in_ipfs_store: "\<exists>c. run store_step (store_in_ipfs client b) d = (Some (b\<lparr>fbIPFSCID := c\<rparr>), d)"
proof -
  have "\<exists>c. b = b\<lparr>fbIPFSCID := c\<rparr>" by (rule exI [of _ "fbIPFSCID b"]) simp
  then show ?thesis
    by (cases "ipfs d (enc_batch b)") (auto simp: store_in_ipfs_def run_Call)
qed

definition demo_agg :: aggregator where
  "demo_agg = NewAggregator ''P'' [''M''] ''v1'' False ''g''"

end
