(* ===== verification/Level1.thy ===== *)
theory Level1
  imports Aggregator
begin

text \<open>
  The local batch of an epoch: joining the finalizers' parts keeps every result. The first section is
  about the loop over the projects, the second about the loop over the parts on a reliable store, and
  the last puts them together, from the entry of the aggregation queue to the stored batch and the
  broadcast.
\<close>

section \<open>Joining the projects\<close>

definition result_cid :: "json \<Rightarrow> string option" where
  "result_cid data = Option.bind (as_obj data) (get_str ''cid'')"

definition result_votes :: "golib \<Rightarrow> json \<Rightarrow> u32" where
  "result_votes L data = (case Option.bind (as_obj data) (get_num ''votes'') of
     Some n \<Rightarrow> u32_of_float L n | None \<Rightarrow> 1)"

lemma add_project_cases:
  "add_project L i x st =
     (case result_cid (snd x) of
        None \<Rightarrow> st
      | Some cid \<Rightarrow>
          st\<lparr>psProjectIDs := psProjectIDs st @ [fst x], psSnapshotCIDs := psSnapshotCIDs st @ [cid],
             psVotes := AList.update (fst x) (result_votes L (snd x)) (psVotes st),
             psDetails := psDetails (add_project L i x st)\<rparr>)"
  by (cases "as_obj (snd x)")
    (auto simp: add_project_def result_cid_def result_votes_def split: option.splits)

definition listed :: "(string \<times> json) list \<Rightarrow> (string \<times> string) list" where
  "listed xs = List.map_filter (\<lambda>x. map_option (Pair (fst x)) (result_cid (snd x))) xs"

lemma join_fold:
  assumes "distinct (map fst xs)" and "\<And>x. x \<in> set xs \<Longrightarrow> map_of (psVotes st) (fst x) = None"
  shows "psProjectIDs (fold (add_project L i) xs st) = psProjectIDs st @ map fst (listed xs) \<and>
    psSnapshotCIDs (fold (add_project L i) xs st) = psSnapshotCIDs st @ map snd (listed xs) \<and>
    (\<forall>p. map_of (psVotes (fold (add_project L i) xs st)) p =
      (case map_of xs p of
         None \<Rightarrow> map_of (psVotes st) p
       | Some data \<Rightarrow> if result_cid data = None then map_of (psVotes st) p else Some (result_votes L data)))"
  using assms
proof (induction xs arbitrary: st)
  case Nil
  then show ?case by (simp add: listed_def map_filter_simps)
next
  case (Cons x xs)
  have d: "distinct (map fst xs)" "fst x \<notin> fst ` set xs" using Cons.prems(1) by auto
  have n: "map_of xs (fst x) = None" using d(2) by (simp add: map_of_eq_None_iff)
  show ?case
  proof (cases "result_cid (snd x)")
    case None
    then have "add_project L i x st = st" by (subst add_project_cases) simp
    then show ?thesis
      using Cons.IH [OF d(1), of st] Cons.prems(2) None n
      by (auto simp: listed_def map_filter_simps split: option.split)
  next
    case (Some c)
    let ?st = "add_project L i x st"
    have s: "psProjectIDs ?st = psProjectIDs st @ [fst x]" "psSnapshotCIDs ?st = psSnapshotCIDs st @ [c]"
      "psVotes ?st = AList.update (fst x) (result_votes L (snd x)) (psVotes st)"
      using Some by (subst add_project_cases, simp)+
    have "map_of (psVotes ?st) (fst y) = None" if "y \<in> set xs" for y
    proof -
      have "fst y \<noteq> fst x" using that d(2) by (metis imageI)
      then show ?thesis using that Cons.prems(2) [of y] by (simp add: s map_of_update)
    qed
    from Cons.IH [OF d(1) this] show ?thesis
      using Some n s by (auto simp: listed_def map_filter_simps map_of_update split: option.split)
  qed
qed

lemma listed_in: "go_ok m \<Longrightarrow> set xs = set m \<Longrightarrow>
    (p, c) \<in> set (listed xs) \<longleftrightarrow> Option.bind (map_of m p) result_cid = Some c"
  by (force simp: listed_def map_filter_def go_ok_def bind_eq_Some_conv)

lemma distinct_listed: "distinct (map fst xs) \<Longrightarrow> distinct (map fst (listed xs))"
proof -
  have "fst ` set (listed xs) \<subseteq> fst ` set xs" for xs
    by (force simp: listed_def map_filter_def)
  then show "distinct (map fst xs) \<Longrightarrow> distinct (map fst (listed xs))"
    by (induction xs) (auto simp: listed_def map_filter_simps split: option.split)
qed

lemma joined_projects:
  assumes "go_ok subs"
  shows "distinct (psProjectIDs (join_projects L ro i subs))"
    and "length (psSnapshotCIDs (join_projects L ro i subs)) = length (psProjectIDs (join_projects L ro i subs))"
    and "(p, c) \<in> set (zip (psProjectIDs (join_projects L ro i subs)) (psSnapshotCIDs (join_projects L ro i subs))) \<longleftrightarrow>
      Option.bind (map_of subs p) result_cid = Some c"
    and "map_of (psVotes (join_projects L ro i subs)) p =
      Option.bind (map_of subs p) (\<lambda>data. if result_cid data = None then None else Some (result_votes L data))"
proof -
  let ?r = "range_map ro ''projectSubmissions'' subs"
  let ?z = "\<lparr>psProjectIDs = [], psSnapshotCIDs = [], psVotes = [], psDetails = []\<rparr>"
  have d: "distinct (map fst ?r)" using go_ok_range_map [OF assms] by (simp add: go_ok_def)
  have r: "set ?r = set subs" by (rule set_range_map [OF assms])
  have e: "psProjectIDs (join_projects L ro i subs) = map fst (listed ?r)"
    "psSnapshotCIDs (join_projects L ro i subs) = map snd (listed ?r)"
    "map_of (psVotes (join_projects L ro i subs)) p = (case map_of ?r p of
         None \<Rightarrow> None | Some data \<Rightarrow> if result_cid data = None then None else Some (result_votes L data))"
    using join_fold [OF d, of ?z L i] by (auto simp: join_projects_def split: option.splits)
  show "distinct (psProjectIDs (join_projects L ro i subs))" unfolding e by (rule distinct_listed [OF d])
  show "length (psSnapshotCIDs (join_projects L ro i subs)) = length (psProjectIDs (join_projects L ro i subs))"
    unfolding e by simp
  show "(p, c) \<in> set (zip (psProjectIDs (join_projects L ro i subs)) (psSnapshotCIDs (join_projects L ro i subs))) \<longleftrightarrow>
      Option.bind (map_of subs p) result_cid = Some c"
    unfolding e zip_map_fst_snd by (rule listed_in [OF assms r])
  show "map_of (psVotes (join_projects L ro i subs)) p =
      Option.bind (map_of subs p) (\<lambda>data. if result_cid data = None then None else Some (result_votes L data))"
    unfolding e map_of_range_map [OF assms] by (cases "map_of subs p") auto
qed

section \<open>Reading the parts\<close>

lemma part_key_inject: "BatchPart kb (show_u64 e) (int i) = BatchPart kb (show_u64 e) (int j) \<longleftrightarrow> i = j"
  using show_u64_no_colon by (auto simp: BatchPart_inject show_int_def show_nat_inject)

definition content :: "store \<Rightarrow> string \<Rightarrow> (string, json) gomap option" where
  "content d k = Option.bind (map_of (strs d) k) (\<lambda>b. map_option (\<lambda>m. case m of None \<Rightarrow> [] | Some kvs \<Rightarrow> kvs) (unmarshal_map b))"

definition merge_part :: "store \<Rightarrow> string \<Rightarrow> (string, json) gomap \<Rightarrow> (string, json) gomap" where
  "merge_part d k acc = (case content d k of None \<Rightarrow> acc | Some kvs \<Rightarrow> merge_into kvs acc)"

definition del_part :: "store \<Rightarrow> string \<Rightarrow> store" where
  "del_part d k = (if content d k = None then d else del_key k d)"

lemma collect_part_store:
  "run store_step (collect_part kb e i acc) d =
     (Some (merge_part d (BatchPart kb e (int i)) acc), del_part d (BatchPart kb e (int i)))"
  by (auto simp: collect_part_def Let_def run_Call merge_part_def del_part_def content_def split: option.splits)

lemma del_part_other:
  "k \<noteq> k' \<Longrightarrow> map_of (strs (del_part d k)) k' = map_of (strs d) k' \<and> lists (del_part d k) k' = lists d k'"
  by (simp add: del_part_def del_key_def map_of_delete)

lemma content_del_part: "k \<noteq> k' \<Longrightarrow> content (del_part d k) k' = content d k'"
  by (simp add: content_def del_part_other)

lemma collect_parts_store:
  assumes "distinct is" and "ks = map (\<lambda>i. BatchPart kb (show_u64 e) (int i)) is"
  shows "run store_step (for_each (collect_part kb (show_u64 e)) is acc) d =
    (Some (fold (merge_part d) ks acc), fold (\<lambda>k d. del_part d k) ks d)"
  using assms
proof (induction "is" arbitrary: acc d ks)
  case (Cons i "is")
  let ?k = "BatchPart kb (show_u64 e) (int i)"
  have "merge_part (del_part d ?k) k acc = merge_part d k acc" if "k \<in> set (tl ks)" for k acc
  proof -
    have "?k \<noteq> k" using that Cons.prems by (auto simp: part_key_inject)
    then show ?thesis by (simp add: merge_part_def content_del_part)
  qed
  then have "fold (merge_part (del_part d ?k)) (tl ks) acc = fold (merge_part d) (tl ks) acc" for acc
    by (intro fold_cong) auto
  then show ?case
    using Cons.IH [of "tl ks" "merge_part d ?k acc" "del_part d ?k"] Cons.prems
    by (simp add: run_bindp collect_part_store)
qed simp

lemma del_parts_other:
  "k' \<notin> set ks \<Longrightarrow> map_of (strs (fold (\<lambda>k d. del_part d k) ks d)) k' = map_of (strs d) k' \<and>
     lists (fold (\<lambda>k d. del_part d k) ks d) k' = lists d k'"
  by (induction ks arbitrary: d) (auto simp: del_part_other)

lemma map_of_merge_into: "go_ok kvs \<Longrightarrow> map_of (merge_into kvs acc) = map_of acc ++ map_of kvs"
proof -
  have "map_of (fold (\<lambda>(p, x) m. AList.update p x m) kvs acc) = map_of acc ++ map_of (rev kvs)"
    by (induction kvs rule: rev_induct) (auto simp: map_of_update case_prod_unfold fun_eq_iff map_add_def)
  moreover assume "go_ok kvs"
  then have "map_of (rev kvs) = map_of kvs"
    unfolding go_ok_def by (subst map_of_inject_set) (simp_all flip: rev_map)
  ultimately show ?thesis by (simp add: merge_into_def)
qed

lemma go_ok_merge_into: "go_ok acc \<Longrightarrow> go_ok (merge_into kvs acc)"
  unfolding merge_into_def by (induction kvs arbitrary: acc) auto

lemma go_ok_merged_parts: "go_ok acc \<Longrightarrow> go_ok (fold (merge_part d) ks acc)"
  by (induction ks arbitrary: acc) (auto simp: merge_part_def go_ok_merge_into split: option.split)

text \<open>With the projects spread over the parts, each comes from its own part.\<close>

lemma merged_parts:
  assumes "\<And>k. k \<in> set ks \<Longrightarrow> content d k = Some (f k) \<and> go_ok (f k)" and "distinct ks"
    and "\<And>k k'. k \<in> set ks \<Longrightarrow> k' \<in> set ks \<Longrightarrow> k \<noteq> k' \<Longrightarrow> fst ` set (f k) \<inter> fst ` set (f k') = {}"
    and "\<And>k. k \<in> set ks \<Longrightarrow> fst ` set (f k) \<inter> fst ` set acc = {}"
  shows "map_of (fold (merge_part d) ks acc) p = Some x \<longleftrightarrow>
    map_of acc p = Some x \<or> (\<exists>k \<in> set ks. map_of (f k) p = Some x)"
  using assms
proof (induction ks arbitrary: acc)
  case (Cons k ks)
  let ?acc = "merge_part d k acc"
  have c: "content d k = Some (f k)" "go_ok (f k)" using Cons.prems(1) by auto
  have acc: "map_of ?acc = map_of acc ++ map_of (f k)"
    by (simp add: merge_part_def c map_of_merge_into)
  have dom: "fst ` set m = dom (map_of m)" for m :: "(string, json) gomap" by (simp add: dom_map_of_conv_image_fst)
  have "fst ` set (f j) \<inter> fst ` set ?acc = {}" if "j \<in> set ks" for j
    using Cons.prems(2) Cons.prems(3) [of k j] Cons.prems(4) [of j] that unfolding dom acc by auto
  then have "map_of (fold (merge_part d) ks ?acc) p = Some x \<longleftrightarrow>
      map_of ?acc p = Some x \<or> (\<exists>k \<in> set ks. map_of (f k) p = Some x)"
    using Cons.prems by (intro Cons.IH) auto
  moreover have "map_of ?acc p = Some x \<longleftrightarrow> map_of acc p = Some x \<or> map_of (f k) p = Some x"
    using Cons.prems(4) [of k] unfolding acc dom by (auto simp: map_add_Some_iff disjoint_iff)
  ultimately show ?case by auto
qed simp

section \<open>From the queue to the stored batch\<close>

lemma publish_local_store:
  "outcome store_step (publish_local a es e n b) d = Some ()"
  "map_of (strs (final store_step (publish_local a es e n b) d)) (FinalizedBatch (agKeys a) (show_u64 e)) = Some (Js (enc_batch b))"
  "lists (final store_step (publish_local a es e n b) d) (OutgoingBroadcastBatch (agKeys a)) =
     broadcast_msg e b # lists d (OutgoingBroadcastBatch (agKeys a))"
  by (simp_all add: publish_local_def run_Call local_metrics_def del_key_def map_of_update map_of_delete
      key_defs ns_same)

lemma enc_selection_result:
  "result_cid (enc_selection x) = Some (selCid x)"
  "0 \<le> selVotes x \<Longrightarrow> selVotes x < 2 ^ 32 \<Longrightarrow> result_votes L (enc_selection x) = word_of_int (selVotes x)"
  by (simp_all add: result_cid_def result_votes_def enc_selection_def get_str_def get_num_def f64_exact u32_of_float_def)

definition ready_entry :: "u64 \<Rightarrow> nat \<Rightarrow> int \<Rightarrow> blob" where
  "ready_entry e n t = Js (JObj [(''epoch_id'', JStr (show_u64 e)), (''parts_completed'', JNum (int n)),
     (''ready_at'', JNum t)])"

definition part_json :: "(string, selection) gomap \<Rightarrow> blob" where
  "part_json res = Js (JObj (map (\<lambda>(p, x). (p, enc_selection x)) res))"

lemma parse_shown_epoch: "parseEpochID L (show_u64 e) = Some e"
  by (simp add: parseEpochID_def parse_uint_show_u64)

lemma int_of_float_count: "n \<le> 2 ^ 53 \<Longrightarrow> int_of_float L (f64 (int n)) = int n"
proof -
  assume "n \<le> 2 ^ 53"
  then have "int n \<le> 2 ^ 53" by (metis of_nat_le_iff of_nat_numeral of_nat_power)
  moreover have "(2::int) ^ 53 < 2 ^ 63" by simp
  ultimately show ?thesis by (simp add: f64_exact int_of_float_def del: of_nat_power)
qed

lemma level1_store:
  assumes "lists d (AggregationQueueLevel1 (agKeys a)) = q @ [ready_entry e n t]" and "n \<le> 2 ^ 53"
    and "ks = map (\<lambda>i. BatchPart (agKeys a) (show_u64 e) (int i)) [0..<n]"
    and "st = join_projects L ro (agSequencerID a) (fold (merge_part d) ks [])"
  obtains b where "outcome store_step (level1_round L ro a) d = Some ()"
    and "map_of (strs (final store_step (level1_round L ro a) d)) (FinalizedBatch (agKeys a) (show_u64 e)) = Some (Js (enc_batch b))"
    and "lists (final store_step (level1_round L ro a) d) (OutgoingBroadcastBatch (agKeys a)) =
      broadcast_msg e b # lists d (OutgoingBroadcastBatch (agKeys a))"
    and "fbEpochId b = e" and "ProjectIds b = psProjectIDs st" and "SnapshotCids b = psSnapshotCIDs st"
    and "ProjectVotes b = psVotes st" and "SequencerId b = agSequencerID a"
proof -
  let ?Q = "AggregationQueueLevel1 (agKeys a)"
  let ?d1 = "d\<lparr>lists := (lists d)(?Q := q)\<rparr>"
  let ?d2 = "fold (\<lambda>k d. del_part d k) ks ?d1"
  have c: "content ?d1 = content d" by (simp add: content_def fun_eq_iff)
  then have "merge_part ?d1 = merge_part d" by (intro ext) (simp add: merge_part_def)
  then have f: "fold (merge_part ?d1) ks [] = fold (merge_part d) ks []" by simp
  have len: "length (psSnapshotCIDs st) = length (psProjectIDs st)"
    unfolding assms(4) by (intro joined_projects(2)) (simp add: go_ok_merged_parts)
  then obtain root where root: "merkle_root L (psProjectIDs st) (psSnapshotCIDs st) = Some root"
    using merkle_root_None [of L "psProjectIDs st" "psSnapshotCIDs st"] by (cases "merkle_root L (psProjectIDs st) (psSnapshotCIDs st)") auto
  define b0 where "b0 t' = zero_batch\<lparr>fbEpochId := e, ProjectIds := psProjectIDs st,
        SnapshotCids := psSnapshotCIDs st, fbMerkleRoot := root, SequencerId := agSequencerID a,
        fbTimestamp := t', ProjectVotes := psVotes st, SubmissionDetails := psDetails st\<rparr>" for t'
  have l: "run store_step (for_each (collect_part (agKeys a) (show_u64 e)) [0..<n] []) ?d1 =
      (Some (fold (merge_part d) ks []), ?d2)"
    using collect_parts_store [of "[0..<n]" ks "agKeys a" e "[]" ?d1] assms(3) f by simp
  obtain t' d3 where m: "run store_step (createFinalizedBatchFromParts L ro (agSequencerID a) e (fold (merge_part d) ks [])) ?d2 =
      (Some (b0 t'), d3)" and d3: "lists d3 = lists ?d2"
    by (simp add: createFinalizedBatchFromParts_def Let_def root run_Call b0_def flip: assms(4))
  obtain b where i: "run store_step (store_in_ipfs (agIpfs a) (b0 t')) d3 = (Some b, d3)"
    and b: "fbEpochId b = e" "ProjectIds b = psProjectIDs st" "SnapshotCids b = psSnapshotCIDs st"
      "ProjectVotes b = psVotes st" "SequencerId b = agSequencerID a"
    using store_in_ipfs_store [of "agIpfs a" "b0 t'" d3] by (auto simp: b0_def)
  have r: "run store_step (level1_round L ro a) d = run store_step (publish_local a (show_u64 e) e (int n) b) d3"
    using assms(1,2) l m i
    by (simp add: level1_round_def run_Call ready_entry_def get_str_def get_num_def int_of_float_count
        aggregateWorkerParts_def parse_shown_epoch run_bindp)
  have "OutgoingBroadcastBatch (agKeys a) \<notin> set ks"
    by (auto simp: assms(3) key_defs ns_same)
  moreover have "OutgoingBroadcastBatch (agKeys a) \<noteq> ?Q" by (simp add: key_defs ns_same)
  ultimately have "lists d3 (OutgoingBroadcastBatch (agKeys a)) = lists d (OutgoingBroadcastBatch (agKeys a))"
    by (simp add: d3 del_parts_other)
  then show ?thesis
    using publish_local_store [of a "show_u64 e" e "int n" b d3] b by (intro that) (simp_all add: r)
qed

lemma local_batch_of_parts:
  assumes "reliable R v"
    and "lists (v s) (AggregationQueueLevel1 (agKeys a)) = q @ [ready_entry e n t]" and "n \<le> 2 ^ 53"
    and "\<And>i. i < n \<Longrightarrow> map_of (strs (v s)) (BatchPart (agKeys a) (show_u64 e) (int i)) = Some (part_json (res i))"
    and "\<And>i. i < n \<Longrightarrow> go_ok (res i)"
    and "\<And>i j. i < n \<Longrightarrow> j < n \<Longrightarrow> i \<noteq> j \<Longrightarrow> fst ` set (res i) \<inter> fst ` set (res j) = {}"
    and "\<forall>i < n. \<forall>(p, x) \<in> set (res i). 0 \<le> selVotes x \<and> selVotes x < 2 ^ 32"
  shows "\<exists>b. outcome R (level1_round L ro a) s = Some () \<and>
    map_of (strs (v (final R (level1_round L ro a) s))) (FinalizedBatch (agKeys a) (show_u64 e)) = Some (Js (enc_batch b)) \<and>
    lists (v (final R (level1_round L ro a) s)) (OutgoingBroadcastBatch (agKeys a)) =
      broadcast_msg e b # lists (v s) (OutgoingBroadcastBatch (agKeys a)) \<and>
    fbEpochId b = e \<and> distinct (ProjectIds b) \<and> length (SnapshotCids b) = length (ProjectIds b) \<and>
    (\<forall>p c. (p, c) \<in> set (zip (ProjectIds b) (SnapshotCids b)) \<longleftrightarrow>
       (\<exists>i < n. \<exists>x. (p, x) \<in> set (res i) \<and> c = selCid x)) \<and>
    (\<forall>i < n. \<forall>(p, x) \<in> set (res i). map_of (ProjectVotes b) p = Some (word_of_int (selVotes x)))"
proof -
  define key where "key i = BatchPart (agKeys a) (show_u64 e) (int i)" for i
  define ks where "ks = map key [0..<n]"
  define enc where "enc i = map (\<lambda>(p, x). (p, enc_selection x)) (res i)" for i
  define m where "m = fold (merge_part (v s)) ks []"
  have inj: "key i = key j \<longleftrightarrow> i = j" for i j by (simp add: key_def part_key_inject)
  have keys: "fst ` set (enc i) = fst ` set (res i)" for i by (force simp: enc_def image_iff)
  define f where "f k = enc (THE i. key i = k)" for k
  have f: "f (key i) = enc i" for i by (simp add: f_def inj)
  have cont: "content (v s) (key i) = Some (enc i)" if "i < n" for i
    using assms(4) [OF that] by (simp add: content_def part_json_def enc_def flip: key_def)
  have ok: "go_ok (enc i)" if "i < n" for i
    using assms(5) [OF that] by (simp add: enc_def go_ok_def comp_def case_prod_unfold)
  have merged: "map_of m p = Some y \<longleftrightarrow> (\<exists>i < n. map_of (enc i) p = Some y)" for p y
  proof -
    have "map_of m p = Some y \<longleftrightarrow> map_of [] p = Some y \<or> (\<exists>k \<in> set ks. map_of (f k) p = Some y)"
      unfolding m_def
    proof (rule merged_parts)
      show "distinct ks" by (auto simp: ks_def distinct_map inj_on_def inj)
      show "fst ` set (f k) \<inter> fst ` set (f k') = {}" if "k \<in> set ks" "k' \<in> set ks" "k \<noteq> k'" for k k'
      proof -
        obtain i j where "k = key i" "k' = key j" "i < n" "j < n" "i \<noteq> j" using \<open>k \<in> _\<close> \<open>k' \<in> _\<close> \<open>k \<noteq> k'\<close>
          by (auto simp: ks_def inj)
        then show ?thesis using assms(6) [of i j] by (simp only: f keys simp_thms)
      qed
    qed (auto simp: ks_def f cont ok)
    then show ?thesis by (auto simp: ks_def f)
  qed
  have enc_in: "map_of (enc i) p = Some y \<longleftrightarrow> (\<exists>x. (p, x) \<in> set (res i) \<and> y = enc_selection x)" if "i < n" for i p y
    using ok [OF that] by (force simp: enc_def go_ok_def)
  have okm: "go_ok m" by (simp add: m_def go_ok_merged_parts)
  obtain b where b: "outcome store_step (level1_round L ro a) (v s) = Some ()"
    "map_of (strs (final store_step (level1_round L ro a) (v s))) (FinalizedBatch (agKeys a) (show_u64 e)) = Some (Js (enc_batch b))"
    "lists (final store_step (level1_round L ro a) (v s)) (OutgoingBroadcastBatch (agKeys a)) =
      broadcast_msg e b # lists (v s) (OutgoingBroadcastBatch (agKeys a))"
    "fbEpochId b = e" "ProjectIds b = psProjectIDs (join_projects L ro (agSequencerID a) m)"
    "SnapshotCids b = psSnapshotCIDs (join_projects L ro (agSequencerID a) m)"
    "ProjectVotes b = psVotes (join_projects L ro (agSequencerID a) m)"
    by (rule level1_store [OF assms(2,3), of ks _ L ro]) (auto simp: ks_def key_def m_def)
  note j = joined_projects [OF okm, where L = L and ro = ro and i = "agSequencerID a"]
  have cids: "(p, c) \<in> set (zip (ProjectIds b) (SnapshotCids b)) \<longleftrightarrow>
      (\<exists>i < n. \<exists>x. (p, x) \<in> set (res i) \<and> c = selCid x)" for p c
    unfolding b(5,6) j(3) bind_eq_Some_conv merged using enc_in enc_selection_result(1) by fastforce
  have votes: "map_of (ProjectVotes b) p = Some (word_of_int (selVotes x))" if "i < n" "(p, x) \<in> set (res i)" for i p x
  proof -
    have "map_of m p = Some (enc_selection x)" unfolding merged using enc_in that by blast
    then show ?thesis
      unfolding b(7) j(4) using assms(7) that enc_selection_result by fastforce
  qed
  have d: "distinct (ProjectIds b)" "length (SnapshotCids b) = length (ProjectIds b)"
    unfolding b(5,6) by (rule j(1), rule j(2))
  show ?thesis
    unfolding reliable_run [OF assms(1)]
    by (intro exI [of _ b] conjI) (use b(1-4) d cids votes in auto)
qed

text \<open>C4. Nothing is lost on the way to the local batch: once the last part of an epoch is announced, the
  aggregator stores and broadcasts one batch that lists every project of every part with the CID
  its finalizer selected and the votes it counted, and no other project, in whatever order the
  maps are visited. (On a reliable store, for parts that share no project and fewer than
  \<open>2 ^ 32\<close> votes.)\<close>

theorem announced_epoch_becomes_local_batch:
  assumes "reliable R v"
    and "lists (v s) (AggregationQueueLevel1 (agKeys a)) = q @ [ready_entry e n t]" and "n \<le> 2 ^ 53"
    and "\<And>i. i < n \<Longrightarrow> map_of (strs (v s)) (BatchPart (agKeys a) (show_u64 e) (int i)) = Some (part_json (res i))"
    and "\<And>i. i < n \<Longrightarrow> go_ok (res i)"
    and "\<And>i j. i < n \<Longrightarrow> j < n \<Longrightarrow> i \<noteq> j \<Longrightarrow> fst ` set (res i) \<inter> fst ` set (res j) = {}"
    and "\<forall>i < n. \<forall>(p, x) \<in> set (res i). 0 \<le> selVotes x \<and> selVotes x < 2 ^ 32"
  shows "\<exists>b. outcome R (level1_round L ro a) s = Some () \<and>
    map_of (strs (v (final R (level1_round L ro a) s))) (FinalizedBatch (agKeys a) (show_u64 e)) = Some (Js (enc_batch b)) \<and>
    lists (v (final R (level1_round L ro a) s)) (OutgoingBroadcastBatch (agKeys a)) =
      broadcast_msg e b # lists (v s) (OutgoingBroadcastBatch (agKeys a)) \<and>
    fbEpochId b = e \<and> distinct (ProjectIds b) \<and> length (SnapshotCids b) = length (ProjectIds b) \<and>
    (\<forall>p c. (p, c) \<in> set (zip (ProjectIds b) (SnapshotCids b)) \<longleftrightarrow>
       (\<exists>i < n. \<exists>x. (p, x) \<in> set (res i) \<and> c = selCid x)) \<and>
    (\<forall>i < n. \<forall>(p, x) \<in> set (res i). map_of (ProjectVotes b) p = Some (word_of_int (selVotes x)))"
  by (rule local_batch_of_parts [OF assms])

definition demo_sel :: selection where
  "demo_sel = \<lparr>selCid = ''QmA'', selVotes = 2, selTotal = 2, selUnique = 1, selMetadata = []\<rparr>"

definition demo_ready :: store where
  "demo_ready = empty_store\<lparr>
     lists := (\<lambda>k. if k = AggregationQueueLevel1 (agKeys demo_agg) then [ready_entry 7 1 0] else []),
     strs := [(BatchPart (agKeys demo_agg) (show_u64 7) 0, part_json [(''p'', demo_sel)])]\<rparr>"

theorem announced_epoch_becomes_local_batch_witness:
  "\<exists>b. map_of (strs (final store_step (level1_round demo_lib in_order demo_agg) demo_ready))
       (FinalizedBatch (agKeys demo_agg) (show_u64 7)) = Some (Js (enc_batch b)) \<and>
     (''p'', ''QmA'') \<in> set (zip (ProjectIds b) (SnapshotCids b))"
proof -
  have q: "lists demo_ready (AggregationQueueLevel1 (agKeys demo_agg)) = [] @ [ready_entry 7 1 0]"
    by (simp add: demo_ready_def)
  have p: "map_of (strs demo_ready) (BatchPart (agKeys demo_agg) (show_u64 7) (int i)) = Some (part_json [(''p'', demo_sel)])"
    if "i < 1" for i using that by (simp add: demo_ready_def)
  have v: "\<forall>i < (1 :: nat). \<forall>(p, x) \<in> set [(''p'', demo_sel)]. 0 \<le> selVotes x \<and> selVotes x < 2 ^ 32"
    by (simp add: demo_sel_def)
  have ok: "go_ok [(''p'', demo_sel)]" by (simp add: go_ok_def)
  obtain b where b: "map_of (strs (final store_step (level1_round demo_lib in_order demo_agg) demo_ready))
       (FinalizedBatch (agKeys demo_agg) (show_u64 7)) = Some (Js (enc_batch b))"
    and c: "\<And>p c. (p, c) \<in> set (zip (ProjectIds b) (SnapshotCids b)) \<longleftrightarrow>
       (\<exists>i < (1 :: nat). \<exists>x. (p, x) \<in> set [(''p'', demo_sel)] \<and> c = selCid x)"
    using announced_epoch_becomes_local_batch [OF reliable_store q _ p ok _ v, where L = demo_lib and ro = in_order] by (auto simp del: One_nat_def)
  have "selCid demo_sel = ''QmA''" by (simp add: demo_sel_def)
  then have "(''p'', ''QmA'') \<in> set (zip (ProjectIds b) (SnapshotCids b))" unfolding c by simp
  with b show ?thesis by blast
qed

section \<open>What can go wrong\<close>

lemma no_panic_created: "no_panic (createFinalizedBatchFromParts L ro i e subs)" if "go_ok subs"
proof -
  have "merkle_root L (psProjectIDs (join_projects L ro i subs)) (psSnapshotCIDs (join_projects L ro i subs)) \<noteq> None"
    unfolding merkle_root_None using joined_projects(2) [OF that, where L = L and ro = ro and i = i] by simp
  then show ?thesis by (auto simp: createFinalizedBatchFromParts_def Let_def)
qed

lemma no_panic_publish: "no_panic (publish_local a es e n b)"
  by (auto simp: publish_local_def)

lemma no_panic_store_in_ipfs: "no_panic (store_in_ipfs c b)"
  by (auto simp: store_in_ipfs_def split: reply.splits)

lemma parts_go_ok:
  "outcome R (for_each (collect_part kb e) is []) s = Some m \<Longrightarrow> go_ok m"
  by (erule for_each_invariant)
    (auto simp: collect_part_def Let_def run_Call go_ok_merge_into split: reply.splits option.splits)

lemma no_panic_parts: "no_panic (for_each (collect_part kb e) is acc)"
  by (rule no_panic_for_each) (auto simp: collect_part_def Let_def split: reply.splits option.splits)

lemma worker_parts_return: "outcome R (aggregateWorkerParts L ro a es n) s = Some ()"
proof (cases "parseEpochID L es")
  case (Some e)
  obtain m s1 where m: "run R (for_each (collect_part (agKeys a) (show_u64 e)) [0 ..< nat n] []) s = (Some m, s1)"
    using no_panic_outcome [OF no_panic_parts] by (metis not_None_eq prod.collapse)
  then have "go_ok m" using parts_go_ok by (metis fst_conv)
  have "no_panic (bindp (createFinalizedBatchFromParts L ro (agSequencerID a) e m)
      (\<lambda>b0. bindp (store_in_ipfs (agIpfs a) b0) (\<lambda>b. publish_local a es e n b)))"
    by (intro no_panic_bindp no_panic_created [OF \<open>go_ok m\<close>] no_panic_store_in_ipfs no_panic_publish)
  from no_panic_outcome [OF this, of R s1] m Some show ?thesis
    by (simp add: aggregateWorkerParts_def run_bindp)
qed (simp add: aggregateWorkerParts_def)

text \<open>An entry of the aggregation queue crashes the aggregator exactly when it is a JSON object, or
  null, without a text \<open>epoch_id\<close> or without a number \<open>parts_completed\<close>; with both it is always
  handled to the end, whatever the store answers and whatever the parts hold.\<close>

theorem level1_crashes_iff_malformed:
  assumes "fst (R s (RBRPop (AggregationQueueLevel1 (agKeys a)))) = BlobR data"
  shows "outcome R (level1_round L ro a) s = None \<longleftrightarrow>
    (case unmarshal_map data of
       None \<Rightarrow> False
     | Some None \<Rightarrow> True
     | Some (Some m) \<Rightarrow> get_str ''epoch_id'' m = None \<or> get_num ''parts_completed'' m = None)"
  using assms
  by (auto simp: level1_round_def run_Call worker_parts_return or_panic_def get_str_def get_num_def
      split: option.splits)

theorem level1_crashes_iff_malformed_witness:
  "outcome store_step (level1_round demo_lib in_order demo_agg)
     (empty_store\<lparr>lists := (\<lambda>k. [Js (JObj [(''epoch_id'', JNum 7)])])\<rparr>) = None"
proof -
  have "fst (store_step (empty_store\<lparr>lists := (\<lambda>k. [Js (JObj [(''epoch_id'', JNum 7)])])\<rparr>)
      (RBRPop (AggregationQueueLevel1 (agKeys demo_agg)))) = BlobR (Js (JObj [(''epoch_id'', JNum 7)]))" by simp
  from level1_crashes_iff_malformed [of store_step, OF this] show ?thesis by (simp add: get_str_def)
qed

text \<open>The local batch is broadcast only after it is stored, and it is the very batch that is stored,
  whatever the surroundings answer. (The parts are deleted before, as they are read: when the
  write fails, the epoch's results are lost with it.)\<close>

theorem broadcast_only_what_is_stored:
  assumes "parseEpochID L es = Some e"
    and "RLPush (OutgoingBroadcastBatch (agKeys a)) msg \<in> set (trace R (aggregateWorkerParts L ro a es n) s)"
  shows "\<exists>pre mid post b. trace R (aggregateWorkerParts L ro a es n) s =
      pre @ [RSet (FinalizedBatch (agKeys a) (show_u64 e)) (Js (enc_batch b)) 86400] @ mid @
      RLPush (OutgoingBroadcastBatch (agKeys a)) msg # post \<and> msg = broadcast_msg e b \<and>
    (\<forall>x. RLPush (OutgoingBroadcastBatch (agKeys a)) x \<notin> set (pre @ mid @ post))"
proof -
  let ?no = "\<lambda>c. \<forall>x. c \<noteq> RLPush (OutgoingBroadcastBatch (agKeys a)) x"
  have "calls_sat ?no (for_each (collect_part (agKeys a) (show_u64 e)) is acc)" for "is" acc
    by (rule calls_sat_for_each) (auto simp: collect_part_def Let_def split: reply.splits option.splits)
  moreover have "calls_sat ?no (createFinalizedBatchFromParts L ro (agSequencerID a) e m)" for m
    by (auto simp: createFinalizedBatchFromParts_def Let_def or_panic_def split: option.split)
  moreover have "calls_sat ?no (store_in_ipfs (agIpfs a) b)" for b
    by (auto simp: store_in_ipfs_def split: reply.splits)
  ultimately have pre: "calls_sat ?no (bindp (for_each (collect_part (agKeys a) (show_u64 e)) [0 ..< nat n] []) (\<lambda>results.
      bindp (createFinalizedBatchFromParts L ro (agSequencerID a) e results) (store_in_ipfs (agIpfs a))))" (is "calls_sat _ ?pre")
    by (intro calls_sat_bindp)
  have "aggregateWorkerParts L ro a es n = bindp ?pre (\<lambda>b. publish_local a es e n b)"
    by (simp add: aggregateWorkerParts_def assms(1) bindp_assoc)
  then have t: "trace R (aggregateWorkerParts L ro a es n) s = trace R ?pre s @
      (case run R ?pre s of (None, s') \<Rightarrow> [] | (Some b, s') \<Rightarrow> trace R (publish_local a es e n b) s')"
    by (simp only: trace_bindp)
  have no: "?no c" if "c \<in> set (trace R ?pre s)" for c
    using calls_sat_trace [OF pre that] .
  obtain b s' where r: "run R ?pre s = (Some b, s')"
    and m: "RLPush (OutgoingBroadcastBatch (agKeys a)) msg \<in> set (trace R (publish_local a es e n b) s')"
  proof (cases "run R ?pre s")
    case (Pair ob s2)
    with assms(2) no that show ?thesis unfolding t by (cases ob) auto
  qed
  obtain t' where p: "trace R (publish_local a es e n b) s' =
      [RSet (FinalizedBatch (agKeys a) (show_u64 e)) (Js (enc_batch b)) 86400] @
      [Now, RPipe (local_metrics a e n b t')] @
      RLPush (OutgoingBroadcastBatch (agKeys a)) (broadcast_msg e b) #
      [RDel [EpochPartsCompleted (agKeys a) es, EpochPartsTotal (agKeys a) es, EpochPartsReady (agKeys a) es]]"
    using m by (auto simp: publish_local_def trace_Call split: if_splits)
  have msg: "msg = broadcast_msg e b" using m unfolding p by simp
  have tt: "trace R (aggregateWorkerParts L ro a es n) s = trace R ?pre s @
      [RSet (FinalizedBatch (agKeys a) (show_u64 e)) (Js (enc_batch b)) 86400] @
      [Now, RPipe (local_metrics a e n b t')] @ RLPush (OutgoingBroadcastBatch (agKeys a)) msg #
      [RDel [EpochPartsCompleted (agKeys a) es, EpochPartsTotal (agKeys a) es, EpochPartsReady (agKeys a) es]]"
    unfolding t by (simp add: r p msg)
  show ?thesis
    by (rule exI, rule exI, rule exI, rule exI, rule conjI, rule tt) (use no msg in auto)
qed

theorem broadcast_only_what_is_stored_witness:
  "\<exists>pre mid post b. trace store_step (aggregateWorkerParts demo_lib in_order demo_agg ''7'' 0) empty_store =
      pre @ [RSet (FinalizedBatch (agKeys demo_agg) (show_u64 7)) (Js (enc_batch b)) 86400] @ mid @
      RLPush (OutgoingBroadcastBatch (agKeys demo_agg)) (broadcast_msg 7 b) # post"
proof -
  have e: "parseEpochID demo_lib ''7'' = Some 7"
    by (simp add: parseEpochID_def parse_uint_def digit_val_def digits_def)
  obtain m where "RLPush (OutgoingBroadcastBatch (agKeys demo_agg)) m \<in>
      set (trace store_step (aggregateWorkerParts demo_lib in_order demo_agg ''7'' 0) empty_store)"
    by (force simp: aggregateWorkerParts_def e createFinalizedBatchFromParts_def join_projects_def Let_def
        merkle_root_def store_in_ipfs_def demo_agg_def NewAggregator_def publish_local_def trace_Call run_Call)
  from broadcast_only_what_is_stored [OF e this] show ?thesis by metis
qed

end
