(* ===== verification/Level2.thy ===== *)
theory Level2
  imports Aggregator
begin

text \<open>
  The network-wide batch of an epoch: what the merge of the validators' batches holds. The first
  section keeps the maps of the merge well formed, the second says what becomes of a submission
  that several validators report, the third which CID a project gets, the others how often an
  epoch is aggregated and what the batch says about the validators.
\<close>

section \<open>The maps of the merge\<close>

lemma go_ok_merge_fold:
  assumes "\<And>x m. go_ok m \<Longrightarrow> go_ok (f x m)"
  shows "go_ok m \<Longrightarrow> go_ok (fold f xs m)"
  using assms by (induction xs arbitrary: m) auto

lemma keys_fold:
  assumes "\<And>x m. fst ` set (f x m) = insert (fst x) (fst ` set m)"
  shows "fst ` set (fold f xs m) = fst ` set xs \<union> fst ` set m"
  by (induction xs arbitrary: m) (simp_all add: assms)

definition merge_ok :: "mergeState \<Rightarrow> bool" where
  "merge_ok st \<longleftrightarrow> go_ok (mgDetails st) \<and> go_ok (mgVotes st) \<and> go_ok (mgViews st) \<and> go_ok (mgCIDs st) \<and>
     fst ` set (mgVotes st) = fst ` set (mgDetails st)"

lemma keys_append_details: "fst ` set (append_details new old) = fst ` set new \<union> fst ` set old"
  unfolding append_details_def by (rule keys_fold) (simp add: keys_update case_prod_unfold)

lemma go_ok_append_details: "go_ok old \<Longrightarrow> go_ok (append_details new old)"
  unfolding append_details_def by (rule go_ok_merge_fold) auto

lemma keys_max_votes: "fst ` set (max_votes b votes) = fst ` set (SubmissionDetails b) \<union> fst ` set votes"
  unfolding max_votes_def
proof (rule keys_fold, goal_cases)
  case (1 x m)
  have "fst x \<in> fst ` set m" if "map_of m (fst x) = Some n" for n
    using map_of_SomeD [OF that] by force
  then show ?case
    by (cases x; cases "map_of m (fst x)") (simp_all add: keys_update insert_absorb)
qed

lemma go_ok_max_votes: "go_ok votes \<Longrightarrow> go_ok (max_votes b votes)"
  unfolding max_votes_def by (rule go_ok_merge_fold) (auto split: option.splits)

lemma merge_ok_start: "merge_ok (start_merge ourBatch)"
proof (cases ourBatch)
  case (Some b)
  have "fst ` set (fold (\<lambda>(p, subs) v. AList.update p (mget 0 (ProjectVotes b) p) v) xs m) =
      fst ` set xs \<union> fst ` set m" for xs :: "(string \<times> submissionMetadata list) list" and m
    by (rule keys_fold) (simp add: keys_update case_prod_unfold)
  moreover have "go_ok (fold (\<lambda>(p, subs) v. AList.update p (mget 0 (ProjectVotes b) p) v) (SubmissionDetails b) [])"
    by (rule go_ok_merge_fold) auto
  ultimately show ?thesis
    by (simp add: start_merge_def Some merge_ok_def go_ok_append_details keys_append_details) (simp add: go_ok_def)
qed (simp add: start_merge_def merge_ok_def)

lemma merge_ok_view: "merge_ok st \<Longrightarrow> merge_ok (merge_view i b st)"
  by (auto simp: merge_ok_def merge_view_def go_ok_append_details go_ok_max_votes keys_append_details keys_max_votes)

lemma merge_ok_cids: "merge_ok st \<Longrightarrow> merge_ok (st\<lparr>mgCIDs := AList.update k c (mgCIDs st)\<rparr>)"
  by (simp add: merge_ok_def)

lemma merge_ok_read: "merge_ok st \<Longrightarrow> merge_ok (read_incoming L key d st)"
  by (auto simp: read_incoming_def Let_def case_prod_unfold intro!: merge_ok_view merge_ok_cids)

lemma merge_ok_loop:
  assumes "outcome R (for_each (merge_incoming L) ks (start_merge our)) s = Some st"
  shows "merge_ok st"
  using assms(1) merge_ok_start
  by (rule for_each_invariant)
    (auto simp: merge_incoming_def run_Call merge_ok_read split: reply.splits)

text \<open>What a created batch is made of.\<close>

lemma created_batch:
  assumes "outcome R (createAggregatedBatch L ro i our ks) s = Some b"
  obtains st now where "merge_ok st" and "finish_merge L ro i now st = Some b"
proof -
  let ?s = "snd (R s Now)"
  obtain st s' where l: "run R (for_each (merge_incoming L) ks (start_merge our)) ?s = (Some st, s')"
    and f: "finish_merge L ro i (word_of_int (int_of (fst (R s Now)))) st = Some b"
    using assms
    by (auto simp: createAggregatedBatch_def run_Call run_bindp or_panic_def split: prod.splits option.splits)
  have "merge_ok st" using merge_ok_loop [of R L ks our ?s st] l by simp
  with f that show ?thesis by blast
qed

section \<open>Submissions that several validators report\<close>

definition joined :: "submissionMetadata list \<Rightarrow> submissionMetadata option" where
  "joined ms = (case ms of [] \<Rightarrow> None
     | m # rest \<Rightarrow> Some (m\<lparr>VoteCount := VoteCount m + int (length rest),
         ValidatorsConfirming := concat (map ValidatorsConfirming ms)\<rparr>))"

definition same_sub :: "string \<Rightarrow> submissionMetadata list \<Rightarrow> submissionMetadata list" where
  "same_sub k subs = filter (\<lambda>m. sub_key m = k) subs"

lemma sub_key_joined: "joined (same_sub k subs) = Some e \<Longrightarrow> sub_key e = k"
proof -
  assume j: "joined (same_sub k subs) = Some e"
  then obtain m rest where s: "same_sub k subs = m # rest" by (auto simp: joined_def split: list.splits)
  then have "m \<in> set (same_sub k subs)" by simp
  then have "sub_key m = k" by (simp add: same_sub_def)
  with j s show ?thesis by (auto simp: joined_def sub_key_def)
qed

lemma joined_snoc:
  "joined (ms @ [m]) = Some (case joined ms of
     None \<Rightarrow> m
   | Some e \<Rightarrow> e\<lparr>ValidatorsConfirming := ValidatorsConfirming e @ ValidatorsConfirming m,
       VoteCount := VoteCount e + 1\<rparr>)"
  by (cases ms) (simp_all add: joined_def)

lemma merged_fold: "map_of (fold merge_sub subs []) k = joined (same_sub k subs)"
proof (induction subs arbitrary: k rule: rev_induct)
  case Nil
  show ?case by (simp add: joined_def same_sub_def)
next
  case (snoc m subs)
  have "fold merge_sub (subs @ [m]) [] = merge_sub m (fold merge_sub subs [])" by simp
  then show ?case
    by (simp add: merge_sub_def [of m "fold merge_sub subs []"] snoc.IH same_sub_def joined_snoc map_of_update
        split: option.split)
qed

lemma go_ok_merged: "go_ok (fold merge_sub subs [])"
  by (rule go_ok_merge_fold) (auto simp: merge_sub_def split: option.splits)

lemma merged_in: "(k, e) \<in> set (fold merge_sub subs []) \<longleftrightarrow> joined (same_sub k subs) = Some e"
  using merged_fold [of subs k] go_ok_merged [of subs] by (auto simp: go_ok_def)

lemma set_merge_subs: "e \<in> set (merge_subs ro p subs) \<longleftrightarrow> joined (same_sub (sub_key e) subs) = Some e"
proof -
  have "e \<in> set (merge_subs ro p subs) \<longleftrightarrow> (\<exists>k. (k, e) \<in> set (fold merge_sub subs []))"
    by (force simp: merge_subs_def set_range_map [OF go_ok_merged])
  also have "\<dots> \<longleftrightarrow> joined (same_sub (sub_key e) subs) = Some e"
    using sub_key_joined by (auto simp: merged_in)
  finally show ?thesis .
qed

lemma distinct_merge_subs: "distinct (map sub_key (merge_subs ro p subs))"
proof -
  let ?r = "range_map ro (''merged:'' @ p) (fold merge_sub subs [])"
  have "sub_key (snd x) = fst x" if "x \<in> set ?r" for x
  proof -
    have "(fst x, snd x) \<in> set (fold merge_sub subs [])"
      using that by (simp only: set_range_map [OF go_ok_merged] prod.collapse)
    then show ?thesis unfolding merged_in by (rule sub_key_joined)
  qed
  then have "map sub_key (merge_subs ro p subs) = map fst ?r" by (simp add: merge_subs_def)
  then show ?thesis using go_ok_range_map [OF go_ok_merged] by (simp add: go_ok_def)
qed

text \<open>Submissions that several validators report are merged by submitter and CID, in whatever order
  the maps are visited: each pair is listed once; its validators are those of all the reports, in
  the order of the batches; its votes are those of the first report and one for every further one.\<close>

theorem merged_submission_confirmations:
  "distinct (map sub_key (merge_subs ro p subs)) \<and>
   (\<forall>e. e \<in> set (merge_subs ro p subs) \<longleftrightarrow>
      (\<exists>m rest. filter (\<lambda>x. sub_key x = sub_key e) subs = m # rest \<and>
         e = m\<lparr>VoteCount := VoteCount m + int (length rest),
               ValidatorsConfirming := concat (map ValidatorsConfirming (m # rest))\<rparr>))"
  by (auto simp: distinct_merge_subs set_merge_subs joined_def same_sub_def split: list.splits)

section \<open>The CID of a project\<close>

definition naming :: "string \<Rightarrow> submissionMetadata list \<Rightarrow> nat" where
  "naming c subs = length (filter (\<lambda>m. SnapshotCID m = c) subs)"

lemma mget_cid_counts: "mget 0 (cid_counts subs) c = int (naming c subs)"
proof -
  have "cid_counts subs = fold bump (map SnapshotCID subs) []"
    by (simp add: cid_counts_def fold_map comp_def)
  moreover have "count_list (map SnapshotCID subs) c = naming c subs"
    by (induction subs) (auto simp: naming_def)
  moreover have "mget 0 [] c = (0 :: int)" by (simp add: mget_def)
  ultimately show ?thesis by (simp add: mget_fold_bump)
qed

lemma go_ok_cid_counts: "go_ok (cid_counts subs)"
  unfolding cid_counts_def by (rule go_ok_merge_fold) auto

lemma keys_cid_counts: "fst ` set (cid_counts subs) = SnapshotCID ` set subs"
proof -
  have "cid_counts subs = fold bump (map SnapshotCID subs) []"
    by (simp add: cid_counts_def fold_map comp_def)
  then show ?thesis by (simp add: keys_fold_bump)
qed

lemma consensus_cid_plurality:
  "naming c subs \<le> naming (consensus_cid ro p subs) subs \<and>
   (subs \<noteq> [] \<longrightarrow> 0 < naming (consensus_cid ro p subs) subs)"
proof -
  let ?m = "cid_counts subs" and ?r = "range_map ro (''cidCounts:'' @ p) (cid_counts subs)"
  let ?w = "consensus_cid ro p subs"
  have w: "?w = fst (pick_cid ?r)" by (simp add: consensus_cid_def)
  have inr: "(c, int (naming c subs)) \<in> set ?r" if "c \<in> SnapshotCID ` set subs" for c
    using that in_mget [of c ?m 0] keys_cid_counts [of subs]
    by (simp only: set_range_map [OF go_ok_cid_counts] mget_cid_counts)
  have some: "0 < naming c subs \<longleftrightarrow> c \<in> SnapshotCID ` set subs" for c
    by (auto simp: naming_def filter_empty_conv)
  show ?thesis
  proof (cases "subs = []")
    case True
    then show ?thesis by (simp add: naming_def)
  next
    case False
    then obtain m where m: "m \<in> set subs" by (cases subs) auto
    then have "int (naming (SnapshotCID m) subs) \<le> snd (pick_cid ?r)" "0 < naming (SnapshotCID m) subs"
      using consensus_pick.votes_max [OF inr] some by auto
    then have "pick_cid ?r \<in> set ?r" by (intro consensus_pick.winner_in) linarith
    then have "(?w, snd (pick_cid ?r)) \<in> set ?m" by (simp add: w set_range_map [OF go_ok_cid_counts])
    from mget_in [OF go_ok_cid_counts this, of 0]
    have n: "snd (pick_cid ?r) = int (naming ?w subs)" by (simp add: mget_cid_counts)
    have "naming c subs \<le> naming ?w subs"
      using consensus_pick.votes_max [OF inr, of c] some [of c] n by (cases "naming c subs = 0") auto
    moreover have "0 < naming ?w subs"
      using \<open>int (naming (SnapshotCID m) subs) \<le> _\<close> \<open>0 < naming (SnapshotCID m) subs\<close> n by linarith
    ultimately show ?thesis by simp
  qed
qed

lemma map_of_details: "mget [] (map (\<lambda>(p, subs). (p, merge_subs ro p subs)) d) p = merge_subs ro p (mget [] d p)"
proof -
  have "merge_subs ro p [] = []" by (simp add: merge_subs_def)
  then show ?thesis by (induction d) (auto simp: mget_def)
qed

lemma finished_merge:
  assumes "merge_ok st" and "finish_merge L ro i now st = Some b"
  shows "set (ProjectIds b) = fst ` set (SubmissionDetails b)" and "fst ` set (ProjectVotes b) = fst ` set (SubmissionDetails b)"
    and "distinct (ProjectIds b)"
    and "SnapshotCids b = map (\<lambda>p. consensus_cid ro p (mget [] (SubmissionDetails b) p)) (ProjectIds b)"
    and "merkle_root L (ProjectIds b) (SnapshotCids b) = Some (fbMerkleRoot b)"
proof -
  let ?d = "map (\<lambda>(p, subs). (p, merge_subs ro p subs)) (mgDetails st)"
  let ?ps = "map fst (range_map ro ''ProjectVotes'' (mgVotes st))"
  have b: "ProjectIds b = ?ps" "SubmissionDetails b = ?d" "ProjectVotes b = mgVotes st"
    "SnapshotCids b = map (\<lambda>p. consensus_cid ro p (mget [] ?d p)) ?ps"
    "merkle_root L ?ps (map (\<lambda>p. consensus_cid ro p (mget [] ?d p)) ?ps) = Some (fbMerkleRoot b)"
    using assms(2) by (auto simp: finish_merge_def Let_def zero_batch_def)
  have ok: "go_ok (mgVotes st)" "fst ` set (mgVotes st) = fst ` set (mgDetails st)"
    using assms(1) by (simp_all add: merge_ok_def)
  have k: "fst ` set ?d = fst ` set (mgDetails st)" by (force simp: image_iff)
  show "set (ProjectIds b) = fst ` set (SubmissionDetails b)"
    unfolding b k using ok by (simp add: set_range_map)
  show "fst ` set (ProjectVotes b) = fst ` set (SubmissionDetails b)"
    unfolding b k using ok by simp
  show "distinct (ProjectIds b)"
    unfolding b using go_ok_range_map [OF ok(1)] by (simp add: go_ok_def)
  show "SnapshotCids b = map (\<lambda>p. consensus_cid ro p (mget [] (SubmissionDetails b) p)) (ProjectIds b)"
    "merkle_root L (ProjectIds b) (SnapshotCids b) = Some (fbMerkleRoot b)"
    unfolding b(1,2,4) using b(5) by simp_all
qed

text \<open>C6. The aggregated batch is consistent: its projects are those with submissions, each listed once
  and with the CID that most of its merged submissions name, whatever order the maps are visited in;
  the root is the hash over exactly these pairs.\<close>

theorem level2_cid_is_plurality:
  assumes "outcome R (createAggregatedBatch L ro i our ks) s = Some b"
  shows "distinct (ProjectIds b) \<and> set (ProjectIds b) = fst ` set (SubmissionDetails b) \<and>
    length (SnapshotCids b) = length (ProjectIds b) \<and>
    (\<forall>(p, c) \<in> set (zip (ProjectIds b) (SnapshotCids b)).
       \<forall>c'. naming c' (mget [] (SubmissionDetails b) p) \<le> naming c (mget [] (SubmissionDetails b) p)) \<and>
    merkle_root L (ProjectIds b) (SnapshotCids b) = Some (fbMerkleRoot b)"
proof -
  obtain st now where st: "merge_ok st" "finish_merge L ro i now st = Some b"
    using created_batch [OF assms] .
  note f = finished_merge [OF st]
  have "naming c' (mget [] (SubmissionDetails b) p) \<le> naming c (mget [] (SubmissionDetails b) p)"
    if "(p, c) \<in> set (zip (ProjectIds b) (SnapshotCids b))" for p c c'
  proof -
    have "c = consensus_cid ro p (mget [] (SubmissionDetails b) p)"
      using that unfolding f(4) by (auto simp: set_zip)
    then show ?thesis using consensus_cid_plurality by simp
  qed
  then show ?thesis using f by auto
qed

section \<open>The batches that are merged\<close>

definition read_at :: "golib \<Rightarrow> store \<Rightarrow> string \<Rightarrow> mergeState \<Rightarrow> mergeState" where
  "read_at L d k st = (case map_of (strs d) k of None \<Rightarrow> st | Some b \<Rightarrow> read_incoming L k b st)"

lemma merge_loop_store:
  "run store_step (for_each (merge_incoming L) ks st) d = (Some (fold (read_at L d) ks st), d)"
  by (induction ks arbitrary: st)
    (auto simp: run_bindp merge_incoming_def run_Call read_at_def split: option.splits)

definition merged_state :: "golib \<Rightarrow> store \<Rightarrow> finalizedBatch option \<Rightarrow> string list \<Rightarrow> mergeState" where
  "merged_state L d our ks = fold (read_at L d) ks (start_merge our)"

lemma merge_ok_merged: "merge_ok (merged_state L d our ks)"
proof -
  have "merge_ok st \<Longrightarrow> merge_ok (fold (read_at L d) ks st)" for st
    by (induction ks arbitrary: st) (auto simp: read_at_def merge_ok_read split: option.splits)
  then show ?thesis unfolding merged_state_def using merge_ok_start by blast
qed

lemma finish_merge_total: "\<exists>b. finish_merge L ro i now st = Some b"
proof -
  have "merkle_root L ps (map f ps) \<noteq> None" for ps and f :: "string \<Rightarrow> string"
    unfolding merkle_root_None by simp
  then show ?thesis by (auto simp: finish_merge_def Let_def simp del: map_map)
qed

lemma created_store:
  obtains b now where
    "run store_step (createAggregatedBatch L ro i our ks) d = (Some b, d\<lparr>readings := Suc (readings d)\<rparr>)"
    and "finish_merge L ro i now (merged_state L (d\<lparr>readings := Suc (readings d)\<rparr>) our ks) = Some b"
proof -
  let ?now = "word_of_int (int_of (fst (store_step d Now)))"
  let ?d = "d\<lparr>readings := Suc (readings d)\<rparr>"
  obtain b where b: "finish_merge L ro i ?now (merged_state L ?d our ks) = Some b"
    using finish_merge_total by blast
  then have "run store_step (createAggregatedBatch L ro i our ks) d = (Some b, ?d)"
    by (simp add: createAggregatedBatch_def run_Call run_bindp merge_loop_store merged_state_def)
  then show ?thesis using b that by blast
qed

lemma read_at_readings [simp]: "read_at L (d\<lparr>readings := n\<rparr>) = read_at L d"
  by (simp add: read_at_def fun_eq_iff)

lemma created_reliable:
  assumes "reliable R v" and "outcome R (createAggregatedBatch L ro i our ks) s = Some b"
  obtains now where "finish_merge L ro i now (merged_state L (v s) our ks) = Some b"
proof -
  obtain b' now where "run store_step (createAggregatedBatch L ro i our ks) (v s) =
      (Some b', (v s)\<lparr>readings := Suc (readings (v s))\<rparr>)"
    and f: "finish_merge L ro i now (merged_state L ((v s)\<lparr>readings := Suc (readings (v s))\<rparr>) our ks) = Some b'"
    by (rule created_store)
  then have "b' = b" using reliable_run(1) [OF assms(1)] assms(2) by (metis fst_conv option.inject)
  with f have "finish_merge L ro i now (merged_state L (v s) our ks) = Some b"
    by (simp add: merged_state_def)
  then show ?thesis by (rule that)
qed

text \<open>The projects with submissions in the batch stored at a key.\<close>

definition projects_at :: "store \<Rightarrow> string \<Rightarrow> string set" where
  "projects_at d k = (case map_of (strs d) k of
     None \<Rightarrow> {}
   | Some x \<Rightarrow> (let (b, ok) = decode_batch x in if ok then fst ` set (SubmissionDetails b) else {}))"

definition own_projects :: "finalizedBatch option \<Rightarrow> string set" where
  "own_projects our = (case our of None \<Rightarrow> {} | Some b \<Rightarrow> fst ` set (SubmissionDetails b))"

lemma details_read_at: "fst ` set (mgDetails (read_at L d k st)) = projects_at d k \<union> fst ` set (mgDetails st)"
  by (auto simp: read_at_def projects_at_def read_incoming_def Let_def case_prod_unfold merge_view_def
      keys_append_details split: option.split)

lemma details_merged:
  "fst ` set (mgDetails (merged_state L d our ks)) = own_projects our \<union> (\<Union>k \<in> set ks. projects_at d k)"
proof -
  have "fst ` set (mgDetails (fold (read_at L d) ks st)) =
      fst ` set (mgDetails st) \<union> (\<Union>k \<in> set ks. projects_at d k)" for st
    by (induction ks arbitrary: st) (auto simp: details_read_at)
  moreover have "fst ` set (mgDetails (start_merge our)) = own_projects our"
    by (simp add: start_merge_def own_projects_def keys_append_details split: option.split)
  ultimately show ?thesis by (simp add: merged_state_def)
qed

text \<open>The projects of the aggregated batch are exactly those for which the local batch or a readable
  incoming one lists submissions: a project that a validator finalized without submission metadata,
  though it has a CID and votes, is dropped.\<close>

theorem level2_projects_have_submissions:
  assumes "reliable R v" and "outcome R (createAggregatedBatch L ro i our ks) s = Some b"
  shows "set (ProjectIds b) = own_projects our \<union> (\<Union>k \<in> set ks. projects_at (v s) k)"
proof -
  obtain now where f: "finish_merge L ro i now (merged_state L (v s) our ks) = Some b"
    using created_reliable [OF assms] .
  have "fst ` set (SubmissionDetails b) = fst ` set (mgDetails (merged_state L (v s) our ks))"
    using f by (force simp: finish_merge_def Let_def image_iff)
  then show ?thesis using finished_merge(1) [OF merge_ok_merged f] details_merged by simp
qed

section \<open>What the batch says about the validators\<close>

text \<open>A key that holds a finalized batch with an IPFS CID, as the gateways exchange them.\<close>

definition holds_batch :: "store \<Rightarrow> string \<Rightarrow> bool" where
  "holds_batch d k \<longleftrightarrow> (\<exists>b. map_of (strs d) k = Some (Js (enc_batch b)) \<and> batch_ok b \<and> fbIPFSCID b \<noteq> [])"

lemma read_finalized:
  assumes "holds_batch d k"
  shows "fst ` set (mgViews (read_at L d k st)) = insert [] (fst ` set (mgViews st)) \<and>
    fst ` set (mgCIDs (read_at L d k st)) = insert [] (fst ` set (mgCIDs st))"
proof -
  obtain b where b: "map_of (strs d) k = Some (Js (enc_batch b))" "batch_ok b" "fbIPFSCID b \<noteq> []"
    using assms by (auto simp: holds_batch_def)
  have "ValidatorID (zero_vbatch\<lparr>vbIPFSCID := c, vbTimestamp := t\<rparr>) = []" for c t
    by (simp add: zero_vbatch_def)
  then show ?thesis
    using b by (simp add: read_at_def read_incoming_def batch_as_vbatch decode_enc_batch merge_view_def keys_update Let_def)
qed

text \<open>C27. Validators collapse: when the incoming batches are finalized batches with an IPFS CID, which is
  what the gateways exchange, all of them are taken for announcements of one validator without a
  name. However many they are, the aggregated batch counts one validator besides the local one and
  keeps one CID, under the empty name.\<close>

theorem finalized_batches_collapse:
  assumes "reliable R v" and "outcome R (createAggregatedBatch L ro i (Some own) ks) s = Some b"
    and "\<forall>k \<in> set ks. holds_batch (v s) k" and "ks \<noteq> []" and "SequencerId own \<noteq> []"
  shows "ValidatorCount b = 2 \<and> fst ` set (ValidatorBatches b) = {[]}"
proof -
  let ?st = "merged_state L (v s) (Some own) ks"
  obtain now where f: "finish_merge L ro i now ?st = Some b"
    using created_reliable [OF assms(1,2)] .
  have keys: "fst ` set (mgViews (fold (read_at L (v s)) ks st)) = fst ` set (mgViews st) \<union> (if ks = [] then {} else {[]}) \<and>
      fst ` set (mgCIDs (fold (read_at L (v s)) ks st)) = fst ` set (mgCIDs st) \<union> (if ks = [] then {} else {[]})" for st
    using assms(3) by (induction ks arbitrary: st) (auto simp: read_finalized)
  have "fst ` set (mgViews ?st) = {SequencerId own, []}" "fst ` set (mgCIDs ?st) = {[]}"
    using keys [of "start_merge (Some own)"] assms(4) by (auto simp: merged_state_def start_merge_def)
  moreover have "ValidatorCount b = int (length (mgViews ?st))" "ValidatorBatches b = mgCIDs ?st"
    using f by (auto simp: finish_merge_def Let_def)
  moreover have "length (mgViews ?st) = card (fst ` set (mgViews ?st))"
    using merge_ok_merged by (intro length_keys) (simp add: merge_ok_def)
  ultimately show ?thesis using assms(5) by simp
qed

section \<open>An epoch is aggregated once\<close>

lemma aggregated_untouched:
  assumes "c \<in> {RPipe (aggregated_metrics L a e n ks b t), RDel (FinalizedBatch (agKeys a) e # ks)}"
    and "ks = incoming_keys a e r"
  shows "BatchAggregated (agKeys a) e \<notin> touches c"
  using assms
  by (auto simp: aggregated_metrics_def Let_def touches_pipe incoming_keys_def BatchAggregated_def
      FinalizedBatch_def IncomingBatch_def MetricsBatchAggregated_def MetricsBatchValidators_def ns_same)

lemma store_aggregated_final:
  assumes "ks = incoming_keys a e r"
  shows "map_of (strs (final store_step (store_aggregated L a e own ks b) d)) (BatchAggregated (agKeys a) e) =
    Some (Js (enc_batch b))"
proof -
  let ?k = "BatchAggregated (agKeys a) e"
  let ?d1 = "snd (store_step (snd (store_step d (RSet ?k (Js (enc_batch b)) 86400))) Now)"
  obtain n t where p: "final store_step (store_aggregated L a e own ks b) d =
      final store_step (execs [RPipe (aggregated_metrics L a e n ks b t), RDel (FinalizedBatch (agKeys a) e # ks)]) ?d1"
    by (simp add: store_aggregated_def run_Call Let_def del: execs.simps)
  have "map_of (strs ?d1) ?k = Some (Js (enc_batch b))" by (simp add: map_of_update)
  moreover have "?k \<notin> touches c"
    if "c \<in> set (trace store_step (execs [RPipe (aggregated_metrics L a e n ks b t), RDel (FinalizedBatch (agKeys a) e # ks)]) ?d1)"
    for c using that aggregated_untouched [OF _ assms] unfolding trace_execs by auto
  ultimately show ?thesis unfolding p using untouched_run by metis
qed

lemma aggregateEpoch_final:
  "key_exists (final store_step (aggregateEpoch L ro a e) d) (BatchAggregated (agKeys a) e)"
proof (cases "key_exists d (BatchAggregated (agKeys a) e)")
  case True
  then show ?thesis by (simp add: aggregateEpoch_def run_Call)
next
  case False
  let ?our = "our_batch (fst (store_step d (RGet (FinalizedBatch (agKeys a) e))))"
  let ?ks = "incoming_keys a e (fst (store_step d (RSMembers (EpochValidators (agKeys a) e))))"
  obtain b0 d1 where c: "run store_step (createAggregatedBatch L ro (agSequencerID a) ?our ?ks) d = (Some b0, d1)"
    using created_store by metis
  obtain b where i: "run store_step (store_in_ipfs (agIpfs a) b0) d1 = (Some b, d1)"
    using store_in_ipfs_store by metis
  have "final store_step (aggregateEpoch L ro a e) d =
      final store_step (store_aggregated L a e (?our \<noteq> None) ?ks b) d1"
    using False c i by (simp add: aggregateEpoch_def run_Call run_bindp Let_def)
  then show ?thesis
    using store_aggregated_final [OF refl] by (simp add: key_exists_def)
qed

text \<open>C25. An epoch is aggregated once: on a reliable store an aggregation always ends with the epoch's
  batch stored, and from then on, until the batch expires, aggregating the epoch again asks only
  whether it is there, and no message of the stream opens a window for it.\<close>

theorem epoch_aggregated_once:
  assumes "reliable R v" and "mget [] (xValues msg) ''epoch'' = e" and "agKeys a' = agKeys a"
  shows "trace R (aggregateEpoch L ro a' e) (final R (aggregateEpoch L ro a e) s) = [RExists (BatchAggregated (agKeys a) e)] \<and>
    (\<exists>ok. outcome R (processStreamMessage L a' msg) (final R (aggregateEpoch L ro a e) s) = Some (ok, a'))"
proof -
  let ?s = "final R (aggregateEpoch L ro a e) s"
  have k: "key_exists (v ?s) (BatchAggregated (agKeys a) e)"
    using aggregateEpoch_final reliable_run(3) [OF assms(1)] by metis
  have "fst (R ?s (RExists (BatchAggregated (agKeys a) e))) = IntR 1"
    using k by (simp add: reliable_step [OF assms(1)])
  then show ?thesis
    using assms(2,3) by (auto simp: aggregateEpoch_def processStreamMessage_def trace_Call run_Call Let_def)
qed

section \<open>The validators of a key\<close>

lemma ids_of_keys:
  assumes "kb_ok kb" and "colon_free e" and "\<And>v. v \<in> set vs \<Longrightarrow> colon_free v"
  shows "extractValidatorIDs (map (IncomingBatch kb e) vs) = vs"
  using assms(3)
proof (induction vs)
  case (Cons v vs)
  have "split_on CHR '':'' v = [v]"
    using Cons.prems [of v] by (simp add: split_on_none colon_free_def)
  with Cons IncomingBatch_split [OF assms(1,2), of v] show ?case
    by (simp add: extractValidatorIDs_def map_filter_simps)
qed (simp add: extractValidatorIDs_def map_filter_simps)

text \<open>The validators named in the metrics are read back from the keys of their batches, all of them and
  in order: the members of the epoch's set but for the aggregator itself, for names without a colon.\<close>

theorem validators_read_back_from_keys:
  assumes "kb_ok (agKeys a)" and "colon_free e" and "\<And>v. v \<in> set vs \<Longrightarrow> colon_free v"
  shows "extractValidatorIDs (incoming_keys a e (StrsR vs)) = filter (\<lambda>v. v \<noteq> agSequencerID a) vs"
  unfolding incoming_keys_def reply.case by (rule ids_of_keys [OF assms(1,2)]) (use assms(3) in auto)

section \<open>Examples\<close>

definition demo_meta :: submissionMetadata where
  "demo_meta = zero_metadata\<lparr>SubmitterID := ''0x01'', SnapshotCID := ''QmA'', VoteCount := 1,
     ValidatorsConfirming := [''v2'']\<rparr>"

definition demo_fb :: finalizedBatch where
  "demo_fb = zero_batch\<lparr>fbEpochId := 7, ProjectIds := [''p''], SnapshotCids := [''QmA''], SequencerId := ''v2'',
     ProjectVotes := [(''p'', 1)], SubmissionDetails := [(''p'', [demo_meta])], fbIPFSCID := ''QmBatch''\<rparr>"

definition demo_incoming :: store where
  "demo_incoming = empty_store\<lparr>strs := [(''k2'', Js (enc_batch demo_fb)), (''k3'', Js (enc_batch demo_fb))]\<rparr>"

lemma demo_fb_ok: "batch_ok demo_fb"
  by (simp add: batch_ok_def demo_fb_def demo_meta_def zero_batch_def zero_metadata_def int63_def)

lemma demo_created: "\<exists>b. outcome store_step (createAggregatedBatch demo_lib in_order ''v1'' (Some demo_fb)
    [''k2'', ''k3'']) demo_incoming = Some b"
  using created_store by (metis fst_conv)

theorem level2_cid_is_plurality_witness:
  "\<exists>b. outcome store_step (createAggregatedBatch demo_lib in_order ''v1'' (Some demo_fb) [''k2'', ''k3'']) demo_incoming = Some b \<and>
     distinct (ProjectIds b) \<and> set (ProjectIds b) = fst ` set (SubmissionDetails b)"
proof -
  obtain b where b: "outcome store_step (createAggregatedBatch demo_lib in_order ''v1'' (Some demo_fb)
      [''k2'', ''k3'']) demo_incoming = Some b" using demo_created by blast
  from level2_cid_is_plurality [OF b] b show ?thesis by blast
qed

lemma demo_projects: "projects_at demo_incoming ''k2'' = {''p''}" "projects_at demo_incoming ''k3'' = {''p''}"
  by (simp_all add: projects_at_def demo_incoming_def decode_enc_batch demo_fb_ok) (simp_all add: demo_fb_def)

theorem level2_projects_have_submissions_witness:
  "\<exists>b. outcome store_step (createAggregatedBatch demo_lib in_order ''v1'' (Some demo_fb) [''k2'', ''k3'']) demo_incoming = Some b \<and>
     set (ProjectIds b) = {''p''}"
proof -
  obtain b where b: "outcome store_step (createAggregatedBatch demo_lib in_order ''v1'' (Some demo_fb)
      [''k2'', ''k3'']) demo_incoming = Some b" using demo_created by blast
  have "own_projects (Some demo_fb) = {''p''}" by (simp add: own_projects_def demo_fb_def)
  with level2_projects_have_submissions [OF reliable_store b] b demo_projects show ?thesis by auto
qed

theorem finalized_batches_collapse_witness:
  "\<exists>b. outcome store_step (createAggregatedBatch demo_lib in_order ''v1'' (Some (demo_fb\<lparr>SequencerId := ''v1''\<rparr>))
     [''k2'', ''k3'']) demo_incoming = Some b \<and> ValidatorCount b = 2"
proof -
  obtain b where b: "outcome store_step (createAggregatedBatch demo_lib in_order ''v1'' (Some (demo_fb\<lparr>SequencerId := ''v1''\<rparr>))
      [''k2'', ''k3'']) demo_incoming = Some b"
    using created_store by (metis fst_conv)
  have "fbIPFSCID demo_fb \<noteq> []" by (simp add: demo_fb_def)
  then have "\<forall>k \<in> set [''k2'', ''k3'']. holds_batch demo_incoming k"
    using demo_fb_ok by (auto simp: holds_batch_def demo_incoming_def)
  with finalized_batches_collapse [OF reliable_store b] b show ?thesis by simp
qed

theorem epoch_aggregated_once_witness:
  "trace store_step (aggregateEpoch demo_lib in_order demo_agg ''7'')
     (final store_step (aggregateEpoch demo_lib in_order demo_agg ''7'') empty_store) =
   [RExists ''P:M:batch:aggregated:7'']"
proof -
  have "BatchAggregated (agKeys demo_agg) ''7'' = ''P:M:batch:aggregated:7''"
    by (simp add: demo_agg_def NewAggregator_def NewKeyBuilder_def BatchAggregated_def ns_def)
  moreover have "mget [] (xValues \<lparr>xID = ''1'', xValues = [(''epoch'', ''7'')]\<rparr>) ''epoch'' = ''7''"
    by (simp add: mget_def)
  ultimately show ?thesis
    using epoch_aggregated_once [OF reliable_store _ refl, of _ "''7''" demo_lib in_order demo_agg empty_store] by metis
qed


theorem validators_read_back_from_keys_witness:
  "extractValidatorIDs (incoming_keys demo_agg ''7'' (StrsR [''v1'', ''v2''])) = [''v2'']"
proof -
  have "kb_ok (agKeys demo_agg)"
    by (simp add: demo_agg_def NewAggregator_def NewKeyBuilder_def kb_ok_def colon_free_def)
  moreover have "colon_free ''7''" "\<And>v. v \<in> set [''v1'', ''v2''] \<Longrightarrow> colon_free v" by (auto simp: colon_free_def)
  ultimately show ?thesis
    using validators_read_back_from_keys [of demo_agg "''7''" "[''v1'', ''v2'']"]
    by (simp add: demo_agg_def NewAggregator_def)
qed

end
