(* ===== verification/Consensus.thy ===== *)
theory Consensus
  imports Batches Tally Workers
begin

text \<open>
  \<open>pkgs/consensus/p2p_consensus.go\<close>: validators announce their batches on a topic, each keeps the
  announcements per epoch, tallies their votes for CIDs and records the outcome. A handler runs
  to its end here (the code holds a lock around each access to the maps and runs a goroutine per
  message); \<open>fetchBatchFromIPFS\<close> is started by \<open>Spawn\<close> and is a step of its own.
  The topics' set-up is in \<open>Startup\<close>, presence messages in \<open>Broadcaster\<close>; statistics that are only logged
  are not modelled.
\<close>

record aggregationStatus =
  asEpochID :: u64
  TotalValidators :: int
  ReceivedBatches :: int
  asProjectVotes :: "(string, (string, int) gomap) gomap"
  AggregatedProjects :: "(string, string) gomap"
  ValidatorContributions :: "(string, string list) gomap"
  UpdatedAt :: int

record p2pConsensus =
  sequencerID :: string
  hostID :: string
  hasIpfs :: bool
  batchTopic :: string
  validatorBatches :: "(u64, (string, validatorBatch) gomap) gomap"
  aggregationStatuses :: "(u64, aggregationStatus) gomap"
  receivedBatches :: u64
  broadcastBatches :: u64
  epochsAggregated :: u64

definition MinValidatorsForConsensus :: nat where
  "MinValidatorsForConsensus = 2"

definition BatchValidityDuration :: nat where
  "BatchValidityDuration = 7200"

definition NewP2PConsensus :: "string \<Rightarrow> string \<Rightarrow> bool \<Rightarrow> string \<Rightarrow> p2pConsensus" where
  "NewP2PConsensus sid host ipfsClient topic =
     \<lparr>sequencerID = sid, hostID = host, hasIpfs = ipfsClient, batchTopic = topic,
      validatorBatches = [], aggregationStatuses = [], receivedBatches = 0, broadcastBatches = 0,
      epochsAggregated = 0\<rparr>"

definition epoch_batches :: "p2pConsensus \<Rightarrow> u64 \<Rightarrow> (string, validatorBatch) gomap" where
  "epoch_batches pc epochID = mget [] (validatorBatches pc) epochID"

definition storeValidatorBatch :: "validatorBatch \<Rightarrow> p2pConsensus \<Rightarrow> p2pConsensus" where
  "storeValidatorBatch vBatch pc =
     pc\<lparr>validatorBatches := AList.update (vbEpochID vBatch)
        (AList.update (ValidatorID vBatch) vBatch (epoch_batches pc (vbEpochID vBatch))) (validatorBatches pc)\<rparr>"

section \<open>Announcing a batch\<close>

definition announcement :: "p2pConsensus \<Rightarrow> finalizedBatch \<Rightarrow> string \<Rightarrow> validatorBatch" where
  "announcement pc batch ipfsCID =
     \<lparr>ValidatorID = sequencerID pc, PeerID = hostID pc, vbEpochID = fbEpochId batch, vbIPFSCID = ipfsCID,
      vbMerkleRoot = hex_encode (fbMerkleRoot batch), ProjectCount = int (length (ProjectIds batch)),
      vbTimestamp = fbTimestamp batch, vbSignature = hex_encode (BlsSignature batch), BatchData = None,
      ReceivedAt = zero_time,
      vbMetadata = [(''projects'', JNum (int (length (ProjectIds batch)))),
        (''votes'', JObj (map (\<lambda>(p, n). (p, JNum (uint n))) (ProjectVotes batch)))],
      vbLocal = True\<rparr>"

definition BroadcastFinalizedBatch ::
  "golib \<Rightarrow> p2pConsensus \<Rightarrow> finalizedBatch \<Rightarrow> string \<Rightarrow> (bool \<times> p2pConsensus) prog" where
  "BroadcastFinalizedBatch L pc batch ipfsCID =
     (if ipfsCID = [] then Ret (False, pc)
      else
        let vBatch = announcement pc batch ipfsCID in
        Call (TopicPublish (batchTopic pc) (Js (enc_vbatch L vBatch))) (\<lambda>r.
        if r = ErrR then Ret (False, pc)
        else or_panic (slice_to 16 (vbMerkleRoot vBatch)) (\<lambda>_.
          Ret (True, storeValidatorBatch vBatch (pc\<lparr>broadcastBatches := broadcastBatches pc + 1\<rparr>)))))"

section \<open>Tallying an epoch\<close>

record voteTally =
  tlVotes :: "(string, (string, int) gomap) gomap"
  tlContributions :: "(string, string list) gomap"

definition touch_project :: "string \<Rightarrow> voteTally \<Rightarrow> voteTally" where
  "touch_project p t =
     (if map_of (tlVotes t) p = None then t\<lparr>tlVotes := AList.update p [] (tlVotes t)\<rparr> else t)"

definition count_cid :: "string \<Rightarrow> string \<times> string \<Rightarrow> voteTally \<Rightarrow> voteTally" where
  "count_cid validatorID x t =
     (let (p, cid) = x; t1 = touch_project p t in
      t1\<lparr>tlVotes := AList.update p (bump cid (mget [] (tlVotes t1) p)) (tlVotes t1),
         tlContributions := AList.update validatorID
           (mget [] (tlContributions t1) validatorID @ [p]) (tlContributions t1)\<rparr>)"

text \<open>A vote of the metadata: a text, or an object with a text \<open>cid\<close>.\<close>

fun cid_of :: "json \<Rightarrow> string option" where
  "cid_of (JObj m) = get_str ''cid'' m"
| "cid_of (JStr s) = Some s"
| "cid_of _ = None"

definition metadata_votes :: "validatorBatch \<Rightarrow> (string, json) gomap" where
  "metadata_votes v =
     (if vbLocal v then [] else case get_obj ''votes'' (vbMetadata v) of None \<Rightarrow> [] | Some m \<Rightarrow> m)"

definition count_metadata :: "string \<Rightarrow> string \<times> json \<Rightarrow> voteTally \<Rightarrow> voteTally" where
  "count_metadata validatorID x t =
     (case cid_of (snd x) of
        None \<Rightarrow> touch_project (fst x) t
      | Some cid \<Rightarrow> count_cid validatorID (fst x, cid) t)"

text \<open>The projects and CIDs of a loaded batch, as far as both lists go.\<close>

definition data_votes :: "validatorBatch \<Rightarrow> (string \<times> string) list" where
  "data_votes v = (case BatchData v of None \<Rightarrow> [] | Some b \<Rightarrow> zip (ProjectIds b) (SnapshotCids b))"

definition count_validator :: "range_order \<Rightarrow> string \<times> validatorBatch \<Rightarrow> voteTally \<Rightarrow> voteTally" where
  "count_validator ro x t =
     fold (count_cid (fst x)) (data_votes (snd x))
       (fold (count_metadata (fst x)) (range_map ro (''votes:'' @ fst x) (metadata_votes (snd x))) t)"

definition winning_step :: "string \<times> int \<Rightarrow> string \<times> int \<Rightarrow> string \<times> int" where
  "winning_step x acc = (if snd acc < snd x then (fst x, snd x) else acc)"

definition winning_cid :: "(string \<times> int) list \<Rightarrow> string \<times> int" where
  "winning_cid votes = fold winning_step votes ('''', 0)"

interpretation winning_pick: plurality winning_cid
  by unfold_locales (simp_all add: winning_cid_def winning_step_def)

text \<open>At least half of the validators; the float division is exact enough below \<open>2 ^ 52\<close> votes.\<close>

definition elect :: "range_order \<Rightarrow> int \<Rightarrow> string \<times> (string, int) gomap \<Rightarrow> (string \<times> string) option" where
  "elect ro totalValidators x =
     (let (cid, n) = winning_cid (range_map ro (''cidVotes:'' @ fst x) (snd x)) in
      if totalValidators \<le> 2 * n then Some (fst x, cid) else None)"

definition tally_epoch :: "range_order \<Rightarrow> (string, validatorBatch) gomap \<Rightarrow> voteTally" where
  "tally_epoch ro epochBatches =
     fold (count_validator ro) (range_map ro ''epochBatches'' epochBatches) \<lparr>tlVotes = [], tlContributions = []\<rparr>"

definition enc_status :: "golib \<Rightarrow> aggregationStatus \<Rightarrow> json" where
  "enc_status L st = JObj [(''epoch_id'', JNum (uint (asEpochID st))),
     (''total_validators'', JNum (TotalValidators st)), (''received_batches'', JNum (ReceivedBatches st)),
     (''project_votes'', JObj (map (\<lambda>(p, m). (p, JObj (map (\<lambda>(c, n). (c, JNum n)) m))) (asProjectVotes st))),
     (''aggregated_projects'', JObj (map (\<lambda>(p, c). (p, JStr c)) (AggregatedProjects st))),
     (''validator_contributions'', JObj (map (\<lambda>(i, ps). (i, JArr (map JStr ps))) (ValidatorContributions st))),
     (''updated_at'', JStr (TimeText L (UpdatedAt st)))]"

definition storeAggregationStatus :: "golib \<Rightarrow> aggregationStatus \<Rightarrow> bool prog" where
  "storeAggregationStatus L st =
     Call (RSet (''consensus:epoch:'' @ show_u64 (asEpochID st) @ '':status'') (Js (enc_status L st)) BatchValidityDuration)
       (\<lambda>r. Ret (r \<noteq> ErrR))"

definition onAggregationComplete ::
  "golib \<Rightarrow> range_order \<Rightarrow> p2pConsensus \<Rightarrow> u64 \<Rightarrow> (string, string) gomap \<Rightarrow> unit prog" where
  "onAggregationComplete L ro pc epochID aggregated =
     (let entries = range_map ro ''aggregatedProjects'' aggregated in
      or_panic (merkle_root L (map fst entries) (map snd entries)) (\<lambda>root.
      or_panic (slice_to 16 (hex_encode root)) (\<lambda>short.
      Call Now (\<lambda>t.
      exec (RSet (''consensus:epoch:'' @ show_u64 epochID @ '':result'')
        (Js (JObj [(''epoch_id'', JNum (uint epochID)), (''cid'', JStr (short @ ''...'')),
           (''merkle_root'', JStr (hex_encode root)), (''validator_id'', JStr (sequencerID pc)),
           (''timestamp'', JNum (int_of t)), (''projects'', JNum (int (length aggregated)))]))
        BatchValidityDuration)))))"

text \<open>The log line of each aggregated project slices its CID at twelve characters.\<close>

definition log_aggregated ::
  "range_order \<Rightarrow> (string, (string, int) gomap) gomap \<Rightarrow> (string, string) gomap \<Rightarrow> unit prog" where
  "log_aggregated ro votes aggregated =
     for_each (\<lambda>(p, cid) u.
       if 0 < mget 0 (mget [] votes p) cid then or_panic (slice_to 12 cid) (\<lambda>_. Ret ()) else Ret ())
       (range_map ro ''logged'' aggregated) ()"

definition epoch_status :: "range_order \<Rightarrow> u64 \<Rightarrow> (string, validatorBatch) gomap \<Rightarrow> int \<Rightarrow> aggregationStatus" where
  "epoch_status ro epochID epochBatches now =
     (let n = int (length epochBatches); t = tally_epoch ro epochBatches in
      \<lparr>asEpochID = epochID, TotalValidators = n, ReceivedBatches = n, asProjectVotes = tlVotes t,
       AggregatedProjects = List.map_filter (elect ro n) (range_map ro ''projectVotes'' (tlVotes t)),
       ValidatorContributions = tlContributions t, UpdatedAt = now\<rparr>)"

definition aggregateEpochVotes ::
  "golib \<Rightarrow> range_order \<Rightarrow> p2pConsensus \<Rightarrow> u64 \<Rightarrow> p2pConsensus prog" where
  "aggregateEpochVotes L ro pc epochID =
     (let epochBatches = epoch_batches pc epochID in
      if length epochBatches < MinValidatorsForConsensus then Ret pc
      else Call NowNano (\<lambda>t.
        let st = epoch_status ro epochID epochBatches (int_of t);
            pc1 = pc\<lparr>aggregationStatuses := AList.update epochID st (aggregationStatuses pc)\<rparr> in
        bindp (storeAggregationStatus L st) (\<lambda>_.
        let pc2 = pc1\<lparr>epochsAggregated := epochsAggregated pc1 + 1\<rparr> in
        bindp (log_aggregated ro (asProjectVotes st) (AggregatedProjects st)) (\<lambda>_.
        bindp (onAggregationComplete L ro pc2 epochID (AggregatedProjects st)) (\<lambda>_.
        Ret pc2)))))"

section \<open>Receiving a batch\<close>

definition validateBatch :: "p2pConsensus \<Rightarrow> validatorBatch \<Rightarrow> bool prog" where
  "validateBatch pc v =
     (if vbIPFSCID v = [] \<or> vbMerkleRoot v = [] \<or> ValidatorID v = [] \<or> vbEpochID v = 0 then Ret False
      else if hasIpfs pc then Call (Spawn (''fetch:'' @ vbIPFSCID v)) (\<lambda>_. Ret True)
      else Ret True)"

definition storeBatchInRedis :: "golib \<Rightarrow> validatorBatch \<Rightarrow> bool prog" where
  "storeBatchInRedis L v =
     (let epochKey = ''epoch:'' @ show_u64 (vbEpochID v) @ '':validators'' in
      Call (RSet (''validator:'' @ ValidatorID v @ '':batch:'' @ show_u64 (vbEpochID v))
        (Js (enc_vbatch L v)) BatchValidityDuration) (\<lambda>r.
      if r = ErrR then Ret False
      else bindp (execs [RSAdd epochKey (ValidatorID v), RExpire epochKey BatchValidityDuration]) (\<lambda>_. Ret True)))"

definition processBatchMessage :: "golib \<Rightarrow> range_order \<Rightarrow> p2pConsensus \<Rightarrow> blob \<Rightarrow> p2pConsensus prog" where
  "processBatchMessage L ro pc data =
     (let (v0, ok) = decode_vbatch L data in
      if \<not> ok then Ret pc
      else Call NowNano (\<lambda>t.
        let v = v0\<lparr>ReceivedAt := int_of t\<rparr> in
        or_panic (slice_to 16 (vbMerkleRoot v)) (\<lambda>_.
        bindp (validateBatch pc v) (\<lambda>valid.
        if \<not> valid then Ret pc
        else
          let pc1 = storeValidatorBatch v pc in
          bindp (storeBatchInRedis L v) (\<lambda>_.
          aggregateEpochVotes L ro (pc1\<lparr>receivedBatches := receivedBatches pc1 + 1\<rparr>) (vbEpochID v))))))"

definition load_batch :: "validatorBatch \<Rightarrow> finalizedBatch \<Rightarrow> p2pConsensus \<Rightarrow> p2pConsensus" where
  "load_batch v batch pc =
     (case Option.bind (map_of (validatorBatches pc) (vbEpochID v)) (\<lambda>m. map_of m (ValidatorID v)) of
        None \<Rightarrow> pc
      | Some vb \<Rightarrow> pc\<lparr>validatorBatches := AList.update (vbEpochID v)
          (AList.update (ValidatorID v) (vb\<lparr>BatchData := Some batch\<rparr>) (epoch_batches pc (vbEpochID v)))
          (validatorBatches pc)\<rparr>)"

definition fetchBatchFromIPFS :: "golib \<Rightarrow> validatorBatch \<Rightarrow> p2pConsensus \<Rightarrow> p2pConsensus prog" where
  "fetchBatchFromIPFS L v pc =
     (if vbIPFSCID v = [] then Ret pc
      else Call (IpfsGet (vbIPFSCID v)) (\<lambda>r. case r of
        BlobR d \<Rightarrow>
          (let (batch, ok) = decode_batch d in
           if \<not> ok then Ret pc
           else or_panic (merkle_root L (ProjectIds batch) (SnapshotCids batch)) (\<lambda>root.
             if hex_encode root \<noteq> vbMerkleRoot v then Ret pc else Ret (load_batch v batch pc)))
      | _ \<Rightarrow> Ret pc))"

text \<open>Every thirty seconds the last five epochs are tallied again, taken to last thirty seconds each.\<close>

definition checkRecentEpochs :: "golib \<Rightarrow> range_order \<Rightarrow> p2pConsensus \<Rightarrow> p2pConsensus prog" where
  "checkRecentEpochs L ro pc =
     Call Now (\<lambda>t.
       let currentEpoch = (word_of_int (int_of t div 30) :: u64) in
       for_each (\<lambda>i pc. aggregateEpochVotes L ro pc (currentEpoch - of_nat i)) [0 ..< 5] pc)"

definition GetAggregationStatus :: "p2pConsensus \<Rightarrow> u64 \<Rightarrow> aggregationStatus option" where
  "GetAggregationStatus pc epochID = map_of (aggregationStatuses pc) epochID"

definition GetValidatorBatches :: "p2pConsensus \<Rightarrow> u64 \<Rightarrow> (string, validatorBatch) gomap" where
  "GetValidatorBatches pc epochID = epoch_batches pc epochID"

end
