(* ===== verification/Voting.thy ===== *)
theory Voting
  imports Consensus
begin

text \<open>
  What the tally of \<open>Consensus\<close> counts and elects. A validator names the pairs of project and CID
  of its metadata and, once its batch is loaded from IPFS, those of the batch too: the votes of a
  CID are the number of times it is named, over all validators, in whatever order the maps are
  visited.
\<close>

section \<open>The tally\<close>

definition metadata_named :: "validatorBatch \<Rightarrow> (string \<times> string) list" where
  "metadata_named v = List.map_filter (\<lambda>x. map_option (Pair (fst x)) (cid_of (snd x))) (metadata_votes v)"

definition named :: "validatorBatch \<Rightarrow> (string \<times> string) list" where
  "named v = metadata_named v @ data_votes v"

definition votes_for :: "(string \<times> validatorBatch) list \<Rightarrow> string \<Rightarrow> string \<Rightarrow> int" where
  "votes_for eb p c = (\<Sum>x \<leftarrow> eb. int (count_list (named (snd x)) (p, c)))"

definition votes_of :: "voteTally \<Rightarrow> string \<Rightarrow> string \<Rightarrow> int" where
  "votes_of t p c = mget 0 (mget [] (tlVotes t) p) c"

definition tally_ok :: "voteTally \<Rightarrow> bool" where
  "tally_ok t \<longleftrightarrow> go_ok (tlVotes t) \<and> (\<forall>p m. map_of (tlVotes t) p = Some m \<longrightarrow> go_ok m)"

text \<open>The maps of a received batch are maps.\<close>

definition votes_ok :: "(string, validatorBatch) gomap \<Rightarrow> bool" where
  "votes_ok eb \<longleftrightarrow> go_ok eb \<and> (\<forall>(i, v) \<in> set eb. go_ok (metadata_votes v))"

lemma mget_update: "mget z (AList.update k x m) k' = (if k' = k then x else mget z m k')"
  by (simp add: mget_def map_of_update)

lemma mget_touch: "mget [] (tlVotes (touch_project q t)) p = mget [] (tlVotes t) p"
  by (auto simp: touch_project_def mget_def map_of_update)

lemma touch_votes [simp]: "votes_of (touch_project q t) p c = votes_of t p c"
  by (simp add: votes_of_def mget_touch)

lemma count_cid_votes:
  "votes_of (count_cid i (q, d) t) p c = votes_of t p c + (if (q, d) = (p, c) then 1 else 0)"
  by (simp add: count_cid_def votes_of_def Let_def mget_update mget_touch mget_bump)

lemma count_cids_votes:
  "votes_of (fold (count_cid i) xs t) p c = votes_of t p c + int (count_list xs (p, c))"
proof (induction xs arbitrary: t)
  case (Cons x xs)
  then show ?case by (cases x) (simp add: count_cid_votes)
qed simp

lemma count_metadata_votes:
  "votes_of (fold (count_metadata i) xs t) p c =
     votes_of t p c + int (count_list (List.map_filter (\<lambda>x. map_option (Pair (fst x)) (cid_of (snd x))) xs) (p, c))"
  by (induction xs arbitrary: t)
    (auto simp: count_metadata_def count_cid_votes map_filter_simps split: option.split)

lemma count_list_mset: "mset xs = mset ys \<Longrightarrow> count_list xs x = count_list ys x"
  by (metis count_mset)

lemma mset_map_filter: "mset xs = mset ys \<Longrightarrow> mset (List.map_filter f xs) = mset (List.map_filter f ys)"
proof -
  have "mset (List.map_filter f zs) = image_mset (the \<circ> f) (filter_mset (\<lambda>x. f x \<noteq> None) (mset zs))" for zs
    by (simp add: map_filter_def)
  then show "mset xs = mset ys \<Longrightarrow> mset (List.map_filter f xs) = mset (List.map_filter f ys)" by simp
qed

lemma count_validator_votes:
  assumes "go_ok (metadata_votes v)"
  shows "votes_of (count_validator ro (i, v) t) p c = votes_of t p c + int (count_list (named v) (p, c))"
proof -
  have "count_list (List.map_filter (\<lambda>x. map_option (Pair (fst x)) (cid_of (snd x)))
      (range_map ro (''votes:'' @ i) (metadata_votes v))) (p, c) = count_list (metadata_named v) (p, c)"
    unfolding metadata_named_def by (intro count_list_mset mset_map_filter mset_range_map assms)
  then show ?thesis
    by (simp add: count_validator_def count_cids_votes count_metadata_votes named_def)
qed

lemma count_validators_votes:
  assumes "\<forall>x \<in> set xs. go_ok (metadata_votes (snd x))"
  shows "votes_of (fold (count_validator ro) xs t) p c = votes_of t p c + votes_for xs p c"
  using assms
proof (induction xs arbitrary: t)
  case (Cons x xs)
  have "votes_of (count_validator ro x t) p c = votes_of t p c + int (count_list (named (snd x)) (p, c))"
    using count_validator_votes [of "snd x" ro "fst x" t p c] Cons.prems by simp
  moreover have "votes_of (fold (count_validator ro) xs (count_validator ro x t)) p c =
      votes_of (count_validator ro x t) p c + votes_for xs p c"
    using Cons.prems by (intro Cons.IH) simp
  ultimately show ?case by (simp add: votes_for_def)
qed (simp add: votes_for_def)

lemma votes_for_mset: "mset xs = mset ys \<Longrightarrow> votes_for xs p c = votes_for ys p c"
proof -
  assume "mset xs = mset ys"
  then have "mset (map (\<lambda>x. int (count_list (named (snd x)) (p, c))) xs) =
      mset (map (\<lambda>x. int (count_list (named (snd x)) (p, c))) ys)" by (simp only: mset_map)
  then show ?thesis unfolding votes_for_def by (metis sum_mset_sum_list)
qed

lemma tally_votes:
  assumes "votes_ok eb"
  shows "votes_of (tally_epoch ro eb) p c = votes_for eb p c"
proof -
  let ?r = "range_map ro ''epochBatches'' eb"
  have eb: "go_ok eb" using assms by (simp add: votes_ok_def)
  have "\<forall>x \<in> set ?r. go_ok (metadata_votes (snd x))"
    using assms by (auto simp: set_range_map [OF eb] votes_ok_def)
  from count_validators_votes [OF this, where ro = ro and p = p and c = c] show ?thesis
    using votes_for_mset [OF mset_range_map [OF eb], where p = p and c = c]
    by (simp add: tally_epoch_def votes_of_def mget_def)
qed

section \<open>The maps of the tally\<close>

lemma touch_ok: "tally_ok t \<Longrightarrow> tally_ok (touch_project p t)"
  by (auto simp: tally_ok_def touch_project_def map_of_update split: if_splits)

lemma count_cid_ok: "tally_ok t \<Longrightarrow> tally_ok (count_cid i x t)"
proof -
  assume "tally_ok t"
  then have t: "tally_ok (touch_project (fst x) t)" by (rule touch_ok)
  then have "go_ok (mget [] (tlVotes (touch_project (fst x) t)) (fst x))"
    by (auto simp: tally_ok_def mget_def split: option.split)
  with t show ?thesis
    by (auto simp: tally_ok_def count_cid_def case_prod_unfold Let_def map_of_update split: if_splits)
qed

lemma fold_ok: "(\<And>x t. tally_ok t \<Longrightarrow> tally_ok (f x t)) \<Longrightarrow> tally_ok t \<Longrightarrow> tally_ok (fold f xs t)"
  by (induction xs arbitrary: t) auto

lemma count_metadata_ok: "tally_ok t \<Longrightarrow> tally_ok (count_metadata i x t)"
  by (auto simp: count_metadata_def touch_ok count_cid_ok split: option.split)

lemma tally_epoch_ok: "tally_ok (tally_epoch ro eb)"
  unfolding tally_epoch_def count_validator_def
  by (intro fold_ok count_cid_ok count_metadata_ok) (simp_all add: tally_ok_def)

section \<open>The election\<close>

lemma elected_winner:
  assumes "go_ok m" and "elect ro n (p, m) = Some (q, c)" and "0 < n"
  shows "q = p \<and> n \<le> 2 * mget 0 m c \<and> (\<forall>c'. mget 0 m c' \<le> mget 0 m c)"
proof -
  let ?r = "range_map ro (''cidVotes:'' @ p) m"
  obtain k where w: "winning_cid ?r = (c, k)" and q: "q = p" and k: "n \<le> 2 * k"
    using assms(2) by (auto simp: elect_def split: prod.splits if_splits)
  then have "0 < snd (winning_cid ?r)" using assms(3) by simp
  from winning_pick.winner_in [OF this] have "(c, k) \<in> set m" unfolding w set_range_map [OF assms(1)] .
  then have c: "mget 0 m c = k" using mget_in [OF assms(1)] by simp
  have "mget 0 m c' \<le> k" for c'
  proof (cases "c' \<in> fst ` set m")
    case True
    then have "(c', mget 0 m c') \<in> set ?r" using in_mget [of c' m 0] by (simp add: set_range_map [OF assms(1)])
    from winning_pick.votes_max [OF this] show ?thesis unfolding w by simp
  next
    case False
    then show ?thesis using mget_absent [of c' m 0] k assms(3) by simp
  qed
  with q k c show ?thesis by simp
qed

lemma elect_some:
  assumes "go_ok m" and "n \<le> 2 * mget 0 m c" and "0 < n"
  shows "\<exists>c'. elect ro n (p, m) = Some (p, c')"
proof -
  let ?r = "range_map ro (''cidVotes:'' @ p) m"
  have "c \<in> fst ` set m" using mget_absent [of c m 0] assms(2,3) by (cases "c \<in> fst ` set m") auto
  then have "(c, mget 0 m c) \<in> set ?r" using in_mget [of c m 0] by (simp add: set_range_map [OF assms(1)])
  from winning_pick.votes_max [OF this] assms(2) show ?thesis
    by (cases "winning_cid ?r") (simp add: elect_def)
qed

lemma map_of_map_filter_key:
  assumes "distinct (map fst xs)" and "\<And>x y. x \<in> set xs \<Longrightarrow> f x = Some y \<Longrightarrow> fst y = fst x"
  shows "map_of (List.map_filter f xs) p = Option.bind (map_of xs p) (\<lambda>x. map_option snd (f (p, x)))"
  using assms
proof (induction xs)
  case (Cons x xs)
  obtain q m where x: "x = (q, m)" by (cases x)
  have IH: "map_of (List.map_filter f xs) p = Option.bind (map_of xs p) (\<lambda>x. map_option snd (f (p, x)))"
    using Cons by simp
  have n: "map_of xs q = None" using Cons.prems(1) by (simp add: x map_of_eq_None_iff)
  show ?case
  proof (cases "f x")
    case None
    with IH n show ?thesis by (auto simp: x map_filter_simps)
  next
    case (Some y)
    then have "fst y = q" using Cons.prems(2) [of x y] by (simp add: x)
    with Some IH n show ?thesis by (cases y) (auto simp: x map_filter_simps)
  qed
qed (simp add: map_filter_simps)

lemma aggregated_lookup:
  "map_of (AggregatedProjects (epoch_status ro e eb t)) p =
     Option.bind (map_of (tlVotes (tally_epoch ro eb)) p) (\<lambda>m. map_option snd (elect ro (int (length eb)) (p, m)))"
proof -
  let ?v = "tlVotes (tally_epoch ro eb)"
  have ok: "go_ok ?v" using tally_epoch_ok by (simp add: tally_ok_def)
  have "fst y = fst x" if "elect ro n x = Some y" for n x y
    using that by (auto simp: elect_def split: prod.splits if_splits)
  then have "map_of (List.map_filter (elect ro (int (length eb))) (range_map ro ''projectVotes'' ?v)) p =
      Option.bind (map_of (range_map ro ''projectVotes'' ?v) p) (\<lambda>m. map_option snd (elect ro (int (length eb)) (p, m)))"
    using go_ok_range_map [OF ok] by (intro map_of_map_filter_key) (simp_all add: go_ok_def)
  moreover have "map_of (range_map ro ''projectVotes'' ?v) = map_of ?v"
    using ok go_ok_range_map [OF ok] unfolding go_ok_def by (subst map_of_inject_set) (simp_all add: set_range_map [OF ok])
  ultimately show ?thesis by (simp add: epoch_status_def Let_def)
qed

lemma election:
  assumes "votes_ok eb" and "eb \<noteq> []"
  shows "(\<forall>c. map_of (AggregatedProjects (epoch_status ro e eb t)) p = Some c \<longrightarrow>
      int (length eb) \<le> 2 * votes_for eb p c \<and> (\<forall>c'. votes_for eb p c' \<le> votes_for eb p c)) \<and>
    ((\<exists>c. int (length eb) \<le> 2 * votes_for eb p c) \<longrightarrow>
      map_of (AggregatedProjects (epoch_status ro e eb t)) p \<noteq> None)"
proof -
  let ?t = "tally_epoch ro eb" and ?n = "int (length eb)"
  have n: "0 < ?n" using assms(2) by simp
  have v: "votes_for eb p c = mget 0 (mget [] (tlVotes ?t) p) c" for c
    using tally_votes [OF assms(1), of ro p c] by (simp add: votes_of_def)
  show ?thesis
  proof (cases "map_of (tlVotes ?t) p")
    case None
    then have "votes_for eb p c = 0" for c unfolding v by (simp add: mget_def)
    with None n show ?thesis by (simp add: aggregated_lookup)
  next
    case (Some m)
    then have m: "go_ok m" using tally_epoch_ok [of ro eb] by (auto simp: tally_ok_def)
    have vm: "votes_for eb p c = mget 0 m c" for c unfolding v using Some by (simp add: mget_def)
    have "?n \<le> 2 * mget 0 m c \<and> (\<forall>c'. mget 0 m c' \<le> mget 0 m c)" if "elect ro ?n (p, m) = Some (q, c)" for q c
      using elected_winner [OF m that n] by simp
    moreover have "elect ro ?n (p, m) \<noteq> None" if "?n \<le> 2 * mget 0 m c" for c
      using elect_some [OF m that n, of ro p] by auto
    ultimately show ?thesis
      unfolding aggregated_lookup vm using Some by auto
  qed
qed

text \<open>C9. The quorum in force is half of the validators, not the 67\% that the constant \<open>ConsensusThreshold\<close> and the settings
  announce and that nothing reads: the CID recorded for a project is a plurality of the votes and has at least half as many as there
  are validators, whatever order the maps are visited in; a project with a CID that half of the validators' number of votes name
  is recorded; and a CID with more votes than any other is the one recorded as soon as it has half, even where it has
  less than 67 in a hundred. A validator has one vote for each time it names the CID: in its metadata, and again in its batch
  once that is loaded.\<close>

theorem elected_cid_is_plurality_with_half:
  assumes "votes_ok eb" and "eb \<noteq> []"
  shows "(\<forall>c. map_of (AggregatedProjects (epoch_status ro e eb t)) p = Some c \<longrightarrow>
      int (length eb) \<le> 2 * votes_for eb p c \<and> (\<forall>c'. votes_for eb p c' \<le> votes_for eb p c)) \<and>
    ((\<exists>c. int (length eb) \<le> 2 * votes_for eb p c) \<longrightarrow>
      map_of (AggregatedProjects (epoch_status ro e eb t)) p \<noteq> None) \<and>
    (\<forall>c. int (length eb) \<le> 2 * votes_for eb p c \<and> 100 * votes_for eb p c < 67 * int (length eb) \<and>
      (\<forall>c'. c' \<noteq> c \<longrightarrow> votes_for eb p c' < votes_for eb p c) \<longrightarrow>
      map_of (AggregatedProjects (epoch_status ro e eb t)) p = Some c)"
proof -
  let ?w = "map_of (AggregatedProjects (epoch_status ro e eb t)) p"
  note e = election [OF assms, of ro e t p]
  have "?w = Some c" if half: "int (length eb) \<le> 2 * votes_for eb p c" and most: "\<forall>c'. c' \<noteq> c \<longrightarrow> votes_for eb p c' < votes_for eb p c" for c
  proof -
    obtain c' where c': "?w = Some c'" using e half by blast
    then have "votes_for eb p c \<le> votes_for eb p c'" using e by blast
    then have "c' = c" using most by (meson not_less)
    then show ?thesis using c' by simp
  qed
  then show ?thesis using e by blast
qed

lemma one_vote_counts: "x \<in> set eb \<Longrightarrow> int (count_list (named (snd x)) (p, c)) \<le> votes_for eb p c"
proof (induction eb)
  case (Cons y eb)
  have "0 \<le> votes_for eb p c" unfolding votes_for_def by (rule sum_list_nonneg) auto
  with Cons show ?case by (auto simp: votes_for_def)
qed simp

text \<open>One validator of four can elect a CID: named in its metadata and in its loaded batch, a CID has two
  votes, half of four, and wins wherever no other CID is named twice.\<close>

theorem one_of_four_elects:
  assumes "votes_ok eb" and "length eb \<le> 4" and "(i, v) \<in> set eb"
    and "(p, c) \<in> set (metadata_named v)" and "(p, c) \<in> set (data_votes v)"
    and "\<And>c'. c' \<noteq> c \<Longrightarrow> votes_for eb p c' \<le> 1"
  shows "map_of (AggregatedProjects (epoch_status ro e eb t)) p = Some c"
proof -
  have "1 \<le> count_list (metadata_named v) (p, c)" "1 \<le> count_list (data_votes v) (p, c)"
    using assms(4,5) count_list_0_iff [of _ "(p, c)"] by (metis less_one not_le)+
  then have two: "2 \<le> int (count_list (named v) (p, c))" by (simp add: named_def)
  have ne: "eb \<noteq> []" using assms(3) by auto
  have "int (count_list (named v) (p, c)) \<le> votes_for eb p c"
    using one_vote_counts [OF assms(3)] by simp
  then have vc: "2 \<le> votes_for eb p c" using two by simp
  then have half: "int (length eb) \<le> 2 * votes_for eb p c" using assms(2) by linarith
  show ?thesis
  proof -
    obtain d where d: "map_of (AggregatedProjects (epoch_status ro e eb t)) p = Some d"
      using election [OF assms(1) ne, of ro e t p] half by blast
    then have "votes_for eb p c \<le> votes_for eb p d"
      using election [OF assms(1) ne, of ro e t p] by blast
    then have "d = c" using assms(6) [of d] vc by (cases "d = c") auto
    with d show ?thesis by simp
  qed
qed

section \<open>Announcements and their votes\<close>

text \<open>The votes that a validator announces are counted by nobody: \<open>BroadcastFinalizedBatch\<close> sends the
  number of votes of each project where the tally looks for a CID, so a received announcement names
  nothing, and its sender's own copy neither. Only batches loaded from IPFS count.\<close>

theorem announced_votes_never_counted:
  assumes "ParseTime L (TimeText L zero_time) = Some zero_time" and "int63 (int (length (ProjectIds b)))"
  shows "snd (decode_vbatch L (Js (enc_vbatch L (announcement pc b cid)))) \<and>
    named (fst (decode_vbatch L (Js (enc_vbatch L (announcement pc b cid))))) = [] \<and>
    named (announcement pc b cid) = []"
proof -
  have "decode_vbatch L (Js (enc_vbatch L (announcement pc b cid))) =
      ((announcement pc b cid)\<lparr>BatchData := None, vbLocal := False\<rparr>, True)"
    using assms by (intro decode_enc_vbatch) (simp_all add: announcement_def)
  moreover have "List.map_filter (\<lambda>x. map_option (Pair (fst x)) (cid_of (snd x)))
      (map (\<lambda>(p, n). (p, JNum (uint n))) m) = []" for m :: "(string, u32) gomap"
    by (induction m) (auto simp: map_filter_simps)
  ultimately show ?thesis
    by (simp add: named_def metadata_named_def metadata_votes_def announcement_def data_votes_def get_obj_def)
qed

section \<open>Crashes\<close>

lemma log_aggregated_crash:
  assumes "\<And>p c. (p, c) \<in> set agg \<Longrightarrow> 0 < mget 0 (mget [] votes p) c" and "go_ok agg"
  shows "outcome R (log_aggregated ro votes agg) s = None \<longleftrightarrow> (\<exists>(p, c) \<in> set agg. length c < 12)"
proof -
  have "outcome R (for_each (\<lambda>(p, cid) u.
       if 0 < mget 0 (mget [] votes p) cid then or_panic (slice_to 12 cid) (\<lambda>_. Ret ()) else Ret ()) xs ()) s = None
      \<longleftrightarrow> (\<exists>(p, c) \<in> set xs. length c < 12)"
    if "\<forall>(p, c) \<in> set xs. 0 < mget 0 (mget [] votes p) c" for xs s
    using that
  proof (induction xs arbitrary: s)
    case (Cons x xs)
    obtain p c where x: "x = (p, c)" by (cases x)
    show ?case
      using Cons.IH [of s] Cons.prems by (cases "length c < 12") (simp_all add: x slice_to_def)
  qed simp
  with assms show ?thesis by (simp add: log_aggregated_def set_range_map case_prod_unfold)
qed

lemma aggregated_ok:
  "go_ok (AggregatedProjects (epoch_status ro e eb t))"
proof -
  let ?v = "range_map ro ''projectVotes'' (tlVotes (tally_epoch ro eb))"
  have ok: "distinct (map fst ?v)"
    using tally_epoch_ok [of ro eb] go_ok_range_map unfolding tally_ok_def go_ok_def by blast
  have key: "fst y = fst x" if "elect ro n x = Some y" for n x y
    using that by (auto simp: elect_def split: prod.splits if_splits)
  have "distinct (map fst (List.map_filter (elect ro n) xs))" if "distinct (map fst xs)" for n xs
    using that
  proof (induction xs)
    case (Cons x xs)
    have "fst ` set (List.map_filter (elect ro n) xs) \<subseteq> fst ` set xs"
      using key by (force simp: map_filter_def)
    then have "fst x \<notin> fst ` set (List.map_filter (elect ro n) xs)" using Cons.prems by auto
    with Cons key [of n x] show ?case by (cases "elect ro n x") (simp_all add: map_filter_simps)
  qed (simp add: map_filter_simps)
  from this [OF ok] show ?thesis by (simp add: go_ok_def epoch_status_def Let_def)
qed

text \<open>Tallying an epoch crashes the validator exactly when at least two validators reported and a CID that
  is recorded has fewer than twelve characters: a log line slices it. Anyone who can get a short
  text elected stops every validator of the network.\<close>

theorem tally_crashes_iff_short_cid:
  assumes "sane_lib L" and "votes_ok (epoch_batches pc e)"
  shows "outcome R (aggregateEpochVotes L ro pc e) s = None \<longleftrightarrow>
    2 \<le> length (epoch_batches pc e) \<and>
    (\<exists>(p, c) \<in> set (AggregatedProjects (epoch_status ro e (epoch_batches pc e) 0)). length c < 12)"
proof (cases "2 \<le> length (epoch_batches pc e)")
  case False
  then show ?thesis by (simp add: aggregateEpochVotes_def MinValidatorsForConsensus_def)
next
  case True
  let ?eb = "epoch_batches pc e"
  let ?t = "int_of (fst (R s NowNano))" and ?s = "snd (R s NowNano)"
  define st where "st = epoch_status ro e ?eb ?t"
  have same: "AggregatedProjects st = AggregatedProjects (epoch_status ro e ?eb 0)"
    by (simp add: st_def epoch_status_def Let_def)
  have ne: "?eb \<noteq> []" using True by auto
  have pos: "0 < mget 0 (mget [] (asProjectVotes st) p) c" if "(p, c) \<in> set (AggregatedProjects st)" for p c
  proof -
    have "map_of (AggregatedProjects st) p = Some c"
      using that aggregated_ok [of ro e ?eb ?t] by (simp add: go_ok_def flip: st_def)
    then have "int (length ?eb) \<le> 2 * votes_for ?eb p c"
      using election [OF assms(2) ne, of ro e ?t p] by (simp flip: st_def)
    moreover have "votes_for ?eb p c = mget 0 (mget [] (asProjectVotes st) p) c"
      using tally_votes [OF assms(2), of ro p c] by (simp add: votes_of_def st_def epoch_status_def Let_def)
    ultimately show ?thesis using True by simp
  qed
  obtain okb s1 where s1: "run R (storeAggregationStatus L st) ?s = (Some okb, s1)"
    by (simp add: storeAggregationStatus_def run_Call)
  have root: "merkle_root L (map fst xs) (map snd xs) \<noteq> None" for xs :: "(string \<times> string) list"
    by (simp add: merkle_root_None)
  have complete: "\<exists>s3. run R (onAggregationComplete L ro pc2 e agg) s2 = (Some (), s3)" for pc2 agg s2
  proof -
    let ?xs = "range_map ro ''aggregatedProjects'' agg"
    obtain r where r: "merkle_root L (map fst ?xs) (map snd ?xs) = Some r" using root by blast
    then have "length r = 32" using assms(1) by (auto simp: merkle_root_def sane_lib_def)
    then show ?thesis by (simp add: onAggregationComplete_def Let_def r slice_to_def run_Call exec_def)
  qed
  have "outcome R (aggregateEpochVotes L ro pc e) s = None \<longleftrightarrow>
      outcome R (log_aggregated ro (asProjectVotes st) (AggregatedProjects st)) s1 = None"
  proof (cases "run R (log_aggregated ro (asProjectVotes st) (AggregatedProjects st)) s1")
    case (Pair u s2)
    obtain s3 where "run R (onAggregationComplete L ro (pc\<lparr>aggregationStatuses := AList.update e st (aggregationStatuses pc),
        epochsAggregated := epochsAggregated pc + 1\<rparr>) e (AggregatedProjects st)) s2 = (Some (), s3)"
      using complete by blast
    then show ?thesis
      using True s1 Pair
      by (cases u) (simp_all add: aggregateEpochVotes_def MinValidatorsForConsensus_def run_Call run_bindp Let_def flip: st_def)
  qed
  also have "\<dots> \<longleftrightarrow> (\<exists>(p, c) \<in> set (AggregatedProjects st). length c < 12)"
    using pos aggregated_ok [of ro e ?eb ?t] by (intro log_aggregated_crash) (simp_all flip: st_def)
  finally show ?thesis using True same by simp
qed

text \<open>A message with a root of fewer than sixteen characters crashes the validator that receives it, before
  any of its fields is validated: \<open>{}\<close> is enough.\<close>

theorem short_root_crashes_receiver:
  assumes "decode_vbatch L data = (v, True)" and "length (vbMerkleRoot v) < 16"
  shows "outcome R (processBatchMessage L ro pc data) s = None"
  using assms by (simp add: processBatchMessage_def run_Call slice_to_def Let_def)

text \<open>A batch is loaded from IPFS only if its own projects and CIDs hash to the root that was announced:
  whatever IPFS returns, the tables either stay as they are or gain exactly such a batch.\<close>

theorem loaded_batch_matches_root:
  assumes "outcome R (fetchBatchFromIPFS L v pc) s = Some pc'"
  shows "pc' = pc \<or> (\<exists>b root. merkle_root L (ProjectIds b) (SnapshotCids b) = Some root \<and>
    hex_encode root = vbMerkleRoot v \<and> pc' = load_batch v b pc)"
  using assms
  by (auto simp: fetchBatchFromIPFS_def run_Call case_prod_unfold Let_def or_panic_def split: reply.splits if_splits
      option.splits)

section \<open>Examples\<close>

definition demo_vote :: "string \<Rightarrow> string \<Rightarrow> bool \<Rightarrow> validatorBatch" where
  "demo_vote i c loaded = zero_vbatch\<lparr>ValidatorID := i, vbEpochID := 7, vbIPFSCID := ''QmBatch'',
     vbMetadata := [(''votes'', JObj [(''p'', JStr c)])],
     BatchData := (if loaded then Some (zero_batch\<lparr>ProjectIds := [''p''], SnapshotCids := [c]\<rparr>) else None)\<rparr>"

definition demo_epoch :: "(string, validatorBatch) gomap" where
  "demo_epoch = [(''v1'', demo_vote ''v1'' ''QmA'' True), (''v2'', demo_vote ''v2'' ''QmB'' False),
     (''v3'', demo_vote ''v3'' ''QmC'' False), (''v4'', demo_vote ''v4'' ''QmD'' False)]"

lemma demo_metadata: "metadata_votes (demo_vote i c l) = [(''p'', JStr c)]"
  by (simp add: metadata_votes_def demo_vote_def zero_vbatch_def get_obj_def)

lemma demo_named:
  "metadata_named (demo_vote i c l) = [(''p'', c)]"
  "data_votes (demo_vote i c l) = (if l then [(''p'', c)] else [])"
  by (simp_all add: metadata_named_def demo_metadata map_filter_simps data_votes_def) (simp_all add: demo_vote_def)

lemma demo_epoch_ok: "votes_ok demo_epoch"
  by (auto simp: votes_ok_def demo_epoch_def demo_metadata go_ok_def)

lemma demo_votes_for:
  "votes_for demo_epoch ''p'' c = (if c = ''QmA'' then 2 else if c \<in> {''QmB'', ''QmC'', ''QmD''} then 1 else 0)"
  by (auto simp: votes_for_def demo_epoch_def named_def demo_named)

theorem elected_cid_is_plurality_with_half_witness:
  "length demo_epoch = 4 \<and> votes_for demo_epoch ''p'' ''QmA'' = 2 \<and>
   map_of (AggregatedProjects (epoch_status in_order 7 demo_epoch 0)) ''p'' = Some ''QmA''"
proof -
  have ne: "demo_epoch \<noteq> []" and n: "length demo_epoch = 4" by (simp_all add: demo_epoch_def)
  have v: "votes_for demo_epoch ''p'' ''QmA'' = 2" "\<And>c'. c' \<noteq> ''QmA'' \<Longrightarrow> votes_for demo_epoch ''p'' c' < 2"
    by (simp_all add: demo_votes_for)
  from elected_cid_is_plurality_with_half [OF demo_epoch_ok ne, of in_order 7 0 "''p''", THEN conjunct2, THEN conjunct2, rule_format, of "''QmA''"]
  show ?thesis using v n by simp
qed

theorem one_of_four_elects_witness:
  "map_of (AggregatedProjects (epoch_status in_order 7 demo_epoch 0)) ''p'' = Some ''QmA''"
proof (rule one_of_four_elects [OF demo_epoch_ok, of "''v1''" "demo_vote ''v1'' ''QmA'' True"])
  show "votes_for demo_epoch ''p'' c' \<le> 1" if "c' \<noteq> ''QmA''" for c'
    using that by (simp add: demo_votes_for)
qed (simp_all add: demo_named, simp_all add: demo_epoch_def)

theorem announced_votes_never_counted_witness:
  "named (fst (decode_vbatch (demo_lib\<lparr>ParseTime := \<lambda>_. Some zero_time\<rparr>)
     (Js (enc_vbatch (demo_lib\<lparr>ParseTime := \<lambda>_. Some zero_time\<rparr>)
       (announcement (NewP2PConsensus ''v1'' ''peer'' False ''t'')
         (zero_batch\<lparr>ProjectIds := [''p''], ProjectVotes := [(''p'', 3)]\<rparr>) ''Qm''))))) = []"
  using announced_votes_never_counted [of "demo_lib\<lparr>ParseTime := \<lambda>_. Some zero_time\<rparr>"
      "zero_batch\<lparr>ProjectIds := [''p''], ProjectVotes := [(''p'', 3)]\<rparr>"
      "NewP2PConsensus ''v1'' ''peer'' False ''t''" "''Qm''"]
  by (simp add: int63_def)

definition demo_pc :: p2pConsensus where
  "demo_pc = (NewP2PConsensus ''v1'' ''peer'' False ''t'')\<lparr>validatorBatches := [(7, demo_epoch)]\<rparr>"

lemma demo_pc_epoch: "epoch_batches demo_pc 7 = demo_epoch"
  by (simp add: epoch_batches_def demo_pc_def NewP2PConsensus_def mget_def)

theorem tally_crashes_iff_short_cid_witness:
  "outcome store_step (aggregateEpochVotes demo_lib in_order demo_pc 7) empty_store = None"
proof -
  have "votes_ok (epoch_batches demo_pc 7)" by (simp add: demo_pc_epoch demo_epoch_ok)
  note iff = tally_crashes_iff_short_cid [OF sane_demo_lib this, of store_step in_order empty_store]
  have ne: "demo_epoch \<noteq> []" "int (length demo_epoch) \<le> 2 * votes_for demo_epoch ''p'' ''QmA''"
    by (simp_all add: demo_votes_for) (simp_all add: demo_epoch_def)
  then have "map_of (AggregatedProjects (epoch_status in_order 7 demo_epoch 0)) ''p'' \<noteq> None"
    using election [OF demo_epoch_ok, of in_order 7 0 "''p''"] by blast
  then obtain c where c: "map_of (AggregatedProjects (epoch_status in_order 7 demo_epoch 0)) ''p'' = Some c" by blast
  then have "int (length demo_epoch) \<le> 2 * votes_for demo_epoch ''p'' c"
    using election [OF demo_epoch_ok ne(1), of in_order 7 0 "''p''"] by blast
  moreover have "length demo_epoch = 4" by (simp add: demo_epoch_def)
  ultimately have "c = ''QmA''" by (auto simp: demo_votes_for split: if_splits)
  with map_of_SomeD [OF c] show ?thesis
    unfolding iff demo_pc_epoch by (force simp: demo_epoch_def)
qed

theorem short_root_crashes_receiver_witness:
  "outcome store_step (processBatchMessage demo_lib in_order demo_pc (Js (JObj []))) empty_store = None"
proof -
  have "decode_vbatch demo_lib (Js (JObj [])) = (zero_vbatch, True)"
    by (simp add: decode_vbatch_def dec_field_def Let_def zero_vbatch_def)
  then show ?thesis by (rule short_root_crashes_receiver) (simp add: zero_vbatch_def)
qed

theorem loaded_batch_matches_root_witness:
  "outcome store_step (fetchBatchFromIPFS demo_lib (demo_vote ''v1'' ''QmA'' False\<lparr>vbMerkleRoot := hex_encode (replicate 32 0)\<rparr>) demo_pc)
     (empty_store\<lparr>pinned := (\<lambda>_. Some (Js (enc_batch zero_batch)))\<rparr>) \<noteq> None \<and>
   (\<exists>(b :: finalizedBatch) root. merkle_root demo_lib (ProjectIds b) (SnapshotCids b) = Some root)"
proof -
  let ?v = "demo_vote ''v1'' ''QmA'' False\<lparr>vbMerkleRoot := hex_encode (replicate 32 0)\<rparr>"
  let ?d = "empty_store\<lparr>pinned := (\<lambda>_. Some (Js (enc_batch zero_batch)))\<rparr>"
  have z: "decode_batch (Js (enc_batch zero_batch)) = (zero_batch, True)"
    by (rule decode_enc_batch) (simp add: batch_ok_def zero_batch_def int63_def)
  have r: "merkle_root demo_lib [] [] = Some (replicate 32 0)" by (simp add: merkle_root_def demo_lib_def)
  have o: "outcome store_step (fetchBatchFromIPFS demo_lib ?v demo_pc) ?d = Some (load_batch ?v zero_batch demo_pc)"
    using z r by (simp add: fetchBatchFromIPFS_def run_Call demo_vote_def) (simp add: zero_batch_def)
  have "load_batch ?v zero_batch demo_pc \<noteq> demo_pc"
    by (simp add: load_batch_def demo_pc_def demo_epoch_def NewP2PConsensus_def epoch_batches_def mget_def demo_vote_def zero_vbatch_def)
      (simp add: zero_batch_def)
  with loaded_batch_matches_root [OF o] o show ?thesis by auto
qed

end
