(* ===== verification/Search.thy ===== *)
theory Search
  imports Float64
begin

text \<open>
  \<open>sort.Search\<close>, the binary search behind the metrics package, and what it finds in a sorted slice:
  the split of the slice at the key. Also the clock arithmetic of \<open>time\<close>: an instant is its
  nanoseconds since the epoch, a duration its nanoseconds.
\<close>

function search_loop :: "(nat \<Rightarrow> bool) \<Rightarrow> nat \<Rightarrow> nat \<Rightarrow> nat" where
  "search_loop f i j =
     (if i < j
      then let h = (i + j) div 2 in if f h then search_loop f i h else search_loop f (h + 1) j
      else i)"
  by pat_completeness auto
termination
  by (relation "measure (\<lambda>(f, i, j). j - i)") auto

declare search_loop.simps [simp del]

lemma search_loop_end [simp]: "\<not> i < j \<Longrightarrow> search_loop f i j = i"
  by (subst search_loop.simps) simp

lemma search_loop_step:
  "i < j \<Longrightarrow> search_loop f i j =
     (if f ((i + j) div 2) then search_loop f i ((i + j) div 2) else search_loop f ((i + j) div 2 + 1) j)"
  by (subst search_loop.simps) (simp add: Let_def)

definition go_search :: "nat \<Rightarrow> (nat \<Rightarrow> bool) \<Rightarrow> nat" where
  "go_search n f = search_loop f 0 n"

text \<open>The loop ends between its bounds, with the predicate false before the end and true at it, whenever
  the predicate never turns false again.\<close>

lemma search_loop_bounds: "i \<le> j \<Longrightarrow> i \<le> search_loop f i j \<and> search_loop f i j \<le> j"
proof (induction f i j rule: search_loop.induct)
  case (1 f i j)
  show ?case
  proof (cases "i < j")
    case True
    define h where "h = (i + j) div 2"
    have h: "i \<le> h" "h < j" using True by (auto simp: h_def)
    then show ?thesis
      using "1.IH"(1) [OF True h_def] "1.IH"(2) [OF True h_def] True
      by (auto simp: search_loop_step simp flip: h_def)
  qed (use 1 in simp)
qed

lemma search_loop_split:
  assumes "i \<le> j" and "\<And>a b. a \<le> b \<Longrightarrow> b < n \<Longrightarrow> f a \<Longrightarrow> f b" and "j \<le> n"
    and "\<And>k. k < i \<Longrightarrow> \<not> f k" and "\<And>k. j \<le> k \<Longrightarrow> k < n \<Longrightarrow> f k"
  shows "(\<forall>k < search_loop f i j. \<not> f k) \<and> (\<forall>k. search_loop f i j \<le> k \<longrightarrow> k < n \<longrightarrow> f k)"
  using assms
proof (induction f i j rule: search_loop.induct)
  case (1 f i j)
  show ?case
  proof (cases "i < j")
    case True
    define h where "h = (i + j) div 2"
    have h: "i \<le> h" "h < j" using True by (auto simp: h_def)
    show ?thesis
    proof (cases "f h")
      case f: True
      have "(\<forall>k < search_loop f i h. \<not> f k) \<and> (\<forall>k. search_loop f i h \<le> k \<longrightarrow> k < n \<longrightarrow> f k)"
        by (rule "1.IH"(1) [OF True h_def f h(1)])
          (use "1.prems" h f in \<open>auto intro: order.trans\<close>)
      then show ?thesis using True f by (simp add: search_loop_step flip: h_def)
    next
      case f: False
      have "(\<forall>k < search_loop f (h + 1) j. \<not> f k) \<and> (\<forall>k. search_loop f (h + 1) j \<le> k \<longrightarrow> k < n \<longrightarrow> f k)"
      proof (rule "1.IH"(2) [OF True h_def f])
        show "\<not> f k" if "k < h + 1" for k
          using "1.prems"(2) [of k h] "1.prems"(3) h f that by auto
      qed (use "1.prems" h in auto)
      then show ?thesis using True f by (simp add: search_loop_step flip: h_def)
    qed
  next
    case False
    then show ?thesis using "1.prems"(4,5) by simp
  qed
qed

lemma go_search_unique:
  assumes "\<And>a b. a \<le> b \<Longrightarrow> b < n \<Longrightarrow> f a \<Longrightarrow> f b"
    and "m \<le> n" and "\<And>k. k < m \<Longrightarrow> \<not> f k" and "\<And>k. m \<le> k \<Longrightarrow> k < n \<Longrightarrow> f k"
  shows "go_search n f = m"
proof -
  let ?s = "search_loop f 0 n"
  have s: "\<forall>k < ?s. \<not> f k" "\<forall>k. ?s \<le> k \<longrightarrow> k < n \<longrightarrow> f k"
    using search_loop_split [of 0 n n f] assms(1) by auto
  have "?s \<le> n" using search_loop_bounds [of 0 n f] by simp
  moreover have "\<not> ?s < m" using s(2) assms(2,3) by (meson less_le_trans order_refl)
  moreover have "\<not> m < ?s" using s(1) assms(4) \<open>?s \<le> n\<close> by (meson less_le_trans order_refl)
  ultimately show ?thesis by (simp add: go_search_def)
qed

text \<open>In a sorted slice the search for a key splits off the smaller elements.\<close>

lemma search_sorted:
  fixes xs :: "'a :: linorder list"
  assumes "sorted xs"
  shows "go_search (length xs) (\<lambda>i. k \<le> xs ! i) = length (filter (\<lambda>x. x < k) xs)"
    and "take (go_search (length xs) (\<lambda>i. k \<le> xs ! i)) xs = filter (\<lambda>x. x < k) xs"
    and "drop (go_search (length xs) (\<lambda>i. k \<le> xs ! i)) xs = filter (\<lambda>x. k \<le> x) xs"
proof -
  let ?a = "filter (\<lambda>x. x < k) xs" and ?b = "filter (\<lambda>x. k \<le> x) xs"
  have split: "xs = ?a @ ?b"
    using assms
  proof (induction xs)
    case (Cons x xs)
    show ?case
    proof (cases "x < k")
      case False
      with Cons.prems have "\<forall>y \<in> set xs. k \<le> y" by auto
      with False show ?thesis by (simp add: filter_False not_less)
    qed (use Cons in simp)
  qed simp
  have len: "length xs = length ?a + length ?b" using split by (metis length_append)
  show eq: "go_search (length xs) (\<lambda>i. k \<le> xs ! i) = length ?a"
  proof (rule go_search_unique)
    show "k \<le> xs ! b" if "a \<le> b" "b < length xs" "k \<le> xs ! a" for a b
      using assms that by (meson order.trans sorted_nth_mono)
    show "\<not> k \<le> xs ! i" if "i < length ?a" for i
    proof -
      have "xs ! i = ?a ! i" using that by (subst split) (simp add: nth_append)
      then show ?thesis using nth_mem [OF that] by (simp add: not_le)
    qed
    show "k \<le> xs ! i" if "length ?a \<le> i" "i < length xs" for i
    proof -
      have "xs ! i = ?b ! (i - length ?a)" using that by (subst split) (simp add: nth_append)
      moreover have "i - length ?a < length ?b" using that len by simp
      ultimately show ?thesis using nth_mem [of "i - length ?a" ?b] by auto
    qed
  qed (rule length_filter_le)
  show "take (go_search (length xs) (\<lambda>i. k \<le> xs ! i)) xs = ?a"
    unfolding eq by (subst split) simp
  show "drop (go_search (length xs) (\<lambda>i. k \<le> xs ! i)) xs = ?b"
    unfolding eq by (subst split) simp
qed

lemma smaller_prefix:
  fixes xs :: "'a :: linorder list"
  assumes "sorted xs" and "i < length xs"
  shows "i < length (filter (\<lambda>x. x < k) xs) \<longleftrightarrow> xs ! i < k"
proof -
  let ?a = "filter (\<lambda>x. x < k) xs" and ?b = "filter (\<lambda>x. k \<le> x) xs"
  have split: "xs = ?a @ ?b" using search_sorted(2,3) [OF assms(1), of k] by (metis append_take_drop_id)
  show ?thesis
  proof (cases "i < length ?a")
    case True
    then have "xs ! i = ?a ! i" by (subst split) (simp add: nth_append)
    with True nth_mem [OF True] show ?thesis by simp
  next
    case False
    then have "xs ! i = ?b ! (i - length ?a)" by (subst split) (simp add: nth_append)
    moreover have "i - length ?a < length ?b" using False assms(2) arg_cong [OF split, of length] by simp
    ultimately have "k \<le> xs ! i" using nth_mem [of "i - length ?a" ?b] by auto
    with False show ?thesis by simp
  qed
qed

section \<open>Time\<close>

definition unix_sec :: "int \<Rightarrow> int" where
  "unix_sec t = t div 10 ^ 9"

text \<open>\<open>Duration.Seconds()\<close>.\<close>

definition dur_seconds :: "int \<Rightarrow> float64" where
  "dur_seconds d =
     fadd (f_of_int (sgn d * (\<bar>d\<bar> div 10 ^ 9))) (fdiv (f_of_int (sgn d * (\<bar>d\<bar> mod 10 ^ 9))) (Fin (10 ^ 9)))"

lemma dur_seconds_whole:
  assumes "\<bar>s\<bar> \<le> 2 ^ 53"
  shows "dur_seconds (s * 10 ^ 9) = Fin (of_int s)" "f_to_int (dur_seconds (s * 10 ^ 9)) = s"
proof -
  have d: "sgn (s * 10 ^ 9) * (\<bar>s * 10 ^ 9\<bar> div 10 ^ 9) = s" "\<bar>s * 10 ^ 9\<bar> mod 10 ^ 9 = 0"
    by (simp_all add: abs_mult sgn_mult sgn_mult_abs)
  have z: "round64 0 = Fin 0" by (simp add: round64_def)
  show e: "dur_seconds (s * 10 ^ 9) = Fin (of_int s)"
    unfolding dur_seconds_def d using f_of_int_exact [OF assms] f_of_int_exact [of 0] round64_exact [OF assms]
    by (simp add: z)
  show "f_to_int (dur_seconds (s * 10 ^ 9)) = s"
    unfolding e using assms by (auto simp: trunc_def Let_def)
qed

text \<open>\<open>Time.Sub\<close> saturates.\<close>

definition time_sub :: "int \<Rightarrow> int \<Rightarrow> int" where
  "time_sub t u = max (- (2 ^ 63)) (min (2 ^ 63 - 1) (t - u))"

text \<open>Integer division truncates towards zero; rounding a number of seconds down to a multiple
  therefore rounds towards the epoch. A divisor of zero panics.\<close>

definition div_trunc :: "int \<Rightarrow> int \<Rightarrow> int" where
  "div_trunc a b = sgn a * sgn b * (\<bar>a\<bar> div \<bar>b\<bar>)"

definition round_to :: "int \<Rightarrow> int \<Rightarrow> int option" where
  "round_to seconds t = (if seconds = 0 then None else Some (div_trunc t seconds * seconds))"

lemma round_to_idem: "round_to s t = Some k \<Longrightarrow> round_to s k = Some k"
  by (auto simp: round_to_def div_trunc_def abs_mult sgn_mult split: if_splits)
     (auto simp: sgn_if abs_if split: if_splits)

lemma round_to_mono:
  assumes "t \<le> t'" and "round_to s t = Some k" and "round_to s t' = Some k'"
  shows "k \<le> k'"
proof -
  have e: "div_trunc x s * s = (if 0 \<le> x then \<bar>s\<bar> * (x div \<bar>s\<bar>) else - (\<bar>s\<bar> * (- x div \<bar>s\<bar>)))" for x
    by (auto simp: div_trunc_def sgn_if abs_if)
  have p: "0 \<le> \<bar>s\<bar> * (x div \<bar>s\<bar>)" if "0 \<le> x" for x
    using that by (simp add: pos_imp_zdiv_nonneg_iff zero_le_mult_iff div_int_pos_iff)
  have m: "\<bar>s\<bar> * (x div \<bar>s\<bar>) \<le> \<bar>s\<bar> * (y div \<bar>s\<bar>)" if "x \<le> y" "s \<noteq> 0" for x y
    using that by (simp add: mult_left_mono zdiv_mono1)
  from assms have k: "s \<noteq> 0" "k = div_trunc t s * s" "k' = div_trunc t' s * s"
    by (auto simp: round_to_def split: if_splits)
  consider "0 \<le> t" | "t < 0" "0 \<le> t'" | "t' < 0" using assms(1) by linarith
  then show ?thesis
  proof cases
    case 1
    then show ?thesis unfolding k(2,3) e using assms(1) m [of t t'] k(1) by simp
  next
    case 2
    then show ?thesis unfolding k(2,3) e using p [of "- t"] p [of t'] by simp
  next
    case 3
    then show ?thesis unfolding k(2,3) e using assms(1) m [of "- t'" "- t"] k(1) by simp
  qed
qed

end
