(* ===== verification/TimeSeries.thy ===== *)
theory TimeSeries
  imports Search
begin

text \<open>
  \<open>pkgs/metrics/timeseries.go\<close>: a series of buckets of one resolution, kept in a map by their time
  and in a sorted slice of the times, with queries, aggregation, rates and downsampling, and the
  manager that bounds the number of series. A panic is \<open>None\<close>. The clean-up loop is one step of its
  ticker; the goroutines and locks are not modelled. Series are referred to by their keys in the
  manager's table.
\<close>

type_synonym labels = "(string, string) gomap"

record bucket =
  bkTimestamp :: int
  bkCount :: int
  bkSum :: float64
  bkMin :: float64
  bkMax :: float64
  bkValues :: "float64 list"

record timeSeries =
  tsName :: string
  tsLabels :: labels
  resolution :: int
  retention :: int
  buckets :: "(int, bucket) gomap"
  times :: "int list"

record timeSeriesPoint =
  ptTimestamp :: int
  ptCount :: int
  ptSum :: float64
  ptMin :: float64
  ptMax :: float64
  ptAvg :: float64
  P50 :: float64
  P90 :: float64
  P95 :: float64
  P99 :: float64

record timeSeriesStats =
  TotalCount :: int
  TotalSum :: float64
  stMin :: float64
  stMax :: float64
  stAvg :: float64
  StdDev :: float64

record timeSeriesResult =
  rsName :: string
  rsLabels :: labels
  rsStart :: int
  rsEnd :: int
  Points :: "timeSeriesPoint list"
  Stats :: timeSeriesStats

definition second :: int where
  "second = 10 ^ 9"

definition hour :: int where
  "hour = 3600 * 10 ^ 9"

definition NewTimeSeries :: "string \<Rightarrow> labels \<Rightarrow> int \<Rightarrow> int \<Rightarrow> timeSeries" where
  "NewTimeSeries name ls res ret =
     \<lparr>tsName = name, tsLabels = ls, resolution = (if res = 0 then second else res),
      retention = (if ret = 0 then 24 * hour else ret), buckets = [], times = []\<rparr>"

section \<open>Adding a value\<close>

definition res_seconds :: "timeSeries \<Rightarrow> int" where
  "res_seconds ts = f_to_int (dur_seconds (resolution ts))"

definition roundTime :: "timeSeries \<Rightarrow> int \<Rightarrow> int option" where
  "roundTime ts t = round_to (res_seconds ts) (unix_sec t)"

definition insertSorted :: "int \<Rightarrow> int list \<Rightarrow> int list" where
  "insertSorted key xs =
     (let idx = go_search (length xs) (\<lambda>i. key \<le> xs ! i) in
      if idx < length xs \<and> xs ! idx = key then xs else take idx xs @ [key] @ drop idx xs)"

definition new_bucket :: "int \<Rightarrow> float64 \<Rightarrow> bucket" where
  "new_bucket t v = \<lparr>bkTimestamp = t, bkCount = 0, bkSum = Fin 0, bkMin = v, bkMax = v, bkValues = []\<rparr>"

definition update_bucket :: "float64 \<Rightarrow> bucket \<Rightarrow> bucket" where
  "update_bucket v b =
     b\<lparr>bkCount := bkCount b + 1, bkSum := fadd (bkSum b) v, bkValues := bkValues b @ [v],
       bkMin := (if flt v (bkMin b) then v else bkMin b), bkMax := (if flt (bkMax b) v then v else bkMax b)\<rparr>"

definition add_at :: "int \<Rightarrow> float64 \<Rightarrow> timeSeries \<Rightarrow> timeSeries" where
  "add_at key v ts =
     (case map_of (buckets ts) key of
        Some b \<Rightarrow> ts\<lparr>buckets := AList.update key (update_bucket v b) (buckets ts)\<rparr>
      | None \<Rightarrow> ts\<lparr>buckets := AList.update key (update_bucket v (new_bucket key v)) (buckets ts),
                  times := insertSorted key (times ts)\<rparr>)"

definition Add :: "float64 \<Rightarrow> int \<Rightarrow> timeSeries \<Rightarrow> timeSeries option" where
  "Add v t ts = map_option (\<lambda>key. add_at key v ts) (roundTime ts t)"

section \<open>Queries\<close>

text \<open>\<open>percentile\<close> of the collector: linear interpolation. An index out of range panics.\<close>

definition percentile :: "float64 list \<Rightarrow> float64 \<Rightarrow> float64 option" where
  "percentile xs p =
     (if xs = [] then Some (Fin 0)
      else
        let index = fmul p (f_of_int (int (length xs) - 1)); lower = f_to_int index; upper = lower + 1 in
        if lower < 0 \<or> int (length xs) \<le> lower then None
        else if int (length xs) \<le> upper then Some (xs ! nat lower)
        else
          let weight = fsub index (f_of_int lower) in
          Some (fadd (fmul (xs ! nat lower) (fsub (Fin 1) weight)) (fmul (xs ! nat upper) weight)))"

definition p50 :: float64 where "p50 = Fin (1/2)"
definition p90 :: float64 where "p90 = round64 (9/10)"
definition p95 :: float64 where "p95 = round64 (95/100)"
definition p99 :: float64 where "p99 = round64 (99/100)"

definition zero_point :: timeSeriesPoint where
  "zero_point = \<lparr>ptTimestamp = 0, ptCount = 0, ptSum = Fin 0, ptMin = Fin 0, ptMax = Fin 0, ptAvg = Fin 0,
     P50 = Fin 0, P90 = Fin 0, P95 = Fin 0, P99 = Fin 0\<rparr>"

definition bucket_point :: "bucket \<Rightarrow> timeSeriesPoint option" where
  "bucket_point b =
     (let pt = zero_point\<lparr>ptTimestamp := bkTimestamp b, ptCount := bkCount b, ptSum := bkSum b, ptMin := bkMin b,
            ptMax := bkMax b, ptAvg := fdiv (bkSum b) (f_of_int (bkCount b))\<rparr> in
      if bkValues b = [] then Some pt
      else
        let xs = sort (bkValues b) in
        Option.bind (percentile xs p50) (\<lambda>a.
        Option.bind (percentile xs p90) (\<lambda>c.
        Option.bind (percentile xs p95) (\<lambda>d.
        Option.bind (percentile xs p99) (\<lambda>e.
        Some (pt\<lparr>P50 := a, P90 := c, P95 := d, P99 := e\<rparr>))))))"

text \<open>The loop stops at the first time after the end.\<close>

fun collect_points :: "(int, bucket) gomap \<Rightarrow> int \<Rightarrow> int list \<Rightarrow> timeSeriesPoint list option" where
  "collect_points bs endKey [] = Some []"
| "collect_points bs endKey (k # ks) =
     (if endKey < k then Some []
      else case map_of bs k of
        None \<Rightarrow> collect_points bs endKey ks
      | Some b \<Rightarrow>
          Option.bind (bucket_point b) (\<lambda>pt.
          map_option (\<lambda>pts. pt # pts) (collect_points bs endKey ks)))"

definition zero_stats :: timeSeriesStats where
  "zero_stats = \<lparr>TotalCount = 0, TotalSum = Fin 0, stMin = Fin 0, stMax = Fin 0, stAvg = Fin 0, StdDev = Fin 0\<rparr>"

definition stats_step :: "timeSeriesPoint \<Rightarrow> timeSeriesStats \<Rightarrow> timeSeriesStats" where
  "stats_step pt st =
     st\<lparr>TotalCount := TotalCount st + ptCount pt, TotalSum := fadd (TotalSum st) (ptSum pt),
        stMin := (if feq (stMin st) (Fin 0) \<or> flt (ptMin pt) (stMin st) then ptMin pt else stMin st),
        stMax := (if flt (stMax st) (ptMax pt) then ptMax pt else stMax st)\<rparr>"

definition squared_diff :: "float64 \<Rightarrow> timeSeriesPoint \<Rightarrow> float64 \<Rightarrow> float64" where
  "squared_diff avg pt acc =
     (let diff = fsub (ptAvg pt) avg in fadd acc (fmul (fmul diff diff) (f_of_int (ptCount pt))))"

definition calculateStats :: "timeSeriesPoint list \<Rightarrow> timeSeriesStats" where
  "calculateStats points =
     (if points = [] then zero_stats
      else
        let st = fold stats_step points zero_stats;
            avg = fdiv (TotalSum st) (f_of_int (TotalCount st)) in
        st\<lparr>stAvg := avg,
           StdDev := fsqrt (fdiv (fold (squared_diff avg) points (Fin 0)) (f_of_int (TotalCount st)))\<rparr>)"

definition Query :: "timeSeries \<Rightarrow> int \<Rightarrow> int \<Rightarrow> timeSeriesResult option" where
  "Query ts start end_time =
     Option.bind (roundTime ts start) (\<lambda>startKey.
     Option.bind (roundTime ts end_time) (\<lambda>endKey.
     let startIdx = go_search (length (times ts)) (\<lambda>i. startKey \<le> times ts ! i) in
     map_option (\<lambda>pts.
       \<lparr>rsName = tsName ts, rsLabels = tsLabels ts, rsStart = start, rsEnd = end_time, Points = pts,
        Stats = calculateStats pts\<rparr>)
       (collect_points (buckets ts) endKey (drop startIdx (times ts)))))"

section \<open>Clean-up\<close>

definition cleanup :: "int \<Rightarrow> timeSeries \<Rightarrow> timeSeries" where
  "cleanup now ts =
     (let cutoff = unix_sec (now - retention ts);
          keepIdx = go_search (length (times ts)) (\<lambda>i. cutoff \<le> times ts ! i) in
      ts\<lparr>buckets := fold AList.delete (take keepIdx (times ts)) (buckets ts), times := drop keepIdx (times ts)\<rparr>)"

section \<open>Aggregation\<close>

definition live_buckets :: "timeSeries \<Rightarrow> bucket list" where
  "live_buckets ts = List.map_filter (map_of (buckets ts)) (times ts)"

text \<open>Buckets by window; a window shorter than a second divides by zero.\<close>

fun group_buckets :: "int \<Rightarrow> bucket list \<Rightarrow> (int, bucket list) gomap \<Rightarrow> (int, bucket list) gomap option" where
  "group_buckets seconds [] g = Some g"
| "group_buckets seconds (b # bs) g =
     (case round_to seconds (bkTimestamp b) of
        None \<Rightarrow> None
      | Some key \<Rightarrow> group_buckets seconds bs (AList.update key (mget [] g key @ [b]) g))"

definition range_int :: "range_order \<Rightarrow> string \<Rightarrow> (int, 'v) gomap \<Rightarrow> (int \<times> 'v) list" where
  "range_int ro t m = map snd (range_map ro t (map (\<lambda>(k, v). (show_int k, (k, v))) m))"

definition all_values :: "bucket list \<Rightarrow> float64 list" where
  "all_values bs = concat (map bkValues bs)"

datatype aggregationType = AggSum | AggAvg | AggMin | AggMax | AggCount | AggP50 | AggP90 | AggP95 | AggP99
  | AggOther string

definition sum_values :: "float64 list \<Rightarrow> float64" where
  "sum_values vs = fold (\<lambda>v s. fadd s v) vs (Fin 0)"

definition min_value :: "float64 list \<Rightarrow> float64" where
  "min_value vs = fold (\<lambda>v m. if flt v m then v else m) vs (hd vs)"

definition max_value :: "float64 list \<Rightarrow> float64" where
  "max_value vs = fold (\<lambda>v m. if flt m v then v else m) vs (hd vs)"

fun agg_p :: "aggregationType \<Rightarrow> float64" where
  "agg_p AggP50 = p50"
| "agg_p AggP90 = p90"
| "agg_p AggP95 = p95"
| "agg_p AggP99 = p99"
| "agg_p _ = Fin 0"

text \<open>A percentile sorts the values in place, so later aggregations of the list see them sorted.\<close>

fun agg_step ::
  "aggregationType \<Rightarrow> float64 list \<times> (aggregationType, float64) gomap \<Rightarrow>
     (float64 list \<times> (aggregationType, float64) gomap) option" where
  "agg_step AggSum (vs, m) = Some (vs, AList.update AggSum (sum_values vs) m)"
| "agg_step AggAvg (vs, m) = Some (vs, if vs = [] then m
     else AList.update AggAvg (fdiv (sum_values vs) (f_of_int (int (length vs)))) m)"
| "agg_step AggMin (vs, m) = Some (vs, if vs = [] then m else AList.update AggMin (min_value vs) m)"
| "agg_step AggMax (vs, m) = Some (vs, if vs = [] then m else AList.update AggMax (max_value vs) m)"
| "agg_step AggCount (vs, m) = Some (vs, AList.update AggCount (f_of_int (int (length vs))) m)"
| "agg_step (AggOther s) (vs, m) = Some (vs, m)"
| "agg_step a (vs, m) = (if vs = [] then Some (vs, m)
     else map_option (\<lambda>x. (sort vs, AList.update a x m)) (percentile (sort vs) (agg_p a)))"

fun agg_all ::
  "aggregationType list \<Rightarrow> float64 list \<times> (aggregationType, float64) gomap \<Rightarrow>
     (aggregationType, float64) gomap option" where
  "agg_all [] st = Some (snd st)"
| "agg_all (a # as) st = Option.bind (agg_step a st) (agg_all as)"

record aggregatedPoint =
  apTimestamp :: int
  apWindow :: int
  apValues :: "(aggregationType, float64) gomap"

fun agg_points :: "int \<Rightarrow> aggregationType list \<Rightarrow> (int \<times> bucket list) list \<Rightarrow> aggregatedPoint list option" where
  "agg_points w as [] = Some []"
| "agg_points w as ((k, bs) # gs) =
     Option.bind (agg_all as (all_values bs, [])) (\<lambda>m.
     map_option (\<lambda>pts. \<lparr>apTimestamp = k, apWindow = w, apValues = m\<rparr> # pts) (agg_points w as gs))"

definition Aggregate :: "range_order \<Rightarrow> timeSeries \<Rightarrow> int \<Rightarrow> aggregationType list \<Rightarrow> aggregatedPoint list option" where
  "Aggregate ro ts window aggregations =
     (if times ts = [] then Some []
      else
        Option.bind (group_buckets (f_to_int (dur_seconds window)) (live_buckets ts) []) (\<lambda>groups.
        map_option (sort_key apTimestamp) (agg_points window aggregations (range_int ro ''windowBuckets'' groups))))"

section \<open>Rates\<close>

record ratePoint =
  rpTimestamp :: int
  rpRate :: float64
  rpWindow :: int

definition rate_point :: "int \<Rightarrow> bucket \<Rightarrow> bucket \<Rightarrow> ratePoint option" where
  "rate_point window prev cur =
     (let timeDiff = dur_seconds (time_sub (bkTimestamp cur * 10 ^ 9) (bkTimestamp prev * 10 ^ 9)) in
      if flt (Fin 0) timeDiff \<and> (flt timeDiff (dur_seconds window) \<or> feq timeDiff (dur_seconds window))
      then Some \<lparr>rpTimestamp = bkTimestamp cur, rpRate = fdiv (fsub (bkSum cur) (bkSum prev)) timeDiff,
        rpWindow = f_to_int (fmul timeDiff (Fin (10 ^ 9)))\<rparr>
      else None)"

definition Rate :: "timeSeries \<Rightarrow> int \<Rightarrow> ratePoint list" where
  "Rate ts window =
     List.map_filter (\<lambda>(p, c).
       Option.bind (map_of (buckets ts) p) (\<lambda>prev.
       Option.bind (map_of (buckets ts) c) (rate_point window prev)))
       (zip (times ts) (tl (times ts)))"

section \<open>Downsampling\<close>

fun add_all :: "int \<Rightarrow> float64 list \<Rightarrow> timeSeries \<Rightarrow> timeSeries option" where
  "add_all t [] ts = Some ts"
| "add_all t (v # vs) ts = Option.bind (Add v t ts) (add_all t vs)"

fun add_groups :: "(int \<times> bucket list) list \<Rightarrow> timeSeries \<Rightarrow> timeSeries option" where
  "add_groups [] ts = Some ts"
| "add_groups ((k, bs) # gs) ts = Option.bind (add_all (k * 10 ^ 9) (all_values bs) ts) (add_groups gs)"

text \<open>The inner \<open>None\<close> is the \<open>nil\<close> of a resolution that is not lower.\<close>

definition Downsample :: "range_order \<Rightarrow> timeSeries \<Rightarrow> int \<Rightarrow> timeSeries option option" where
  "Downsample ro ts newResolution =
     (if newResolution \<le> resolution ts then Some None
      else
        Option.bind (group_buckets (f_to_int (dur_seconds newResolution)) (live_buckets ts) []) (\<lambda>groups.
        map_option Some (add_groups (range_int ro ''groups'' groups)
          (NewTimeSeries (tsName ts @ ''_downsampled'') (tsLabels ts) newResolution (retention ts)))))"

section \<open>The manager\<close>

record timeSeriesManager =
  series :: "(string, timeSeries) gomap"
  DefaultResolution :: int
  DefaultRetention :: int
  MaxSeries :: int

definition NewTimeSeriesManager :: "int \<Rightarrow> int \<Rightarrow> int \<Rightarrow> timeSeriesManager" where
  "NewTimeSeriesManager res ret maxSeries =
     \<lparr>series = [], DefaultResolution = (if res = 0 then second else res),
      DefaultRetention = (if ret = 0 then 24 * hour else ret),
      MaxSeries = (if maxSeries = 0 then 10000 else maxSeries)\<rparr>"

definition labelsToString :: "range_order \<Rightarrow> labels \<Rightarrow> string" where
  "labelsToString ro ls =
     fold (\<lambda>(k, v) res. (if res \<noteq> '''' then res @ '','' else res) @ k @ ''='' @ v)
       (range_map ro ''labels'' ls) ''''"

definition series_key :: "range_order \<Rightarrow> string \<Rightarrow> labels \<Rightarrow> string" where
  "series_key ro name ls = name @ '':'' @ labelsToString ro ls"

text \<open>The series whose last time is smallest; a series without data is passed over.\<close>

definition oldest_step :: "string \<times> timeSeries \<Rightarrow> (string \<times> int) option \<Rightarrow> (string \<times> int) option" where
  "oldest_step x best =
     (if times (snd x) = [] then best
      else case best of
        None \<Rightarrow> Some (fst x, last (times (snd x)))
      | Some (k, t) \<Rightarrow> if k = '''' \<or> last (times (snd x)) < t then Some (fst x, last (times (snd x))) else best)"

definition evict_oldest :: "range_order \<Rightarrow> (string, timeSeries) gomap \<Rightarrow> (string, timeSeries) gomap" where
  "evict_oldest ro m =
     (case fold oldest_step (range_map ro ''series'' m) None of
        Some (k, t) \<Rightarrow> if k = '''' then m else AList.delete k m
      | None \<Rightarrow> m)"

definition GetOrCreate :: "range_order \<Rightarrow> string \<Rightarrow> labels \<Rightarrow> timeSeriesManager \<Rightarrow> timeSeriesManager \<times> string" where
  "GetOrCreate ro name ls tsm =
     (let key = series_key ro name ls in
      if map_of (series tsm) key \<noteq> None then (tsm, key)
      else
        let m = (if MaxSeries tsm \<le> int (length (series tsm)) then evict_oldest ro (series tsm) else series tsm) in
        (tsm\<lparr>series := AList.update key
           (NewTimeSeries name ls (DefaultResolution tsm) (DefaultRetention tsm)) m\<rparr>, key))"

definition List_series :: "range_order \<Rightarrow> timeSeriesManager \<Rightarrow> timeSeries list" where
  "List_series ro tsm = map snd (range_map ro ''series'' (series tsm))"

definition Remove :: "range_order \<Rightarrow> string \<Rightarrow> labels \<Rightarrow> timeSeriesManager \<Rightarrow> timeSeriesManager" where
  "Remove ro name ls tsm = tsm\<lparr>series := AList.delete (series_key ro name ls) (series tsm)\<rparr>"

end
