(* ===== verification/Timeline.thy ===== *)
theory Timeline
  imports TimeSeries
begin

text \<open>
  What a time series holds and answers. \<open>values_at\<close> is its abstract content, the values of each
  bucket time; \<open>series_ok\<close> ties the map of buckets, the sorted times and the running figures of each
  bucket together. Every operation is shown to preserve the one and to act on the other as on a
  plain map from times to lists.
\<close>

definition bucket_ok :: "int \<Rightarrow> bucket \<Rightarrow> bool" where
  "bucket_ok k b \<longleftrightarrow> bkTimestamp b = k \<and> bkValues b \<noteq> [] \<and> bkCount b = int (length (bkValues b)) \<and>
     bkSum b = sum_values (bkValues b) \<and> bkMin b = min_value (bkValues b) \<and> bkMax b = max_value (bkValues b)"

definition series_ok :: "timeSeries \<Rightarrow> bool" where
  "series_ok ts \<longleftrightarrow> sorted_wrt (<) (times ts) \<and> set (times ts) = fst ` set (buckets ts) \<and> go_ok (buckets ts) \<and>
     (\<forall>(k, b) \<in> set (buckets ts). bucket_ok k b \<and> round_to (res_seconds ts) k = Some k)"

definition values_at :: "timeSeries \<Rightarrow> int \<Rightarrow> float64 list" where
  "values_at ts k = (case map_of (buckets ts) k of None \<Rightarrow> [] | Some b \<Rightarrow> bkValues b)"

section \<open>The sorted times\<close>

text \<open>The insertion into a sorted list, as a reference.\<close>

fun ins :: "int \<Rightarrow> int list \<Rightarrow> int list" where
  "ins k [] = [k]"
| "ins k (x # xs) = (if k < x then k # x # xs else if k = x then x # xs else x # ins k xs)"

lemma set_ins [simp]: "set (ins k xs) = insert k (set xs)"
  by (induction xs) auto

lemma sorted_ins: "sorted_wrt (<) xs \<Longrightarrow> sorted_wrt (<) (ins k xs)"
  by (induction xs) auto

lemma ins_filters: "sorted_wrt (<) xs \<Longrightarrow> k \<notin> set xs \<Longrightarrow> ins k xs = filter (\<lambda>x. x < k) xs @ [k] @ filter (\<lambda>x. k \<le> x) xs"
proof (induction xs)
  case (Cons x xs)
  have "filter (\<lambda>y. y < k) xs = [] \<and> filter (\<lambda>y. k \<le> y) xs = xs" if "k < x"
    using Cons.prems(1) that by (auto simp: filter_empty_conv filter_id_conv)
  with Cons show ?case by auto
qed simp

lemma ins_member: "sorted_wrt (<) xs \<Longrightarrow> k \<in> set xs \<Longrightarrow> ins k xs = xs"
  by (induction xs) auto

lemma insertSorted_ins:
  assumes "sorted_wrt (<) xs"
  shows "insertSorted k xs = ins k xs"
proof -
  have s: "sorted xs" using assms by (simp add: strict_sorted_iff)
  define idx where "idx = go_search (length xs) (\<lambda>i. k \<le> xs ! i)"
  note f = search_sorted [OF s, of k, folded idx_def]
  have hit: "idx < length xs \<and> xs ! idx = k \<longleftrightarrow> k \<in> set xs"
  proof
    assume "k \<in> set xs"
    then have "k \<in> set (filter (\<lambda>x. k \<le> x) xs)" by simp
    then have d: "k \<in> set (drop idx xs)" using f(3) by simp
    then have idx: "idx < length xs" by (metis drop_all empty_iff list.set(1) not_le)
    have "xs ! idx \<in> set (drop idx xs)" using idx by (metis Cons_nth_drop_Suc list.set_intros(1))
    then have "k \<le> xs ! idx" using f(3) by simp
    moreover have "xs ! idx \<le> k"
      using d idx s by (metis Cons_nth_drop_Suc list.set_cases order_refl set_ConsD sorted_simps(2) sorted_wrt_drop)
    ultimately show "idx < length xs \<and> xs ! idx = k" using idx by simp
  qed (metis nth_mem)
  show ?thesis
  proof (cases "k \<in> set xs")
    case True
    then show ?thesis using hit ins_member [OF assms] by (simp add: insertSorted_def Let_def flip: idx_def)
  next
    case False
    then have "insertSorted k xs = take idx xs @ [k] @ drop idx xs"
      using hit by (auto simp: insertSorted_def Let_def simp flip: idx_def)
    also have "\<dots> = ins k xs" using f(2,3) ins_filters [OF assms False] by simp
    finally show ?thesis .
  qed
qed

section \<open>Adding\<close>

lemma bucket_ok_new: "bucket_ok k (update_bucket v (new_bucket k v))"
  by (cases v) (auto simp: bucket_ok_def update_bucket_def new_bucket_def sum_values_def min_value_def max_value_def)

lemma bucket_ok_update: "bucket_ok k b \<Longrightarrow> bucket_ok k (update_bucket v b)"
  by (auto simp: bucket_ok_def update_bucket_def sum_values_def min_value_def max_value_def)

lemma res_seconds_add_at [simp]: "res_seconds (add_at k v ts) = res_seconds ts"
  by (auto simp: add_at_def res_seconds_def split: option.split)

lemma values_add_at:
  "values_at (add_at k v ts) = (values_at ts)(k := values_at ts k @ [v])"
  by (auto simp: add_at_def values_at_def gomap_simps update_bucket_def new_bucket_def fun_eq_iff split: option.splits)

lemma in_update: "(k', b) \<in> set (AList.update k x m) \<Longrightarrow> go_ok m \<Longrightarrow> k' = k \<and> b = x \<or> (k', b) \<in> set m"
  by (metis fun_upd_apply go_ok_def go_ok_update map_of_SomeD map_of_eq_Some_iff map_of_update option.inject)

lemma times_add_at: "series_ok ts \<Longrightarrow> set (times (add_at k v ts)) = insert k (set (times ts))"
  unfolding series_ok_def add_at_def
  by (auto simp: insertSorted_ins split: option.split dest: map_of_SomeD intro: rev_image_eqI)

lemma series_ok_add_at:
  assumes "series_ok ts" and "round_to (res_seconds ts) k = Some k"
  shows "series_ok (add_at k v ts)"
proof -
  note ok = assms(1) [unfolded series_ok_def]
  have "bucket_ok k (update_bucket v b)" if "map_of (buckets ts) k = Some b" for b
    using ok that by (auto dest!: map_of_SomeD intro: bucket_ok_update)
  moreover have "sorted_wrt (<) (times (add_at k v ts))"
    using ok by (auto simp: add_at_def insertSorted_ins sorted_ins split: option.split)
  moreover have "fst ` set (buckets (add_at k v ts)) = insert k (fst ` set (buckets ts))"
    by (auto simp: add_at_def gomap_simps split: option.split)
  moreover have "go_ok (buckets (add_at k v ts))"
    using ok by (auto simp: add_at_def split: option.split)
  moreover have "bucket_ok k' b \<and> round_to (res_seconds ts) k' = Some k'"
    if "(k', b) \<in> set (buckets (add_at k v ts))" for k' b
    using that ok assms(2) calculation(1) bucket_ok_new
    by (auto simp: add_at_def split: option.splits dest!: in_update)
  ultimately show ?thesis
    using times_add_at [OF assms(1), of k v] ok unfolding series_ok_def by auto
qed


fun add_seq :: "(float64 \<times> int) list \<Rightarrow> timeSeries \<Rightarrow> timeSeries option" where
  "add_seq [] ts = Some ts"
| "add_seq ((v, t) # xs) ts = Option.bind (Add v t ts) (add_seq xs)"

text \<open>The values that fall on a time, in the order in which they are added.\<close>

definition falling_on :: "timeSeries \<Rightarrow> int \<Rightarrow> (float64 \<times> int) list \<Rightarrow> float64 list" where
  "falling_on ts k xs = map fst (filter (\<lambda>(v, t). roundTime ts t = Some k) xs)"

lemma roundTime_total: "res_seconds ts \<noteq> 0 \<Longrightarrow> \<exists>k. roundTime ts t = Some k"
  by (simp add: roundTime_def round_to_def)

lemma roundTime_add_at [simp]: "roundTime (add_at k v ts) = roundTime ts"
  by (simp add: roundTime_def fun_eq_iff)

lemma roundTime_fixed: "roundTime ts t = Some k \<Longrightarrow> round_to (res_seconds ts) k = Some k"
  unfolding roundTime_def by (rule round_to_idem)

definition same_series :: "timeSeries \<Rightarrow> timeSeries \<Rightarrow> bool" where
  "same_series ts ts' \<longleftrightarrow> tsName ts' = tsName ts \<and> tsLabels ts' = tsLabels ts \<and> resolution ts' = resolution ts \<and>
     retention ts' = retention ts"

lemma same_series_add_at: "same_series ts (add_at k v ts)"
  by (simp add: same_series_def add_at_def split: option.split)

lemma same_series_round: "same_series ts ts' \<Longrightarrow> roundTime ts' = roundTime ts \<and> res_seconds ts' = res_seconds ts"
  by (simp add: same_series_def roundTime_def res_seconds_def fun_eq_iff)

lemma add_seq_adds:
  assumes "series_ok ts" and "res_seconds ts \<noteq> 0"
  shows "\<exists>ts'. add_seq xs ts = Some ts' \<and> series_ok ts' \<and> same_series ts ts' \<and>
    (\<forall>k. values_at ts' k = values_at ts k @ falling_on ts k xs) \<and>
    set (times ts') = set (times ts) \<union> {k. falling_on ts k xs \<noteq> []}"
  using assms
proof (induction xs arbitrary: ts)
  case (Cons x xs)
  obtain v t where x: "x = (v, t)" by fastforce
  obtain k where k: "roundTime ts t = Some k" using roundTime_total [OF Cons.prems(2)] by blast
  let ?ts = "add_at k v ts"
  have "series_ok ?ts" "res_seconds ?ts \<noteq> 0"
    using series_ok_add_at [OF Cons.prems(1) roundTime_fixed [OF k]] Cons.prems(2) by simp_all
  from Cons.IH [OF this] obtain ts' where ts': "add_seq xs ?ts = Some ts'" "series_ok ts'" "same_series ?ts ts'"
    "\<forall>k'. values_at ts' k' = values_at ?ts k' @ falling_on ?ts k' xs"
    "set (times ts') = set (times ?ts) \<union> {k'. falling_on ?ts k' xs \<noteq> []}" by blast
  have f: "falling_on ?ts k' xs = falling_on ts k' xs" for k' by (simp add: falling_on_def)
  have "same_series ts ts'"
    using ts'(3) same_series_add_at [of ts k v] by (simp add: same_series_def)
  moreover have "values_at ts' k' = values_at ts k' @ falling_on ts k' (x # xs)" for k'
    using ts'(4) k by (simp add: f values_add_at x) (simp add: falling_on_def)
  moreover have "set (times ts') = set (times ts) \<union> {k'. falling_on ts k' (x # xs) \<noteq> []}"
    unfolding ts'(5) f times_add_at [OF Cons.prems(1)] using k by (auto simp: falling_on_def x)
  ultimately show ?case using ts'(1,2) k by (auto simp: x Add_def)
qed (simp add: falling_on_def same_series_def)

lemma series_ok_new: "series_ok (NewTimeSeries n ls res ret)" "values_at (NewTimeSeries n ls res ret) k = []"
    "times (NewTimeSeries n ls res ret) = []"
  by (simp_all add: series_ok_def NewTimeSeries_def values_at_def)

section \<open>Percentiles stay in range\<close>

lemma percentile_in_range:
  assumes "0 \<le> p" and "p \<le> 1" and "int (length xs) \<le> 2 ^ 53"
  shows "percentile xs (Fin p) \<noteq> None"
proof (cases "xs = []")
  case False
  define n where "n = int (length xs) - 1"
  have n: "0 \<le> n" "\<bar>n\<bar> \<le> 2 ^ 53" "n < int (length xs)"
    using False assms(3) by (cases xs; simp add: n_def)+
  have "0 \<le> (of_int n :: rat)" using n(1) by simp
  with assms(1,2) have "0 \<le> p * of_int n" "p * of_int n \<le> of_int n"
    by (simp, simp add: mult_left_le_one_le)
  then obtain r where r: "round64 (p * of_int n) = Fin r" "0 \<le> r" "r \<le> of_int n"
    using round64_to_int_le [of "p * of_int n" n] n by auto
  have i: "fmul (Fin p) (f_of_int n) = Fin r" using f_of_int_exact [OF n(2)] r(1) by simp
  have "0 \<le> trunc r" "trunc r \<le> n" using trunc_bounds [OF r(2,3)] by auto
  then show ?thesis using n assms(3) by (simp add: percentile_def i Let_def flip: n_def)
qed (simp add: percentile_def)

lemma percentiles:
  "\<exists>p. p50 = Fin p \<and> 0 \<le> p \<and> p \<le> 1" "\<exists>p. p90 = Fin p \<and> 0 \<le> p \<and> p \<le> 1"
  "\<exists>p. p95 = Fin p \<and> 0 \<le> p \<and> p \<le> 1" "\<exists>p. p99 = Fin p \<and> 0 \<le> p \<and> p \<le> 1"
  using round64_to_int_le [of "9/10" 1] round64_to_int_le [of "95/100" 1] round64_to_int_le [of "99/100" 1]
  by (simp_all add: p90_def p95_def p99_def) (rule exI [of _ "1/2"], simp add: p50_def)

lemma percentile_some:
  assumes "int (length xs) \<le> 2 ^ 53" and "p \<in> {p50, p90, p95, p99}"
  shows "\<exists>x. percentile xs p = Some x"
proof -
  obtain r where "p = Fin r" "0 \<le> r" "r \<le> 1" using assms(2) percentiles by auto
  then show ?thesis using percentile_in_range [OF _ _ assms(1), of r] by auto
qed

section \<open>Querying\<close>

text \<open>The running figures are the minimum and maximum, of values without NaN.\<close>

lemma min_value_Min:
  assumes "vs \<noteq> []" and "NaN \<notin> set vs"
  shows "min_value vs = Min (set vs)"
proof -
  have step: "fold (\<lambda>v m. if flt v m then v else m) us m = Min (insert m (set us))"
    if "NaN \<notin> set us" "m \<noteq> NaN" for us m
    using that
  proof (induction us arbitrary: m)
    case (Cons u us)
    have "(if flt u m then u else m) = min u m" using Cons.prems flt_less [of u m] by (auto simp: min_def)
    moreover have "Min (insert (min u m) (set us)) = Min (insert m (insert u (set us)))"
      by (cases "set us = {}") (simp_all add: min.assoc min.commute min.left_commute)
    moreover have "min u m \<noteq> NaN" using Cons.prems by (auto simp: min_def)
    ultimately show ?case using Cons.IH [of "min u m"] Cons.prems(1) by simp
  qed simp
  have h: "hd vs \<in> set vs" using assms(1) by simp
  then have "hd vs \<noteq> NaN" using assms(2) by metis
  then show ?thesis using step [of vs "hd vs"] assms h by (auto simp: min_value_def insert_absorb)
qed

lemma max_value_Max:
  assumes "vs \<noteq> []" and "NaN \<notin> set vs"
  shows "max_value vs = Max (set vs)"
proof -
  have step: "fold (\<lambda>v m. if flt m v then v else m) us m = Max (insert m (set us))"
    if "NaN \<notin> set us" "m \<noteq> NaN" for us m
    using that
  proof (induction us arbitrary: m)
    case (Cons u us)
    have "(if flt m u then u else m) = max u m" using Cons.prems flt_less [of m u] by (auto simp: max_def)
    moreover have "Max (insert (max u m) (set us)) = Max (insert m (insert u (set us)))"
      by (cases "set us = {}") (simp_all add: max.assoc max.commute max.left_commute)
    moreover have "max u m \<noteq> NaN" using Cons.prems by (auto simp: max_def)
    ultimately show ?case using Cons.IH [of "max u m"] Cons.prems(1) by simp
  qed simp
  have h: "hd vs \<in> set vs" using assms(1) by simp
  then have "hd vs \<noteq> NaN" using assms(2) by metis
  then show ?thesis using step [of vs "hd vs"] assms h by (auto simp: max_value_def insert_absorb)
qed


text \<open>What a point of a query says about the values of its time.\<close>

definition point_shows :: "timeSeriesPoint \<Rightarrow> float64 list \<Rightarrow> bool" where
  "point_shows pt vs \<longleftrightarrow>
     ptCount pt = int (length vs) \<and> ptSum pt = sum_values vs \<and>
     ptAvg pt = fdiv (sum_values vs) (f_of_int (int (length vs))) \<and>
     (NaN \<notin> set vs \<longrightarrow> ptMin pt = Min (set vs) \<and> ptMax pt = Max (set vs)) \<and>
     percentile (sort vs) p50 = Some (P50 pt) \<and> percentile (sort vs) p90 = Some (P90 pt) \<and>
     percentile (sort vs) p95 = Some (P95 pt) \<and> percentile (sort vs) p99 = Some (P99 pt)"

lemma bucket_point_shows:
  assumes "bucket_ok k b" and "length (bkValues b) \<le> 2 ^ 53"
  shows "\<exists>pt. bucket_point b = Some pt \<and> ptTimestamp pt = k \<and> point_shows pt (bkValues b)"
proof -
  have "int (length (sort (bkValues b))) \<le> 2 ^ 53" using assms(2) by simp
  note ps = percentile_some [OF this]
  obtain a c d e where "percentile (sort (bkValues b)) p50 = Some a" "percentile (sort (bkValues b)) p90 = Some c"
    "percentile (sort (bkValues b)) p95 = Some d" "percentile (sort (bkValues b)) p99 = Some e"
    using ps [of p50] ps [of p90] ps [of p95] ps [of p99] by auto
  then show ?thesis using assms(1) min_value_Min [of "bkValues b"] max_value_Max [of "bkValues b"]
    by (auto simp: bucket_point_def bucket_ok_def point_shows_def Let_def)
qed

lemma collect_points_all:
  assumes "sorted_wrt (<) ks" and "\<And>k. k \<in> set ks \<Longrightarrow> \<exists>b pt. map_of bs k = Some b \<and> bucket_point b = Some pt \<and> ptTimestamp pt = k"
  shows "collect_points bs e ks = Some (map (\<lambda>k. the (bucket_point (the (map_of bs k)))) (filter (\<lambda>k. k \<le> e) ks)) \<and>
    map (\<lambda>k. ptTimestamp (the (bucket_point (the (map_of bs k))))) (filter (\<lambda>k. k \<le> e) ks) = filter (\<lambda>k. k \<le> e) ks"
  using assms
proof (induction ks)
  case (Cons k ks)
  obtain b pt where b: "map_of bs k = Some b" "bucket_point b = Some pt" "ptTimestamp pt = k"
    using Cons.prems(2) [of k] by auto
  have "filter (\<lambda>k. k \<le> e) ks = []" if "e < k"
    using Cons.prems(1) that by (auto simp: filter_empty_conv)
  with Cons b show ?case by auto
qed simp

lemma bucket_at:
  assumes "series_ok ts" and "k \<in> set (times ts)"
  shows "\<exists>b. map_of (buckets ts) k = Some b \<and> bucket_ok k b \<and> values_at ts k = bkValues b"
proof -
  obtain b where "(k, b) \<in> set (buckets ts)" using assms by (auto simp: series_ok_def)
  then show ?thesis using assms(1) by (auto simp: series_ok_def go_ok_def values_at_def intro!: exI [of _ b])
qed

lemma Query_points:
  assumes "series_ok ts" and "roundTime ts a = Some lo" and "roundTime ts z = Some hi"
    and "\<And>k. length (values_at ts k) \<le> 2 ^ 53"
  shows "\<exists>r. Query ts a z = Some r \<and>
    map ptTimestamp (Points r) = filter (\<lambda>k. lo \<le> k \<and> k \<le> hi) (times ts) \<and>
    (\<forall>pt \<in> set (Points r). point_shows pt (values_at ts (ptTimestamp pt)))"
proof -
  have s: "sorted_wrt (<) (times ts)" and s': "sorted (times ts)"
    using assms(1) by (auto simp: series_ok_def strict_sorted_iff)
  let ?ks = "filter (\<lambda>k. lo \<le> k) (times ts)"
  have pts: "\<exists>b pt. map_of (buckets ts) k = Some b \<and> bucket_point b = Some pt \<and> ptTimestamp pt = k \<and>
      point_shows pt (values_at ts k)" if "k \<in> set (times ts)" for k
    using bucket_at [OF assms(1) that] bucket_point_shows assms(4) [of k] by metis
  then have c: "collect_points (buckets ts) hi ?ks =
      Some (map (\<lambda>k. the (bucket_point (the (map_of (buckets ts) k)))) (filter (\<lambda>k. k \<le> hi) ?ks))"
    and m: "map (\<lambda>k. ptTimestamp (the (bucket_point (the (map_of (buckets ts) k))))) (filter (\<lambda>k. k \<le> hi) ?ks) =
      filter (\<lambda>k. k \<le> hi) ?ks"
    using collect_points_all [of ?ks "buckets ts" hi] sorted_wrt_filter [OF s] by (fastforce, fastforce)
  have "filter (\<lambda>k. k \<le> hi) ?ks = filter (\<lambda>k. lo \<le> k \<and> k \<le> hi) (times ts)"
    by (simp add: conj_commute)
  moreover have "\<exists>r. Query ts a z = Some r \<and>
      Points r = map (\<lambda>k. the (bucket_point (the (map_of (buckets ts) k)))) (filter (\<lambda>k. k \<le> hi) ?ks)"
    using assms(2,3) c by (simp add: Query_def search_sorted(3) [OF s'])
  ultimately show ?thesis using m pts by (fastforce simp: comp_def)
qed

text \<open>C37. A query answers what was added: after any values are added to a new series, at any instants and in
  any order, a query gives one point for each bucket time in its range that a value falls on, in
  ascending order, and no other; the point counts exactly the values that fall on it, and shows their
  sum, average, minimum, maximum and percentiles. Neither adding nor querying panics.\<close>

theorem query_answers_what_was_added:
  assumes "roundTime (NewTimeSeries n ls res ret) a = Some lo" and "roundTime (NewTimeSeries n ls res ret) z = Some hi"
    and "length xs \<le> 2 ^ 53"
  shows "\<exists>ts r. add_seq xs (NewTimeSeries n ls res ret) = Some ts \<and> Query ts a z = Some r \<and>
    sorted_wrt (<) (map ptTimestamp (Points r)) \<and>
    ptTimestamp ` set (Points r) = {k. falling_on (NewTimeSeries n ls res ret) k xs \<noteq> [] \<and> lo \<le> k \<and> k \<le> hi} \<and>
    (\<forall>pt \<in> set (Points r). point_shows pt (falling_on (NewTimeSeries n ls res ret) (ptTimestamp pt) xs))"
proof -
  let ?ts = "NewTimeSeries n ls res ret"
  have nz: "res_seconds ?ts \<noteq> 0" using assms(1) by (auto simp: roundTime_def round_to_def)
  obtain ts where ts: "add_seq xs ?ts = Some ts" "series_ok ts" "same_series ?ts ts"
    "\<forall>k. values_at ts k = falling_on ?ts k xs" "set (times ts) = {k. falling_on ?ts k xs \<noteq> []}"
    using add_seq_adds [OF series_ok_new(1) nz, of xs] by (auto simp: series_ok_new)
  have len: "length (falling_on ?ts k xs) \<le> 2 ^ 53" for k
    unfolding falling_on_def length_map by (rule order.trans [OF length_filter_le assms(3)])
  have q: "roundTime ts a = Some lo" "roundTime ts z = Some hi"
    using same_series_round [OF ts(3)] assms(1,2) by simp_all
  obtain r where r: "Query ts a z = Some r" "map ptTimestamp (Points r) = filter (\<lambda>k. lo \<le> k \<and> k \<le> hi) (times ts)"
    "\<forall>pt \<in> set (Points r). point_shows pt (values_at ts (ptTimestamp pt))"
    using Query_points [OF ts(2) q] ts(4) len by auto
  have "ptTimestamp ` set (Points r) = {k. falling_on ?ts k xs \<noteq> [] \<and> lo \<le> k \<and> k \<le> hi}"
    using arg_cong [OF r(2), of set] ts(5) by auto
  moreover have "sorted_wrt (<) (map ptTimestamp (Points r))"
    unfolding r(2) using ts(2) by (simp add: series_ok_def sorted_wrt_filter)
  ultimately show ?thesis using ts(1,4) r(1,3) by auto
qed


lemma round_whole:
  "res = s * 10 ^ 9 \<Longrightarrow> 0 < s \<Longrightarrow> s \<le> 2 ^ 53 \<Longrightarrow>
     roundTime (NewTimeSeries n ls res ret) t = round_to s (unix_sec t)"
  using dur_seconds_whole(2) [of s] by (simp add: roundTime_def res_seconds_def NewTimeSeries_def)

theorem query_answers_what_was_added_witness:
  "\<exists>ts r. add_seq [(Fin 2, 65 * 10 ^ 9), (Fin 3, 7 * 10 ^ 9)] (NewTimeSeries ''m'' [] (60 * 10 ^ 9) 0) = Some ts \<and>
    Query ts 0 (70 * 10 ^ 9) = Some r \<and> sorted_wrt (<) (map ptTimestamp (Points r)) \<and>
    ptTimestamp ` set (Points r) =
      {k. falling_on (NewTimeSeries ''m'' [] (60 * 10 ^ 9) 0) k [(Fin 2, 65 * 10 ^ 9), (Fin 3, 7 * 10 ^ 9)] \<noteq> [] \<and>
        0 \<le> k \<and> k \<le> 60} \<and>
    (\<forall>pt \<in> set (Points r). point_shows pt (falling_on (NewTimeSeries ''m'' [] (60 * 10 ^ 9) 0) (ptTimestamp pt)
      [(Fin 2, 65 * 10 ^ 9), (Fin 3, 7 * 10 ^ 9)]))"
  by (rule query_answers_what_was_added)
    (simp_all add: round_whole [where s = 60] unix_sec_def round_to_def div_trunc_def)


section \<open>Clean-up\<close>

text \<open>C39. Clean-up drops exactly the buckets that are older than the retention, wherever they are, and leaves
  all the others and their values as they are; the map and the sorted times stay in step.\<close>

theorem cleanup_keeps_recent:
  assumes "series_ok ts"
  shows "series_ok (cleanup now ts) \<and>
    times (cleanup now ts) = filter (\<lambda>k. unix_sec (now - retention ts) \<le> k) (times ts) \<and>
    (\<forall>k. values_at (cleanup now ts) k = (if unix_sec (now - retention ts) \<le> k then values_at ts k else []))"
proof -
  let ?c = "unix_sec (now - retention ts)"
  note ok = assms [unfolded series_ok_def]
  have s': "sorted (times ts)" using ok by (simp add: strict_sorted_iff)
  note f = search_sorted(2,3) [OF s', of ?c]
  have t: "times (cleanup now ts) = filter (\<lambda>k. ?c \<le> k) (times ts)" by (simp add: cleanup_def Let_def f)
  have m: "map_of (buckets (cleanup now ts)) k = (if k \<in> set (times ts) \<and> k < ?c then None else map_of (buckets ts) k)" for k
    by (simp add: cleanup_def Let_def f delete_all)
  have none: "map_of (buckets ts) k = None" if "k \<notin> set (times ts)" for k
    using ok that keys_map_of [of k "buckets ts"] by auto
  have g: "go_ok (buckets (cleanup now ts))" using ok by (simp add: cleanup_def Let_def delete_all)
  have r: "res_seconds (cleanup now ts) = res_seconds ts" by (simp add: cleanup_def res_seconds_def Let_def)
  have "set (times (cleanup now ts)) = fst ` set (buckets (cleanup now ts))"
  proof (rule set_eqI)
    fix k
    show "k \<in> set (times (cleanup now ts)) \<longleftrightarrow> k \<in> fst ` set (buckets (cleanup now ts))"
    proof -
      have "k \<in> set (times ts) \<longleftrightarrow> map_of (buckets ts) k \<noteq> None" using ok keys_map_of [of k "buckets ts"] by simp
      then show ?thesis unfolding t keys_map_of m by (auto simp: not_le)
    qed
  qed
  moreover have "bucket_ok k b \<and> round_to (res_seconds ts) k = Some k" if "(k, b) \<in> set (buckets (cleanup now ts))" for k b
    using that ok by (auto simp: entry_map_of [OF g] m entry_map_of [symmetric] split: if_splits)
  ultimately have "series_ok (cleanup now ts)"
    using ok g unfolding series_ok_def r by (auto simp: t sorted_wrt_filter)
  moreover have "values_at (cleanup now ts) k = (if ?c \<le> k then values_at ts k else [])" for k
    using none [of k] by (auto simp: values_at_def m)
  ultimately show ?thesis using t by simp
qed

section \<open>Downsampling\<close>

lemma show_nat_no_minus: "CHR ''-'' \<notin> set (show_nat n)"
proof (induction n rule: show_nat.induct)
  case (1 n)
  have d: "CHR ''-'' \<noteq> digits ! (n mod 10)" using digit_not_minus [of "n mod 10"] by fastforce
  show ?case
    by (cases "n < 10") (use 1 d in \<open>simp_all add: show_nat.simps [of n]\<close>)
qed

lemma show_int_inject: "show_int i = show_int j \<longleftrightarrow> i = j"
proof -
  have "CHR ''-'' # s \<noteq> show_nat n" "show_nat n \<noteq> CHR ''-'' # s" for s n
    using show_nat_no_minus [of n] by (metis list.set_intros(1))+
  then show ?thesis by (auto simp: show_int_def show_nat_inject)
qed

lemma range_int_same:
  assumes "go_ok m"
  shows "go_ok (range_int ro t m)" "map_of (range_int ro t m) = map_of m"
proof -
  let ?f = "\<lambda>(k, v). (show_int k, (k, v))"
  have "inj_on fst (set m)" and d: "distinct m" using assms by (auto simp: go_ok_def distinct_map)
  then have "go_ok (map ?f m)"
    by (auto simp: go_ok_def distinct_map inj_on_def show_int_inject case_prod_unfold comp_def)
  from mset_range_map [OF this, of ro t] have "mset (range_int ro t m) = image_mset snd (mset (map ?f m))"
    unfolding range_int_def mset_map [symmetric, of snd] by (simp only: mset_map)
  also have "\<dots> = mset (map snd (map ?f m))" by (simp only: mset_map)
  also have "map snd (map ?f m) = m" by (simp add: case_prod_unfold comp_def)
  finally have e: "mset (range_int ro t m) = mset m" .
  then show g: "go_ok (range_int ro t m)"
    using assms unfolding go_ok_def by (metis mset_eq_imp_distinct_iff mset_map)
  show "map_of (range_int ro t m) = map_of m"
    using assms g mset_eq_setD [OF e] unfolding go_ok_def by (simp add: map_of_inject_set)
qed

text \<open>The groups are the buckets that fall on each window, in their order.\<close>

definition in_window :: "int \<Rightarrow> int \<Rightarrow> bucket list \<Rightarrow> bucket list" where
  "in_window s k bs = filter (\<lambda>b. round_to s (bkTimestamp b) = Some k) bs"

lemma group_buckets_groups:
  assumes "s \<noteq> 0" and "go_ok g"
  shows "\<exists>g'. group_buckets s bs g = Some g' \<and> go_ok g' \<and>
    (\<forall>k. mget [] g' k = mget [] g k @ in_window s k bs) \<and>
    fst ` set g' = fst ` set g \<union> {k. in_window s k bs \<noteq> []}"
  using assms(2)
proof (induction bs arbitrary: g)
  case (Cons b bs)
  obtain k where k: "round_to s (bkTimestamp b) = Some k" using assms(1) by (simp add: round_to_def)
  let ?g = "AList.update k (mget [] g k @ [b]) g"
  have "go_ok ?g" using Cons.prems by simp
  from Cons.IH [OF this] obtain g' where g': "group_buckets s bs ?g = Some g'" "go_ok g'"
    "\<forall>k'. mget [] g' k' = mget [] ?g k' @ in_window s k' bs" "fst ` set g' = fst ` set ?g \<union> {k'. in_window s k' bs \<noteq> []}"
    by blast
  have "mget [] g' k' = mget [] g k' @ in_window s k' (b # bs)" for k'
    using g'(3) k by (simp add: in_window_def) (simp add: mget_def gomap_simps)
  moreover have "fst ` set g' = fst ` set g \<union> {k'. in_window s k' (b # bs) \<noteq> []}"
    unfolding g'(4) using k by (auto simp: in_window_def gomap_simps)
  ultimately show ?case using g'(1,2) k by simp
qed (simp add: in_window_def)

lemma add_all_seq: "add_all t vs = add_seq (map (\<lambda>v. (v, t)) vs)"
proof (induction vs)
  case (Cons v vs)
  show ?case by (rule ext) (simp add: Cons)
qed (simp add: fun_eq_iff)

lemma falling_on_all: "roundTime ts t = Some k' \<Longrightarrow> falling_on ts k (map (\<lambda>v. (v, t)) vs) = (if k' = k then vs else [])"
  by (simp add: falling_on_def filter_map comp_def)

lemma add_groups_adds:
  assumes "series_ok ts" and "go_ok gs" and "\<And>k. k \<in> fst ` set gs \<Longrightarrow> round_to (res_seconds ts) k = Some k"
  shows "\<exists>ts'. add_groups gs ts = Some ts' \<and> series_ok ts' \<and>
    (\<forall>k. values_at ts' k = values_at ts k @ all_values (mget [] gs k))"
  using assms
proof (induction gs arbitrary: ts)
  case (Cons g gs)
  obtain k bs where g: "g = (k, bs)" by fastforce
  have k: "roundTime ts (k * 10 ^ 9) = Some k" using Cons.prems(3) [of k] by (simp add: g roundTime_def unix_sec_def)
  then have nz: "res_seconds ts \<noteq> 0" by (auto simp: roundTime_def round_to_def)
  obtain ts1 where ts1: "add_all (k * 10 ^ 9) (all_values bs) ts = Some ts1" "series_ok ts1" "same_series ts ts1"
    "\<forall>k'. values_at ts1 k' = values_at ts k' @ (if k = k' then all_values bs else [])"
    using add_seq_adds [OF Cons.prems(1) nz, of "map (\<lambda>v. (v, k * 10 ^ 9)) (all_values bs)"]
    unfolding add_all_seq falling_on_all [OF k] by blast
  have "\<exists>ts'. add_groups gs ts1 = Some ts' \<and> series_ok ts' \<and>
      (\<forall>k. values_at ts' k = values_at ts1 k @ all_values (mget [] gs k))"
    by (rule Cons.IH) (use Cons.prems ts1 same_series_round [OF ts1(3)] in \<open>auto simp: go_ok_def\<close>)
  then obtain ts' where "add_groups gs ts1 = Some ts'" "series_ok ts'"
    "\<forall>k. values_at ts' k = values_at ts1 k @ all_values (mget [] gs k)" by blast
  moreover have "map_of gs k = None" using Cons.prems(2) by (simp add: go_ok_def g map_of_eq_None_iff)
  ultimately show ?case using ts1 by (auto simp: g mget_def all_values_def)
qed (simp add: mget_def all_values_def)

lemma live_buckets_times:
  assumes "series_ok ts"
  shows "live_buckets ts = map (\<lambda>k. the (map_of (buckets ts) k)) (times ts)"
proof -
  have "\<forall>k \<in> set ks. map_of (buckets ts) k \<noteq> None \<Longrightarrow>
      List.map_filter (map_of (buckets ts)) ks = map (\<lambda>k. the (map_of (buckets ts) k)) ks" for ks
    by (induction ks) (auto simp: map_filter_simps)
  moreover have "\<forall>k \<in> set (times ts). map_of (buckets ts) k \<noteq> None" using bucket_at [OF assms] by auto
  ultimately show ?thesis unfolding live_buckets_def by simp
qed


lemma values_in_window:
  assumes "series_ok ts"
  shows "all_values (in_window s k (live_buckets ts)) =
    concat (map (values_at ts) (filter (\<lambda>k'. round_to s k' = Some k) (times ts)))"
proof -
  have "all_values (in_window s k (map (\<lambda>k. the (map_of (buckets ts) k)) ks)) =
      concat (map (values_at ts) (filter (\<lambda>k'. round_to s k' = Some k) ks))" if "set ks \<subseteq> set (times ts)" for ks
    using that
  proof (induction ks)
    case (Cons k' ks)
    then obtain b where "map_of (buckets ts) k' = Some b" "bkTimestamp b = k'" "values_at ts k' = bkValues b"
      using bucket_at [OF assms, of k'] by (auto simp: bucket_ok_def)
    with Cons show ?case by (simp add: in_window_def all_values_def)
  qed (simp add: in_window_def all_values_def)
  then show ?thesis using live_buckets_times [OF assms] by simp
qed

lemma window_nonempty: "in_window s k bs \<noteq> [] \<Longrightarrow> round_to s k = Some k"
  by (auto simp: in_window_def filter_empty_conv intro: round_to_idem)

text \<open>C38. Downsampling loses nothing: at every time of the coarser series stand the values of all the finer
  buckets that fall on it, in ascending order of their times, whatever order the groups are visited
  in. It panics for no resolution of a second or more.\<close>

theorem downsampling_keeps_all_values:
  assumes "series_ok ts" and "resolution ts < res" and "f_to_int (dur_seconds res) \<noteq> 0"
  shows "\<exists>ts'. Downsample ro ts res = Some (Some ts') \<and> series_ok ts' \<and>
    (\<forall>k. values_at ts' k =
      concat (map (values_at ts) (filter (\<lambda>k'. round_to (f_to_int (dur_seconds res)) k' = Some k) (times ts))))"
proof -
  let ?s = "f_to_int (dur_seconds res)"
  let ?new = "NewTimeSeries (tsName ts @ ''_downsampled'') (tsLabels ts) res (retention ts)"
  have "dur_seconds 0 = Fin 0" "trunc 0 = 0"
    using dur_seconds_whole(1) [of 0] by (simp_all add: trunc_def)
  then have "res \<noteq> 0" using assms(3) by (auto simp: Let_def)
  then have s: "res_seconds ?new = ?s" by (simp add: res_seconds_def NewTimeSeries_def)
  obtain g where g: "group_buckets ?s (live_buckets ts) [] = Some g" "go_ok g"
    "\<forall>k. mget [] g k = in_window ?s k (live_buckets ts)" "fst ` set g = {k. in_window ?s k (live_buckets ts) \<noteq> []}"
    using group_buckets_groups [OF assms(3), of "[]" "live_buckets ts"] by (auto simp: mget_def)
  let ?L = "range_int ro ''groups'' g"
  note L = range_int_same [OF g(2), of ro "''groups''"]
  have "fst ` set ?L = fst ` set g" by (rule set_eqI) (simp only: keys_map_of L(2))
  then have k: "round_to (res_seconds ?new) k = Some k" if "k \<in> fst ` set ?L" for k
    using that g(4) window_nonempty s by auto
  obtain ts' where ts': "add_groups ?L ?new = Some ts'" "series_ok ts'"
    "\<forall>k. values_at ts' k = all_values (mget [] ?L k)"
    using add_groups_adds [OF series_ok_new(1) L(1) k] by (auto simp: series_ok_new)
  have "mget [] ?L = mget [] g" by (simp add: mget_def L(2) fun_eq_iff)
  with ts' g assms(2) show ?thesis
    by (auto simp: Downsample_def values_in_window [OF assms(1)])
qed

text \<open>Inserting into the sorted times by binary search is inserting into a sorted list: the key is put
  before the first larger one, and nothing happens when it is there.\<close>

theorem insertSorted_is_ordered_insertion:
  assumes "sorted_wrt (<) xs"
  shows "insertSorted k xs = ins k xs"
  by (rule insertSorted_ins [OF assms])

theorem insertSorted_is_ordered_insertion_witness: "insertSorted 4 [1, 3, 7] = [1, 3, 4, 7]"
  by (subst insertSorted_is_ordered_insertion) simp_all

text \<open>A percentile never reads outside the slice: for any proportion between 0 and 1 the rounded position
  lies within it, up to \<open>2 ^ 53\<close> values.\<close>

theorem percentile_reads_in_range:
  assumes "0 \<le> p" and "p \<le> 1" and "int (length xs) \<le> 2 ^ 53"
  shows "percentile xs (Fin p) \<noteq> None"
  by (rule percentile_in_range [OF assms])

theorem percentile_reads_in_range_witness: "percentile [Fin 1, Fin 5] (Fin (1/3)) \<noteq> None"
  by (rule percentile_reads_in_range) simp_all

section \<open>The statistics of a range\<close>

lemma stats_min_zero: "\<forall>pt \<in> set pts. ptMin pt = Fin 0 \<Longrightarrow> stMin st = Fin 0 \<Longrightarrow> stMin (fold stats_step pts st) = Fin 0"
  by (induction pts arbitrary: st) (simp_all add: stats_step_def)

lemma stats_max_neg: "\<forall>pt \<in> set pts. flt (ptMax pt) (Fin 0) \<Longrightarrow> stMax st = Fin 0 \<Longrightarrow> stMax (fold stats_step pts st) = Fin 0"
proof (induction pts arbitrary: st)
  case (Cons pt pts)
  have "\<not> flt (Fin 0) (ptMax pt)" using Cons.prems(1) by (cases "ptMax pt") auto
  with Cons show ?case by (simp add: stats_step_def)
qed simp

text \<open>The statistics of a range misreport its extremes: a minimum of zero is taken for not yet set, so
  after points of minimum zero the next point's minimum is reported; and where all values are
  negative, the maximum is reported as zero.\<close>

theorem statistics_forget_zero:
  "((\<forall>pt \<in> set pts. ptMin pt = Fin 0) \<longrightarrow> stMin (calculateStats (pts @ [q])) = ptMin q) \<and>
   ((\<forall>pt \<in> set pts. flt (ptMax pt) (Fin 0)) \<longrightarrow> stMax (calculateStats pts) = Fin 0)"
  using stats_min_zero [of pts zero_stats] stats_max_neg [of pts zero_stats]
  by (auto simp: calculateStats_def stats_step_def feq_def zero_stats_def Let_def)

theorem statistics_forget_zero_witness:
  "stMin (calculateStats [zero_point, zero_point\<lparr>ptMin := Fin 5\<rparr>]) = Fin 5"
  using statistics_forget_zero [of "[zero_point]" "zero_point\<lparr>ptMin := Fin 5\<rparr>"] by (simp add: zero_point_def)

section \<open>An example\<close>

definition demo_series :: timeSeries where
  "demo_series = add_at 60 (Fin 3) (add_at 0 (Fin 2) (NewTimeSeries ''m'' [] (60 * 10 ^ 9) 0))"

lemma demo_series_facts:
  "series_ok demo_series" "resolution demo_series = 60 * 10 ^ 9" "retention demo_series = 86400 * 10 ^ 9"
  "set (times demo_series) = {0, 60}" "values_at demo_series 60 = [Fin 3]"
proof -
  let ?new = "NewTimeSeries ''m'' [] (60 * 10 ^ 9) 0"
  have s: "res_seconds ?new = 60"
    using dur_seconds_whole(2) [of 60] by (simp add: res_seconds_def NewTimeSeries_def)
  have 0: "series_ok (add_at 0 (Fin 2) ?new)"
    by (rule series_ok_add_at) (simp_all add: series_ok_new s [simplified] round_to_def div_trunc_def)
  show "series_ok demo_series" unfolding demo_series_def
    by (rule series_ok_add_at [OF 0]) (simp add: s [simplified] round_to_def div_trunc_def)
  show "set (times demo_series) = {0, 60}" unfolding demo_series_def
    by (subst times_add_at [OF 0], subst times_add_at) (auto simp: series_ok_new)
  have "same_series ?new demo_series"
    using same_series_add_at [of ?new 0 "Fin 2"] same_series_add_at [of "add_at 0 (Fin 2) ?new" 60 "Fin 3"]
    by (simp add: same_series_def demo_series_def)
  then show "resolution demo_series = 60 * 10 ^ 9" "retention demo_series = 86400 * 10 ^ 9"
    by (simp_all add: same_series_def NewTimeSeries_def hour_def)
  show "values_at demo_series 60 = [Fin 3]" by (simp add: demo_series_def values_add_at series_ok_new)
qed

theorem cleanup_keeps_recent_witness:
  "set (times (cleanup (86430 * 10 ^ 9) demo_series)) = {60}"
proof -
  have "times (cleanup (86430 * 10 ^ 9) demo_series) = filter (\<lambda>k. 30 \<le> k) (times demo_series)"
    using cleanup_keeps_recent [OF demo_series_facts(1), of "86430 * 10 ^ 9"]
    by (simp add: demo_series_facts(3) [simplified] unix_sec_def)
  then show ?thesis using demo_series_facts(4) by auto
qed

theorem downsampling_keeps_all_values_witness:
  "\<exists>ts'. Downsample in_order demo_series (3600 * 10 ^ 9) = Some (Some ts') \<and> series_ok ts'"
proof -
  have "f_to_int (dur_seconds (3600 * 10 ^ 9)) = 3600" using dur_seconds_whole(2) [of 3600] by simp
  then show ?thesis
    using downsampling_keeps_all_values [OF demo_series_facts(1), of "3600 * 10 ^ 9" in_order]
    by (auto simp: demo_series_facts(2) [simplified])
qed

section \<open>The number of series\<close>

lemma oldest_step_None: "oldest_step x best = None \<longleftrightarrow> best = None \<and> times (snd x) = []"
  by (simp add: oldest_step_def split: option.split)

lemma oldest_step_Some: "oldest_step x best = Some (k, t) \<Longrightarrow> best = Some (k, t) \<or> k = fst x"
  by (simp add: oldest_step_def split: option.splits if_splits prod.splits)

lemma no_oldest: "fold oldest_step L best = None \<longleftrightarrow> best = None \<and> (\<forall>x \<in> set L. times (snd x) = [])"
  by (induction L arbitrary: best) (auto simp: oldest_step_None)

lemma oldest_found: "fold oldest_step L best = Some (k, t) \<Longrightarrow> best = Some (k, t) \<or> k \<in> fst ` set L"
proof (induction L arbitrary: best)
  case (Cons x L)
  then show ?case using Cons.IH [of "oldest_step x best"] oldest_step_Some [of x best k t] by auto
qed simp

text \<open>The bound on the number of series holds only while the series have data: creating one in a full table
  evicts exactly one other when any has a value, and none when all are empty, so that series created and
  not yet filled grow the table without limit.\<close>

theorem series_table_size:
  assumes "go_ok (series tsm)" and "'''' \<notin> fst ` set (series tsm)"
    and "series_key ro name ls \<notin> fst ` set (series tsm)"
  shows "length (series (fst (GetOrCreate ro name ls tsm))) =
    (if MaxSeries tsm \<le> int (length (series tsm)) \<and> (\<exists>x \<in> set (series tsm). times (snd x) \<noteq> [])
     then length (series tsm) else length (series tsm) + 1)"
proof -
  let ?m = "series tsm" and ?k = "series_key ro name ls"
  let ?L = "range_map ro ''series'' ?m"
  have L: "set ?L = set ?m" using set_range_map [OF assms(1)] .
  have e: "go_ok (evict_oldest ro ?m) \<and> ?k \<notin> fst ` set (evict_oldest ro ?m) \<and>
    length (evict_oldest ro ?m) + (if \<exists>x \<in> set ?m. times (snd x) \<noteq> [] then 1 else 0) = length ?m"
  proof (cases "fold oldest_step ?L None")
    case None
    then show ?thesis using no_oldest [of ?L None] assms(1,3) L by (auto simp: evict_oldest_def)
  next
    case (Some x)
    obtain k t where x: "x = (k, t)" by fastforce
    have k: "k \<in> fst ` set ?m" "\<exists>x \<in> set ?m. times (snd x) \<noteq> []"
      using oldest_found [of ?L None k t] no_oldest [of ?L None] Some L by (auto simp: x)
    with assms(2) have "k \<noteq> ''''" by metis
    then have "evict_oldest ro ?m = AList.delete k ?m" using Some by (simp add: evict_oldest_def x)
    moreover have "?k \<notin> fst ` set (AList.delete k ?m)" using assms(3) by (auto simp: keys_map_of map_of_delete)
    ultimately show ?thesis using length_delete [OF assms(1) k(1)] k(2) assms(1) by simp
  qed
  have "map_of ?m ?k = None" using assms(3) by (simp add: map_of_eq_None_iff)
  then have "length (series (fst (GetOrCreate ro name ls tsm))) =
      (if MaxSeries tsm \<le> int (length ?m) then length (evict_oldest ro ?m) + 1 else length ?m + 1)"
    using e assms(1,3) by (simp add: GetOrCreate_def Let_def length_update)
  moreover define full where "full \<longleftrightarrow> (\<exists>x \<in> set ?m. times (snd x) \<noteq> [])"
  ultimately show ?thesis using e [folded full_def] unfolding full_def [symmetric] by (cases full) auto
qed

theorem series_table_size_witness:
  "length (series (fst (GetOrCreate in_order ''b'' [] \<lparr>series = [(''a:'', NewTimeSeries ''a'' [] 0 0)],
     DefaultResolution = second, DefaultRetention = hour, MaxSeries = 1\<rparr>))) = 2"
  by (subst series_table_size) (simp_all add: series_key_def labelsToString_def series_ok_new go_ok_def)

end
