(* ===== verification/Metrics.thy ===== *)
theory Metrics
  imports Timeline "HOL-Library.List_Lexorder" "HOL-Library.Char_ord"
begin

text \<open>
  \<open>pkgs/metrics/registry.go\<close> and \<open>types.go\<close>: counters, gauges, histograms, rates and summaries, each with
  its last thousand points, and the registry that keeps them by name and labels. The clock's reading
  is the argument \<open>now\<close>; locks and atomics make each operation one step, so the compare-and-swap loop
  of a gauge ends in its first turn. A panic is \<open>None\<close>.
\<close>

record metricPoint =
  mpTimestamp :: int
  mpValue :: float64
  mpLabels :: labels

record counter =
  ctName :: string
  ctHelp :: string
  ctLabels :: labels
  ctValue :: u64
  ctPoints :: "metricPoint list"

record gauge =
  ggName :: string
  ggHelp :: string
  ggLabels :: labels
  ggValue :: float64
  ggPoints :: "metricPoint list"

record histogram =
  hsName :: string
  hsHelp :: string
  hsLabels :: labels
  hsBuckets :: "float64 list"
  hsCounts :: "u64 list"
  hsSum :: float64
  hsCount :: u64
  hsPoints :: "metricPoint list"
  hsLastUpdate :: int

record rate =
  rtName :: string
  rtHelp :: string
  rtLabels :: labels
  rtWindow :: int
  rtEvents :: "int list"
  rtLastRate :: float64
  rtLastUpdate :: int
  rtPoints :: "metricPoint list"

record summary =
  smName :: string
  smHelp :: string
  smLabels :: labels
  smMaxAge :: int
  smObservations :: "(float64 \<times> int) list"
  smSorted :: bool
  smPoints :: "metricPoint list"

datatype metric =
    MCounter counter
  | MGauge gauge
  | MHistogram histogram
  | MRate rate
  | MSummary summary

record metricConfig =
  mcName :: string
  mcType :: string
  mcHelp :: string
  mcLabels :: labels
  mcBuckets :: "float64 list"
  mcWindow :: int
  mcMaxAge :: int

record metricExport =
  exName :: string
  exType :: string
  exHelp :: string
  exLabels :: labels
  exValue :: float64
  exTimestamp :: int
  exBuckets :: "(float64 \<times> u64) list"
  exPercentiles :: "(float64 \<times> float64) list"
  exRate :: float64
  exCount :: u64
  exSum :: float64

definition zero_export :: metricExport where
  "zero_export = \<lparr>exName = '''', exType = '''', exHelp = '''', exLabels = [], exValue = Fin 0, exTimestamp = zero_time,
     exBuckets = [], exPercentiles = [], exRate = Fin 0, exCount = 0, exSum = Fin 0\<rparr>"

text \<open>\<open>uint64(x)\<close>; outside its range the result is the machine's, here \<open>2 ^ 63\<close>.\<close>

fun f_to_u64 :: "float64 \<Rightarrow> u64" where
  "f_to_u64 (Fin q) = (let n = Float64.trunc q in if 0 \<le> n \<and> n < 2 ^ 64 then word_of_int n else 2 ^ 63)"
| "f_to_u64 _ = 2 ^ 63"

definition f_of_u64 :: "u64 \<Rightarrow> float64" where
  "f_of_u64 w = f_of_int (uint w)"

text \<open>A list of points after one more: only the last thousand are kept.\<close>

definition push_point :: "metricPoint \<Rightarrow> metricPoint list \<Rightarrow> metricPoint list" where
  "push_point p ps = (let ps' = ps @ [p] in if 1000 < length ps' then drop (length ps' - 1000) ps' else ps')"

definition points_since :: "int \<Rightarrow> metricPoint list \<Rightarrow> metricPoint list" where
  "points_since since ps = filter (\<lambda>p. since < mpTimestamp p) ps"

section \<open>Counters\<close>

definition NewCounter :: "string \<Rightarrow> string \<Rightarrow> labels \<Rightarrow> counter" where
  "NewCounter name help ls = \<lparr>ctName = name, ctHelp = help, ctLabels = ls, ctValue = 0, ctPoints = []\<rparr>"

definition Counter_Add :: "float64 \<Rightarrow> int \<Rightarrow> counter \<Rightarrow> counter" where
  "Counter_Add delta now c =
     (if flt delta (Fin 0) then c
      else
        let newVal = ctValue c + f_to_u64 delta in
        c\<lparr>ctValue := newVal,
          ctPoints := push_point \<lparr>mpTimestamp = now, mpValue = f_of_u64 newVal, mpLabels = ctLabels c\<rparr> (ctPoints c)\<rparr>)"

definition Counter_Inc :: "int \<Rightarrow> counter \<Rightarrow> counter" where
  "Counter_Inc now c = Counter_Add (Fin 1) now c"

definition Counter_Value :: "counter \<Rightarrow> float64" where
  "Counter_Value c = f_of_u64 (ctValue c)"

definition Counter_Points :: "int \<Rightarrow> counter \<Rightarrow> metricPoint list" where
  "Counter_Points since c = points_since since (ctPoints c)"

definition Counter_Reset :: "counter \<Rightarrow> counter" where
  "Counter_Reset c = c\<lparr>ctValue := 0, ctPoints := []\<rparr>"

definition Counter_Export :: "int \<Rightarrow> counter \<Rightarrow> metricExport" where
  "Counter_Export now c = zero_export\<lparr>exName := ctName c, exType := ''counter'', exHelp := ctHelp c,
     exLabels := ctLabels c, exValue := Counter_Value c, exCount := f_to_u64 (Counter_Value c), exTimestamp := now\<rparr>"

section \<open>Gauges\<close>

definition NewGauge :: "string \<Rightarrow> string \<Rightarrow> labels \<Rightarrow> gauge" where
  "NewGauge name help ls = \<lparr>ggName = name, ggHelp = help, ggLabels = ls, ggValue = Fin 0, ggPoints = []\<rparr>"

definition Gauge_Set :: "float64 \<Rightarrow> int \<Rightarrow> gauge \<Rightarrow> gauge" where
  "Gauge_Set v now g = g\<lparr>ggValue := v,
     ggPoints := push_point \<lparr>mpTimestamp = now, mpValue = v, mpLabels = ggLabels g\<rparr> (ggPoints g)\<rparr>"

definition Gauge_Add :: "float64 \<Rightarrow> int \<Rightarrow> gauge \<Rightarrow> gauge" where
  "Gauge_Add delta now g =
     (let newVal = fadd (ggValue g) delta in
      g\<lparr>ggValue := newVal,
        ggPoints := push_point \<lparr>mpTimestamp = now, mpValue = newVal, mpLabels = ggLabels g\<rparr> (ggPoints g)\<rparr>)"

definition Gauge_Inc :: "int \<Rightarrow> gauge \<Rightarrow> gauge" where
  "Gauge_Inc now g = Gauge_Add (Fin 1) now g"

definition Gauge_Dec :: "int \<Rightarrow> gauge \<Rightarrow> gauge" where
  "Gauge_Dec now g = Gauge_Add (Fin (- 1)) now g"

definition Gauge_Value :: "gauge \<Rightarrow> float64" where
  "Gauge_Value g = ggValue g"

definition Gauge_Points :: "int \<Rightarrow> gauge \<Rightarrow> metricPoint list" where
  "Gauge_Points since g = points_since since (ggPoints g)"

definition Gauge_Reset :: "gauge \<Rightarrow> gauge" where
  "Gauge_Reset g = g\<lparr>ggValue := Fin 0, ggPoints := []\<rparr>"

definition Gauge_Export :: "int \<Rightarrow> gauge \<Rightarrow> metricExport" where
  "Gauge_Export now g = zero_export\<lparr>exName := ggName g, exType := ''gauge'', exHelp := ggHelp g,
     exLabels := ggLabels g, exValue := Gauge_Value g, exTimestamp := now\<rparr>"

section \<open>Histograms\<close>

definition DefaultBuckets :: "float64 list" where
  "DefaultBuckets = map round64 [1/1000, 5/1000, 1/100, 25/1000, 5/100, 1/10, 1/4, 1/2, 1, 5/2, 5, 10]"

definition NewHistogram :: "string \<Rightarrow> string \<Rightarrow> labels \<Rightarrow> float64 list \<Rightarrow> histogram" where
  "NewHistogram name help ls bs = \<lparr>hsName = name, hsHelp = help, hsLabels = ls, hsBuckets = sort bs,
     hsCounts = replicate (length bs + 1) 0, hsSum = Fin 0, hsCount = 0, hsPoints = [], hsLastUpdate = zero_time\<rparr>"

definition SearchFloat64s :: "float64 list \<Rightarrow> float64 \<Rightarrow> nat" where
  "SearchFloat64s a x = go_search (length a) (\<lambda>i. \<not> flt (a ! i) x)"

definition Histogram_Observe :: "float64 \<Rightarrow> int \<Rightarrow> histogram \<Rightarrow> histogram option" where
  "Histogram_Observe v now h =
     (let bucketIdx = SearchFloat64s (hsBuckets h) v in
      if length (hsCounts h) \<le> bucketIdx then None
      else Some (h\<lparr>hsCounts := (hsCounts h)[bucketIdx := hsCounts h ! bucketIdx + 1],
        hsSum := fadd (hsSum h) v, hsCount := hsCount h + 1, hsLastUpdate := now,
        hsPoints := push_point \<lparr>mpTimestamp = now, mpValue = v, mpLabels = hsLabels h\<rparr> (hsPoints h)\<rparr>))"

definition Histogram_Value :: "histogram \<Rightarrow> float64" where
  "Histogram_Value h = (if hsCount h = 0 then Fin 0 else fdiv (hsSum h) (f_of_u64 (hsCount h)))"

definition Histogram_Points :: "int \<Rightarrow> histogram \<Rightarrow> metricPoint list" where
  "Histogram_Points since h = points_since since (hsPoints h)"

definition Histogram_Reset :: "histogram \<Rightarrow> histogram" where
  "Histogram_Reset h = h\<lparr>hsCounts := map (\<lambda>_. 0) (hsCounts h), hsSum := Fin 0, hsCount := 0, hsPoints := []\<rparr>"

text \<open>The counts of an export are cumulative, and the last bound is infinite.\<close>

fun cumulative :: "u64 \<Rightarrow> float64 list \<Rightarrow> u64 list \<Rightarrow> (float64 \<times> u64) list" where
  "cumulative acc (b # bs) (c # cs) = (b, acc + c) # cumulative (acc + c) bs cs"
| "cumulative acc bs cs = [(Inf False, acc + last cs)]"

definition Histogram_Export :: "histogram \<Rightarrow> metricExport" where
  "Histogram_Export h = zero_export\<lparr>exName := hsName h, exType := ''histogram'', exHelp := hsHelp h,
     exLabels := hsLabels h, exValue := Histogram_Value h, exCount := hsCount h, exSum := hsSum h,
     exBuckets := cumulative 0 (hsBuckets h) (hsCounts h), exTimestamp := hsLastUpdate h\<rparr>"

section \<open>Rates\<close>

definition NewRate :: "string \<Rightarrow> string \<Rightarrow> labels \<Rightarrow> int \<Rightarrow> rate" where
  "NewRate name help ls window = \<lparr>rtName = name, rtHelp = help, rtLabels = ls, rtWindow = window, rtEvents = [],
     rtLastRate = Fin 0, rtLastUpdate = zero_time, rtPoints = []\<rparr>"

definition Rate_Mark :: "int \<Rightarrow> rate \<Rightarrow> rate" where
  "Rate_Mark now r =
     (let events = filter (\<lambda>t. now - rtWindow r < t) (rtEvents r @ [now]); r1 = r\<lparr>rtEvents := events\<rparr> in
      if events = [] then r1
      else
        let v = fdiv (f_of_int (int (length events))) (dur_seconds (rtWindow r)) in
        r1\<lparr>rtLastRate := v, rtLastUpdate := now,
           rtPoints := push_point \<lparr>mpTimestamp = now, mpValue = v, mpLabels = rtLabels r\<rparr> (rtPoints r)\<rparr>)"

definition Rate_Value :: "rate \<Rightarrow> float64" where
  "Rate_Value r = rtLastRate r"

definition Rate_Points :: "int \<Rightarrow> rate \<Rightarrow> metricPoint list" where
  "Rate_Points since r = points_since since (rtPoints r)"

definition Rate_Reset :: "rate \<Rightarrow> rate" where
  "Rate_Reset r = r\<lparr>rtEvents := [], rtLastRate := Fin 0, rtPoints := []\<rparr>"

definition Rate_Export :: "rate \<Rightarrow> metricExport" where
  "Rate_Export r = zero_export\<lparr>exName := rtName r, exType := ''rate'', exHelp := rtHelp r, exLabels := rtLabels r,
     exValue := Rate_Value r, exRate := Rate_Value r, exTimestamp := rtLastUpdate r\<rparr>"

section \<open>Summaries\<close>

definition NewSummary :: "string \<Rightarrow> string \<Rightarrow> labels \<Rightarrow> int \<Rightarrow> summary" where
  "NewSummary name help ls maxAge = \<lparr>smName = name, smHelp = help, smLabels = ls, smMaxAge = maxAge,
     smObservations = [], smSorted = False, smPoints = []\<rparr>"

definition Summary_Observe :: "float64 \<Rightarrow> int \<Rightarrow> summary \<Rightarrow> summary" where
  "Summary_Observe v now s =
     s\<lparr>smObservations := filter (\<lambda>(_, t). now - smMaxAge s < t) (smObservations s @ [(v, now)]), smSorted := False,
       smPoints := push_point \<lparr>mpTimestamp = now, mpValue = v, mpLabels = smLabels s\<rparr> (smPoints s)\<rparr>"

definition Summary_Value :: "summary \<Rightarrow> float64" where
  "Summary_Value s =
     (if smObservations s = [] then Fin 0
      else fdiv (sum_values (map fst (smObservations s))) (f_of_int (int (length (smObservations s)))))"

text \<open>The observations are sorted in place the first time a percentile is asked for (the order of equal
  values, which the sort leaves open, is never observed). An index out of range panics.\<close>

definition Summary_Percentile :: "float64 \<Rightarrow> summary \<Rightarrow> (float64 \<times> summary) option" where
  "Summary_Percentile p s =
     (if smObservations s = [] then Some (Fin 0, s)
      else
        let s1 = (if smSorted s then s
              else s\<lparr>smObservations := sort_key fst (smObservations s), smSorted := True\<rparr>);
            n = int (length (smObservations s1)); index = f_to_int (fmul p (f_of_int (n - 1))) in
        if index < 0 \<or> n \<le> index then None else Some (fst (smObservations s1 ! nat index), s1))"

definition Summary_Points :: "int \<Rightarrow> summary \<Rightarrow> metricPoint list" where
  "Summary_Points since s = points_since since (smPoints s)"

definition Summary_Reset :: "summary \<Rightarrow> summary" where
  "Summary_Reset s = s\<lparr>smObservations := [], smSorted := False, smPoints := []\<rparr>"

definition Summary_Export :: "int \<Rightarrow> summary \<Rightarrow> (metricExport \<times> summary) option" where
  "Summary_Export now s =
     Option.bind (Summary_Percentile p50 s) (\<lambda>(a, s).
     Option.bind (Summary_Percentile p90 s) (\<lambda>(b, s).
     Option.bind (Summary_Percentile p95 s) (\<lambda>(c, s).
     Option.bind (Summary_Percentile p99 s) (\<lambda>(d, s).
     Some (zero_export\<lparr>exName := smName s, exType := ''summary'', exHelp := smHelp s, exLabels := smLabels s,
       exValue := Summary_Value s, exCount := of_nat (length (smObservations s)),
       exSum := sum_values (map fst (smObservations s)),
       exPercentiles := [(p50, a), (p90, b), (p95, c), (p99, d)], exTimestamp := now\<rparr>, s)))))"

section \<open>The registry\<close>

record registry =
  rgMetrics :: "(string, metric) gomap"

definition NewRegistry :: registry where
  "NewRegistry = \<lparr>rgMetrics = []\<rparr>"

definition metricKey :: "string \<Rightarrow> labels \<Rightarrow> string" where
  "metricKey name ls = name @ concat (map (\<lambda>k. '','' @ k @ ''='' @ mget [] ls k) (sort (map fst ls)))"

definition minute :: int where
  "minute = 60 * 10 ^ 9"

definition new_metric :: "metricConfig \<Rightarrow> metric option" where
  "new_metric cfg =
     (let n = mcName cfg; h = mcHelp cfg; ls = mcLabels cfg in
      if mcType cfg = ''counter'' then Some (MCounter (NewCounter n h ls))
      else if mcType cfg = ''gauge'' then Some (MGauge (NewGauge n h ls))
      else if mcType cfg = ''histogram''
        then Some (MHistogram (NewHistogram n h ls (if mcBuckets cfg = [] then DefaultBuckets else mcBuckets cfg)))
      else if mcType cfg = ''rate''
        then Some (MRate (NewRate n h ls (if mcWindow cfg = 0 then minute else mcWindow cfg)))
      else if mcType cfg = ''summary''
        then Some (MSummary (NewSummary n h ls (if mcMaxAge cfg = 0 then 10 * minute else mcMaxAge cfg)))
      else None)"

text \<open>The metric, or \<open>None\<close> for the error.\<close>

definition Register :: "metricConfig \<Rightarrow> registry \<Rightarrow> metric option \<times> registry" where
  "Register cfg r =
     (let key = metricKey (mcName cfg) (mcLabels cfg) in
      if map_of (rgMetrics r) key \<noteq> None then (None, r)
      else case new_metric cfg of
        None \<Rightarrow> (None, r)
      | Some m \<Rightarrow> (Some m, r\<lparr>rgMetrics := AList.update key m (rgMetrics r)\<rparr>))"

definition Get :: "string \<Rightarrow> labels \<Rightarrow> registry \<Rightarrow> metric option" where
  "Get name ls r = map_of (rgMetrics r) (metricKey name ls)"

definition Registry_GetOrCreate :: "metricConfig \<Rightarrow> registry \<Rightarrow> metric option \<times> registry" where
  "Registry_GetOrCreate cfg r =
     (case Get (mcName cfg) (mcLabels cfg) r of Some m \<Rightarrow> (Some m, r) | None \<Rightarrow> Register cfg r)"

definition List_metrics :: "range_order \<Rightarrow> registry \<Rightarrow> metric list" where
  "List_metrics ro r = map snd (range_map ro ''metrics'' (rgMetrics r))"

text \<open>Exporting a summary sorts its observations.\<close>

fun export_metric :: "int \<Rightarrow> metric \<Rightarrow> (metricExport \<times> metric) option" where
  "export_metric now (MCounter c) = Some (Counter_Export now c, MCounter c)"
| "export_metric now (MGauge g) = Some (Gauge_Export now g, MGauge g)"
| "export_metric now (MHistogram h) = Some (Histogram_Export h, MHistogram h)"
| "export_metric now (MRate r) = Some (Rate_Export r, MRate r)"
| "export_metric now (MSummary s) = map_option (\<lambda>(e, s). (e, MSummary s)) (Summary_Export now s)"

fun export_all :: "int \<Rightarrow> (string \<times> metric) list \<Rightarrow> registry \<Rightarrow> (metricExport list \<times> registry) option" where
  "export_all now [] r = Some ([], r)"
| "export_all now ((k, m) # ms) r =
     Option.bind (export_metric now m) (\<lambda>(e, m').
     map_option (\<lambda>(es, r'). (e # es, r')) (export_all now ms (r\<lparr>rgMetrics := AList.update k m' (rgMetrics r)\<rparr>)))"

definition Export :: "range_order \<Rightarrow> int \<Rightarrow> registry \<Rightarrow> (metricExport list \<times> registry) option" where
  "Export ro now r = export_all now (range_map ro ''metrics'' (rgMetrics r)) r"

fun reset_metric :: "metric \<Rightarrow> metric" where
  "reset_metric (MCounter c) = MCounter (Counter_Reset c)"
| "reset_metric (MGauge g) = MGauge (Gauge_Reset g)"
| "reset_metric (MHistogram h) = MHistogram (Histogram_Reset h)"
| "reset_metric (MRate r) = MRate (Rate_Reset r)"
| "reset_metric (MSummary s) = MSummary (Summary_Reset s)"

definition Reset :: "registry \<Rightarrow> registry" where
  "Reset r = r\<lparr>rgMetrics := map (\<lambda>(k, m). (k, reset_metric m)) (rgMetrics r)\<rparr>"

section \<open>Points\<close>

lemma length_push_point: "length ps \<le> 1000 \<Longrightarrow> length (push_point p ps) \<le> 1000"
  by (auto simp: push_point_def Let_def)

section \<open>What a histogram counts\<close>

lemma bucket_index:
  assumes "sorted bs" and "NaN \<notin> set bs" and "v \<noteq> NaN"
  shows "SearchFloat64s bs v = length (filter (\<lambda>b. b < v) bs)"
proof -
  have "go_search (length bs) (\<lambda>i. \<not> flt (bs ! i) v) = length (filter (\<lambda>b. b < v) bs)"
  proof (rule go_search_unique)
    let ?m = "length (filter (\<lambda>b. b < v) bs)"
    have f: "flt (bs ! i) v \<longleftrightarrow> bs ! i < v" if "i < length bs" for i
      using that assms(2,3) by (metis flt_less nth_mem)
    show "?m \<le> length bs" by (rule length_filter_le)
    show "\<not> \<not> flt (bs ! i) v" if "i < ?m" for i
      using that f [of i] smaller_prefix [OF assms(1), of i v] length_filter_le [of "\<lambda>b. b < v" bs] by simp
    show "\<not> flt (bs ! i) v" if "?m \<le> i" "i < length bs" for i
      using that f [of i] smaller_prefix [OF assms(1), of i v] by simp
    show "\<not> flt (bs ! j) v" if "i \<le> j" "j < length bs" "\<not> flt (bs ! i) v" for i j
      using assms(1) that f [of i] f [of j] by (meson le_less_trans not_less order.trans sorted_nth_mono)
  qed
  then show ?thesis by (simp add: SearchFloat64s_def)
qed

definition hist_ok :: "float64 list \<Rightarrow> float64 list \<Rightarrow> histogram \<Rightarrow> bool" where
  "hist_ok bs vs h \<longleftrightarrow> hsBuckets h = bs \<and> length (hsCounts h) = length bs + 1 \<and> hsCount h = of_nat (length vs) \<and>
     (\<forall>j \<le> length bs. hsCounts h ! j = of_nat (length (filter (\<lambda>v. SearchFloat64s bs v = j) vs))) \<and>
     hsSum h = sum_values vs"

lemma hist_ok_observe:
  assumes "hist_ok bs vs h"
  shows "\<exists>h'. Histogram_Observe v now h = Some h' \<and> hist_ok bs (vs @ [v]) h'"
proof -
  have "SearchFloat64s bs v \<le> length bs"
    using search_loop_bounds [of 0 "length bs"] by (simp add: SearchFloat64s_def go_search_def)
  then show ?thesis using assms
    by (auto simp: hist_ok_def Histogram_Observe_def Let_def nth_list_update sum_values_def)
qed

fun observe_all :: "(float64 \<times> int) list \<Rightarrow> histogram \<Rightarrow> histogram option" where
  "observe_all [] h = Some h"
| "observe_all ((v, t) # xs) h = Option.bind (Histogram_Observe v t h) (observe_all xs)"

lemma hist_ok_observe_all:
  "hist_ok bs vs h \<Longrightarrow> \<exists>h'. observe_all xs h = Some h' \<and> hist_ok bs (vs @ map fst xs) h'"
proof (induction xs arbitrary: vs h)
  case (Cons x xs)
  obtain v t where x: "x = (v, t)" by fastforce
  obtain h1 where h1: "Histogram_Observe v t h = Some h1" "hist_ok bs (vs @ [v]) h1"
    using hist_ok_observe [OF Cons.prems] by blast
  from Cons.IH [OF h1(2)] h1(1) show ?case by (auto simp: x)
qed simp

lemma cumulative_sums:
  assumes "length cs = length bs + 1" and "j < length bs"
  shows "cumulative acc bs cs ! j = (bs ! j, acc + sum_list (take (j + 1) cs))"
  using assms
proof (induction bs arbitrary: acc cs j)
  case (Cons b bs)
  from Cons.prems(1) obtain c cs' where "cs = c # cs'" by (cases cs) auto
  with Cons show ?case by (cases j) (auto simp: add.assoc)
qed simp

lemma cumulative_last:
  assumes "length cs = length bs + 1"
  shows "length (cumulative acc bs cs) = length bs + 1 \<and> cumulative acc bs cs ! length bs = (Inf False, acc + sum_list cs)"
  using assms
proof (induction bs arbitrary: acc cs)
  case (Cons b bs)
  from Cons.prems(1) obtain c cs' where "cs = c # cs'" by (cases cs) auto
  with Cons show ?case by (auto simp: add.assoc)
next
  case Nil
  then obtain c where "cs = [c]" by (cases cs) auto
  then show ?case by simp
qed

lemma sum_counts:
  assumes "\<And>i. i < n \<Longrightarrow> cs ! i = (of_nat (length (filter (\<lambda>v. f v = i) vs)) :: u64)" and "n \<le> length cs"
  shows "sum_list (take n cs) = of_nat (length (filter (\<lambda>v. f v < n) vs))"
  using assms
proof (induction n)
  case (Suc n)
  have "length (filter (\<lambda>v. f v < Suc n) vs) = length (filter (\<lambda>v. f v < n) vs) + length (filter (\<lambda>v. f v = n) vs)"
    by (induction vs) auto
  with Suc show ?case by (simp add: take_Suc_conv_app_nth)
qed simp

text \<open>A histogram's export is cumulative and complete: whatever values are observed, in any order, each
  bound of the export, in ascending order and ending with infinity, carries the number of values that do not
  exceed it (modulo \<open>2 ^ 64\<close>), and no observation panics. (For bounds and values other than NaN.)\<close>

theorem histogram_export_is_cumulative:
  assumes "NaN \<notin> set bs" and "NaN \<notin> fst ` set xs"
  shows "\<exists>h. observe_all xs (NewHistogram n hlp ls bs) = Some h \<and>
    map fst (exBuckets (Histogram_Export h)) = sort bs @ [Inf False] \<and>
    (\<forall>(bound, c) \<in> set (exBuckets (Histogram_Export h)). c = of_nat (length (filter (\<lambda>x. fst x \<le> bound) xs))) \<and>
    exCount (Histogram_Export h) = of_nat (length xs)"
proof -
  let ?bs = "sort bs" and ?vs = "map fst xs"
  have "hist_ok ?bs [] (NewHistogram n hlp ls bs)"
    by (simp add: hist_ok_def NewHistogram_def sum_values_def nth_Cons' del: replicate_Suc)
  then obtain h where h: "observe_all xs (NewHistogram n hlp ls bs) = Some h" "hist_ok ?bs ?vs h"
    using hist_ok_observe_all [of ?bs "[]" _ xs] by auto
  let ?es = "cumulative 0 ?bs (hsCounts h)"
  have len: "length (hsCounts h) = length ?bs + 1" using h(2) by (simp add: hist_ok_def)
  have idx: "SearchFloat64s ?bs v = length (filter (\<lambda>b. b < v) ?bs)" if "v \<in> set ?vs" for v
    using that assms by (intro bucket_index) (auto simp: image_iff)
  have counted: "length (filter (\<lambda>v. SearchFloat64s ?bs v < j) ?vs) = length (filter (\<lambda>v. P v) ?vs)"
    if "\<And>v. v \<in> set ?vs \<Longrightarrow> SearchFloat64s ?bs v < j \<longleftrightarrow> P v" for j P
    using that by (metis (no_types, lifting) filter_cong)
  have sums: "sum_list (take j (hsCounts h)) = of_nat (length (filter (\<lambda>v. SearchFloat64s ?bs v < j) ?vs))"
    if "j \<le> length ?bs + 1" for j
    using that h(2) len by (intro sum_counts) (auto simp: hist_ok_def)
  have at: "?es ! j = (?bs ! j, of_nat (length (filter (\<lambda>x. fst x \<le> ?bs ! j) xs)))" if j: "j < length ?bs" for j
  proof -
    have "SearchFloat64s ?bs v < j + 1 \<longleftrightarrow> v \<le> ?bs ! j" if "v \<in> set ?vs" for v
      using smaller_prefix [of ?bs j v] j by (auto simp: idx [OF that] not_less less_Suc_eq_le)
    from counted [OF this] show ?thesis
      using cumulative_sums [OF len j, of 0] sums [of "j + 1"] j by (simp add: filter_map comp_def)
  qed
  have inf: "v \<le> Inf False" for v by (cases v) (auto simp: less_eq_float64_def less_float64_def)
  have final: "?es ! length ?bs = (Inf False, of_nat (length (filter (\<lambda>x. fst x \<le> Inf False) xs)))"
  proof -
    have "SearchFloat64s ?bs v < length ?bs + 1 \<longleftrightarrow> True" if "v \<in> set ?vs" for v
      using length_filter_le [of "\<lambda>b. b < v" ?bs] by (simp add: idx [OF that] less_Suc_eq_le)
    from counted [OF this] show ?thesis
      using cumulative_last [OF len, of 0] sums [of "length ?bs + 1"] len inf by simp
  qed
  have es: "length ?es = length ?bs + 1" using cumulative_last [OF len] by simp
  have "map fst ?es = ?bs @ [Inf False]"
    by (rule nth_equalityI) (use es at final in \<open>auto simp: nth_append less_Suc_eq\<close>)
  moreover have "c = of_nat (length (filter (\<lambda>x. fst x \<le> bound) xs))" if "(bound, c) \<in> set ?es" for bound c
    using that es at final by (auto simp: in_set_conv_nth less_Suc_eq)
  moreover have "hsBuckets h = ?bs" "hsCount h = of_nat (length xs)" using h(2) by (simp_all add: hist_ok_def)
  ultimately show ?thesis using h(1) by (auto simp: Histogram_Export_def)
qed

theorem histogram_export_is_cumulative_witness:
  "\<exists>h. observe_all [(Fin 2, 0), (Fin 7, 1)] (NewHistogram ''h'' '''' [] [Fin 5, Fin 1]) = Some h \<and>
    map fst (exBuckets (Histogram_Export h)) = sort [Fin 5, Fin 1] @ [Inf False] \<and>
    (\<forall>(bound, c) \<in> set (exBuckets (Histogram_Export h)).
      c = of_nat (length (filter (\<lambda>x. fst x \<le> bound) [(Fin 2, 0 :: int), (Fin 7, 1)]))) \<and>
    exCount (Histogram_Export h) = of_nat (length [(Fin 2, 0 :: int), (Fin 7, 1)])"
  by (rule histogram_export_is_cumulative) simp_all

section \<open>Keys\<close>

text \<open>The registry's key of a metric does not depend on the order of the map of labels.\<close>

lemma metricKey_stable:
  assumes "go_ok ls" and "go_ok ls'" and "map_of ls = map_of ls'"
  shows "metricKey name ls = metricKey name ls'"
proof -
  have "set (map fst ls) = set (map fst ls')"
    using assms(3) by (simp add: set_eq_iff keys_map_of)
  then have "sort (map fst ls) = sort (map fst ls')"
    using assms(1,2) unfolding go_ok_def by (intro sorted_distinct_set_unique) auto
  then show ?thesis using assms(3) by (simp add: metricKey_def mget_def)
qed

text \<open>The manager's key of a time series does: one series can be created twice.\<close>

lemma series_created_twice:
  defines "ls \<equiv> [(''a'', ''1''), (''b'', ''2'')]" and "ro \<equiv> (\<lambda>t. rev)"
  shows "length (series (fst (GetOrCreate ro ''m'' ls
    (fst (GetOrCreate in_order ''m'' ls (NewTimeSeriesManager 0 0 0)))))) = 2"
  by (simp add: GetOrCreate_def Let_def series_key_def labelsToString_def NewTimeSeriesManager_def ls_def ro_def
      range_map_def order_keys_def in_order_def)

end
