(* ===== verification/Events.thy ===== *)
theory Events
  imports GoText Workers Eip712
begin

text \<open>
  \<open>pkgs/events\<close>: the emitter, which buffers events in a channel and hands them to subscribers, and the
  publisher, which sends them to Redis one by one or in batches. An operation that several goroutines
  can interrupt is split into its steps: a send checks that the emitter runs, and only then sends, waits, times out or gives up
  as the emitter shuts down; a stop cancels the context and later closes the channel, while the processing loop drains what is
  left; a flush takes the batch and leaves its publication to a goroutine, an entry of \<open>pbPending\<close>. Not modelled: the timeouts of
  handlers (a handler is one step), the periodic log, and the Redis side of subscriptions.
\<close>

record event =
  evID :: string
  evType :: string
  evSeverity :: string
  evTimestamp :: int
  evComponent :: string
  evProtocol :: string
  evDataMarket :: string
  evSequencerID :: string
  evWorkerID :: string
  evPayload :: json
  evEpochID :: string
  evSubmissionID :: string
  evValidatorID :: string
  evError :: string
  evMetadata :: "(string, string) gomap"

definition zero_event :: event where
  "zero_event = \<lparr>evID = '''', evType = '''', evSeverity = '''', evTimestamp = 0, evComponent = '''', evProtocol = '''',
     evDataMarket = '''', evSequencerID = '''', evWorkerID = '''', evPayload = JNull, evEpochID = '''',
     evSubmissionID = '''', evValidatorID = '''', evError = '''', evMetadata = []\<rparr>"

section \<open>Events as JSON\<close>

abbreviation omit_str :: "string \<Rightarrow> string \<Rightarrow> (string \<times> json) list" where
  "omit_str k v \<equiv> omit (v = []) k (JStr v)"

abbreviation omit_int :: "string \<Rightarrow> int \<Rightarrow> (string \<times> json) list" where
  "omit_int k n \<equiv> omit (n = 0) k (JNum n)"

definition ToJSON :: "golib \<Rightarrow> event \<Rightarrow> json" where
  "ToJSON L e = JObj
     ([(''id'', JStr (evID e)), (''type'', JStr (evType e)), (''severity'', JStr (evSeverity e)),
       (''timestamp'', JStr (TimeText L (evTimestamp e))), (''component'', JStr (evComponent e)),
       (''protocol'', JStr (evProtocol e)), (''data_market'', JStr (evDataMarket e))] @
      omit_str ''sequencer_id'' (evSequencerID e) @ omit_str ''worker_id'' (evWorkerID e) @
      [(''payload'', evPayload e)] @ omit_str ''epoch_id'' (evEpochID e) @
      omit_str ''submission_id'' (evSubmissionID e) @ omit_str ''validator_id'' (evValidatorID e) @
      omit_str ''error'' (evError e) @
      (if evMetadata e = [] then [] else [(''metadata'', JObj (map (\<lambda>(k, v). (k, JStr v)) (evMetadata e)))]))"

text \<open>Marshalled text; quotes, backslashes, control characters and the three characters that HTML cares for are escaped.\<close>

definition escape_char :: "char \<Rightarrow> string" where
  "escape_char c =
     (let n = of_char c :: nat; u = CHR 0x5C # ''u00'' @ [hex_digits ! (n div 16), hex_digits ! (n mod 16)] in
      if n = 0x22 \<or> n = 0x5C then [CHR 0x5C, c]
      else if n = 10 then CHR 0x5C # ''n'' else if n = 13 then CHR 0x5C # ''r'' else if n = 9 then CHR 0x5C # ''t''
      else if n = 8 then CHR 0x5C # ''b'' else if n = 12 then CHR 0x5C # ''f''
      else if n < 32 \<or> n = 0x3C \<or> n = 0x3E \<or> n = 0x26 then u
      else [c])"

definition quote_text :: "string \<Rightarrow> string" where
  "quote_text s = CHR 0x22 # concat (map escape_char s) @ [CHR 0x22]"

fun show_json :: "json \<Rightarrow> string" where
  "show_json JNull = ''null''"
| "show_json (JBool b) = (if b then ''true'' else ''false'')"
| "show_json (JNum n) = show_int n"
| "show_json (JFlt x) = float_json x"
| "show_json (JStr s) = quote_text s"
| "show_json (JArr js) = ''['' @ join_with '','' (map show_json js) @ '']''"
| "show_json (JObj kvs) = ''{'' @ join_with '','' (map (\<lambda>(k, j). quote_text k @ '':'' @ show_json j) kvs) @ ''}''"

section \<open>Making events\<close>

definition generateEventID :: "int \<Rightarrow> string" where
  "generateEventID t = ''evt_'' @ show_int t"

definition NewEvent :: "string \<Rightarrow> string \<Rightarrow> string \<Rightarrow> json \<Rightarrow> event prog" where
  "NewEvent ty severity component payload =
     Call NowNano (\<lambda>t1. Call NowNano (\<lambda>t2.
       Ret (zero_event\<lparr>evID := generateEventID (int_of t1), evType := ty, evSeverity := severity,
         evTimestamp := int_of t2, evComponent := component, evPayload := payload\<rparr>)))"

record submissionEventPayload =
  spSubmissionID :: string
  spEpochID :: string
  spProjectID :: string
  spSnapshotCID :: string
  spSlotID :: u64
  spSubmitterID :: string
  spReason :: string
  spProjectIDs :: "string list"

definition enc_submission_payload :: "submissionEventPayload \<Rightarrow> json" where
  "enc_submission_payload p = JObj
     ([(''submission_id'', JStr (spSubmissionID p)), (''epoch_id'', JStr (spEpochID p)),
       (''project_id'', JStr (spProjectID p)), (''snapshot_cid'', JStr (spSnapshotCID p))] @
      omit_int ''slot_id'' (uint (spSlotID p)) @ omit_str ''submitter_id'' (spSubmitterID p) @
      omit_str ''reason'' (spReason p) @
      (if spProjectIDs p = [] then [] else [(''project_ids'', JArr (map JStr (spProjectIDs p)))]))"

definition alert_level :: "int \<Rightarrow> string" where
  "alert_level depth = (if 1000 < depth then ''critical'' else if 500 < depth then ''warning'' else ''normal'')"

definition queue_severity :: "string \<Rightarrow> string" where
  "queue_severity level =
     (if level = ''critical'' then ''error'' else if level = ''warning'' then ''warning'' else ''info'')"

definition worker_severity :: "string \<Rightarrow> string" where
  "worker_severity status =
     (if status = ''error'' \<or> status = ''failed'' then ''error'' else if status = ''stopped'' then ''warning'' else ''info'')"

section \<open>The emitter\<close>

record emitterConfig =
  BufferSize :: nat
  MaxWorkers :: nat
  EventTimeout :: int
  EnableMetrics :: bool
  DropOnOverflow :: bool
  ecProtocol :: string
  ecDataMarket :: string
  ecSequencerID :: string

text \<open>A handler acts on whatever it reaches, and may panic.\<close>

record 's subscriber =
  sbID :: string
  sbHandler :: "event \<Rightarrow> 's \<Rightarrow> 's option"
  sbFilter :: "(event \<Rightarrow> bool) option"
  sbTypes :: "string list"

text \<open>Where a processing loop is: waiting for an event or the end, waiting for a worker for its event, or draining the channel.
  Each start of the emitter adds a loop.\<close>

datatype emitLoop = Selecting | Holding event | Draining

record 's emitter =
  emConfig :: emitterConfig
  eventChan :: "event list"
  chanClosed :: bool
  subscribers :: "(string, 's subscriber) gomap"
  emLoops :: "emitLoop list"
  inFlight :: "event list"
  eventsEmitted :: u64
  eventsDropped :: u64
  eventsProcessed :: u64
  processingErrors :: u64
  emRunning :: bool
  emCancelled :: bool

definition DefaultConfig :: emitterConfig where
  "DefaultConfig = \<lparr>BufferSize = 1000, MaxWorkers = 10, EventTimeout = 5 * 10 ^ 9, EnableMetrics = True,
     DropOnOverflow = True, ecProtocol = '''', ecDataMarket = '''', ecSequencerID = ''''\<rparr>"

definition NewEmitter :: "emitterConfig option \<Rightarrow> 's emitter" where
  "NewEmitter cfg = \<lparr>emConfig = (case cfg of None \<Rightarrow> DefaultConfig | Some c \<Rightarrow> c), eventChan = [], chanClosed = False,
     subscribers = [], emLoops = [], inFlight = [], eventsEmitted = 0, eventsDropped = 0, eventsProcessed = 0,
     processingErrors = 0, emRunning = False, emCancelled = False\<rparr>"

text \<open>The results say whether an error was returned.\<close>

definition Start :: "'s emitter \<Rightarrow> bool \<times> 's emitter" where
  "Start e = (if emRunning e then (False, e) else (True, e\<lparr>emRunning := True, emLoops := emLoops e @ [Selecting]\<rparr>))"

text \<open>A stop cancels the context, waits for the loops and workers up to ten seconds, and closes the channel, which panics when
  it is closed already.\<close>

definition begin_stop :: "'s emitter \<Rightarrow> 's emitter option" where
  "begin_stop e = (if emRunning e then Some (e\<lparr>emRunning := False, emCancelled := True\<rparr>) else None)"

definition close_chan :: "'s emitter \<Rightarrow> 's emitter option" where
  "close_chan e = (if chanClosed e then None else Some (e\<lparr>chanClosed := True\<rparr>))"

definition Stop :: "'s emitter \<Rightarrow> (bool \<times> 's emitter) option" where
  "Stop e = (case begin_stop e of None \<Rightarrow> Some (False, e) | Some e' \<Rightarrow> map_option (Pair True) (close_chan e'))"

definition fill_event :: "emitterConfig \<Rightarrow> event \<Rightarrow> event" where
  "fill_event c ev = ev\<lparr>evProtocol := (if evProtocol ev = '''' then ecProtocol c else evProtocol ev),
     evDataMarket := (if evDataMarket ev = '''' then ecDataMarket c else evDataMarket ev),
     evSequencerID := (if evSequencerID ev = '''' then ecSequencerID c else evSequencerID ev)\<rparr>"

definition emit_check :: "event \<Rightarrow> 's emitter \<Rightarrow> (event \<times> 's emitter) option" where
  "emit_check ev e =
     (if emRunning e then Some (fill_event (emConfig e) ev, e\<lparr>eventsEmitted := eventsEmitted e + 1\<rparr>) else None)"

text \<open>A full buffer drops the event, or makes the sender wait. A send on the closed channel panics.\<close>

datatype sendResult = Sent | Rejected | Dropped | Waits | SendPanics

definition emit_send :: "event \<Rightarrow> 's emitter \<Rightarrow> sendResult \<times> 's emitter" where
  "emit_send ev e =
     (if chanClosed e then (SendPanics, e)
      else if length (eventChan e) < BufferSize (emConfig e) then (Sent, e\<lparr>eventChan := eventChan e @ [ev]\<rparr>)
      else if DropOnOverflow (emConfig e) then (Dropped, e\<lparr>eventsDropped := eventsDropped e + 1\<rparr>)
      else (Waits, e))"

text \<open>A sender that waits for space, or, in \<open>EmitWithTimeout\<close>, for its timeout too; it gives up when the context is cancelled.\<close>

datatype sender = Trying event | Blocked event | Timed event

fun sender_event :: "sender \<Rightarrow> event" where
  "sender_event (Trying ev) = ev"
| "sender_event (Blocked ev) = ev"
| "sender_event (Timed ev) = ev"

definition wait_send :: "event \<Rightarrow> 's emitter \<Rightarrow> sendResult \<times> 's emitter" where
  "wait_send ev e =
     (if chanClosed e then (SendPanics, e)
      else if length (eventChan e) < BufferSize (emConfig e) then (Sent, e\<lparr>eventChan := eventChan e @ [ev]\<rparr>)
      else (Waits, e))"

fun sender_sends :: "sender \<Rightarrow> 's emitter \<Rightarrow> sendResult \<times> 's emitter" where
  "sender_sends (Trying ev) e = emit_send ev e"
| "sender_sends (Blocked ev) e = wait_send ev e"
| "sender_sends (Timed ev) e = wait_send ev e"

definition send_timeout :: "sender \<Rightarrow> 's emitter \<Rightarrow> 's emitter option" where
  "send_timeout w e = (case w of Timed ev \<Rightarrow> Some (e\<lparr>eventsDropped := eventsDropped e + 1\<rparr>) | _ \<Rightarrow> None)"

definition send_gives_up :: "sender \<Rightarrow> 's emitter \<Rightarrow> bool" where
  "send_gives_up w e \<longleftrightarrow> emCancelled e \<and> (case w of Trying ev \<Rightarrow> False | _ \<Rightarrow> True)"

definition Emit :: "event \<Rightarrow> 's emitter \<Rightarrow> sendResult \<times> 's emitter" where
  "Emit ev e = (case emit_check ev e of None \<Rightarrow> (Rejected, e) | Some (ev', e') \<Rightarrow> emit_send ev' e')"

definition Subscribe :: "'s subscriber option \<Rightarrow> 's emitter \<Rightarrow> bool \<times> 's emitter" where
  "Subscribe sub e =
     (case sub of
        None \<Rightarrow> (False, e)
      | Some s \<Rightarrow>
          if sbID s = '''' \<or> map_of (subscribers e) (sbID s) \<noteq> None then (False, e)
          else (True, e\<lparr>subscribers := AList.update (sbID s) s (subscribers e)\<rparr>))"

definition Unsubscribe :: "string \<Rightarrow> 's emitter \<Rightarrow> bool \<times> 's emitter" where
  "Unsubscribe i e =
     (if map_of (subscribers e) i = None then (False, e)
      else (True, e\<lparr>subscribers := AList.delete i (subscribers e)\<rparr>))"

text \<open>A processing loop takes an event off the channel, and hands it to a worker when one is free. When the context is
  cancelled, a loop that waits for a worker ends with its event in hand, and one that waits for an event goes on to drain the
  channel.\<close>

definition drop_at :: "nat \<Rightarrow> 'a list \<Rightarrow> 'a list" where
  "drop_at i xs = take i xs @ drop (Suc i) xs"

definition at_loop :: "nat \<Rightarrow> 's emitter \<Rightarrow> emitLoop option" where
  "at_loop i e = (if i < length (emLoops e) then Some (emLoops e ! i) else None)"

definition take_event :: "nat \<Rightarrow> 's emitter \<Rightarrow> 's emitter option" where
  "take_event i e =
     (if at_loop i e = Some Selecting then
        (case eventChan e of
           ev # evs \<Rightarrow> Some (e\<lparr>eventChan := evs, emLoops := (emLoops e)[i := Holding ev]\<rparr>)
         | [] \<Rightarrow> if chanClosed e then Some (e\<lparr>emLoops := drop_at i (emLoops e)\<rparr>) else None)
      else None)"

definition assign_event :: "nat \<Rightarrow> 's emitter \<Rightarrow> 's emitter option" where
  "assign_event i e =
     (case at_loop i e of
        Some (Holding ev) \<Rightarrow>
          if length (inFlight e) < MaxWorkers (emConfig e)
          then Some (e\<lparr>emLoops := (emLoops e)[i := Selecting], inFlight := inFlight e @ [ev]\<rparr>) else None
      | _ \<Rightarrow> None)"

definition leave_loop :: "nat \<Rightarrow> 's emitter \<Rightarrow> (event \<times> 's emitter) option" where
  "leave_loop i e =
     (case at_loop i e of
        Some (Holding ev) \<Rightarrow> if emCancelled e then Some (ev, e\<lparr>emLoops := drop_at i (emLoops e)\<rparr>) else None
      | _ \<Rightarrow> None)"

definition begin_drain :: "nat \<Rightarrow> 's emitter \<Rightarrow> 's emitter option" where
  "begin_drain i e =
     (if at_loop i e = Some Selecting \<and> emCancelled e then Some (e\<lparr>emLoops := (emLoops e)[i := Draining]\<rparr>) else None)"

definition interested :: "event \<Rightarrow> 's subscriber \<Rightarrow> bool" where
  "interested ev s \<longleftrightarrow>
     (sbTypes s = [] \<or> evType ev \<in> set (sbTypes s)) \<and> (case sbFilter s of None \<Rightarrow> True | Some f \<Rightarrow> f ev)"

text \<open>A panic of a handler is recovered and counted.\<close>

definition notify :: "event \<Rightarrow> 's subscriber \<Rightarrow> 's emitter \<times> 's \<Rightarrow> 's emitter \<times> 's" where
  "notify ev s x =
     (case sbHandler s ev (snd x) of
        Some w \<Rightarrow> (fst x, w)
      | None \<Rightarrow> ((fst x)\<lparr>processingErrors := processingErrors (fst x) + 1\<rparr>, snd x))"

definition handleEvent :: "range_order \<Rightarrow> event \<Rightarrow> 's emitter \<times> 's \<Rightarrow> 's emitter \<times> 's" where
  "handleEvent ro ev x =
     fold (notify ev) (filter (interested ev) (map snd (range_map ro ''subscribers'' (subscribers (fst x)))))
       ((fst x)\<lparr>eventsProcessed := eventsProcessed (fst x) + 1\<rparr>, snd x)"

text \<open>A worker finishes the event it holds; any worker may be next. A draining loop handles events itself, until the channel is
  empty or five seconds are over.\<close>

definition finish_event :: "range_order \<Rightarrow> nat \<Rightarrow> 's emitter \<times> 's \<Rightarrow> ('s emitter \<times> 's) option" where
  "finish_event ro i x =
     (if i < length (inFlight (fst x))
      then Some (handleEvent ro (inFlight (fst x) ! i) ((fst x)\<lparr>inFlight := drop_at i (inFlight (fst x))\<rparr>, snd x))
      else None)"

definition drain_event :: "range_order \<Rightarrow> nat \<Rightarrow> 's emitter \<times> 's \<Rightarrow> ('s emitter \<times> 's) option" where
  "drain_event ro i x =
     (case (at_loop i (fst x), eventChan (fst x)) of
        (Some Draining, ev # evs) \<Rightarrow> Some (handleEvent ro ev ((fst x)\<lparr>eventChan := evs\<rparr>, snd x))
      | _ \<Rightarrow> None)"

definition end_drain :: "nat \<Rightarrow> 's emitter \<Rightarrow> 's emitter option" where
  "end_drain i e = (if at_loop i e = Some Draining then Some (e\<lparr>emLoops := drop_at i (emLoops e)\<rparr>) else None)"

definition GetMetrics :: "'s emitter \<Rightarrow> json" where
  "GetMetrics e = JObj [(''events_emitted'', JNum (uint (eventsEmitted e))),
     (''events_dropped'', JNum (uint (eventsDropped e))), (''events_processed'', JNum (uint (eventsProcessed e))),
     (''processing_errors'', JNum (uint (processingErrors e))), (''buffer_usage'', JNum (int (length (eventChan e)))),
     (''buffer_capacity'', JNum (int (BufferSize (emConfig e)))), (''subscribers'', JNum (int (length (subscribers e)))),
     (''running'', JBool (emRunning e))]"

section \<open>Helpers for common events\<close>

definition EmitEpochStarted :: "string \<Rightarrow> string \<Rightarrow> 's emitter \<Rightarrow> (sendResult \<times> 's emitter) prog" where
  "EmitEpochStarted component epochID e =
     Call Now (\<lambda>t.
     bindp (NewEvent ''epoch_started'' ''info'' component
       (JObj ([(''epoch_id'', JStr epochID)] @ omit_int ''start_time'' (int_of t)))) (\<lambda>ev.
     Ret (Emit (ev\<lparr>evEpochID := epochID\<rparr>) e)))"

definition EmitSubmissionReceived ::
  "string \<Rightarrow> submissionEventPayload \<Rightarrow> 's emitter \<Rightarrow> (sendResult \<times> 's emitter) prog" where
  "EmitSubmissionReceived component submission e =
     bindp (NewEvent ''submission_received'' ''info'' component (enc_submission_payload submission)) (\<lambda>ev.
     Ret (Emit (ev\<lparr>evEpochID := spEpochID submission, evSubmissionID := spSubmissionID submission\<rparr>) e))"

definition EmitQueueDepthChanged ::
  "string \<Rightarrow> string \<Rightarrow> int \<Rightarrow> int \<Rightarrow> 's emitter \<Rightarrow> (sendResult \<times> 's emitter) prog" where
  "EmitQueueDepthChanged component queueName currentDepth previousDepth e =
     (let level = alert_level currentDepth in
      bindp (NewEvent ''queue_depth_changed'' (queue_severity level) component
        (JObj ([(''queue_name'', JStr queueName), (''current_depth'', JNum currentDepth)] @
          omit_int ''previous_depth'' previousDepth @ [(''delta'', JNum (currentDepth - previousDepth))] @
          omit_str ''alert_level'' level))) (\<lambda>ev.
      Ret (Emit ev e)))"

definition EmitWorkerStatusChanged ::
  "golib \<Rightarrow> string \<Rightarrow> string \<Rightarrow> string \<Rightarrow> string \<Rightarrow> 's emitter \<Rightarrow> (sendResult \<times> 's emitter) prog" where
  "EmitWorkerStatusChanged L workerType workerID previousStatus currentStatus e =
     Call NowNano (\<lambda>t.
     bindp (NewEvent ''worker_status_changed'' (worker_severity currentStatus) ''worker''
       (JObj ([(''worker_type'', JStr workerType), (''worker_id'', JStr workerID)] @
         omit_str ''previous_status'' previousStatus @
         [(''current_status'', JStr currentStatus), (''last_activity'', JStr (TimeText L (int_of t)))]))) (\<lambda>ev.
     Ret (Emit (ev\<lparr>evWorkerID := workerID\<rparr>) e)))"

section \<open>The publisher\<close>

record publisher =
  pbPrefix :: string
  pbBatchSize :: nat
  pbBatching :: bool
  pbProtocol :: string
  pbDataMarket :: string
  pbBatch :: "event list"
  pbTimer :: bool
  pbPending :: "event list list"
  channelMap :: "(string, string) gomap"
  eventsPublished :: u64
  batchesPublished :: u64
  publishErrors :: u64
  pbRunning :: bool

definition initChannelMap :: "string \<Rightarrow> (string, string) gomap" where
  "initChannelMap prefix =
     [(''epoch_started'', prefix @ '':epoch''), (''epoch_completed'', prefix @ '':epoch''),
      (''submission_received'', prefix @ '':submission''), (''submission_validated'', prefix @ '':submission''),
      (''submission_rejected'', prefix @ '':submission''), (''window_opened'', prefix @ '':window''),
      (''window_closed'', prefix @ '':window''), (''finalization_started'', prefix @ '':finalization''),
      (''finalization_completed'', prefix @ '':finalization''), (''part_completed'', prefix @ '':finalization''),
      (''aggregation_level1_started'', prefix @ '':aggregation''),
      (''aggregation_level1_completed'', prefix @ '':aggregation''),
      (''aggregation_level2_started'', prefix @ '':aggregation''),
      (''aggregation_level2_completed'', prefix @ '':aggregation''),
      (''validator_batch_received'', prefix @ '':validator''), (''ipfs_storage_completed'', prefix @ '':storage''),
      (''queue_depth_changed'', prefix @ '':queue''), (''worker_status_changed'', prefix @ '':worker'')]"

definition NewPublisher :: "string \<Rightarrow> nat \<Rightarrow> bool \<Rightarrow> string \<Rightarrow> string \<Rightarrow> publisher" where
  "NewPublisher prefix batchSize batching protocol market =
     \<lparr>pbPrefix = prefix, pbBatchSize = batchSize, pbBatching = batching, pbProtocol = protocol, pbDataMarket = market,
      pbBatch = [], pbTimer = False, pbPending = [], channelMap = initChannelMap prefix, eventsPublished = 0,
      batchesPublished = 0, publishErrors = 0, pbRunning = False\<rparr>"

definition getChannel :: "publisher \<Rightarrow> string \<Rightarrow> string" where
  "getChannel p ty =
     (case map_of (channelMap p) ty of
        Some channel \<Rightarrow>
          if pbProtocol p \<noteq> '''' \<and> pbDataMarket p \<noteq> '''' then pbProtocol p @ '':'' @ pbDataMarket p @ '':'' @ channel
          else channel
      | None \<Rightarrow> pbPrefix p)"

definition publish_call :: "golib \<Rightarrow> publisher \<Rightarrow> event \<Rightarrow> call" where
  "publish_call L p ev = RPublish (getChannel p (evType ev)) (show_json (ToJSON L ev))"

definition publishSingle :: "golib \<Rightarrow> event \<Rightarrow> publisher \<Rightarrow> (bool \<times> publisher) prog" where
  "publishSingle L ev p =
     Call (publish_call L p ev) (\<lambda>r.
       if r = ErrR then Ret (False, p\<lparr>publishErrors := publishErrors p + 1\<rparr>)
       else Ret (True, p\<lparr>eventsPublished := eventsPublished p + 1\<rparr>))"

text \<open>The events by channel, in the order of the map of channels.\<close>

definition channel_events :: "publisher \<Rightarrow> event list \<Rightarrow> (string, event list) gomap" where
  "channel_events p evs =
     fold (\<lambda>ev m. AList.update (getChannel p (evType ev)) (mget [] m (getChannel p (evType ev)) @ [ev]) m) evs []"

definition PublishBatch :: "golib \<Rightarrow> range_order \<Rightarrow> event list \<Rightarrow> publisher \<Rightarrow> (bool \<times> publisher) prog" where
  "PublishBatch L ro evs p =
     (if \<not> pbRunning p then Ret (False, p)
      else
        Call (RPipe (concat (map (\<lambda>(c, es). map (\<lambda>ev. RPublish c (show_json (ToJSON L ev))) es)
          (range_map ro ''channelEvents'' (channel_events p evs))))) (\<lambda>r.
        if r = ErrR then Ret (False, p\<lparr>publishErrors := publishErrors p + 1\<rparr>)
        else Ret (True, p\<lparr>eventsPublished := eventsPublished p + of_nat (length evs),
               batchesPublished := batchesPublished p + 1\<rparr>)))"

definition flushBatchLocked :: "publisher \<Rightarrow> publisher" where
  "flushBatchLocked p =
     (if pbBatch p = [] then p else p\<lparr>pbBatch := [], pbTimer := False, pbPending := pbPending p @ [pbBatch p]\<rparr>)"

definition addToBatch :: "event \<Rightarrow> publisher \<Rightarrow> publisher" where
  "addToBatch ev p =
     (let p1 = p\<lparr>pbBatch := pbBatch p @ [ev], pbTimer := True\<rparr> in
      if pbBatchSize p1 \<le> length (pbBatch p1) then flushBatchLocked p1 else p1)"

definition Publish :: "golib \<Rightarrow> event \<Rightarrow> publisher \<Rightarrow> (bool \<times> publisher) prog" where
  "Publish L ev p =
     (if \<not> pbRunning p then Ret (False, p)
      else if pbBatching p then Ret (True, addToBatch ev p) else publishSingle L ev p)"

text \<open>A goroutine of a flush runs.\<close>

definition run_pending :: "golib \<Rightarrow> range_order \<Rightarrow> publisher \<Rightarrow> publisher prog" where
  "run_pending L ro p =
     (case pbPending p of
        [] \<Rightarrow> Ret p
      | evs # rest \<Rightarrow> bindp (PublishBatch L ro evs (p\<lparr>pbPending := rest\<rparr>)) (\<lambda>(ok, p'). Ret p'))"

definition Start_publisher :: "publisher \<Rightarrow> bool \<times> publisher" where
  "Start_publisher p = (if pbRunning p then (False, p) else (True, p\<lparr>pbRunning := True\<rparr>))"

text \<open>The goroutine of the last flush waits for the lock that \<open>Stop\<close> holds to its end.\<close>

definition Stop_publisher :: "publisher \<Rightarrow> bool \<times> publisher" where
  "Stop_publisher p =
     (if \<not> pbRunning p then (False, p)
      else
        let p1 = p\<lparr>pbRunning := False\<rparr> in
        (True, if pbBatching p1 then flushBatchLocked p1 else p1))"

definition subscribe_channels :: "publisher \<Rightarrow> string list \<Rightarrow> string list" where
  "subscribe_channels p types = (if types = [] then [pbPrefix p @ '':*''] else map (getChannel p) types)"

section \<open>Every event is accounted for\<close>

text \<open>Senders, the processing loops, the workers and stops, interleaved. Three lists tell what became of events: those given to
  \<open>Emit\<close> or \<open>EmitWithTimeout\<close> of a running emitter, those that a sender dropped, and those given up at the shutdown. Subscribers
  of the set \<open>others\<close> come and go; nobody takes out the one named \<open>keep\<close>. A send on the closed channel ends the process: it is no step.\<close>

record 's emitSystem =
  syEmitter :: "'s emitter"
  sySenders :: "sender list"
  syStops :: nat
  syWorld :: 's
  syEmitted :: "event list"
  syDropped :: "event list"
  syLost :: "event list"

inductive estep :: "range_order \<Rightarrow> 's subscriber set \<Rightarrow> string \<Rightarrow> 's emitSystem \<Rightarrow> 's emitSystem \<Rightarrow> bool" for ro others keep where
  es_start: "Start (syEmitter S) = (b, e) \<Longrightarrow> estep ro others keep S (S\<lparr>syEmitter := e\<rparr>)"
| es_stop: "begin_stop (syEmitter S) = Some e \<Longrightarrow> estep ro others keep S (S\<lparr>syEmitter := e, syStops := syStops S + 1\<rparr>)"
| es_close: "close_chan (syEmitter S) = Some e \<Longrightarrow> syStops S = Suc n \<Longrightarrow> estep ro others keep S (S\<lparr>syEmitter := e, syStops := n\<rparr>)"
| es_emit: "emit_check ev (syEmitter S) = Some (ev', e) \<Longrightarrow>
    estep ro others keep S (S\<lparr>syEmitter := e, sySenders := sySenders S @ [Trying ev'], syEmitted := syEmitted S @ [ev]\<rparr>)"
| es_emit_timed: "emit_check ev (syEmitter S) = Some (ev', e) \<Longrightarrow>
    estep ro others keep S (S\<lparr>syEmitter := e, sySenders := sySenders S @ [Timed ev'], syEmitted := syEmitted S @ [ev]\<rparr>)"
| es_sent: "sySenders S = us @ w # ws \<Longrightarrow> sender_sends w (syEmitter S) = (Sent, e) \<Longrightarrow>
    estep ro others keep S (S\<lparr>syEmitter := e, sySenders := us @ ws\<rparr>)"
| es_dropped: "sySenders S = us @ w # ws \<Longrightarrow> sender_sends w (syEmitter S) = (Dropped, e) \<Longrightarrow>
    estep ro others keep S (S\<lparr>syEmitter := e, sySenders := us @ ws, syDropped := syDropped S @ [sender_event w]\<rparr>)"
| es_waits: "sySenders S = us @ Trying ev # ws \<Longrightarrow> sender_sends (Trying ev) (syEmitter S) = (Waits, e) \<Longrightarrow>
    estep ro others keep S (S\<lparr>syEmitter := e, sySenders := us @ Blocked ev # ws\<rparr>)"
| es_timeout: "sySenders S = us @ w # ws \<Longrightarrow> send_timeout w (syEmitter S) = Some e \<Longrightarrow>
    estep ro others keep S (S\<lparr>syEmitter := e, sySenders := us @ ws, syDropped := syDropped S @ [sender_event w]\<rparr>)"
| es_gives_up: "sySenders S = us @ w # ws \<Longrightarrow> send_gives_up w (syEmitter S) \<Longrightarrow>
    estep ro others keep S (S\<lparr>sySenders := us @ ws, syLost := syLost S @ [sender_event w]\<rparr>)"
| es_take: "take_event i (syEmitter S) = Some e \<Longrightarrow> estep ro others keep S (S\<lparr>syEmitter := e\<rparr>)"
| es_assign: "assign_event i (syEmitter S) = Some e \<Longrightarrow> estep ro others keep S (S\<lparr>syEmitter := e\<rparr>)"
| es_leave: "leave_loop i (syEmitter S) = Some (ev, e) \<Longrightarrow> estep ro others keep S (S\<lparr>syEmitter := e, syLost := syLost S @ [ev]\<rparr>)"
| es_begin_drain: "begin_drain i (syEmitter S) = Some e \<Longrightarrow> estep ro others keep S (S\<lparr>syEmitter := e\<rparr>)"
| es_drain: "drain_event ro i (syEmitter S, syWorld S) = Some (e, x) \<Longrightarrow> estep ro others keep S (S\<lparr>syEmitter := e, syWorld := x\<rparr>)"
| es_end_drain: "end_drain i (syEmitter S) = Some e \<Longrightarrow> estep ro others keep S (S\<lparr>syEmitter := e\<rparr>)"
| es_finish: "finish_event ro i (syEmitter S, syWorld S) = Some (e, x) \<Longrightarrow> estep ro others keep S (S\<lparr>syEmitter := e, syWorld := x\<rparr>)"
| es_subscribe: "Subscribe (Some sub) (syEmitter S) = (b, e) \<Longrightarrow> sub \<in> others \<Longrightarrow> estep ro others keep S (S\<lparr>syEmitter := e\<rparr>)"
| es_unsubscribe: "Unsubscribe i (syEmitter S) = (b, e) \<Longrightarrow> i \<noteq> keep \<Longrightarrow> estep ro others keep S (S\<lparr>syEmitter := e\<rparr>)"

text \<open>A started emitter with one subscriber.\<close>

definition started_system :: "emitterConfig option \<Rightarrow> 's subscriber \<Rightarrow> 's \<Rightarrow> 's emitSystem" where
  "started_system cfg sub x = \<lparr>syEmitter = snd (Subscribe (Some sub) (snd (Start (NewEmitter cfg)))), sySenders = [], syStops = 0,
     syWorld = x, syEmitted = [], syDropped = [], syLost = []\<rparr>"

text \<open>The subscriber logs what it is called with, and the others leave that log alone.\<close>

definition logs :: "('s \<Rightarrow> event list) \<Rightarrow> 's subscriber \<Rightarrow> bool" where
  "logs lg sub \<longleftrightarrow> (\<forall>ev w. \<exists>w'. sbHandler sub ev w = Some w' \<and> lg w' = lg w @ [ev])"

definition quiet :: "('s \<Rightarrow> event list) \<Rightarrow> 's subscriber \<Rightarrow> bool" where
  "quiet lg sub \<longleftrightarrow> (\<forall>ev w w'. sbHandler sub ev w = Some w' \<longrightarrow> lg w' = lg w)"

text \<open>The events on their way: with a sender, in the channel, with a loop, with a worker.\<close>

fun loop_events :: "emitLoop \<Rightarrow> event list" where
  "loop_events (Holding ev) = [ev]"
| "loop_events _ = []"

definition under_way :: "'s emitSystem \<Rightarrow> event list" where
  "under_way S = map sender_event (sySenders S) @ eventChan (syEmitter S) @ concat (map loop_events (emLoops (syEmitter S))) @
     inFlight (syEmitter S)"

lemma drop_at_split: "i < length xs \<Longrightarrow> xs = take i xs @ xs ! i # drop (Suc i) xs"
  by (simp add: id_take_nth_drop)

lemma mset_drop_at: "i < length xs \<Longrightarrow> add_mset (xs ! i) (mset (drop_at i xs)) = mset xs"
  using arg_cong [OF drop_at_split, of i xs mset] by (simp add: drop_at_def)

lemma loop_change:
  assumes "at_loop i e = Some l"
  shows "mset (concat (map loop_events ((emLoops e)[i := l']))) + mset (loop_events l) =
      mset (concat (map loop_events (emLoops e))) + mset (loop_events l')"
    and "mset (concat (map loop_events (drop_at i (emLoops e)))) + mset (loop_events l) = mset (concat (map loop_events (emLoops e)))"
proof -
  have i: "i < length (emLoops e)" "emLoops e ! i = l" using assms by (simp_all add: at_loop_def split: if_splits)
  define us ws where "us = take i (emLoops e)" and "ws = drop (Suc i) (emLoops e)"
  have e: "emLoops e = us @ l # ws" "length us = i" using drop_at_split [OF i(1)] i by (simp_all add: us_def ws_def)
  show "mset (concat (map loop_events ((emLoops e)[i := l']))) + mset (loop_events l) =
      mset (concat (map loop_events (emLoops e))) + mset (loop_events l')"
    using e by (simp add: list_update_append)
  show "mset (concat (map loop_events (drop_at i (emLoops e)))) + mset (loop_events l) = mset (concat (map loop_events (emLoops e)))"
    using e by (simp add: drop_at_def)
qed

definition subscribed :: "'s subscriber set \<Rightarrow> 's subscriber \<Rightarrow> 's emitter \<Rightarrow> bool" where
  "subscribed others sub e \<longleftrightarrow> go_ok (subscribers e) \<and> map_of (subscribers e) (sbID sub) = Some sub \<and>
     (\<forall>k s. map_of (subscribers e) k = Some s \<longrightarrow> k \<noteq> sbID sub \<longrightarrow> s \<in> others)"

lemma subscribed_changes:
  "subscribed others sub e \<Longrightarrow> Subscribe (Some s) e = (b, e') \<Longrightarrow> s \<in> others \<Longrightarrow> subscribed others sub e'"
  "subscribed others sub e \<Longrightarrow> Unsubscribe i e = (b, e') \<Longrightarrow> i \<noteq> sbID sub \<Longrightarrow> subscribed others sub e'"
proof -
  show "subscribed others sub e'" if "subscribed others sub e" "Subscribe (Some s) e = (b, e')" "s \<in> others"
    using that by (auto simp: subscribed_def Subscribe_def gomap_simps split: if_splits)
  show "subscribed others sub e'" if "subscribed others sub e" "Unsubscribe i e = (b, e')" "i \<noteq> sbID sub"
    using that by (auto simp: subscribed_def Unsubscribe_def gomap_simps split: if_splits)
qed

text \<open>One call of the handlers: the loop and the buffers are as before, one more event is processed, and the log of the
  subscriber has grown by the event when it is interested.\<close>

lemma notify_frame:
  "\<exists>n w. fold (notify ev) ss (e, x) = (e\<lparr>processingErrors := n\<rparr>, w)"
proof (induction ss arbitrary: e x)
  case Nil
  show ?case by (auto intro: exI [of _ "processingErrors e"])
next
  case (Cons s ss)
  obtain n w where "notify ev s (e, x) = (e\<lparr>processingErrors := n\<rparr>, w)"
    by (cases "sbHandler s ev x") (auto simp: notify_def intro: that [of "processingErrors e"])
  then show ?case using Cons [of "e\<lparr>processingErrors := n\<rparr>" w] by auto
qed

lemma notify_log:
  assumes "logs lg sub" and "\<And>s. s \<in> others \<Longrightarrow> quiet lg s"
    and "distinct (map fst kss)" and "\<And>k s. (k, s) \<in> set kss \<Longrightarrow> k \<noteq> i \<Longrightarrow> s \<in> others" and "\<And>s. (i, s) \<in> set kss \<Longrightarrow> s = sub"
  shows "lg (snd (fold (notify ev) (filter (interested ev) (map snd kss)) x)) =
    lg (snd x) @ (if i \<in> fst ` set kss \<and> interested ev sub then [ev] else [])"
  using assms(3-5)
proof (induction kss arbitrary: x)
  case (Cons ks kss)
  obtain k s where ks: "ks = (k, s)" by fastforce
  have IH: "lg (snd (fold (notify ev) (filter (interested ev) (map snd kss)) y)) =
      lg (snd y) @ (if i \<in> fst ` set kss \<and> interested ev sub then [ev] else [])" for y
    using Cons.prems by (intro Cons.IH) auto
  show ?case
  proof (cases "k = i")
    case True
    then have "s = sub" "i \<notin> fst ` set kss" using Cons.prems(1,3) by (auto simp: ks)
    moreover obtain w' where "sbHandler sub ev (snd x) = Some w'" "lg w' = lg (snd x) @ [ev]"
      using assms(1) unfolding logs_def by blast
    then have "lg (snd (notify ev sub x)) = lg (snd x) @ [ev]" by (simp add: notify_def)
    ultimately show ?thesis using True by (auto simp: ks IH)
  next
    case False
    then have "quiet lg s" using Cons.prems(2) assms(2) by (auto simp: ks)
    then have "lg (snd (notify ev s x)) = lg (snd x)" by (auto simp: notify_def quiet_def split: option.split)
    then show ?thesis using False by (auto simp: ks IH)
  qed
qed simp

lemma handleEvent_effect:
  assumes "handleEvent ro ev (e, x) = (e', x')" and "logs lg sub" and "\<And>s. s \<in> others \<Longrightarrow> quiet lg s" and "subscribed others sub e"
  shows "\<exists>n. e' = e\<lparr>eventsProcessed := eventsProcessed e + 1, processingErrors := n\<rparr>"
    and "lg x' = lg x @ (if interested ev sub then [ev] else [])"
proof -
  let ?r = "range_map ro ''subscribers'' (subscribers e)"
  have h: "(e', x') = fold (notify ev) (filter (interested ev) (map snd ?r)) (e\<lparr>eventsProcessed := eventsProcessed e + 1\<rparr>, x)"
    using assms(1) by (simp add: handleEvent_def)
  then show "\<exists>n. e' = e\<lparr>eventsProcessed := eventsProcessed e + 1, processingErrors := n\<rparr>"
    using notify_frame [of ev _ "e\<lparr>eventsProcessed := eventsProcessed e + 1\<rparr>" x] by (metis prod.inject)
  have g: "go_ok (subscribers e)" "map_of (subscribers e) (sbID sub) = Some sub" using assms(4) by (simp_all add: subscribed_def)
  have r: "set ?r = set (subscribers e)" using set_range_map [OF g(1)] .
  have one: "s = sub" if "(sbID sub, s) \<in> set ?r" for s using that g by (simp add: r go_ok_def)
  have others: "s \<in> others" if "(k, s) \<in> set ?r" "k \<noteq> sbID sub" for k s using that assms(4) g(1) by (auto simp: r subscribed_def go_ok_def)
  have "distinct (map fst ?r)" using go_ok_range_map [OF g(1)] by (simp add: go_ok_def)
  from notify_log [OF assms(2,3) this others one, where ev = ev and x = "(e\<lparr>eventsProcessed := eventsProcessed e + 1\<rparr>, x)"]
  have "lg x' = lg x @ (if sbID sub \<in> fst ` set ?r \<and> interested ev sub then [ev] else [])"
    unfolding h [symmetric] by simp
  moreover have "sbID sub \<in> fst ` set ?r" unfolding r using map_of_SomeD [OF g(2)] by force
  ultimately show "lg x' = lg x @ (if interested ev sub then [ev] else [])" by simp
qed

text \<open>What holds all the time.\<close>

definition conserved :: "emitterConfig \<Rightarrow> 's subscriber set \<Rightarrow> 's subscriber \<Rightarrow> ('s \<Rightarrow> event list) \<Rightarrow> 's emitSystem \<Rightarrow> bool" where
  "conserved c others sub lg S \<longleftrightarrow>
     emConfig (syEmitter S) = c \<and> subscribed others sub (syEmitter S) \<and>
     filter_mset (\<lambda>ev. interested ev sub) (mset (map (fill_event c) (syEmitted S))) =
       filter_mset (\<lambda>ev. interested ev sub) (mset (under_way S) + mset (syDropped S) + mset (syLost S)) + mset (lg (syWorld S)) \<and>
     eventsEmitted (syEmitter S) = of_nat (length (syEmitted S)) \<and> eventsDropped (syEmitter S) = of_nat (length (syDropped S)) \<and>
     eventsEmitted (syEmitter S) = of_nat (length (under_way S)) + eventsDropped (syEmitter S) + eventsProcessed (syEmitter S) +
       of_nat (length (syLost S)) \<and>
     (syLost S \<noteq> [] \<longrightarrow> emCancelled (syEmitter S)) \<and>
     length (eventChan (syEmitter S)) \<le> BufferSize c \<and> length (inFlight (syEmitter S)) \<le> MaxWorkers c"

text \<open>What one step does: the events that it emits, drops, loses and has handled.\<close>

definition ledger :: "emitterConfig \<Rightarrow> 's subscriber set \<Rightarrow> 's subscriber \<Rightarrow> ('s \<Rightarrow> event list) \<Rightarrow> 's emitSystem \<Rightarrow> 's emitSystem \<Rightarrow>
    event list \<Rightarrow> event list \<Rightarrow> event list \<Rightarrow> event list \<Rightarrow> bool" where
  "ledger c others sub lg S S' E D L H \<longleftrightarrow>
     emConfig (syEmitter S') = c \<and> subscribed others sub (syEmitter S') \<and>
     syEmitted S' = syEmitted S @ E \<and> syDropped S' = syDropped S @ D \<and> syLost S' = syLost S @ L \<and>
     mset (under_way S') + mset D + mset L + mset H = mset (under_way S) + mset (map (fill_event c) E) \<and>
     lg (syWorld S') = lg (syWorld S) @ filter (\<lambda>ev. interested ev sub) H \<and>
     eventsEmitted (syEmitter S') = eventsEmitted (syEmitter S) + of_nat (length E) \<and>
     eventsDropped (syEmitter S') = eventsDropped (syEmitter S) + of_nat (length D) \<and>
     eventsProcessed (syEmitter S') = eventsProcessed (syEmitter S) + of_nat (length H) \<and>
     (emCancelled (syEmitter S) \<longrightarrow> emCancelled (syEmitter S')) \<and> (L \<noteq> [] \<longrightarrow> emCancelled (syEmitter S)) \<and>
     length (eventChan (syEmitter S')) \<le> BufferSize c \<and> length (inFlight (syEmitter S')) \<le> MaxWorkers c"

lemma ledger_conserved:
  assumes "ledger c others sub lg S S' E D L H" and "conserved c others sub lg S"
  shows "conserved c others sub lg S'"
proof -
  note l = assms(1) [unfolded ledger_def] and i = assms(2) [unfolded conserved_def]
  have m: "mset (under_way S') + mset D + mset L + mset H = mset (under_way S) + mset (map (fill_event c) E)" using l by blast
  have n: "length (under_way S') + length D + length L + length H = length (under_way S) + length E"
    using arg_cong [OF m, of size] by simp
  then have w: "(of_nat (length (under_way S')) + of_nat (length D) + of_nat (length L) + of_nat (length H) :: u64) =
      of_nat (length (under_way S)) + of_nat (length E)" by (metis of_nat_add)
  have grown: "syEmitted S' = syEmitted S @ E" "syDropped S' = syDropped S @ D" "syLost S' = syLost S @ L"
    "eventsEmitted (syEmitter S') = eventsEmitted (syEmitter S) + of_nat (length E)"
    "eventsDropped (syEmitter S') = eventsDropped (syEmitter S) + of_nat (length D)"
    "eventsProcessed (syEmitter S') = eventsProcessed (syEmitter S) + of_nat (length H)"
    "lg (syWorld S') = lg (syWorld S) @ filter (\<lambda>ev. interested ev sub) H"
    and lost1: "emCancelled (syEmitter S) \<longrightarrow> emCancelled (syEmitter S')" "L \<noteq> [] \<longrightarrow> emCancelled (syEmitter S)" using l by blast+
  have count0: "eventsEmitted (syEmitter S) = of_nat (length (syEmitted S))" "eventsDropped (syEmitter S) = of_nat (length (syDropped S))"
    and total0: "eventsEmitted (syEmitter S) = of_nat (length (under_way S)) + eventsDropped (syEmitter S) + eventsProcessed (syEmitter S) +
       of_nat (length (syLost S))" and lost0: "syLost S \<noteq> [] \<longrightarrow> emCancelled (syEmitter S)"
    and events0: "filter_mset (\<lambda>ev. interested ev sub) (mset (map (fill_event c) (syEmitted S))) =
       filter_mset (\<lambda>ev. interested ev sub) (mset (under_way S) + mset (syDropped S) + mset (syLost S)) + mset (lg (syWorld S))"
    using i by blast+
  have "eventsEmitted (syEmitter S') = of_nat (length (under_way S)) + eventsDropped (syEmitter S) + eventsProcessed (syEmitter S) +
      of_nat (length (syLost S)) + of_nat (length E)" unfolding grown(4) total0 ..
  also have "\<dots> = (of_nat (length (under_way S)) + of_nat (length E)) + (eventsDropped (syEmitter S) + eventsProcessed (syEmitter S) +
      of_nat (length (syLost S)))" by simp
  also have "\<dots> = of_nat (length (under_way S')) + (eventsDropped (syEmitter S) + of_nat (length D)) +
      (eventsProcessed (syEmitter S) + of_nat (length H)) + (of_nat (length (syLost S)) + of_nat (length L))"
    unfolding w [symmetric] by simp
  also have "\<dots> = of_nat (length (under_way S')) + eventsDropped (syEmitter S') + eventsProcessed (syEmitter S') +
      of_nat (length (syLost S'))" unfolding grown by simp
  finally have counts: "eventsEmitted (syEmitter S') = of_nat (length (under_way S')) + eventsDropped (syEmitter S') +
      eventsProcessed (syEmitter S') + of_nat (length (syLost S'))" .
  let ?f = "filter_mset (\<lambda>ev. interested ev sub)"
  have "?f (mset (map (fill_event c) (syEmitted S'))) = ?f (mset (map (fill_event c) (syEmitted S))) + ?f (mset (map (fill_event c) E))"
    unfolding grown by simp
  also have "\<dots> = ?f (mset (under_way S) + mset (map (fill_event c) E)) + ?f (mset (syDropped S) + mset (syLost S)) + mset (lg (syWorld S))"
    unfolding events0 by simp
  also have "\<dots> = ?f (mset (under_way S') + mset D + mset L + mset H) + ?f (mset (syDropped S) + mset (syLost S)) + mset (lg (syWorld S))"
    unfolding m ..
  also have "\<dots> = ?f (mset (under_way S') + mset (syDropped S') + mset (syLost S')) + mset (lg (syWorld S'))"
    unfolding grown by (simp add: mset_filter)
  finally have events: "?f (mset (map (fill_event c) (syEmitted S'))) =
      ?f (mset (under_way S') + mset (syDropped S') + mset (syLost S')) + mset (lg (syWorld S'))" .
  have "eventsEmitted (syEmitter S') = of_nat (length (syEmitted S'))" "eventsDropped (syEmitter S') = of_nat (length (syDropped S'))"
    by (simp_all add: grown count0)
  moreover have "syLost S' \<noteq> [] \<longrightarrow> emCancelled (syEmitter S')" using lost0 lost1 by (auto simp: grown)
  moreover have "emConfig (syEmitter S') = c" "subscribed others sub (syEmitter S')"
    "length (eventChan (syEmitter S')) \<le> BufferSize c" "length (inFlight (syEmitter S')) \<le> MaxWorkers c"
    using l by blast+
  moreover note counts events
  ultimately show ?thesis unfolding conserved_def by blast
qed

lemma step_ledger:
  assumes "estep ro others (sbID sub) S S'" and "conserved c others sub lg S"
    and "logs lg sub" and "\<And>s. s \<in> others \<Longrightarrow> quiet lg s"
  shows "\<exists>E D L H. ledger c others sub lg S S' E D L H"
proof -
  have c: "emConfig (syEmitter S) = c" "subscribed others sub (syEmitter S)" "length (eventChan (syEmitter S)) \<le> BufferSize c"
    "length (inFlight (syEmitter S)) \<le> MaxWorkers c" using assms(2) by (simp_all add: conserved_def)
  show ?thesis
    using assms(1)
  proof cases
    case (es_start b e)
    then have "ledger c others sub lg S S' [] [] [] []" using c
      by (auto simp: ledger_def Start_def under_way_def subscribed_def split: if_splits)
    then show ?thesis by blast
  next
    case (es_stop e)
    then have "ledger c others sub lg S S' [] [] [] []" using c
      by (auto simp: ledger_def begin_stop_def under_way_def subscribed_def split: if_splits)
    then show ?thesis by blast
  next
    case (es_close e n)
    then have "ledger c others sub lg S S' [] [] [] []" using c
      by (auto simp: ledger_def close_chan_def under_way_def subscribed_def split: if_splits)
    then show ?thesis by blast
  next
    case (es_emit ev ev' e)
    then have "ledger c others sub lg S S' [ev] [] [] []" using c
      by (auto simp: ledger_def emit_check_def under_way_def subscribed_def split: if_splits)
    then show ?thesis by blast
  next
    case (es_emit_timed ev ev' e)
    then have "ledger c others sub lg S S' [ev] [] [] []" using c
      by (auto simp: ledger_def emit_check_def under_way_def subscribed_def split: if_splits)
    then show ?thesis by blast
  next
    case (es_sent us w ws e)
    then have "ledger c others sub lg S S' [] [] [] []" using c
      by (cases w) (auto simp: ledger_def emit_send_def wait_send_def under_way_def subscribed_def split: if_splits)
    then show ?thesis by blast
  next
    case (es_dropped us w ws e)
    then have "ledger c others sub lg S S' [] [sender_event w] [] []" using c
      by (cases w) (auto simp: ledger_def emit_send_def wait_send_def under_way_def subscribed_def split: if_splits)
    then show ?thesis by blast
  next
    case (es_waits us ev ws e)
    then have "ledger c others sub lg S S' [] [] [] []" using c
      by (auto simp: ledger_def emit_send_def under_way_def subscribed_def split: if_splits)
    then show ?thesis by blast
  next
    case (es_timeout us w ws e)
    then have "ledger c others sub lg S S' [] [sender_event w] [] []" using c
      by (cases w) (auto simp: ledger_def send_timeout_def under_way_def subscribed_def)
    then show ?thesis by blast
  next
    case (es_gives_up us w ws)
    then have "ledger c others sub lg S S' [] [] [sender_event w] []" using c
      by (auto simp: ledger_def send_gives_up_def under_way_def subscribed_def)
    then show ?thesis by blast
  next
    case (es_take i e)
    then have l: "at_loop i (syEmitter S) = Some Selecting" by (simp add: take_event_def split: if_splits)
    have "ledger c others sub lg S S' [] [] [] []" using es_take c loop_change [OF l]
      by (auto simp: ledger_def take_event_def under_way_def subscribed_def split: if_splits list.splits)
    then show ?thesis by blast
  next
    case (es_assign i e)
    then obtain ev where l: "at_loop i (syEmitter S) = Some (Holding ev)" by (auto simp: assign_event_def split: option.splits emitLoop.splits)
    have "ledger c others sub lg S S' [] [] [] []" using es_assign c loop_change(1) [OF l, of Selecting]
      by (auto simp: ledger_def assign_event_def l under_way_def subscribed_def split: if_splits)
    then show ?thesis by blast
  next
    case (es_leave i ev e)
    then have l: "at_loop i (syEmitter S) = Some (Holding ev)" by (auto simp: leave_loop_def split: option.splits emitLoop.splits if_splits)
    have "ledger c others sub lg S S' [] [] [ev] []" using es_leave c loop_change(2) [OF l]
      by (auto simp: ledger_def leave_loop_def l under_way_def subscribed_def split: if_splits)
    then show ?thesis by blast
  next
    case (es_begin_drain i e)
    then have l: "at_loop i (syEmitter S) = Some Selecting" by (simp add: begin_drain_def split: if_splits)
    have "ledger c others sub lg S S' [] [] [] []" using es_begin_drain c loop_change(1) [OF l, of Draining]
      by (auto simp: ledger_def begin_drain_def under_way_def subscribed_def split: if_splits)
    then show ?thesis by blast
  next
    case (es_end_drain i e)
    then have l: "at_loop i (syEmitter S) = Some Draining" by (simp add: end_drain_def split: if_splits)
    have "ledger c others sub lg S S' [] [] [] []" using es_end_drain c loop_change(2) [OF l]
      by (auto simp: ledger_def end_drain_def under_way_def subscribed_def split: if_splits)
    then show ?thesis by blast
  next
    case (es_drain i e x)
    then obtain ev evs where d: "eventChan (syEmitter S) = ev # evs" "handleEvent ro ev ((syEmitter S)\<lparr>eventChan := evs\<rparr>, syWorld S) = (e, x)"
      by (auto simp: drain_event_def split: option.splits emitLoop.splits list.splits)
    have "subscribed others sub ((syEmitter S)\<lparr>eventChan := evs\<rparr>)" using c by (simp add: subscribed_def)
    note h = handleEvent_effect [OF d(2) assms(3,4) this]
    have "ledger c others sub lg S S' [] [] [] [ev]" using c h d(1) es_drain(1)
      by (auto simp: ledger_def under_way_def subscribed_def)
    then show ?thesis by blast
  next
    case (es_finish i e x)
    then have i: "i < length (inFlight (syEmitter S))" and d: "handleEvent ro (inFlight (syEmitter S) ! i)
        ((syEmitter S)\<lparr>inFlight := drop_at i (inFlight (syEmitter S))\<rparr>, syWorld S) = (e, x)"
      by (auto simp: finish_event_def split: if_splits)
    have "subscribed others sub ((syEmitter S)\<lparr>inFlight := drop_at i (inFlight (syEmitter S))\<rparr>)" using c by (simp add: subscribed_def)
    note h = handleEvent_effect [OF d assms(3,4) this]
    have "length (drop_at i (inFlight (syEmitter S))) \<le> length (inFlight (syEmitter S))" by (simp add: drop_at_def)
    then have "ledger c others sub lg S S' [] [] [] [inFlight (syEmitter S) ! i]" using c h mset_drop_at [OF i] es_finish(1)
      by (auto simp: ledger_def under_way_def subscribed_def simp del: add_mset_add_single)
    then show ?thesis by blast
  next
    case (es_subscribe s b e)
    have "ledger c others sub lg S S' [] [] [] []" using es_subscribe c subscribed_changes(1) [OF c(2) es_subscribe(2,3)]
      by (auto simp: ledger_def Subscribe_def under_way_def split: if_splits)
    then show ?thesis by blast
  next
    case (es_unsubscribe i b e)
    have "ledger c others sub lg S S' [] [] [] []" using es_unsubscribe c subscribed_changes(2) [OF c(2) es_unsubscribe(2,3)]
      by (auto simp: ledger_def Unsubscribe_def under_way_def split: if_splits)
    then show ?thesis by blast
  qed
qed

text \<open>C34. No event vanishes unnoticed. Whatever senders with and without timeout, processing loops, workers, stops and restarts do,
  in whatever order, a subscriber that stays is called exactly once with each event that interests it and was given to the running
  emitter (with the emitter's names filled in), except for those that were dropped, given up at the shutdown, or are still under way:
  with a sender, in the channel, with a loop or a worker. The dropped ones are counted, the given up ones are not, and there are none
  of these before the emitter is stopped; the processed ones are all the others (modulo \<open>2 ^ 64\<close>); and the channel and the workers
  never hold more than their configured sizes. (The handler of the subscriber logs what it is called with and does not panic.)\<close>

theorem emitted_events_accounted_for:
  fixes lg :: "'s \<Rightarrow> event list"
  assumes "logs lg sub" and "\<And>s. s \<in> others \<Longrightarrow> quiet lg s" and "sbID sub \<noteq> []" and "lg x = []"
    and "(estep ro others (sbID sub))\<^sup>*\<^sup>* (started_system cfg sub x) S"
    and "c = (case cfg of None \<Rightarrow> DefaultConfig | Some c \<Rightarrow> c)" and "e = syEmitter S"
  shows "{# ev \<in># mset (map (fill_event c) (syEmitted S)). interested ev sub #} =
      {# ev \<in># mset (under_way S) + mset (syDropped S) + mset (syLost S). interested ev sub #} + mset (lg (syWorld S)) \<and>
    eventsEmitted e = of_nat (length (syEmitted S)) \<and> eventsDropped e = of_nat (length (syDropped S)) \<and>
    eventsEmitted e = of_nat (length (under_way S)) + eventsDropped e + eventsProcessed e + of_nat (length (syLost S)) \<and>
    (\<not> emCancelled e \<longrightarrow> syLost S = []) \<and>
    length (eventChan e) \<le> BufferSize c \<and> length (inFlight e) \<le> MaxWorkers c"
proof -
  have "conserved c others sub lg S" using assms(5)
  proof (induction rule: rtranclp_induct)
    case base
    show ?case using assms(3,4)
      by (auto simp: conserved_def started_system_def subscribed_def Subscribe_def Start_def NewEmitter_def under_way_def assms(6) go_ok_def)
  next
    case (step S S')
    then show ?case using step_ledger [OF step.hyps(2) step.IH assms(1,2)] ledger_conserved by blast
  qed
  then show ?thesis by (auto simp: conserved_def assms(7))
qed
definition demo_log :: "event list subscriber" where
  "demo_log = \<lparr>sbID = ''log'', sbHandler = (\<lambda>ev w. Some (w @ [ev])), sbFilter = None, sbTypes = []\<rparr>"

text \<open>A buffer of one: the first event is sent, the second dropped, the third waits until the emitter is stopped.\<close>

definition demo_event :: "string \<Rightarrow> event" where
  "demo_event i = zero_event\<lparr>evID := i\<rparr>"

definition demo_state :: "event list \<Rightarrow> emitLoop \<Rightarrow> event list \<Rightarrow> u64 \<Rightarrow> u64 \<Rightarrow> u64 \<Rightarrow> bool \<Rightarrow> sender list \<Rightarrow> nat \<Rightarrow> event list \<Rightarrow>
    string list \<Rightarrow> event list \<Rightarrow> event list \<Rightarrow> event list emitSystem" where
  "demo_state ch lp fl n d k stopped ws stops lg em dr lo =
     \<lparr>syEmitter = \<lparr>emConfig = DefaultConfig\<lparr>BufferSize := 1\<rparr>, eventChan = ch, chanClosed = False, subscribers = [(''log'', demo_log)],
        emLoops = [lp], inFlight = fl, eventsEmitted = n, eventsDropped = d, eventsProcessed = k, processingErrors = 0,
        emRunning = \<not> stopped, emCancelled = stopped\<rparr>,
      sySenders = ws, syStops = stops, syWorld = lg, syEmitted = map demo_event em, syDropped = dr, syLost = lo\<rparr>"

lemma demo_fill: "fill_event (DefaultConfig\<lparr>BufferSize := n\<rparr>) (demo_event i) = demo_event i"
  by (simp add: fill_event_def demo_event_def zero_event_def DefaultConfig_def)

lemma demo_emit_run:
  "(estep in_order {} ''log'')\<^sup>*\<^sup>* (started_system (Some (DefaultConfig\<lparr>BufferSize := 1\<rparr>)) demo_log [])
     (demo_state [] Selecting [] 3 1 1 True [] 1 [demo_event ''a''] [''a'', ''b'', ''c''] [demo_event ''b''] [demo_event ''c''])"
proof -
  let ?a = "demo_event ''a''" and ?b = "demo_event ''b''" and ?c = "demo_event ''c''"
  note defs = demo_state_def emit_check_def emit_send_def demo_fill take_event_def at_loop_def assign_event_def finish_event_def
    handleEvent_def notify_def interested_def demo_log_def drop_at_def begin_stop_def send_gives_up_def
  have start: "started_system (Some (DefaultConfig\<lparr>BufferSize := 1\<rparr>)) demo_log [] = demo_state [] Selecting [] 0 0 0 False [] 0 [] [] [] []"
    by (simp add: started_system_def Start_def NewEmitter_def Subscribe_def demo_state_def demo_log_def)
  let ?R = "estep in_order {} ''log''"
  have "?R (demo_state [] Selecting [] 0 0 0 False [] 0 [] [] [] []) (demo_state [] Selecting [] 1 0 0 False [Trying ?a] 0 [] [''a''] [] [])"
    using es_emit [of ?a "demo_state [] Selecting [] 0 0 0 False [] 0 [] [] [] []"] by (simp add: defs)
  moreover have "?R \<dots> (demo_state [?a] Selecting [] 1 0 0 False [] 0 [] [''a''] [] [])"
    using es_sent [of "demo_state [] Selecting [] 1 0 0 False [Trying ?a] 0 [] [''a''] [] []" "[]"] by (simp add: defs)
  moreover have "?R \<dots> (demo_state [?a] Selecting [] 2 0 0 False [Trying ?b] 0 [] [''a'', ''b''] [] [])"
    using es_emit [of ?b "demo_state [?a] Selecting [] 1 0 0 False [] 0 [] [''a''] [] []"] by (simp add: defs)
  moreover have "?R \<dots> (demo_state [?a] Selecting [] 2 1 0 False [] 0 [] [''a'', ''b''] [?b] [])"
    using es_dropped [of "demo_state [?a] Selecting [] 2 0 0 False [Trying ?b] 0 [] [''a'', ''b''] [] []" "[]" "Trying ?b" "[]"]
    by (simp add: defs DefaultConfig_def)
  moreover have "?R \<dots> (demo_state [] (Holding ?a) [] 2 1 0 False [] 0 [] [''a'', ''b''] [?b] [])"
    using es_take [of 0 "demo_state [?a] Selecting [] 2 1 0 False [] 0 [] [''a'', ''b''] [?b] []"] by (simp add: defs)
  moreover have "?R \<dots> (demo_state [] Selecting [?a] 2 1 0 False [] 0 [] [''a'', ''b''] [?b] [])"
    using es_assign [of 0 "demo_state [] (Holding ?a) [] 2 1 0 False [] 0 [] [''a'', ''b''] [?b] []"] by (simp add: defs DefaultConfig_def)
  moreover have "?R \<dots> (demo_state [] Selecting [] 2 1 1 False [] 0 [?a] [''a'', ''b''] [?b] [])"
    using es_finish [of in_order 0 "demo_state [] Selecting [?a] 2 1 0 False [] 0 [] [''a'', ''b''] [?b] []"] by (simp add: defs range_map_def)
  moreover have "?R \<dots> (demo_state [] Selecting [] 3 1 1 False [Timed ?c] 0 [?a] [''a'', ''b'', ''c''] [?b] [])"
    using es_emit_timed [of ?c "demo_state [] Selecting [] 2 1 1 False [] 0 [?a] [''a'', ''b''] [?b] []"] by (simp add: defs)
  moreover have "?R \<dots> (demo_state [] Selecting [] 3 1 1 True [Timed ?c] 1 [?a] [''a'', ''b'', ''c''] [?b] [])"
    using es_stop [of "demo_state [] Selecting [] 3 1 1 False [Timed ?c] 0 [?a] [''a'', ''b'', ''c''] [?b] []"] by (simp add: defs)
  moreover have "?R \<dots> (demo_state [] Selecting [] 3 1 1 True [] 1 [?a] [''a'', ''b'', ''c''] [?b] [?c])"
    using es_gives_up [of "demo_state [] Selecting [] 3 1 1 True [Timed ?c] 1 [?a] [''a'', ''b'', ''c''] [?b] []" "[]" "Timed ?c" "[]"]
    by (simp add: defs)
  ultimately show ?thesis unfolding start by (meson converse_rtranclp_into_rtranclp rtranclp.rtrancl_refl)
qed

theorem emitted_events_accounted_for_witness:
  "\<exists>S. (estep in_order {} ''log'')\<^sup>*\<^sup>* (started_system (Some (DefaultConfig\<lparr>BufferSize := 1\<rparr>)) demo_log []) S \<and> syWorld S = [demo_event ''a''] \<and>
     syDropped S = [demo_event ''b''] \<and> syLost S = [demo_event ''c''] \<and>
     eventsEmitted (syEmitter S) = of_nat (length (under_way S)) + eventsDropped (syEmitter S) + eventsProcessed (syEmitter S) + 1"
proof -
  let ?S = "demo_state [] Selecting [] 3 1 1 True [] 1 [demo_event ''a''] [''a'', ''b'', ''c''] [demo_event ''b''] [demo_event ''c'']"
  have l: "logs id demo_log" "sbID demo_log = ''log''" by (simp_all add: logs_def demo_log_def)
  have S: "syWorld ?S = [demo_event ''a'']" "syDropped ?S = [demo_event ''b'']" "syLost ?S = [demo_event ''c'']"
    by (simp_all add: demo_state_def)
  have "eventsEmitted (syEmitter ?S) = of_nat (length (under_way ?S)) + eventsDropped (syEmitter ?S) + eventsProcessed (syEmitter ?S) +
      of_nat (length (syLost ?S))"
    by (rule emitted_events_accounted_for [OF l(1) _ _ _ demo_emit_run [folded l(2)] refl refl, THEN conjunct2, THEN conjunct2,
        THEN conjunct2, THEN conjunct1]) (simp_all add: l(2))
  moreover have "length (syLost ?S) = 1" unfolding S by simp
  ultimately show ?thesis using demo_emit_run S by (intro exI [of _ ?S]) simp
qed

text \<open>Stopping the emitter makes its senders panic: one that passed the check before the stop sends on the closed
  channel; and an emitter that is started again accepts events and panics on each, as on its next stop.\<close>

theorem stopped_emitter_panics:
  assumes "emRunning e" and "\<not> chanClosed e"
  shows "\<exists>e1. Stop e = Some (True, e1) \<and> fst (Emit ev (snd (Start e1))) = SendPanics \<and> Stop (snd (Start e1)) = None \<and>
    (\<exists>ev' e'. emit_check ev e = Some (ev', e') \<and> (\<exists>e2. Stop e' = Some (True, e2) \<and> fst (emit_send ev' e2) = SendPanics))"
  using assms by (auto simp: Emit_def emit_check_def emit_send_def Start_def Stop_def begin_stop_def close_chan_def)

theorem stopped_emitter_panics_witness:
  "\<exists>e1. Stop (snd (Start (NewEmitter None :: unit emitter))) = Some (True, e1) \<and> fst (Emit zero_event (snd (Start e1))) = SendPanics"
  using stopped_emitter_panics [of "snd (Start (NewEmitter None :: unit emitter))" zero_event]
  by (auto simp: Start_def NewEmitter_def)

section \<open>What is published\<close>

lemma channel_events_fold:
  "go_ok m \<Longrightarrow> go_ok (fold (\<lambda>ev m. AList.update (f ev) (mget [] m (f ev) @ [ev]) m) evs m) \<and>
   (\<forall>c. mget [] (fold (\<lambda>ev m. AList.update (f ev) (mget [] m (f ev) @ [ev]) m) evs m) c =
     mget [] m c @ filter (\<lambda>ev. f ev = c) evs)"
  by (induction evs arbitrary: m) (auto simp: mget_def gomap_simps)

lemma channel_messages:
  assumes "go_ok m"
  shows "filter (\<lambda>x. fst x = c) (concat (map (\<lambda>(c, es). map (\<lambda>ev. (c, g ev)) es) m)) = map (\<lambda>ev. (c, g ev)) (mget [] m c)"
  using assms
proof (induction m)
  case (Cons x m)
  obtain k es where x: "x = (k, es)" by fastforce
  have "map_of m k = None" using Cons.prems by (simp add: go_ok_def x map_of_eq_None_iff)
  with Cons show ?case by (auto simp: x go_ok_def mget_def filter_map comp_def)
qed (simp add: mget_def)

text \<open>A batch is published whole: its one pipeline sends to each channel exactly the messages of the batch's events
  of that channel, in their order, whatever order the channels are visited in.\<close>

theorem batch_published_by_channel:
  assumes "pbRunning p"
  shows "\<exists>ms. trace R (PublishBatch L ro evs p) s = [RPipe (map (\<lambda>(c, m). RPublish c m) ms)] \<and>
    (\<forall>c. filter (\<lambda>x. fst x = c) ms =
      map (\<lambda>ev. (c, show_json (ToJSON L ev))) (filter (\<lambda>ev. getChannel p (evType ev) = c) evs))"
proof -
  let ?m = "channel_events p evs"
  let ?r = "range_map ro ''channelEvents'' ?m"
  let ?ms = "concat (map (\<lambda>(c, es). map (\<lambda>ev. (c, show_json (ToJSON L ev))) es) ?r)"
  have m: "go_ok ?m" "\<forall>c. mget [] ?m c = filter (\<lambda>ev. getChannel p (evType ev) = c) evs"
    using channel_events_fold [of "[]" "\<lambda>ev. getChannel p (evType ev)" evs]
    by (simp_all add: channel_events_def mget_def)
  have "mget [] ?r = mget [] ?m" using map_of_range_map [OF m(1)] by (simp add: mget_def fun_eq_iff)
  then have r: "mget [] ?r c = filter (\<lambda>ev. getChannel p (evType ev) = c) evs" for c using m(2) by simp
  have "filter (\<lambda>x. fst x = c) ?ms =
      map (\<lambda>ev. (c, show_json (ToJSON L ev))) (filter (\<lambda>ev. getChannel p (evType ev) = c) evs)" for c
    unfolding channel_messages [OF go_ok_range_map [OF m(1)]] r ..
  moreover have "map (\<lambda>(c, m). RPublish c m) ?ms =
      concat (map (\<lambda>(c, es). map (\<lambda>ev. RPublish c (show_json (ToJSON L ev))) es) ?r)"
    by (simp add: map_concat comp_def case_prod_unfold)
  ultimately show ?thesis using assms by (auto simp: PublishBatch_def trace_Call intro!: exI [of _ ?ms])
qed

text \<open>Stopping the publisher loses the events it still holds: the batch is taken for a last flush, but its goroutine
  finds the publisher stopped and publishes nothing.\<close>

theorem stop_loses_last_batch:
  assumes "pbRunning p" and "pbBatching p" and "pbBatch p \<noteq> []" and "pbPending p = []"
  shows "pbBatch (snd (Stop_publisher p)) = [] \<and> trace R (run_pending L ro (snd (Stop_publisher p))) s = []"
  using assms by (simp add: Stop_publisher_def flushBatchLocked_def run_pending_def PublishBatch_def Let_def)

theorem stop_loses_last_batch_witness:
  "trace store_step (run_pending demo_lib in_order
     (snd (Stop_publisher (addToBatch zero_event (snd (Start_publisher (NewPublisher ''dsv:events'' 100 True [] []))))))) empty_store = []"
  by (rule stop_loses_last_batch [THEN conjunct2])
    (simp_all add: Start_publisher_def NewPublisher_def addToBatch_def)

theorem batch_published_by_channel_witness:
  "\<exists>ms. trace store_step (PublishBatch demo_lib in_order [zero_event] (snd (Start_publisher (NewPublisher ''e'' 1 True [] [])))) empty_store =
     [RPipe (map (\<lambda>(c, m). RPublish c m) ms)]"
proof -
  have "pbRunning (snd (Start_publisher (NewPublisher ''e'' 1 True [] [])))"
    by (simp add: Start_publisher_def NewPublisher_def)
  from batch_published_by_channel [OF this, where L = demo_lib and ro = in_order and evs = "[zero_event]" and R = store_step and s = empty_store]
  show ?thesis by blast
qed

end
