(* ===== verification/Gateway.thy ===== *)
theory Gateway
  imports Intake Events Metrics
begin

text \<open>
  \<open>cmd/p2p-gateway/main.go\<close>: the bridge between the gossip topics and Redis. Submissions are recorded,
  wrapped with the sender's peer id and queued for the dequeuer; incoming batches are stored per epoch and
  validator and announced on the aggregation stream; outgoing messages are published. A handler's body is
  a program from gateway to gateway; the message is its text. The emitter drops events when its buffer is
  full, so a send never waits. Not modelled: the joining of topics, the delays between retries and the
  peer statistics that are only logged. The clean-up trims to exactly its bound, where Redis may keep more.
\<close>

record 's gateway =
  gwKeys :: keyBuilder
  gwHost :: string
  gwGroup :: string
  gwBatchTopic :: string
  gwPresenceTopic :: string
  gwEmitter :: "'s emitter"
  gwRegistry :: registry

record gossipMsg =
  ReceivedFrom :: string
  Data :: string

definition msg_blob :: "gossipMsg \<Rightarrow> blob" where
  "msg_blob m = blob_of_text (Data m)"

section \<open>Events and counters\<close>

definition emit_event :: "string \<Rightarrow> string \<Rightarrow> string \<Rightarrow> json \<Rightarrow> 's gateway \<Rightarrow> 's gateway prog" where
  "emit_event ty severity epoch payload g =
     Call NowNano (\<lambda>t.
       case Emit (zero_event\<lparr>evType := ty, evSeverity := severity, evComponent := ''p2p-gateway'',
           evTimestamp := int_of t, evEpochID := epoch, evPayload := payload\<rparr>) (gwEmitter g) of
         (r, e) \<Rightarrow> if r = SendPanics then Panic else Ret (g\<lparr>gwEmitter := e\<rparr>))"

text \<open>A counter is fetched or made, and counted up in place when it is one.\<close>

definition counter_config :: "string \<Rightarrow> string \<Rightarrow> metricConfig" where
  "counter_config name help = \<lparr>mcName = name, mcType = ''counter'', mcHelp = help, mcLabels = [], mcBuckets = [],
     mcWindow = 0, mcMaxAge = 0\<rparr>"

definition add_counter :: "string \<Rightarrow> string \<Rightarrow> float64 \<Rightarrow> int \<Rightarrow> registry \<Rightarrow> registry" where
  "add_counter name help delta now r =
     (case Registry_GetOrCreate (counter_config name help) r of
        (Some (MCounter c), r') \<Rightarrow>
          r'\<lparr>rgMetrics := AList.update (metricKey name []) (MCounter (Counter_Add delta now c)) (rgMetrics r')\<rparr>
      | (_, r') \<Rightarrow> r')"

definition count_metric :: "string \<Rightarrow> string \<Rightarrow> float64 \<Rightarrow> 's gateway \<Rightarrow> 's gateway prog" where
  "count_metric name help delta g =
     Call NowNano (\<lambda>t. Ret (g\<lparr>gwRegistry := add_counter name help delta (int_of t) (gwRegistry g)\<rparr>))"

section \<open>Submissions\<close>

record gwMetadata =
  gmEntityID :: string
  gmEpochID :: u64
  gmSlotID :: u64
  gmProjectID :: string
  gmPeerID :: string
  gmTimestamp :: int
  gmDataMarket :: string
  gmNodeVersion :: string
  gmMessageSize :: int
  gmTopicName :: string

record submissionMessage =
  smSlotID :: u64
  smDeadline :: u64
  smSnapshotCid :: string
  smEpochID :: u64
  smProjectID :: string
  smSignature :: string
  smHeader :: string
  smDataMarket :: string
  smNodeVersion :: "string option"

definition zero_message :: submissionMessage where
  "zero_message = \<lparr>smSlotID = 0, smDeadline = 0, smSnapshotCid = [], smEpochID = 0, smProjectID = [],
     smSignature = [], smHeader = [], smDataMarket = [], smNodeVersion = None\<rparr>"

fun dec_message_request :: "submissionMessage dec" where
  "dec_message_request cur (JObj kvs) =
     (let (a, oka) = dec_field ''slotId'' dec_u64 kvs (smSlotID cur);
          (b, okb) = dec_field ''deadline'' dec_u64 kvs (smDeadline cur);
          (c, okc) = dec_field ''snapshotCid'' dec_str kvs (smSnapshotCid cur);
          (e, oke) = dec_field ''epochId'' dec_u64 kvs (smEpochID cur);
          (p, okp) = dec_field ''projectId'' dec_str kvs (smProjectID cur)
      in (cur\<lparr>smSlotID := a, smDeadline := b, smSnapshotCid := c, smEpochID := e, smProjectID := p\<rparr>,
          oka \<and> okb \<and> okc \<and> oke \<and> okp))"
| "dec_message_request cur JNull = (cur, True)"
| "dec_message_request cur _ = (cur, False)"

fun dec_message :: "submissionMessage dec" where
  "dec_message cur (JObj kvs) =
     (let (m, okr) = dec_field ''request'' dec_message_request kvs cur;
          (s, oks) = dec_field ''signature'' dec_str kvs (smSignature cur);
          (h, okh) = dec_field ''header'' dec_str kvs (smHeader cur);
          (d, okd) = dec_field ''dataMarket'' dec_str kvs (smDataMarket cur);
          (n, okn) = dec_field ''nodeVersion'' dec_ostr kvs (smNodeVersion cur)
      in (m\<lparr>smSignature := s, smHeader := h, smDataMarket := d, smNodeVersion := n\<rparr>,
          okr \<and> oks \<and> okh \<and> okd \<and> okn))"
| "dec_message cur JNull = (cur, True)"
| "dec_message cur _ = (cur, False)"

definition basic_metadata :: "gossipMsg \<Rightarrow> int \<Rightarrow> string \<Rightarrow> gwMetadata" where
  "basic_metadata m timestamp topicName = \<lparr>gmEntityID = [], gmEpochID = 0, gmSlotID = 0, gmProjectID = [],
     gmPeerID = ReceivedFrom m, gmTimestamp = timestamp, gmDataMarket = [], gmNodeVersion = [],
     gmMessageSize = int (length (Data m)), gmTopicName = topicName\<rparr>"

definition extractSubmissionMetadata :: "gossipMsg \<Rightarrow> int \<Rightarrow> string \<Rightarrow> gwMetadata" where
  "extractSubmissionMetadata m timestamp topicName =
     (case map_option (dec_message zero_message) (unmarshal (msg_blob m)) of
        Some (s, True) \<Rightarrow> (basic_metadata m timestamp topicName)\<lparr>gmEpochID := smEpochID s, gmSlotID := smSlotID s,
          gmProjectID := smProjectID s, gmDataMarket := smDataMarket s,
          gmNodeVersion := (case smNodeVersion s of None \<Rightarrow> [] | Some v \<Rightarrow> v)\<rparr>
      | _ \<Rightarrow> basic_metadata m timestamp topicName)"

definition generateEntityID :: "gwMetadata \<Rightarrow> string \<times> string" where
  "generateEntityID md =
     (if 0 < gmEpochID md \<and> 0 < gmSlotID md \<and> gmProjectID md \<noteq> []
      then (''received:'' @ show_u64 (gmEpochID md) @ '':'' @ show_u64 (gmSlotID md) @ '':'' @ gmProjectID md @ '':'' @
              show_int (gmTimestamp md) @ '':'' @ gmPeerID md, ''enhanced'')
      else (''received:peer-'' @ take 8 (gmPeerID md) @ ''-'' @ show_int (gmTimestamp md) @ '':'' @
              show_int (gmTimestamp md), ''legacy''))"

definition metadata_fields :: "gwMetadata \<Rightarrow> int \<Rightarrow> (string \<times> blob) list" where
  "metadata_fields md now =
     [(''entityId'', Txt (gmEntityID md)), (''epochId'', Js (JNum (uint (gmEpochID md)))),
      (''slotId'', Js (JNum (uint (gmSlotID md)))), (''projectId'', Txt (gmProjectID md)),
      (''peerId'', Txt (gmPeerID md)), (''timestamp'', Js (JNum (gmTimestamp md))),
      (''dataMarket'', Txt (gmDataMarket md)), (''nodeVersion'', Txt (gmNodeVersion md)),
      (''messageSize'', Js (JNum (gmMessageSize md))), (''topicName'', Txt (gmTopicName md)),
      (''storedAt'', Js (JNum now))]"

definition storeSubmissionMetadata :: "'s gateway \<Rightarrow> gwMetadata \<Rightarrow> bool prog" where
  "storeSubmissionMetadata g md =
     (let metadataKey = MetricsSubmissionsMetadata (gwKeys g) (gmEntityID md) in
      Call Now (\<lambda>t.
      Call (RHSet metadataKey (metadata_fields md (int_of t))) (\<lambda>r.
      if r = ErrR then Ret False
      else bindp (exec (RExpire metadataKey 86400)) (\<lambda>_. Ret True))))"

definition GetSubmissionMetadata :: "'s gateway \<Rightarrow> string \<Rightarrow> gwMetadata option prog" where
  "GetSubmissionMetadata g entityID =
     Call (RHGetAll (MetricsSubmissionsMetadata (gwKeys g) entityID)) (\<lambda>r. case r of
       HashR h \<Rightarrow>
         if h = [] then Ret None
         else
           let f = (\<lambda>k. field_text (map_of h k)) in
           Ret (Some \<lparr>gmEntityID = f ''entityId'',
             gmEpochID = (case parse_uint (f ''epochId'') of None \<Rightarrow> 0 | Some e \<Rightarrow> e),
             gmSlotID = (case parse_uint (f ''slotId'') of None \<Rightarrow> 0 | Some e \<Rightarrow> e),
             gmProjectID = f ''projectId'', gmPeerID = f ''peerId'',
             gmTimestamp = (case parse_int (f ''timestamp'') of None \<Rightarrow> 0 | Some e \<Rightarrow> e),
             gmDataMarket = f ''dataMarket'', gmNodeVersion = f ''nodeVersion'',
             gmMessageSize = (case parse_int (f ''messageSize'') of None \<Rightarrow> 0 | Some e \<Rightarrow> e),
             gmTopicName = f ''topicName''\<rparr>)
     | _ \<Rightarrow> Ret None)"

text \<open>What the dequeuer unwraps.\<close>

definition wrapped :: "gossipMsg \<Rightarrow> blob" where
  "wrapped m = Js (JObj [(''peer_id'', JStr (ReceivedFrom m)), (''data'', JStr (Data m))])"

definition record_submission :: "string \<Rightarrow> gossipMsg \<Rightarrow> 's gateway \<Rightarrow> unit prog" where
  "record_submission topicName m g =
     Call Now (\<lambda>t.
       let md = extractSubmissionMetadata m (int_of t) topicName; (entityID, idType) = generateEntityID md in
       bindp (exec (RZAdd (MetricsSubmissionsTimeline (gwKeys g)) (int_of t) entityID)) (\<lambda>_.
       if idType = ''enhanced''
       then bindp (storeSubmissionMetadata g (md\<lparr>gmEntityID := entityID\<rparr>)) (\<lambda>_. Ret ())
       else Ret ()))"

definition route_submission :: "gossipMsg \<Rightarrow> 's gateway \<Rightarrow> 's gateway prog" where
  "route_submission m g =
     (let queueKey = SubmissionQueue (gwKeys g) in
      Call (RLLen queueKey) (\<lambda>r1.
      Call (RLPush queueKey (wrapped m)) (\<lambda>r2.
      if r2 = ErrR then count_metric ''submissions.routing.failed'' ''Failed routing attempts'' (Fin 1) g
      else
        bindp (count_metric ''submissions.routing.success'' ''Successful routing attempts'' (Fin 1) g) (\<lambda>g.
        emit_event ''queue_depth_changed'' ''debug'' []
          (JObj [(''queue_name'', JStr ''submission''), (''current_depth'', JNum (int_of r1 + 1)),
             (''previous_depth'', JNum (int_of r1))]) g))))"

definition handleSubmissionMessage :: "string \<Rightarrow> gossipMsg \<Rightarrow> 's gateway \<Rightarrow> 's gateway prog" where
  "handleSubmissionMessage topicName m g =
     (if ReceivedFrom m = gwHost g then Ret g
      else
        bindp (emit_event ''submission_received'' ''info'' []
          (JObj [(''peer_id'', JStr (ReceivedFrom m)), (''topic_name'', JStr topicName),
             (''size'', JNum (int (length (Data m))))]) g) (\<lambda>g.
        bindp (count_metric ''submissions.received.total'' ''Total submissions received'' (Fin 1) g) (\<lambda>g.
        bindp (count_metric ''submissions.received.bytes'' ''Total bytes received''
          (f_of_int (int (length (Data m)))) g) (\<lambda>g.
        bindp (record_submission topicName m g) (\<lambda>_.
        route_submission m g)))))"

section \<open>The aggregation stream\<close>

definition ensureStreamExists :: "'s gateway \<Rightarrow> bool prog" where
  "ensureStreamExists g =
     (let streamKey = AggregationStream (gwKeys g) in
      Call (RXInfo streamKey) (\<lambda>r1.
      if r1 = ErrR then Call (RXGroupMk streamKey (gwGroup g)) (\<lambda>r. Ret (r \<noteq> ErrR))
      else
        Call (RXGroups streamKey) (\<lambda>r2. case r2 of
          StrsR gs \<Rightarrow>
            if gwGroup g \<in> set gs then Ret True
            else Call (RXGroup streamKey (gwGroup g)) (\<lambda>r. Ret (r \<noteq> ErrR))
        | _ \<Rightarrow> Ret False)))"

fun add_attempts :: "nat \<Rightarrow> (string \<times> blob) list \<Rightarrow> 's gateway \<Rightarrow> bool prog" where
  "add_attempts 0 values g = Ret False"
| "add_attempts (Suc n) values g =
     bindp (ensureStreamExists g) (\<lambda>ok.
     if \<not> ok then add_attempts n values g
     else Call (RXAdd (AggregationStream (gwKeys g)) values) (\<lambda>r.
       if r \<noteq> ErrR then Ret True else add_attempts n values g))"

definition addToStreamWithRetry :: "(string \<times> blob) list \<Rightarrow> 's gateway \<Rightarrow> bool prog" where
  "addToStreamWithRetry values g = add_attempts 3 values g"

text \<open>At start-up an error whose text says that the group exists is none, provided the stream answers.\<close>

definition initializeStreams :: "bool \<Rightarrow> 's gateway \<Rightarrow> bool prog" where
  "initializeStreams busyGroup g =
     (let streamKey = AggregationStream (gwKeys g) in
      Call (RXGroupMk streamKey (gwGroup g)) (\<lambda>r.
      if r \<noteq> ErrR then Ret True
      else if busyGroup then Call (RXInfo streamKey) (\<lambda>r1. Ret (r1 \<noteq> ErrR))
      else Ret False))"

definition monitorStreamHealth :: "(reply \<Rightarrow> int \<times> int \<times> string) \<Rightarrow> 's gateway \<Rightarrow> 's gateway prog" where
  "monitorStreamHealth details g =
     (let streamKey = AggregationStream (gwKeys g) in
      Call (RXInfo streamKey) (\<lambda>r1.
      if r1 = ErrR then Ret g
      else
        Call (RXGroups streamKey) (\<lambda>r2. case r2 of
          StrsR gs \<Rightarrow>
            if gwGroup g \<in> set gs
            then
              let (pending, consumers, lastID) = details r2 in
              emit_event ''stream_health'' ''debug'' []
                (JObj [(''stream_entries'', JNum (int_of r1)), (''pending_messages'', JNum pending),
                   (''active_consumers'', JNum consumers), (''last_id'', JStr lastID)]) g
            else bindp (exec (RXGroupMk streamKey (gwGroup g))) (\<lambda>_. Ret g)
        | _ \<Rightarrow> Ret g)))"

definition cleanupOldStreamEntries :: "'s gateway \<Rightarrow> 's gateway prog" where
  "cleanupOldStreamEntries g =
     (let streamKey = AggregationStream (gwKeys g) in
      Call (RXInfo streamKey) (\<lambda>r1.
      if r1 = ErrR \<or> int_of r1 \<le> 1000 then Ret g
      else
        Call (RXTrim streamKey 1000) (\<lambda>r2.
        if r2 = ErrR \<or> int_of r2 \<le> 0 then Ret g
        else emit_event ''stream_cleanup'' ''info'' []
          (JObj [(''trimmed_entries'', JNum (int_of r2)), (''remaining_entries'', JNum (int_of r1 - int_of r2)),
             (''stream_key'', JStr streamKey)]) g)))"

section \<open>Incoming batches\<close>

definition batch_epoch :: "(string, json) gomap \<Rightarrow> json option" where
  "batch_epoch batchData = (case map_of batchData ''epochId'' of Some e \<Rightarrow> Some e | None \<Rightarrow> map_of batchData ''EpochId'')"

definition batch_validator :: "gossipMsg \<Rightarrow> (string, json) gomap \<Rightarrow> string" where
  "batch_validator m batchData =
     (case get_str ''sequencerId'' batchData of
        Some (c # cs) \<Rightarrow> c # cs
      | _ \<Rightarrow> (case get_str ''SequencerId'' batchData of Some (c # cs) \<Rightarrow> c # cs | _ \<Rightarrow> ReceivedFrom m))"

definition batch_calls :: "'s gateway \<Rightarrow> string \<Rightarrow> string \<Rightarrow> blob \<Rightarrow> call list" where
  "batch_calls g epochIDStr validatorID data =
     [RSet (IncomingBatch (gwKeys g) epochIDStr validatorID) data 1800,
      RSAdd (EpochValidators (gwKeys g) epochIDStr) validatorID,
      RExpire (EpochValidators (gwKeys g) epochIDStr) 7200]"

definition stream_values :: "'s gateway \<Rightarrow> string \<Rightarrow> string \<Rightarrow> int \<Rightarrow> (string \<times> blob) list" where
  "stream_values g epochIDStr validatorID now =
     [(''epoch'', Txt epochIDStr), (''validator'', Txt validatorID),
      (''batch_key'', Txt (IncomingBatch (gwKeys g) epochIDStr validatorID)), (''timestamp'', Js (JNum now)),
      (''type'', Txt ''validator_batch'')]"

definition batch_monitoring :: "'s gateway \<Rightarrow> string \<Rightarrow> string \<Rightarrow> int \<Rightarrow> call list" where
  "batch_monitoring g epochIDStr validatorID now =
     [RZAdd (MetricsBatchesTimeline (gwKeys g)) now (''validator:'' @ validatorID @ '':'' @ epochIDStr),
      RZAdd (MetricsValidatorBatches (gwKeys g) validatorID) now epochIDStr,
      RPublish ''state:change'' (''batch:validator:'' @ validatorID @ '':'' @ epochIDStr)]"

text \<open>The notification comes before the batch; when it fails the handler returns for good, which the flag says.\<close>

definition store_batch :: "string \<Rightarrow> string \<Rightarrow> blob \<Rightarrow> 's gateway \<Rightarrow> (bool \<times> 's gateway) prog" where
  "store_batch epochIDStr validatorID data g =
     Call Now (\<lambda>t.
     bindp (addToStreamWithRetry (stream_values g epochIDStr validatorID (int_of t)) g) (\<lambda>ok.
     if \<not> ok then Ret (False, g)
     else
       Call (RPipe (batch_calls g epochIDStr validatorID data)) (\<lambda>r.
       if r = ErrR
       then bindp (count_metric ''batches.storage.failed'' ''Failed batch storage attempts'' (Fin 1) g) (\<lambda>g. Ret (True, g))
       else
         bindp (count_metric ''batches.storage.success'' ''Successful batch storage'' (Fin 1) g) (\<lambda>g.
         Call (RSAdd (ActiveEpochs (gwKeys g)) epochIDStr) (\<lambda>_.
         Call Now (\<lambda>t2.
         bindp (execs [RPipe (batch_monitoring g epochIDStr validatorID (int_of t2)),
           RExists (BatchAggregated (gwKeys g) epochIDStr)]) (\<lambda>_.
         Ret (True, g))))))))"

definition handleIncomingBatch :: "gossipMsg \<Rightarrow> 's gateway \<Rightarrow> (bool \<times> 's gateway) prog" where
  "handleIncomingBatch m g =
     (if ReceivedFrom m = gwHost g then Ret (True, g)
      else case unmarshal_map (msg_blob m) of
        None \<Rightarrow> Ret (True, g)
      | Some bd \<Rightarrow>
          let batchData = (case bd of None \<Rightarrow> [] | Some kvs \<Rightarrow> kvs) in
          (case batch_epoch batchData of
             None \<Rightarrow> Ret (True, g)
           | Some epochID \<Rightarrow>
               let validatorID = batch_validator m batchData; epochIDStr = FormatEpochID epochID in
               bindp (emit_event ''validator_batch_received'' ''info'' epochIDStr
                 (JObj [(''validator_id'', JStr validatorID), (''epoch_id'', JStr epochIDStr),
                    (''peer_id'', JStr (ReceivedFrom m)), (''size'', JNum (int (length (Data m))))]) g) (\<lambda>g.
               bindp (count_metric ''batches.received.total'' ''Total batches received'' (Fin 1) g) (\<lambda>g.
               bindp (count_metric ''batches.received.bytes'' ''Total batch bytes received''
                 (f_of_int (int (length (Data m)))) g) (\<lambda>g.
               store_batch epochIDStr validatorID (msg_blob m) g)))))"

text \<open>The loop over the messages of the topic.\<close>

fun handleIncomingBatches :: "gossipMsg list \<Rightarrow> 's gateway \<Rightarrow> 's gateway prog" where
  "handleIncomingBatches [] g = Ret g"
| "handleIncomingBatches (m # ms) g =
     bindp (handleIncomingBatch m g) (\<lambda>(alive, g'). if alive then handleIncomingBatches ms g' else Ret g')"

section \<open>Presence and outgoing messages\<close>

definition handleValidatorPresence :: "gossipMsg \<Rightarrow> 's gateway \<Rightarrow> 's gateway prog" where
  "handleValidatorPresence m g =
     Call Now (\<lambda>t. bindp (exec (RSet (ValidatorActive (ReceivedFrom m)) (Js (JNum (int_of t))) 300)) (\<lambda>_. Ret g))"

definition sendPresenceHeartbeat :: "'s gateway \<Rightarrow> unit prog" where
  "sendPresenceHeartbeat g =
     Call Now (\<lambda>t.
     exec (TopicPublish (gwPresenceTopic g)
       (Js (JObj [(''peer_id'', JStr (gwHost g)), (''timestamp'', JNum (int_of t)), (''version'', JStr ''1.0.0'')]))))"

definition message_topic :: "'s gateway \<Rightarrow> (string, json) gomap \<Rightarrow> string option" where
  "message_topic g msg =
     (let msgType = (case get_str ''type'' msg of None \<Rightarrow> [] | Some t \<Rightarrow> t) in
      if msgType = ''batch'' \<or> msgType = ''finalized_batch'' then Some (gwBatchTopic g)
      else if msgType = ''presence'' then Some (gwPresenceTopic g)
      else None)"

definition handleOutgoingMessage :: "'s gateway \<Rightarrow> unit prog" where
  "handleOutgoingMessage g =
     Call (RBRPop (OutgoingBroadcastBatch (gwKeys g))) (\<lambda>r. case r of
       BlobR raw \<Rightarrow>
         (case unmarshal_map raw of
            None \<Rightarrow> Ret ()
          | Some m \<Rightarrow>
              let msg = (case m of None \<Rightarrow> [] | Some kvs \<Rightarrow> kvs) in
              (case message_topic g msg of
                 None \<Rightarrow> Ret ()
               | Some topic \<Rightarrow>
                   exec (TopicPublish topic (Js (refloat (case map_of msg ''data'' of None \<Rightarrow> JNull | Some j \<Rightarrow> j))))))
     | _ \<Rightarrow> Ret ())"

text \<open>The periodic entry about connected peers, of whom only the number matters here.\<close>

definition peer_discovery :: "nat \<Rightarrow> 's gateway \<Rightarrow> unit prog" where
  "peer_discovery peers g =
     Call Now (\<lambda>t.
     exec (RPipe [RZAdd (MetricsBatchesTimeline (gwKeys g)) (int_of t)
         (''peer_discovery:'' @ show_nat peers @ '':'' @ show_int (int_of t)),
       RPublish ''state:change'' (''peers:connected:'' @ show_nat peers)]))"

section \<open>Construction\<close>

definition gateway_emitter :: "(event \<Rightarrow> 's \<Rightarrow> 's option) \<Rightarrow> string \<Rightarrow> string \<Rightarrow> 's emitter" where
  "gateway_emitter publish protocol dataMarket =
     (let cfg = DefaultConfig\<lparr>BufferSize := 1000, ecSequencerID := ''p2p-gateway'', ecProtocol := protocol,
            ecDataMarket := dataMarket\<rparr>;
          started = snd (Start (NewEmitter (Some cfg))) in
      snd (Subscribe (Some \<lparr>sbID = ''redis-publisher'', sbHandler = publish, sbFilter = None, sbTypes = []\<rparr>) started))"

text \<open>The host's id, the consumer group and the topics come from the configuration.\<close>

definition NewP2PGateway ::
  "(event \<Rightarrow> 's \<Rightarrow> 's option) \<Rightarrow> string \<Rightarrow> string list \<Rightarrow> string \<Rightarrow> string \<Rightarrow> string \<Rightarrow> string \<Rightarrow> 's gateway" where
  "NewP2PGateway publish protocol markets host grp batchTopic presenceTopic =
     (let dataMarket = (case markets of [] \<Rightarrow> [] | m # _ \<Rightarrow> m) in
      \<lparr>gwKeys = NewKeyBuilder protocol dataMarket, gwHost = host, gwGroup = grp, gwBatchTopic = batchTopic,
       gwPresenceTopic = presenceTopic, gwEmitter = gateway_emitter publish protocol dataMarket,
       gwRegistry = NewRegistry\<rparr>)"

definition Gateway_Stop :: "'s gateway \<Rightarrow> 's gateway option" where
  "Gateway_Stop g = map_option (\<lambda>(b, e). g\<lparr>gwEmitter := e\<rparr>) (Stop (gwEmitter g))"

end
