(* ===== verification/Network.thy ===== *)
theory Network
  imports Gateway Level1 Level2
begin

text \<open>
  The gateway's part in the path of a submission and of a batch: a submission from the network is what the
  dequeuer processes, a batch that level 1 queues for broadcast is what is published, and what another
  gateway receives is found by its aggregator.
\<close>

section \<open>The metadata of a submission\<close>

text \<open>What the gateway records about a submission can be read back: on a reliable store
  \<open>GetSubmissionMetadata\<close> returns for an entity exactly the metadata that \<open>storeSubmissionMetadata\<close>
  stored for it last, every number included.\<close>

theorem submission_metadata_roundtrip:
  assumes "reliable R v" and "int63 (gmTimestamp md)" and "int63 (gmMessageSize md)"
  shows "outcome R (bindp (storeSubmissionMetadata g md) (\<lambda>_. GetSubmissionMetadata g (gmEntityID md))) s = Some (Some md)"
proof -
  let ?k = "MetricsSubmissionsMetadata (gwKeys g) (gmEntityID md)"
  define h where "h = fold (\<lambda>(f, b) h. AList.update f b h)
    (metadata_fields md (clock (v s) (readings (v s)) div 1000000000)) (hashes (v s) ?k)"
  have f: "map_of h ''entityId'' = Some (Txt (gmEntityID md))" "map_of h ''epochId'' = Some (Js (JNum (uint (gmEpochID md))))"
    "map_of h ''slotId'' = Some (Js (JNum (uint (gmSlotID md))))" "map_of h ''projectId'' = Some (Txt (gmProjectID md))"
    "map_of h ''peerId'' = Some (Txt (gmPeerID md))" "map_of h ''timestamp'' = Some (Js (JNum (gmTimestamp md)))"
    "map_of h ''dataMarket'' = Some (Txt (gmDataMarket md))" "map_of h ''nodeVersion'' = Some (Txt (gmNodeVersion md))"
    "map_of h ''messageSize'' = Some (Js (JNum (gmMessageSize md)))" "map_of h ''topicName'' = Some (Txt (gmTopicName md))"
    by (simp_all add: h_def map_of_update metadata_fields_def)
  have "h \<noteq> []" using f(1) by auto
  then show ?thesis
    using assms(2,3) unfolding reliable_run(1) [OF assms(1)]
    by (simp add: storeSubmissionMetadata_def GetSubmissionMetadata_def prog_simps Let_def h_def [symmetric] f
        show_int_u64 parse_uint_show_u64 parse_int_show_int)
qed

theorem submission_metadata_roundtrip_witness:
  "outcome store_step (bindp (storeSubmissionMetadata (NewP2PGateway (\<lambda>ev w. Some w) ''P'' [''M''] ''Q'' ''g'' ''b'' ''p'' :: unit gateway)
       (basic_metadata \<lparr>ReceivedFrom = ''Qm'', Data = ''x''\<rparr> (- 5) ''t''))
     (\<lambda>_. GetSubmissionMetadata (NewP2PGateway (\<lambda>ev w. Some w) ''P'' [''M''] ''Q'' ''g'' ''b'' ''p'' :: unit gateway)
       (gmEntityID (basic_metadata \<lparr>ReceivedFrom = ''Qm'', Data = ''x''\<rparr> (- 5) ''t'')))) empty_store =
   Some (Some (basic_metadata \<lparr>ReceivedFrom = ''Qm'', Data = ''x''\<rparr> (- 5) ''t''))"
  by (rule submission_metadata_roundtrip [OF reliable_store]) (simp_all add: basic_metadata_def int63_def)

section \<open>A submission on its way to the dequeuer\<close>

text \<open>A gateway whose emitter is not stopped; its events and counters cost a reading of the clock.\<close>

definition emits :: "'s gateway \<Rightarrow> bool" where
  "emits g \<longleftrightarrow> \<not> chanClosed (gwEmitter g)"

definition rewired :: "'s gateway \<Rightarrow> 's gateway \<Rightarrow> bool" where
  "rewired g g' \<longleftrightarrow> emits g' \<and> g' = g\<lparr>gwEmitter := gwEmitter g', gwRegistry := gwRegistry g'\<rparr>"

lemma rewired_fields:
  assumes "rewired g g'"
  shows "gwKeys g' = gwKeys g" "gwHost g' = gwHost g" "gwGroup g' = gwGroup g" "emits g'"
  using assms unfolding rewired_def by (metis gateway.ext_inject gateway.surjective gateway.update_convs(6,7))+

lemma rewired_trans: "rewired g g' \<Longrightarrow> rewired g' g'' \<Longrightarrow> rewired g g''"
  unfolding rewired_def by (cases g; cases g'; cases g'') simp

lemma Emit_open:
  assumes "\<not> chanClosed e"
  shows "fst (Emit ev e) \<noteq> SendPanics \<and> \<not> chanClosed (snd (Emit ev e))"
  using assms by (auto simp: Emit_def emit_check_def emit_send_def)

lemma emit_event_run:
  assumes "emits g"
  obtains g' n where "run store_step (emit_event ty sev ep j g) d = (Some g', d\<lparr>readings := n\<rparr>)" and "rewired g g'"
proof -
  let ?e = "Emit (zero_event\<lparr>evType := ty, evSeverity := sev, evComponent := ''p2p-gateway'',
    evTimestamp := int_of (fst (store_step d NowNano)), evEpochID := ep, evPayload := j\<rparr>) (gwEmitter g)"
  have e: "fst ?e \<noteq> SendPanics" "\<not> chanClosed (snd ?e)"
    using Emit_open assms unfolding emits_def by blast+
  have "run store_step (emit_event ty sev ep j g) d =
      (Some (g\<lparr>gwEmitter := snd ?e\<rparr>), d\<lparr>readings := Suc (readings d)\<rparr>)"
    using e(1) by (simp add: emit_event_def run_Call case_prod_unfold)
  moreover have "rewired g (g\<lparr>gwEmitter := snd ?e\<rparr>)" using e(2) by (simp add: emits_def rewired_def)
  ultimately show ?thesis by (rule that)
qed

lemma count_metric_run:
  assumes "emits g"
  obtains g' n where "run store_step (count_metric nm h x g) d = (Some g', d\<lparr>readings := n\<rparr>)" and "rewired g g'"
proof -
  let ?r = "add_counter nm h x (int_of (fst (store_step d NowNano))) (gwRegistry g)"
  have "run store_step (count_metric nm h x g) d = (Some (g\<lparr>gwRegistry := ?r\<rparr>), d\<lparr>readings := Suc (readings d)\<rparr>)"
    by (simp add: count_metric_def run_Call)
  moreover have "rewired g (g\<lparr>gwRegistry := ?r\<rparr>)" using assms by (simp add: emits_def rewired_def)
  ultimately show ?thesis by (rule that)
qed

text \<open>What does not touch the queues, and what does.\<close>

lemma record_submission_run:
  "outcome store_step (record_submission tn m g) d = Some ()"
  "lists (final store_step (record_submission tn m g) d) = lists d"
  by (simp_all add: record_submission_def Let_def case_prod_unfold prog_simps storeSubmissionMetadata_def)

lemma route_submission_run:
  assumes "emits g"
  obtains g' d' where "run store_step (route_submission m g) d = (Some g', d')" and "rewired g g'"
    and "lists d' = (lists d)(SubmissionQueue (gwKeys g) := wrapped m # lists d (SubmissionQueue (gwKeys g)))"
proof -
  let ?q = "SubmissionQueue (gwKeys g)"
  let ?d = "snd (store_step d (RLPush ?q (wrapped m)))"
  let ?j = "JObj [(''queue_name'', JStr ''submission''), (''current_depth'', JNum (int (length (lists d ?q)) + 1)),
    (''previous_depth'', JNum (int (length (lists d ?q))))]"
  obtain g1 n1 where 1: "run store_step (count_metric ''submissions.routing.success'' ''Successful routing attempts'' (Fin 1) g) ?d =
      (Some g1, ?d\<lparr>readings := n1\<rparr>)" "rewired g g1"
    using count_metric_run [OF assms] by metis
  obtain g2 n2 where 2: "run store_step (emit_event ''queue_depth_changed'' ''debug'' [] ?j g1) (?d\<lparr>readings := n1\<rparr>) =
      (Some g2, ?d\<lparr>readings := n1\<rparr>\<lparr>readings := n2\<rparr>)" "rewired g1 g2"
    using emit_event_run [OF rewired_fields(4) [OF 1(2)]] by metis
  have "run store_step (route_submission m g) d = (Some g2, ?d\<lparr>readings := n1\<rparr>\<lparr>readings := n2\<rparr>)"
    using 1 2 by (simp add: route_submission_def run_Call run_bindp Let_def)
  then show ?thesis using that rewired_trans [OF 1(2) 2(2)] by simp
qed

lemma handleSubmission_run:
  assumes "emits g" and "ReceivedFrom m \<noteq> gwHost g"
  obtains g' d' where "run store_step (handleSubmissionMessage tn m g) d = (Some g', d')" and "rewired g g'"
    and "lists d' = (lists d)(SubmissionQueue (gwKeys g) := wrapped m # lists d (SubmissionQueue (gwKeys g)))"
proof -
  obtain g1 n1 where 1: "run store_step (emit_event ''submission_received'' ''info'' []
      (JObj [(''peer_id'', JStr (ReceivedFrom m)), (''topic_name'', JStr tn), (''size'', JNum (int (length (Data m))))]) g) d =
      (Some g1, d\<lparr>readings := n1\<rparr>)" "rewired g g1"
    using emit_event_run [OF assms(1)] by metis
  obtain g2 n2 where 2: "run store_step (count_metric ''submissions.received.total'' ''Total submissions received'' (Fin 1) g1)
      (d\<lparr>readings := n1\<rparr>) = (Some g2, d\<lparr>readings := n1\<rparr>\<lparr>readings := n2\<rparr>)" "rewired g1 g2"
    using count_metric_run [OF rewired_fields(4) [OF 1(2)]] by metis
  obtain g3 n3 where 3: "run store_step (count_metric ''submissions.received.bytes'' ''Total bytes received''
      (f_of_int (int (length (Data m)))) g2) (d\<lparr>readings := n1\<rparr>\<lparr>readings := n2\<rparr>) =
      (Some g3, d\<lparr>readings := n1\<rparr>\<lparr>readings := n2\<rparr>\<lparr>readings := n3\<rparr>)" "rewired g2 g3"
    using count_metric_run [OF rewired_fields(4) [OF 2(2)]] by metis
  let ?d3 = "d\<lparr>readings := n1\<rparr>\<lparr>readings := n2\<rparr>\<lparr>readings := n3\<rparr>"
  obtain d4 where 4: "run store_step (record_submission tn m g3) ?d3 = (Some (), d4)" "lists d4 = lists d"
    using record_submission_run [of tn m g3 ?d3] by (cases "run store_step (record_submission tn m g3) ?d3") auto
  have w: "rewired g g3" using 1(2) 2(2) 3(2) rewired_trans by blast
  obtain g5 d5 where 5: "run store_step (route_submission m g3) d4 = (Some g5, d5)" "rewired g3 g5"
    "lists d5 = (lists d4)(SubmissionQueue (gwKeys g3) := wrapped m # lists d4 (SubmissionQueue (gwKeys g3)))"
    using route_submission_run [OF rewired_fields(4) [OF w]] by metis
  have "run store_step (handleSubmissionMessage tn m g) d = (Some g5, d5)"
    using assms(2) 1(1) 2(1) 3(1) 4(1) 5(1) unfolding handleSubmissionMessage_def by (simp add: run_bindp)
  moreover have "rewired g g5" using w 5(2) rewired_trans by blast
  ultimately show ?thesis using that 4(2) 5(3) rewired_fields(1) [OF w] by simp
qed

lemma unwrap_wrapped: "unwrap (wrapped m) = (ReceivedFrom m, msg_blob m)"
  by (simp add: unwrap_def wrapped_def get_str_def msg_blob_def)

text \<open>C8. A submission from the network reaches the dequeuer unchanged: on a reliable store the gateway puts it
  behind all that the queue holds, and when it is the oldest entry the dequeuer's next round processes
  exactly the bytes that were received, under the id of the peer they were received from.\<close>

theorem network_submission_reaches_dequeuer:
  assumes "reliable R v" and "emits g" and "ReceivedFrom m \<noteq> gwHost g" and "gwKeys g = seqKeys s"
    and "reliable R2 v2" and "lists (v2 st2) (SubmissionQueue (seqKeys s)) = older @ [wrapped m]"
  shows "(\<exists>g'. outcome R (handleSubmissionMessage tn m g) st = Some g') \<and>
    lists (v (final R (handleSubmissionMessage tn m g) st)) =
      (lists (v st))(SubmissionQueue (seqKeys s) := wrapped m # lists (v st) (SubmissionQueue (seqKeys s))) \<and>
    (\<exists>st3. lists (v2 st3) = (lists (v2 st2))(SubmissionQueue (seqKeys s) := older) \<and>
      run R2 (dequeue_round L ro s) st2 =
        run R2 (bindp (process_payload L ro (ReceivedFrom m) (blob_of_text (Data m)) (seqDequeuer s))
          (\<lambda>od. Ret (s\<lparr>seqDequeuer := od\<rparr>))) st3)"
proof -
  obtain g' d' where h: "run store_step (handleSubmissionMessage tn m g) (v st) = (Some g', d')"
    "lists d' = (lists (v st))(SubmissionQueue (gwKeys g) := wrapped m # lists (v st) (SubmissionQueue (gwKeys g)))"
    using handleSubmission_run [OF assms(2,3)] by metis
  define st3 where "st3 = snd (R2 st2 (RBRPop (SubmissionQueue (seqKeys s))))"
  have "fst (R2 st2 (RBRPop (SubmissionQueue (seqKeys s)))) = BlobR (wrapped m)"
    "lists (v2 st3) = (lists (v2 st2))(SubmissionQueue (seqKeys s) := older)"
    using assms(6) unfolding st3_def reliable_step [OF assms(5)] by simp_all
  then have "lists (v2 st3) = (lists (v2 st2))(SubmissionQueue (seqKeys s) := older) \<and>
      run R2 (dequeue_round L ro s) st2 =
        run R2 (bindp (process_payload L ro (ReceivedFrom m) (blob_of_text (Data m)) (seqDequeuer s))
          (\<lambda>od. Ret (s\<lparr>seqDequeuer := od\<rparr>))) st3"
    by (simp add: dequeue_round_def run_Call st3_def unwrap_wrapped msg_blob_def)
  then show ?thesis using h assms(4) unfolding reliable_run [OF assms(1)] by auto
qed

definition demo_gateway :: "unit gateway" where
  "demo_gateway = NewP2PGateway (\<lambda>ev w. Some w) ''0xP'' [''0xM''] ''QmSelf'' ''g'' ''batches'' ''presence''"

lemma demo_gateway_ok: "emits demo_gateway" "gwHost demo_gateway = ''QmSelf''" "gwKeys demo_gateway = seqKeys demo_seq"
  "gwBatchTopic demo_gateway = ''batches''"
  by (simp_all add: demo_gateway_def NewP2PGateway_def gateway_emitter_def emits_def NewEmitter_def Start_def Subscribe_def
      Let_def NewKeyBuilder_def demo_seq_def)

theorem network_submission_reaches_dequeuer_witness:
  "\<exists>g'. outcome store_step (handleSubmissionMessage ''t'' \<lparr>ReceivedFrom = ''Qm'', Data = ''x''\<rparr> demo_gateway) empty_store = Some g'"
proof -
  let ?m = "\<lparr>ReceivedFrom = ''Qm'', Data = ''x''\<rparr>"
  have "ReceivedFrom ?m \<noteq> gwHost demo_gateway" by (simp add: demo_gateway_ok)
  moreover have "lists (empty_store\<lparr>lists := \<lambda>_. [wrapped ?m]\<rparr>) (SubmissionQueue (seqKeys demo_seq)) = [] @ [wrapped ?m]"
    by simp
  ultimately show ?thesis
    using network_submission_reaches_dequeuer [OF reliable_store demo_gateway_ok(1) _ demo_gateway_ok(3) reliable_store] by blast
qed

section \<open>A batch on its way to the network\<close>

text \<open>What level 1 queues for broadcast is what goes out: on a reliable store the gateway takes the oldest
  queued message of an epoch and publishes its batch on the batch topic, as it was stored, and
  nothing else. (For numbers of at most 53 bits: the message passes through an \<open>interface{}\<close>.)\<close>

theorem queued_broadcast_is_published:
  assumes "reliable R v" and "small_json (enc_batch b)"
    and "lists (v s) (OutgoingBroadcastBatch (gwKeys g)) = newer @ [broadcast_msg e b]"
  shows "gossiped (v (final R (handleOutgoingMessage g) s)) = gossiped (v s) @ [(gwBatchTopic g, Js (enc_batch b))] \<and>
    lists (v (final R (handleOutgoingMessage g) s)) = (lists (v s))(OutgoingBroadcastBatch (gwKeys g) := newer)"
proof -
  have f: "refloat (enc_batch b) = enc_batch b" by (rule refloat_small [OF assms(2)])
  have "run store_step (handleOutgoingMessage g) (v s) =
      (Some (), (v s)\<lparr>lists := (lists (v s))(OutgoingBroadcastBatch (gwKeys g) := newer),
        gossiped := gossiped (v s) @ [(gwBatchTopic g, Js (enc_batch b))]\<rparr>)"
    using assms(3) by (simp add: handleOutgoingMessage_def run_Call run_exec broadcast_msg_def message_topic_def get_str_def f)
  then show ?thesis unfolding reliable_run [OF assms(1)] by simp
qed

theorem queued_broadcast_is_published_witness:
  "gossiped (final store_step (handleOutgoingMessage demo_gateway)
     (empty_store\<lparr>lists := \<lambda>_. [broadcast_msg 7 demo_fb]\<rparr>)) = [(''batches'', Js (enc_batch demo_fb))]"
proof -
  let ?s = "empty_store\<lparr>lists := \<lambda>_. [broadcast_msg 7 demo_fb]\<rparr>"
  have "small_json (enc_batch demo_fb)"
    by (simp add: enc_batch_def demo_fb_def demo_meta_def zero_batch_def zero_metadata_def enc_bytes_def enc_metadata_def omit_def)
  moreover have "lists ?s (OutgoingBroadcastBatch (gwKeys demo_gateway)) = [] @ [broadcast_msg 7 demo_fb]" by simp
  ultimately have "gossiped (final store_step (handleOutgoingMessage demo_gateway) ?s) =
      gossiped ?s @ [(gwBatchTopic demo_gateway, Js (enc_batch demo_fb))]"
    using queued_broadcast_is_published [OF reliable_store] by blast
  then show ?thesis by (simp add: empty_store_def demo_gateway_ok)
qed

section \<open>A batch from the network\<close>

lemma ensure_run:
  obtains gs where "run store_step (ensureStreamExists g) d = (Some True, d\<lparr>groups := gs\<rparr>)"
proof -
  let ?k = "AggregationStream (gwKeys g)"
  have "\<exists>gs. run store_step (ensureStreamExists g) d = (Some True, d\<lparr>groups := gs\<rparr>)"
  proof (cases "gwGroup g \<in> set (groups d ?k)")
    case True
    then have "stream_exists d ?k" by (auto simp: stream_exists_def)
    with True have "run store_step (ensureStreamExists g) d = (Some True, d\<lparr>groups := groups d\<rparr>)"
      by (simp add: ensureStreamExists_def run_Call Let_def)
    then show ?thesis by blast
  next
    case False
    then have "run store_step (ensureStreamExists g) d =
        (Some True, d\<lparr>groups := (groups d)(?k := groups d ?k @ [gwGroup g])\<rparr>)"
      by (simp add: ensureStreamExists_def run_Call Let_def)
    then show ?thesis by blast
  qed
  then show ?thesis using that by blast
qed

lemma addToStream_run:
  obtains gs where "run store_step (addToStreamWithRetry values g) d =
    (Some True, d\<lparr>groups := gs, streams := (streams d)(AggregationStream (gwKeys g) :=
       streams d (AggregationStream (gwKeys g)) @ [values])\<rparr>)"
proof -
  obtain gs where "run store_step (ensureStreamExists g) d = (Some True, d\<lparr>groups := gs\<rparr>)" by (rule ensure_run)
  then have "run store_step (addToStreamWithRetry values g) d =
    (Some True, d\<lparr>groups := gs, streams := (streams d)(AggregationStream (gwKeys g) :=
       streams d (AggregationStream (gwKeys g)) @ [values])\<rparr>)"
    by (simp add: addToStreamWithRetry_def numeral_3_eq_3 run_bindp run_Call)
  then show ?thesis by (rule that)
qed

text \<open>What storing a batch leaves behind.\<close>

definition batch_stored :: "'s gateway \<Rightarrow> string \<Rightarrow> string \<Rightarrow> blob \<Rightarrow> store \<Rightarrow> store \<Rightarrow> bool" where
  "batch_stored g es i data d d' \<longleftrightarrow>
     map_of (strs d') (IncomingBatch (gwKeys g) es i) = Some data \<and>
     i \<in> set (sets d' (EpochValidators (gwKeys g) es)) \<and>
     (\<exists>now. streams d' (AggregationStream (gwKeys g)) =
       streams d (AggregationStream (gwKeys g)) @ [stream_values g es i now])"

lemma batch_calls_run:
  "fst (store_step d (RPipe (batch_calls g es i data))) = OkR"
  "map_of (strs (snd (store_step d (RPipe (batch_calls g es i data))))) (IncomingBatch (gwKeys g) es i) = Some data"
  "i \<in> set (sets (snd (store_step d (RPipe (batch_calls g es i data)))) (EpochValidators (gwKeys g) es))"
  "streams (snd (store_step d (RPipe (batch_calls g es i data)))) = streams d"
  by (simp_all add: batch_calls_def map_of_update)

lemma batch_monitoring_run:
  "strs (snd (store_step d (RPipe (batch_monitoring g es i t)))) = strs d"
  "sets (snd (store_step d (RPipe (batch_monitoring g es i t)))) = sets d"
  "streams (snd (store_step d (RPipe (batch_monitoring g es i t)))) = streams d"
  by (simp_all add: batch_monitoring_def)

lemma store_batch_run:
  assumes "emits g"
  obtains g' d' where "run store_step (store_batch es i data g) d = (Some (True, g'), d')" and "rewired g g'"
    and "batch_stored g es i data d d'"
proof -
  let ?now = "int_of (fst (store_step d Now))" and ?k = "AggregationStream (gwKeys g)"
  define d1 where "d1 = snd (store_step d Now)"
  obtain gs where 1: "run store_step (addToStreamWithRetry (stream_values g es i ?now) g) d1 =
      (Some True, d1\<lparr>groups := gs, streams := (streams d1)(?k := streams d1 ?k @ [stream_values g es i ?now])\<rparr>)"
    by (rule addToStream_run)
  define d2 where "d2 = d1\<lparr>groups := gs, streams := (streams d1)(?k := streams d1 ?k @ [stream_values g es i ?now])\<rparr>"
  define d3 where "d3 = snd (store_step d2 (RPipe (batch_calls g es i data)))"
  obtain g' n where 2: "run store_step (count_metric ''batches.storage.success'' ''Successful batch storage'' (Fin 1) g) d3 =
      (Some g', d3\<lparr>readings := n\<rparr>)" "rewired g g'"
    using count_metric_run [OF assms] by metis
  define d4 where "d4 = snd (store_step (d3\<lparr>readings := n\<rparr>) (RSAdd (ActiveEpochs (gwKeys g)) es))"
  define d5 where "d5 = snd (store_step (snd (store_step d4 Now))
    (RPipe (batch_monitoring g es i (int_of (fst (store_step d4 Now))))))"
  define d6 where "d6 = snd (store_step d5 (RExists (BatchAggregated (gwKeys g) es)))"
  have "run store_step (store_batch es i data g) d = (Some (True, g'), d6)"
    using 1 2(1) rewired_fields(1) [OF 2(2)] batch_calls_run(1) [of d2 g es i data]
    by (simp add: store_batch_def run_bindp run_Call batch_monitoring_def d1_def [symmetric] d2_def [symmetric]
        d3_def [symmetric] d4_def [symmetric] d5_def d6_def del: store_step.simps)
  moreover have "map_of (strs d3) (IncomingBatch (gwKeys g) es i) = Some data"
    "i \<in> set (sets d3 (EpochValidators (gwKeys g) es))" "streams d3 = streams d2"
    unfolding d3_def by (rule batch_calls_run)+
  then have "batch_stored g es i data d d6"
    unfolding batch_stored_def d6_def d5_def by (auto simp: batch_monitoring_run d4_def d2_def d1_def)
  ultimately show ?thesis using 2(2) by (intro that)
qed

lemma batch_fields_of:
  "batch_epoch kvs = Some (JNum (uint (fbEpochId b))) \<and>
   (SequencerId b \<noteq> [] \<longrightarrow> batch_validator m kvs = SequencerId b)"
  if "enc_batch b = JObj kvs"
proof -
  have k: "kvs = (case enc_batch b of JObj kvs \<Rightarrow> kvs)" using that by simp
  have "batch_epoch kvs = Some (JNum (uint (fbEpochId b)))" "get_str ''sequencerId'' kvs = None"
    "get_str ''SequencerId'' kvs = Some (SequencerId b)"
    unfolding k by (simp_all add: enc_batch_def batch_epoch_def get_str_def omit_def)
  then show ?thesis by (auto simp: batch_validator_def split: list.split)
qed

lemma handleIncomingBatch_run:
  assumes "emits g" and "ReceivedFrom m \<noteq> gwHost g" and "msg_blob m = Js (enc_batch b)" and "SequencerId b \<noteq> []"
    and "uint (fbEpochId b) \<le> 2 ^ 53"
  obtains g' d' where "run store_step (handleIncomingBatch m g) d = (Some (True, g'), d')" and "rewired g g'"
    and "batch_stored g (show_u64 (fbEpochId b)) (SequencerId b) (Js (enc_batch b)) d d'"
proof -
  let ?es = "show_u64 (fbEpochId b)" and ?size = "int (length (Data m))"
  obtain kvs where k: "enc_batch b = JObj kvs" by (simp add: enc_batch_def)
  have e: "FormatEpochID (JNum (uint (fbEpochId b))) = ?es"
    using assms(5) by (simp add: f64_exact show_int_u64)
  obtain g1 n1 where 1: "run store_step (emit_event ''validator_batch_received'' ''info'' ?es
      (JObj [(''validator_id'', JStr (SequencerId b)), (''epoch_id'', JStr ?es),
        (''peer_id'', JStr (ReceivedFrom m)), (''size'', JNum ?size)]) g) d =
      (Some g1, d\<lparr>readings := n1\<rparr>)" "rewired g g1"
    using emit_event_run [OF assms(1)] by metis
  obtain g2 n2 where 2: "run store_step (count_metric ''batches.received.total'' ''Total batches received'' (Fin 1) g1)
      (d\<lparr>readings := n1\<rparr>) = (Some g2, d\<lparr>readings := n1\<rparr>\<lparr>readings := n2\<rparr>)" "rewired g1 g2"
    using count_metric_run [OF rewired_fields(4) [OF 1(2)]] by metis
  obtain g3 n3 where 3: "run store_step (count_metric ''batches.received.bytes'' ''Total batch bytes received''
      (f_of_int ?size) g2) (d\<lparr>readings := n1\<rparr>\<lparr>readings := n2\<rparr>) =
      (Some g3, d\<lparr>readings := n1\<rparr>\<lparr>readings := n2\<rparr>\<lparr>readings := n3\<rparr>)" "rewired g2 g3"
    using count_metric_run [OF rewired_fields(4) [OF 2(2)]] by metis
  let ?d3 = "d\<lparr>readings := n1\<rparr>\<lparr>readings := n2\<rparr>\<lparr>readings := n3\<rparr>"
  have w: "rewired g g3" using 1(2) 2(2) 3(2) rewired_trans by blast
  obtain g4 d4 where 4: "run store_step (store_batch ?es (SequencerId b) (Js (JObj kvs)) g3) ?d3 = (Some (True, g4), d4)"
    "rewired g3 g4" "batch_stored g3 ?es (SequencerId b) (Js (JObj kvs)) ?d3 d4"
    using store_batch_run [OF rewired_fields(4) [OF w]] by metis
  have "run store_step (handleIncomingBatch m g) d = (Some (True, g4), d4)"
    using assms(2,3) 1(1) 2(1) 3(1) 4(1) batch_fields_of [OF k, of m] assms(4)
    by (simp add: handleIncomingBatch_def k e run_bindp Let_def del: FormatEpochID.simps)
  moreover have "batch_stored g ?es (SequencerId b) (Js (enc_batch b)) d d4"
    using 4(3) rewired_fields(1) [OF w] by (simp add: batch_stored_def k stream_values_def)
  ultimately show ?thesis using rewired_trans [OF w 4(2)] by (intro that)
qed

lemma notification_opens_window:
  assumes "reliable R v" and "agKeys a = gwKeys g"
    and "\<not> key_exists (v s) (BatchAggregated (agKeys a) (show_u64 e))"
  shows "outcome R (processStreamMessage L a (as_message i (stream_values g (show_u64 e) who now))) s =
    Some (True, startAggregationWindow L (show_u64 e) a)"
  using assms by (simp add: processStreamMessage_def as_message_def stream_values_def stream_fields_def mget_def run_Call Let_def
      reliable_step [OF assms(1)])

lemma window_open: "map_of (epochTimers (startAggregationWindow L (show_u64 e) a)) e \<noteq> None"
  by (simp add: startAggregationWindow_def parse_shown_epoch map_of_update)

text \<open>C5. A batch from the network reaches the aggregator: on a reliable store the gateway stores what a validator
  broadcast under the batch's epoch and sequencer, where level 2 will look for it and find every project
  of it, and adds a notification to the stream that makes the aggregator open the epoch's window,
  unless the epoch is aggregated already. (For epochs of at most 53 bits.)\<close>

theorem network_batch_reaches_aggregator:
  assumes "reliable R v" and "emits g" and "ReceivedFrom m \<noteq> gwHost g" and "blob_of_text (Data m) = Js (enc_batch b)"
    and "batch_ok b" and "SequencerId b \<notin> {[], agSequencerID a}" and "uint (fbEpochId b) \<le> 2 ^ 53"
    and "agKeys a = gwKeys g" and "s' = final R (handleIncomingBatch m g) s"
  shows "(\<exists>g'. outcome R (handleIncomingBatch m g) s = Some (True, g')) \<and>
    (\<exists>k \<in> set (incoming_keys a (show_u64 (fbEpochId b))
        (fst (R s' (RSMembers (EpochValidators (agKeys a) (show_u64 (fbEpochId b))))))).
      projects_at (v s') k = fst ` set (SubmissionDetails b)) \<and>
    (\<exists>entry. streams (v s') (AggregationStream (agKeys a)) = streams (v s) (AggregationStream (agKeys a)) @ [entry] \<and>
      (\<forall>s2. key_exists (v s2) (BatchAggregated (agKeys a) (show_u64 (fbEpochId b))) \<or>
        (\<exists>a'. outcome R (processStreamMessage L a (as_message i entry)) s2 = Some (True, a') \<and>
          map_of (epochTimers a') (fbEpochId b) \<noteq> None)))"
proof -
  let ?es = "show_u64 (fbEpochId b)" and ?k = "IncomingBatch (agKeys a) (show_u64 (fbEpochId b)) (SequencerId b)"
  have n: "SequencerId b \<noteq> []" "msg_blob m = Js (enc_batch b)" using assms(4,6) by (simp_all add: msg_blob_def)
  obtain g' d' where h: "run store_step (handleIncomingBatch m g) (v s) = (Some (True, g'), d')"
    "batch_stored g ?es (SequencerId b) (Js (enc_batch b)) (v s) d'"
    using handleIncomingBatch_run [OF assms(2,3) n(2,1) assms(7)] by metis
  have d': "v s' = d'" using h(1) assms(9) reliable_run(3) [OF assms(1)] by (metis snd_conv)
  from h(2) obtain now where st: "map_of (strs d') ?k = Some (Js (enc_batch b))"
    "SequencerId b \<in> set (sets d' (EpochValidators (agKeys a) ?es))"
    "streams d' (AggregationStream (agKeys a)) = streams (v s) (AggregationStream (agKeys a)) @
      [stream_values g ?es (SequencerId b) now]"
    unfolding batch_stored_def assms(8) by blast
  have o: "outcome R (handleIncomingBatch m g) s = Some (True, g')"
    using h(1) reliable_run(1) [OF assms(1)] by (metis fst_conv)
  have k: "?k \<in> set (incoming_keys a ?es (fst (R s' (RSMembers (EpochValidators (agKeys a) ?es)))))"
    using st(2) assms(6) by (simp add: reliable_step [OF assms(1)] d' incoming_keys_def)
  have p: "projects_at (v s') ?k = fst ` set (SubmissionDetails b)"
    using st(1) by (simp add: projects_at_def d' decode_enc_batch [OF assms(5)])
  have "key_exists (v s2) (BatchAggregated (agKeys a) ?es) \<or>
      (\<exists>a'. outcome R (processStreamMessage L a (as_message i (stream_values g ?es (SequencerId b) now))) s2 = Some (True, a') \<and>
        map_of (epochTimers a') (fbEpochId b) \<noteq> None)" for s2
    using notification_opens_window [OF assms(1,8)] window_open by metis
  then show ?thesis using o k p st(3) unfolding d' by blast
qed

definition demo_batch :: finalizedBatch where
  "demo_batch = zero_batch\<lparr>fbEpochId := 7, SequencerId := ''v2''\<rparr>"

definition demo_batch_text :: string where
  "demo_batch_text = ''{\"EpochId\":7,\"ProjectIds\":[],\"SnapshotCids\":[],\"MerkleRoot\":\"\",'' @
     ''\"BlsSignature\":\"\",\"SequencerId\":\"v2\",\"Timestamp\":0,\"ProjectVotes\":{},\"submission_details\":{}}''"

lemma demo_batch_text_ok: "blob_of_text demo_batch_text = Js (enc_batch demo_batch)"
  by code_simp

theorem network_batch_reaches_aggregator_witness:
  "\<exists>g'. outcome store_step (handleIncomingBatch \<lparr>ReceivedFrom = ''Qm'', Data = demo_batch_text\<rparr> demo_gateway) empty_store =
     Some (True, g')"
proof -
  let ?m = "\<lparr>ReceivedFrom = ''Qm'', Data = demo_batch_text\<rparr>"
  have m: "ReceivedFrom ?m \<noteq> gwHost demo_gateway" by (simp add: demo_gateway_ok)
  have t: "blob_of_text (Data ?m) = Js (enc_batch demo_batch)" by (simp add: demo_batch_text_ok)
  have b: "batch_ok demo_batch" "SequencerId demo_batch \<notin> {[], agSequencerID (demo_agg\<lparr>agKeys := gwKeys demo_gateway\<rparr>)}"
    "uint (fbEpochId demo_batch) \<le> 2 ^ 53"
    by (simp_all add: batch_ok_def demo_batch_def zero_batch_def int63_def demo_agg_def NewAggregator_def)
  have k: "agKeys (demo_agg\<lparr>agKeys := gwKeys demo_gateway\<rparr>) = gwKeys demo_gateway" by simp
  show ?thesis
    using network_batch_reaches_aggregator [OF reliable_store demo_gateway_ok(1) m t b k refl] by blast
qed

section \<open>When the stream takes no notifications\<close>

fun notifies :: "call \<Rightarrow> bool" where
  "notifies (RXAdd k vs) = True"
| "notifies _ = False"

fun pipes :: "call \<Rightarrow> bool" where
  "pipes (RPipe cs) = True"
| "pipes _ = False"

definition attempts :: "call list \<Rightarrow> nat" where
  "attempts tr = length (filter notifies tr)"

lemma attempts_simps [simp]:
  "attempts [] = 0" "attempts (c # tr) = (if notifies c then Suc (attempts tr) else attempts tr)"
  "attempts (tr @ tr') = attempts tr + attempts tr'"
  by (simp_all add: attempts_def)

definition quiet :: "call \<Rightarrow> bool" where
  "quiet c \<longleftrightarrow> \<not> notifies c \<and> \<not> pipes c"

lemma quiet_trace:
  assumes "calls_sat quiet p"
  shows "attempts (trace R p s) = 0" "\<forall>c \<in> set (trace R p s). \<not> pipes c"
proof -
  have "\<not> notifies c \<and> \<not> pipes c" if "c \<in> set (trace R p s)" for c
    using calls_sat_trace [OF assms that] unfolding quiet_def .
  then show "attempts (trace R p s) = 0" "\<forall>c \<in> set (trace R p s). \<not> pipes c"
    by (auto simp: attempts_def filter_empty_conv)
qed

lemma quiet_events: "calls_sat quiet (emit_event ty sev ep j g)" "calls_sat quiet (count_metric n h x g)"
  by (simp_all add: emit_event_def count_metric_def quiet_def case_prod_unfold)

lemma ensure_quiet: "calls_sat quiet (ensureStreamExists g) \<and> no_panic (ensureStreamExists g)"
  by (auto simp: ensureStreamExists_def quiet_def Let_def split: reply.split)

definition stream_down :: "'s environment \<Rightarrow> bool" where
  "stream_down R \<longleftrightarrow> (\<forall>s k vs. fst (R s (RXAdd k vs)) = ErrR)"

lemma failing_attempts:
  assumes "stream_down R"
  shows "outcome R (add_attempts n vs g) s = Some False \<and> attempts (trace R (add_attempts n vs g) s) \<le> n \<and>
    (\<forall>c \<in> set (trace R (add_attempts n vs g) s). \<not> pipes c)"
proof (induction n arbitrary: s)
  case (Suc n)
  obtain ok s1 where e: "run R (ensureStreamExists g) s = (Some ok, s1)"
    using no_panic_outcome [of "ensureStreamExists g" R s] ensure_quiet by (metis option.exhaust prod.collapse)
  show ?case
    using e Suc [of s1] Suc [of "snd (R s1 (RXAdd (AggregationStream (gwKeys g)) vs))"]
      quiet_trace [of "ensureStreamExists g" R s] ensure_quiet assms
    by (auto simp: stream_down_def run_bindp trace_bindp run_Call trace_Call)
qed simp

lemma failing_store:
  assumes "stream_down R"
  shows "outcome R (store_batch es i data g) s = Some (False, g) \<and> attempts (trace R (store_batch es i data g) s) \<le> 3 \<and>
    (\<forall>c \<in> set (trace R (store_batch es i data g) s). \<not> pipes c)"
proof -
  let ?p = "addToStreamWithRetry (stream_values g es i (int_of (fst (R s Now)))) g" and ?s = "snd (R s Now)"
  have f: "outcome R ?p ?s = Some False" "attempts (trace R ?p ?s) \<le> 3" "\<forall>c \<in> set (trace R ?p ?s). \<not> pipes c"
    using failing_attempts [OF assms] unfolding addToStreamWithRetry_def by blast+
  obtain s1 where "run R ?p ?s = (Some False, s1)" using f(1) by (metis prod.collapse)
  then show ?thesis using f(2,3) by (auto simp: store_batch_def run_Call trace_Call run_bindp trace_bindp)
qed

text \<open>A message either changes nothing and asks nothing, or ends the loop (or the process).\<close>

definition gives_up :: "'s environment \<Rightarrow> (bool \<times> 'a) prog \<Rightarrow> bool" where
  "gives_up R p \<longleftrightarrow> (\<forall>s. (\<forall>x. outcome R p s = Some x \<longrightarrow> \<not> fst x) \<and> attempts (trace R p s) \<le> 3 \<and>
     (\<forall>c \<in> set (trace R p s). \<not> pipes c))"

lemma gives_up_bindp:
  assumes "calls_sat quiet p" and "\<And>a. gives_up R (f a)"
  shows "gives_up R (bindp p f)"
proof -
  have "(\<forall>x. outcome R (bindp p f) s = Some x \<longrightarrow> \<not> fst x) \<and> attempts (trace R (bindp p f) s) \<le> 3 \<and>
     (\<forall>c \<in> set (trace R (bindp p f) s). \<not> pipes c)" for s
  proof (cases "run R p s")
    case (Pair a s')
    then show ?thesis
      using quiet_trace [OF assms(1), of R s] assms(2) [unfolded gives_up_def, rule_format, where s = s']
      by (cases a) (simp_all add: run_bindp trace_bindp ball_Un, blast)
  qed
  then show ?thesis unfolding gives_up_def by blast
qed

lemma failing_message:
  assumes "stream_down R"
  shows "handleIncomingBatch m g = Ret (True, g) \<or> gives_up R (handleIncomingBatch m g)"
proof (cases "handleIncomingBatch m g = Ret (True, g)")
  case False
  then obtain ty sev ep j n h x n' h' x' es i data where
    p: "handleIncomingBatch m g = bindp (emit_event ty sev ep j g) (\<lambda>g. bindp (count_metric n h x g) (\<lambda>g.
      bindp (count_metric n' h' x' g) (\<lambda>g. store_batch es i data g)))"
    by (auto simp: handleIncomingBatch_def Let_def split: if_splits option.splits)
  have "gives_up R (store_batch es i data g')" for g'
    using failing_store [OF assms, of es i data g'] unfolding gives_up_def by auto
  then have "gives_up R (handleIncomingBatch m g)"
    unfolding p by (intro gives_up_bindp quiet_events)
  then show ?thesis ..
qed simp

text \<open>C28. Without notifications the intake of batches ends for good: while the stream takes no entries, whatever
  else happens and however many batches arrive, the gateway stores none of them, and it tries the stream
  at most three times in all, since the failure ends the loop instead of skipping the batch.\<close>

theorem failing_stream_ends_batch_intake:
  assumes "stream_down R"
  shows "attempts (trace R (handleIncomingBatches ms g) s) \<le> 3 \<and>
    (\<forall>cs. RPipe cs \<notin> set (trace R (handleIncomingBatches ms g) s))"
proof -
  have "attempts (trace R (handleIncomingBatches ms g) s) \<le> 3 \<and> (\<forall>c \<in> set (trace R (handleIncomingBatches ms g) s). \<not> pipes c)"
  proof (induction ms arbitrary: g s)
    case (Cons m ms)
    show ?case
    proof (cases "handleIncomingBatch m g = Ret (True, g)")
      case True
      then show ?thesis using Cons [of g s] by simp
    next
      case False
      then have u: "gives_up R (handleIncomingBatch m g)" using failing_message [OF assms] by blast
      then have "handle = None \<or> (\<exists>g'. handle = Some (False, g'))" if "handle = outcome R (handleIncomingBatch m g) s" for handle
        using that unfolding gives_up_def by (metis (full_types) fst_conv not_None_eq surj_pair)
      then show ?thesis
        using u unfolding gives_up_def by (auto simp: trace_bindp split: prod.split option.split)
    qed
  qed simp
  then show ?thesis by force
qed

definition no_stream :: "store environment" where
  "no_stream d c = (case c of RXAdd k vs \<Rightarrow> (ErrR, d) | _ \<Rightarrow> store_step d c)"

theorem failing_stream_ends_batch_intake_witness:
  "\<forall>cs. RPipe cs \<notin> set (trace no_stream (handleIncomingBatches
     (replicate 2 \<lparr>ReceivedFrom = ''Qm'', Data = demo_batch_text\<rparr>) demo_gateway) empty_store)"
proof -
  have "stream_down no_stream" by (simp add: stream_down_def no_stream_def)
  from failing_stream_ends_batch_intake [OF this] show ?thesis by blast
qed

end
