(* ===== verification/Votes.thy ===== *)
theory Votes
  imports Batches Tally Search
begin

text \<open>
  \<open>pkgs/consensus/signature_aggregator.go\<close> and the test batches of \<open>pkgs/consensus/batch_generator.go\<close>.
  Votes are batches, one per sequencer; those with the same root form a group, and a group of the
  required size is a consensus. \<open>vaDelivered\<close> is what the callback was handed, in order; each hand-over
  runs in a goroutine of its own. The generator's random numbers are a parameter: \<open>rnd k n\<close> is what
  the \<open>k\<close>-th call of \<open>rand.Intn\<close> returns for \<open>n\<close>.
\<close>

record consensusResult =
  crEpochId :: u64
  crProjectIds :: "string list"
  crSnapshotCids :: "string list"
  AggregateSignature :: "byte list"
  ParticipantBitmap :: "byte list"
  TotalValidators :: u32
  ParticipatingValidators :: u32
  crMerkleRoot :: "byte list"

record voteAggregator =
  vaEpochID :: u64
  vaVotes :: "(string, finalizedBatch) gomap"
  voteThreshold :: float64
  votingDeadline :: int
  vaCallback :: bool
  vaDelivered :: "consensusResult list"

datatype voteError = VotingClosed u64 | WrongEpoch u64 u64

definition NewVoteAggregator :: "u64 \<Rightarrow> float64 \<Rightarrow> int \<Rightarrow> voteAggregator prog" where
  "NewVoteAggregator epochID threshold votingDuration =
     Call NowNano (\<lambda>t. Ret \<lparr>vaEpochID = epochID, vaVotes = [], voteThreshold = threshold,
         votingDeadline = int_of t + votingDuration, vaCallback = False, vaDelivered = []\<rparr>)"

definition SetConsensusCallback :: "bool \<Rightarrow> voteAggregator \<Rightarrow> voteAggregator" where
  "SetConsensusCallback cb va = va\<lparr>vaCallback := cb\<rparr>"

section \<open>Consensus\<close>

definition add_to_group ::
  "string \<times> finalizedBatch \<Rightarrow> (string, finalizedBatch list) gomap \<Rightarrow> (string, finalizedBatch list) gomap" where
  "add_to_group x g =
     (let rootHex = hex_encode (fbMerkleRoot (snd x)) in AList.update rootHex (mget [] g rootHex @ [snd x]) g)"

definition root_groups :: "range_order \<Rightarrow> (string, finalizedBatch) gomap \<Rightarrow> (string, finalizedBatch list) gomap" where
  "root_groups ro votes = fold add_to_group (range_map ro ''votes'' votes) []"

definition required_votes :: "nat \<Rightarrow> float64 \<Rightarrow> int" where
  "required_votes totalVotes threshold = f_to_int (fmul (f_of_int (int totalVotes)) threshold)"

text \<open>The first 64 hex digits of all signatures; fewer are a slice panic.\<close>

definition aggregateSignatures :: "finalizedBatch list \<Rightarrow> byte list option" where
  "aggregateSignatures batches =
     map_option text_bytes (slice_to 64 (concat (map (\<lambda>b. hex_encode (BlsSignature b)) batches)))"

definition set_participant :: "nat \<Rightarrow> byte list \<Rightarrow> byte list" where
  "set_participant i bitmap = bitmap[i div 8 := Bit_Operations.or (bitmap ! (i div 8)) (push_bit (i mod 8) 1)]"

definition createParticipantBitmap :: "string list \<Rightarrow> byte list" where
  "createParticipantBitmap participants =
     fold set_participant [0 ..< length participants] (replicate ((length participants + 7) div 8) 0)"

definition buildConsensusResult :: "voteAggregator \<Rightarrow> finalizedBatch list \<Rightarrow> consensusResult option" where
  "buildConsensusResult va batches =
     (case batches of
        [] \<Rightarrow> None
      | refBatch # _ \<Rightarrow>
          map_option (\<lambda>sig. \<lparr>crEpochId = fbEpochId refBatch, crProjectIds = ProjectIds refBatch,
            crSnapshotCids = SnapshotCids refBatch, AggregateSignature = sig,
            ParticipantBitmap = createParticipantBitmap (map SequencerId batches),
            TotalValidators = of_nat (length (vaVotes va)), ParticipatingValidators = of_nat (length batches),
            crMerkleRoot = fbMerkleRoot refBatch\<rparr>) (aggregateSignatures batches))"

text \<open>The outer option is a panic, the inner one the nil result.\<close>

definition checkConsensus :: "range_order \<Rightarrow> voteAggregator \<Rightarrow> consensusResult option option" where
  "checkConsensus ro va =
     (let requiredVotes = required_votes (length (vaVotes va)) (voteThreshold va) in
      case find (\<lambda>x. requiredVotes \<le> int (length (snd x))) (range_map ro ''rootGroups'' (root_groups ro (vaVotes va))) of
        None \<Rightarrow> Some None
      | Some (_, batches) \<Rightarrow> map_option Some (buildConsensusResult va batches))"

definition AddVote ::
  "range_order \<Rightarrow> finalizedBatch \<Rightarrow> voteAggregator \<Rightarrow> ((voteError + unit) \<times> voteAggregator) prog" where
  "AddVote ro batch va =
     Call NowNano (\<lambda>t.
         if votingDeadline va < int_of t then Ret (Inl (VotingClosed (vaEpochID va)), va)
         else if fbEpochId batch \<noteq> vaEpochID va then Ret (Inl (WrongEpoch (fbEpochId batch) (vaEpochID va)), va)
         else
           let va' = va\<lparr>vaVotes := AList.update (SequencerId batch) batch (vaVotes va)\<rparr> in
           or_panic (checkConsensus ro va') (\<lambda>r. case r of
             Some c \<Rightarrow> Ret (Inr (), if vaCallback va' then va'\<lparr>vaDelivered := vaDelivered va' @ [c]\<rparr> else va')
           | None \<Rightarrow> Ret (Inr (), va')))"

section \<open>Status\<close>

record voteStatus =
  vsEpochID :: u64
  vsTotalVotes :: nat
  vsRequiredVotes :: int
  vsUniqueRoots :: nat
  vsLeadingRoot :: string
  vsLeadingCount :: int
  vsDeadline :: int
  vsTimeRemaining :: float64

definition root_counts :: "range_order \<Rightarrow> (string, finalizedBatch) gomap \<Rightarrow> (string, int) gomap" where
  "root_counts ro votes = fold (\<lambda>x. bump (hex_encode (fbMerkleRoot (snd x)))) (range_map ro ''votes'' votes) []"

definition leading_step :: "string \<times> int \<Rightarrow> string \<times> int \<Rightarrow> string \<times> int" where
  "leading_step x best = (if snd best < snd x then x else best)"

definition leading_root :: "(string \<times> int) list \<Rightarrow> string \<times> int" where
  "leading_root counts = fold leading_step counts ([], 0)"

interpretation leading: plurality leading_root
  by unfold_locales (auto simp: leading_root_def leading_step_def)

definition GetStatus :: "range_order \<Rightarrow> voteAggregator \<Rightarrow> voteStatus prog" where
  "GetStatus ro va =
     (let rootCounts = root_counts ro (vaVotes va); (root, n) = leading_root (range_map ro ''rootCounts'' rootCounts) in
      Call NowNano (\<lambda>t.
        Ret \<lparr>vsEpochID = vaEpochID va, vsTotalVotes = length (vaVotes va),
          vsRequiredVotes = required_votes (length (vaVotes va)) (voteThreshold va),
          vsUniqueRoots = length rootCounts, vsLeadingRoot = root, vsLeadingCount = n,
          vsDeadline = votingDeadline va, vsTimeRemaining = dur_seconds (votingDeadline va - int_of t)\<rparr>))"

section \<open>Test batches\<close>

record dummyGenerator =
  dgSequencerID :: string
  dgProjects :: "string list"

definition NewDummyBatchGenerator :: "string \<Rightarrow> dummyGenerator" where
  "NewDummyBatchGenerator sequencerID = \<lparr>dgSequencerID = sequencerID, dgProjects =
     [''0x1f9840a85d5aF5bf1D1762F925BDADdC4201F984'', ''0xA0b86991c6218b36c1d19D4a2e9Eb0cE3606eB48'',
      ''0xdAC17F958D2ee523a2206206994597C13D831ec7'', ''0x6B175474E89094C44Da98b954EedeAC495271d0F'',
      ''0x514910771AF9Ca656af840dff83E8264EcF986CA'', ''0x2260FAC5E5542a773Aa44fBCfeDf7C193bc2C599'',
      ''0x7Fc66500c84A76Ad7e9c93437bFc5Ac33E2DDaE9'', ''0xC02aaA39b223FE8D0A0e5C4F27eAD9083C756Cc2'']\<rparr>"

type_synonym draws = "nat \<Rightarrow> nat \<Rightarrow> nat"

definition swap_at :: "nat \<Rightarrow> nat \<Rightarrow> 'a list \<Rightarrow> 'a list" where
  "swap_at i j xs = xs[i := xs ! j, j := xs ! i]"

definition selectRandomProjects :: "draws \<Rightarrow> nat \<Rightarrow> nat \<Rightarrow> string list \<Rightarrow> string list" where
  "selectRandomProjects rnd k n projects =
     take (min n (length projects))
       (fold (\<lambda>i shuffled. swap_at i (rnd (k + i) (i + 1)) shuffled) [0 ..< length projects] projects)"

definition dummy_cid_text :: "dummyGenerator \<Rightarrow> u64 \<Rightarrow> string \<Rightarrow> int \<Rightarrow> string" where
  "dummy_cid_text g epochID projectID now = ''epoch:'' @ show_u64 epochID @ '':project:'' @ projectID @ '':sequencer:'' @
     dgSequencerID g @ '':time:'' @ show_int now"

definition generateDummyCID :: "golib \<Rightarrow> dummyGenerator \<Rightarrow> u64 \<Rightarrow> string \<Rightarrow> string prog" where
  "generateDummyCID L g epochID projectID =
     Call NowNano (\<lambda>t.
       or_panic (slice_to 44 (hex_encode (Sha256 L (text_bytes (dummy_cid_text g epochID projectID (int_of t)))))) (\<lambda>h.
       Ret (''Qm'' @ h)))"

fun dummy_text :: "string list \<Rightarrow> string list \<Rightarrow> string option" where
  "dummy_text [] cs = Some []"
| "dummy_text (p # ps) [] = None"
| "dummy_text (p # ps) (c # cs) = map_option (\<lambda>r. p @ '':'' @ c @ '':'' @ r) (dummy_text ps cs)"

definition calculateMerkleRoot :: "golib \<Rightarrow> string list \<Rightarrow> string list \<Rightarrow> byte list option" where
  "calculateMerkleRoot L ps cs = map_option (\<lambda>s. Sha256 L (text_bytes s)) (dummy_text ps cs)"

definition generateDummySignature :: "golib \<Rightarrow> dummyGenerator \<Rightarrow> u64 \<Rightarrow> byte list \<Rightarrow> byte list" where
  "generateDummySignature L g epochID merkleRoot =
     Sha256 L (text_bytes (''epoch:'' @ show_u64 epochID @ '':root:'' @ hex_encode merkleRoot @ '':signer:'' @ dgSequencerID g))"

definition dummy_project ::
  "golib \<Rightarrow> draws \<Rightarrow> dummyGenerator \<Rightarrow> u64 \<Rightarrow> nat \<times> string \<Rightarrow> string list \<times> (string, u32) gomap \<Rightarrow>
     (string list \<times> (string, u32) gomap) prog" where
  "dummy_project L rnd g epochID x st =
     bindp (generateDummyCID L g epochID (snd x)) (\<lambda>cid.
       Ret (fst st @ [cid], AList.update (snd x) (of_nat (5 + rnd (fst x) 6)) (snd st)))"

definition GenerateDummyBatch :: "golib \<Rightarrow> draws \<Rightarrow> dummyGenerator \<Rightarrow> u64 \<Rightarrow> finalizedBatch prog" where
  "GenerateDummyBatch L rnd g epochID =
     Call NowNano (\<lambda>_.
     let numProjects = 3 + rnd 0 4; selected = selectRandomProjects rnd 1 numProjects (dgProjects g) in
     bindp (for_each (dummy_project L rnd g epochID) (enumerate (1 + length (dgProjects g)) selected) ([], [])) (\<lambda>(cids, votes).
     or_panic (calculateMerkleRoot L selected cids) (\<lambda>root.
     Call Now (\<lambda>t. Ret (zero_batch\<lparr>fbEpochId := epochID, ProjectIds := selected, SnapshotCids := cids,
         fbMerkleRoot := root, BlsSignature := generateDummySignature L g epochID root,
         SequencerId := dgSequencerID g, fbTimestamp := word_of_int (int_of t), ProjectVotes := votes\<rparr>)))))"

section \<open>Groups\<close>

definition root_of :: "string \<times> finalizedBatch \<Rightarrow> byte list" where
  "root_of x = fbMerkleRoot (snd x)"

definition root_votes :: "voteAggregator \<Rightarrow> byte list \<Rightarrow> nat" where
  "root_votes va r = length (filter (\<lambda>x. root_of x = r) (vaVotes va))"

lemma groups_fold:
  "mget [] (fold add_to_group xs g) (hex_encode r) = mget [] g (hex_encode r) @ map snd (filter (\<lambda>x. root_of x = r) xs)"
  "fst ` set (fold add_to_group xs g) = (\<lambda>x. hex_encode (root_of x)) ` set xs \<union> fst ` set g"
  "go_ok g \<Longrightarrow> go_ok (fold add_to_group xs g)"
  by (induction xs arbitrary: g)
    (auto simp: add_to_group_def Let_def root_of_def mget_def map_of_update keys_update hex_encode_inject)

lemma root_group:
  assumes "(h, bs) \<in> set (root_groups ro votes)" and "go_ok votes"
  obtains r where "h = hex_encode r" and "bs = map snd (filter (\<lambda>x. root_of x = r) (range_map ro ''votes'' votes))"
    and "bs \<noteq> []" and "length bs = length (filter (\<lambda>x. root_of x = r) votes)"
proof -
  let ?xs = "range_map ro ''votes'' votes"
  have ok: "go_ok (root_groups ro votes)" unfolding root_groups_def by (rule groups_fold(3)) simp
  have "h \<in> (\<lambda>x. hex_encode (root_of x)) ` set ?xs"
    using assms(1) groups_fold(2) [of ?xs "[]"] unfolding root_groups_def by force
  then obtain x where x: "x \<in> set ?xs" "h = hex_encode (root_of x)" by blast
  have bs: "bs = map snd (filter (\<lambda>y. root_of y = root_of x) ?xs)"
    using groups_fold(1) [of ?xs "[]" "root_of x"] mget_in [OF ok assms(1)] x(2)
    by (simp add: root_groups_def) (simp add: mget_def)
  have "mset (filter (\<lambda>y. root_of y = root_of x) ?xs) = mset (filter (\<lambda>y. root_of y = root_of x) votes)"
    using mset_range_map [OF assms(2)] by (simp add: mset_filter)
  then have "length bs = length (filter (\<lambda>y. root_of y = root_of x) votes)"
    unfolding bs by (metis length_map size_mset)
  moreover have "bs \<noteq> []" using x(1) unfolding bs by (auto simp: filter_empty_conv)
  ultimately show ?thesis using that x(2) bs by blast
qed

lemma group_of_vote:
  assumes "(s, b) \<in> set votes" and "go_ok votes"
  shows "\<exists>bs. (hex_encode (fbMerkleRoot b), bs) \<in> set (root_groups ro votes)"
proof -
  have "(s, b) \<in> set (range_map ro ''votes'' votes)" using assms by (simp add: set_range_map)
  then have "hex_encode (fbMerkleRoot b) \<in> fst ` set (root_groups ro votes)"
    unfolding root_groups_def groups_fold(2) by (force simp: root_of_def)
  then show ?thesis by auto
qed

abbreviation required :: "voteAggregator \<Rightarrow> int" where
  "required va \<equiv> required_votes (length (vaVotes va)) (voteThreshold va)"

definition sufficient :: "voteAggregator \<Rightarrow> byte list \<Rightarrow> bool" where
  "sufficient va r \<longleftrightarrow> required va \<le> int (root_votes va r)"

text \<open>The group the loop stops at.\<close>

definition chosen_group :: "range_order \<Rightarrow> voteAggregator \<Rightarrow> finalizedBatch list option" where
  "chosen_group ro va = map_option snd (find (\<lambda>x. required va \<le> int (length (snd x)))
     (range_map ro ''rootGroups'' (root_groups ro (vaVotes va))))"

lemma checkConsensus_group:
  "checkConsensus ro va = (case chosen_group ro va of None \<Rightarrow> Some None | Some bs \<Rightarrow> map_option Some (buildConsensusResult va bs))"
  by (simp add: checkConsensus_def chosen_group_def Let_def split: option.split prod.split)

lemma groups_go_ok: "go_ok (root_groups ro votes)"
  unfolding root_groups_def by (rule groups_fold(3)) simp

lemma chosen_None:
  assumes "go_ok (vaVotes va)"
  shows "chosen_group ro va = None \<longleftrightarrow> (\<forall>x \<in> set (vaVotes va). \<not> sufficient va (root_of x))"
proof -
  have "chosen_group ro va = None \<longleftrightarrow> (\<forall>x \<in> set (root_groups ro (vaVotes va)). int (length (snd x)) < required va)"
    by (auto simp: chosen_group_def find_None_iff set_range_map groups_go_ok not_le)
  also have "\<dots> \<longleftrightarrow> (\<forall>x \<in> set (vaVotes va). \<not> sufficient va (root_of x))"
  proof safe
    fix s b assume all: "\<forall>x \<in> set (root_groups ro (vaVotes va)). int (length (snd x)) < required va"
      and v: "(s, b) \<in> set (vaVotes va)" and suf: "sufficient va (root_of (s, b))"
    obtain bs where g: "(hex_encode (fbMerkleRoot b), bs) \<in> set (root_groups ro (vaVotes va))"
      using group_of_vote [OF v assms] by blast
    then obtain r where "hex_encode (fbMerkleRoot b) = hex_encode r" "length bs = length (filter (\<lambda>x. root_of x = r) (vaVotes va))"
      using root_group [OF _ assms] by metis
    then show False using all g suf by (auto simp: sufficient_def root_votes_def root_of_def hex_encode_inject)
  next
    fix h bs assume all: "\<forall>x \<in> set (vaVotes va). \<not> sufficient va (root_of x)"
      and g: "(h, bs) \<in> set (root_groups ro (vaVotes va))"
    obtain r where r: "bs = map snd (filter (\<lambda>x. root_of x = r) (range_map ro ''votes'' (vaVotes va)))" "bs \<noteq> []"
      "length bs = length (filter (\<lambda>x. root_of x = r) (vaVotes va))"
      using root_group [OF g assms] by metis
    from r(1,2) obtain x where "x \<in> set (vaVotes va)" "root_of x = r"
      by (auto simp: filter_empty_conv set_range_map [OF assms])
    with all r(3) show "int (length (snd (h, bs))) < required va" by (auto simp: sufficient_def root_votes_def)
  qed
  finally show ?thesis .
qed

text \<open>The bytes of all signatures of the votes for a root.\<close>

definition signature_bytes :: "voteAggregator \<Rightarrow> byte list \<Rightarrow> nat" where
  "signature_bytes va r = (\<Sum>x \<leftarrow> filter (\<lambda>x. root_of x = r) (vaVotes va). length (BlsSignature (snd x)))"

lemma chosen_votes:
  assumes "go_ok (vaVotes va)" and "chosen_group ro va = Some bs"
  obtains r where "sufficient va r" and "bs \<noteq> []" and "mset bs = mset (map snd (filter (\<lambda>x. root_of x = r) (vaVotes va)))"
proof -
  obtain h where g: "(h, bs) \<in> set (root_groups ro (vaVotes va))" and n: "required va \<le> int (length bs)"
  proof -
    obtain x where x: "find (\<lambda>x. required va \<le> int (length (snd x)))
        (range_map ro ''rootGroups'' (root_groups ro (vaVotes va))) = Some x" "snd x = bs"
      using assms(2) unfolding chosen_group_def by auto
    then have "x \<in> set (root_groups ro (vaVotes va))" "required va \<le> int (length (snd x))"
      using find_Some_iff [of _ _ x] set_range_map [OF groups_go_ok] by (metis (no_types, lifting) nth_mem)+
    then show ?thesis using that x(2) by (metis prod.collapse)
  qed
  obtain r where r: "bs = map snd (filter (\<lambda>x. root_of x = r) (range_map ro ''votes'' (vaVotes va)))" "bs \<noteq> []"
    "length bs = length (filter (\<lambda>x. root_of x = r) (vaVotes va))"
    using root_group [OF g assms(1)] by metis
  have "mset bs = mset (map snd (filter (\<lambda>x. root_of x = r) (vaVotes va)))"
    unfolding r(1) by (simp add: mset_filter mset_range_map [OF assms(1)])
  moreover have "sufficient va r" using r(3) n by (simp add: sufficient_def root_votes_def)
  ultimately show thesis using that r(2) by blast
qed

lemma chosen_Some:
  assumes "go_ok (vaVotes va)" and "chosen_group ro va = Some bs"
  shows "\<exists>r. sufficient va r \<and> bs \<noteq> [] \<and> length bs = root_votes va r \<and>
    (\<forall>b \<in> set bs. fbMerkleRoot b = r \<and> (\<exists>s. (s, b) \<in> set (vaVotes va))) \<and>
    (\<Sum>b \<leftarrow> bs. length (BlsSignature b)) = signature_bytes va r"
proof -
  obtain r where r: "sufficient va r" "bs \<noteq> []" and m: "mset bs = mset (map snd (filter (\<lambda>x. root_of x = r) (vaVotes va)))"
    using chosen_votes [OF assms] .
  have "length bs = root_votes va r" using mset_eq_length [OF m] by (simp add: root_votes_def)
  moreover have "\<forall>b \<in> set bs. fbMerkleRoot b = r \<and> (\<exists>s. (s, b) \<in> set (vaVotes va))"
    using mset_eq_setD [OF m] by (auto simp: root_of_def)
  moreover have "(\<Sum>b \<leftarrow> bs. length (BlsSignature b)) = signature_bytes va r"
  proof -
    have "sum_mset (image_mset (\<lambda>b. length (BlsSignature b)) (mset bs)) =
        sum_mset (image_mset (\<lambda>b. length (BlsSignature b)) (mset (map snd (filter (\<lambda>x. root_of x = r) (vaVotes va)))))" by (simp only: m)
    then show ?thesis by (simp add: signature_bytes_def comp_def flip: sum_mset_sum_list mset_map)
  qed
  ultimately show ?thesis using r by blast
qed

section \<open>What a consensus says\<close>

lemma buildConsensusResult_Some:
  assumes "buildConsensusResult va bs = Some c"
  shows "\<exists>b \<in> set bs. crMerkleRoot c = fbMerkleRoot b \<and> crEpochId c = fbEpochId b \<and> crProjectIds c = ProjectIds b \<and>
      crSnapshotCids c = SnapshotCids b"
    and "TotalValidators c = of_nat (length (vaVotes va))" and "ParticipatingValidators c = of_nat (length bs)"
  using assms by (auto simp: buildConsensusResult_def split: list.splits)

text \<open>A vote that is in time and for the right epoch is stored, and then the groups are looked at.\<close>

definition with_vote :: "finalizedBatch \<Rightarrow> voteAggregator \<Rightarrow> voteAggregator" where
  "with_vote batch va = va\<lparr>vaVotes := AList.update (SequencerId batch) batch (vaVotes va)\<rparr>"

definition accepts :: "'s environment \<Rightarrow> finalizedBatch \<Rightarrow> voteAggregator \<Rightarrow> 's \<Rightarrow> bool" where
  "accepts R batch va s \<longleftrightarrow> int_of (fst (R s NowNano)) \<le> votingDeadline va \<and> fbEpochId batch = vaEpochID va"

lemma AddVote_outcome:
  "outcome R (AddVote ro batch va) s =
    (if accepts R batch va s
     then map_option (\<lambda>r. (Inr (), case r of
         Some c \<Rightarrow> if vaCallback va then (with_vote batch va)\<lparr>vaDelivered := vaDelivered va @ [c]\<rparr> else with_vote batch va
       | None \<Rightarrow> with_vote batch va)) (checkConsensus ro (with_vote batch va))
     else Some (Inl (if votingDeadline va < int_of (fst (R s NowNano)) then VotingClosed (vaEpochID va)
       else WrongEpoch (fbEpochId batch) (vaEpochID va)), va))"
  by (auto simp: AddVote_def accepts_def with_vote_def run_Call Let_def or_panic_def split: option.splits)

lemma aggregateSignatures_None:
  "aggregateSignatures bs = None \<longleftrightarrow> (\<Sum>b \<leftarrow> bs. length (BlsSignature b)) < 32"
proof -
  have "length (concat (map (\<lambda>b. hex_encode (BlsSignature b)) bs)) = 2 * (\<Sum>b \<leftarrow> bs. length (BlsSignature b))"
    by (induction bs) auto
  then show ?thesis by (auto simp: aggregateSignatures_def slice_to_def)
qed

lemma buildConsensusResult_None:
  "bs \<noteq> [] \<Longrightarrow> buildConsensusResult va bs = None \<longleftrightarrow> (\<Sum>b \<leftarrow> bs. length (BlsSignature b)) < 32"
  by (auto simp: buildConsensusResult_def aggregateSignatures_None split: list.split)

text \<open>C18. A consensus is a sufficient group, and a vote that is in time and for the right epoch looks for one. When no root has
  the required number of votes, counting the new one, the vote is stored and nothing more happens. When some root has, either a result
  is built from such a root, whose batches hold at least 32 bytes of signatures together, and it goes to the callback, if one is
  set; or the call panics, and then some root with enough votes has fewer than 32 bytes of signatures. The result carries the number
  of that root's votes, the number of all votes, and epoch, projects and CIDs of one of its batches.\<close>

theorem consensus_is_sufficient_group:
  assumes "go_ok (vaVotes va)" and "accepts R batch va s" and "wv = with_vote batch va"
  shows "case outcome R (AddVote ro batch va) s of
      None \<Rightarrow> \<exists>x \<in> set (vaVotes wv). sufficient wv (root_of x) \<and> signature_bytes wv (root_of x) < 32
    | Some (r, va') \<Rightarrow> r = Inr () \<and> vaVotes va' = vaVotes wv \<and>
        (if \<exists>x \<in> set (vaVotes wv). sufficient wv (root_of x)
         then \<exists>c. vaDelivered va' = vaDelivered va @ (if vaCallback va then [c] else []) \<and>
           sufficient wv (crMerkleRoot c) \<and> 32 \<le> signature_bytes wv (crMerkleRoot c) \<and>
           ParticipatingValidators c = of_nat (root_votes wv (crMerkleRoot c)) \<and> TotalValidators c = of_nat (length (vaVotes wv)) \<and>
           (\<exists>(i, b) \<in> set (vaVotes wv). crMerkleRoot c = fbMerkleRoot b \<and> crEpochId c = fbEpochId b \<and>
             crProjectIds c = ProjectIds b \<and> crSnapshotCids c = SnapshotCids b)
         else vaDelivered va' = vaDelivered va)"
proof -
  have ok: "go_ok (vaVotes wv)" using assms(1,3) by (simp add: with_vote_def)
  have wv: "vaDelivered wv = vaDelivered va" "vaCallback wv = vaCallback va" by (simp_all add: assms(3) with_vote_def)
  note out = AddVote_outcome [of R ro batch va s, unfolded if_P [OF assms(2)], folded assms(3)]
  show ?thesis
  proof (cases "chosen_group ro wv")
    case None
    then show ?thesis using chosen_None [OF ok, of ro] wv by (simp add: out checkConsensus_group)
  next
    case (Some bs)
    obtain r where r: "sufficient wv r" "bs \<noteq> []" "length bs = root_votes wv r"
      "\<forall>b \<in> set bs. fbMerkleRoot b = r \<and> (\<exists>i. (i, b) \<in> set (vaVotes wv))"
      and sig: "(\<Sum>b \<leftarrow> bs. length (BlsSignature b)) = signature_bytes wv r"
      using chosen_Some [OF ok Some] by (elim exE conjE)
    have suf: "\<exists>x \<in> set (vaVotes wv). root_of x = r"
    proof -
      obtain b where "b \<in> set bs" using r(2) by (cases bs) auto
      then obtain i where "(i, b) \<in> set (vaVotes wv)" "fbMerkleRoot b = r" using r(4) by blast
      then show ?thesis by (intro bexI [of _ "(i, b)"]) (simp_all add: root_of_def)
    qed
    show ?thesis
    proof (cases "buildConsensusResult wv bs")
      case None
      then show ?thesis
        using buildConsensusResult_None [OF r(2), of wv] r(1) suf sig by (auto simp: out checkConsensus_group Some)
    next
      case c: (Some c)
      obtain b where b: "b \<in> set bs" "crMerkleRoot c = fbMerkleRoot b \<and> crEpochId c = fbEpochId b \<and>
          crProjectIds c = ProjectIds b \<and> crSnapshotCids c = SnapshotCids b"
        using buildConsensusResult_Some(1) [OF c] by (rule bexE)
      have cr: "crMerkleRoot c = r" using bspec [OF r(4) b(1)] b(2) by simp
      obtain i where i: "(i, b) \<in> set (vaVotes wv)" using bspec [OF r(4) b(1)] by blast
      have ex: "\<exists>(i, b) \<in> set (vaVotes wv). crMerkleRoot c = fbMerkleRoot b \<and> crEpochId c = fbEpochId b \<and>
          crProjectIds c = ProjectIds b \<and> crSnapshotCids c = SnapshotCids b" using i b(2) by blast
      have n: "32 \<le> signature_bytes wv (crMerkleRoot c)"
        using buildConsensusResult_None [OF r(2), of wv] sig unfolding c cr by simp
      have some: "\<exists>x \<in> set (vaVotes wv). sufficient wv (root_of x)" using suf r(1) by blast
      let ?va' = "if vaCallback va then wv\<lparr>vaDelivered := vaDelivered va @ [c]\<rparr> else wv"
      have o: "outcome R (AddVote ro batch va) s = Some (Inr (), ?va')" by (simp add: out checkConsensus_group Some c)
      have d: "vaDelivered ?va' = vaDelivered va @ (if vaCallback va then [c] else [])" "vaVotes ?va' = vaVotes wv" by (simp_all add: wv)
      have rest: "sufficient wv (crMerkleRoot c)" "ParticipatingValidators c = of_nat (root_votes wv (crMerkleRoot c))"
        "TotalValidators c = of_nat (length (vaVotes wv))"
        using r(1,3) buildConsensusResult_Some(2,3) [OF c] by (simp_all add: cr)
      show ?thesis
        unfolding o option.case prod.case if_P [OF some]
        by (intro conjI refl exI [of _ c]) (rule d n ex rest)+
    qed
  qed
qed

section \<open>How little a consensus needs\<close>

text \<open>Unsigned votes crash: batches without a BLS signature, as level 1 makes them, are collected until some
  root has the required number of votes, and then adding the vote panics in the dummy aggregation of the signatures,
  whatever the order of the maps.\<close>

theorem unsigned_votes_crash_on_consensus:
  assumes "go_ok (vaVotes va)" and "accepts R batch va s"
    and "\<forall>x \<in> set (vaVotes (with_vote batch va)). BlsSignature (snd x) = []"
  shows "outcome R (AddVote ro batch va) s = None \<longleftrightarrow>
    (\<exists>x \<in> set (vaVotes (with_vote batch va)). sufficient (with_vote batch va) (root_of x))"
proof -
  let ?va = "with_vote batch va"
  have ok: "go_ok (vaVotes ?va)" using assms(1) by (simp add: with_vote_def)
  have "checkConsensus ro ?va = None \<longleftrightarrow> chosen_group ro ?va \<noteq> None"
  proof (cases "chosen_group ro ?va")
    case (Some bs)
    obtain r where bs: "bs \<noteq> []" "\<forall>b \<in> set bs. fbMerkleRoot b = r \<and> (\<exists>i. (i, b) \<in> set (vaVotes ?va))"
      using chosen_Some [OF ok Some] by (elim exE conjE) (rule that)
    have "\<forall>b \<in> set bs. BlsSignature b = []" using bs(2) assms(3) by fastforce
    then have "(\<Sum>b \<leftarrow> bs. length (BlsSignature b)) = 0" using sum_list_eq_0_iff by force
    then have "(\<Sum>b \<leftarrow> bs. length (BlsSignature b)) < 32" by linarith
    then have "buildConsensusResult ?va bs = None" using buildConsensusResult_None [OF bs(1)] by blast
    then show ?thesis by (simp add: checkConsensus_group Some)
  qed (simp add: checkConsensus_group)
  then show ?thesis using assms(2) chosen_None [OF ok] by (auto simp: AddVote_outcome)
qed

lemma required_one:
  assumes "0 \<le> q" and "q \<le> 1"
  shows "required_votes 1 (Fin q) \<le> 1"
proof -
  obtain r where r: "round64 q = Fin r" "0 \<le> r" "r \<le> of_int 1"
    using round64_to_int_le [of q 1] assms by auto
  have "trunc r \<le> 1" using trunc_bounds [OF r(2,3)] by simp
  then show ?thesis using r(1) f_of_int_exact [of 1] by (simp add: required_votes_def Let_def)
qed

lemma first_vote:
  assumes "vaVotes va = []" and "voteThreshold va = Fin q" and "0 \<le> q" and "q \<le> 1" and "vaCallback va"
    and "accepts R batch va s" and "32 \<le> length (BlsSignature batch)"
  shows "\<exists>va' c. outcome R (AddVote ro batch va) s = Some (Inr (), va') \<and> vaDelivered va' = vaDelivered va @ [c] \<and>
    TotalValidators c = 1 \<and> ParticipatingValidators c = 1 \<and> crMerkleRoot c = fbMerkleRoot batch \<and>
    crSnapshotCids c = SnapshotCids batch"
proof -
  let ?va = "with_vote batch va"
  have v: "vaVotes ?va = [(SequencerId batch, batch)]" by (simp add: with_vote_def assms(1))
  have rm: "range_map ro t [(k, x)] = [(k, x)]" for t k and x :: 'b
    using mset_range_map [of "[(k, x)]" ro t] by (simp add: go_ok_def)
  have g: "root_groups ro (vaVotes ?va) = [(hex_encode (fbMerkleRoot batch), [batch])]"
    by (simp add: root_groups_def v rm add_to_group_def Let_def mget_def)
  have "required ?va \<le> 1" using required_one [OF assms(3,4)] by (simp add: v) (simp add: with_vote_def assms(2))
  then have "chosen_group ro ?va = Some [batch]" by (simp add: chosen_group_def g rm)
  moreover obtain c where c: "buildConsensusResult ?va [batch] = Some c"
    using buildConsensusResult_None [of "[batch]" ?va] assms(7) by (cases "buildConsensusResult ?va [batch]") auto
  ultimately have "outcome R (AddVote ro batch va) s = Some (Inr (), ?va\<lparr>vaDelivered := vaDelivered va @ [c]\<rparr>)"
    using assms(5,6) by (simp add: AddVote_outcome checkConsensus_group)
  moreover have "TotalValidators c = 1 \<and> ParticipatingValidators c = 1"
    using buildConsensusResult_Some(2,3) [OF c] by (simp add: v)
  moreover have "crMerkleRoot c = fbMerkleRoot batch \<and> crSnapshotCids c = SnapshotCids batch"
    using buildConsensusResult_Some(1) [OF c] by simp
  ultimately show ?thesis by fastforce
qed

text \<open>The first vote decides: whatever the threshold up to unanimity, a new aggregator hands over a consensus of one
  validator out of one as soon as the first vote is added, since the required number is counted from the votes
  that are there, not from the validators.\<close>

theorem first_vote_decides:
  assumes "vaVotes va = []" and "voteThreshold va = Fin q" and "0 \<le> q" and "q \<le> 1" and "vaCallback va"
    and "accepts R batch va s" and "32 \<le> length (BlsSignature batch)"
  shows "\<exists>va' c. outcome R (AddVote ro batch va) s = Some (Inr (), va') \<and> vaDelivered va' = vaDelivered va @ [c] \<and>
    TotalValidators c = 1 \<and> ParticipatingValidators c = 1 \<and> crMerkleRoot c = fbMerkleRoot batch \<and>
    crSnapshotCids c = SnapshotCids batch"
  by (rule first_vote [OF assms])

text \<open>A split vote elects anyone: of several roots with enough votes each, and at a threshold of a half or by the
  rounding down of the required number there are several, the order of the map alone decides which is taken:
  for each there is an order that elects it.\<close>

theorem split_vote_elects_anyone:
  assumes "go_ok (vaVotes va)" and "x \<in> set (vaVotes va)" and "sufficient va (root_of x)"
    and "32 \<le> (\<Sum>y \<leftarrow> filter (\<lambda>y. root_of y = root_of x) (vaVotes va). length (BlsSignature (snd y)))"
  shows "\<exists>ro c. checkConsensus ro va = Some (Some c) \<and> crMerkleRoot c = root_of x"
proof -
  let ?k = "hex_encode (root_of x)"
  define ro :: range_order where "ro = (\<lambda>t ks. if t = ''rootGroups'' then ?k # remove1 ?k ks else ks)"
  have rv: "range_map ro ''votes'' m = m" if "go_ok m" for m :: "(string, finalizedBatch) gomap"
    using map_self_pairs [OF that] by (simp add: range_map_def order_keys_def ro_def)
  obtain bs where g: "(?k, bs) \<in> set (root_groups ro (vaVotes va))"
    using group_of_vote [of "fst x" "snd x" "vaVotes va" ro] assms(1,2) by (auto simp: root_of_def)
  have bs: "bs = map snd (filter (\<lambda>y. root_of y = root_of x) (vaVotes va))"
    using root_group [OF g assms(1)] rv [OF assms(1)] by (metis hex_encode_inject)
  have "mset (?k # remove1 ?k (map fst (root_groups ro (vaVotes va)))) = mset (map fst (root_groups ro (vaVotes va)))"
  proof -
    have "?k \<in> set (map fst (root_groups ro (vaVotes va)))" using g by force
    then show ?thesis by simp
  qed
  then have "order_keys ro ''rootGroups'' (map fst (root_groups ro (vaVotes va))) = ?k # remove1 ?k (map fst (root_groups ro (vaVotes va)))"
    by (simp add: order_keys_def ro_def)
  moreover have "map_of (root_groups ro (vaVotes va)) ?k = Some bs" using g groups_go_ok by (simp add: go_ok_def)
  ultimately obtain rest where r: "range_map ro ''rootGroups'' (root_groups ro (vaVotes va)) = (?k, bs) # rest"
    by (simp add: range_map_def)
  have "int (length bs) = int (root_votes va (root_of x))" by (simp add: bs root_votes_def)
  then have c: "chosen_group ro va = Some bs"
    using assms(3) by (simp add: chosen_group_def r sufficient_def)
  have n: "bs \<noteq> []" using assms(2) by (auto simp: bs filter_empty_conv)
  have "(\<Sum>b \<leftarrow> bs. length (BlsSignature b)) \<ge> 32" using assms(4) by (simp add: bs comp_def)
  then obtain c where c': "buildConsensusResult va bs = Some c"
    using buildConsensusResult_None [OF n, of va] by (cases "buildConsensusResult va bs") auto
  have "crMerkleRoot c = root_of x"
    using buildConsensusResult_Some(1) [OF c'] by (auto simp: bs root_of_def)
  moreover have "checkConsensus ro va = Some (Some c)" using \<open>chosen_group ro va = Some bs\<close> c' by (simp add: checkConsensus_group)
  ultimately show ?thesis by blast
qed

section \<open>Test batches are well formed\<close>

definition fair :: "draws \<Rightarrow> bool" where
  "fair rnd \<longleftrightarrow> (\<forall>k n. 0 < n \<longrightarrow> rnd k n < n)"

lemma shuffle_mset:
  assumes "fair rnd" and "m \<le> length xs"
  shows "mset (fold (\<lambda>i ys. swap_at i (rnd (k + i) (i + 1)) ys) [0 ..< m] xs) = mset xs"
  using assms(2)
proof (induction m)
  case (Suc m)
  let ?ys = "fold (\<lambda>i ys. swap_at i (rnd (k + i) (i + 1)) ys) [0 ..< m] xs"
  have m: "mset ?ys = mset xs" using Suc by simp
  have "rnd (k + m) (m + 1) < m + 1" using assms(1) by (simp add: fair_def)
  moreover have "length ?ys = length xs" using m by (rule mset_eq_length)
  ultimately have "mset (swap_at m (rnd (k + m) (m + 1)) ?ys) = mset ?ys"
    using Suc.prems unfolding swap_at_def by (intro mset_swap) simp_all
  then show ?case using m by simp
qed simp

lemma selected_projects:
  assumes "fair rnd" and "distinct ps" and "n \<le> length ps"
  shows "length (selectRandomProjects rnd k n ps) = n" "distinct (selectRandomProjects rnd k n ps)"
    "set (selectRandomProjects rnd k n ps) \<subseteq> set ps"
proof -
  let ?ys = "fold (\<lambda>i ys. swap_at i (rnd (k + i) (i + 1)) ys) [0 ..< length ps] ps"
  have m: "mset ?ys = mset ps" by (rule shuffle_mset [OF assms(1)]) simp
  then have "length ?ys = length ps" "distinct ?ys" "set ?ys = set ps"
    using assms(2) by (metis size_mset, metis mset_eq_imp_distinct_iff, metis set_mset_mset)
  then show "length (selectRandomProjects rnd k n ps) = n" "distinct (selectRandomProjects rnd k n ps)"
    "set (selectRandomProjects rnd k n ps) \<subseteq> set ps"
    using assms(3) set_take_subset [of n ?ys] by (simp_all add: selectRandomProjects_def)
qed

lemma generateDummyCID_run:
  assumes "sane_lib L"
  obtains c where "length c = 46" and "run R (generateDummyCID L g e p) s = (Some c, snd (R s NowNano))"
proof -
  let ?t = "text_bytes (dummy_cid_text g e p (int_of (fst (R s NowNano))))"
  have h: "length (Sha256 L bs) = 32" for bs using assms by (simp add: sane_lib_def)
  show ?thesis
    by (rule that [of "''Qm'' @ take 44 (hex_encode (Sha256 L ?t))"])
      (simp_all add: generateDummyCID_def run_Call slice_to_def h)
qed

lemma dummy_projects_run:
  assumes "sane_lib L" and "fair rnd" and "distinct ps"
  shows "\<exists>cs' vs'. outcome R (for_each (dummy_project L rnd g e) (enumerate k ps) (cs, vs)) s = Some (cs', vs') \<and>
    length cs' = length cs + length ps \<and> (\<forall>c \<in> set cs'. c \<in> set cs \<or> length c = 46) \<and>
    (\<forall>p. if p \<in> set ps then \<exists>n. map_of vs' p = Some n \<and> 5 \<le> n \<and> n \<le> 10 else map_of vs' p = map_of vs p)"
  using assms(3)
proof (induction ps arbitrary: k cs vs s)
  case (Cons p ps)
  obtain c where c: "length c = 46" "run R (generateDummyCID L g e p) s = (Some c, snd (R s NowNano))"
    using generateDummyCID_run [OF assms(1)] by metis
  let ?n = "of_nat (5 + rnd k 6) :: u32"
  have "rnd k 6 < 6" using assms(2) unfolding fair_def by simp
  then have "rnd k 6 \<in> {0, 1, 2, 3, 4, 5}" by auto
  then have n: "5 \<le> ?n" "?n \<le> 10" by (auto simp del: of_nat_add)
  have r: "run R (dummy_project L rnd g e (k, p) (cs, vs)) s = (Some (cs @ [c], AList.update p ?n vs), snd (R s NowNano))"
    by (simp add: dummy_project_def run_bindp c(2))
  obtain cs' vs' where f: "outcome R (for_each (dummy_project L rnd g e) (enumerate (Suc k) ps) (cs @ [c], AList.update p ?n vs))
      (snd (R s NowNano)) = Some (cs', vs')" "length cs' = length (cs @ [c]) + length ps"
    "\<forall>x \<in> set cs'. x \<in> set (cs @ [c]) \<or> length x = 46"
    "\<forall>q. if q \<in> set ps then \<exists>n. map_of vs' q = Some n \<and> 5 \<le> n \<and> n \<le> 10 else map_of vs' q = map_of (AList.update p ?n vs) q"
    using Cons.IH [where k = "Suc k" and cs = "cs @ [c]" and vs = "AList.update p ?n vs" and s = "snd (R s NowNano)"] Cons.prems
    by auto
  have "\<forall>c \<in> set cs'. c \<in> set cs \<or> length c = 46" using f(3) c(1) by auto
  moreover have "\<forall>q. if q \<in> set (p # ps) then \<exists>n. map_of vs' q = Some n \<and> 5 \<le> n \<and> n \<le> 10 else map_of vs' q = map_of vs q"
    using f(4) n Cons.prems by (auto simp: map_of_update)
  moreover have "outcome R (for_each (dummy_project L rnd g e) (enumerate k (p # ps)) (cs, vs)) s = Some (cs', vs')"
    using r f(1) by (simp add: run_bindp)
  ultimately show ?case using f(2) by (intro exI conjI) auto
qed auto

lemma dummy_text_Some: "length ps \<le> length cs \<Longrightarrow> dummy_text ps cs \<noteq> None"
  by (induction ps cs rule: dummy_text.induct) auto

text \<open>A test batch is well formed: whatever the random numbers and the clock, it lists between three and six
  different projects of the generator, one CID of 46 characters for each, between five and ten votes for each,
  and a signature of 32 bytes, with which a vote alone passes the signature aggregation.\<close>

theorem test_batch_is_well_formed:
  assumes "sane_lib L" and "fair rnd"
  shows "\<exists>b. outcome R (GenerateDummyBatch L rnd (NewDummyBatchGenerator i) e) s = Some b \<and> fbEpochId b = e \<and>
    SequencerId b = i \<and> length (ProjectIds b) \<in> {3 .. 6} \<and> distinct (ProjectIds b) \<and>
    set (ProjectIds b) \<subseteq> set (dgProjects (NewDummyBatchGenerator i)) \<and>
    length (SnapshotCids b) = length (ProjectIds b) \<and> (\<forall>c \<in> set (SnapshotCids b). length c = 46) \<and>
    (\<forall>p \<in> set (ProjectIds b). \<exists>n. map_of (ProjectVotes b) p = Some n \<and> 5 \<le> n \<and> n \<le> 10) \<and>
    length (BlsSignature b) = 32"
proof -
  let ?g = "NewDummyBatchGenerator i"
  let ?n = "3 + rnd 0 4"
  let ?ps = "selectRandomProjects rnd 1 ?n (dgProjects ?g)"
  have "rnd 0 4 < 4" using assms(2) unfolding fair_def by simp
  then have n: "?n \<in> {3 .. 6}" by auto
  have d: "distinct (dgProjects ?g)" "length (dgProjects ?g) = 8" by (simp_all add: NewDummyBatchGenerator_def)
  have ps: "length ?ps = ?n" "distinct ?ps" "set ?ps \<subseteq> set (dgProjects ?g)"
    using selected_projects [OF assms(2) d(1), of ?n 1] n d(2) by auto
  let ?f = "for_each (dummy_project L rnd ?g e) (enumerate (1 + length (dgProjects ?g)) ?ps) ([], [])"
  let ?s1 = "snd (R s NowNano)"
  obtain cs vs where f: "outcome R ?f ?s1 = Some (cs, vs)" "length cs = length ?ps" "\<forall>c \<in> set cs. length c = 46"
    "\<forall>p \<in> set ?ps. \<exists>n. map_of vs p = Some n \<and> 5 \<le> n \<and> n \<le> 10"
    using dummy_projects_run [OF assms(1,2) ps(2), where R = R and g = ?g and e = e and k = "1 + length (dgProjects ?g)"
        and cs = "[]" and vs = "[]" and s = ?s1] by auto
  obtain s2 where r: "run R ?f ?s1 = (Some (cs, vs), s2)" using f(1) by (metis prod.collapse)
  obtain root where root: "calculateMerkleRoot L ?ps cs = Some root"
    using dummy_text_Some [of ?ps cs] f(2) by (auto simp: calculateMerkleRoot_def)
  let ?b = "zero_batch\<lparr>fbEpochId := e, ProjectIds := ?ps, SnapshotCids := cs, fbMerkleRoot := root,
    BlsSignature := generateDummySignature L ?g e root, SequencerId := dgSequencerID ?g,
    fbTimestamp := word_of_int (int_of (fst (R s2 Now))), ProjectVotes := vs\<rparr>"
  have "outcome R (GenerateDummyBatch L rnd ?g e) s = Some ?b"
    using r root by (simp add: GenerateDummyBatch_def run_Call run_bindp Let_def)
  moreover have "dgSequencerID ?g = i" by (simp add: NewDummyBatchGenerator_def)
  moreover have "length (generateDummySignature L ?g e root) = 32"
    using assms(1) by (simp add: generateDummySignature_def sane_lib_def)
  ultimately show ?thesis using ps n f(2-4) by (intro exI [of _ ?b]) simp
qed

section \<open>Examples\<close>

definition demo_aggregator :: voteAggregator where
  "demo_aggregator = \<lparr>vaEpochID = 7, vaVotes = [], voteThreshold = Fin 1, votingDeadline = 0, vaCallback = True,
     vaDelivered = []\<rparr>"

definition demo_vote :: "string \<Rightarrow> byte \<Rightarrow> finalizedBatch" where
  "demo_vote i r = zero_batch\<lparr>fbEpochId := 7, SequencerId := i, fbMerkleRoot := [r], BlsSignature := replicate 32 r\<rparr>"

lemma demo_vote_fields: "length (BlsSignature (demo_vote i r)) = 32" "fbEpochId (demo_vote i r) = 7"
  "fbMerkleRoot (demo_vote i r) = [r]" "SequencerId (demo_vote i r) = i"
  by (simp_all add: demo_vote_def)

lemma demo_aggregator_fields: "vaVotes demo_aggregator = []" "voteThreshold demo_aggregator = Fin 1" "vaCallback demo_aggregator"
  "go_ok (vaVotes demo_aggregator)" "vaDelivered demo_aggregator = []"
  by (simp_all add: demo_aggregator_def)

lemma demo_accepts: "fbEpochId b = 7 \<Longrightarrow> accepts store_step b demo_aggregator empty_store"
  by (simp add: accepts_def demo_aggregator_def empty_store_def)

lemmas demo_first = first_vote [OF demo_aggregator_fields(1,2) _ _ demo_aggregator_fields(3) demo_accepts]

theorem first_vote_decides_witness:
  "\<exists>va' c. outcome store_step (AddVote in_order (demo_vote ''v1'' 1) demo_aggregator) empty_store = Some (Inr (), va') \<and>
     vaDelivered va' = [c] \<and> TotalValidators c = 1"
proof -
  have "(0 :: rat) \<le> 1" "(1 :: rat) \<le> 1" "32 \<le> length (BlsSignature (demo_vote ''v1'' 1))" by (simp_all add: demo_vote_fields)
  from first_vote_decides [OF demo_aggregator_fields(1,2) this(1,2) demo_aggregator_fields(3) demo_accepts this(3)]
  show ?thesis unfolding demo_vote_fields demo_aggregator_fields by force
qed

theorem consensus_is_sufficient_group_witness:
  "\<exists>va' c. outcome store_step (AddVote in_order (demo_vote ''v1'' 1) demo_aggregator) empty_store = Some (Inr (), va') \<and>
     vaDelivered va' = [c] \<and> sufficient va' (crMerkleRoot c)"
proof -
  let ?wv = "with_vote (demo_vote ''v1'' 1) demo_aggregator"
  obtain va' where o: "outcome store_step (AddVote in_order (demo_vote ''v1'' 1) demo_aggregator) empty_store = Some (Inr (), va')"
    and d: "vaDelivered va' \<noteq> vaDelivered demo_aggregator"
    using demo_first [of "demo_vote ''v1'' 1" in_order] by (force simp: demo_vote_fields)
  have e: "fbEpochId (demo_vote ''v1'' 1) = 7" by (simp add: demo_vote_fields)
  note f = consensus_is_sufficient_group [OF demo_aggregator_fields(4) demo_accepts [OF e] refl, of in_order, unfolded o option.case prod.case]
  have v: "vaVotes va' = vaVotes ?wv" using f by blast
  obtain c where c: "vaDelivered va' = vaDelivered demo_aggregator @ (if vaCallback demo_aggregator then [c] else [])" "sufficient ?wv (crMerkleRoot c)"
    using f d by (auto split: if_splits)
  have "voteThreshold va' = voteThreshold ?wv"
    using o by (auto simp: AddVote_outcome with_vote_def split: if_splits option.splits)
  then have "sufficient va' (crMerkleRoot c)" using c(2) v by (simp add: sufficient_def root_votes_def)
  with o c(1) show ?thesis by (auto simp: demo_aggregator_fields(3,5))
qed

theorem unsigned_votes_crash_on_consensus_witness:
  "outcome store_step (AddVote in_order (zero_batch\<lparr>fbEpochId := 7, SequencerId := ''v1''\<rparr>) demo_aggregator) empty_store = None"
proof -
  let ?b = "zero_batch\<lparr>fbEpochId := 7, SequencerId := ''v1''\<rparr>"
  have v: "vaVotes (with_vote ?b demo_aggregator) = [(''v1'', ?b)]" by (simp add: with_vote_def demo_aggregator_def)
  then have "\<forall>x \<in> set (vaVotes (with_vote ?b demo_aggregator)). BlsSignature (snd x) = []" by (simp add: zero_batch_def)
  moreover have "sufficient (with_vote ?b demo_aggregator) (root_of (''v1'', ?b))"
    using required_one [of 1] by (simp add: sufficient_def root_votes_def v) (simp add: with_vote_def demo_aggregator_def)
  ultimately show ?thesis
    using unsigned_votes_crash_on_consensus [OF demo_aggregator_fields(4) demo_accepts, of ?b in_order] v by auto
qed

text \<open>Three validators, three roots, and two thirds of the votes required, as a float64: any of the three is elected.\<close>

definition split_vote :: voteAggregator where
  "split_vote = demo_aggregator\<lparr>voteThreshold := round64 (33 / 50),
     vaVotes := [(''v1'', demo_vote ''v1'' 1), (''v2'', demo_vote ''v2'' 2), (''v3'', demo_vote ''v3'' 3)]\<rparr>"

lemma two_thirds_rounded: "round64 (33 / 50) = Fin (5944751508129055 / 9007199254740992)"
proof -
  have e: "exponent_of (33 / 50) = - 1" by (rule exponent_of_unique) (simp_all add: pow2_def)
  have h: "half_even ((33 / 50) / pow2 (- 53)) = 5944751508129055" 
  proof -
    have "\<lfloor>148618787703226368 / 25 :: rat\<rfloor> = 5944751508129054" by (simp add: floor_eq_iff)
    then show ?thesis by (simp add: half_even_def pow2_def Let_def)
  qed
  have "round_pos (33 / 50) = 5944751508129055 / 9007199254740992"
    using h by (simp add: round_pos_def ulp_exp_def e) (simp add: pow2_def)
  then show ?thesis by (simp add: round64_def)
qed

lemma two_thirds_product: "round64 (17834254524387165 / 9007199254740992) = Fin (4458563631096791 / 2251799813685248)"
proof -
  let ?q = "17834254524387165 / 9007199254740992 :: rat"
  have e: "exponent_of ?q = 0" by (rule exponent_of_unique) (simp_all add: pow2_def)
  have h: "half_even (?q / pow2 (- 52)) = 8917127262193582" 
  proof -
    have "\<lfloor>17834254524387165 / 2 :: rat\<rfloor> = 8917127262193582" by (simp add: floor_eq_iff)
    then show ?thesis by (simp add: half_even_def pow2_def Let_def)
  qed
  have "round_pos ?q = 4458563631096791 / 2251799813685248"
    using h by (simp add: round_pos_def ulp_exp_def e) (simp add: pow2_def)
  then show ?thesis by (simp add: round64_def)
qed

lemma two_thirds_of_three: "required_votes 3 (round64 (33 / 50)) = 1"
proof -
  have "\<lfloor>4458563631096791 / 2251799813685248 :: rat\<rfloor> = 1" by (simp add: floor_eq_iff)
  then show ?thesis
    using f_of_int_exact [of 3] by (simp add: required_votes_def two_thirds_rounded two_thirds_product trunc_def)
qed

theorem split_vote_elects_anyone_witness:
  "\<exists>ro c ro' c'. checkConsensus ro split_vote = Some (Some c) \<and> checkConsensus ro' split_vote = Some (Some c') \<and>
     crMerkleRoot c = [1] \<and> crMerkleRoot c' = [2]"
proof -
  have f: "length (vaVotes split_vote) = 3" "voteThreshold split_vote = round64 (33 / 50)" "go_ok (vaVotes split_vote)"
    by (simp_all add: split_vote_def go_ok_def)
  have "root_votes split_vote [1] = 1" "root_votes split_vote [2] = 1"
    by (simp_all add: root_votes_def split_vote_def root_of_def demo_vote_fields)
  then have s: "sufficient split_vote (root_of (''v1'', demo_vote ''v1'' 1))" "sufficient split_vote (root_of (''v2'', demo_vote ''v2'' 2))"
    by (simp_all add: sufficient_def f two_thirds_of_three root_of_def demo_vote_fields)
  have v: "(''v1'', demo_vote ''v1'' 1) \<in> set (vaVotes split_vote)" "(''v2'', demo_vote ''v2'' 2) \<in> set (vaVotes split_vote)"
    by (simp_all add: split_vote_def)
  have "\<exists>ro c. checkConsensus ro split_vote = Some (Some c) \<and> crMerkleRoot c = root_of (''v1'', demo_vote ''v1'' 1)"
    by (rule split_vote_elects_anyone [OF f(3) v(1) s(1)]) (simp add: split_vote_def root_of_def demo_vote_fields)
  moreover have "\<exists>ro c. checkConsensus ro split_vote = Some (Some c) \<and> crMerkleRoot c = root_of (''v2'', demo_vote ''v2'' 2)"
    by (rule split_vote_elects_anyone [OF f(3) v(2) s(2)]) (simp add: split_vote_def root_of_def demo_vote_fields)
  ultimately show ?thesis unfolding root_of_def snd_conv demo_vote_fields by blast
qed

theorem test_batch_is_well_formed_witness:
  "\<exists>b. outcome store_step (GenerateDummyBatch demo_lib (\<lambda>k n. 0) (NewDummyBatchGenerator ''v1'') 7) empty_store = Some b \<and>
     length (ProjectIds b) \<in> {3 .. 6}"
proof -
  have "fair (\<lambda>k n. 0)" by (simp add: fair_def)
  from test_batch_is_well_formed [OF sane_demo_lib this, of store_step "''v1''" 7 empty_store] show ?thesis by blast
qed

end
