(* ===== verification/Identity.thy ===== *)
theory Identity
  imports Eip712 Env
begin

text \<open>
  \<open>pkgs/identity/verifier.go\<close>: who sent a submission, checked against the slot table in Redis, with a cache.
  A peer id is written as its text; \<open>pd\<close> is \<open>peer.Decode\<close>, the canonical text of the id that a text
  stands for. \<open>crypto.SigToPub\<close> is recovery followed by unmarshalling of the key.
\<close>

record submissionRequest =
  irSlotId :: u64
  irDeadline :: u64
  irSnapshotCid :: string
  irEpochId :: u64
  irProjectId :: string

record verifiedIdentity =
  viAddress :: addr
  viPeer :: string
  viSlotID :: u64
  viFullNode :: bool
  viFlagged :: bool
  viVerifiedAt :: int
  viExpiresAt :: int

record slotInfo =
  siSlotID :: u64
  siAddress :: addr
  siPeer :: string
  siDataMarket :: string
  siEpochID :: u64

record identityVerifier =
  verifiedCache :: "(string, verifiedIdentity) gomap"
  cacheTTL :: int
  fullNodeAddresses :: "string list"

datatype identityError =
    WindowNotOpen u64
  | RecoveryFailed
  | RedisFailed
  | FlaggedSnapshotter string
  | NoSlotInfo u64
  | AddressMismatch string string
  | PeerMismatch string string

definition NewIdentityVerifier :: "int \<Rightarrow> string list \<Rightarrow> identityVerifier" where
  "NewIdentityVerifier ttl fullNodes = \<lparr>verifiedCache = [], cacheTTL = ttl, fullNodeAddresses = map lower fullNodes\<rparr>"

section \<open>The signer\<close>

definition request_text :: "submissionRequest \<Rightarrow> string" where
  "request_text rq = show_u64 (irSlotId rq) @ '':'' @ show_u64 (irDeadline rq) @ '':'' @ irSnapshotCid rq @ '':'' @
     show_u64 (irEpochId rq) @ '':'' @ irProjectId rq"

definition hashRequest :: "golib \<Rightarrow> submissionRequest \<Rightarrow> byte list" where
  "hashRequest L rq =
     (let data = request_text rq in
      Keccak256 L (text_bytes (CHR 0x19 # ''Ethereum Signed Message:'' @ [CHR 0x0A] @ show_nat (length data) @ data)))"

definition RecoverSnapshotterAddress :: "golib \<Rightarrow> submissionRequest \<Rightarrow> byte list \<Rightarrow> addr option" where
  "RecoverSnapshotterAddress L rq signature =
     map_option (PubkeyToAddress L) (Option.bind (Ecrecover L (hashRequest L rq) signature) (UnmarshalPubkey L))"

section \<open>The slot table\<close>

definition slot_info_key :: "string \<Rightarrow> u64 \<Rightarrow> string" where
  "slot_info_key dataMarket slotID = ''slotInfo:'' @ lower dataMarket @ '':'' @ show_u64 slotID"

definition flagged_key :: "string \<Rightarrow> string" where
  "flagged_key dataMarket = ''flagged_snapshotters:'' @ lower dataMarket"

text \<open>\<open>fmt.Sscanf(s, "%d", &x)\<close>: leading digits after spaces; the variable keeps its zero when there are none.\<close>

definition scan_u64 :: "string \<Rightarrow> u64" where
  "scan_u64 s =
     (case parse_uint (takeWhile (\<lambda>c. digit_val c \<noteq> None) (dropWhile (\<lambda>c. c = CHR '' '') s)) of
        None \<Rightarrow> 0
      | Some e \<Rightarrow> e)"

definition parse_slot :: "golib \<Rightarrow> string \<Rightarrow> u64 \<Rightarrow> (string, blob) gomap \<Rightarrow> slotInfo" where
  "parse_slot L dataMarket slotID data =
     \<lparr>siSlotID = slotID,
      siAddress = (case map_of data ''snapshotter_address'' of None \<Rightarrow> zero_addr | Some b \<Rightarrow> HexToAddress L (field_text (Some b))),
      siPeer = (case map_of data ''libp2p_peer_id'' of None \<Rightarrow> [] | Some b \<Rightarrow> field_text (Some b)),
      siDataMarket = dataMarket,
      siEpochID = (case map_of data ''epoch_id'' of None \<Rightarrow> 0 | Some b \<Rightarrow> scan_u64 (field_text (Some b)))\<rparr>"

definition getSlotInfo :: "golib \<Rightarrow> string \<Rightarrow> u64 \<Rightarrow> (identityError + slotInfo) prog" where
  "getSlotInfo L dataMarket slotID =
     Call (RHGetAll (slot_info_key dataMarket slotID)) (\<lambda>r. case r of
       HashR data \<Rightarrow> Ret (if data = [] then Inl (NoSlotInfo slotID) else Inr (parse_slot L dataMarket slotID data))
     | _ \<Rightarrow> Ret (Inl RedisFailed))"

definition checkIfFlagged :: "golib \<Rightarrow> string \<Rightarrow> addr \<Rightarrow> (identityError + bool) prog" where
  "checkIfFlagged L dataMarket snapshotter =
     Call (RSIsMember (flagged_key dataMarket) (AddrHex L snapshotter)) (\<lambda>r.
       Ret (if r = ErrR then Inl RedisFailed else Inr (int_of r = 1)))"

definition slot_fields :: "golib \<Rightarrow> slotInfo \<Rightarrow> int \<Rightarrow> (string \<times> blob) list" where
  "slot_fields L si now =
     [(''slot_id'', Js (JNum (uint (siSlotID si)))), (''snapshotter_address'', Txt (AddrHex L (siAddress si))),
      (''data_market'', Txt (siDataMarket si)), (''epoch_id'', Js (JNum (uint (siEpochID si)))),
      (''cached_at'', Js (JNum now))] @
     (if siPeer si = [] then [] else [(''libp2p_peer_id'', Txt (siPeer si))])"

definition CacheSlotInfo :: "golib \<Rightarrow> string \<Rightarrow> slotInfo \<Rightarrow> bool prog" where
  "CacheSlotInfo L dataMarket si =
     (let slotKey = slot_info_key dataMarket (siSlotID si) in
      Call Now (\<lambda>t. Call (RPipe [RHSet slotKey (slot_fields L si (int_of t)), RExpire slotKey 86400]) (\<lambda>r.
      Ret (r \<noteq> ErrR))))"

definition UpdateSlotLibP2PIdentity :: "string \<Rightarrow> u64 \<Rightarrow> string \<Rightarrow> bool prog" where
  "UpdateSlotLibP2PIdentity dataMarket slotID peerID =
     Call (RHSet (slot_info_key dataMarket slotID) [(''libp2p_peer_id'', Txt peerID)]) (\<lambda>r. Ret (r \<noteq> ErrR))"

definition GetSlotsByPeerID :: "string \<Rightarrow> u64 list" where
  "GetSlotsByPeerID peerID = []"

section \<open>Verification\<close>

definition isFullNode :: "identityVerifier \<Rightarrow> string \<Rightarrow> bool" where
  "isFullNode v address \<longleftrightarrow> lower address \<in> set (fullNodeAddresses v)"

definition cache_key :: "golib \<Rightarrow> addr \<Rightarrow> u64 \<Rightarrow> string \<Rightarrow> string" where
  "cache_key L a slotID peerID = AddrHex L a @ '':'' @ show_u64 slotID @ '':'' @ peerID"

text \<open>A registered id that cannot be decoded is passed over with a warning.\<close>

definition check_slot :: "golib \<Rightarrow> (string \<Rightarrow> string option) \<Rightarrow> addr \<Rightarrow> string \<Rightarrow> slotInfo \<Rightarrow> identityError option" where
  "check_slot L pd a sender si =
     (if AddrHex L a \<noteq> AddrHex L (siAddress si) then Some (AddressMismatch (AddrHex L a) (AddrHex L (siAddress si)))
      else if siPeer si = [] then None
      else case pd (siPeer si) of
        None \<Rightarrow> None
      | Some expected \<Rightarrow> if sender \<noteq> expected then Some (PeerMismatch sender expected) else None)"

definition verify_fresh ::
  "golib \<Rightarrow> (string \<Rightarrow> string option) \<Rightarrow> addr \<Rightarrow> u64 \<Rightarrow> string \<Rightarrow> string \<Rightarrow> identityVerifier \<Rightarrow>
     ((identityError + verifiedIdentity) \<times> identityVerifier) prog" where
  "verify_fresh L pd a slotID dataMarket sender v =
     bindp (checkIfFlagged L dataMarket a) (\<lambda>f. case f of
       Inl e \<Rightarrow> Ret (Inl e, v)
     | Inr flagged \<Rightarrow>
         if flagged then Ret (Inl (FlaggedSnapshotter (AddrHex L a)), v)
         else bindp (getSlotInfo L dataMarket slotID) (\<lambda>s. case s of
           Inl e \<Rightarrow> Ret (Inl e, v)
         | Inr si \<Rightarrow>
             (case check_slot L pd a sender si of
                Some e \<Rightarrow> Ret (Inl e, v)
              | None \<Rightarrow>
                  Call NowNano (\<lambda>t1. Call NowNano (\<lambda>t2.
                  let verified = \<lparr>viAddress = a, viPeer = sender, viSlotID = slotID, viFullNode = isFullNode v (AddrHex L a),
                        viFlagged = False, viVerifiedAt = int_of t1, viExpiresAt = int_of t2 + cacheTTL v\<rparr> in
                  Ret (Inr verified,
                    v\<lparr>verifiedCache := AList.update (cache_key L a slotID sender) verified (verifiedCache v)\<rparr>))))))"

definition VerifySubmissionWithP2P ::
  "golib \<Rightarrow> (string \<Rightarrow> string option) \<Rightarrow> submissionRequest \<Rightarrow> byte list \<Rightarrow> string \<Rightarrow> string \<Rightarrow> identityVerifier \<Rightarrow>
     ((identityError + verifiedIdentity) \<times> identityVerifier) prog" where
  "VerifySubmissionWithP2P L pd rq signature dataMarket sender v =
     (case RecoverSnapshotterAddress L rq signature of
        None \<Rightarrow> Ret (Inl RecoveryFailed, v)
      | Some a \<Rightarrow>
          let key = cache_key L a (irSlotId rq) sender in
          (case map_of (verifiedCache v) key of
             Some cached \<Rightarrow> Call NowNano (\<lambda>t.
               if int_of t < viExpiresAt cached then Ret (Inr cached, v)
               else verify_fresh L pd a (irSlotId rq) dataMarket sender
                 (v\<lparr>verifiedCache := AList.delete key (verifiedCache v)\<rparr>))
           | None \<Rightarrow> verify_fresh L pd a (irSlotId rq) dataMarket sender v))"

definition VerifySubmission ::
  "golib \<Rightarrow> (string \<Rightarrow> string option) \<Rightarrow> submissionRequest \<Rightarrow> byte list \<Rightarrow> string \<Rightarrow> identityVerifier \<Rightarrow>
     ((identityError + verifiedIdentity) \<times> identityVerifier) prog" where
  "VerifySubmission L pd rq signature dataMarket v = VerifySubmissionWithP2P L pd rq signature dataMarket [] v"

definition ValidateSubmissionEligibility ::
  "golib \<Rightarrow> (string \<Rightarrow> string option) \<Rightarrow> submissionRequest \<Rightarrow> byte list \<Rightarrow> string \<Rightarrow> string \<Rightarrow> bool \<Rightarrow> identityVerifier \<Rightarrow>
     ((identityError + unit) \<times> identityVerifier) prog" where
  "ValidateSubmissionEligibility L pd rq signature dataMarket sender windowOpen v =
     (if \<not> windowOpen then Ret (Inl (WindowNotOpen (irEpochId rq)), v)
      else bindp (VerifySubmissionWithP2P L pd rq signature dataMarket sender v) (\<lambda>(r, v').
        Ret (case r of Inl e \<Rightarrow> Inl e | Inr i \<Rightarrow> Inr (), v')))"

section \<open>Signatures in hex\<close>

text \<open>\<open>hex.DecodeString\<close>: pairs of digits of either case, and nothing else.\<close>

definition hex_val :: "char \<Rightarrow> nat option" where
  "hex_val c =
     (let n = of_char c :: nat in
      if 48 \<le> n \<and> n \<le> 57 then Some (n - 48)
      else if 97 \<le> n \<and> n \<le> 102 then Some (n - 87)
      else if 65 \<le> n \<and> n \<le> 70 then Some (n - 55)
      else None)"

fun hex_decode :: "string \<Rightarrow> byte list option" where
  "hex_decode [] = Some []"
| "hex_decode [c] = None"
| "hex_decode (c # e # s) =
     (case (hex_val c, hex_val e) of
        (Some h, Some l) \<Rightarrow> map_option (Cons (of_nat (16 * h + l))) (hex_decode s)
      | _ \<Rightarrow> None)"

definition ParseSignature :: "string \<Rightarrow> byte list option" where
  "ParseSignature hexSig = hex_decode (trim_prefix ''0x'' hexSig)"

section \<open>What verification guarantees\<close>

text \<open>The slot table of a market names the signer for the slot, does not flag him, and names no other peer.\<close>

definition registered :: "golib \<Rightarrow> (string \<Rightarrow> string option) \<Rightarrow> store \<Rightarrow> addr \<Rightarrow> u64 \<Rightarrow> string \<Rightarrow> string \<Rightarrow> bool" where
  "registered L pd d a slotID sender m \<longleftrightarrow>
     AddrHex L a \<notin> set (sets d (flagged_key m)) \<and> hashes d (slot_info_key m slotID) \<noteq> [] \<and>
     (let si = parse_slot L m slotID (hashes d (slot_info_key m slotID)) in
      AddrHex L a = AddrHex L (siAddress si) \<and> (siPeer si = [] \<or> pd (siPeer si) \<in> {None, Some sender}))"

lemma check_slot_None:
  "check_slot L pd a sender si = None \<longleftrightarrow>
     AddrHex L a = AddrHex L (siAddress si) \<and> (siPeer si = [] \<or> pd (siPeer si) \<in> {None, Some sender})"
  by (auto simp: check_slot_def split: option.split)

lemma check_slot_Some:
  assumes "check_slot L pd a sender si = Some e"
  shows "\<not> (AddrHex L a = AddrHex L (siAddress si) \<and> (siPeer si = [] \<or> pd (siPeer si) \<in> {None, Some sender}))"
  using check_slot_None [of L pd a sender si] assms by simp

text \<open>A fresh check succeeds exactly for a registered sender.\<close>

lemma verify_fresh_Inr:
  assumes "run store_step (verify_fresh L pd a n m sender v) d = (Some (Inr i, v'), d')"
  shows "registered L pd d a n sender m \<and> viAddress i = a \<and> viSlotID i = n \<and> viPeer i = sender \<and>
    viExpiresAt i = clock d (Suc (readings d)) + cacheTTL v \<and>
    v' = v\<lparr>verifiedCache := AList.update (cache_key L a n sender) i (verifiedCache v)\<rparr>"
  using assms
  by (auto simp: verify_fresh_def checkIfFlagged_def getSlotInfo_def run_Call run_bindp registered_def check_slot_None Let_def
      split: if_splits option.splits sum.splits)

lemma verify_fresh_Inl:
  assumes "run store_step (verify_fresh L pd a n m sender v) d = (Some (Inl e, v'), d')"
  shows "v' = v \<and> \<not> registered L pd d a n sender m"
  using assms
  by (auto simp: verify_fresh_def checkIfFlagged_def getSlotInfo_def run_Call run_bindp registered_def Let_def
      split: if_splits option.splits sum.splits dest: check_slot_Some)

lemma verify_fresh_clock:
  assumes "run store_step (verify_fresh L pd a n m sender v) d = (Some (r, v'), d')"
  shows "clock d' = clock d \<and> readings d' = (case r of Inl e \<Rightarrow> readings d | Inr i \<Rightarrow> Suc (Suc (readings d)))"
  using assms
  by (auto simp: verify_fresh_def checkIfFlagged_def getSlotInfo_def run_Call run_bindp Let_def
      split: if_splits option.splits sum.splits)

text \<open>
  A verifier at work: between its calls the slot table may change in any way, and time passes on the one clock; \<open>seen\<close>
  are the stores it was asked in.
\<close>

inductive verifying :: "golib \<Rightarrow> (string \<Rightarrow> string option) \<Rightarrow> int \<Rightarrow> store \<times> identityVerifier \<times> store list \<Rightarrow> bool"
  for L pd ttl where
  fresh_verifier: "verifying L pd ttl (d, NewIdentityVerifier ttl fullNodes, [])"
| table_changes: "verifying L pd ttl (d, v, seen) \<Longrightarrow> clock d' = clock d \<Longrightarrow> readings d \<le> readings d' \<Longrightarrow>
    verifying L pd ttl (d', v, seen)"
| submission_comes: "verifying L pd ttl (d, v, seen) \<Longrightarrow>
    run store_step (VerifySubmissionWithP2P L pd rq signature m sender v) d = (Some (r, v'), d') \<Longrightarrow>
    verifying L pd ttl (d', v', d # seen)"

text \<open>An entry of the cache goes back to a call in whose store its sender was registered; the call read the clock \<open>clk\<close> for the
  expiry, before the reading \<open>now\<close>.\<close>

definition entry_ok ::
  "golib \<Rightarrow> (string \<Rightarrow> string option) \<Rightarrow> int \<Rightarrow> (nat \<Rightarrow> int) \<Rightarrow> nat \<Rightarrow> store list \<Rightarrow> string \<Rightarrow> verifiedIdentity \<Rightarrow> bool" where
  "entry_ok L pd ttl clk now seen k i \<longleftrightarrow>
     k = cache_key L (viAddress i) (viSlotID i) (viPeer i) \<and>
     (\<exists>d \<in> set seen. \<exists>m. registered L pd d (viAddress i) (viSlotID i) (viPeer i) m \<and> clock d = clk \<and>
       (\<exists>n. readings d \<le> n \<and> n \<le> readings d + 2 \<and> n < now \<and> viExpiresAt i = clk n + ttl))"

definition cache_ok ::
  "golib \<Rightarrow> (string \<Rightarrow> string option) \<Rightarrow> int \<Rightarrow> (nat \<Rightarrow> int) \<Rightarrow> nat \<Rightarrow> store list \<Rightarrow> identityVerifier \<Rightarrow> bool" where
  "cache_ok L pd ttl clk now seen v \<longleftrightarrow> cacheTTL v = ttl \<and>
     (\<forall>k i. map_of (verifiedCache v) k = Some i \<longrightarrow> entry_ok L pd ttl clk now seen k i)"

lemma entry_ok_later:
  "entry_ok L pd ttl clk now seen k i \<Longrightarrow> now \<le> now' \<Longrightarrow> set seen \<subseteq> set seen' \<Longrightarrow> entry_ok L pd ttl clk now' seen' k i"
  unfolding entry_ok_def by (meson less_le_trans subsetD)

lemma cache_ok_later:
  "cache_ok L pd ttl clk now seen v \<Longrightarrow> now \<le> now' \<Longrightarrow> set seen \<subseteq> set seen' \<Longrightarrow> cache_ok L pd ttl clk now' seen' v"
  unfolding cache_ok_def using entry_ok_later by blast

text \<open>The verdict and the cache after one call, in terms of both.\<close>

lemma cache_ok_fresh:
  assumes run: "run store_step (verify_fresh L pd a n m sender w) (d\<lparr>readings := k\<rparr>) = (Some (r, v'), d')"
    and "readings d \<le> k" and "k \<le> Suc (readings d)" and "cache_ok L pd ttl (clock d) (readings d) seen w"
  shows "cache_ok L pd ttl (clock d) (readings d') (d # seen) v' \<and> clock d' = clock d \<and> k \<le> readings d' \<and>
    (\<forall>i. r = Inr i \<longrightarrow> map_of (verifiedCache v') (cache_key L a n sender) = Some i \<and> registered L pd d a n sender m \<and>
      viAddress i = a \<and> viSlotID i = n \<and> viPeer i = sender)"
proof (cases r)
  case (Inl e)
  then have "v' = w" using verify_fresh_Inl run by blast
  moreover have "clock d' = clock d \<and> k \<le> readings d'" using verify_fresh_clock [OF run] Inl by simp
  ultimately show ?thesis using Inl cache_ok_later [OF assms(4), of "readings d'" "d # seen"] assms(2) by auto
next
  case (Inr i)
  note f = verify_fresh_Inr [OF run [unfolded Inr]]
  have c: "clock d' = clock d" "readings d' = Suc (Suc k)" using verify_fresh_clock [OF run] Inr by simp_all
  have reg: "registered L pd d a n sender m" using f by (simp add: registered_def)
  moreover have "viExpiresAt i = clock d (Suc k) + ttl" "viAddress i = a" "viSlotID i = n" "viPeer i = sender"
    using f assms(4) by (simp_all add: cache_ok_def)
  moreover from this have "entry_ok L pd ttl (clock d) (readings d') (d # seen) (cache_key L a n sender) i"
    unfolding entry_ok_def using reg assms(2,3) c(2) by (auto intro!: exI [of _ m] exI [of _ "Suc k"])
  moreover have "cache_ok L pd ttl (clock d) (readings d') (d # seen) w"
    by (rule cache_ok_later [OF assms(4)]) (use assms(2) c(2) in auto)
  ultimately show ?thesis using f c Inr by (auto simp: cache_ok_def map_of_update)
qed

lemma verify_step:
  assumes "run store_step (VerifySubmissionWithP2P L pd rq signature m sender v) d = (Some (r, v'), d')"
    and "cache_ok L pd ttl (clock d) (readings d) seen v"
  shows "cache_ok L pd ttl (clock d) (readings d') (d # seen) v' \<and> clock d' = clock d \<and> readings d \<le> readings d' \<and>
    (\<forall>i. r = Inr i \<longrightarrow> (\<exists>a. RecoverSnapshotterAddress L rq signature = Some a \<and>
       (registered L pd d a (irSlotId rq) sender m \<and> viAddress i = a \<and> viSlotID i = irSlotId rq \<and> viPeer i = sender \<or>
        entry_ok L pd ttl (clock d) (readings d) seen (cache_key L a (irSlotId rq) sender) i \<and> clock d (readings d) < viExpiresAt i)))"
proof (cases "RecoverSnapshotterAddress L rq signature")
  case None
  then have "r = Inl RecoveryFailed" "v' = v" "d' = d" using assms(1) by (auto simp: VerifySubmissionWithP2P_def)
  moreover have "cache_ok L pd ttl (clock d) (readings d) (d # seen) v" by (rule cache_ok_later [OF assms(2)]) auto
  ultimately show ?thesis by simp
next
  case (Some a)
  let ?k = "cache_key L a (irSlotId rq) sender"
  show ?thesis
  proof (cases "map_of (verifiedCache v) ?k")
    case None
    have "run store_step (verify_fresh L pd a (irSlotId rq) m sender v) (d\<lparr>readings := readings d\<rparr>) = (Some (r, v'), d')"
      using assms(1) Some None by (simp add: VerifySubmissionWithP2P_def)
    from cache_ok_fresh [OF this _ _ assms(2)] Some show ?thesis by auto
  next
    case (Some cached)
    note rec = \<open>RecoverSnapshotterAddress L rq signature = Some a\<close>
    show ?thesis
    proof (cases "clock d (readings d) < viExpiresAt cached")
      case True
      then have r: "r = Inr cached" "v' = v" "d' = d\<lparr>readings := Suc (readings d)\<rparr>"
        using assms(1) rec Some by (auto simp: VerifySubmissionWithP2P_def run_Call)
      have "entry_ok L pd ttl (clock d) (readings d) seen ?k cached" using Some assms(2) by (simp add: cache_ok_def)
      then show ?thesis using r rec True cache_ok_later [OF assms(2), of "Suc (readings d)" "d # seen"] by auto
    next
      case False
      let ?w = "v\<lparr>verifiedCache := AList.delete ?k (verifiedCache v)\<rparr>"
      have run: "run store_step (verify_fresh L pd a (irSlotId rq) m sender ?w) (d\<lparr>readings := Suc (readings d)\<rparr>) = (Some (r, v'), d')"
        using assms(1) rec Some False by (simp add: VerifySubmissionWithP2P_def run_Call)
      have "cache_ok L pd ttl (clock d) (readings d) seen ?w" using assms(2) by (auto simp: cache_ok_def map_of_delete)
      from cache_ok_fresh [OF run _ _ this] rec show ?thesis by auto
    qed
  qed
qed

lemma verifying_cache_ok:
  assumes "verifying L pd ttl x"
  shows "cache_ok L pd ttl (clock (fst x)) (readings (fst x)) (snd (snd x)) (fst (snd x))"
  using assms
proof induction
  case (table_changes d v seen d')
  then show ?case using cache_ok_later [of L pd ttl "clock d" "readings d" seen v "readings d'" seen] by simp
next
  case (submission_comes d v seen rq signature m sender r v' d')
  then show ?case using verify_step [OF submission_comes.hyps(2)] by simp
qed (simp add: cache_ok_def NewIdentityVerifier_def)

lemma cache_key_inject:
  assumes "\<And>a. colon_free (AddrHex L a)"
  shows "cache_key L a n p = cache_key L a' n' p' \<longleftrightarrow> AddrHex L a = AddrHex L a' \<and> n = n' \<and> p = p'"
proof -
  have "AddrHex L a = AddrHex L a' \<and> show_u64 n = show_u64 n' \<and> p = p'" if "cache_key L a n p = cache_key L a' n' p'"
    using that assms colon_split_inject [of "AddrHex L a" "AddrHex L a'"] colon_split_inject [of "show_u64 n" "show_u64 n'"]
      show_u64_no_colon unfolding cache_key_def colon_free_def by (metis append_Cons append_Nil)
  then show ?thesis using show_u64_inject by (auto simp: cache_key_def)
qed

text \<open>C12. An accepted sender was registered: whatever becomes of the slot table between the calls, a verifier accepts a
  submission only from the recovered signer's slot and the stated peer, and only if at this call the table of the submission's
  market names the signer for the slot, does not flag him and names no other peer, or if at an earlier call some market's
  table did, and the clock now reads less than that call read for the expiry plus the time to live of the cache.\<close>

theorem accepted_sender_was_registered:
  assumes "verifying L pd ttl (d, v, seen)" and "\<And>a. colon_free (AddrHex L a)"
    and "run store_step (VerifySubmissionWithP2P L pd rq signature m sender v) d = (Some (Inr i, v'), d')"
  shows "(\<exists>a. RecoverSnapshotterAddress L rq signature = Some a \<and> AddrHex L (viAddress i) = AddrHex L a) \<and>
    viSlotID i = irSlotId rq \<and> viPeer i = sender \<and>
    (registered L pd d (viAddress i) (irSlotId rq) sender m \<or>
     (\<exists>d0 \<in> set seen. \<exists>m0 n0. registered L pd d0 (viAddress i) (irSlotId rq) sender m0 \<and> clock d0 = clock d \<and>
        readings d0 \<le> n0 \<and> n0 \<le> readings d0 + 2 \<and> n0 < readings d \<and> clock d (readings d) < clock d n0 + ttl))"
proof -
  have "cache_ok L pd ttl (clock d) (readings d) seen v" using verifying_cache_ok [OF assms(1)] by simp
  from verify_step [OF assms(3) this] obtain a where a: "RecoverSnapshotterAddress L rq signature = Some a"
    and cases: "registered L pd d a (irSlotId rq) sender m \<and> viAddress i = a \<and> viSlotID i = irSlotId rq \<and> viPeer i = sender \<or>
      entry_ok L pd ttl (clock d) (readings d) seen (cache_key L a (irSlotId rq) sender) i \<and> clock d (readings d) < viExpiresAt i"
    by blast
  from cases show ?thesis
  proof
    assume "registered L pd d a (irSlotId rq) sender m \<and> viAddress i = a \<and> viSlotID i = irSlotId rq \<and> viPeer i = sender"
    with a show ?thesis by blast
  next
    assume e: "entry_ok L pd ttl (clock d) (readings d) seen (cache_key L a (irSlotId rq) sender) i \<and> clock d (readings d) < viExpiresAt i"
    then have k: "AddrHex L (viAddress i) = AddrHex L a" "viSlotID i = irSlotId rq" "viPeer i = sender"
      using cache_key_inject [OF assms(2)] unfolding entry_ok_def by metis+
    from e have t: "clock d (readings d) < viExpiresAt i" by blast
    from e obtain d0 m0 n0 where "d0 \<in> set seen" "registered L pd d0 (viAddress i) (viSlotID i) (viPeer i) m0" "clock d0 = clock d"
      "readings d0 \<le> n0" "n0 \<le> readings d0 + 2" "n0 < readings d" "viExpiresAt i = clock d n0 + ttl"
      unfolding entry_ok_def by blast
    with t have "\<exists>d0 \<in> set seen. \<exists>m0 n0. registered L pd d0 (viAddress i) (irSlotId rq) sender m0 \<and> clock d0 = clock d \<and>
        readings d0 \<le> n0 \<and> n0 \<le> readings d0 + 2 \<and> n0 < readings d \<and> clock d (readings d) < clock d n0 + ttl"
      unfolding k by metis
    then show ?thesis using a k by blast
  qed
qed

text \<open>The cache knows no market: once a sender is accepted in one market, until the entry expires every submission of
  the same signer, slot and peer is accepted in any market, whatever its table says by then, and no table is asked.\<close>

theorem cached_sender_crosses_markets:
  assumes "outcome R (VerifySubmissionWithP2P L pd rq signature m sender v) s = Some (Inr i, v')"
    and "RecoverSnapshotterAddress L rq' signature' = RecoverSnapshotterAddress L rq signature"
    and "irSlotId rq' = irSlotId rq" and "int_of (fst (R s' NowNano)) < viExpiresAt i"
  shows "outcome R (VerifySubmissionWithP2P L pd rq' signature' m' sender v') s' = Some (Inr i, v') \<and>
    trace R (VerifySubmissionWithP2P L pd rq' signature' m' sender v') s' = [NowNano]"
proof -
  obtain a where a: "RecoverSnapshotterAddress L rq signature = Some a"
    using assms(1) by (auto simp: VerifySubmissionWithP2P_def split: option.splits)
  have f: "map_of (verifiedCache w') (cache_key L a (irSlotId rq) sender) = Some i"
    if "outcome R (verify_fresh L pd a (irSlotId rq) m sender w) t = Some (Inr i, w')" for w w' t
    using that by (auto simp: verify_fresh_def checkIfFlagged_def getSlotInfo_def run_Call run_bindp Let_def map_of_update
        split: if_splits option.splits sum.splits reply.splits)
  have "map_of (verifiedCache v') (cache_key L a (irSlotId rq) sender) = Some i"
    using assms(1) a f by (auto simp: VerifySubmissionWithP2P_def run_Call Let_def split: option.splits if_splits)
  then show ?thesis
    using assms(2-4) a by (simp add: VerifySubmissionWithP2P_def run_Call trace_Call Let_def)
qed

section \<open>Round trips\<close>

lemma all_digits: "parse_digits acc s = Some n \<Longrightarrow> c \<in> set s \<Longrightarrow> digit_val c \<noteq> None"
  by (induction acc s rule: parse_digits.induct) (auto split: option.splits)

lemma scan_show_u64: "scan_u64 (show_u64 e) = e"
proof -
  have d: "digit_val c \<noteq> None" if "c \<in> set (show_u64 e)" for c
    using all_digits [OF parse_digits_show_nat] that unfolding show_u64_def by blast
  have "digit_val (CHR '' '') = None" by (simp add: digit_val_def digits_def)
  then have "CHR '' '' \<notin> set (show_u64 e)" using d by blast
  then have "dropWhile (\<lambda>c. c = CHR '' '') (show_u64 e) = show_u64 e" by (cases "show_u64 e") auto
  moreover have "takeWhile (\<lambda>c. digit_val c \<noteq> None) (show_u64 e) = show_u64 e" using d by simp
  ultimately show ?thesis by (simp only: scan_u64_def parse_uint_show_u64 option.case)
qed

text \<open>A cached slot is read back: on a reliable store \<open>getSlotInfo\<close> returns what \<open>CacheSlotInfo\<close> stored, but for one
  thing: caching a slot without a peer keeps the peer that was registered before.\<close>

theorem slot_info_roundtrip:
  assumes "reliable R v" and "HexToAddress L (AddrHex L (siAddress si)) = siAddress si" and "siDataMarket si = m"
  shows "outcome R (bindp (CacheSlotInfo L m si) (\<lambda>_. getSlotInfo L m (siSlotID si))) s =
    Some (Inr (si\<lparr>siPeer := (if siPeer si = []
      then siPeer (parse_slot L m (siSlotID si) (hashes (v s) (slot_info_key m (siSlotID si)))) else siPeer si)\<rparr>))"
proof -
  let ?h = "hashes (v s) (slot_info_key m (siSlotID si))"
  define h where "h = fold (\<lambda>(f, b) h. AList.update f b h)
    (slot_fields L si (clock (v s) (readings (v s)) div 1000000000)) ?h"
  have f: "map_of h ''snapshotter_address'' = Some (Txt (AddrHex L (siAddress si)))"
    "map_of h ''epoch_id'' = Some (Js (JNum (uint (siEpochID si))))"
    "map_of h ''libp2p_peer_id'' = (if siPeer si = [] then map_of ?h ''libp2p_peer_id'' else Some (Txt (siPeer si)))"
    by (simp_all add: h_def slot_fields_def map_of_update)
  have "h \<noteq> []" using f(1) by auto
  then have "outcome R (bindp (CacheSlotInfo L m si) (\<lambda>_. getSlotInfo L m (siSlotID si))) s =
      Some (Inr (parse_slot L m (siSlotID si) h))"
    unfolding reliable_run(1) [OF assms(1)]
    by (simp add: CacheSlotInfo_def getSlotInfo_def prog_simps Let_def h_def [symmetric])
  then show ?thesis
    using assms(2,3) by (cases si) (simp add: parse_slot_def f show_int_u64 scan_show_u64)
qed

lemma hex_val_digit: "n < 16 \<Longrightarrow> hex_val (hex_digits ! n) = Some n"
proof -
  have "\<forall>n < 16. hex_val (hex_digits ! n) = Some n" by code_simp
  then show "n < 16 \<Longrightarrow> hex_val (hex_digits ! n) = Some n" by blast
qed

lemma hex_decode_encode: "hex_decode (hex_encode bs) = Some bs"
proof (induction bs)
  case (Cons b bs)
  have "unat b div 16 < 16" "unat b mod 16 < 16" using unat_byte [of b] by simp_all
  moreover have "of_nat (16 * (unat b div 16) + unat b mod 16) = b" by simp
  ultimately show ?case using Cons by (simp add: hex_encode_def hex_byte_def hex_val_digit)
qed simp

text \<open>A signature is read back from its hex text, with the prefix or without.\<close>

theorem signature_roundtrip:
  "ParseSignature (''0x'' @ hex_encode bs) = Some bs \<and> ParseSignature (hex_encode bs) = Some bs"
proof -
  have x: "CHR ''x'' \<notin> set hex_digits" by (simp add: hex_digits_def)
  have "\<not> has_prefix ''0x'' (hex_encode bs)"
  proof (cases bs)
    case (Cons b bs')
    have "unat b mod 16 < length hex_digits" by (simp add: hex_digits_def)
    then have "hex_digits ! (unat b mod 16) \<noteq> CHR ''x''" using x nth_mem by metis
    then show ?thesis by (simp add: Cons has_prefix_def hex_encode_def hex_byte_def)
  qed (simp add: has_prefix_def)
  then have "trim_prefix ''0x'' (hex_encode bs) = hex_encode bs" by (simp add: trim_prefix_def)
  then show ?thesis by (simp add: ParseSignature_def trim_prefix_append hex_decode_encode del: append.simps)
qed

text \<open>Verification without a peer fails for every slot with a registered peer: \<open>VerifySubmission\<close> passes the empty id,
  which no registered id decodes to, so what is called its backward compatibility holds only for slots without one.\<close>

theorem verification_without_peer_fails:
  assumes "reliable R v" and "RecoverSnapshotterAddress L rq signature = Some a"
    and "map_of (verifiedCache iv) (cache_key L a (irSlotId rq) []) = None"
    and "AddrHex L a \<notin> set (sets (v s) (flagged_key m))" and "hashes (v s) (slot_info_key m (irSlotId rq)) = h"
    and "map_of h ''snapshotter_address'' = Some (Txt (AddrHex L a))" and "HexToAddress L (AddrHex L a) = a"
    and "map_of h ''libp2p_peer_id'' = Some (Txt p)" and "pd p = Some q" and "p \<noteq> []" and "q \<noteq> []"
  shows "outcome R (VerifySubmission L pd rq signature m iv) s = Some (Inl (PeerMismatch [] q), iv)"
proof -
  have "h \<noteq> []" using assms(6) by auto
  then show ?thesis
    unfolding reliable_run(1) [OF assms(1)] using assms(2-)
    by (simp add: VerifySubmission_def VerifySubmissionWithP2P_def verify_fresh_def checkIfFlagged_def getSlotInfo_def
        run_Call run_bindp Let_def check_slot_def parse_slot_def)
qed

section \<open>Examples\<close>

definition demo_request :: submissionRequest where
  "demo_request = \<lparr>irSlotId = 3, irDeadline = 9, irSnapshotCid = ''Qm'', irEpochId = 7, irProjectId = ''p''\<rparr>"

definition demo_slots :: store where
  "demo_slots = empty_store\<lparr>hashes := (\<lambda>k. if k = slot_info_key ''m'' 3
     then [(''snapshotter_address'', Txt ''0x01''), (''libp2p_peer_id'', Txt ''QmPeer'')] else [])\<rparr>"

definition demo_verifier :: identityVerifier where
  "demo_verifier = NewIdentityVerifier 60 []"

lemma demo_recover: "RecoverSnapshotterAddress demo_lib demo_request sig = Some demo_addr"
  by (simp add: RecoverSnapshotterAddress_def demo_lib_def)

lemma demo_slot_id: "irSlotId demo_request = 3"
  by (simp add: demo_request_def)

lemma demo_hex: "AddrHex demo_lib a = ''0x01''" "HexToAddress demo_lib t = demo_addr"
  by (simp_all add: demo_lib_def)

lemma demo_accepted: "\<exists>i v' d'. run store_step (VerifySubmissionWithP2P demo_lib Some demo_request [] ''m'' ''QmPeer'' demo_verifier) demo_slots =
    (Some (Inr i, v'), d') \<and> viExpiresAt i = 60"
  by (simp add: VerifySubmissionWithP2P_def demo_recover verify_fresh_def checkIfFlagged_def getSlotInfo_def run_Call run_bindp
      Let_def check_slot_def parse_slot_def demo_hex demo_slots_def demo_verifier_def NewIdentityVerifier_def empty_store_def
      demo_slot_id)

theorem accepted_sender_was_registered_witness:
  "\<exists>i v' d'. run store_step (VerifySubmissionWithP2P demo_lib Some demo_request [] ''m'' ''QmPeer'' demo_verifier) demo_slots =
     (Some (Inr i, v'), d') \<and> registered demo_lib Some demo_slots (viAddress i) (irSlotId demo_request) ''QmPeer'' ''m''"
proof -
  obtain i v' d' where r: "run store_step (VerifySubmissionWithP2P demo_lib Some demo_request [] ''m'' ''QmPeer'' demo_verifier) demo_slots =
      (Some (Inr i, v'), d')"
    using demo_accepted by blast
  have w: "verifying demo_lib Some 60 (demo_slots, demo_verifier, [])"
    unfolding demo_verifier_def by (rule fresh_verifier)
  have "colon_free (AddrHex demo_lib a)" for a by (simp add: demo_hex colon_free_def)
  from accepted_sender_was_registered [OF w this r] show ?thesis using r by auto
qed

theorem cached_sender_crosses_markets_witness:
  "\<exists>i v'. outcome store_step (VerifySubmissionWithP2P demo_lib Some demo_request [] ''other'' ''QmPeer'' v') empty_store = Some (Inr i, v')"
proof -
  obtain i v' d' where r: "run store_step (VerifySubmissionWithP2P demo_lib Some demo_request [] ''m'' ''QmPeer'' demo_verifier) demo_slots =
      (Some (Inr i, v'), d')" "viExpiresAt i = 60"
    using demo_accepted by blast
  have "int_of (fst (store_step empty_store NowNano)) < viExpiresAt i" by (simp add: r(2) empty_store_def)
  with cached_sender_crosses_markets [OF _ refl refl, of store_step demo_lib Some demo_request "[]" "''m''" "''QmPeer''" demo_verifier
      demo_slots i v' empty_store "''other''"] r show ?thesis by auto
qed

theorem slot_info_roundtrip_witness:
  "outcome store_step (bindp (CacheSlotInfo demo_lib ''m'' \<lparr>siSlotID = 3, siAddress = demo_addr, siPeer = ''QmNew'', siDataMarket = ''m'',
     siEpochID = 7\<rparr>) (\<lambda>_. getSlotInfo demo_lib ''m'' 3)) demo_slots =
   Some (Inr \<lparr>siSlotID = 3, siAddress = demo_addr, siPeer = ''QmNew'', siDataMarket = ''m'', siEpochID = 7\<rparr>)"
  using slot_info_roundtrip [OF reliable_store, of demo_lib "\<lparr>siSlotID = 3, siAddress = demo_addr, siPeer = ''QmNew'',
    siDataMarket = ''m'', siEpochID = 7\<rparr>" "''m''" demo_slots] by (simp add: demo_hex)

theorem verification_without_peer_fails_witness:
  "outcome store_step (VerifySubmission demo_lib Some demo_request [] ''m'' demo_verifier) demo_slots =
     Some (Inl (PeerMismatch [] ''QmPeer''), demo_verifier)"
  by (rule verification_without_peer_fails [OF reliable_store demo_recover _ _ refl, where p = "''QmPeer''"])
    (simp_all add: demo_verifier_def NewIdentityVerifier_def demo_slots_def empty_store_def demo_slot_id demo_hex)

end
