(* ===== verification/Tracker.thy ===== *)
theory Tracker
  imports GoText Keys Env Search
begin

text \<open>
  \<open>cmd/state-tracker/worker.go\<close>: the state tracker, which counts the state changes that the other processes
  publish and turns the timelines in Redis into the data sets of the dashboard. The \<open>int64\<close> counters are
  integers: they count messages and are reset after a day. A time is in nanoseconds. The tracker's own
  Prometheus counters are left out. \<open>layouts\<close> are the two layouts of \<open>time.Format\<close> it uses.
\<close>

record stateWorker =
  swKeys :: keyBuilder
  swSubmissions :: int
  swValidations :: int
  swEpochs :: int
  swBatches :: int
  swLastReset :: int

record stateChangeEvent =
  scType :: string
  scEntityID :: string
  scTimestamp :: int
  scAttributes :: "(string, json) gomap"

record layouts =
  Rfc3339 :: "int \<Rightarrow> string"
  HourMinute :: "int \<Rightarrow> string"

definition NewStateWorker :: "keyBuilder \<Rightarrow> stateWorker prog" where
  "NewStateWorker kb =
     Call NowNano (\<lambda>t. Ret \<lparr>swKeys = kb, swSubmissions = 0, swValidations = 0, swEpochs = 0, swBatches = 0,
         swLastReset = int_of t\<rparr>)"

section \<open>Counting state changes\<close>

definition processSimpleStateChange :: "string \<Rightarrow> string \<Rightarrow> stateWorker \<Rightarrow> stateWorker" where
  "processSimpleStateChange eventType action sw =
     (if eventType = ''submission'' then sw\<lparr>swSubmissions := swSubmissions sw + 1\<rparr>
      else if eventType = ''validation'' then sw\<lparr>swValidations := swValidations sw + 1\<rparr>
      else if eventType = ''epoch'' then if action = ''open'' then sw\<lparr>swEpochs := swEpochs sw + 1\<rparr> else sw
      else if eventType = ''batch'' then sw\<lparr>swBatches := swBatches sw + 1\<rparr>
      else sw)"

definition on_message :: "string \<Rightarrow> stateWorker \<Rightarrow> stateWorker" where
  "on_message payload sw =
     (let parts = split_on CHR '':'' payload in
      if length parts < 2 then sw else processSimpleStateChange (parts ! 0) (parts ! 1) sw)"

definition processStateChange :: "stateChangeEvent \<Rightarrow> stateWorker \<Rightarrow> stateWorker" where
  "processStateChange ev sw =
     (if scType ev = ''submission'' then sw\<lparr>swSubmissions := swSubmissions sw + 1\<rparr>
      else if scType ev = ''validation'' then sw\<lparr>swValidations := swValidations sw + 1\<rparr>
      else if scType ev = ''epoch'' then sw\<lparr>swEpochs := swEpochs sw + 1\<rparr>
      else if scType ev = ''batch'' then sw\<lparr>swBatches := swBatches sw + 1\<rparr>
      else sw)"

section \<open>Reading the other processes' records\<close>

text \<open>The stored submissions of the active epochs.\<close>

definition add_processed :: "keyBuilder \<Rightarrow> string \<Rightarrow> int \<Rightarrow> int prog" where
  "add_processed kb e n = Call (RSCard (EpochProcessed kb e)) (\<lambda>r. Ret (n + int_of r))"

definition processed_count :: "keyBuilder \<Rightarrow> int prog" where
  "processed_count kb =
     Call (RSMembers (ActiveEpochs kb)) (\<lambda>r. case r of
       StrsR es \<Rightarrow> for_each (add_processed kb) es 0
     | _ \<Rightarrow> Ret 0)"

text \<open>The validators seen, a Go set, from the sets of the active epochs or else from the timeline of batches.\<close>

definition add_validator :: "string \<Rightarrow> string list \<Rightarrow> string list" where
  "add_validator v seen = (if v = [] then seen else List.insert v seen)"

definition epoch_validators :: "keyBuilder \<Rightarrow> string \<Rightarrow> string list \<Rightarrow> string list prog" where
  "epoch_validators kb e seen =
     Call (RSMembers (EpochValidators kb e)) (\<lambda>r.
       Ret (case r of StrsR vs \<Rightarrow> fold add_validator vs seen | _ \<Rightarrow> seen))"

definition validator_list :: "reply \<Rightarrow> string list option" where
  "validator_list r =
     (case r of
        BlobR b \<Rightarrow> Option.bind (unmarshal b) (\<lambda>j. let (vs, fits) = dec_list [] dec_str [] j in if fits then Some vs else None)
      | _ \<Rightarrow> None)"

definition timeline_validators :: "keyBuilder \<Rightarrow> string \<Rightarrow> string list \<Rightarrow> string list prog" where
  "timeline_validators kb batchEntry seen =
     (let parts = split_on CHR '':'' batchEntry in
      if length parts < 2 \<or> parts ! 0 \<noteq> ''aggregated'' then Ret seen
      else Call (RGet (MetricsBatchValidators kb (parts ! 1))) (\<lambda>r.
        Ret (case validator_list r of None \<Rightarrow> seen | Some vs \<Rightarrow> fold add_validator vs seen)))"

definition active_validators :: "keyBuilder \<Rightarrow> int \<Rightarrow> int option \<Rightarrow> string list prog" where
  "active_validators kb lo hi =
     Call (RSMembers (ActiveEpochs kb)) (\<lambda>r.
     bindp (case r of StrsR es \<Rightarrow> for_each (epoch_validators kb) es [] | _ \<Rightarrow> Ret []) (\<lambda>vs.
     if vs \<noteq> [] then Ret vs
     else Call (RZRange (MetricsBatchesTimeline kb) lo hi) (\<lambda>r.
       for_each (timeline_validators kb) (case r of StrsR es \<Rightarrow> es | _ \<Rightarrow> []) [])))"

section \<open>The current epoch\<close>

text \<open>\<open>None\<close> is the nil map of a failed \<open>HGETALL\<close>.\<close>

definition epoch_info :: "reply \<Rightarrow> (string, blob) gomap option" where
  "epoch_info r = (case r of HashR fs \<Rightarrow> Some fs | _ \<Rightarrow> None)"

definition info_field :: "(string, blob) gomap \<Rightarrow> string \<Rightarrow> string option" where
  "info_field info f = (case map_of info f of None \<Rightarrow> None | Some b \<Rightarrow> Some (field_text (Some b)))"

definition window_duration :: "(string, blob) gomap \<Rightarrow> float64 option" where
  "window_duration info = Option.bind (info_field info ''duration'') parse_f64"

definition epoch_phase :: "keyBuilder \<Rightarrow> string \<Rightarrow> int \<Rightarrow> int \<Rightarrow> (string, blob) gomap option \<Rightarrow> (string \<times> int) prog" where
  "epoch_phase kb currentEpochID timestamp now epochInfo =
     (case epochInfo of
        None \<Rightarrow> Ret (''unknown'', 0)
      | Some info \<Rightarrow>
          if info_field info ''status'' = Some ''open'' then
            Ret (''submission'',
              max 0 (timestamp + f_to_int (case window_duration info of None \<Rightarrow> Fin 20 | Some d \<Rightarrow> d) - now))
          else Call (RExists (MetricsBatchLocal kb currentEpochID)) (\<lambda>r1.
            if 0 < int_of r1
            then Call (RExists (MetricsBatchAggregated kb currentEpochID)) (\<lambda>r2.
              Ret (if 0 < int_of r2 then ''complete'' else ''aggregation'', 0))
            else Ret (''finalization'', 0)))"

definition status_report :: "string \<Rightarrow> string \<times> int \<Rightarrow> int \<Rightarrow> int \<Rightarrow> (string, blob) gomap option \<Rightarrow> json" where
  "status_report currentEpochID phase submissionsReceived now epochInfo =
     (let info = (case epochInfo of None \<Rightarrow> [] | Some fs \<Rightarrow> fs) in
      JObj ([(''epoch_id'', JStr currentEpochID), (''phase'', JStr (fst phase)),
         (''time_remaining_seconds'', JNum (snd phase)), (''submissions_received'', JNum submissionsReceived),
         (''timestamp'', JNum now),
         (''window_duration'', enc_float (case window_duration info of None \<Rightarrow> Fin 20 | Some d \<Rightarrow> d))] @
        (case info_field info ''data_market'' of None \<Rightarrow> [] | Some m \<Rightarrow> [(''data_market'', JStr m)])))"

definition store_epoch_status ::
  "keyBuilder \<Rightarrow> string \<Rightarrow> int \<Rightarrow> int \<Rightarrow> (string, blob) gomap option \<Rightarrow> unit prog" where
  "store_epoch_status kb currentEpochID timestamp now epochInfo =
     bindp (epoch_phase kb currentEpochID timestamp now epochInfo) (\<lambda>phase.
     Call (RSMembers (EpochProcessed kb currentEpochID)) (\<lambda>r.
     exec (RSet (MetricsCurrentEpoch kb)
       (marshal (status_report currentEpochID phase (case r of StrsR ids \<Rightarrow> int (length ids) | _ \<Rightarrow> 0) now epochInfo)) 30)))"

definition has_close_event :: "string \<Rightarrow> (string \<times> int) list \<Rightarrow> bool" where
  "has_close_event epochID latestEpochs \<longleftrightarrow> (\<exists>x \<in> set latestEpochs. has_prefix (''close:'' @ epochID) (fst x))"

text \<open>The first open event without a close event among the latest, with the epoch's information.\<close>

fun find_open ::
  "keyBuilder \<Rightarrow> (string \<times> int) list \<Rightarrow> (string \<times> int) list \<Rightarrow> (string \<times> int \<times> (string, blob) gomap option) option prog" where
  "find_open kb latestEpochs [] = Ret None"
| "find_open kb latestEpochs (x # xs) =
     (let parts = split_on CHR '':'' (fst x) in
      if length parts < 2 \<or> parts ! 0 \<noteq> ''open'' then find_open kb latestEpochs xs
      else Call (RHGetAll (MetricsEpochInfo kb (parts ! 1))) (\<lambda>r.
        if has_close_event (parts ! 1) latestEpochs then find_open kb latestEpochs xs
        else let e = FormatEpochID (JStr (parts ! 1)) in
          Ret (if e = [] then None else Some (e, snd x, epoch_info r))))"

definition aggregateCurrentEpochStatusFromTimeline :: "keyBuilder \<Rightarrow> unit prog" where
  "aggregateCurrentEpochStatusFromTimeline kb =
     Call (RZRevRange (MetricsEpochsTimeline kb) 5) (\<lambda>r. case r of
       ScoredR (latest # older) \<Rightarrow>
         Call Now (\<lambda>t.
         bindp (find_open kb (latest # older) (latest # older)) (\<lambda>found. case found of
           Some (e, ts, info) \<Rightarrow> store_epoch_status kb e ts (int_of t) info
         | None \<Rightarrow>
             (let parts = split_on CHR '':'' (fst latest) in
              if length parts < 2 then Ret ()
              else let e = FormatEpochID (JStr (parts ! 1)) in
                Call (RHGetAll (MetricsEpochInfo kb e)) (\<lambda>r.
                store_epoch_status kb e (snd latest) (int_of t) (epoch_info r)))))
     | _ \<Rightarrow> Ret ())"

definition aggregateCurrentEpochStatus :: "keyBuilder \<Rightarrow> unit prog" where
  "aggregateCurrentEpochStatus kb =
     Call (RSMembers (ActiveEpochs kb)) (\<lambda>r. case r of
       StrsR (e # _) \<Rightarrow>
         (let currentEpochID = FormatEpochID (JStr e) in
          Call Now (\<lambda>t.
          Call (RHGetAll (MetricsEpochInfo kb currentEpochID)) (\<lambda>r.
          let info = epoch_info r;
              ts = (case Option.bind (Option.bind info (\<lambda>fs. info_field fs ''timestamp'')) parse_int of
                None \<Rightarrow> int_of t | Some ts \<Rightarrow> ts)
          in store_epoch_status kb currentEpochID ts (int_of t) info)))
     | _ \<Rightarrow> aggregateCurrentEpochStatusFromTimeline kb)"

section \<open>Participation\<close>

text \<open>\<open>sequencer_id\<close> of the configuration, then of the environment, then a fixed name.\<close>

definition tracker_id :: "string \<Rightarrow> string \<Rightarrow> string" where
  "tracker_id configured environment =
     (if configured \<noteq> [] then configured else if environment \<noteq> [] then environment else ''validator1'')"

definition add_inclusion :: "keyBuilder \<Rightarrow> string \<Rightarrow> string \<Rightarrow> int \<Rightarrow> int prog" where
  "add_inclusion kb sequencerID entry n =
     (if \<not> has_prefix ''aggregated:'' entry then Ret n
      else Call (RGet (MetricsBatchValidators kb (trim_prefix ''aggregated:'' entry))) (\<lambda>r.
        Ret (case validator_list r of
            None \<Rightarrow> n
          | Some vs \<Rightarrow> if sequencerID \<in> set vs then n + 1 else n)))"

definition percent :: "int \<Rightarrow> int \<Rightarrow> float64" where
  "percent part all = fmul (fdiv (f_of_int part) (f_of_int all)) (Fin 100)"

definition participation_rate :: "int \<Rightarrow> int \<Rightarrow> float64" where
  "participation_rate level2Inclusions allLevel2Batches =
     (if 0 < allLevel2Batches then percent level2Inclusions allLevel2Batches else Fin 0)"

definition inclusion_rate :: "int \<Rightarrow> int \<Rightarrow> float64" where
  "inclusion_rate level2Inclusions level1Batches =
     (if 0 < level1Batches
      then let r = percent level2Inclusions level1Batches in if flt (Fin 100) r then Fin 100 else r
      else Fin 0)"

definition participation :: "int \<Rightarrow> int \<Rightarrow> int \<Rightarrow> int \<Rightarrow> int \<Rightarrow> json" where
  "participation level1Batches allLevel2Batches level2Inclusions epochsTotal now =
     JObj [(''epochs_participated_24h'', JNum level1Batches), (''epochs_total_24h'', JNum epochsTotal),
       (''participation_rate'', enc_float (participation_rate level2Inclusions allLevel2Batches)),
       (''level1_batches_24h'', JNum level1Batches), (''level2_inclusions_24h'', JNum level2Inclusions),
       (''inclusion_rate'', enc_float (inclusion_rate level2Inclusions level1Batches)), (''timestamp'', JNum now)]"

definition aggregateParticipationMetrics :: "keyBuilder \<Rightarrow> string \<Rightarrow> unit prog" where
  "aggregateParticipationMetrics kb sequencerID =
     Call Now (\<lambda>t.
     let now = int_of t; last24h = now - 86400 in
     Call (RZCount (MetricsValidatorBatches kb sequencerID) last24h now) (\<lambda>r1.
     Call (RZCount (MetricsBatchesTimeline kb) last24h now) (\<lambda>r2.
     Call (RZRange (MetricsBatchesTimeline kb) last24h (Some now)) (\<lambda>r3.
     bindp (for_each (add_inclusion kb sequencerID) (case r3 of StrsR es \<Rightarrow> es | _ \<Rightarrow> []) 0) (\<lambda>level2Inclusions.
     Call (RZCount (MetricsEpochsTimeline kb) last24h now) (\<lambda>r4.
     exec (RSet (MetricsParticipation kb)
       (marshal (participation (int_of r1) (int_of r2) level2Inclusions (int_of r4) now)) 60)))))))"

section \<open>The data sets\<close>

definition rate_of :: "int \<Rightarrow> float64 \<Rightarrow> float64" where
  "rate_of n duration = fdiv (f_of_int n) duration"

definition recent_counts :: "keyBuilder \<Rightarrow> int \<Rightarrow> (string, json) gomap prog" where
  "recent_counts kb now =
     for_each (\<lambda>(f, timeline, age) fs.
         Call (RZCount timeline (now - age) now) (\<lambda>r. Ret (fs @ [(f, JNum (int_of r))])))
       [(''epochs_1m'', MetricsEpochsTimeline kb, 60), (''epochs_5m'', MetricsEpochsTimeline kb, 300),
        (''batches_1m'', MetricsBatchesTimeline kb, 60), (''batches_5m'', MetricsBatchesTimeline kb, 300),
        (''submissions_1m'', MetricsSubmissionsTimeline kb, 60), (''submissions_5m'', MetricsSubmissionsTimeline kb, 300)] []"

definition summary_fields ::
  "stateWorker \<Rightarrow> float64 \<Rightarrow> int \<Rightarrow> int \<Rightarrow> int \<Rightarrow> int \<Rightarrow> (string, json) gomap" where
  "summary_fields sw duration queued processed validators updated =
     [(''submissions_total'', JNum (swSubmissions sw + processed)), (''submissions_queue'', JNum queued),
      (''processed_submissions'', JNum processed), (''epochs_total'', JNum (swEpochs sw)),
      (''batches_total'', JNum (swBatches sw)), (''submission_rate'', enc_float (rate_of (swSubmissions sw) duration)),
      (''epoch_rate'', enc_float (rate_of (swEpochs sw) duration)),
      (''batch_rate'', enc_float (rate_of (swBatches sw) duration)), (''active_validators'', JNum validators),
      (''updated_at'', JNum updated), (''measurement_duration'', enc_float duration)]"

definition store_summary :: "keyBuilder \<Rightarrow> range_order \<Rightarrow> (string, json) gomap \<Rightarrow> unit prog" where
  "store_summary kb ro summary =
     execs [RSet (DashboardSummary kb) (marshal (JObj summary)) 60,
       RHSet (StatsCurrent kb) (map (\<lambda>(f, j). (f, Js j)) (range_map ro ''summary'' summary)),
       RExpire (StatsCurrent kb) 60]"

definition aggregateCurrentMetrics :: "range_order \<Rightarrow> string \<Rightarrow> stateWorker \<Rightarrow> unit prog" where
  "aggregateCurrentMetrics ro sequencerID sw =
     (let kb = swKeys sw in
      Call NowNano (\<lambda>t0.
      let duration = dur_seconds (int_of t0 - swLastReset sw) in
      Call (RLLen (SubmissionQueue kb)) (\<lambda>queued.
      bindp (processed_count kb) (\<lambda>processed.
      Call Now (\<lambda>t1.
      bindp (active_validators kb (int_of t1 - 300) None) (\<lambda>vs.
      Call Now (\<lambda>t2.
      let summary = summary_fields sw duration (int_of queued) processed (int (length vs)) (int_of t2) in
      Call Now (\<lambda>t3.
      bindp (recent_counts kb (int_of t3)) (\<lambda>counts.
      bindp (store_summary kb ro (summary @ counts)) (\<lambda>_.
      bindp (aggregateParticipationMetrics kb sequencerID) (\<lambda>_.
      aggregateCurrentEpochStatus kb)))))))))))"

definition nanos :: int where
  "nanos = 1000000000"

definition hour_stats :: "layouts \<Rightarrow> int \<Rightarrow> int \<Rightarrow> int \<Rightarrow> int \<Rightarrow> int \<Rightarrow> int \<Rightarrow> int \<Rightarrow> json" where
  "hour_stats F hourStart hourEnd epochs batches submissions validators updated =
     JObj [(''hour_start'', JStr (Rfc3339 F hourStart)), (''hour_end'', JStr (Rfc3339 F hourEnd)),
       (''epochs'', JNum epochs), (''batches'', JNum batches), (''submissions'', JNum submissions),
       (''unique_validators'', JNum validators), (''updated_at'', JNum updated)]"

definition aggregateHourPeriod :: "layouts \<Rightarrow> keyBuilder \<Rightarrow> int \<Rightarrow> int \<Rightarrow> unit prog" where
  "aggregateHourPeriod F kb hourStart hourEnd =
     (let startTS = hourStart div nanos; endTS = hourEnd div nanos in
      Call (RZCount (MetricsEpochsTimeline kb) startTS endTS) (\<lambda>epochs.
      Call (RZCount (MetricsBatchesTimeline kb) startTS endTS) (\<lambda>batches.
      bindp (processed_count kb) (\<lambda>submissions.
      bindp (active_validators kb startTS (Some endTS)) (\<lambda>vs.
      Call Now (\<lambda>t.
      exec (RSet (StatsHourly kb startTS)
        (marshal (hour_stats F hourStart hourEnd (int_of epochs) (int_of batches) submissions (int (length vs)) (int_of t)))
        7200)))))))"

definition hour_nanos :: int where
  "hour_nanos = 3600 * nanos"

definition aggregateHourlyStats :: "layouts \<Rightarrow> keyBuilder \<Rightarrow> unit prog" where
  "aggregateHourlyStats F kb =
     Call NowNano (\<lambda>t.
     let now = int_of t; currentHour = now - now mod hour_nanos; previousHour = currentHour - hour_nanos in
     bindp (aggregateHourPeriod F kb currentHour now) (\<lambda>_.
     aggregateHourPeriod F kb previousHour currentHour))"

definition hour_entry :: "layouts \<Rightarrow> keyBuilder \<Rightarrow> int \<Rightarrow> nat \<Rightarrow> json list \<Rightarrow> json list prog" where
  "hour_entry F kb dayAgo i hours =
     (let hourStart = dayAgo + int i * hour_nanos; hourEnd = hourStart + hour_nanos in
      Call (RZCount (MetricsEpochsTimeline kb) (hourStart div nanos) (hourEnd div nanos)) (\<lambda>r.
      Ret (hours @ [JObj [(''hour'', JStr (HourMinute F hourStart)), (''epochs'', JNum (int_of r))]])))"

definition daily_stats :: "layouts \<Rightarrow> int \<Rightarrow> int \<Rightarrow> int \<Rightarrow> int \<Rightarrow> json list \<Rightarrow> int \<Rightarrow> json" where
  "daily_stats F now epochs batches submissions hours updated =
     JObj [(''period_start'', JStr (Rfc3339 F (now - 24 * hour_nanos))), (''period_end'', JStr (Rfc3339 F now)),
       (''epochs_total'', JNum epochs), (''batches_total'', JNum batches), (''submissions_total'', JNum submissions),
       (''hourly_breakdown'', JArr hours), (''updated_at'', JNum updated)]"

definition aggregateDailyStats :: "layouts \<Rightarrow> keyBuilder \<Rightarrow> unit prog" where
  "aggregateDailyStats F kb =
     Call NowNano (\<lambda>t.
     let now = int_of t; dayAgo = now - 24 * hour_nanos; startTS = dayAgo div nanos; endTS = now div nanos in
     Call (RZCount (MetricsEpochsTimeline kb) startTS endTS) (\<lambda>epochs.
     Call (RZCount (MetricsBatchesTimeline kb) startTS endTS) (\<lambda>batches.
     bindp (processed_count kb) (\<lambda>submissions.
     bindp (for_each (hour_entry F kb dayAgo) [0 ..< 24] []) (\<lambda>hours.
     Call Now (\<lambda>t2.
     exec (RSet (StatsDaily kb)
       (marshal (daily_stats F now (int_of epochs) (int_of batches) submissions hours (int_of t2))) 86400)))))))"

section \<open>Pruning\<close>

definition pruneOldData :: "stateWorker \<Rightarrow> stateWorker prog" where
  "pruneOldData sw =
     Call Now (\<lambda>t.
     let cutoff = int_of t - 86400 in
     Call (RZRemTo (MetricsEpochsTimeline (swKeys sw)) cutoff) (\<lambda>_.
     Call (RZRemTo (MetricsBatchesTimeline (swKeys sw)) cutoff) (\<lambda>_.
     Call NowNano (\<lambda>t2.
     if 24 * hour_nanos < int_of t2 - swLastReset sw
     then Call NowNano (\<lambda>t3. Ret (sw\<lparr>swSubmissions := 0, swValidations := 0, swEpochs := 0, swBatches := 0,
         swLastReset := int_of t3\<rparr>))
     else Ret sw))))"

end
