(* ===== verification/Tracking.thy ===== *)
theory Tracking
  imports Tracker Windows
begin

text \<open>
  What the state tracker reports: the counters, the dashboard, the participation of the sequencer, the
  current epoch, the breakdown of the day, and what pruning keeps.
\<close>

declare FormatEpochID.simps(1) [simp del] FormatEpochID_string [simp]

section \<open>Counted messages\<close>

lemma split_two:
  assumes "CHR '':'' \<notin> set w"
  shows "2 \<le> length (split_on CHR '':'' s) \<and> split_on CHR '':'' s ! 0 = w \<longleftrightarrow> has_prefix (w @ '':'') s"
proof
  assume "2 \<le> length (split_on CHR '':'' s) \<and> split_on CHR '':'' s ! 0 = w"
  moreover have "2 \<le> length (split_on CHR '':'' s) \<Longrightarrow> split_on CHR '':'' s ! 0 = w \<Longrightarrow> \<exists>t. s = w @ CHR '':'' # t" for w
  proof (induction s arbitrary: w)
    case (Cons c s)
    show ?case
    proof (cases "c = CHR '':''")
      case False
      then obtain v vs where v: "split_on CHR '':'' s = v # vs" by (cases "split_on CHR '':'' s") auto
      with Cons.prems False have "w = c # v" "2 \<le> length (split_on CHR '':'' s)" by auto
      with Cons.IH [of v] v show ?thesis by auto
    qed (use Cons.prems in auto)
  qed simp
  ultimately obtain t where "s = w @ CHR '':'' # t" by blast
  then show "has_prefix (w @ '':'') s" by (simp add: has_prefix_def)
next
  assume "has_prefix (w @ '':'') s"
  then obtain t where "s = w @ CHR '':'' # t" unfolding has_prefix_def by (metis append.assoc append_Cons append_Nil append_take_drop_id)
  then show "2 \<le> length (split_on CHR '':'' s) \<and> split_on CHR '':'' s ! 0 = w"
    using split_on_append [OF assms, of t] by (cases "split_on CHR '':'' t") auto
qed

lemmas message_kinds =
  split_two [of "''submission''", simplified] split_two [of "''validation''", simplified]
  split_two [of "''epoch''", simplified] split_two [of "''batch''", simplified]

definition opens :: "string \<Rightarrow> bool" where
  "opens s \<longleftrightarrow> has_prefix ''epoch:'' s \<and> split_on CHR '':'' s ! 1 = ''open''"

lemma on_message_counts:
  "swSubmissions (on_message s sw) = swSubmissions sw + of_bool (has_prefix ''submission:'' s)"
  "swValidations (on_message s sw) = swValidations sw + of_bool (has_prefix ''validation:'' s)"
  "swEpochs (on_message s sw) = swEpochs sw + of_bool (opens s)"
  "swBatches (on_message s sw) = swBatches sw + of_bool (has_prefix ''batch:'' s)"
  unfolding message_kinds [symmetric] on_message_def processSimpleStateChange_def opens_def
  by (simp_all add: Let_def message_kinds [symmetric])

text \<open>Every state change counts: each counter grows by the number of messages of its kind among those heard, \<open>epoch\<close>
  messages only when they open one, and messages of another kind or without a colon change nothing.\<close>

theorem state_changes_counted:
  "swSubmissions (fold on_message ms sw) = swSubmissions sw + int (length (filter (has_prefix ''submission:'') ms)) \<and>
   swValidations (fold on_message ms sw) = swValidations sw + int (length (filter (has_prefix ''validation:'') ms)) \<and>
   swEpochs (fold on_message ms sw) = swEpochs sw + int (length (filter opens ms)) \<and>
   swBatches (fold on_message ms sw) = swBatches sw + int (length (filter (has_prefix ''batch:'') ms)) \<and>
   swKeys (fold on_message ms sw) = swKeys sw \<and> swLastReset (fold on_message ms sw) = swLastReset sw"
proof (induction ms arbitrary: sw)
  case (Cons s ms)
  have "swKeys (on_message s sw) = swKeys sw" "swLastReset (on_message s sw) = swLastReset sw"
    by (simp_all add: on_message_def processSimpleStateChange_def Let_def)
  with Cons show ?case by (auto simp: on_message_counts)
qed simp

section \<open>Runs that only read\<close>

definition stored_submissions :: "keyBuilder \<Rightarrow> store \<Rightarrow> int" where
  "stored_submissions kb d = (\<Sum>e \<leftarrow> sets d (ActiveEpochs kb). int (length (sets d (EpochProcessed kb e))))"

definition known_validators :: "keyBuilder \<Rightarrow> store \<Rightarrow> string set" where
  "known_validators kb d = (\<Union>e \<in> set (sets d (ActiveEpochs kb)). set (sets d (EpochValidators kb e))) - {[]}"

definition window_count :: "int \<Rightarrow> int \<Rightarrow> string \<Rightarrow> store \<Rightarrow> int" where
  "window_count lo hi timeline d = int (length (filter (in_scores lo (Some hi)) (zsets d timeline)))"

lemma run_add_processed:
  "run store_step (for_each (add_processed kb) es n) d =
     (Some (n + (\<Sum>e \<leftarrow> es. int (length (sets d (EpochProcessed kb e))))), d)"
  by (induction es arbitrary: n) (simp_all add: add_processed_def run_Call run_bindp)

lemma run_processed_count: "run store_step (processed_count kb) d = (Some (stored_submissions kb d), d)"
  by (simp add: processed_count_def run_Call run_add_processed stored_submissions_def)

lemma set_add_validators:
  "set (fold add_validator vs seen) = set seen \<union> (set vs - {[]})" "distinct seen \<Longrightarrow> distinct (fold add_validator vs seen)"
  by (induction vs arbitrary: seen) (auto simp: add_validator_def)

lemma run_epoch_validators:
  "\<exists>vs. run store_step (for_each (epoch_validators kb) es seen) d = (Some vs, d) \<and> (distinct seen \<longrightarrow> distinct vs) \<and>
     set vs = set seen \<union> ((\<Union>e \<in> set es. set (sets d (EpochValidators kb e))) - {[]})"
proof (induction es arbitrary: seen)
  case (Cons e es)
  have e: "run store_step (epoch_validators kb e seen) d = (Some (fold add_validator (sets d (EpochValidators kb e)) seen), d)"
    by (simp add: epoch_validators_def run_Call)
  obtain vs where "run store_step (for_each (epoch_validators kb) es (fold add_validator (sets d (EpochValidators kb e)) seen)) d = (Some vs, d)"
    "distinct (fold add_validator (sets d (EpochValidators kb e)) seen) \<longrightarrow> distinct vs"
    "set vs = set (fold add_validator (sets d (EpochValidators kb e)) seen) \<union> ((\<Union>e \<in> set es. set (sets d (EpochValidators kb e))) - {[]})"
    using Cons.IH by blast
  then show ?case
    by (intro exI [of _ vs]) (auto simp: e run_bindp set_add_validators)
qed simp

lemma run_timeline_validators:
  "\<exists>vs. run store_step (for_each (timeline_validators kb) es seen) d = (Some vs, d) \<and> (distinct seen \<longrightarrow> distinct vs)"
proof (induction es arbitrary: seen)
  case (Cons e es)
  have "\<exists>vs. run store_step (timeline_validators kb e seen) d = (Some vs, d) \<and> (distinct seen \<longrightarrow> distinct vs)"
    by (auto simp: timeline_validators_def run_Call Let_def set_add_validators split: option.splits)
  then obtain vs where v: "run store_step (timeline_validators kb e seen) d = (Some vs, d)" "distinct seen \<longrightarrow> distinct vs" by blast
  with Cons.IH [of vs] show ?case by (auto simp: run_bindp)
qed simp

lemma run_active_validators:
  "\<exists>vs. run store_step (active_validators kb lo hi) d = (Some vs, d) \<and> distinct vs \<and>
     (known_validators kb d \<noteq> {} \<longrightarrow> set vs = known_validators kb d)"
proof -
  obtain vs where v: "run store_step (for_each (epoch_validators kb) (sets d (ActiveEpochs kb)) []) d = (Some vs, d)" "distinct vs"
    "set vs = known_validators kb d"
    using run_epoch_validators [of kb "sets d (ActiveEpochs kb)" "[]" d] by (auto simp: known_validators_def)
  obtain ws where "run store_step (for_each (timeline_validators kb) (map fst (filter (in_scores lo hi) (by_score (zsets d (MetricsBatchesTimeline kb))))) []) d = (Some ws, d)" "distinct ws"
    using run_timeline_validators [of kb _ "[]" d] by auto
  with v show ?thesis by (cases "vs = []") (auto simp: active_validators_def run_Call run_bindp)
qed

lemma run_recent_counts:
  "run store_step (recent_counts kb now) d =
     (Some [(''epochs_1m'', JNum (window_count (now - 60) now (MetricsEpochsTimeline kb) d)),
        (''epochs_5m'', JNum (window_count (now - 300) now (MetricsEpochsTimeline kb) d)),
        (''batches_1m'', JNum (window_count (now - 60) now (MetricsBatchesTimeline kb) d)),
        (''batches_5m'', JNum (window_count (now - 300) now (MetricsBatchesTimeline kb) d)),
        (''submissions_1m'', JNum (window_count (now - 60) now (MetricsSubmissionsTimeline kb) d)),
        (''submissions_5m'', JNum (window_count (now - 300) now (MetricsSubmissionsTimeline kb) d))], d)"
  by (simp add: recent_counts_def run_Call run_bindp window_count_def)

section \<open>Runs that only store data sets\<close>

definition stores_at :: "string set \<Rightarrow> call \<Rightarrow> bool" where
  "stores_at K c \<longleftrightarrow> \<not> is_write c \<or> (\<exists>k \<in> K. \<exists>b t. c = RSet k b t)"

lemma stores_at_read: "\<not> is_write c \<Longrightarrow> stores_at K c"
  by (simp add: stores_at_def)

lemma stores_at_set: "k \<in> K \<Longrightarrow> stores_at K (RSet k b t)"
  by (auto simp: stores_at_def)

definition same_but :: "string set \<Rightarrow> store \<Rightarrow> store \<Rightarrow> bool" where
  "same_but K d d' \<longleftrightarrow> (\<forall>k. k \<notin> K \<longrightarrow> map_of (strs d') k = map_of (strs d) k) \<and> lists d' = lists d \<and> sets d' = sets d \<and>
     hashes d' = hashes d \<and> zsets d' = zsets d \<and> streams d' = streams d \<and> published d' = published d"

lemma same_but_refl: "same_but K d d"
  by (simp add: same_but_def)

lemma same_but_trans: "same_but K d d1 \<Longrightarrow> same_but K d1 d2 \<Longrightarrow> same_but K d d2"
  by (simp add: same_but_def)

lemma read_only_step: "\<not> is_write c \<Longrightarrow> same_but K d (snd (store_step d c))"
  by (cases c) (simp_all add: same_but_def Let_def split: option.split)

lemma stores_at_step: "stores_at K c \<Longrightarrow> same_but K d (snd (store_step d c))"
proof -
  have "same_but K d (snd (store_step d (RSet k b t)))" if "k \<in> K" for k b t
    using that by (auto simp: same_but_def map_of_update)
  then show "stores_at K c \<Longrightarrow> same_but K d (snd (store_step d c))"
    unfolding stores_at_def using read_only_step by blast
qed

lemma stores_at_run: "calls_sat (stores_at K) p \<Longrightarrow> same_but K d (final store_step p d)"
proof (induction p arbitrary: d)
  case (Call c k)
  then have "same_but K d (snd (store_step d c))" "same_but K (snd (store_step d c)) (final store_step (k (fst (store_step d c))) (snd (store_step d c)))"
    using stores_at_step by auto
  then show ?case using same_but_trans by (simp add: run_Call)
qed (simp_all add: same_but_refl)

text \<open>Programs that only store at \<open>K\<close> and never panic.\<close>

definition tidy :: "string set \<Rightarrow> 'a prog \<Rightarrow> bool" where
  "tidy K p \<longleftrightarrow> calls_sat (stores_at K) p \<and> no_panic p"

lemma tidy_simps [simp]:
  "tidy K (Ret a)" "tidy K (Call c k) \<longleftrightarrow> stores_at K c \<and> (\<forall>r. tidy K (k r))"
  by (auto simp: tidy_def)

lemma tidy_exec [simp]: "tidy K (exec c) \<longleftrightarrow> stores_at K c"
  by (simp add: tidy_def)

lemma tidy_bindp [intro]: "tidy K p \<Longrightarrow> (\<And>a. tidy K (f a)) \<Longrightarrow> tidy K (bindp p f)"
  unfolding tidy_def by blast

lemma tidy_for_each [intro]: "(\<And>x a. tidy K (body x a)) \<Longrightarrow> tidy K (for_each body xs a)"
  unfolding tidy_def by blast

lemma tidy_run: "tidy K p \<Longrightarrow> \<exists>a d'. run store_step p d = (Some a, d') \<and> same_but K d d'"
  unfolding tidy_def using stores_at_run [of K p d] no_panic_outcome [of p store_step d]
  by (cases "run store_step p d") auto

lemma tidy_run_unit: "tidy K (p :: unit prog) \<Longrightarrow> \<exists>d'. run store_step p d = (Some (), d') \<and> same_but K d d'"
  using tidy_run [of K p d] by simp

lemma participation_stores:
  "tidy {MetricsParticipation kb} (aggregateParticipationMetrics kb sequencerID)"
  by (auto simp: aggregateParticipationMetrics_def Let_def add_inclusion_def stores_at_def
      intro!: tidy_bindp tidy_for_each split: option.splits)

lemma epoch_phase_reads: "tidy K (epoch_phase kb e ts now info)"
  by (auto simp: epoch_phase_def stores_at_def split: option.splits)

lemma store_epoch_status_stores: "tidy {MetricsCurrentEpoch kb} (store_epoch_status kb e ts now info)"
  unfolding store_epoch_status_def by (rule tidy_bindp [OF epoch_phase_reads]) (auto simp: stores_at_def)

lemma find_open_reads: "tidy K (find_open kb latest xs)"
  by (induction xs) (auto simp: Let_def stores_at_def)

lemma timeline_status_stores:
  "tidy {MetricsCurrentEpoch kb} (aggregateCurrentEpochStatusFromTimeline kb)"
proof -
  have "tidy {MetricsCurrentEpoch kb} (case r of
      ScoredR (latest # older) \<Rightarrow>
         Call Now (\<lambda>t.
         bindp (find_open kb (latest # older) (latest # older)) (\<lambda>found. case found of
           Some (e, ts, info) \<Rightarrow> store_epoch_status kb e ts (int_of t) info
         | None \<Rightarrow>
             (let parts = split_on CHR '':'' (fst latest) in
              if length parts < 2 then Ret ()
              else let e = FormatEpochID (JStr (parts ! 1)) in
                Call (RHGetAll (MetricsEpochInfo kb e)) (\<lambda>r.
                store_epoch_status kb e (snd latest) (int_of t) (epoch_info r)))))
     | _ \<Rightarrow> Ret ())" for r
  proof (cases r)
    case (ScoredR xs)
    then show ?thesis
      by (cases xs) (auto simp: Let_def stores_at_read store_epoch_status_stores split: option.split intro!: tidy_bindp find_open_reads)
  qed simp_all
  then show ?thesis
    unfolding aggregateCurrentEpochStatusFromTimeline_def tidy_simps by (intro conjI allI stores_at_read) simp_all
qed

lemma epoch_status_stores: "tidy {MetricsCurrentEpoch kb} (aggregateCurrentEpochStatus kb)"
proof -
  have "tidy {MetricsCurrentEpoch kb} (case r of
       StrsR (e # _) \<Rightarrow>
         (let currentEpochID = FormatEpochID (JStr e) in
          Call Now (\<lambda>t.
          Call (RHGetAll (MetricsEpochInfo kb currentEpochID)) (\<lambda>r.
          let info = epoch_info r;
              ts = (case Option.bind (Option.bind info (\<lambda>fs. info_field fs ''timestamp'')) parse_int of
                None \<Rightarrow> int_of t | Some ts \<Rightarrow> ts)
          in store_epoch_status kb currentEpochID ts (int_of t) info)))
     | _ \<Rightarrow> aggregateCurrentEpochStatusFromTimeline kb)" for r
  proof (cases r)
    case (StrsR es)
    then show ?thesis
      by (cases es) (simp_all add: Let_def stores_at_read store_epoch_status_stores timeline_status_stores)
  qed (simp_all add: timeline_status_stores)
  then show ?thesis unfolding aggregateCurrentEpochStatus_def tidy_simps by (intro conjI allI stores_at_read) simp_all
qed

section \<open>The dashboard\<close>

lemma data_set_keys:
  "DashboardSummary kb \<noteq> MetricsParticipation kb" "DashboardSummary kb \<noteq> MetricsCurrentEpoch kb"
  "MetricsParticipation kb \<noteq> MetricsCurrentEpoch kb"
  by (simp_all add: DashboardSummary_def MetricsParticipation_def MetricsCurrentEpoch_def ns_same)

lemma read_clock:
  "stored_submissions kb (d\<lparr>readings := n\<rparr>) = stored_submissions kb d"
  "known_validators kb (d\<lparr>readings := n\<rparr>) = known_validators kb d"
  "window_count lo hi t (d\<lparr>readings := n\<rparr>) = window_count lo hi t d"
  by (simp_all add: stored_submissions_def known_validators_def window_count_def)

definition dashboard :: "stateWorker \<Rightarrow> float64 \<Rightarrow> store \<Rightarrow> nat \<Rightarrow> int \<Rightarrow> int \<Rightarrow> (string, json) gomap" where
  "dashboard sw duration d validators updated now =
     (let kb = swKeys sw in
      summary_fields sw duration (int (length (lists d (SubmissionQueue kb)))) (stored_submissions kb d) (int validators) updated @
      [(''epochs_1m'', JNum (window_count (now - 60) now (MetricsEpochsTimeline kb) d)),
       (''epochs_5m'', JNum (window_count (now - 300) now (MetricsEpochsTimeline kb) d)),
       (''batches_1m'', JNum (window_count (now - 60) now (MetricsBatchesTimeline kb) d)),
       (''batches_5m'', JNum (window_count (now - 300) now (MetricsBatchesTimeline kb) d)),
       (''submissions_1m'', JNum (window_count (now - 60) now (MetricsSubmissionsTimeline kb) d)),
       (''submissions_5m'', JNum (window_count (now - 300) now (MetricsSubmissionsTimeline kb) d))])"

lemma dashboard_names: "distinct (map fst (dashboard sw x d n u t))"
  by (simp add: dashboard_def summary_fields_def Let_def)

lemma fields_kept:
  "f \<notin> fst ` set fs \<Longrightarrow> map_of (fold (\<lambda>(f, b) h. AList.update f b h) fs h) f = map_of h f"
  by (induction fs arbitrary: h) (auto simp: map_of_update)

lemma hash_fields:
  "distinct (map fst fs) \<Longrightarrow> map_of fs f = Some b \<Longrightarrow> map_of (fold (\<lambda>(f, b) h. AList.update f b h) fs h) f = Some b"
  by (induction fs arbitrary: h) (auto simp: fields_kept map_of_update split: if_splits)

lemma run_store_summary:
  assumes "distinct (map fst fs)"
  shows "\<exists>d'. run store_step (store_summary kb ro fs) d = (Some (), d') \<and>
    map_of (strs d') (DashboardSummary kb) = Some (marshal (JObj fs)) \<and>
    (\<forall>f j. map_of fs f = Some j \<longrightarrow> map_of (hashes d' (StatsCurrent kb)) f = Some (Js j))"
proof -
  let ?hs = "map (\<lambda>(f, j). (f, Js j)) (range_map ro ''summary'' fs)"
  have "map fst ?hs = map fst (range_map ro ''summary'' fs)" by (simp add: case_prod_unfold)
  moreover have ok: "go_ok fs" using assms by (simp add: go_ok_def)
  then have "go_ok (range_map ro ''summary'' fs)" by simp
  ultimately have "distinct (map fst ?hs)" by (simp only: go_ok_def)
  moreover have "map_of ?hs f = map_option Js (map_of fs f)" for f
    using ok by (simp add: map_of_map map_of_range_map)
  ultimately show ?thesis
    by (auto simp: store_summary_def run_Call map_of_update hash_fields)
qed

lemma aggregate_run:
  "\<exists>d' n. run store_step (aggregateCurrentMetrics ro sequencerID sw) d = (Some (), d') \<and>
     (known_validators (swKeys sw) d \<noteq> {} \<longrightarrow> n = card (known_validators (swKeys sw) d)) \<and>
     (let fs = dashboard sw (dur_seconds (clock d (readings d) - swLastReset sw)) d n
           (clock d (readings d + 2) div nanos) (clock d (readings d + 3) div nanos) in
      map_of (strs d') (DashboardSummary (swKeys sw)) = Some (marshal (JObj fs)) \<and>
      (\<forall>f j. map_of fs f = Some j \<longrightarrow> map_of (hashes d' (StatsCurrent (swKeys sw))) f = Some (Js j)))"
proof -
  let ?kb = "swKeys sw" and ?r = "readings d"
  let ?x = "dur_seconds (clock d ?r - swLastReset sw)"
  obtain vs where vs: "run store_step (active_validators ?kb (clock d (?r + 1) div 1000000000 - 300) None) (d\<lparr>readings := ?r + 2\<rparr>) =
      (Some vs, d\<lparr>readings := ?r + 2\<rparr>)" "distinct vs"
    "known_validators ?kb d \<noteq> {} \<Longrightarrow> set vs = known_validators ?kb d"
    using run_active_validators [of ?kb "clock d (?r + 1) div 1000000000 - 300" None "d\<lparr>readings := ?r + 2\<rparr>"]
    by (auto simp: read_clock)
  let ?fs = "dashboard sw ?x d (length vs) (clock d (?r + 2) div nanos) (clock d (?r + 3) div nanos)"
  let ?d4 = "d\<lparr>readings := ?r + 4\<rparr>"
  obtain d1 where d1: "run store_step (store_summary ?kb ro ?fs) ?d4 = (Some (), d1)"
    "map_of (strs d1) (DashboardSummary ?kb) = Some (marshal (JObj ?fs))"
    "\<forall>f j. map_of ?fs f = Some j \<longrightarrow> map_of (hashes d1 (StatsCurrent ?kb)) f = Some (Js j)"
    using run_store_summary [OF dashboard_names, of ?kb ro] by blast
  obtain d2 where d2: "run store_step (aggregateParticipationMetrics ?kb sequencerID) d1 = (Some (), d2)"
    "same_but {MetricsParticipation ?kb} d1 d2"
    using tidy_run_unit [OF participation_stores] by blast
  obtain d3 where d3: "run store_step (aggregateCurrentEpochStatus ?kb) d2 = (Some (), d3)"
    "same_but {MetricsCurrentEpoch ?kb} d2 d3"
    using tidy_run_unit [OF epoch_status_stores] by blast
  have "run store_step (aggregateCurrentMetrics ro sequencerID sw) d = (Some (), d3)"
    using vs(1) d1(1) d2(1) d3(1)
    by (simp add: aggregateCurrentMetrics_def Let_def run_Call run_bindp run_processed_count run_recent_counts
        dashboard_def read_clock nanos_def eval_nat_numeral)
  moreover have "map_of (strs d3) (DashboardSummary ?kb) = Some (marshal (JObj ?fs))" "hashes d3 = hashes d1"
    using d1(2) d2(2) d3(2) data_set_keys by (simp_all add: same_but_def)
  moreover have "known_validators ?kb d \<noteq> {} \<Longrightarrow> length vs = card (known_validators ?kb d)"
    using vs(2,3) distinct_card by metis
  ultimately show ?thesis using d1(3) by (intro exI [of _ d3] exI [of _ "length vs"]) (simp add: Let_def)
qed

text \<open>The dashboard says what Redis holds: a round of the tracker always ends, and the summary it stores under the
  dashboard's key and, field by field, in the statistics hash has the counters plus the stored submissions of all active
  epochs, the length of the queue, the number of distinct validators of the active epochs, and the sizes of the
  timelines' last minutes.\<close>

theorem dashboard_counts:
  "\<exists>d' n. run store_step (aggregateCurrentMetrics ro sequencerID sw) d = (Some (), d') \<and>
     (known_validators (swKeys sw) d \<noteq> {} \<longrightarrow> n = card (known_validators (swKeys sw) d)) \<and>
     (let fs = dashboard sw (dur_seconds (clock d (readings d) - swLastReset sw)) d n
           (clock d (readings d + 2) div nanos) (clock d (readings d + 3) div nanos) in
      map_of (strs d') (DashboardSummary (swKeys sw)) = Some (marshal (JObj fs)) \<and>
      (\<forall>f j. map_of fs f = Some j \<longrightarrow> map_of (hashes d' (StatsCurrent (swKeys sw))) f = Some (Js j)))"
  by (rule aggregate_run)

text \<open>Without time no summary: a round that runs at the very clock reading of the last reset divides by zero, the
  summary cannot be marshalled, and what it stores as the dashboard is the empty text.\<close>

theorem no_time_no_summary:
  assumes "clock d (readings d) = swLastReset sw"
  shows "\<exists>d'. run store_step (aggregateCurrentMetrics ro sequencerID sw) d = (Some (), d') \<and>
    map_of (strs d') (DashboardSummary (swKeys sw)) = Some (Txt [])"
proof -
  have "dur_seconds 0 = Fin 0" using dur_seconds_whole(1) [of 0] by simp
  moreover have "\<not> marshals (enc_float (rate_of n (Fin 0)))" for n
    by (cases "f_of_int n") (auto simp: rate_of_def finite_float_def)
  ultimately have "marshal (JObj (dashboard sw (dur_seconds (clock d (readings d) - swLastReset sw)) d n u t)) = Txt []" for n u t
    using assms by (simp add: marshal_def dashboard_def summary_fields_def Let_def)
  then show ?thesis
    using aggregate_run [of ro sequencerID sw d] by (auto simp: Let_def)
qed

section \<open>Participation\<close>

definition includes_id :: "store \<Rightarrow> keyBuilder \<Rightarrow> string \<Rightarrow> string \<Rightarrow> bool" where
  "includes_id d kb sequencerID entry \<longleftrightarrow> has_prefix ''aggregated:'' entry \<and>
     (case validator_list (fst (store_step d (RGet (MetricsBatchValidators kb (trim_prefix ''aggregated:'' entry))))) of
        None \<Rightarrow> False
      | Some vs \<Rightarrow> sequencerID \<in> set vs)"

lemma run_add_inclusions:
  "run store_step (for_each (add_inclusion kb sequencerID) es n) d =
     (Some (n + int (length (filter (includes_id d kb sequencerID) es))), d)"
proof (induction es arbitrary: n)
  case (Cons e es)
  have "run store_step (add_inclusion kb sequencerID e n) d = (Some (if includes_id d kb sequencerID e then n + 1 else n), d)"
    by (auto simp: add_inclusion_def includes_id_def run_Call split: option.splits)
  with Cons show ?case by (simp add: run_bindp)
qed simp

text \<open>The entries of a timeline in a span of time.\<close>

definition span :: "int \<Rightarrow> int \<Rightarrow> string \<Rightarrow> store \<Rightarrow> string list" where
  "span lo hi timeline d = map fst (filter (in_scores lo (Some hi)) (zsets d timeline))"

lemma span_by_score:
  "mset (map fst (filter f (by_score m))) = mset (map fst (filter f m))"
  by (simp add: mset_by_score)

lemma run_participation:
  "\<exists>d' l1 epochs. run store_step (aggregateParticipationMetrics kb sequencerID) d = (Some (), d') \<and>
     (let now = clock d (readings d) div nanos; entries = span (now - 86400) now (MetricsBatchesTimeline kb) d in
      map_of (strs d') (MetricsParticipation kb) =
        Some (marshal (participation l1 (int (length entries))
          (int (length (filter (includes_id d kb sequencerID) entries))) epochs now)))"
proof -
  let ?now = "clock d (readings d) div nanos" and ?k = "MetricsBatchesTimeline kb"
  let ?f = "in_scores (?now - 86400) (Some ?now)" and ?p = "includes_id d kb sequencerID"
  have "length (filter ?p (map fst (filter ?f (by_score (zsets d ?k))))) = length (filter ?p (map fst (filter ?f (zsets d ?k))))"
    using span_by_score [of ?f "zsets d ?k"] by (metis mset_filter size_mset)
  moreover have "includes_id (d\<lparr>readings := n\<rparr>) kb sequencerID = ?p" for n
    by (simp add: includes_id_def fun_eq_iff)
  ultimately show ?thesis
    by (simp add: aggregateParticipationMetrics_def Let_def run_Call run_bindp run_add_inclusions span_def nanos_def
        run_exec map_of_update) blast
qed

text \<open>Rounding keeps what is at most a half at most a half.\<close>

lemma round64_half:
  assumes "0 \<le> q" and "q \<le> 1/2"
  shows "\<exists>r. round64 q = Fin r \<and> 0 \<le> r \<and> r \<le> 1/2"
proof (cases "q = 0")
  case False
  with assms have q: "0 < q" by simp
  let ?e = "ulp_exp q"
  have "exponent_of q < 0"
  proof (rule ccontr)
    assume "\<not> exponent_of q < 0"
    then have "pow2 0 \<le> pow2 (exponent_of q)" by (intro pow2_mono) simp
    moreover have "pow2 0 = 1" by (simp add: pow2_def)
    ultimately show False using exponent_of_bounds(1) [OF q] assms(2) by linarith
  qed
  then have e: "?e < 0" by (simp add: ulp_exp_def)
  have h: "of_int (2 ^ nat (- ?e - 1)) * pow2 ?e = 1/2"
  proof -
    have "nat (- ?e) = Suc (nat (- ?e - 1))" using e by linarith
    then show ?thesis using e by (simp add: pow2_def)
  qed
  then have "q / pow2 ?e \<le> of_int (2 ^ nat (- ?e - 1))"
    using assms(2) by (simp add: pos_divide_le_eq)
  then have "half_even (q / pow2 ?e) \<le> 2 ^ nat (- ?e - 1)"
    using half_even_mono [of "q / pow2 ?e" "of_int (2 ^ nat (- ?e - 1))"] unfolding half_even_of_int by blast
  then have "of_int (half_even (q / pow2 ?e)) * pow2 ?e \<le> of_int (2 ^ nat (- ?e - 1)) * pow2 ?e"
    by (simp only: mult_right_mono of_int_le_iff less_imp_le pow2_pos)
  then have r: "round_pos q \<le> 1/2" unfolding round_pos_def h .
  obtain s where "round64 q = Fin s" "0 \<le> s" using round64_to_int_le [of q 1] assms by auto
  moreover have "round64 q = Fin (round_pos q)"
  proof -
    have "(1/2 :: rat) < 2 ^ 1024" by simp
    then have "round_pos q < 2 ^ 1024" using r by linarith
    then show ?thesis using q by (simp add: round64_def Let_def not_le)
  qed
  ultimately show ?thesis using r by simp
qed (simp add: round64_def)

lemma percent_bounds:
  assumes "0 \<le> i" and "i \<le> t" and "0 < t" and "t \<le> 2 ^ 53"
  shows "\<exists>r. percent i t = Fin r \<and> 0 \<le> r \<and> r \<le> 100 \<and> (2 * i \<le> t \<longrightarrow> r \<le> 50)"
proof -
  have e: "percent i t = fmul (round64 (of_int i / of_int t)) (Fin 100)"
    using assms by (simp add: percent_def f_of_int_exact)
  let ?q = "of_int i / of_int t :: rat"
  have q: "0 \<le> ?q" "?q \<le> of_int 1" using assms by simp_all
  obtain a where a: "round64 ?q = Fin a" "0 \<le> a" "a \<le> 1" using round64_to_int_le [OF q] by auto
  have h: "a \<le> 1/2" if "2 * i \<le> t"
  proof -
    have "(of_int (2 * i) :: rat) \<le> of_int t" using that by (simp only: of_int_le_iff)
    then have "?q \<le> 1/2" using assms(3) by (simp add: divide_le_eq)
    with round64_half [OF q(1)] a(1) show ?thesis by simp
  qed
  have "\<exists>r. round64 (a * 100) = Fin r \<and> 0 \<le> r \<and> r \<le> of_int n" if "a * 100 \<le> of_int n" "n \<le> 100" for n
    using round64_to_int_le [of "a * 100" n] a(2) that by simp
  from this [of 100] this [of 50] a h show ?thesis unfolding e by fastforce
qed

text \<open>Elements that each have a partner of their own outside are at most half of a list.\<close>

lemma filter_at_most_half:
  assumes "distinct xs" and "inj_on f {x. P x}" and "\<And>x. x \<in> set xs \<Longrightarrow> P x \<Longrightarrow> f x \<in> set xs \<and> \<not> P (f x)"
  shows "2 * length (filter P xs) \<le> length xs"
proof -
  have "inj_on f (set (filter P xs))" by (rule inj_on_subset [OF assms(2)]) auto
  moreover have "f ` set (filter P xs) \<subseteq> set (filter (\<lambda>x. \<not> P x) xs)" using assms(3) by auto
  ultimately have "card (set (filter P xs)) \<le> card (set (filter (\<lambda>x. \<not> P x) xs))"
    by (intro card_inj_on_le [of f]) simp_all
  then have "length (filter P xs) \<le> length (filter (\<lambda>x. \<not> P x) xs)"
    unfolding distinct_card [OF distinct_filter [OF assms(1)]] .
  then show ?thesis using sum_length_filter_compl [of P xs] by linarith
qed

text \<open>C40. Full participation shows as half: when every aggregated batch of the last day that includes the sequencer has its
  own local batch among the timeline's entries of that day, as level 1 records it, the participation rate that the
  tracker stores is at most 50, since it divides by all entries of the timeline, local ones and those of other
  validators included.\<close>

theorem full_participation_shows_as_half:
  fixes d kb sequencerID
  defines "now \<equiv> clock d (readings d) div nanos"
  defines "entries \<equiv> span (now - 86400) now (MetricsBatchesTimeline kb) d"
  assumes "go_ok (zsets d (MetricsBatchesTimeline kb))" and "length entries \<le> 2 ^ 53"
    and "\<And>e. ''aggregated:'' @ e \<in> set entries \<Longrightarrow> includes_id d kb sequencerID (''aggregated:'' @ e) \<Longrightarrow> ''local:'' @ e \<in> set entries"
  shows "\<exists>d' l1 incl epochs r. run store_step (aggregateParticipationMetrics kb sequencerID) d = (Some (), d') \<and>
    map_of (strs d') (MetricsParticipation kb) = Some (marshal (participation l1 (int (length entries)) incl epochs now)) \<and>
    incl = int (length (filter (includes_id d kb sequencerID) entries)) \<and>
    participation_rate incl (int (length entries)) = Fin r \<and> 0 \<le> r \<and> r \<le> 50"
proof -
  let ?p = "includes_id d kb sequencerID"
  have dist: "distinct entries"
    using assms(3) unfolding entries_def span_def go_ok_def by (simp add: distinct_map_filter)
  have agg: "\<exists>e. s = ''aggregated:'' @ e" if "?p s" for s
    using that unfolding includes_id_def has_prefix_def by (metis append_take_drop_id)
  have half: "2 * length (filter ?p entries) \<le> length entries"
  proof (rule filter_at_most_half [OF dist])
    show "inj_on (\<lambda>s. ''local:'' @ drop 11 s) {s. ?p s}"
    proof (rule inj_onI)
      fix s t assume st: "s \<in> {s. ?p s}" "t \<in> {s. ?p s}" "''local:'' @ drop 11 s = ''local:'' @ drop 11 t"
      from st(1,2) agg obtain e f where "s = ''aggregated:'' @ e" "t = ''aggregated:'' @ f" by blast
      with st(3) show "s = t" by simp
    qed
    fix s assume s: "s \<in> set entries" "?p s"
    with agg obtain e where "s = ''aggregated:'' @ e" by blast
    with s assms(5) [of e] show "''local:'' @ drop 11 s \<in> set entries \<and> \<not> ?p (''local:'' @ drop 11 s)"
      by (simp add: includes_id_def has_prefix_def)
  qed
  have "\<exists>r. participation_rate (int (length (filter ?p entries))) (int (length entries)) = Fin r \<and> 0 \<le> r \<and> r \<le> 50"
  proof (cases "entries = []")
    case False
    then show ?thesis
      using percent_bounds [of "int (length (filter ?p entries))" "int (length entries)"] half assms(4)
      by (auto simp: participation_rate_def)
  qed (simp add: participation_rate_def)
  then show ?thesis
    using run_participation [of kb sequencerID d] unfolding now_def [symmetric] entries_def [symmetric] Let_def by blast
qed

section \<open>The current epoch\<close>

lemma parse_f64_show_nat:
  assumes "n \<le> 2 ^ 53"
  shows "parse_f64 (show_nat n) = Some (Fin (of_nat n))"
proof -
  have all: "digit_val c \<noteq> None" if "c \<in> set (show_nat n)" for c
  proof -
    have "parse_digits acc s \<noteq> None \<Longrightarrow> c \<in> set s \<Longrightarrow> digit_val c \<noteq> None" for acc s
      by (induction acc s rule: parse_digits.induct) (auto split: option.splits)
    then show ?thesis using parse_digits_show_nat [of n] that by blast
  qed
  have "take_digits (show_nat n) = (show_nat n, [])"
    using all by (auto simp: take_digits_def takeWhile_eq_all_conv dropWhile_eq_Nil_conv)
  then have p: "split_point (show_nat n) = (show_nat n, [], [])" by (simp add: split_point_def)
  have sg: "split_sign (show_nat n) = (False, show_nat n)"
    using show_nat_head [of n] by (auto simp: split_sign_def)
  have v: "round64 (of_nat n) = Fin (of_nat n)"
    using round64_exact [of "int n"] assms by simp
  have "nat_of_digits (show_nat n) = n" by (simp add: nat_of_digits_def parse_digits_show_nat)
  then show ?thesis
    by (simp add: parse_f64_def sg p v parse_exponent_def pow10_def Let_def)
qed

lemma trunc_of_nat: "n \<le> 2 ^ 53 \<Longrightarrow> f_to_int (Fin (of_nat n)) = int n"
  by (simp add: trunc_def Let_def)

text \<open>What opening a window leaves in the epoch's hash.\<close>

lemma opened_info:
  assumes "hashes d0 (MetricsEpochInfo kb (show_nat e)) = []"
  shows "hashes (final store_step (exec (RPipe (open_metrics kb e market dur blk now))) d0) (MetricsEpochInfo kb (show_nat e)) =
    [(''status'', Txt ''open''), (''start'', Js (JNum now)), (''data_market'', Txt market),
     (''duration'', Js (JNum (int dur))), (''start_block'', Js (JNum (uint blk)))]"
  using assms by (simp add: open_metrics_def Let_def run_exec)

text \<open>The clock of an open epoch stands still: while the first active epoch has the information that opening its
  window left, the tracker reports it in the submission phase with its full duration remaining, whenever it looks: it
  reads a \<open>timestamp\<close> where the event monitor writes \<open>start\<close>, and takes the present time instead.\<close>

theorem open_epoch_time_stands_still:
  assumes "hashes d0 (MetricsEpochInfo kb (show_nat e)) = []"
    and "hashes d (MetricsEpochInfo kb (show_nat e)) =
      hashes (final store_step (exec (RPipe (open_metrics kb e market dur blk now))) d0) (MetricsEpochInfo kb (show_nat e))"
    and "sets d (ActiveEpochs kb) = show_nat e # es" and "dur \<le> 2 ^ 53"
  shows "\<exists>d' info. run store_step (aggregateCurrentEpochStatus kb) d = (Some (), d') \<and>
    map_of (strs d') (MetricsCurrentEpoch kb) = Some (Js (status_report (show_nat e) (''submission'', int dur)
      (int (length (sets d (EpochProcessed kb (show_nat e))))) (clock d (readings d) div nanos) info))"
proof -
  let ?info = "hashes d (MetricsEpochInfo kb (show_nat e))"
  have i: "?info = [(''status'', Txt ''open''), (''start'', Js (JNum now)), (''data_market'', Txt market),
     (''duration'', Js (JNum (int dur))), (''start_block'', Js (JNum (uint blk)))]"
    using opened_info [OF assms(1)] assms(2) by simp
  have f: "info_field ?info ''status'' = Some ''open''" "info_field ?info ''timestamp'' = None"
    "window_duration ?info = Some (Fin (of_nat dur))"
    using parse_f64_show_nat [OF assms(4)] by (simp_all add: i info_field_def window_duration_def show_int_def)
  have ph: "epoch_phase kb (show_nat e) t t (Some ?info) = Ret (''submission'', int dur)" for t
    using f trunc_of_nat [OF assms(4)] by (simp add: epoch_phase_def)
  have m: "marshal (status_report (show_nat e) (''submission'', int dur) n t (Some ?info)) =
      Js (status_report (show_nat e) (''submission'', int dur) n t (Some ?info))" for n t
    using f(3) by (simp add: marshal_def status_report_def finite_float_def Let_def split: option.split)
  show ?thesis
    using assms(3) f(2)
    by (auto simp: aggregateCurrentEpochStatus_def store_epoch_status_def run_Call run_bindp Let_def epoch_info_def ph m
        run_exec map_of_update nanos_def intro: exI [of _ "Some ?info"])
qed

section \<open>The day\<close>

definition listed_epochs :: "json \<Rightarrow> int" where
  "listed_epochs j = (case j of
       JObj kvs \<Rightarrow> (case map_of kvs ''epochs'' of Some (JNum n) \<Rightarrow> n | _ \<Rightarrow> 0)
     | _ \<Rightarrow> 0)"

definition at_score :: "int \<Rightarrow> string \<Rightarrow> store \<Rightarrow> int" where
  "at_score x timeline d = int (length (filter (\<lambda>e. snd e = x) (zsets d timeline)))"

lemma filter_or_and:
  "length (filter P xs) + length (filter Q xs) = length (filter (\<lambda>x. P x \<or> Q x) xs) + length (filter (\<lambda>x. P x \<and> Q x) xs)"
  by (induction xs) auto

text \<open>Two windows that share an end count what lies there twice.\<close>

lemma window_count_join:
  assumes "a \<le> b" and "b \<le> c"
  shows "window_count a b t d + window_count b c t d = window_count a c t d + at_score b t d"
proof -
  have "(\<lambda>x. in_scores a (Some b) x \<or> in_scores b (Some c) x) = in_scores a (Some c)"
    and "(\<lambda>x. in_scores a (Some b) x \<and> in_scores b (Some c) x) = (\<lambda>x. snd x = b)"
    using assms by (auto simp: in_scores_def fun_eq_iff)
  then show ?thesis
    using filter_or_and [of "in_scores a (Some b)" "zsets d t" "in_scores b (Some c)"]
    by (simp add: window_count_def at_score_def)
qed

lemma hours_sum:
  "(\<Sum>i \<leftarrow> [0 ..< Suc n]. window_count (lo + int i * 3600) (lo + int i * 3600 + 3600) t d) =
     window_count lo (lo + int (Suc n) * 3600) t d + (\<Sum>i \<leftarrow> [1 ..< Suc n]. at_score (lo + int i * 3600) t d)"
proof (induction n)
  case (Suc n)
  have "window_count lo (lo + int (Suc n) * 3600) t d + window_count (lo + int (Suc n) * 3600) (lo + int (Suc n) * 3600 + 3600) t d =
      window_count lo (lo + int (Suc n) * 3600 + 3600) t d + at_score (lo + int (Suc n) * 3600) t d"
    by (rule window_count_join) simp_all
  moreover have "[1 ..< Suc (Suc n)] = [1 ..< Suc n] @ [Suc n]" by simp
  ultimately show ?case using Suc.IH by (simp add: algebra_simps)
qed (simp add: algebra_simps)

definition hour_line :: "layouts \<Rightarrow> keyBuilder \<Rightarrow> int \<Rightarrow> store \<Rightarrow> nat \<Rightarrow> json" where
  "hour_line F kb dayAgo d i =
     JObj [(''hour'', JStr (HourMinute F (dayAgo + int i * hour_nanos))),
       (''epochs'', JNum (window_count (dayAgo div nanos + int i * 3600) (dayAgo div nanos + int i * 3600 + 3600)
          (MetricsEpochsTimeline kb) d))]"

lemma run_hours:
  "run store_step (for_each (hour_entry F kb dayAgo) is hours) d = (Some (hours @ map (hour_line F kb dayAgo d) is), d)"
proof (induction "is" arbitrary: hours)
  case (Cons i "is")
  have "(dayAgo + int i * hour_nanos) div nanos = dayAgo div nanos + int i * 3600"
    "(dayAgo + int i * hour_nanos + hour_nanos) div nanos = dayAgo div nanos + int i * 3600 + 3600"
    by (simp_all add: hour_nanos_def nanos_def add.assoc)
  with Cons.IH show ?case
    by (simp add: hour_entry_def Let_def run_Call run_bindp hour_line_def window_count_def)
qed simp

text \<open>The hours of the day do not add up: a round of the daily statistics always ends and stores 24 hourly counts of
  epoch events, whose sum is the stored total of the day plus the events at full hours within it, each of which is
  counted in both hours it belongs to.\<close>

theorem daily_hours_count_boundaries_twice:
  fixes d kb
  defines "now \<equiv> clock d (readings d)"
  defines "start \<equiv> (now - 24 * hour_nanos) div nanos"
  shows "\<exists>d' batches submissions hours t. run store_step (aggregateDailyStats F kb) d = (Some (), d') \<and>
    map_of (strs d') (StatsDaily kb) = Some (Js (daily_stats F now
      (window_count start (now div nanos) (MetricsEpochsTimeline kb) d) batches submissions hours t)) \<and>
    length hours = 24 \<and>
    (\<Sum>h \<leftarrow> hours. listed_epochs h) = window_count start (now div nanos) (MetricsEpochsTimeline kb) d +
      (\<Sum>i \<leftarrow> [1 ..< 24]. at_score (start + int i * 3600) (MetricsEpochsTimeline kb) d)"
proof -
  let ?k = "MetricsEpochsTimeline kb"
  define hours where "hours = map (hour_line F kb (now - 24 * hour_nanos) d) [0 ..< 24]"
  have end': "start + 86400 = now div nanos"
    by (simp add: start_def hour_nanos_def nanos_def)
  have l: "listed_epochs (hour_line F kb (now - 24 * hour_nanos) d i) =
      window_count (start + int i * 3600) (start + int i * 3600 + 3600) ?k d" for i
    by (simp add: listed_epochs_def hour_line_def start_def)
  have "[0 ..< 24] = [0 ..< Suc 23]" "[1 ..< 24] = [1 ..< Suc 23]" by simp_all
  then have sum: "(\<Sum>h \<leftarrow> hours. listed_epochs h) = window_count start (now div nanos) ?k d +
      (\<Sum>i \<leftarrow> [1 ..< 24]. at_score (start + int i * 3600) ?k d)"
    using hours_sum [of start ?k d 23] end' by (simp only: hours_def map_map comp_def l) simp
  have "hour_line F kb x (d\<lparr>readings := n\<rparr>) = hour_line F kb x d" for x n
    by (simp add: hour_line_def read_clock fun_eq_iff)
  then have h: "run store_step (for_each (hour_entry F kb (now - 24 * hour_nanos)) [0 ..< 24] []) (d\<lparr>readings := n\<rparr>) =
      (Some hours, d\<lparr>readings := n\<rparr>)" for n
    unfolding run_hours hours_def by (simp del: upt_rec_numeral)
  have len: "length hours = 24" by (simp add: hours_def del: upt_rec_numeral)
  have m: "marshal (daily_stats F now e b s hours t) = Js (daily_stats F now e b s hours t)" for e b s t
    by (auto simp: marshal_def daily_stats_def hours_def list_all_iff hour_line_def)
  have "clock d (readings d) = now" by (simp add: now_def)
  then have "\<exists>d' b s t. run store_step (aggregateDailyStats F kb) d = (Some (), d') \<and>
    map_of (strs d') (StatsDaily kb) = Some (Js (daily_stats F now (window_count start (now div nanos) ?k d) b s hours t))"
    unfolding start_def by (simp add: aggregateDailyStats_def Let_def run_Call run_bindp run_processed_count h run_exec
        map_of_update window_count_def m) blast
  then show ?thesis using sum len by blast
qed

section \<open>Pruning\<close>

text \<open>Pruning keeps the day: exactly the entries of the epoch and batch timelines that are not older than a day stay, in
  order, nothing else in Redis changes, in particular not the timeline of submissions, and the counters start again when
  they have run for more than a day and keep their values otherwise.\<close>

theorem prune_keeps_the_day:
  fixes d sw
  defines "cutoff \<equiv> clock d (readings d) div nanos - 86400"
  shows "\<exists>sw' n. run store_step (pruneOldData sw) d = (Some sw', d\<lparr>zsets := (zsets d)(
        MetricsEpochsTimeline (swKeys sw) := filter (\<lambda>x. cutoff < snd x) (zsets d (MetricsEpochsTimeline (swKeys sw))),
        MetricsBatchesTimeline (swKeys sw) := filter (\<lambda>x. cutoff < snd x) (zsets d (MetricsBatchesTimeline (swKeys sw)))),
      readings := n\<rparr>) \<and>
    swKeys sw' = swKeys sw \<and>
    (if 24 * hour_nanos < clock d (readings d + 1) - swLastReset sw
     then swSubmissions sw' = 0 \<and> swValidations sw' = 0 \<and> swEpochs sw' = 0 \<and> swBatches sw' = 0 \<and>
       swLastReset sw' = clock d (readings d + 2)
     else sw' = sw)"
proof -
  have "MetricsEpochsTimeline (swKeys sw) \<noteq> MetricsBatchesTimeline (swKeys sw)"
    by (simp add: MetricsEpochsTimeline_def MetricsBatchesTimeline_def ns_same)
  then show ?thesis
    by (auto simp: pruneOldData_def Let_def run_Call cutoff_def nanos_def numeral_eq_Suc)
qed

section \<open>Examples\<close>

definition track_kb :: keyBuilder where
  "track_kb = NewKeyBuilder ''p'' ''m''"

definition track_worker :: stateWorker where
  "track_worker = \<lparr>swKeys = track_kb, swSubmissions = 2, swValidations = 0, swEpochs = 1, swBatches = 0, swLastReset = 0\<rparr>"

definition track_store :: store where
  "track_store = empty_store\<lparr>sets := (\<lambda>_. [])(ActiveEpochs track_kb := [show_nat 7], EpochValidators track_kb (show_nat 7) := [''v1'']),
     zsets := (\<lambda>_. [])(MetricsBatchesTimeline track_kb := [(''aggregated:7'', 0), (''local:7'', 0)]),
     strs := [(MetricsBatchValidators track_kb ''7'', Js (JArr [JStr ''v1'']))]\<rparr>"

lemma track_validators: "known_validators track_kb track_store = {''v1''}"
  by (simp add: known_validators_def track_store_def ActiveEpochs_def EpochValidators_def ns_same)

theorem dashboard_counts_witness:
  "\<exists>d' fs. run store_step (aggregateCurrentMetrics in_order ''v1'' track_worker) track_store = (Some (), d') \<and>
     map_of (strs d') (DashboardSummary track_kb) = Some (marshal (JObj fs)) \<and>
     map_of (hashes d' (StatsCurrent track_kb)) ''active_validators'' = Some (Js (JNum 1))"
proof -
  have k: "swKeys track_worker = track_kb" by (simp add: track_worker_def)
  have a: "map_of (dashboard track_worker x track_store n u t) ''active_validators'' = Some (JNum (int n))" for x n u t
    by (simp add: dashboard_def summary_fields_def Let_def)
  from dashboard_counts [of in_order "''v1''" track_worker track_store]
  obtain d' n where *: "run store_step (aggregateCurrentMetrics in_order ''v1'' track_worker) track_store = (Some (), d')"
    "n = 1" "let fs = dashboard track_worker (dur_seconds (clock track_store (readings track_store) - swLastReset track_worker)) track_store n
           (clock track_store (readings track_store + 2) div nanos) (clock track_store (readings track_store + 3) div nanos) in
      map_of (strs d') (DashboardSummary track_kb) = Some (marshal (JObj fs)) \<and>
      (\<forall>f j. map_of fs f = Some j \<longrightarrow> map_of (hashes d' (StatsCurrent track_kb)) f = Some (Js j))"
    unfolding k track_validators by auto
  then show ?thesis unfolding Let_def using a [of _ n] by (auto simp: \<open>n = 1\<close>)
qed

theorem no_time_no_summary_witness:
  "\<exists>d'. run store_step (aggregateCurrentMetrics in_order ''v1'' track_worker) track_store = (Some (), d') \<and>
     map_of (strs d') (DashboardSummary track_kb) = Some (Txt [])"
  using no_time_no_summary [of track_store track_worker in_order "''v1''"]
  by (simp add: track_store_def empty_store_def track_worker_def)

theorem full_participation_shows_as_half_witness:
  "\<exists>d' l1 epochs. run store_step (aggregateParticipationMetrics track_kb ''v1'') track_store = (Some (), d') \<and>
     map_of (strs d') (MetricsParticipation track_kb) = Some (marshal (participation l1 2 1 epochs 0)) \<and>
     (\<exists>r. participation_rate 1 2 = Fin r \<and> 0 \<le> r \<and> r \<le> 50)"
proof -
  have e: "span (0 - 86400) 0 (MetricsBatchesTimeline track_kb) track_store = [''aggregated:7'', ''local:7'']"
    and now: "clock track_store (readings track_store) div nanos = 0"
    by (simp_all add: span_def track_store_def empty_store_def in_scores_def nanos_def)
  have i: "includes_id track_store track_kb ''v1'' ''aggregated:7''" "\<not> includes_id track_store track_kb ''v1'' ''local:7''"
    by (simp_all add: includes_id_def has_prefix_def trim_prefix_def track_store_def validator_list_def
        MetricsBatchValidators_def ns_same Let_def)
  have "go_ok (zsets track_store (MetricsBatchesTimeline track_kb))" by (simp add: track_store_def go_ok_def)
  from full_participation_shows_as_half [of track_store track_kb "''v1''", unfolded now e, OF this] i
  show ?thesis by auto
qed

theorem open_epoch_time_stands_still_witness:
  "\<exists>d' info. run store_step (aggregateCurrentEpochStatus track_kb)
       (track_store\<lparr>hashes := hashes (final store_step (exec (RPipe (open_metrics track_kb 7 ''m'' 20 1 0))) track_store),
          clock := \<lambda>_. 3600 * nanos\<rparr>) = (Some (), d') \<and>
     map_of (strs d') (MetricsCurrentEpoch track_kb) = Some (Js (status_report (show_nat 7) (''submission'', 20) 0 3600 info))"
proof -
  let ?d = "track_store\<lparr>hashes := hashes (final store_step (exec (RPipe (open_metrics track_kb 7 ''m'' 20 1 0))) track_store),
          clock := \<lambda>_. 3600 * nanos\<rparr>"
  have "hashes track_store (MetricsEpochInfo track_kb (show_nat 7)) = []" by (simp add: track_store_def empty_store_def)
  moreover have "sets ?d (ActiveEpochs track_kb) = show_nat 7 # []"
    by (simp add: track_store_def ActiveEpochs_def EpochValidators_def ns_same)
  moreover have "sets ?d (EpochProcessed track_kb (show_nat 7)) = []"
    by (simp add: track_store_def ActiveEpochs_def EpochValidators_def EpochProcessed_def ns_same)
  ultimately show ?thesis
    using open_epoch_time_stands_still [of track_store track_kb 7 ?d "''m''" 20 1 0 "[]"] by (simp add: nanos_def)
qed

end
