(* ===== verification/MonitorApi.thy ===== *)
theory MonitorApi
  imports GoText Keys Env Eip712
begin

text \<open>
  \<open>cmd/monitor-api/main.go\<close>: the monitoring API. A handler takes the query of its request and yields
  the status and the JSON it responds with; a panic is turned into a 500 by the recovery of the router.
  \<open>redis.Get(\<dots>).Result()\<close> with its error ignored is \<open>got\<close>: the text, empty when there is none. The
  \<open>Sprintf\<close> keys of the code are those of \<open>ns\<close>. Responses carry times as RFC 3339 texts; the texts of Redis errors in them are left empty.
\<close>

record monitorApi =
  apiKeys :: keyBuilder

type_synonym query = "(string, string) gomap"

definition NewMonitorAPI :: "string \<Rightarrow> string \<Rightarrow> monitorApi" where
  "NewMonitorAPI protocol market = \<lparr>apiKeys = NewKeyBuilder protocol market\<rparr>"

definition getEnv :: "(string \<Rightarrow> string) \<Rightarrow> string \<Rightarrow> string \<Rightarrow> string" where
  "getEnv env key defaultValue = (if env key = [] then defaultValue else env key)"

section \<open>Requests\<close>

text \<open>The market asked for, with the API's own protocol and market for what is missing.\<close>

definition request_keys :: "monitorApi \<Rightarrow> query \<Rightarrow> keyBuilder" where
  "request_keys m q =
     (let protocol = mget [] q ''protocol''; market = mget [] q ''market'' in
      if protocol = [] \<and> market = [] then apiKeys m
      else NewKeyBuilder (if protocol = [] then ProtocolState (apiKeys m) else protocol)
        (if market = [] then DataMarket (apiKeys m) else market))"

text \<open>\<open>strconv.Atoi\<close> with its error ignored: 0 for what is no number, the nearest one for what does not fit.\<close>

definition atoi :: "string \<Rightarrow> int" where
  "atoi s =
     (let (neg, ds) = split_sign s in
      case (if ds = [] then None else parse_digits 0 ds) of
        None \<Rightarrow> 0
      | Some n \<Rightarrow> max (- (2 ^ 63)) (min (2 ^ 63 - 1) (if neg then - int n else int n)))"

text \<open>A number of the query; outside its bounds, or no number, it is the default.\<close>

definition query_number :: "query \<Rightarrow> string \<Rightarrow> int \<Rightarrow> int \<Rightarrow> int" where
  "query_number q name bound dflt =
     (let n = atoi (mget (show_int dflt) q name) in
      if n \<le> 0 \<or> bound < n then dflt else n)"

definition got :: "reply \<Rightarrow> blob" where
  "got r = (case r of BlobR b \<Rightarrow> b | _ \<Rightarrow> Txt [])"

text \<open>\<open>json.Unmarshal\<close> into a nil map with its error ignored.\<close>

definition load_map :: "blob \<Rightarrow> (string, json) gomap option" where
  "load_map b = (case unmarshal_map b of Some (Some kvs) \<Rightarrow> Some kvs | _ \<Rightarrow> None)"

text \<open>Entries of a map copied into a response; a missing one is \<open>null\<close>.\<close>

definition copied :: "(string, json) gomap \<Rightarrow> (string \<times> string) list \<Rightarrow> (string \<times> json) list" where
  "copied m names = map (\<lambda>(f, g). (f, case map_of m g of None \<Rightarrow> JNull | Some j \<Rightarrow> refloat j)) names"

definition same_names :: "string list \<Rightarrow> (string \<times> string) list" where
  "same_names fs = map (\<lambda>f. (f, f)) fs"

section \<open>Dashboard\<close>

definition system_names :: "string list" where
  "system_names = [''active_validators'', ''batch_rate'', ''batches_total'', ''epoch_rate'', ''epochs_total'',
     ''processed_submissions'', ''submission_rate'', ''submissions_total'', ''submissions_queue'',
     ''measurement_duration'', ''updated_at'']"

definition epoch_names :: "(string \<times> string) list" where
  "epoch_names = [(''current_epoch_id'', ''epoch_id''), (''current_epoch_phase'', ''phase''),
     (''epoch_time_remaining'', ''time_remaining_seconds''), (''epoch_window_duration'', ''window_duration'')]"

definition activity_names :: "string list" where
  "activity_names = [''submissions_1m'', ''submissions_5m'', ''epochs_1m'', ''epochs_5m'', ''batches_1m'', ''batches_5m'']"

definition no_participation :: "(string, json) gomap" where
  "no_participation = [(''participation_rate'', JNum 0), (''inclusion_rate'', JNum 0), (''level1_batches_24h'', JNum 0),
     (''level2_inclusions_24h'', JNum 0), (''epochs_participated_24h'', JNum 0), (''epochs_total_24h'', JNum 0)]"

definition all_of :: "(string, json) gomap \<Rightarrow> (string \<times> json) list" where
  "all_of m = map (\<lambda>(f, j). (f, refloat j)) m"

definition dashboard_response ::
  "string \<Rightarrow> (string, json) gomap option \<Rightarrow> (string, json) gomap option \<Rightarrow> (string, json) gomap option \<Rightarrow>
     int \<Rightarrow> int \<Rightarrow> int \<Rightarrow> string \<Rightarrow> json" where
  "dashboard_response validator summary participation currentEpoch submissionDepth finalizationDepth aggregationDepth t =
     JObj [(''validator_id'', JStr validator),
       (''system_metrics'', JObj (case summary of None \<Rightarrow> [] | Some s \<Rightarrow> copied s (same_names system_names))),
       (''participation_stats'', JObj (case participation of None \<Rightarrow> no_participation | Some p \<Rightarrow> all_of p)),
       (''current_status'', JObj ((case currentEpoch of None \<Rightarrow> [] | Some e \<Rightarrow> copied e epoch_names) @
          [(''submission_queue_depth'', JNum submissionDepth), (''finalization_queue_depth'', JNum finalizationDepth),
           (''aggregation_queue_depth'', JNum aggregationDepth)])),
       (''recent_activity'', JObj (case summary of None \<Rightarrow> [] | Some s \<Rightarrow> copied s (same_names activity_names))),
       (''timestamp'', JStr t)]"

definition load_summary :: "blob \<Rightarrow> (string, json) gomap option" where
  "load_summary b = (if b = Txt [] then Some [] else load_map b)"

definition DashboardSummaryHandler ::
  "golib \<Rightarrow> (string \<Rightarrow> string) \<Rightarrow> query \<Rightarrow> monitorApi \<Rightarrow> (nat \<times> json) prog" where
  "DashboardSummaryHandler L env q m =
     (let kb = request_keys m q in
      Call (RGet (ns kb ''dashboard:summary'')) (\<lambda>r1.
      Call (RHGetAll (ns kb ''stats:current'')) (\<lambda>_.
      Call (RLLen (SubmissionQueue kb)) (\<lambda>n1.
      Call (RLLen (FinalizationQueue kb)) (\<lambda>n2.
      Call (RLLen (AggregationQueue kb)) (\<lambda>n3.
      Call (RGet (ns kb ''metrics:participation'')) (\<lambda>r2.
      Call (RGet (ns kb ''metrics:current_epoch'')) (\<lambda>r3.
      Call NowNano (\<lambda>t.
      Ret (200, dashboard_response (getEnv env ''SEQUENCER_ID'' ''validator1'') (load_summary (got r1))
        (load_map (got r2)) (load_map (got r3)) (int_of n1) (int_of n2) (int_of n3) (TimeText L (int_of t))))))))))))"

section \<open>Statistics\<close>

definition hour_ns :: int where
  "hour_ns = 3600000000000"

definition add_hour :: "keyBuilder \<Rightarrow> int \<Rightarrow> nat \<Rightarrow> json list \<Rightarrow> json list prog" where
  "add_hour kb now i hourlyData =
     (let hourTime = now - int i * hour_ns; hourTime = hourTime - hourTime mod hour_ns in
      Call (RGet (ns kb (''stats:hourly:'' @ show_int (hourTime div 1000000000)))) (\<lambda>r.
      Ret (case r of
          BlobR b \<Rightarrow> (case unmarshal_map b of
              None \<Rightarrow> hourlyData
            | Some None \<Rightarrow> hourlyData @ [JNull]
            | Some (Some kvs) \<Rightarrow> hourlyData @ [JObj (all_of kvs)])
        | _ \<Rightarrow> hourlyData)))"

definition HourlyStats :: "golib \<Rightarrow> query \<Rightarrow> monitorApi \<Rightarrow> (nat \<times> json) prog" where
  "HourlyStats L q m =
     (let kb = request_keys m q; hours = query_number q ''hours'' 48 24 in
      Call NowNano (\<lambda>t.
      bindp (for_each (add_hour kb (int_of t)) [0 ..< nat hours] []) (\<lambda>hourlyData.
      Call NowNano (\<lambda>t2.
      Ret (200, JObj [(''hours'', JArr hourlyData), (''timestamp'', JStr (TimeText L (int_of t2)))])))))"

definition error_response :: "string \<Rightarrow> json" where
  "error_response e = JObj [(''error'', JStr e)]"

definition daily_response :: "json \<Rightarrow> json \<Rightarrow> string \<Rightarrow> json" where
  "daily_response summary hours t =
     JObj [(''summary'', summary), (''hourly_breakdown'', hours), (''timestamp'', JStr t)]"

text \<open>An empty breakdown is the nil slice, \<open>null\<close> in JSON.\<close>

definition split_daily :: "(string, json) gomap \<Rightarrow> json \<times> json" where
  "split_daily dailyStats =
     (case get_arr ''hourly_breakdown'' dailyStats of
        None \<Rightarrow> (JObj (all_of dailyStats), JNull)
      | Some breakdown \<Rightarrow>
          (let hours = filter (\<lambda>j. as_obj j \<noteq> None) breakdown in
           (JObj (all_of (AList.delete ''hourly_breakdown'' dailyStats)),
            if hours = [] then JNull else JArr (map refloat hours))))"

definition DailyStats :: "golib \<Rightarrow> query \<Rightarrow> monitorApi \<Rightarrow> (nat \<times> json) prog" where
  "DailyStats L q m =
     Call (RGet (ns (request_keys m q) ''stats:daily'')) (\<lambda>r. case r of
       NilR \<Rightarrow> Call NowNano (\<lambda>t. Ret (200, daily_response
         (JObj [(''message'', JStr ''No daily stats available yet'')]) JNull (TimeText L (int_of t))))
     | BlobR b \<Rightarrow>
         (case unmarshal_map b of
            None \<Rightarrow> Ret (500, error_response ''Failed to parse daily stats'')
          | Some None \<Rightarrow> Call NowNano (\<lambda>t. Ret (200, daily_response JNull JNull (TimeText L (int_of t))))
          | Some (Some dailyStats) \<Rightarrow>
              (let (summary, hours) = split_daily dailyStats in
               Call NowNano (\<lambda>t. Ret (200, daily_response summary hours (TimeText L (int_of t))))))
     | _ \<Rightarrow> Ret (500, error_response ''Failed to fetch daily stats''))"

section \<open>Queues\<close>

definition getQueueStatus :: "int \<Rightarrow> string" where
  "getQueueStatus depth =
     (if depth = 0 then ''empty'' else if depth < 100 then ''healthy'' else if depth < 500 then ''moderate''
      else if depth < 1000 then ''high'' else ''critical'')"

definition queue_entry :: "int \<Rightarrow> json" where
  "queue_entry depth = JObj [(''depth'', JNum depth), (''status'', JStr (getQueueStatus depth))]"

definition PipelineOverview :: "golib \<Rightarrow> query \<Rightarrow> monitorApi \<Rightarrow> (nat \<times> json) prog" where
  "PipelineOverview L q m =
     (let kb = request_keys m q in
      Call (RGet (ns kb ''dashboard:summary'')) (\<lambda>r.
      Call (RLLen (SubmissionQueue kb)) (\<lambda>n1.
      Call (RLLen (FinalizationQueue kb)) (\<lambda>n2.
      Call (RLLen (AggregationQueue kb)) (\<lambda>n3.
      Call NowNano (\<lambda>t.
      Ret (200, JObj [(''submission_queue'', queue_entry (int_of n1)), (''finalization_queue'', queue_entry (int_of n2)),
        (''aggregation_queue'', queue_entry (int_of n3)),
        (''metrics'', case load_summary (got r) of None \<Rightarrow> JNull | Some s \<Rightarrow> JObj (all_of s)),
        (''timestamp'', JStr (TimeText L (int_of t)))])))))))"

text \<open>The entries not yet delivered to a group: all of them, or none.\<close>

definition getStreamLag :: "string \<Rightarrow> string \<Rightarrow> int option prog" where
  "getStreamLag streamKey groupName =
     Call (RXDelivered streamKey) (\<lambda>r. case r of
       HashR info \<Rightarrow>
         (let lastDeliveredID = field_text (map_of info groupName) in
          if lastDeliveredID = [] then Ret None
          else Call (RXInfo streamKey) (\<lambda>r2.
            Ret (case r2 of IntR n \<Rightarrow> Some (if lastDeliveredID = ''0-0'' then n else 0) | _ \<Rightarrow> None)))
     | _ \<Rightarrow> Ret None)"

definition queue_status :: "string \<Rightarrow> int \<Rightarrow> json" where
  "queue_status name depth =
     JObj [(''queue_name'', JStr name), (''depth'', JNum depth), (''status'', JStr (getQueueStatus depth))]"

definition QueuesStatus :: "query \<Rightarrow> monitorApi \<Rightarrow> (nat \<times> json) prog" where
  "QueuesStatus q m =
     (let kb = request_keys m q in
      Call (RLLen (SubmissionQueue kb)) (\<lambda>n1.
      Call (RLLen (FinalizationQueue kb)) (\<lambda>n2.
      bindp (getStreamLag (AggregationStream kb) ''aggregator-group'') (\<lambda>lag.
      bindp (case lag of
          None \<Rightarrow> Call (RLLen (AggregationQueue kb)) (\<lambda>n3. Ret (int_of n3))
        | Some n \<Rightarrow> Ret n) (\<lambda>n3.
      Ret (200, JArr [queue_status ''submission_queue'' (int_of n1), queue_status ''finalization_queue'' (int_of n2),
        queue_status ''aggregation_queue'' n3]))))))"

definition Health :: "golib \<Rightarrow> monitorApi \<Rightarrow> (nat \<times> json) prog" where
  "Health L m =
     Call RPing (\<lambda>r.
       if r = ErrR then Ret (503, JObj [(''status'', JStr ''unhealthy''), (''error'', JStr [])])
       else Call (RGet (ns (apiKeys m) ''dashboard:summary'')) (\<lambda>r.
         Call NowNano (\<lambda>t.
         Ret (200, JObj [(''status'', JStr ''healthy''), (''redis'', JStr ''connected''),
           (''data_fresh'', JBool (got r \<noteq> Txt [])), (''timestamp'', JStr (TimeText L (int_of t)))]))))"

section \<open>Finalized batches\<close>

record finalBatch =
  mbEpochID :: string
  mbLevel :: int
  mbValidatorID :: string
  mbValidatorIDs :: "string list"
  mbProjectCount :: int
  mbIPFSCid :: string
  mbMerkleRoot :: string
  mbTimestamp :: int
  mbType :: string

definition enc_final :: "finalBatch \<Rightarrow> json" where
  "enc_final b =
     JObj ([(''epoch_id'', JStr (mbEpochID b)), (''level'', JNum (mbLevel b))] @
       omit (mbValidatorID b = []) ''validator_id'' (JStr (mbValidatorID b)) @
       omit (mbValidatorIDs b = []) ''validator_ids'' (JArr (map JStr (mbValidatorIDs b))) @
       omit (mbValidatorIDs b = []) ''validator_count'' (JNum (int (length (mbValidatorIDs b)))) @
       [(''project_count'', JNum (mbProjectCount b))] @
       omit (mbIPFSCid b = []) ''ipfs_cid'' (JStr (mbIPFSCid b)) @
       omit (mbMerkleRoot b = []) ''merkle_root'' (JStr (mbMerkleRoot b)) @
       [(''timestamp'', JNum (mbTimestamp b)), (''type'', JStr (mbType b))])"

text \<open>A slice that was never appended to is nil, \<open>null\<close> in JSON.\<close>

definition list_response :: "json list \<Rightarrow> nat \<times> json" where
  "list_response js = (200, if js = [] then JNull else JArr js)"

definition text_at :: "string \<Rightarrow> (string, json) gomap \<Rightarrow> string" where
  "text_at k m = (case get_str k m of None \<Rightarrow> [] | Some s \<Rightarrow> s)"

text \<open>The counts of a stored batch are asserted to be numbers, and what is not panics.\<close>

definition with_counts ::
  "golib \<Rightarrow> (string, json) gomap \<Rightarrow> (int \<Rightarrow> int \<Rightarrow> 'a prog) \<Rightarrow> 'a prog" where
  "with_counts L m f =
     or_panic (get_num ''project_count'' m) (\<lambda>p. or_panic (get_num ''timestamp'' m) (\<lambda>t.
       f (int_of_float L p) (int_of_float L t)))"

definition map_or_nil :: "(string, json) gomap option \<Rightarrow> (string, json) gomap" where
  "map_or_nil x = (case x of None \<Rightarrow> [] | Some kvs \<Rightarrow> kvs)"

definition read_level1 :: "golib \<Rightarrow> keyBuilder \<Rightarrow> string \<Rightarrow> finalBatch list prog" where
  "read_level1 L kb e =
     Call (RGet (MetricsBatchLocal kb e)) (\<lambda>r. case r of
       BlobR b \<Rightarrow> (case unmarshal_map b of
           None \<Rightarrow> Ret []
         | Some x \<Rightarrow> (let m = map_or_nil x in with_counts L m (\<lambda>p t.
             Ret [\<lparr>mbEpochID = e, mbLevel = 1, mbValidatorID = text_at ''validator_id'' m, mbValidatorIDs = [],
               mbProjectCount = p, mbIPFSCid = text_at ''ipfs_cid'' m, mbMerkleRoot = [], mbTimestamp = t,
               mbType = ''local''\<rparr>])))
     | _ \<Rightarrow> Ret [])"

text \<open>Decoding a list of names keeps an empty one where the type is wrong.\<close>

definition load_names :: "blob \<Rightarrow> string list" where
  "load_names b = (case unmarshal b of None \<Rightarrow> [] | Some j \<Rightarrow> fst (dec_list [] dec_str [] j))"

definition read_level2 :: "golib \<Rightarrow> keyBuilder \<Rightarrow> string \<Rightarrow> finalBatch list prog" where
  "read_level2 L kb e =
     Call (RGet (MetricsBatchAggregated kb e)) (\<lambda>r. case r of
       BlobR b \<Rightarrow> (case unmarshal_map b of
           None \<Rightarrow> Ret []
         | Some x \<Rightarrow> Call (RGet (MetricsBatchValidators kb e)) (\<lambda>r2.
             let m = map_or_nil x in with_counts L m (\<lambda>p t.
             Ret [\<lparr>mbEpochID = e, mbLevel = 2, mbValidatorID = [], mbValidatorIDs = load_names (got r2),
               mbProjectCount = p, mbIPFSCid = text_at ''ipfs_cid'' m, mbMerkleRoot = text_at ''merkle_root'' m,
               mbTimestamp = t, mbType = ''aggregated''\<rparr>])))
     | _ \<Rightarrow> Ret [])"

definition timeline_batch :: "golib \<Rightarrow> keyBuilder \<Rightarrow> int \<Rightarrow> string \<Rightarrow> finalBatch list \<Rightarrow> finalBatch list prog" where
  "timeline_batch L kb level entry batches =
     (let parts = split_on CHR '':'' entry in
      if length parts < 2 then Ret batches
      else if parts ! 0 = ''local'' \<and> (level = 1 \<or> level = 0)
        then bindp (read_level1 L kb (parts ! 1)) (\<lambda>bs. Ret (batches @ bs))
      else if parts ! 0 = ''aggregated'' \<and> (level = 2 \<or> level = 0)
        then bindp (read_level2 L kb (parts ! 1)) (\<lambda>bs. Ret (batches @ bs))
      else Ret batches)"

definition epoch_batches_of :: "golib \<Rightarrow> keyBuilder \<Rightarrow> int \<Rightarrow> string \<Rightarrow> finalBatch list prog" where
  "epoch_batches_of L kb level epochID =
     bindp (if level = 1 \<or> level = 0 then read_level1 L kb epochID else Ret []) (\<lambda>b1.
     bindp (if level = 2 \<or> level = 0 then read_level2 L kb epochID else Ret []) (\<lambda>b2.
     Ret (b1 @ b2)))"

definition FinalizedBatches :: "golib \<Rightarrow> query \<Rightarrow> monitorApi \<Rightarrow> (nat \<times> json) prog" where
  "FinalizedBatches L q m =
     (let kb = request_keys m q; level = atoi (mget ''0'' q ''level''); epochID = mget [] q ''epoch_id'';
          limit = query_number q ''limit'' 100 50 in
      bindp (if epochID \<noteq> [] then epoch_batches_of L kb level epochID
          else Call Now (\<lambda>t.
            Call (RZRevBy (MetricsBatchesTimeline kb) (int_of t - 3600) (nat limit)) (\<lambda>r.
            for_each (timeline_batch L kb level) (case r of StrsR es \<Rightarrow> es | _ \<Rightarrow> []) []))) (\<lambda>batches.
      Ret (list_response (map enc_final batches))))"

text \<open>A batch under the formatted epoch or else under the epoch as it stands in the timeline.\<close>

definition aggregation_result :: "golib \<Rightarrow> keyBuilder \<Rightarrow> string \<Rightarrow> finalBatch list prog" where
  "aggregation_result L kb entry =
     (let original = trim_prefix ''aggregated:'' entry; epochID = FormatEpochID (JStr original) in
      if \<not> has_prefix ''aggregated:'' entry then Ret []
      else Call (RGet (MetricsBatchAggregated kb epochID)) (\<lambda>r1.
        bindp (case r1 of BlobR b \<Rightarrow> Ret r1 | _ \<Rightarrow> Call (RGet (MetricsBatchAggregated kb original)) Ret) (\<lambda>r.
        case r of
          BlobR b \<Rightarrow> (case unmarshal_map b of
              None \<Rightarrow> Ret []
            | Some x \<Rightarrow>
                Call (RGet (MetricsBatchValidators kb epochID)) (\<lambda>v1.
                bindp (if got v1 = Txt [] then Call (RGet (MetricsBatchValidators kb original)) (\<lambda>v2. Ret (got v2)) else Ret (got v1)) (\<lambda>v.
                with_counts L (map_or_nil x) (\<lambda>p t.
                Ret [\<lparr>mbEpochID = epochID, mbLevel = 2, mbValidatorID = [], mbValidatorIDs = load_names v,
                  mbProjectCount = p, mbIPFSCid = [], mbMerkleRoot = [], mbTimestamp = t, mbType = ''aggregated''\<rparr>]))))
        | _ \<Rightarrow> Ret [])))"

fun aggregation_results ::
  "golib \<Rightarrow> keyBuilder \<Rightarrow> nat \<Rightarrow> string list \<Rightarrow> finalBatch list \<Rightarrow> finalBatch list prog" where
  "aggregation_results L kb limit [] batches = Ret batches"
| "aggregation_results L kb limit (e # es) batches =
     bindp (aggregation_result L kb e) (\<lambda>bs.
       if bs \<noteq> [] \<and> limit \<le> length (batches @ bs) then Ret (batches @ bs)
       else aggregation_results L kb limit es (batches @ bs))"

definition AggregationResults :: "golib \<Rightarrow> query \<Rightarrow> monitorApi \<Rightarrow> (nat \<times> json) prog" where
  "AggregationResults L q m =
     (let kb = request_keys m q; limit = query_number q ''limit'' 100 20 in
      Call Now (\<lambda>t.
      Call (RZRevBy (MetricsBatchesTimeline kb) (int_of t - 86400) (nat (limit * 2))) (\<lambda>r.
      bindp (aggregation_results L kb (nat limit) (case r of StrsR es \<Rightarrow> es | _ \<Rightarrow> []) []) (\<lambda>batches.
      Ret (list_response (map enc_final batches))))))"

section \<open>Epochs\<close>

record epochInfo =
  eiEpochID :: string
  eiStatus :: string
  eiPhase :: string
  eiStartTime :: int
  eiDuration :: int
  eiDataMarket :: string
  eiLevel1 :: bool
  eiLevel2 :: bool

definition enc_epoch :: "epochInfo \<Rightarrow> json" where
  "enc_epoch e =
     JObj ([(''epoch_id'', JStr (eiEpochID e)), (''status'', JStr (eiStatus e)), (''phase'', JStr (eiPhase e)),
        (''start_time'', JNum (eiStartTime e)), (''duration'', JNum (eiDuration e))] @
       omit (eiDataMarket e = []) ''data_market'' (JStr (eiDataMarket e)) @
       [(''level1_batch_exists'', JBool (eiLevel1 e)), (''level2_batch_exists'', JBool (eiLevel2 e))])"

definition epoch_order :: "string list \<Rightarrow> string list" where
  "epoch_order entries =
     fold (\<lambda>entry order. let parts = split_on CHR '':'' entry in
         if length parts < 2 \<or> parts ! 1 \<in> set order then order else order @ [parts ! 1]) entries []"

definition hash_text :: "(string, blob) gomap \<Rightarrow> string \<Rightarrow> string option" where
  "hash_text h f = map_option (\<lambda>b. field_text (Some b)) (map_of h f)"

definition hash_number :: "(string, blob) gomap \<Rightarrow> string \<Rightarrow> int" where
  "hash_number h f = (case Option.bind (hash_text h f) parse_int of None \<Rightarrow> 0 | Some n \<Rightarrow> n)"

definition phase_of :: "string \<Rightarrow> bool \<Rightarrow> bool \<Rightarrow> string" where
  "phase_of status level1 level2 =
     (if status = ''open'' then ''submission'' else if level2 then ''complete''
      else if level1 then ''aggregation'' else ''finalization'')"

definition read_epoch :: "keyBuilder \<Rightarrow> string \<Rightarrow> epochInfo list \<Rightarrow> epochInfo list prog" where
  "read_epoch kb epochID epochs =
     Call (RHGetAll (MetricsEpochInfo kb epochID)) (\<lambda>r.
     let info = (case r of HashR h \<Rightarrow> h | _ \<Rightarrow> []);
         status = (case hash_text info ''status'' of None \<Rightarrow> [] | Some s \<Rightarrow> s) in
     Call (RExists (MetricsBatchLocal kb epochID)) (\<lambda>r1.
     Call (RExists (MetricsBatchAggregated kb epochID)) (\<lambda>r2.
     Ret (epochs @ [\<lparr>eiEpochID = epochID, eiStatus = status, eiPhase = phase_of status (0 < int_of r1) (0 < int_of r2),
       eiStartTime = hash_number info ''start'', eiDuration = hash_number info ''duration'',
       eiDataMarket = (case hash_text info ''data_market'' of None \<Rightarrow> [] | Some s \<Rightarrow> s),
       eiLevel1 = 0 < int_of r1, eiLevel2 = 0 < int_of r2\<rparr>]))))"

definition EpochsTimeline :: "query \<Rightarrow> monitorApi \<Rightarrow> (nat \<times> json) prog" where
  "EpochsTimeline q m =
     (let kb = request_keys m q; limit = nat (query_number q ''limit'' 200 50) in
      Call (RZRevRange (MetricsEpochsTimeline kb) (limit * 2 + 1)) (\<lambda>r.
      bindp (for_each (read_epoch kb) (take limit (epoch_order (case r of ScoredR xs \<Rightarrow> map fst xs | _ \<Rightarrow> []))) []) (\<lambda>epochs.
      Ret (list_response (map enc_epoch epochs)))))"

section \<open>Events\<close>

record eventMetadata =
  tmEpochID :: string
  tmSlotID :: string
  tmProjectID :: string
  tmPeerID :: string
  tmValidatorID :: string
  tmDataMarket :: string
  tmSubmissionType :: string
  tmEventType :: string
  tmIsEnhanced :: bool

definition no_metadata :: eventMetadata where
  "no_metadata = \<lparr>tmEpochID = [], tmSlotID = [], tmProjectID = [], tmPeerID = [], tmValidatorID = [], tmDataMarket = [],
     tmSubmissionType = [], tmEventType = [], tmIsEnhanced = False\<rparr>"

definition enc_event_metadata :: "eventMetadata \<Rightarrow> json" where
  "enc_event_metadata t =
     JObj (omit (tmEpochID t = []) ''epoch_id'' (JStr (tmEpochID t)) @ omit (tmSlotID t = []) ''slot_id'' (JStr (tmSlotID t)) @
       omit (tmProjectID t = []) ''project_id'' (JStr (tmProjectID t)) @ omit (tmPeerID t = []) ''peer_id'' (JStr (tmPeerID t)) @
       omit (tmValidatorID t = []) ''validator_id'' (JStr (tmValidatorID t)) @
       omit (tmDataMarket t = []) ''data_market'' (JStr (tmDataMarket t)) @
       omit (tmSubmissionType t = []) ''submission_type'' (JStr (tmSubmissionType t)) @
       omit (tmEventType t = []) ''event_type'' (JStr (tmEventType t)) @ [(''is_enhanced'', JBool (tmIsEnhanced t))])"

text \<open>
  The patterns: runs of decimal digits, hexadecimal digits, and letters and digits, between colons. A
  \<open>.+\<close> matches anything but the empty text and a line feed.
\<close>

definition is_digits :: "string \<Rightarrow> bool" where
  "is_digits s \<longleftrightarrow> s \<noteq> [] \<and> list_all (\<lambda>c. digit_val c \<noteq> None) s"

definition is_hex :: "string \<Rightarrow> bool" where
  "is_hex s \<longleftrightarrow> s \<noteq> [] \<and> list_all (\<lambda>c. c \<in> set ''0123456789abcdefABCDEF'') s"

definition is_alnum :: "string \<Rightarrow> bool" where
  "is_alnum s \<longleftrightarrow> s \<noteq> [] \<and>
     list_all (\<lambda>c. let n = of_char c :: nat in 48 \<le> n \<and> n \<le> 57 \<or> 65 \<le> n \<and> n \<le> 90 \<or> 97 \<le> n \<and> n \<le> 122) s"

definition is_line :: "string \<Rightarrow> bool" where
  "is_line s \<longleftrightarrow> s \<noteq> [] \<and> CHR 0x0A \<notin> set s"

definition tagged_epoch :: "string \<Rightarrow> string \<Rightarrow> string \<Rightarrow> string" where
  "tagged_epoch tag1 tag2 entityID =
     (let a = trim_prefix (tag1 @ '':'') entityID; b = trim_prefix (tag2 @ '':'') entityID in
      if has_prefix (tag1 @ '':'') entityID \<and> is_line a then a
      else if has_prefix (tag2 @ '':'') entityID \<and> is_line b then b else [])"

definition parse_legacy :: "string \<Rightarrow> string \<Rightarrow> eventMetadata \<Rightarrow> eventMetadata" where
  "parse_legacy entityID eventType metadata =
     (if eventType = ''submission'' then
        (case split_on CHR '':'' entityID of
           [e, p] \<Rightarrow> if is_digits e \<and> is_hex p
             then metadata\<lparr>tmEpochID := e, tmProjectID := p, tmSubmissionType := ''snapshot''\<rparr> else metadata
         | _ \<Rightarrow> metadata)
      else if eventType = ''validation'' then
        (case split_on CHR '':'' entityID of
           [e, p, v] \<Rightarrow> if is_digits e \<and> is_hex p \<and> is_alnum v
             then metadata\<lparr>tmEpochID := e, tmProjectID := p, tmValidatorID := v, tmSubmissionType := ''validation''\<rparr>
             else metadata
         | _ \<Rightarrow> metadata)
      else if eventType = ''batch'' then metadata\<lparr>tmEpochID := tagged_epoch ''local'' ''aggregated'' entityID\<rparr>
      else if eventType = ''epoch'' then metadata\<lparr>tmEpochID := tagged_epoch ''open'' ''close'' entityID\<rparr>
      else metadata)"

definition parseEntityID :: "string \<Rightarrow> string \<Rightarrow> eventMetadata" where
  "parseEntityID entityID eventType =
     (let metadata = no_metadata\<lparr>tmEventType := eventType\<rparr> in
      case split_on CHR '':'' entityID of
        [e, s, p, d] \<Rightarrow>
          if is_digits e \<and> is_digits s \<and> is_hex p \<and> is_hex d
          then metadata\<lparr>tmIsEnhanced := True, tmEpochID := e, tmSlotID := s, tmProjectID := p, tmPeerID := d,
            tmSubmissionType := ''snapshot''\<rparr>
          else parse_legacy entityID eventType metadata
      | _ \<Rightarrow> parse_legacy entityID eventType metadata)"

text \<open>Nothing where there is no metadata or it cannot be read or parsed.\<close>

definition fetchSubmissionMetadata :: "keyBuilder \<Rightarrow> string \<Rightarrow> eventMetadata option prog" where
  "fetchSubmissionMetadata kb entityID =
     Call (RGet (MetricsSubmissionsMetadata kb entityID)) (\<lambda>r.
     Ret (case r of
         BlobR b \<Rightarrow> map_option (\<lambda>x. let m = map_or_nil x in
           \<lparr>tmEpochID = text_at ''epoch_id'' m, tmSlotID = text_at ''slot_id'' m, tmProjectID = text_at ''project_id'' m,
            tmPeerID = text_at ''peer_id'' m, tmValidatorID = text_at ''validator_id'' m,
            tmDataMarket = text_at ''data_market'' m, tmSubmissionType = text_at ''submission_type'' m,
            tmEventType = text_at ''event_type'' m, tmIsEnhanced = True\<rparr>) (unmarshal_map b)
       | _ \<Rightarrow> None))"

definition preferred :: "string \<Rightarrow> string \<Rightarrow> string" where
  "preferred detailed parsed = (if detailed = [] then parsed else detailed)"

definition merge_metadata :: "eventMetadata \<Rightarrow> eventMetadata option \<Rightarrow> eventMetadata" where
  "merge_metadata parsed detailed =
     (case detailed of
        None \<Rightarrow> parsed
      | Some t \<Rightarrow> parsed\<lparr>tmEpochID := preferred (tmEpochID t) (tmEpochID parsed), tmSlotID := preferred (tmSlotID t) (tmSlotID parsed),
          tmProjectID := preferred (tmProjectID t) (tmProjectID parsed), tmPeerID := preferred (tmPeerID t) (tmPeerID parsed),
          tmValidatorID := preferred (tmValidatorID t) (tmValidatorID parsed),
          tmDataMarket := preferred (tmDataMarket t) (tmDataMarket parsed),
          tmSubmissionType := preferred (tmSubmissionType t) (tmSubmissionType parsed), tmIsEnhanced := tmIsEnhanced t\<rparr>)"

definition timeline_event ::
  "golib \<Rightarrow> keyBuilder \<Rightarrow> string \<Rightarrow> bool \<Rightarrow> string \<times> int \<Rightarrow> json list \<Rightarrow> json list prog" where
  "timeline_event L kb eventType includeMetadata x events =
     (let (entityID, timestamp) = x; parsed = parseEntityID entityID eventType in
      bindp (if includeMetadata \<and> eventType = ''submission'' then fetchSubmissionMetadata kb entityID else Ret None) (\<lambda>detailed.
      Ret (events @ [JObj [(''entity_id'', JStr entityID), (''timestamp'', JNum timestamp),
        (''time'', JStr (TimeText L (timestamp * 1000000000))), (''metadata'', enc_event_metadata (merge_metadata parsed detailed))]])))"

definition parse_bool :: "string \<Rightarrow> bool" where
  "parse_bool s \<longleftrightarrow> s \<in> {''1'', ''t'', ''T'', ''TRUE'', ''true'', ''True''}"

definition timeline_names :: "(string \<times> string) list" where
  "timeline_names = [(''submission'', ''submissions''), (''validation'', ''validations''), (''epoch'', ''epochs''), (''batch'', ''batches'')]"

definition RecentTimeline :: "golib \<Rightarrow> query \<Rightarrow> monitorApi \<Rightarrow> (nat \<times> json) prog" where
  "RecentTimeline L q m =
     (let kb = request_keys m q; includeMetadata = parse_bool (mget ''true'' q ''include_metadata'');
          asked = mget ''submission'' q ''type''; minutes = query_number q ''minutes'' 60 5;
          eventType = (if map_of timeline_names asked = None then ''submission'' else asked) in
      Call Now (\<lambda>t.
      Call (RZRangeW (ns kb (''metrics:'' @ mget [] timeline_names eventType @ '':timeline''))
          (int_of t - minutes * 60) (Some (int_of t))) (\<lambda>r. case r of
        ScoredR xs \<Rightarrow>
          bindp (for_each (timeline_event L kb eventType includeMetadata) xs []) (\<lambda>events.
          Call NowNano (\<lambda>t2.
          Ret (200, JObj [(''type'', JStr eventType), (''minutes'', JNum minutes), (''count'', JNum (int (length events))),
            (''events'', JArr events), (''timestamp'', JStr (TimeText L (int_of t2)))])))
      | _ \<Rightarrow> Ret (500, error_response []))))"

section \<open>Start-up\<close>

text \<open>The market that each process takes from \<open>DATA_MARKET_ADDRESSES\<close>.\<close>

definition trim_brackets :: "string \<Rightarrow> string" where
  "trim_brackets = trim_chars (\<lambda>c. c = CHR ''['' \<or> c = CHR '']'')"

definition api_market :: "string \<Rightarrow> string" where
  "api_market marketsEnv =
     trim_space (if CHR '','' \<in> set marketsEnv then hd (split_on CHR '','' marketsEnv)
       else if has_prefix ''['' marketsEnv then
         (let bare = filter (\<lambda>c. c \<noteq> CHR 0x22) (trim_brackets marketsEnv) in
          if CHR '','' \<in> set bare then hd (split_on CHR '','' bare) else marketsEnv)
       else marketsEnv)"

definition tracker_market :: "string \<Rightarrow> string" where
  "tracker_market marketsEnv =
     (if has_prefix ''['' marketsEnv
      then (case Option.bind (parse_json marketsEnv) (\<lambda>j. let (ms, fits) = dec_list [] dec_str [] j in if fits then Some ms else None) of
          Some (market # _) \<Rightarrow> market
        | _ \<Rightarrow> [])
      else trim_space (hd (split_on CHR '','' marketsEnv)))"

end
