(* ===== verification/Monitoring.thy ===== *)
theory Monitoring
  imports MonitorApi Tracking Dequeuer Aggregator
begin

text \<open>
  The monitoring API on what the other processes store: it only reads, it shows the tracker's numbers and the
  aggregator's batches, and where it shows something else.
\<close>

section \<open>Only reads\<close>

definition reads :: "'a prog \<Rightarrow> bool" where
  "reads p \<longleftrightarrow> calls_sat (\<lambda>c. \<not> is_write c) p"

lemma reads_simps [simp]:
  "reads (Ret a)" "reads Panic" "reads (Call c k) \<longleftrightarrow> \<not> is_write c \<and> (\<forall>r. reads (k r))"
  by (simp_all add: reads_def)

lemma reads_bindp: "reads p \<Longrightarrow> (\<And>a. reads (f a)) \<Longrightarrow> reads (bindp p f)"
  unfolding reads_def by blast

lemma reads_for_each: "(\<And>x a. reads (body x a)) \<Longrightarrow> reads (for_each body xs a)"
  unfolding reads_def by blast

lemma reads_or_panic: "(\<And>a. reads (f a)) \<Longrightarrow> reads (or_panic x f)"
  by (cases x) simp_all

lemma reads_same: "reads p \<Longrightarrow> same_but {} d (final store_step p d)"
  unfolding reads_def
proof (rule stores_at_run)
  show "calls_sat (\<lambda>c. \<not> is_write c) p \<Longrightarrow> calls_sat (stores_at {}) p"
    by (induction p) (auto simp: stores_at_read)
qed

lemma reads_with_counts: "(\<And>p t. reads (f p t)) \<Longrightarrow> reads (with_counts L m f)"
  unfolding with_counts_def by (intro reads_or_panic)

lemma level_reads: "reads (read_level1 L kb e)" "reads (read_level2 L kb e)"
  by (auto simp: read_level1_def read_level2_def Let_def intro!: reads_with_counts split: reply.split option.split)

lemma result_reads: "reads (aggregation_result L kb entry)"
proof -
  have a: "reads (case r of BlobR b \<Rightarrow> Ret r | _ \<Rightarrow> Call (RGet k) Ret)" for r k by (cases r) simp_all
  have b: "reads (case r of BlobR b \<Rightarrow> (case unmarshal_map b of None \<Rightarrow> Ret [] | Some x \<Rightarrow> Call (RGet k) (f x)) | _ \<Rightarrow> Ret [])"
    if "\<And>x v. reads (f x v)" for r k and f :: "(string, json) gomap option \<Rightarrow> reply \<Rightarrow> finalBatch list prog"
    using that by (cases r) (auto split: option.split)
  show ?thesis
    unfolding aggregation_result_def Let_def by (auto intro!: reads_bindp a b reads_with_counts)
qed

lemmas batch_reads = level_reads result_reads

lemma results_read: "reads (aggregation_results L kb n es bs)"
  by (induction es arbitrary: bs) (auto intro!: reads_bindp simp: batch_reads)

text \<open>The answers to one query.\<close>

definition handlers :: "golib \<Rightarrow> (string \<Rightarrow> string) \<Rightarrow> query \<Rightarrow> monitorApi \<Rightarrow> (nat \<times> json) prog list" where
  "handlers L env q m = [Health L m, DashboardSummaryHandler L env q m, HourlyStats L q m, DailyStats L q m,
     FinalizedBatches L q m, AggregationResults L q m, EpochsTimeline q m, QueuesStatus q m, RecentTimeline L q m,
     PipelineOverview L q m]"

lemma dashboard_reads: "reads (DashboardSummaryHandler L env q m)" "reads (Health L m)" "reads (PipelineOverview L q m)"
  by (simp_all add: DashboardSummaryHandler_def Health_def PipelineOverview_def Let_def)

lemma stats_read: "reads (HourlyStats L q m)" "reads (DailyStats L q m)"
  by (auto simp: HourlyStats_def DailyStats_def add_hour_def Let_def case_prod_unfold intro!: reads_bindp reads_for_each
      split: reply.split option.split)

lemma lists_read: "reads (FinalizedBatches L q m)" "reads (AggregationResults L q m)" "reads (EpochsTimeline q m)"
  by (auto simp: FinalizedBatches_def AggregationResults_def EpochsTimeline_def epoch_batches_of_def timeline_batch_def
      read_epoch_def Let_def batch_reads results_read intro!: reads_bindp reads_for_each)

lemma queues_read: "reads (QueuesStatus q m)"
  by (auto simp: QueuesStatus_def getStreamLag_def Let_def intro!: reads_bindp split: reply.split option.split)

lemma timeline_reads: "reads (RecentTimeline L q m)"
  by (auto simp: RecentTimeline_def timeline_event_def fetchSubmissionMetadata_def Let_def intro!: reads_bindp reads_for_each
      split: reply.split prod.split)

text \<open>The API only reads: whatever is asked, no answer changes any key of Redis, its publications or the streams.\<close>

theorem api_only_reads: "list_all (\<lambda>p. same_but {} d (final store_step p d)) (handlers L env q m)"
  unfolding handlers_def list.pred_inject(2)
  by (intro conjI reads_same dashboard_reads stats_read lists_read queues_read timeline_reads) simp

section \<open>Phases\<close>

lemma run_read_epoch:
  "\<exists>x. run store_step (read_epoch kb e []) d = (Some [x], d) \<and> eiEpochID x = e \<and>
     eiPhase x = phase_of (case hash_text (hashes d (MetricsEpochInfo kb e)) ''status'' of None \<Rightarrow> [] | Some s \<Rightarrow> s)
       (key_exists d (MetricsBatchLocal kb e)) (key_exists d (MetricsBatchAggregated kb e))"
  by (simp add: read_epoch_def run_Call Let_def)

lemma run_epoch_phase:
  "outcome store_step (epoch_phase kb e ts now (Some info)) d = Some (
     if info_field info ''status'' = Some ''open'' then
       (''submission'', max 0 (ts + f_to_int (case window_duration info of None \<Rightarrow> Fin 20 | Some d \<Rightarrow> d) - now))
     else (if \<not> key_exists d (MetricsBatchLocal kb e) then ''finalization''
       else if key_exists d (MetricsBatchAggregated kb e) then ''complete'' else ''aggregation'', 0))"
  by (simp add: epoch_phase_def run_Call)

text \<open>C33. Two phases for one epoch: from the same records the tracker and the API report different phases exactly for an
  epoch that is not open and was aggregated without a local batch, as on a validator that only received the batches of
  others: the tracker says finalization and the API complete.\<close>

theorem phases_disagree_iff:
  fixes d kb e
  defines "info \<equiv> hashes d (MetricsEpochInfo kb e)"
  shows "\<exists>x ph t. run store_step (read_epoch kb e []) d = (Some [x], d) \<and> eiEpochID x = e \<and>
    outcome store_step (epoch_phase kb e ts now (Some info)) d = Some (ph, t) \<and>
    (ph \<noteq> eiPhase x \<longleftrightarrow> hash_text info ''status'' \<noteq> Some ''open'' \<and>
      key_exists d (MetricsBatchAggregated kb e) \<and> \<not> key_exists d (MetricsBatchLocal kb e)) \<and>
    (ph \<noteq> eiPhase x \<longrightarrow> ph = ''finalization'' \<and> eiPhase x = ''complete'')"
proof -
  have "hash_text info ''status'' = info_field info ''status''"
    by (simp add: hash_text_def info_field_def split: option.split)
  then show ?thesis
    using run_read_epoch [of kb e d] run_epoch_phase [of kb e ts now info d] unfolding info_def
    by (auto simp: phase_of_def split: option.splits)
qed

section \<open>Listed epochs\<close>

lemma epoch_order_distinct: "distinct (epoch_order entries)"
proof -
  have "distinct acc \<Longrightarrow> distinct (fold (\<lambda>entry order. let parts = split_on CHR '':'' entry in
      if length parts < 2 \<or> parts ! 1 \<in> set order then order else order @ [parts ! 1]) entries acc)" for acc
    by (induction entries arbitrary: acc) (auto simp: Let_def)
  then show ?thesis by (simp add: epoch_order_def)
qed

lemma read_epochs:
  "\<exists>xs s'. run R (for_each (read_epoch kb) es acc) s = (Some (acc @ xs), s') \<and> map eiEpochID xs = es"
proof (induction es arbitrary: acc s)
  case (Cons e es)
  obtain x s1 where "run R (read_epoch kb e acc) s = (Some (acc @ [x]), s1)" "eiEpochID x = e"
    by (simp add: read_epoch_def run_Call Let_def)
  then show ?case using Cons.IH [of "acc @ [x]" s1] by (auto simp: run_bindp)
qed simp

lemma query_number_bounds:
  assumes "0 < dflt" and "dflt \<le> bound"
  shows "0 < query_number q name bound dflt" "query_number q name bound dflt \<le> bound"
  using assms by (simp_all add: query_number_def Let_def)

text \<open>A page of epochs: whatever Redis answers, the list of epochs is given with status 200, names no epoch twice, and
  has at most 200 entries however many are asked for.\<close>

theorem epochs_listed_once:
  "\<exists>es. outcome R (EpochsTimeline q m) s = Some (list_response (map enc_epoch es)) \<and>
     distinct (map eiEpochID es) \<and> length es \<le> 200"
proof -
  let ?n = "nat (query_number q ''limit'' 200 50)" and ?kb = "request_keys m q"
  let ?r = "R s (RZRevRange (MetricsEpochsTimeline ?kb) (?n * 2 + 1))"
  let ?ids = "take ?n (epoch_order (case fst ?r of ScoredR xs \<Rightarrow> map fst xs | _ \<Rightarrow> []))"
  obtain xs s' where xs: "run R (for_each (read_epoch ?kb) ?ids []) (snd ?r) = (Some xs, s')" "map eiEpochID xs = ?ids"
    using read_epochs [of R ?kb ?ids "[]" "snd ?r"] by auto
  then have "outcome R (EpochsTimeline q m) s = Some (list_response (map enc_epoch xs))"
    by (simp add: EpochsTimeline_def Let_def run_Call run_bindp)
  moreover have "length xs = length ?ids" using xs(2) by (metis length_map)
  moreover have "?n \<le> 200" using query_number_bounds(2) [of 50 200 q "''limit''"] by simp
  moreover have "distinct ?ids" by (rule distinct_take [OF epoch_order_distinct])
  ultimately show ?thesis using xs(2) by (intro exI [of _ xs]) auto
qed

section \<open>The dashboard\<close>

definition field_in :: "string \<Rightarrow> string \<Rightarrow> json \<Rightarrow> json option" where
  "field_in part f j = Option.bind (as_obj j) (\<lambda>m. Option.bind (get_obj part m) (\<lambda>n. map_of n f))"

lemma copied_same: "f \<in> set fs \<Longrightarrow> map_of (copied m (same_names fs)) f = Some (case map_of m f of None \<Rightarrow> JNull | Some j \<Rightarrow> refloat j)"
  by (induction fs) (auto simp: copied_def same_names_def)

lemma dashboard_parts:
  "f \<in> set system_names \<Longrightarrow> map_of fs f = Some j \<Longrightarrow>
     field_in ''system_metrics'' f (dashboard_response v (Some fs) p e n1 n2 n3 t) = Some (refloat j)"
  "f \<in> set activity_names \<Longrightarrow> map_of fs f = Some j \<Longrightarrow>
     field_in ''recent_activity'' f (dashboard_response v (Some fs) p e n1 n2 n3 t) = Some (refloat j)"
  by (simp_all add: field_in_def dashboard_response_def get_obj_def copied_same)

lemma handler_response:
  assumes "map_of (strs d) (DashboardSummary (apiKeys m)) = Some (Js (JObj fs))"
  shows "\<exists>v p e n1 n2 n3 t d'. run store_step (DashboardSummaryHandler L env [] m) d =
    (Some (200, dashboard_response v (Some fs) p e n1 n2 n3 t), d')"
  using assms
  by (simp add: DashboardSummaryHandler_def request_keys_def mget_def Let_def run_Call DashboardSummary_def got_def
      load_summary_def load_map_def) blast

text \<open>C13. The tracker's numbers reach the dashboard: after a round of the tracker whose summary could be marshalled, the
  API of the same market answers with the tracker's counts, rounded to float64: all submissions, the queue's length, the
  number of distinct validators of the active epochs and the recent entries of the timelines.\<close>

theorem tracker_reaches_dashboard:
  fixes d sw
  defines "kb \<equiv> swKeys sw" and "now \<equiv> clock d (readings d + 3) div nanos"
  assumes "run store_step (aggregateCurrentMetrics ro sequencerID sw) d = (Some (), d1)"
    and "map_of (strs d1) (DashboardSummary kb) \<noteq> Some (Txt [])" and "apiKeys m = kb" and "known_validators kb d \<noteq> {}"
  shows "\<exists>j d2. run store_step (DashboardSummaryHandler L env [] m) d1 = (Some (200, j), d2) \<and>
    field_in ''system_metrics'' ''submissions_total'' j = Some (JNum (f64 (swSubmissions sw + stored_submissions kb d))) \<and>
    field_in ''system_metrics'' ''submissions_queue'' j = Some (JNum (f64 (int (length (lists d (SubmissionQueue kb)))))) \<and>
    field_in ''system_metrics'' ''active_validators'' j = Some (JNum (f64 (int (card (known_validators kb d))))) \<and>
    field_in ''recent_activity'' ''epochs_5m'' j = Some (JNum (f64 (window_count (now - 300) now (MetricsEpochsTimeline kb) d))) \<and>
    field_in ''recent_activity'' ''batches_5m'' j = Some (JNum (f64 (window_count (now - 300) now (MetricsBatchesTimeline kb) d)))"
proof -
  obtain fs n where fs: "map_of (strs d1) (DashboardSummary kb) = Some (marshal (JObj fs))"
    "fs = dashboard sw (dur_seconds (clock d (readings d) - swLastReset sw)) d (card (known_validators kb d)) n now"
    using aggregate_run [of ro sequencerID sw d] assms(3,6) unfolding kb_def now_def Let_def by auto
  then have "map_of (strs d1) (DashboardSummary (apiKeys m)) = Some (Js (JObj fs))"
    using assms(4,5) by (auto simp: marshal_def split: if_splits)
  from handler_response [OF this, of L env] obtain v p e n1 n2 n3 t d2 where
    r: "run store_step (DashboardSummaryHandler L env [] m) d1 = (Some (200, dashboard_response v (Some fs) p e n1 n2 n3 t), d2)"
    by blast
  have f: "map_of fs ''submissions_total'' = Some (JNum (swSubmissions sw + stored_submissions kb d))"
    "map_of fs ''submissions_queue'' = Some (JNum (int (length (lists d (SubmissionQueue kb)))))"
    "map_of fs ''active_validators'' = Some (JNum (int (card (known_validators kb d))))"
    "map_of fs ''epochs_5m'' = Some (JNum (window_count (now - 300) now (MetricsEpochsTimeline kb) d))"
    "map_of fs ''batches_5m'' = Some (JNum (window_count (now - 300) now (MetricsBatchesTimeline kb) d))"
    unfolding fs(2) by (simp_all add: dashboard_def summary_fields_def Let_def kb_def)
  have s: "''submissions_total'' \<in> set system_names" "''submissions_queue'' \<in> set system_names"
    "''active_validators'' \<in> set system_names" "''epochs_5m'' \<in> set activity_names" "''batches_5m'' \<in> set activity_names"
    by (simp_all add: system_names_def activity_names_def)
  show ?thesis
    using r dashboard_parts(1) [OF s(1) f(1)] dashboard_parts(1) [OF s(2) f(2)] dashboard_parts(1) [OF s(3) f(3)]
      dashboard_parts(2) [OF s(4) f(4)] dashboard_parts(2) [OF s(5) f(5)] by (intro exI conjI) simp_all
qed

section \<open>What the timeline hides\<close>

lemma received_id: "split_on CHR '':'' (submission_entity sub now peerID) = ''received'' # split_on CHR '':'' (drop 9 (submission_entity sub now peerID))"
  using split_on_append [of "CHR '':''" "''received''" "drop 9 (submission_entity sub now peerID)"]
  by (simp add: submission_entity_def)

lemma parse_received:
  "parseEntityID (submission_entity sub now peerID) ''submission'' = no_metadata\<lparr>tmEventType := ''submission''\<rparr>"
proof -
  have "\<not> is_digits ''received''" by (simp add: is_digits_def digit_val_def digits_def)
  then show ?thesis unfolding parseEntityID_def parse_legacy_def received_id Let_def by (simp split: list.split)
qed

text \<open>The timeline hides the epoch: for the entry of an accepted submission with the metadata that the dequeuer stores
  for it, the API knows project and peer but neither epoch nor slot: the entry's name, which starts with \<open>received\<close>,
  fits no pattern, and in the metadata epoch and slot are numbers where the API asks for texts.\<close>

theorem timeline_hides_epoch:
  fixes sub now peerID
  defines "entity \<equiv> submission_entity sub now peerID"
  assumes "monitoring_calls L q i p peerID now h now2 ! 1 = RSet k b ttl" and "sub = Submission p"
    and "map_of (strs d) k = Some b"
  shows "\<exists>t. run store_step (timeline_event L (dqKeys q) ''submission'' True (entity, now) []) d =
      (Some [JObj [(''entity_id'', JStr entity), (''timestamp'', JNum now), (''time'', JStr (TimeText L (now * 1000000000))),
        (''metadata'', enc_event_metadata t)]], d) \<and>
    tmEpochID t = [] \<and> tmSlotID t = [] \<and> tmProjectID t = ProjectId (Request sub) \<and> tmPeerID t = peerID \<and> tmIsEnhanced t"
proof -
  have k: "k = MetricsSubmissionsMetadata (dqKeys q) entity" and b: "b = Js (JObj [(''epoch_id'', JNum (uint (EpochId (Request sub)))),
      (''slot_id'', JNum (uint (SlotId (Request sub)))), (''project_id'', JStr (ProjectId (Request sub))), (''timestamp'', JNum now),
      (''cid'', JStr (SnapshotCid (Request sub))), (''peer_id'', JStr peerID), (''entity_id'', JStr entity)])"
    using assms(2,3) by (simp_all add: monitoring_calls_def Let_def entity_def)
  show ?thesis
    using assms(4) unfolding k b
    by (simp add: timeline_event_def fetchSubmissionMetadata_def run_Call run_bindp Let_def parse_received entity_def
        merge_metadata_def preferred_def no_metadata_def map_or_nil_def text_at_def get_str_def)
      (intro exI conjI, rule refl, simp_all)
qed

section \<open>Stored batches\<close>

lemma small_number: "0 \<le> n \<Longrightarrow> n \<le> 2 ^ 53 \<Longrightarrow> int_of_float L (f64 n) = n"
  by (simp add: f64_exact int_of_float_def)

lemma recorded_level1:
  assumes "local_metrics a ep parts b t ! 1 = RSet k v ttl" and "map_of (strs d) k = Some v"
    and "length (ProjectIds b) \<le> 2 ^ 53" and "0 \<le> t" and "t \<le> 2 ^ 53"
  shows "run store_step (read_level1 L (agKeys a) (show_u64 ep)) d = (Some [\<lparr>mbEpochID = show_u64 ep, mbLevel = 1,
    mbValidatorID = agSequencerID a, mbValidatorIDs = [], mbProjectCount = int (length (ProjectIds b)), mbIPFSCid = fbIPFSCID b,
    mbMerkleRoot = [], mbTimestamp = t, mbType = ''local''\<rparr>], d)"
proof -
  have n: "int_of_float L (f64 (int (length (ProjectIds b)))) = int (length (ProjectIds b))" "int_of_float L (f64 t) = t"
    using assms(3-5) by (simp_all add: small_number)
  have k: "k = MetricsBatchLocal (agKeys a) (show_u64 ep)" using assms(1) by (simp add: local_metrics_def)
  have "v = Js (JObj [(''epoch_id'', JNum (uint ep)), (''type'', JStr ''local''), (''validator_id'', JStr (agSequencerID a)),
      (''ipfs_cid'', JStr (fbIPFSCID b)), (''merkle_root'', enc_bytes (fbMerkleRoot b)),
      (''project_count'', JNum (int (length (ProjectIds b)))), (''parts_merged'', JNum parts), (''timestamp'', JNum t)])"
    using assms(1) by (simp add: local_metrics_def)
  with assms(2) n show ?thesis
    by (simp add: k read_level1_def run_Call Let_def map_or_nil_def with_counts_def get_num_def text_at_def get_str_def)
qed

lemma recorded_level2:
  assumes "aggregated_metrics L a e n ks b t ! 1 = RSet k v ttl" and "map_of (strs d) k = Some v"
    and "aggregated_metrics L a e n ks b t ! 2 = RSet k' v' ttl'" and "map_of (strs d) k' = Some v'"
    and "length (ProjectVotes b) \<le> 2 ^ 53" and "0 \<le> t" and "t \<le> 2 ^ 53"
  shows "run store_step (read_level2 L (agKeys a) e) d = (Some [\<lparr>mbEpochID = e, mbLevel = 2, mbValidatorID = [],
    mbValidatorIDs = extractValidatorIDs ks @ [agSequencerID a], mbProjectCount = int (length (ProjectVotes b)),
    mbIPFSCid = fbIPFSCID b, mbMerkleRoot = b64_encode (fbMerkleRoot b), mbTimestamp = t, mbType = ''aggregated''\<rparr>], d)"
proof -
  have c: "int_of_float L (f64 (int (length (ProjectVotes b)))) = int (length (ProjectVotes b))" "int_of_float L (f64 t) = t"
    using assms(5-7) by (simp_all add: small_number)
  have k: "k = MetricsBatchAggregated (agKeys a) e" "k' = MetricsBatchValidators (agKeys a) e"
    using assms(1,3) by (simp_all add: aggregated_metrics_def Let_def numeral_2_eq_2)
  have v: "\<exists>x y z. v = Js (JObj [(''epoch_id'', x), (''type'', JStr ''aggregated''), (''validators_count'', y),
      (''project_count'', JNum (int (length (ProjectVotes b)))), (''timestamp'', JNum t), (''validator_ids'', z),
      (''ipfs_cid'', JStr (fbIPFSCID b)), (''merkle_root'', enc_bytes (fbMerkleRoot b))])"
    and v': "v' = Js (JArr (map JStr (extractValidatorIDs ks @ [agSequencerID a])))"
    using assms(1,3) by (auto simp: aggregated_metrics_def Let_def numeral_2_eq_2)
  have "fst (dec_list [] dec_str [] (JArr (map JStr ns))) = ns" for ns by (simp add: comp_def)
  from this [of "extractValidatorIDs ks @ [agSequencerID a]"] assms(2,4) c v show ?thesis
    by (elim exE) (simp add: k v' read_level2_def run_Call Let_def map_or_nil_def with_counts_def get_num_def text_at_def
        get_str_def load_names_def got_def enc_bytes_def)
qed

text \<open>C24. The API shows what both levels recorded: asked for an epoch, it lists first the local batch that level 1 recorded,
  with its validator, then the aggregated one of level 2 with the validators recorded for it, each with its CID, the
  number of its projects and its time.\<close>

theorem finalized_batches_roundtrip:
  assumes "local_metrics a ep parts b1 t1 ! 1 = RSet k1 v1 ttl1" and "map_of (strs d) k1 = Some v1"
    and "aggregated_metrics L a (show_u64 ep) n ks b2 t2 ! 1 = RSet k2 v2 ttl2" and "map_of (strs d) k2 = Some v2"
    and "aggregated_metrics L a (show_u64 ep) n ks b2 t2 ! 2 = RSet k3 v3 ttl3" and "map_of (strs d) k3 = Some v3"
    and "apiKeys m = agKeys a" and "length (ProjectIds b1) \<le> 2 ^ 53" and "length (ProjectVotes b2) \<le> 2 ^ 53"
    and "0 \<le> t1" and "t1 \<le> 2 ^ 53" and "0 \<le> t2" and "t2 \<le> 2 ^ 53"
  shows "run store_step (FinalizedBatches L [(''epoch_id'', show_u64 ep)] m) d = (Some (list_response (map enc_final
    [\<lparr>mbEpochID = show_u64 ep, mbLevel = 1, mbValidatorID = agSequencerID a, mbValidatorIDs = [],
       mbProjectCount = int (length (ProjectIds b1)), mbIPFSCid = fbIPFSCID b1, mbMerkleRoot = [], mbTimestamp = t1,
       mbType = ''local''\<rparr>,
     \<lparr>mbEpochID = show_u64 ep, mbLevel = 2, mbValidatorID = [], mbValidatorIDs = extractValidatorIDs ks @ [agSequencerID a],
       mbProjectCount = int (length (ProjectVotes b2)), mbIPFSCid = fbIPFSCID b2, mbMerkleRoot = b64_encode (fbMerkleRoot b2),
       mbTimestamp = t2, mbType = ''aggregated''\<rparr>])), d)"
proof -
  have "show_u64 ep \<noteq> []" by (simp add: show_u64_def)
  moreover have "atoi ''0'' = 0" by (simp add: atoi_def split_sign_def digit_val_def digits_def)
  ultimately show ?thesis
    using recorded_level1 [OF assms(1,2,8,10,11), of L] recorded_level2 [OF assms(3-6,9,12,13)]
    by (simp add: FinalizedBatches_def epoch_batches_of_def request_keys_def mget_def assms(7) run_bindp Let_def)
qed

section \<open>Examples\<close>

definition api_kb :: keyBuilder where
  "api_kb = agKeys demo_agg"

theorem phases_disagree_iff_witness:
  "\<exists>x ph t. run store_step (read_epoch api_kb ''7'' []) (empty_store\<lparr>strs := [(MetricsBatchAggregated api_kb ''7'', Txt [])]\<rparr>) =
       (Some [x], empty_store\<lparr>strs := [(MetricsBatchAggregated api_kb ''7'', Txt [])]\<rparr>) \<and>
     outcome store_step (epoch_phase api_kb ''7'' 0 0 (Some [])) (empty_store\<lparr>strs := [(MetricsBatchAggregated api_kb ''7'', Txt [])]\<rparr>) =
       Some (ph, t) \<and> ph = ''finalization'' \<and> eiPhase x = ''complete''"
proof -
  let ?d = "empty_store\<lparr>strs := [(MetricsBatchAggregated api_kb ''7'', Txt [])]\<rparr>"
  have i: "hashes ?d (MetricsEpochInfo api_kb ''7'') = []" by (simp add: empty_store_def)
  have "key_exists ?d (MetricsBatchAggregated api_kb ''7'')" "\<not> key_exists ?d (MetricsBatchLocal api_kb ''7'')"
    by (simp_all add: key_exists_def stream_exists_def empty_store_def MetricsBatchAggregated_def MetricsBatchLocal_def ns_same)
  then show ?thesis
    using phases_disagree_iff [of api_kb "''7''" ?d 0 0] unfolding i by (auto simp: hash_text_def)
qed

definition late_store :: store where
  "late_store = track_store\<lparr>clock := \<lambda>_. 10 * 10 ^ 9\<rparr>"

lemma late_summary: "marshals (JObj (dashboard track_worker (dur_seconds (clock late_store n - swLastReset track_worker)) late_store v u t))"
proof -
  have x: "dur_seconds (clock late_store n - swLastReset track_worker) = Fin 10"
    using dur_seconds_whole(1) [of 10] by (simp add: late_store_def track_worker_def)
  have "\<exists>r. rate_of k (Fin 10) = Fin r" if k: "k \<in> {0, 1, 2}" for k
  proof -
    have "rate_of k (Fin 10) = round64 (of_int k / 10)" using k by (auto simp: rate_of_def f_of_int_exact)
    then show ?thesis using round64_to_int_le [of "of_int k / 10" 1] k by auto
  qed
  then have "marshals (enc_float (rate_of k (Fin 10)))" if "k \<in> {0, 1, 2}" for k
    using that by (fastforce simp: finite_float_def)
  then show ?thesis unfolding x by (simp add: dashboard_def summary_fields_def track_worker_def Let_def)
qed

theorem tracker_reaches_dashboard_witness:
  "\<exists>d1 j d2. run store_step (aggregateCurrentMetrics in_order ''v1'' track_worker) late_store = (Some (), d1) \<and>
     run store_step (DashboardSummaryHandler demo_lib (\<lambda>_. []) [] (NewMonitorAPI ''p'' ''m'')) d1 = (Some (200, j), d2) \<and>
     field_in ''system_metrics'' ''active_validators'' j = Some (JNum 1)"
proof -
  have k: "swKeys track_worker = track_kb" by (simp add: track_worker_def)
  have m: "apiKeys (NewMonitorAPI ''p'' ''m'') = track_kb" by (simp add: NewMonitorAPI_def track_kb_def)
  have v: "known_validators track_kb late_store = {''v1''}"
    using track_validators by (simp add: known_validators_def late_store_def)
  obtain d1 fs where d1: "run store_step (aggregateCurrentMetrics in_order ''v1'' track_worker) late_store = (Some (), d1)"
    "map_of (strs d1) (DashboardSummary track_kb) = Some (marshal (JObj fs))" "marshals (JObj fs)"
    using aggregate_run [of in_order "''v1''" track_worker late_store] late_summary unfolding k Let_def by blast
  then have "map_of (strs d1) (DashboardSummary track_kb) \<noteq> Some (Txt [])" by (simp add: marshal_def)
  then have "map_of (strs d1) (DashboardSummary (swKeys track_worker)) \<noteq> Some (Txt [])" unfolding k .
  moreover have "apiKeys (NewMonitorAPI ''p'' ''m'') = swKeys track_worker" unfolding k by (rule m)
  moreover have "known_validators (swKeys track_worker) late_store \<noteq> {}" unfolding k v by simp
  ultimately obtain j d2 where j: "run store_step (DashboardSummaryHandler demo_lib (\<lambda>_. []) [] (NewMonitorAPI ''p'' ''m'')) d1 = (Some (200, j), d2)"
    "field_in ''system_metrics'' ''active_validators'' j = Some (JNum (f64 (int (card (known_validators (swKeys track_worker) late_store)))))"
    using tracker_reaches_dashboard [of in_order "''v1''" track_worker late_store d1 "NewMonitorAPI ''p'' ''m''" demo_lib "\<lambda>_. []", OF d1(1)] by blast
  have "f64 (int (card {''v1''})) = 1" by (simp add: f64_exact)
  with j(2) have "field_in ''system_metrics'' ''active_validators'' j = Some (JNum 1)" unfolding k v by simp
  with d1(1) j(1) show ?thesis by blast
qed

theorem timeline_hides_epoch_witness:
  "\<exists>d t. run store_step (timeline_event demo_lib (dqKeys demo_dq) ''submission'' True (submission_entity demo_sub 5 ''peer'', 5) []) d =
      (Some [JObj [(''entity_id'', JStr (submission_entity demo_sub 5 ''peer'')), (''timestamp'', JNum 5),
        (''time'', JStr (TimeText demo_lib 5000000000)), (''metadata'', enc_event_metadata t)]], d) \<and> tmEpochID t = [] \<and> tmSlotID t = []"
proof -
  define p where "p = \<lparr>ID = ''i'', Submission = demo_sub, SnapshotterAddr = [], DataMarketAddr = [], ProcessedAt = 0, PsValidatorID = [], MetaData = []\<rparr>"
  obtain k b ttl where c: "monitoring_calls demo_lib demo_dq ''i'' p ''peer'' 5 0 0 ! 1 = RSet k b ttl"
    by (simp add: monitoring_calls_def Let_def)
  have "map_of (strs (empty_store\<lparr>strs := [(k, b)]\<rparr>)) k = Some b" by simp
  from timeline_hides_epoch [OF c _ this, of demo_sub] show ?thesis by (auto simp: p_def)
qed

theorem finalized_batches_roundtrip_witness:
  "\<exists>d. run store_step (FinalizedBatches demo_lib [(''epoch_id'', show_u64 7)] \<lparr>apiKeys = api_kb\<rparr>) d = (Some (list_response (map enc_final
    [\<lparr>mbEpochID = show_u64 7, mbLevel = 1, mbValidatorID = agSequencerID demo_agg, mbValidatorIDs = [],
       mbProjectCount = 0, mbIPFSCid = [], mbMerkleRoot = [], mbTimestamp = 5, mbType = ''local''\<rparr>,
     \<lparr>mbEpochID = show_u64 7, mbLevel = 2, mbValidatorID = [], mbValidatorIDs = [agSequencerID demo_agg],
       mbProjectCount = 0, mbIPFSCid = [], mbMerkleRoot = b64_encode [], mbTimestamp = 6, mbType = ''aggregated''\<rparr>])), d)"
proof -
  let ?l = "local_metrics demo_agg 7 1 zero_batch 5" and ?a = "aggregated_metrics demo_lib demo_agg (show_u64 7) 1 [] zero_batch 6"
  obtain v1 ttl1 where 1: "?l ! 1 = RSet (MetricsBatchLocal api_kb (show_u64 7)) v1 ttl1"
    by (simp add: local_metrics_def api_kb_def)
  obtain v2 ttl2 where 2: "?a ! 1 = RSet (MetricsBatchAggregated api_kb (show_u64 7)) v2 ttl2"
    by (simp add: aggregated_metrics_def api_kb_def Let_def)
  obtain v3 ttl3 where 3: "?a ! 2 = RSet (MetricsBatchValidators api_kb (show_u64 7)) v3 ttl3"
    by (simp add: aggregated_metrics_def api_kb_def Let_def numeral_2_eq_2)
  define d where "d = empty_store\<lparr>strs := [(MetricsBatchLocal api_kb (show_u64 7), v1), (MetricsBatchAggregated api_kb (show_u64 7), v2),
      (MetricsBatchValidators api_kb (show_u64 7), v3)]\<rparr>"
  have d: "map_of (strs d) (MetricsBatchLocal api_kb (show_u64 7)) = Some v1" "map_of (strs d) (MetricsBatchAggregated api_kb (show_u64 7)) = Some v2"
    "map_of (strs d) (MetricsBatchValidators api_kb (show_u64 7)) = Some v3"
    by (simp_all add: d_def MetricsBatchLocal_def MetricsBatchAggregated_def MetricsBatchValidators_def ns_same show_u64_def show_nat.simps)
  have "apiKeys \<lparr>apiKeys = api_kb\<rparr> = agKeys demo_agg" by (simp add: api_kb_def)
  from finalized_batches_roundtrip [OF 1 d(1) 2 d(2) 3 d(3) this] show ?thesis
    by (intro exI [of _ d]) (simp add: zero_batch_def extractValidatorIDs_def map_filter_def)
qed

end
