(* ===== verification/Config.thy ===== *)
theory Config
  imports GoText Eip712
begin

text \<open>
  \<open>config/settings.go\<close>: the settings of the sequencer's processes, read from the environment. \<open>env\<close> is
  \<open>os.Getenv\<close>, empty for what is not set. A time span is in nanoseconds and wraps as \<open>time.Duration\<close> does. What
  \<open>fetchChainIDFromRPC\<close> gets from a node through go-ethereum is a parameter. Comments of the struct name the groups.
\<close>

record settings =
  cfSequencerID :: string
  cfRPCNodes :: "string list"
  cfArchiveRPCNodes :: "string list"
  cfProtocolStateContract :: string
  cfChainID :: int
  cfDataMarketAddresses :: "string list"
  cfDataMarketContracts :: "addr list"
  cfRedisHost :: string
  cfRedisPort :: string
  cfRedisDB :: int
  cfRedisPassword :: string
  cfP2PPort :: int
  cfP2PPrivateKey :: string
  cfP2PPublicIP :: string
  cfBootstrapPeers :: "string list"
  cfRendezvous :: string
  cfConnManagerLowWater :: int
  cfConnManagerHighWater :: int
  cfGossipsubHeartbeat :: int
  cfGossipsubParams :: "(string, json) gomap"
  cfSubmissionWindowDuration :: int
  cfMaxConcurrentWindows :: int
  cfWindowCleanupInterval :: int
  cfEventPollInterval :: int
  cfEventStartBlock :: u64
  cfEventBlockBatchSize :: u64
  cfBlockFetchTimeout :: int
  cfContractABIPath :: string
  cfSkipIdentityVerification :: bool
  cfFullNodeAddresses :: "string list"
  cfFlaggedSnapshottersCheck :: bool
  cfVerificationCacheTTL :: int
  cfDequeueWorkers :: int
  cfDequeueBatchSize :: int
  cfDequeueTimeout :: int
  cfMaxSubmissionsPerEpoch :: int
  cfDedupEnabled :: bool
  cfDedupLocalCacheSize :: int
  cfDedupTTL :: int
  cfEnableListener :: bool
  cfEnableDequeuer :: bool
  cfEnableFinalizer :: bool
  cfEnableBatchAggregation :: bool
  cfEnableEventMonitor :: bool
  cfFinalizerWorkers :: int
  cfFinalizationBatchSize :: int
  cfAggregationWindowDuration :: int
  cfStreamConsumerGroup :: string
  cfStreamConsumerName :: string
  cfStreamReadBlock :: int
  cfStreamBatchSize :: int
  cfStreamIdleTimeout :: int
  cfEnableSlotValidation :: bool
  cfIPFSAPI :: string
  cfAPIHost :: string
  cfAPIPort :: int
  cfAPIAuthToken :: string
  cfGossipsubSnapshotSubmissionPrefix :: string
  cfGossipsubFinalizedBatchPrefix :: string
  cfGossipsubValidatorPresenceTopic :: string
  cfGossipsubConsensusVotesTopic :: string
  cfGossipsubConsensusProposalsTopic :: string
  cfSlackWebhookURL :: string
  cfMetricsEnabled :: bool
  cfMetricsPort :: int
  cfLogLevel :: string
  cfDebugMode :: bool
  cfBatchProcessingTimeout :: int
  cfContractQueryTimeout :: int

section \<open>Reading the environment\<close>

type_synonym environ = "string \<Rightarrow> string"

definition getEnv :: "environ \<Rightarrow> string \<Rightarrow> string \<Rightarrow> string" where
  "getEnv env key defaultValue = (if env key = [] then defaultValue else env key)"

lemma getEnv_simps [simp]: "getEnv env key [] = env key" "d \<noteq> [] \<Longrightarrow> getEnv env key d \<noteq> []"
  by (simp_all add: getEnv_def)

definition getEnvAsInt :: "environ \<Rightarrow> string \<Rightarrow> int \<Rightarrow> int" where
  "getEnvAsInt env key defaultValue =
     (if env key = [] then defaultValue
      else case parse_int (env key) of None \<Rightarrow> defaultValue | Some n \<Rightarrow> n)"

definition getBoolEnv :: "environ \<Rightarrow> string \<Rightarrow> bool \<Rightarrow> bool" where
  "getBoolEnv env key defaultValue =
     (if env key = [] then defaultValue else lower (env key) \<in> {''true'', ''1'', ''yes''})"

text \<open>\<open>time.Duration(n) * unit\<close>.\<close>

definition time_span :: "int \<Rightarrow> int \<Rightarrow> int" where
  "time_span unit n = sint (word_of_int (n * unit) :: 64 word)"

definition seconds :: "int \<Rightarrow> int" where
  "seconds = time_span 1000000000"

definition millis :: "int \<Rightarrow> int" where
  "millis = time_span 1000000"

text \<open>The settings that are single values; the rest is nil.\<close>

definition read_settings :: "environ \<Rightarrow> settings" where
  "read_settings env = (let str = getEnv env; num = getEnvAsInt env; flag = getBoolEnv env in
   \<lparr>cfSequencerID = str ''SEQUENCER_ID'' ''unified-sequencer-1'',
    cfRPCNodes = [], cfArchiveRPCNodes = [],
    cfProtocolStateContract = str ''PROTOCOL_STATE_CONTRACT'' [],
    cfChainID = 0, cfDataMarketAddresses = [], cfDataMarketContracts = [],
    cfRedisHost = str ''REDIS_HOST'' ''localhost'',
    cfRedisPort = str ''REDIS_PORT'' ''6379'',
    cfRedisDB = num ''REDIS_DB'' 0,
    cfRedisPassword = str ''REDIS_PASSWORD'' [],
    cfP2PPort = num ''P2P_PORT'' 9001,
    cfP2PPrivateKey = str ''PRIVATE_KEY'' [],
    cfP2PPublicIP = str ''PUBLIC_IP'' [],
    cfBootstrapPeers = [],
    cfRendezvous = str ''RENDEZVOUS_POINT'' ''powerloom-snapshot-sequencer-network'',
    cfConnManagerLowWater = num ''CONN_MANAGER_LOW_WATER'' 100,
    cfConnManagerHighWater = num ''CONN_MANAGER_HIGH_WATER'' 400,
    cfGossipsubHeartbeat = millis (num ''GOSSIPSUB_HEARTBEAT_MS'' 700),
    cfGossipsubParams = [],
    cfSubmissionWindowDuration = seconds (num ''SUBMISSION_WINDOW_DURATION'' 60),
    cfMaxConcurrentWindows = num ''MAX_CONCURRENT_WINDOWS'' 100,
    cfWindowCleanupInterval = seconds 300,
    cfEventPollInterval = seconds (num ''EVENT_POLL_INTERVAL'' 12),
    cfEventStartBlock = word_of_int (num ''EVENT_START_BLOCK'' 0),
    cfEventBlockBatchSize = word_of_int (num ''EVENT_BLOCK_BATCH_SIZE'' 1000),
    cfBlockFetchTimeout = seconds (num ''BLOCK_FETCH_TIMEOUT'' 30),
    cfContractABIPath = str ''CONTRACT_ABI_PATH'' ''./abi/ProtocolContract.json'',
    cfSkipIdentityVerification = flag ''SKIP_IDENTITY_VERIFICATION'' False,
    cfFullNodeAddresses = [],
    cfFlaggedSnapshottersCheck = flag ''CHECK_FLAGGED_SNAPSHOTTERS'' True,
    cfVerificationCacheTTL = seconds (num ''VERIFICATION_CACHE_TTL'' 600),
    cfDequeueWorkers = num ''DEQUEUER_WORKERS'' 5,
    cfDequeueBatchSize = num ''DEQUEUE_BATCH_SIZE'' 10,
    cfDequeueTimeout = seconds 5,
    cfMaxSubmissionsPerEpoch = num ''MAX_SUBMISSIONS_PER_EPOCH'' 100,
    cfDedupEnabled = flag ''DEDUP_ENABLED'' True,
    cfDedupLocalCacheSize = num ''DEDUP_LOCAL_CACHE_SIZE'' 10000,
    cfDedupTTL = seconds (num ''DEDUP_TTL_SECONDS'' 7200),
    cfEnableListener = flag ''ENABLE_LISTENER'' True,
    cfEnableDequeuer = flag ''ENABLE_DEQUEUER'' True,
    cfEnableFinalizer = flag ''ENABLE_FINALIZER'' True,
    cfEnableBatchAggregation = flag ''ENABLE_BATCH_AGGREGATION'' True,
    cfEnableEventMonitor = flag ''ENABLE_EVENT_MONITOR'' False,
    cfFinalizerWorkers = num ''FINALIZER_WORKERS'' 5,
    cfFinalizationBatchSize = num ''FINALIZATION_BATCH_SIZE'' 20,
    cfAggregationWindowDuration = seconds (num ''AGGREGATION_WINDOW_SECONDS'' 30),
    cfStreamConsumerGroup = str ''STREAM_CONSUMER_GROUP'' ''aggregator-group'',
    cfStreamConsumerName = str ''STREAM_CONSUMER_NAME'' ''aggregator-instance'',
    cfStreamReadBlock = millis (num ''STREAM_READ_BLOCK_MS'' 2000),
    cfStreamBatchSize = num ''STREAM_BATCH_SIZE'' 10,
    cfStreamIdleTimeout = millis (num ''STREAM_IDLE_TIMEOUT_MS'' 30000),
    cfEnableSlotValidation = flag ''ENABLE_SLOT_VALIDATION'' False,
    cfIPFSAPI = str ''IPFS_HOST'' [],
    cfAPIHost = str ''API_HOST'' ''0.0.0.0'',
    cfAPIPort = num ''API_PORT'' 8080,
    cfAPIAuthToken = str ''API_AUTH_TOKEN'' [],
    cfGossipsubSnapshotSubmissionPrefix = str ''GOSSIPSUB_SNAPSHOT_SUBMISSION_PREFIX'' ''/powerloom/snapshot-submissions'',
    cfGossipsubFinalizedBatchPrefix = str ''GOSSIPSUB_FINALIZED_BATCH_PREFIX'' ''/powerloom/finalized-batches'',
    cfGossipsubValidatorPresenceTopic = str ''GOSSIPSUB_VALIDATOR_PRESENCE_TOPIC'' ''/powerloom/validator/presence'',
    cfGossipsubConsensusVotesTopic = str ''GOSSIPSUB_CONSENSUS_VOTES_TOPIC'' ''/powerloom/consensus/votes'',
    cfGossipsubConsensusProposalsTopic = str ''GOSSIPSUB_CONSENSUS_PROPOSALS_TOPIC'' ''/powerloom/consensus/proposals'',
    cfSlackWebhookURL = str ''SLACK_WEBHOOK_URL'' [],
    cfMetricsEnabled = flag ''METRICS_ENABLED'' False,
    cfMetricsPort = num ''METRICS_PORT'' 9090,
    cfLogLevel = str ''LOG_LEVEL'' ''info'',
    cfDebugMode = flag ''DEBUG_MODE'' False,
    cfBatchProcessingTimeout = seconds 300,
    cfContractQueryTimeout = seconds 30\<rparr>)"

section \<open>Lists\<close>

text \<open>\<open>json.Unmarshal\<close> of a text into a nil list of strings, and whether it went without an error.\<close>

definition json_names :: "string \<Rightarrow> string list \<times> bool" where
  "json_names s = (case parse_json s of None \<Rightarrow> ([], False) | Some j \<Rightarrow> dec_list [] dec_str [] j)"

text \<open>A list in JSON, or names between commas.\<close>

definition names_of :: "string \<Rightarrow> string list \<times> bool" where
  "names_of s = (if has_prefix ''['' s then json_names s else (split_on CHR '','' s, True))"

definition is_quote :: "char \<Rightarrow> bool" where
  "is_quote c \<longleftrightarrow> c = CHR 0x22"

definition clean_url :: "string \<Rightarrow> string" where
  "clean_url = trim_chars (\<lambda>c. is_quote c \<or> c = CHR '' '')"

definition clean_name :: "string \<Rightarrow> string" where
  "clean_name s = trim_space (trim_chars is_quote s)"

datatype config_error =
    BadRPCNodes | BadDataMarkets | NoProtocolState | NoRPCNodes | NoRedis
  | NoConsumerGroup | NoConsumerName | BadBatchSize | BadReadBlock | BadIdleTimeout

definition loadRPCConfig :: "environ \<Rightarrow> (string \<Rightarrow> int option) \<Rightarrow> settings \<Rightarrow> config_error + settings" where
  "loadRPCConfig env fetchChainID s =
     (let nodesStr = getEnv env ''POWERLOOM_RPC_NODES'' [];
          (nodes, ok) = (if nodesStr = [] then ([], True) else names_of nodesStr) in
      if \<not> ok then Inl BadRPCNodes
      else
        let archiveStr = getEnv env ''POWERLOOM_ARCHIVE_RPC_NODES'' [];
            archive = (if archiveStr = [] \<or> archiveStr = ''[]'' then [] else fst (names_of archiveStr));
            nodes = map clean_url nodes;
            fallback = getEnvAsInt env ''CHAIN_ID'' 1;
            chainID = (case nodes of [] \<Rightarrow> fallback | n # _ \<Rightarrow> (case fetchChainID n of None \<Rightarrow> fallback | Some c \<Rightarrow> c)) in
        Inr (s\<lparr>cfRPCNodes := nodes, cfArchiveRPCNodes := map clean_url archive, cfChainID := chainID\<rparr>))"

definition loadDataMarkets :: "golib \<Rightarrow> environ \<Rightarrow> settings \<Rightarrow> config_error + settings" where
  "loadDataMarkets L env s =
     (let marketsStr = getEnv env ''DATA_MARKET_ADDRESSES'' [] in
      if marketsStr = [] then Inr s
      else
        let (markets, ok) = names_of marketsStr in
        if \<not> ok then Inl BadDataMarkets
        else Inr (s\<lparr>cfDataMarketAddresses := markets,
          cfDataMarketContracts := map (HexToAddress L) (filter (\<lambda>a. a \<noteq> [] \<and> a \<noteq> ''0x0'') (map clean_name markets))\<rparr>))"

definition loadBootstrapPeers :: "environ \<Rightarrow> settings \<Rightarrow> settings" where
  "loadBootstrapPeers env s =
     (let peersStr = getEnv env ''BOOTSTRAP_PEERS'' []; multiPeer = getEnv env ''BOOTSTRAP_MULTIADDR'' [];
          peers = (if peersStr \<noteq> [] then fst (names_of peersStr)
            else if multiPeer \<noteq> [] then split_on CHR '','' multiPeer else []) in
      s\<lparr>cfBootstrapPeers := map clean_name peers\<rparr>)"

definition loadFullNodeAddresses :: "environ \<Rightarrow> settings \<Rightarrow> settings" where
  "loadFullNodeAddresses env s =
     (let fullNodesStr = getEnv env ''FULL_NODE_ADDRESSES'' [];
          nodes = (if fullNodesStr = [] then [] else fst (names_of fullNodesStr)) in
      s\<lparr>cfFullNodeAddresses := map (\<lambda>a. lower (trim_space a)) nodes\<rparr>)"

section \<open>Validation\<close>

definition validateConfig :: "settings \<Rightarrow> config_error option" where
  "validateConfig s =
     (if cfEnableEventMonitor s \<and> cfProtocolStateContract s = [] then Some NoProtocolState
      else if cfEnableEventMonitor s \<and> cfRPCNodes s = [] then Some NoRPCNodes
      else if cfEnableDequeuer s \<and> cfRedisHost s = [] then Some NoRedis
      else if cfStreamConsumerGroup s = [] then Some NoConsumerGroup
      else if cfStreamConsumerName s = [] then Some NoConsumerName
      else if cfStreamBatchSize s \<le> 0 then Some BadBatchSize
      else if cfStreamReadBlock s \<le> 0 then Some BadReadBlock
      else if cfStreamIdleTimeout s \<le> 0 then Some BadIdleTimeout
      else None)"

definition LoadConfig :: "golib \<Rightarrow> environ \<Rightarrow> (string \<Rightarrow> int option) \<Rightarrow> config_error + settings" where
  "LoadConfig L env fetchChainID =
     (case loadRPCConfig env fetchChainID (read_settings env) of
        Inl e \<Rightarrow> Inl e
      | Inr s1 \<Rightarrow> (case loadDataMarkets L env s1 of
          Inl e \<Rightarrow> Inl e
        | Inr s2 \<Rightarrow>
            (let s = loadFullNodeAddresses env (loadBootstrapPeers env s2) in
             case validateConfig s of None \<Rightarrow> Inr s | Some e \<Rightarrow> Inl e)))"

definition log_level :: "settings \<Rightarrow> string" where
  "log_level s =
     (let l = lower (cfLogLevel s) in
      if cfDebugMode s \<or> l = ''debug'' then ''debug'' else if l \<in> {''warn'', ''warning''} then ''warning''
      else if l = ''error'' then ''error'' else ''info'')"

section \<open>Using the settings\<close>

definition IsFullNode :: "settings \<Rightarrow> string \<Rightarrow> bool" where
  "IsFullNode s address \<longleftrightarrow> list_ex (\<lambda>n. lower n = lower address) (cfFullNodeAddresses s)"

definition IsValidDataMarket :: "settings \<Rightarrow> string \<Rightarrow> bool" where
  "IsValidDataMarket s address \<longleftrightarrow> list_ex (\<lambda>m. lower m = lower address) (cfDataMarketAddresses s)"

record rpcConfig =
  rcNodes :: "string list"
  rcArchiveNodes :: "string list"
  rcMaxRetries :: int
  rcRetryDelay :: int
  rcMaxRetryDelay :: int
  rcRequestTimeout :: int
  rcWebhook :: "(string \<times> int \<times> int) option"

definition ToRPCConfig :: "settings \<Rightarrow> rpcConfig" where
  "ToRPCConfig s =
     \<lparr>rcNodes = cfRPCNodes s, rcArchiveNodes = cfArchiveRPCNodes s, rcMaxRetries = 3, rcRetryDelay = millis 500,
      rcMaxRetryDelay = seconds 30, rcRequestTimeout = seconds 30,
      rcWebhook = (if cfSlackWebhookURL s = [] then None else Some (cfSlackWebhookURL s, seconds 30, 3))\<rparr>"

definition GetSnapshotSubmissionTopics :: "settings \<Rightarrow> string \<times> string" where
  "GetSnapshotSubmissionTopics s =
     (cfGossipsubSnapshotSubmissionPrefix s @ ''/0'', cfGossipsubSnapshotSubmissionPrefix s @ ''/all'')"

definition GetFinalizedBatchTopics :: "settings \<Rightarrow> string \<times> string" where
  "GetFinalizedBatchTopics s =
     (cfGossipsubFinalizedBatchPrefix s @ ''/0'', cfGossipsubFinalizedBatchPrefix s @ ''/all'')"

end
