(* ===== verification/Configured.thy ===== *)
theory Configured
  imports Config MonitorApi Windows
begin

text \<open>
  What the settings say: when they are refused, and the data markets that the processes take from them.
\<close>

section \<open>Refused settings\<close>

lemma read_settings_names:
  "cfRedisHost (read_settings env) \<noteq> []" "cfStreamConsumerGroup (read_settings env) \<noteq> []"
  "cfStreamConsumerName (read_settings env) \<noteq> []"
  "cfProtocolStateContract (read_settings env) = env ''PROTOCOL_STATE_CONTRACT''"
  "cfEnableEventMonitor (read_settings env) = getBoolEnv env ''ENABLE_EVENT_MONITOR'' False"
  "cfStreamBatchSize (read_settings env) = getEnvAsInt env ''STREAM_BATCH_SIZE'' 10"
  "cfStreamReadBlock (read_settings env) = millis (getEnvAsInt env ''STREAM_READ_BLOCK_MS'' 2000)"
  "cfStreamIdleTimeout (read_settings env) = millis (getEnvAsInt env ''STREAM_IDLE_TIMEOUT_MS'' 30000)"
  by (simp_all add: read_settings_def Let_def)

text \<open>A variable that holds a list which cannot be read.\<close>

definition bad_list :: "string \<Rightarrow> bool" where
  "bad_list v \<longleftrightarrow> v \<noteq> [] \<and> \<not> snd (names_of v)"

definition listed_names :: "string \<Rightarrow> string list" where
  "listed_names v = (if v = [] then [] else fst (names_of v))"

lemma loadRPC_cases:
  assumes "loadRPCConfig env f s = r"
  shows "if bad_list (env ''POWERLOOM_RPC_NODES'') then r = Inl BadRPCNodes
    else \<exists>arch chain. r = Inr (s\<lparr>cfRPCNodes := map clean_url (listed_names (env ''POWERLOOM_RPC_NODES'')),
      cfArchiveRPCNodes := arch, cfChainID := chain\<rparr>)"
proof -
  obtain ns ok where n: "(if env ''POWERLOOM_RPC_NODES'' = [] then ([], True) else names_of (env ''POWERLOOM_RPC_NODES'')) = (ns, ok)"
    by fastforce
  then have b: "bad_list (env ''POWERLOOM_RPC_NODES'') \<longleftrightarrow> \<not> ok" "ok \<longrightarrow> listed_names (env ''POWERLOOM_RPC_NODES'') = ns"
    by (auto simp: bad_list_def listed_names_def split: if_splits)
  show ?thesis
  proof (cases ok)
    case True
    then show ?thesis using assms b n unfolding loadRPCConfig_def Let_def getEnv_simps n
      by (auto simp del: map_eq_Cons_conv)
  next
    case False
    then show ?thesis using assms b n unfolding loadRPCConfig_def Let_def getEnv_simps n by simp
  qed
qed

lemma loadMarkets_cases:
  assumes "loadDataMarkets L env s = r"
  shows "if bad_list (env ''DATA_MARKET_ADDRESSES'') then r = Inl BadDataMarkets
    else (\<exists>ms cs. r = Inr (s\<lparr>cfDataMarketAddresses := ms, cfDataMarketContracts := cs\<rparr>))"
proof (cases "env ''DATA_MARKET_ADDRESSES'' = []")
  case True
  have "s = s\<lparr>cfDataMarketAddresses := cfDataMarketAddresses s, cfDataMarketContracts := cfDataMarketContracts s\<rparr>" by simp
  moreover have "r = Inr s" using assms True by (simp add: loadDataMarkets_def)
  ultimately have "\<exists>ms cs. r = Inr (s\<lparr>cfDataMarketAddresses := ms, cfDataMarketContracts := cs\<rparr>)" by blast
  then show ?thesis using True by (simp add: bad_list_def)
next
  case False
  obtain ns ok where n: "names_of (env ''DATA_MARKET_ADDRESSES'') = (ns, ok)" by fastforce
  show ?thesis
  proof (cases ok)
    case True
    then have "\<exists>cs. r = Inr (s\<lparr>cfDataMarketAddresses := ns, cfDataMarketContracts := cs\<rparr>)"
      using assms False n by (simp add: loadDataMarkets_def Let_def) blast
    then show ?thesis using True n by (auto simp: bad_list_def)
  next
    case False
    then show ?thesis using assms n \<open>env _ \<noteq> []\<close> by (simp add: loadDataMarkets_def Let_def bad_list_def)
  qed
qed

lemma validate_read:
  "validateConfig (loadFullNodeAddresses env (loadBootstrapPeers env
      (read_settings env\<lparr>cfRPCNodes := nds, cfArchiveRPCNodes := ar, cfChainID := c, cfDataMarketAddresses := ms, cfDataMarketContracts := cs\<rparr>))) =
   (if getBoolEnv env ''ENABLE_EVENT_MONITOR'' False \<and> env ''PROTOCOL_STATE_CONTRACT'' = [] then Some NoProtocolState
    else if getBoolEnv env ''ENABLE_EVENT_MONITOR'' False \<and> nds = [] then Some NoRPCNodes
    else if getEnvAsInt env ''STREAM_BATCH_SIZE'' 10 \<le> 0 then Some BadBatchSize
    else if millis (getEnvAsInt env ''STREAM_READ_BLOCK_MS'' 2000) \<le> 0 then Some BadReadBlock
    else if millis (getEnvAsInt env ''STREAM_IDLE_TIMEOUT_MS'' 30000) \<le> 0 then Some BadIdleTimeout
    else None)"
  by (simp add: validateConfig_def loadFullNodeAddresses_def loadBootstrapPeers_def Let_def read_settings_names)

text \<open>C23. What makes the settings unusable: they are refused exactly when the list of nodes or of data markets is not a
  JSON list of texts though it starts like one, when the event monitor is on without a protocol contract or nodes, or when
  a number of the stream is not positive; the tests for the Redis host and for the names of the stream's consumer never
  fail, since an empty variable stands for its default.\<close>

theorem settings_refused_iff:
  fixes env
  defines "nodes \<equiv> env ''POWERLOOM_RPC_NODES''" and "monitoring \<equiv> getBoolEnv env ''ENABLE_EVENT_MONITOR'' False"
  shows "((\<exists>e. LoadConfig L env f = Inl e) \<longleftrightarrow>
      bad_list nodes \<or> bad_list (env ''DATA_MARKET_ADDRESSES'') \<or>
      monitoring \<and> (env ''PROTOCOL_STATE_CONTRACT'' = [] \<or> listed_names nodes = []) \<or>
      getEnvAsInt env ''STREAM_BATCH_SIZE'' 10 \<le> 0 \<or>
      millis (getEnvAsInt env ''STREAM_READ_BLOCK_MS'' 2000) \<le> 0 \<or>
      millis (getEnvAsInt env ''STREAM_IDLE_TIMEOUT_MS'' 30000) \<le> 0) \<and>
    LoadConfig L env f \<notin> {Inl NoRedis, Inl NoConsumerGroup, Inl NoConsumerName}"
proof (cases "bad_list nodes")
  case True
  then have "LoadConfig L env f = Inl BadRPCNodes"
    using loadRPC_cases [of env f "read_settings env"] by (simp add: LoadConfig_def nodes_def)
  then show ?thesis using True by simp
next
  case False
  then obtain ar c where 1: "loadRPCConfig env f (read_settings env) = Inr (read_settings env\<lparr>cfRPCNodes := map clean_url (listed_names nodes),
      cfArchiveRPCNodes := ar, cfChainID := c\<rparr>)" (is "_ = Inr ?s")
    using loadRPC_cases [of env f "read_settings env"] unfolding nodes_def by auto
  show ?thesis
  proof (cases "bad_list (env ''DATA_MARKET_ADDRESSES'')")
    case True
    then have "LoadConfig L env f = Inl BadDataMarkets"
      using loadMarkets_cases [of L env ?s] 1 by (simp add: LoadConfig_def)
    then show ?thesis using True by simp
  next
    case ok: False
    then obtain ms cs where 2: "loadDataMarkets L env ?s = Inr (?s\<lparr>cfDataMarketAddresses := ms, cfDataMarketContracts := cs\<rparr>)"
      using loadMarkets_cases [of L env ?s] by auto
    show ?thesis using False ok unfolding LoadConfig_def 1 sum.case 2 Let_def validate_read monitoring_def
      by (simp split: if_split)
  qed
qed

theorem settings_refused_iff_witness:
  "(\<exists>e. LoadConfig demo_lib ((\<lambda>_. [])(''STREAM_BATCH_SIZE'' := ''0'')) (\<lambda>_. None) = Inl e) \<and>
   \<not> (\<exists>e. LoadConfig demo_lib (\<lambda>_. []) (\<lambda>_. None) = Inl e)"
proof -
  have "getEnvAsInt ((\<lambda>_. [])(''STREAM_BATCH_SIZE'' := ''0'')) ''STREAM_BATCH_SIZE'' 10 = 0"
    by (simp add: getEnvAsInt_def parse_int_def digit_val_def digits_def)
  then show ?thesis
    unfolding settings_refused_iff [THEN conjunct1]
    by (simp add: getEnvAsInt_def getBoolEnv_def bad_list_def millis_def time_span_def)
qed

section \<open>A list of names\<close>

text \<open>A name that JSON writes as it is, and that no process takes apart.\<close>

definition plain_name :: "string \<Rightarrow> bool" where
  "plain_name a \<longleftrightarrow> a \<noteq> [] \<and> (\<forall>c \<in> set a. 32 < (of_char c :: nat) \<and> c \<notin> set '',[]'' \<and> c \<noteq> CHR 0x22 \<and> c \<noteq> CHR 0x5C)"

definition quoted :: "string \<Rightarrow> string" where
  "quoted a = CHR 0x22 # a @ [CHR 0x22]"

definition json_list :: "string list \<Rightarrow> string" where
  "json_list ms = CHR ''['' # join_with '','' (map quoted ms) @ '']''"

lemma plain_char:
  "plain_name a \<Longrightarrow> c \<in> set a \<Longrightarrow> 32 < (of_char c :: nat) \<and> c \<noteq> CHR '','' \<and> c \<noteq> CHR ''['' \<and> c \<noteq> CHR '']'' \<and> c \<noteq> CHR 0x22"
  by (simp add: plain_name_def)

lemma plain_not_blank: "plain_name a \<Longrightarrow> c \<in> set a \<Longrightarrow> \<not> is_blank c \<and> \<not> is_quote c"
  using plain_char [of a c] by (auto simp: is_blank_def is_quote_def)

lemma parse_plain:
  assumes "\<And>c. c \<in> set a \<Longrightarrow> 32 < (of_char c :: nat) \<and> c \<noteq> CHR 0x22 \<and> c \<noteq> CHR 0x5C"
  shows "parse_str (a @ CHR 0x22 # r) = Some (a, r)"
  using assms
proof (induction a)
  case (Cons c a)
  have "32 < (of_char c :: nat) \<and> c \<noteq> CHR 0x22 \<and> c \<noteq> CHR 0x5C" by (rule Cons.prems) simp
  moreover have "parse_str (a @ CHR 0x22 # r) = Some (a, r)" by (rule Cons.IH) (rule Cons.prems, simp)
  ultimately show ?case by (cases a) simp_all
qed (cases r; simp)

lemma not_space: "\<not> is_space (CHR ''['')" "\<not> is_space (CHR '']'')" "\<not> is_space (CHR '','')" "\<not> is_space (CHR 0x22)"
  by (simp_all add: is_space_def)

lemma parse_quoted: "plain_name a \<Longrightarrow> parse_val (Suc n) (quoted a @ r) = Some (JStr a, r)"
  by (simp add: quoted_def skip_ws_def not_space parse_plain plain_name_def)

lemma parse_elems_list:
  "ms \<noteq> [] \<Longrightarrow> list_all plain_name ms \<Longrightarrow>
     parse_elems (length ms + Suc k) (join_with '','' (map quoted ms) @ '']'') = Some (map JStr ms, [])"
proof (induction ms)
  case (Cons a ms)
  then have a: "plain_name a" by simp
  show ?case
  proof (cases ms)
    case Nil
    then show ?thesis using parse_quoted [OF a, of k "'']''"] by (simp add: skip_ws_def not_space)
  next
    case (Cons b bs)
    then have "parse_elems (length ms + Suc k) (join_with '','' (map quoted ms) @ '']'') = Some (map JStr ms, [])"
      using Cons.IH Cons.prems by simp
    then show ?thesis
      using parse_quoted [OF a, of "length bs + Suc k" "'','' @ join_with '','' (map quoted ms) @ '']''"] Cons
      by (simp add: skip_ws_def not_space)
  qed
qed simp

lemma length_join: "length ms \<le> length (join_with '','' (map quoted ms))"
proof (induction ms)
  case (Cons a ms)
  then show ?case by (cases ms) (simp_all add: quoted_def)
qed simp

lemma json_list_names:
  assumes "ms \<noteq> []" and "list_all plain_name ms"
  shows "parse_json (json_list ms) = Some (JArr (map JStr ms))"
proof -
  let ?t = "join_with '','' (map quoted ms)"
  obtain k where k: "length ?t + 1 = length ms + Suc k"
    using length_join [of ms] by (metis add.commute add_Suc_right less_iff_Suc_add le_imp_less_Suc plus_1_eq_Suc)
  obtain c t where t: "?t = c # t" "c = CHR 0x22"
    using assms(1) by (cases ms rule: list.exhaust; cases "tl ms") (auto simp: quoted_def)
  have "parse_val (Suc (length ?t + 1)) (json_list ms) = map_option (\<lambda>(js, r'). (JArr js, r')) (parse_elems (length ?t + 1) (?t @ '']''))"
    using t by (simp add: json_list_def skip_ws_def not_space)
  moreover have "length (json_list ms) = length ?t + 2" by (simp add: json_list_def)
  moreover have "parse_val (Suc (length ?t + 2)) (json_list ms) = map_option (\<lambda>(js, r'). (JArr js, r')) (parse_elems (length ?t + 2) (?t @ '']''))"
    using t by (simp add: json_list_def skip_ws_def not_space)
  moreover have "parse_elems (length ?t + 2) (?t @ '']'') = Some (map JStr ms, [])"
    using parse_elems_list [OF assms, of "Suc k"] k by simp
  ultimately show ?thesis by (simp add: parse_json_def skip_ws_def)
qed

lemma split_join:
  "ms \<noteq> [] \<Longrightarrow> (\<And>a. a \<in> set ms \<Longrightarrow> CHR '','' \<notin> set a) \<Longrightarrow> split_on CHR '','' (join_with '','' ms) = ms"
proof (induction ms)
  case (Cons a ms)
  then have c: "CHR '','' \<notin> set a" by simp
  show ?case
  proof (cases ms)
    case Nil
    then show ?thesis using c by (simp add: split_on_none)
  next
    case (Cons b bs)
    then have "split_on CHR '','' (join_with '','' ms) = ms" using Cons.IH Cons.prems by simp
    then show ?thesis using split_on_append [OF c, of "join_with '','' ms"] Cons by simp
  qed
qed simp

section \<open>The data markets\<close>

lemma names_of_json: "ms \<noteq> [] \<Longrightarrow> list_all plain_name ms \<Longrightarrow> names_of (json_list ms) = (ms, True)"
proof -
  assume a: "ms \<noteq> []" "list_all plain_name ms"
  have "has_prefix ''['' (json_list ms)" by (simp add: has_prefix_def json_list_def)
  then show ?thesis using json_list_names [OF a]
    by (simp add: names_of_def json_names_def comp_def list_all_iff)
qed

lemma join_no_bracket:
  assumes "ms \<noteq> []" and "plain_name (hd ms)"
  shows "\<not> has_prefix ''['' (join_with '','' ms)"
proof -
  obtain c a where hd: "hd ms = c # a" "c \<noteq> CHR ''[''" using assms(2) by (cases "hd ms") (auto simp: plain_name_def)
  then have "\<exists>t. join_with '','' ms = c # t" using assms(1) by (cases ms rule: list.exhaust; cases "tl ms") auto
  then show ?thesis using hd(2) by (auto simp: has_prefix_def)
qed

lemma names_of_comma:
  assumes "ms \<noteq> []" and "\<And>a. a \<in> set ms \<Longrightarrow> CHR '','' \<notin> set a" and "plain_name (hd ms)"
  shows "names_of (join_with '','' ms) = (ms, True)"
  using join_no_bracket [OF assms(1,3)] split_join [OF assms(1,2)] by (simp add: names_of_def)

lemma tracker_reads_json:
  assumes "ms \<noteq> []" and "list_all plain_name ms"
  shows "tracker_market (json_list ms) = hd ms"
proof -
  obtain m r where ms: "ms = m # r" using assms(1) by (cases ms) auto
  have "has_prefix ''['' (json_list ms)" by (simp add: has_prefix_def json_list_def)
  moreover have "dec_list [] dec_str [] (JArr (map JStr ms)) = (ms, True)" by (simp add: comp_def list_all_iff)
  ultimately show ?thesis unfolding tracker_market_def json_list_names [OF assms] by (simp add: ms)
qed

lemma clean_plain: "plain_name a \<Longrightarrow> clean_name a = a" "plain_name a \<Longrightarrow> trim_space a = a"
  using plain_not_blank [of a] by (simp_all add: clean_name_def trim_space_def trim_chars_clean)

lemma join_not_nil: "ms \<noteq> [] \<Longrightarrow> plain_name (hd ms) \<Longrightarrow> join_with '','' ms \<noteq> []"
  by (cases ms rule: list.exhaust; cases "tl ms") (auto simp: plain_name_def)

lemma api_takes_first:
  assumes "ms \<noteq> []" and "list_all plain_name ms"
  shows "api_market (join_with '','' ms) = hd ms"
proof -
  have p: "plain_name (hd ms)" and c: "\<And>a. a \<in> set ms \<Longrightarrow> CHR '','' \<notin> set a"
    using assms plain_char by (cases ms; auto simp: list_all_iff)+
  show ?thesis
  proof (cases "tl ms")
    case Nil
    then have ms: "ms = [hd ms]" using assms(1) by (cases ms) auto
    then have "join_with '','' ms = hd ms" by (metis join_with.simps(2))
    moreover have "\<not> has_prefix ''['' (hd ms)" "CHR '','' \<notin> set (hd ms)"
      using p plain_char [OF p] by (cases "hd ms"; auto simp: has_prefix_def)+
    ultimately show ?thesis using clean_plain(2) [OF p] by (simp add: api_market_def)
  next
    case (Cons b bs)
    then have "CHR '','' \<in> set (join_with '','' ms)" using assms(1) by (cases ms) auto
    moreover have "split_on CHR '','' (join_with '','' ms) = ms" by (rule split_join [OF assms(1) c])
    ultimately show ?thesis using clean_plain(2) [OF p] by (simp add: api_market_def)
  qed
qed

text \<open>What the API takes from a JSON list: all up to the first comma, bracket and quotes included.\<close>

definition json_first :: "string list \<Rightarrow> string" where
  "json_first ms = CHR ''['' # quoted (hd ms) @ (if tl ms = [] then '']'' else [])"

lemma trim_space_ends: "\<not> is_blank a \<Longrightarrow> \<not> is_blank b \<Longrightarrow> trim_space (a # s @ [b]) = a # s @ [b]"
  by (simp add: trim_space_def trim_chars_def)

lemma api_misreads_json:
  assumes "ms \<noteq> []" and "list_all plain_name ms"
  shows "api_market (json_list ms) = json_first ms"
proof -
  obtain m r where ms: "ms = m # r" using assms(1) by (cases ms) auto
  have m: "CHR '','' \<notin> set m" using assms(2) plain_char [of m] by (auto simp: ms)
  have b: "\<not> is_blank (CHR ''['')" "\<not> is_blank (CHR '']'')" "\<not> is_blank (CHR 0x22)" by (simp_all add: is_blank_def)
  have trim: "trim_space (json_first ms) = json_first ms"
    using trim_space_ends [OF b(1,2), of "quoted m"] trim_space_ends [OF b(1,3), of "CHR 0x22 # m"]
    by (simp add: json_first_def ms quoted_def)
  show ?thesis
  proof (cases r)
    case Nil
    have "json_list ms = json_first ms" by (simp add: json_list_def json_first_def ms Nil)
    moreover have "CHR '','' \<notin> set (json_list ms)" using m by (simp add: json_list_def ms Nil quoted_def)
    moreover have "CHR '','' \<notin> set (filter (\<lambda>c. c \<noteq> CHR 0x22) (trim_brackets (json_list ms)))"
      using calculation(2) set_trim_chars by (fastforce simp: trim_brackets_def)
    ultimately show ?thesis using trim by (simp add: api_market_def Let_def)
  next
    case (Cons b bs)
    have "json_list ms = json_first ms @ CHR '','' # join_with '','' (map quoted r) @ '']''"
      by (simp add: json_list_def json_first_def ms Cons)
    moreover have "CHR '','' \<notin> set (json_first ms)" using m by (simp add: json_first_def ms Cons quoted_def)
    ultimately have "hd (split_on CHR '','' (json_list ms)) = json_first ms" "CHR '','' \<in> set (json_list ms)"
      by (simp_all add: split_on_append)
    then show ?thesis using trim by (simp add: api_market_def)
  qed
qed

text \<open>C14. Whose market is the first: of a list of names between commas the sequencer's processes work for all, and the state
  tracker and the monitoring API take the first for their keys; of the same list in JSON the tracker still takes the first, but
  the API takes the text up to the first comma, an opening bracket and the first name in its quotes, and for a single name the
  closing bracket too: so it looks at keys that no other process writes.\<close>

theorem market_of_each_process:
  assumes "ms \<noteq> []" and "list_all plain_name ms" and "''0x0'' \<notin> set ms"
    and "env ''DATA_MARKET_ADDRESSES'' \<in> {join_with '','' ms, json_list ms}"
  shows "\<exists>s'. loadDataMarkets L env s = Inr s' \<and> cfDataMarketAddresses s' = ms \<and>
    cfDataMarketContracts s' = map (HexToAddress L) ms \<and> tracker_market (env ''DATA_MARKET_ADDRESSES'') = hd ms \<and>
    api_market (env ''DATA_MARKET_ADDRESSES'') = (if env ''DATA_MARKET_ADDRESSES'' = join_with '','' ms then hd ms
      else [CHR ''['', CHR 0x22] @ hd ms @ [CHR 0x22] @ (if tl ms = [] then '']'' else []))"
proof -
  let ?v = "env ''DATA_MARKET_ADDRESSES''"
  have p: "plain_name (hd ms)" and c: "\<And>a. a \<in> set ms \<Longrightarrow> CHR '','' \<notin> set a"
    using assms(1,2) plain_char by (cases ms; auto simp: list_all_iff)+
  have n: "names_of ?v = (ms, True)" "?v \<noteq> []"
    using assms(4) names_of_json [OF assms(1,2)] names_of_comma [OF assms(1) c p] join_not_nil [OF assms(1) p]
    by (auto simp: json_list_def)
  have "filter (\<lambda>a. a \<noteq> [] \<and> a \<noteq> ''0x0'') (map clean_name ms) = ms"
  proof -
    have all: "plain_name a \<and> a \<noteq> ''0x0''" if "a \<in> set ms" for a using that assms(2,3) by (auto simp: list_all_iff)
    then have "map clean_name ms = ms" by (intro map_idI) (simp add: clean_plain)
    moreover have "filter (\<lambda>a. a \<noteq> [] \<and> a \<noteq> ''0x0'') ms = ms" using all by (simp add: filter_id_conv plain_name_def)
    ultimately show ?thesis by simp
  qed
  moreover have "tracker_market ?v = hd ms"
    using assms(4)
  proof
    assume v: "?v = join_with '','' ms"
    then show ?thesis using join_no_bracket [OF assms(1) p] clean_plain(2) [OF p] split_join [OF assms(1) c]
      by (simp add: tracker_market_def)
  next
    assume "?v \<in> {json_list ms}"
    then show ?thesis using tracker_reads_json [OF assms(1,2)] by simp
  qed
  moreover have "api_market ?v = (if ?v = join_with '','' ms then hd ms
      else [CHR ''['', CHR 0x22] @ hd ms @ [CHR 0x22] @ (if tl ms = [] then '']'' else []))"
    using assms(4) api_takes_first [OF assms(1,2)] api_misreads_json [OF assms(1,2)] by (auto simp: json_first_def quoted_def)
  ultimately show ?thesis using n by (simp add: loadDataMarkets_def)
qed

text \<open>A blank hides a market: of two markets written with a blank after the comma both are among the contracts, but of
  the second market the event monitor, which compares the names as they were written, accepts no event.\<close>

theorem spaced_market_is_ignored:
  assumes "plain_name a" and "plain_name b" and "a \<noteq> b" and "''0x0'' \<notin> {a, b}"
    and "env ''DATA_MARKET_ADDRESSES'' = a @ '', '' @ b"
  shows "\<exists>s'. loadDataMarkets L env s = Inr s' \<and> cfDataMarketContracts s' = map (HexToAddress L) [a, b] \<and>
    (\<forall>m logs. monMarkets m = cfDataMarketAddresses s' \<longrightarrow>
       (\<forall>ev \<in> set (accepted_events L m logs). AddrHex L (EvMarket ev) \<noteq> b))"
proof -
  have e: "env ''DATA_MARKET_ADDRESSES'' = join_with '','' [a, CHR '' '' # b]" using assms(5) by simp
  have n: "names_of (join_with '','' [a, CHR '' '' # b]) = ([a, CHR '' '' # b], True)"
    using plain_char [OF assms(1), of "CHR '',''"] plain_char [OF assms(2), of "CHR '',''"] assms(1)
    by (intro names_of_comma) auto
  have blank: "clean_name (CHR '' '' # b) = b"
  proof -
    have q: "trim_chars is_quote (CHR '' '' # b) = CHR '' '' # b"
      using plain_not_blank [OF assms(2)] by (intro trim_chars_clean) (auto simp: is_quote_def)
    have "dropWhile is_blank (CHR '' '' # b) = b"
      using plain_not_blank [OF assms(2)] by (cases b) (auto simp: is_blank_def)
    moreover have "dropWhile is_blank b = b" "trim_space b = b"
      using plain_not_blank [OF assms(2)] clean_plain(2) [OF assms(2)] by (cases b; auto)+
    ultimately show ?thesis unfolding clean_name_def q by (simp add: trim_space_def trim_chars_def)
  qed
  have l: "loadDataMarkets L env s = Inr (s\<lparr>cfDataMarketAddresses := [a, CHR '' '' # b],
      cfDataMarketContracts := map (HexToAddress L) [a, b]\<rparr>)"
  proof -
    have "a \<noteq> ''0x0''" "b \<noteq> ''0x0''" "a \<noteq> []" "b \<noteq> []" using assms(1,2,4) by (auto simp: plain_name_def)
    then show ?thesis using n blank clean_plain(1) [OF assms(1)] e by (simp add: loadDataMarkets_def)
  qed
  have "AddrHex L (EvMarket ev) \<noteq> b" if "monMarkets m = [a, CHR '' '' # b]" "ev \<in> set (accepted_events L m logs)" for m logs ev
    using that assms(3) by (auto simp: accepted_events_def isValidDataMarket_def)
  with l show ?thesis by simp
qed

theorem market_of_each_process_witness:
  "\<exists>s'. loadDataMarkets demo_lib ((\<lambda>_. [])(''DATA_MARKET_ADDRESSES'' := json_list [''0xa'', ''0xb''])) (read_settings (\<lambda>_. [])) = Inr s' \<and>
     cfDataMarketAddresses s' = [''0xa'', ''0xb''] \<and> tracker_market (json_list [''0xa'', ''0xb'']) = ''0xa'' \<and>
     api_market (json_list [''0xa'', ''0xb'']) = [CHR ''['', CHR 0x22, CHR ''0'', CHR ''x'', CHR ''a'', CHR 0x22]"
proof -
  let ?env = "(\<lambda>_. [])(''DATA_MARKET_ADDRESSES'' := json_list [''0xa'', ''0xb''])"
  have p: "list_all plain_name [''0xa'', ''0xb'']" by (simp add: plain_name_def)
  have "json_list [''0xa'', ''0xb''] \<noteq> join_with '','' [''0xa'', ''0xb'']" by (simp add: json_list_def)
  then show ?thesis
    using market_of_each_process [of "[''0xa'', ''0xb'']" ?env demo_lib "read_settings (\<lambda>_. [])", OF _ p] by auto
qed

theorem spaced_market_is_ignored_witness:
  "\<exists>s'. loadDataMarkets demo_lib ((\<lambda>_. [])(''DATA_MARKET_ADDRESSES'' := ''0xa, 0xb'')) (read_settings (\<lambda>_. [])) = Inr s' \<and>
     cfDataMarketContracts s' = map (HexToAddress demo_lib) [''0xa'', ''0xb'']"
proof -
  have "plain_name ''0xa''" "plain_name ''0xb''" by (simp_all add: plain_name_def)
  from spaced_market_is_ignored [OF this, of "(\<lambda>_. [])(''DATA_MARKET_ADDRESSES'' := ''0xa, 0xb'')" demo_lib "read_settings (\<lambda>_. [])"]
  obtain s' where "loadDataMarkets demo_lib ((\<lambda>_. [])(''DATA_MARKET_ADDRESSES'' := ''0xa, 0xb'')) (read_settings (\<lambda>_. [])) = Inr s'"
    "cfDataMarketContracts s' = map (HexToAddress demo_lib) [''0xa'', ''0xb'']" by auto
  then show ?thesis by blast
qed

end
