(* ===== verification/Writer.thy ===== *)
theory Writer
  imports Metrics Events
begin

text \<open>
  \<open>pkgs/metrics/writer.go\<close>: the writer, which buffers exported metrics and sends them to Redis streams with an index,
  and answers queries from these. Its lock makes each operation one step; the timer and the tickers call
  \<open>flushBatch\<close> and \<open>enforceRetention\<close> at any time. \<open>MAXLEN ~\<close> leaves to Redis when to trim, so the model does not.
  Where an error is returned the result is \<open>False\<close>.
\<close>

record collectorConfig =
  ccRedisAddr :: string
  ccRedisPassword :: string
  ccRedisDB :: int
  ccRedisKeyPrefix :: string
  ccCollectionInterval :: int
  ccBatchSize :: int
  ccFlushInterval :: int
  ccRetentionPeriod :: int
  ccStreamMaxLen :: int
  ccStreamKey :: string
  ccEnablePrometheus :: bool
  ccPrometheusPath :: string
  ccPrometheusPort :: int

record timeWindow =
  twStart :: int
  twEnd :: int
  twDuration :: int

record aggregatedMetric =
  amName :: string
  amWindow :: timeWindow
  amLabels :: labels
  amAggregates :: "(aggregationType, float64) gomap"
  amCount :: int

text \<open>\<open>None\<close> is the zero time.\<close>

record metricQuery =
  qrNames :: "string list"
  qrLabels :: labels
  qrSince :: "int option"
  qrUntil :: "int option"
  qrAggregations :: "aggregationType list"
  qrGroupBy :: "string list"

record writer =
  wrConfig :: collectorConfig
  wrBatch :: "metricExport list"
  wrTimer :: bool
  wrCancelled :: bool
  wrBytesWritten :: u64
  wrWritesSuccess :: u64
  wrWritesFailed :: u64

text \<open>A slice of negative capacity panics.\<close>

definition NewWriter :: "collectorConfig \<Rightarrow> writer option prog" where
  "NewWriter config = Call RPing (\<lambda>r.
     if r = ErrR then Ret None
     else if ccBatchSize config < 0 then Panic
     else Ret (Some \<lparr>wrConfig = config, wrBatch = [], wrTimer = False, wrCancelled = False,
       wrBytesWritten = 0, wrWritesSuccess = 0, wrWritesFailed = 0\<rparr>))"

section \<open>Metrics as JSON\<close>

definition enc_labels :: "labels \<Rightarrow> json" where
  "enc_labels ls = JObj (map (\<lambda>k. (k, JStr (mget [] ls k))) (sort (map fst ls)))"

definition omit_float :: "string \<Rightarrow> float64 \<Rightarrow> (string \<times> json) list" where
  "omit_float k x = omit (x = Fin 0) k (enc_float x)"

definition enc_bound :: "float64 \<times> u64 \<Rightarrow> json" where
  "enc_bound b = JObj [(''upper_bound'', enc_float (fst b)), (''count'', JNum (uint (snd b)))]"

definition enc_percentile :: "float64 \<times> float64 \<Rightarrow> json" where
  "enc_percentile p = JObj [(''percentile'', enc_float (fst p)), (''value'', enc_float (snd p))]"

definition enc_export :: "golib \<Rightarrow> metricExport \<Rightarrow> json" where
  "enc_export L m = JObj ([(''name'', JStr (exName m)), (''type'', JStr (exType m)), (''help'', JStr (exHelp m))] @
     omit (exLabels m = []) ''labels'' (enc_labels (exLabels m)) @
     [(''value'', enc_float (exValue m)), (''timestamp'', JStr (TimeText L (exTimestamp m)))] @
     omit (exBuckets m = []) ''buckets'' (JArr (map enc_bound (exBuckets m))) @
     omit (exPercentiles m = []) ''percentiles'' (JArr (map enc_percentile (exPercentiles m))) @
     omit_float ''rate'' (exRate m) @ omit (exCount m = 0) ''count'' (JNum (uint (exCount m))) @
     omit_float ''sum'' (exSum m))"

fun agg_name :: "aggregationType \<Rightarrow> string" where
  "agg_name AggSum = ''sum''"
| "agg_name AggAvg = ''avg''"
| "agg_name AggMin = ''min''"
| "agg_name AggMax = ''max''"
| "agg_name AggCount = ''count''"
| "agg_name AggP50 = ''p50''"
| "agg_name AggP90 = ''p90''"
| "agg_name AggP95 = ''p95''"
| "agg_name AggP99 = ''p99''"
| "agg_name (AggOther s) = s"

definition enc_aggregated :: "golib \<Rightarrow> aggregatedMetric \<Rightarrow> json" where
  "enc_aggregated L m = JObj ([(''name'', JStr (amName m)),
     (''window'', JObj [(''Start'', JStr (TimeText L (twStart (amWindow m)))), (''End'', JStr (TimeText L (twEnd (amWindow m)))),
       (''Duration'', JNum (twDuration (amWindow m)))])] @
     omit (amLabels m = []) ''labels'' (enc_labels (amLabels m)) @
     [(''aggregates'', JObj (map (\<lambda>(a, x). (agg_name a, enc_float x)) (sort_key (\<lambda>x. agg_name (fst x)) (amAggregates m)))),
      (''count'', JNum (amCount m))])"

text \<open>The length of the marshalled text.\<close>

definition data_len :: "json \<Rightarrow> u64" where
  "data_len j = of_nat (length (show_json j))"

text \<open>\<open>time.Duration.String\<close>: hours, minutes and seconds with a fraction; below a second a smaller unit.\<close>

definition fraction_text :: "nat \<Rightarrow> nat \<Rightarrow> string" where
  "fraction_text prec f =
     (if f = 0 then [] else CHR ''.'' # strip_zeros (replicate (prec - length (show_nat f)) CHR ''0'' @ show_nat f))"

definition span_text :: "nat \<Rightarrow> string" where
  "span_text u =
     (if u = 0 then ''0s''
      else if u < 1000 then show_nat u @ ''ns''
      else if u < 1000000 then show_nat (u div 1000) @ fraction_text 3 (u mod 1000) @ [CHR 0xC2, CHR 0xB5] @ ''s''
      else if u < 1000000000 then show_nat (u div 1000000) @ fraction_text 6 (u mod 1000000) @ ''ms''
      else
        let s = u div 1000000000; m = s div 60;
            out = show_nat (s mod 60) @ fraction_text 9 (u mod 1000000000) @ ''s'' in
        if m = 0 then out
        else if m < 60 then show_nat m @ ''m'' @ out
        else show_nat (m div 60) @ ''h'' @ show_nat (m mod 60) @ ''m'' @ out)"

definition DurationText :: "int \<Rightarrow> string" where
  "DurationText d = (if d < 0 then CHR ''-'' # span_text (nat (- d)) else span_text (nat d))"

section \<open>Writing\<close>

definition unix :: "int \<Rightarrow> int" where
  "unix t = t div 1000000000"

definition type_stream :: "collectorConfig \<Rightarrow> string \<Rightarrow> string" where
  "type_stream c ty = ccStreamKey c @ '':'' @ ty"

definition index_key :: "collectorConfig \<Rightarrow> string \<Rightarrow> string \<Rightarrow> string" where
  "index_key c kind name = ccRedisKeyPrefix c @ '':index:'' @ kind @ '':'' @ name"

definition updateIndex :: "range_order \<Rightarrow> collectorConfig \<Rightarrow> metricExport \<Rightarrow> call list" where
  "updateIndex ro c m =
     (let score = unix (exTimestamp m); recentKey = ccRedisKeyPrefix c @ '':recent'' in
      [RZAdd (index_key c ''name'' (exName m)) score (labelsToString ro (exLabels m)),
       RZAdd (index_key c ''type'' (exType m)) score (exName m)] @
      map (\<lambda>(k, v). RZAdd (index_key c ''label'' (k @ '':'' @ v)) score (exName m)) (range_map ro ''label_index'' (exLabels m)) @
      [RLPush recentKey (Txt (exName m @ '':'' @ labelsToString ro (exLabels m))), RLTrim recentKey 1000])"

definition entry_of :: "golib \<Rightarrow> range_order \<Rightarrow> metricExport \<Rightarrow> (string \<times> blob) list" where
  "entry_of L ro m =
     [(''name'', Txt (exName m)), (''type'', Txt (exType m)), (''labels'', Txt (labelsToString ro (exLabels m))),
      (''value'', Js (enc_float (exValue m))), (''data'', Js (enc_export L m)), (''timestamp'', Js (JNum (unix (exTimestamp m))))]"

text \<open>A metric that cannot be marshalled is skipped.\<close>

definition metric_calls :: "golib \<Rightarrow> range_order \<Rightarrow> collectorConfig \<Rightarrow> string \<Rightarrow> metricExport \<Rightarrow> call list" where
  "metric_calls L ro c ty m =
     (if marshals (enc_export L m) then RXAdd (type_stream c ty) (entry_of L ro m) # updateIndex ro c m else [])"

definition metric_bytes :: "golib \<Rightarrow> metricExport \<Rightarrow> u64" where
  "metric_bytes L m = (if marshals (enc_export L m) then data_len (enc_export L m) else 0)"

definition group_by_type :: "metricExport list \<Rightarrow> (string, metricExport list) gomap" where
  "group_by_type ms = fold (\<lambda>m g. AList.update (exType m) (mget [] g (exType m) @ [m]) g) ms []"

text \<open>
  Calls go out under the writer's context: once it is cancelled they fail without reaching Redis. Executing an
  empty pipeline asks nothing.
\<close>

definition exec_call :: "bool \<Rightarrow> call \<Rightarrow> reply prog" where
  "exec_call cancelled c = (if cancelled then Ret ErrR else Call c Ret)"

definition exec_pipe :: "bool \<Rightarrow> call list \<Rightarrow> reply prog" where
  "exec_pipe cancelled cs = (if cs = [] then Ret OkR else exec_call cancelled (RPipe cs))"

fun flush_types ::
  "golib \<Rightarrow> range_order \<Rightarrow> (string \<times> metricExport list) list \<Rightarrow> writer \<Rightarrow> (bool \<times> writer) prog" where
  "flush_types L ro [] w = Ret (True, w\<lparr>wrBatch := []\<rparr>)"
| "flush_types L ro ((ty, ms) # rest) w =
     (let w1 = w\<lparr>wrBytesWritten := wrBytesWritten w + sum_list (map (metric_bytes L) ms)\<rparr> in
      bindp (exec_pipe (wrCancelled w) (concat (map (metric_calls L ro (wrConfig w) ty) ms))) (\<lambda>r.
        if r = ErrR then Ret (False, w1\<lparr>wrWritesFailed := wrWritesFailed w1 + of_nat (length ms)\<rparr>)
        else flush_types L ro rest (w1\<lparr>wrWritesSuccess := wrWritesSuccess w1 + of_nat (length ms)\<rparr>)))"

definition flushBatchLocked :: "golib \<Rightarrow> range_order \<Rightarrow> writer \<Rightarrow> (bool \<times> writer) prog" where
  "flushBatchLocked L ro w =
     (if wrBatch w = [] then Ret (True, w)
      else flush_types L ro (range_map ro ''byType'' (group_by_type (wrBatch w))) (w\<lparr>wrTimer := False\<rparr>))"

definition flushBatch :: "golib \<Rightarrow> range_order \<Rightarrow> writer \<Rightarrow> writer prog" where
  "flushBatch L ro w = bindp (flushBatchLocked L ro w) (\<lambda>(ok, w'). Ret w')"

definition WriteBatch :: "golib \<Rightarrow> range_order \<Rightarrow> metricExport list \<Rightarrow> writer \<Rightarrow> (bool \<times> writer) prog" where
  "WriteBatch L ro metrics w =
     (let w1 = w\<lparr>wrBatch := wrBatch w @ metrics\<rparr> in
      if ccBatchSize (wrConfig w) \<le> int (length (wrBatch w1)) then flushBatchLocked L ro w1
      else Ret (True, w1\<lparr>wrTimer := True\<rparr>))"

definition WriteMetric :: "golib \<Rightarrow> range_order \<Rightarrow> metricExport \<Rightarrow> writer \<Rightarrow> (bool \<times> writer) prog" where
  "WriteMetric L ro m w = WriteBatch L ro [m] w"

definition WriteAggregated :: "golib \<Rightarrow> range_order \<Rightarrow> aggregatedMetric \<Rightarrow> writer \<Rightarrow> (bool \<times> writer) prog" where
  "WriteAggregated L ro m w =
     (let c = wrConfig w; window = DurationText (twDuration (amWindow m)); data = enc_aggregated L m in
      if \<not> marshals data then Ret (False, w)
      else
        bindp (exec_call (wrCancelled w) (RXAdd (ccStreamKey c @ '':aggregated:'' @ window)
            [(''metric'', Txt (amName m)), (''window'', Txt window), (''data'', Js data),
             (''timestamp'', Js (JNum (unix (twEnd (amWindow m)))))])) (\<lambda>r.
          if r = ErrR then Ret (False, w\<lparr>wrWritesFailed := wrWritesFailed w + 1\<rparr>)
          else
            bindp (exec_call (wrCancelled w) (RZAdd (ccRedisKeyPrefix c @ '':index:aggregated'') (unix (twEnd (amWindow m)))
                (amName m @ '':'' @ labelsToString ro (amLabels m)))) (\<lambda>_.
            Ret (True, w\<lparr>wrWritesSuccess := wrWritesSuccess w + 1, wrBytesWritten := wrBytesWritten w + data_len data\<rparr>))))"

text \<open>Stopping cancels the context and then flushes.\<close>

definition Stop_writer :: "golib \<Rightarrow> range_order \<Rightarrow> writer \<Rightarrow> writer prog" where
  "Stop_writer L ro w = flushBatch L ro (w\<lparr>wrCancelled := True\<rparr>)"

section \<open>Scanning and retention\<close>

text \<open>A scan ends when the cursor is 0 again; \<open>None\<close> is an error or the end of the fuel.\<close>

fun scanKeys_writer :: "nat \<Rightarrow> nat \<Rightarrow> string \<Rightarrow> string list \<Rightarrow> string list option prog" where
  "scanKeys_writer 0 cursor pattern ks = Ret None"
| "scanKeys_writer (Suc n) cursor pattern ks =
     Call (RScan cursor pattern) (\<lambda>r. case r of
       ScanR found next \<Rightarrow> if next = 0 then Ret (Some (ks @ found)) else scanKeys_writer n next pattern (ks @ found)
     | _ \<Rightarrow> Ret None)"

definition enforceRetention :: "nat \<Rightarrow> writer \<Rightarrow> unit prog" where
  "enforceRetention fuel w =
     (let c = wrConfig w in
      if ccRetentionPeriod c = 0 \<or> wrCancelled w then Ret ()
      else
        Call NowNano (\<lambda>t.
        let cutoff = unix (int_of t - ccRetentionPeriod c) in
        bindp (scanKeys_writer fuel 0 (ccStreamKey c @ '':*'') []) (\<lambda>streams. case streams of
          None \<Rightarrow> Ret ()
        | Some ss \<Rightarrow>
            bindp (execs (map (\<lambda>k. RXTrimMin k (cutoff * 1000)) ss)) (\<lambda>_.
            bindp (scanKeys_writer fuel 0 (ccRedisKeyPrefix c @ '':index:*'') []) (\<lambda>indexes. case indexes of
              None \<Rightarrow> Ret ()
            | Some ks \<Rightarrow> execs (map (\<lambda>k. RZRemTo k cutoff) ks))))))"

section \<open>Queries\<close>

fun dec_float :: "float64 dec" where
  "dec_float cur (JNum n) = (case f_of_int n of Fin q \<Rightarrow> (Fin q, True) | _ \<Rightarrow> (cur, False))"
| "dec_float cur (JFlt x) = (x, True)"
| "dec_float cur JNull = (cur, True)"
| "dec_float cur _ = (cur, False)"

definition dec_time :: "golib \<Rightarrow> int dec" where
  "dec_time L cur j = (case j of
       JStr s \<Rightarrow> (case ParseTime L s of Some t \<Rightarrow> (t, True) | None \<Rightarrow> (cur, False))
     | JNull \<Rightarrow> (cur, True)
     | _ \<Rightarrow> (cur, False))"

definition dec_pair :: "string \<Rightarrow> 'a dec \<Rightarrow> string \<Rightarrow> 'b dec \<Rightarrow> ('a \<times> 'b) dec" where
  "dec_pair n1 d1 n2 d2 cur j = (case j of
       JObj kvs \<Rightarrow>
         let (a, ok1) = dec_field n1 d1 kvs (fst cur); (b, ok2) = dec_field n2 d2 kvs (snd cur) in ((a, b), ok1 \<and> ok2)
     | JNull \<Rightarrow> (cur, True)
     | _ \<Rightarrow> (cur, False))"

text \<open>The stored text read back into an export; \<open>None\<close> where it does not fit.\<close>

definition dec_export :: "golib \<Rightarrow> json \<Rightarrow> metricExport option" where
  "dec_export L j = (case j of
       JObj kvs \<Rightarrow>
         let (n, k1) = dec_field ''name'' dec_str kvs []; (ty, k2) = dec_field ''type'' dec_str kvs [];
             (hp, k3) = dec_field ''help'' dec_str kvs []; (ls, k4) = dec_field ''labels'' (dec_map [] dec_str) kvs [];
             (v, k5) = dec_field ''value'' dec_float kvs (Fin 0); (t, k6) = dec_field ''timestamp'' (dec_time L) kvs zero_time;
             (bs, k7) = dec_field ''buckets'' (dec_list (Fin 0, 0) (dec_pair ''upper_bound'' dec_float ''count'' dec_u64)) kvs [];
             (ps, k8) = dec_field ''percentiles'' (dec_list (Fin 0, Fin 0) (dec_pair ''percentile'' dec_float ''value'' dec_float)) kvs [];
             (r, k9) = dec_field ''rate'' dec_float kvs (Fin 0); (c, k10) = dec_field ''count'' dec_u64 kvs 0;
             (s, k11) = dec_field ''sum'' dec_float kvs (Fin 0) in
         if k1 \<and> k2 \<and> k3 \<and> k4 \<and> k5 \<and> k6 \<and> k7 \<and> k8 \<and> k9 \<and> k10 \<and> k11
         then Some \<lparr>exName = n, exType = ty, exHelp = hp, exLabels = ls, exValue = v, exTimestamp = t, exBuckets = bs,
           exPercentiles = ps, exRate = r, exCount = c, exSum = s\<rparr>
         else None
     | JNull \<Rightarrow> Some zero_export
     | _ \<Rightarrow> None)"

definition matchLabels :: "labels \<Rightarrow> labels \<Rightarrow> bool" where
  "matchLabels metricLabels queryLabels \<longleftrightarrow> list_all (\<lambda>(k, v). mget [] metricLabels k = v) queryLabels"

text \<open>The percentiles that the code leaves out are simply missing from the result.\<close>

fun aggregate_step :: "float64 list \<Rightarrow> aggregationType \<Rightarrow> (aggregationType, float64) gomap \<Rightarrow> (aggregationType, float64) gomap" where
  "aggregate_step vs AggSum m = AList.update AggSum (sum_values vs) m"
| "aggregate_step vs AggAvg m = AList.update AggAvg (fdiv (sum_values vs) (f_of_int (int (length vs)))) m"
| "aggregate_step vs AggMin m = AList.update AggMin (min_value vs) m"
| "aggregate_step vs AggMax m = AList.update AggMax (max_value vs) m"
| "aggregate_step vs AggCount m = AList.update AggCount (f_of_int (int (length vs))) m"
| "aggregate_step vs _ m = m"

definition computeAggregates :: "float64 list \<Rightarrow> aggregationType list \<Rightarrow> (aggregationType, float64) gomap" where
  "computeAggregates vs types = (if vs = [] then [] else fold (aggregate_step vs) types [])"

definition readStream :: "string \<Rightarrow> int option \<Rightarrow> int option \<Rightarrow> (string \<times> blob) list list option prog" where
  "readStream key since until =
     Call (RXRange key (map_option (\<lambda>t. unix t * 1000) since) (map_option (\<lambda>t. unix t * 1000) until)) (\<lambda>r.
       Ret (case r of EntriesR es \<Rightarrow> Some es | _ \<Rightarrow> None))"

definition entry_point :: "golib \<Rightarrow> labels \<Rightarrow> (string \<times> blob) list \<Rightarrow> metricExport option" where
  "entry_point L queryLabels e =
     Option.bind (Option.bind (map_of e ''data'') unmarshal) (\<lambda>j.
     Option.bind (dec_export L j) (\<lambda>m. if matchLabels (exLabels m) queryLabels then Some m else None))"

definition query_stream :: "golib \<Rightarrow> metricQuery \<Rightarrow> string \<Rightarrow> aggregatedMetric list \<Rightarrow> aggregatedMetric list prog" where
  "query_stream L q key ms =
     bindp (readStream key (qrSince q) (qrUntil q)) (\<lambda>entries.
       let points = List.map_filter (entry_point L (qrLabels q)) (case entries of None \<Rightarrow> [] | Some es \<Rightarrow> es);
           time = (\<lambda>t. case t of None \<Rightarrow> zero_time | Some x \<Rightarrow> x) in
       Ret (if points = [] then ms
         else ms @ [\<lparr>amName = key, amWindow = \<lparr>twStart = time (qrSince q), twEnd = time (qrUntil q), twDuration = 0\<rparr>,
           amLabels = [], amAggregates = computeAggregates (map exValue points) (qrAggregations q),
           amCount = int (length points)\<rparr>]))"

fun named_streams :: "nat \<Rightarrow> collectorConfig \<Rightarrow> string list \<Rightarrow> string list \<Rightarrow> string list option prog" where
  "named_streams fuel c [] ks = Ret (Some ks)"
| "named_streams fuel c (n # names) ks =
     bindp (scanKeys_writer fuel 0 (index_key c ''name'' n) []) (\<lambda>r. case r of
       None \<Rightarrow> Ret None
     | Some found \<Rightarrow> named_streams fuel c names (ks @ found))"

definition Query_writer :: "golib \<Rightarrow> nat \<Rightarrow> metricQuery \<Rightarrow> writer \<Rightarrow> aggregatedMetric list option prog" where
  "Query_writer L fuel q w =
     (let c = wrConfig w in
      if wrCancelled w then Ret None
      else bindp (if qrNames q \<noteq> [] then named_streams fuel c (qrNames q) []
          else scanKeys_writer fuel 0 (ccStreamKey c @ '':*'') []) (\<lambda>keys. case keys of
        None \<Rightarrow> Ret None
      | Some ks \<Rightarrow> bindp (for_each (query_stream L q) ks []) (\<lambda>ms. Ret (Some ms))))"

end
