(* ===== verification/Collector.thy ===== *)
theory Collector
  imports Writer
begin

text \<open>
  \<open>pkgs/metrics/collector.go\<close>: the collector, which turns events into metrics of a registry, exports these to the
  writer at intervals, and writes aggregations of their points. Each turn of its three loops is an operation here.
  Its own counters are entries of the registry, from which nothing is ever removed. The payload of an event is the
  text that \<open>NewEvent\<close> marshalled.
\<close>

record collector =
  clRegistry :: registry
  clWriter :: writer
  clConfig :: collectorConfig
  clEventChan :: "event list"
  clStopped :: bool

definition DefaultCollectorConfig :: collectorConfig where
  "DefaultCollectorConfig = \<lparr>ccRedisAddr = '''', ccRedisPassword = '''', ccRedisDB = 0, ccRedisKeyPrefix = '''',
     ccCollectionInterval = 10 * 10 ^ 9, ccBatchSize = 100, ccFlushInterval = 100 * 10 ^ 6,
     ccRetentionPeriod = 24 * 3600 * 10 ^ 9, ccStreamMaxLen = 100000, ccStreamKey = ''metrics:stream'',
     ccEnablePrometheus = False, ccPrometheusPath = '''', ccPrometheusPort = 0\<rparr>"

definition metric_config :: "string \<Rightarrow> string \<Rightarrow> labels \<Rightarrow> metricConfig" where
  "metric_config name ty ls = \<lparr>mcName = name, mcType = ty, mcHelp = '''', mcLabels = ls, mcBuckets = [], mcWindow = 0, mcMaxAge = 0\<rparr>"

definition register_own :: "string \<Rightarrow> string \<Rightarrow> registry \<Rightarrow> registry" where
  "register_own name help r = snd (Register ((metric_config name ''counter'' [])\<lparr>mcHelp := help\<rparr>) r)"

definition NewCollector :: "collectorConfig option \<Rightarrow> collector option prog" where
  "NewCollector config =
     (let cfg = (case config of None \<Rightarrow> DefaultCollectorConfig | Some c \<Rightarrow> c) in
      bindp (NewWriter cfg) (\<lambda>w. Ret (map_option (\<lambda>w.
        \<lparr>clRegistry = register_own ''metrics.errors.total'' ''Total collection errors''
           (register_own ''metrics.dropped.total'' ''Total metrics dropped''
           (register_own ''metrics.collected.total'' ''Total metrics collected'' NewRegistry)),
         clWriter = w, clConfig = cfg, clEventChan = [], clStopped = False\<rparr>) w)))"

section \<open>Updating metrics\<close>

datatype metricUpdate = Increment | Advance float64 | SetTo float64 | Observe float64 | Mark

fun metric_type :: "metric \<Rightarrow> string" where
  "metric_type (MCounter c) = ''counter''"
| "metric_type (MGauge g) = ''gauge''"
| "metric_type (MHistogram h) = ''histogram''"
| "metric_type (MRate r) = ''rate''"
| "metric_type (MSummary s) = ''summary''"

fun apply_update :: "metricUpdate \<Rightarrow> int \<Rightarrow> metric \<Rightarrow> metric option" where
  "apply_update Increment now (MCounter c) = Some (MCounter (Counter_Inc now c))"
| "apply_update (Advance x) now (MCounter c) = Some (MCounter (Counter_Add x now c))"
| "apply_update (SetTo x) now (MGauge g) = Some (MGauge (Gauge_Set x now g))"
| "apply_update (Observe x) now (MHistogram h) = map_option MHistogram (Histogram_Observe x now h)"
| "apply_update Mark now (MRate r) = Some (MRate (Rate_Mark now r))"
| "apply_update u now m = Some m"

definition put_metric :: "string \<Rightarrow> metric \<Rightarrow> registry \<Rightarrow> registry" where
  "put_metric key m r = r\<lparr>rgMetrics := AList.update key m (rgMetrics r)\<rparr>"

text \<open>The metric of a configuration is found or made; where its key belongs to a metric of another type nothing happens.\<close>

definition update_metric :: "metricConfig \<Rightarrow> metricUpdate \<Rightarrow> registry \<Rightarrow> registry prog" where
  "update_metric cfg u r =
     (case Registry_GetOrCreate cfg r of
        (None, r1) \<Rightarrow> Ret r1
      | (Some m, r1) \<Rightarrow>
          if metric_type m = mcType cfg
          then Call NowNano (\<lambda>t. or_panic (apply_update u (int_of t) m) (\<lambda>m'.
            Ret (put_metric (metricKey (mcName cfg) (mcLabels cfg)) m' r1)))
          else Ret r1)"

text \<open>An update of one of the collector's own counters.\<close>

definition bump :: "string \<Rightarrow> metricUpdate \<Rightarrow> collector \<Rightarrow> collector prog" where
  "bump name u c =
     or_panic (map_of (rgMetrics (clRegistry c)) (metricKey name [])) (\<lambda>m.
     Call NowNano (\<lambda>t. or_panic (apply_update u (int_of t) m) (\<lambda>m'.
       Ret (c\<lparr>clRegistry := put_metric (metricKey name []) m' (clRegistry c)\<rparr>))))"

definition on_registry :: "(registry \<Rightarrow> registry prog) \<Rightarrow> collector \<Rightarrow> collector prog" where
  "on_registry f c = bindp (f (clRegistry c)) (\<lambda>r. Ret (c\<lparr>clRegistry := r\<rparr>))"

definition RegisterMetric :: "metricConfig \<Rightarrow> collector \<Rightarrow> metric option \<times> collector" where
  "RegisterMetric cfg c = (let (m, r) = Register cfg (clRegistry c) in (m, c\<lparr>clRegistry := r\<rparr>))"

definition GetMetric :: "string \<Rightarrow> labels \<Rightarrow> collector \<Rightarrow> metric option" where
  "GetMetric name ls c = Get name ls (clRegistry c)"

definition GetOrCreateMetric :: "metricConfig \<Rightarrow> collector \<Rightarrow> metric option \<times> collector" where
  "GetOrCreateMetric cfg c = (let (m, r) = Registry_GetOrCreate cfg (clRegistry c) in (m, c\<lparr>clRegistry := r\<rparr>))"

definition IncrementCounter :: "string \<Rightarrow> labels \<Rightarrow> collector \<Rightarrow> collector prog" where
  "IncrementCounter name ls = on_registry (update_metric (metric_config name ''counter'' ls) Increment)"

definition SetGauge :: "string \<Rightarrow> float64 \<Rightarrow> labels \<Rightarrow> collector \<Rightarrow> collector prog" where
  "SetGauge name v ls = on_registry (update_metric (metric_config name ''gauge'' ls) (SetTo v))"

definition ObserveHistogram :: "string \<Rightarrow> float64 \<Rightarrow> labels \<Rightarrow> collector \<Rightarrow> collector prog" where
  "ObserveHistogram name v ls = on_registry (update_metric (metric_config name ''histogram'' ls) (Observe v))"

definition rate_config :: "string \<Rightarrow> labels \<Rightarrow> metricConfig" where
  "rate_config name ls = (metric_config name ''rate'' ls)\<lparr>mcWindow := minute\<rparr>"

definition MarkRate :: "string \<Rightarrow> labels \<Rightarrow> collector \<Rightarrow> collector prog" where
  "MarkRate name ls = on_registry (update_metric (rate_config name ls) Mark)"

section \<open>Events\<close>

text \<open>The fields of a payload's struct: a field of the wrong type is an error, one that is missing its zero value.\<close>

datatype fieldKind = KStr | KInt | KBool | KStrs | KTime

fun fits :: "golib \<Rightarrow> fieldKind \<Rightarrow> json \<Rightarrow> bool" where
  "fits L KStr j = snd (dec_str [] j)"
| "fits L KInt j = snd (dec_int 0 j)"
| "fits L KBool j = snd (dec_bool False j)"
| "fits L KStrs j = snd (dec_list [] dec_str [] j)"
| "fits L KTime j = snd (dec_time L zero_time j)"

definition payload_of :: "golib \<Rightarrow> (string \<times> fieldKind) list \<Rightarrow> json \<Rightarrow> (string, json) gomap option" where
  "payload_of L fs j = (case j of
       JObj kvs \<Rightarrow>
         if list_all (\<lambda>(n, k). case field n kvs of None \<Rightarrow> True | Some v \<Rightarrow> fits L k v) fs then Some kvs else None
     | JNull \<Rightarrow> Some []
     | _ \<Rightarrow> None)"

definition payload_int :: "string \<Rightarrow> (string, json) gomap \<Rightarrow> int" where
  "payload_int n kvs = fst (dec_field n dec_int kvs 0)"

definition payload_str :: "string \<Rightarrow> (string, json) gomap \<Rightarrow> string" where
  "payload_str n kvs = fst (dec_field n dec_str kvs [])"

definition finalization_fields :: "(string \<times> fieldKind) list" where
  "finalization_fields = [(''epoch_id'', KStr), (''batch_id'', KStr), (''part_id'', KInt), (''total_parts'', KInt),
     (''project_count'', KInt), (''merkle_root'', KStr), (''project_ids'', KStrs), (''duration_ms'', KInt)]"

definition aggregation_fields :: "(string \<times> fieldKind) list" where
  "aggregation_fields = [(''epoch_id'', KStr), (''level'', KInt), (''batch_count'', KInt), (''validator_count'', KInt),
     (''project_count'', KInt), (''consensus_reached'', KBool), (''duration_ms'', KInt), (''validator_ids'', KStrs)]"

definition queue_fields :: "(string \<times> fieldKind) list" where
  "queue_fields = [(''queue_name'', KStr), (''current_depth'', KInt), (''previous_depth'', KInt), (''delta'', KInt),
     (''threshold'', KInt), (''alert_level'', KStr)]"

definition worker_fields :: "(string \<times> fieldKind) list" where
  "worker_fields = [(''worker_type'', KStr), (''worker_id'', KStr), (''previous_status'', KStr), (''current_status'', KStr),
     (''batches_processed'', KInt), (''last_activity'', KTime), (''error_count'', KInt), (''uptime_seconds'', KInt)]"

definition ipfs_fields :: "(string \<times> fieldKind) list" where
  "ipfs_fields = [(''cid'', KStr), (''size'', KInt), (''type'', KStr), (''epoch_id'', KStr), (''duration_ms'', KInt)]"

definition epoch_fields :: "(string \<times> fieldKind) list" where
  "epoch_fields = [(''epoch_id'', KStr), (''start_time'', KInt), (''end_time'', KInt), (''duration_ms'', KInt)]"

definition event_labels :: "event \<Rightarrow> labels" where
  "event_labels e = [(''component'', evComponent e), (''protocol'', evProtocol e), (''datamarket'', evDataMarket e)]"

text \<open>A duration goes into a histogram when the payload has the struct's shape and the duration is positive.\<close>

definition observe_duration ::
  "golib \<Rightarrow> (string \<times> fieldKind) list \<Rightarrow> string \<Rightarrow> event \<Rightarrow> registry \<Rightarrow> registry prog" where
  "observe_duration L fs name e r =
     (case payload_of L fs (evPayload e) of
        None \<Rightarrow> Ret r
      | Some p \<Rightarrow>
          let d = payload_int ''duration_ms'' p in
          if 0 < d then update_metric (metric_config name ''histogram'' (event_labels e)) (Observe (f_of_int d)) r
          else Ret r)"

text \<open>The level's label is put into the map of the event's labels, so the second metric has it too.\<close>

definition aggregation_completed :: "golib \<Rightarrow> event \<Rightarrow> registry \<Rightarrow> registry prog" where
  "aggregation_completed L e r =
     (case payload_of L aggregation_fields (evPayload e) of
        None \<Rightarrow> Ret r
      | Some p \<Rightarrow>
          let level = payload_int ''level'' p; ls = AList.update ''level'' (show_int level) (event_labels e);
              d = payload_int ''duration_ms'' p; n = payload_int ''validator_count'' p in
          bindp (if 0 < d then update_metric (metric_config ''aggregation.duration'' ''histogram'' ls) (Observe (f_of_int d)) r
            else Ret r) (\<lambda>r.
          if level = 2 \<and> 0 < n
          then update_metric (metric_config ''validator.participation.count'' ''gauge'' ls) (SetTo (f_of_int n)) r
          else Ret r))"

definition queue_changed :: "golib \<Rightarrow> event \<Rightarrow> registry \<Rightarrow> registry prog" where
  "queue_changed L e r =
     (case payload_of L queue_fields (evPayload e) of
        None \<Rightarrow> Ret r
      | Some p \<Rightarrow>
          let ls = AList.update ''queue'' (payload_str ''queue_name'' p) (event_labels e) in
          update_metric (metric_config ''queue.depth'' ''gauge'' ls) (SetTo (f_of_int (payload_int ''current_depth'' p))) r)"

definition worker_changed :: "golib \<Rightarrow> event \<Rightarrow> registry \<Rightarrow> registry prog" where
  "worker_changed L e r =
     (case payload_of L worker_fields (evPayload e) of
        None \<Rightarrow> Ret r
      | Some p \<Rightarrow>
          let ls = AList.update ''worker_id'' (payload_str ''worker_id'' p)
                (AList.update ''worker_type'' (payload_str ''worker_type'' p) (event_labels e));
              utilization = (if payload_str ''current_status'' p = ''busy'' then Fin 1 else Fin 0) in
          update_metric (metric_config ''worker.utilization'' ''gauge'' ls) (SetTo utilization) r)"

definition updateMetricsFromEvent :: "golib \<Rightarrow> event \<Rightarrow> registry \<Rightarrow> registry prog" where
  "updateMetricsFromEvent L e r =
     (let ls = event_labels e; ty = evType e in
      if ty = ''submission_received'' then
        bindp (update_metric (metric_config ''submissions.received.count'' ''counter'' ls) Increment r)
          (update_metric (rate_config ''submissions.received.rate'' ls) Mark)
      else if ty = ''submission_validated'' then
        update_metric (metric_config ''submissions.validated.count'' ''counter'' ls) Increment r
      else if ty = ''submission_rejected'' then
        update_metric (metric_config ''submissions.rejected.count'' ''counter'' ls) Increment r
      else if ty = ''finalization_completed'' then observe_duration L finalization_fields ''finalization.duration'' e r
      else if ty = ''aggregation_level1_completed'' \<or> ty = ''aggregation_level2_completed'' then aggregation_completed L e r
      else if ty = ''queue_depth_changed'' then queue_changed L e r
      else if ty = ''worker_status_changed'' then worker_changed L e r
      else if ty = ''ipfs_storage_completed'' then observe_duration L ipfs_fields ''ipfs.storage.duration'' e r
      else if ty = ''epoch_completed'' then observe_duration L epoch_fields ''epoch.processing.time'' e r
      else Ret r)"

text \<open>The channel holds a thousand events; one more is dropped.\<close>

definition ProcessEvent :: "event \<Rightarrow> collector \<Rightarrow> collector prog" where
  "ProcessEvent e c =
     (if length (clEventChan c) < 1000 then Ret (c\<lparr>clEventChan := clEventChan c @ [e]\<rparr>)
      else bump ''metrics.dropped.total'' Increment c)"

definition processEvents_step :: "golib \<Rightarrow> collector \<Rightarrow> collector prog" where
  "processEvents_step L c =
     (if clStopped c then Ret c
      else case clEventChan c of
        [] \<Rightarrow> Ret c
      | e # es \<Rightarrow> on_registry (updateMetricsFromEvent L e) (c\<lparr>clEventChan := es\<rparr>))"

section \<open>Collecting\<close>

definition write_collected :: "golib \<Rightarrow> range_order \<Rightarrow> metricExport list \<Rightarrow> collector \<Rightarrow> collector prog" where
  "write_collected L ro batch c =
     bindp (WriteBatch L ro batch (clWriter c)) (\<lambda>(ok, w).
       let c1 = c\<lparr>clWriter := w\<rparr> in
       if ok then bump ''metrics.collected.total'' (Advance (f_of_int (int (length batch)))) c1
       else bump ''metrics.errors.total'' Increment c1)"

fun collect_batches ::
  "golib \<Rightarrow> range_order \<Rightarrow> metricExport list \<Rightarrow> metricExport list \<Rightarrow> collector \<Rightarrow> collector prog" where
  "collect_batches L ro batch [] c = (if batch = [] then Ret c else write_collected L ro batch c)"
| "collect_batches L ro batch (m # ms) c =
     (if ccBatchSize (clConfig c) \<le> int (length (batch @ [m]))
      then bindp (write_collected L ro (batch @ [m]) c) (collect_batches L ro [] ms)
      else collect_batches L ro (batch @ [m]) ms c)"

text \<open>\<open>Export\<close> reads the clock for each metric; here all exports of one turn have one time.\<close>

definition collect :: "golib \<Rightarrow> range_order \<Rightarrow> collector \<Rightarrow> collector prog" where
  "collect L ro c =
     Call NowNano (\<lambda>t. or_panic (Export ro (int_of t) (clRegistry c)) (\<lambda>(ms, r).
       collect_batches L ro [] ms (c\<lparr>clRegistry := r\<rparr>)))"

section \<open>Aggregating\<close>

fun metric_points :: "int \<Rightarrow> metric \<Rightarrow> metricPoint list" where
  "metric_points since (MCounter c) = Counter_Points since c"
| "metric_points since (MGauge g) = Gauge_Points since g"
| "metric_points since (MHistogram h) = Histogram_Points since h"
| "metric_points since (MRate r) = Rate_Points since r"
| "metric_points since (MSummary s) = Summary_Points since s"

fun metric_name :: "metric \<Rightarrow> string" where
  "metric_name (MCounter c) = ctName c"
| "metric_name (MGauge g) = ggName g"
| "metric_name (MHistogram h) = hsName h"
| "metric_name (MRate r) = rtName r"
| "metric_name (MSummary s) = smName s"

fun metric_labels :: "metric \<Rightarrow> labels" where
  "metric_labels (MCounter c) = ctLabels c"
| "metric_labels (MGauge g) = ggLabels g"
| "metric_labels (MHistogram h) = hsLabels h"
| "metric_labels (MRate r) = rtLabels r"
| "metric_labels (MSummary s) = smLabels s"

definition computeAggregations :: "float64 list \<Rightarrow> (aggregationType, float64) gomap option" where
  "computeAggregations vs =
     (if vs = [] then Some []
      else
        let xs = sort vs; n = f_of_int (int (length vs)) in
        Option.bind (percentile xs p50) (\<lambda>a.
        Option.bind (percentile xs p90) (\<lambda>b.
        Option.bind (percentile xs p95) (\<lambda>c.
        Option.bind (percentile xs p99) (\<lambda>d.
        Some [(AggSum, sum_values vs), (AggAvg, fdiv (sum_values vs) n), (AggMin, hd xs), (AggMax, last xs),
          (AggCount, n), (AggP50, a), (AggP90, b), (AggP95, c), (AggP99, d)])))))"

definition aggregate_metric ::
  "golib \<Rightarrow> range_order \<Rightarrow> int \<Rightarrow> int \<Rightarrow> string \<Rightarrow> collector \<Rightarrow> collector prog" where
  "aggregate_metric L ro now window key c =
     or_panic (map_of (rgMetrics (clRegistry c)) key) (\<lambda>m.
       let since = now - window; points = metric_points since m in
       if points = [] then Ret c
       else
         or_panic (computeAggregations (map mpValue points)) (\<lambda>agg.
         bindp (WriteAggregated L ro \<lparr>amName = metric_name m,
             amWindow = \<lparr>twStart = since, twEnd = now, twDuration = window\<rparr>, amLabels = metric_labels m,
             amAggregates = agg, amCount = int (length points)\<rparr> (clWriter c)) (\<lambda>(ok, w).
           let c1 = c\<lparr>clWriter := w\<rparr> in
           if ok then Ret c1 else bump ''metrics.errors.total'' Increment c1)))"

definition aggregation_windows :: "int list" where
  "aggregation_windows = [minute, 5 * minute, 15 * minute, 60 * minute]"

definition aggregateMetrics :: "golib \<Rightarrow> range_order \<Rightarrow> collector \<Rightarrow> collector prog" where
  "aggregateMetrics L ro c =
     Call NowNano (\<lambda>t.
       for_each (\<lambda>window c.
         for_each (aggregate_metric L ro (int_of t) window) (map fst (range_map ro ''metrics'' (rgMetrics (clRegistry c)))) c)
         aggregation_windows c)"

section \<open>Stopping and reading\<close>

definition Stop_collector :: "golib \<Rightarrow> range_order \<Rightarrow> collector \<Rightarrow> collector prog" where
  "Stop_collector L ro c = bindp (Stop_writer L ro (clWriter c)) (\<lambda>w. Ret (c\<lparr>clWriter := w, clStopped := True\<rparr>))"

definition Query_collector :: "golib \<Rightarrow> nat \<Rightarrow> metricQuery \<Rightarrow> collector \<Rightarrow> aggregatedMetric list option prog" where
  "Query_collector L fuel q c = Query_writer L fuel q (clWriter c)"

definition Export_collector :: "range_order \<Rightarrow> collector \<Rightarrow> (metricExport list \<times> collector) prog" where
  "Export_collector ro c = Call NowNano (\<lambda>t. or_panic (Export ro (int_of t) (clRegistry c)) (\<lambda>(ms, r).
     Ret (ms, c\<lparr>clRegistry := r\<rparr>)))"

end
