(* ===== verification/Writing.thy ===== *)
theory Writing
  imports Collector
begin

text \<open>
  What becomes of the metrics between the registry and the streams of Redis: what one turn of the collector and
  a flush write, what happens when a pipeline fails, when the writer is stopped, and to histograms, whose
  exports do not marshal; and that the two ways of aggregating values agree.
\<close>

named_theorems sent_simps "what a flush sends"

text \<open>The entries that a list of exports makes in the stream of a type.\<close>

definition entries_of :: "golib \<Rightarrow> range_order \<Rightarrow> metricExport list \<Rightarrow> (string \<times> blob) list list" where
  "entries_of L ro ms = map (entry_of L ro) (filter (\<lambda>m. marshals (enc_export L m)) ms)"

definition written :: "golib \<Rightarrow> range_order \<Rightarrow> string \<Rightarrow> metricExport list \<Rightarrow> (string \<times> blob) list list" where
  "written L ro ty ms = entries_of L ro (filter (\<lambda>m. exType m = ty) ms)"

lemma entries_of_Nil [simp]: "entries_of L ro [] = []"
  by (simp add: entries_of_def)

lemma written_Nil [simp]: "written L ro ty [] = []"
  by (simp add: written_def)

lemma written_append [sent_simps]: "written L ro ty (as @ bs) = written L ro ty as @ written L ro ty bs"
  by (simp add: written_def entries_of_def)

text \<open>What the stream of a type holds or is to hold once the batch is flushed.\<close>

definition owed :: "golib \<Rightarrow> range_order \<Rightarrow> string \<Rightarrow> writer \<Rightarrow> store \<Rightarrow> (string \<times> blob) list list" where
  "owed L ro ty w d = streams d (type_stream (wrConfig w) ty) @ written L ro ty (wrBatch w)"

section \<open>Grouping\<close>

lemma group_by_type_fold:
  "go_ok g \<Longrightarrow> go_ok (fold (\<lambda>m g. AList.update (exType m) (mget [] g (exType m) @ [m]) g) ms g) \<and>
     mget [] (fold (\<lambda>m g. AList.update (exType m) (mget [] g (exType m) @ [m]) g) ms g) ty =
       mget [] g ty @ filter (\<lambda>m. exType m = ty) ms"
  by (induction ms arbitrary: g) (auto simp: mget_def gomap_simps)

lemma group_by_type:
  "go_ok (group_by_type ms)" "mget [] (group_by_type ms) ty = filter (\<lambda>m. exType m = ty) ms"
  using group_by_type_fold [of "[]" ms ty] by (simp_all add: group_by_type_def mget_def)

lemma mget_range_map: "go_ok m \<Longrightarrow> mget z (range_map ro t m) k = mget z m k"
  by (simp add: mget_def map_of_range_map)

section \<open>Pipelines\<close>

lemma pipe_append: "store_step d (RPipe (as @ bs)) = store_step (snd (store_step d (RPipe as))) (RPipe bs)"
  by (induction as arbitrary: d) auto

lemma pipe_ok: "fst (store_step d (RPipe cs)) = OkR"
  by (induction cs arbitrary: d) auto

lemma quiet_pipe:
  "(\<And>c d. c \<in> set cs \<Longrightarrow> streams (snd (store_step d c)) = streams d) \<Longrightarrow>
     streams (snd (store_step d (RPipe cs))) = streams d"
  by (induction cs arbitrary: d) auto

lemma index_streams: "streams (snd (store_step d (RPipe (updateIndex ro c m)))) = streams d"
  by (rule quiet_pipe) (auto simp: updateIndex_def Let_def)

lemma metric_streams:
  "streams (snd (store_step d (RPipe (metric_calls L ro c ty m)))) =
     (streams d)(type_stream c ty := streams d (type_stream c ty) @ entries_of L ro [m])"
  by (simp add: metric_calls_def index_streams entries_of_def)

lemma entries_of_Cons: "entries_of L ro (m # ms) = entries_of L ro [m] @ entries_of L ro ms"
  by (simp add: entries_of_def)

lemma metrics_streams:
  "streams (snd (store_step d (RPipe (concat (map (metric_calls L ro c ty) ms))))) =
     (streams d)(type_stream c ty := streams d (type_stream c ty) @ entries_of L ro ms)"
proof (induction ms arbitrary: d)
  case (Cons m ms)
  show ?case by (rule ext) (simp add: pipe_append Cons.IH metric_streams entries_of_Cons [of L ro m ms])
qed simp

lemma type_stream_eq [simp]: "type_stream c a = type_stream c b \<longleftrightarrow> a = b"
  by (simp add: type_stream_def)

text \<open>A group of metrics, on a connection that works.\<close>

lemma exec_pipe_run:
  "run store_step (exec_pipe False cs) d = (Some OkR, snd (store_step d (RPipe cs)))"
  by (cases cs) (auto simp: exec_pipe_def exec_call_def run_Call pipe_ok)

lemma flush_types_run:
  assumes "distinct (map fst gs)" and "\<not> wrCancelled w"
  shows "\<exists>w' d'. run store_step (flush_types L ro gs w) d = (Some (True, w'), d') \<and> wrBatch w' = [] \<and>
    wrConfig w' = wrConfig w \<and> \<not> wrCancelled w' \<and>
    wrWritesSuccess w' = wrWritesSuccess w + of_nat (length (concat (map snd gs))) \<and>
    (\<forall>ty. streams d' (type_stream (wrConfig w) ty) =
      streams d (type_stream (wrConfig w) ty) @ entries_of L ro (mget [] gs ty))"
  using assms
proof (induction gs arbitrary: w d)
  case (Cons g gs)
  obtain ty ms where g: "g = (ty, ms)" by fastforce
  let ?w = "w\<lparr>wrBytesWritten := wrBytesWritten w + sum_list (map (metric_bytes L) ms),
    wrWritesSuccess := wrWritesSuccess w + of_nat (length ms)\<rparr>"
  let ?d = "snd (store_step d (RPipe (concat (map (metric_calls L ro (wrConfig w) ty) ms))))"
  have "distinct (map fst gs)" "ty \<notin> fst ` set gs" "\<not> wrCancelled ?w" using Cons.prems by (auto simp: g)
  note IH = Cons.IH [OF this(1,3), of ?d]
  have other: "mget [] gs ty = []" using \<open>ty \<notin> fst ` set gs\<close> by (simp add: mget_def keys_map_of)
  have step: "run store_step (flush_types L ro (g # gs) w) d = run store_step (flush_types L ro gs ?w) ?d"
    using Cons.prems(2) by (simp add: g Let_def run_bindp exec_pipe_run)
  have mg: "mget [] ((ty, ms) # gs) t = (if t = ty then ms else mget [] gs t)" for t
    by (simp add: mget_def)
  from IH show ?case unfolding step
    by (elim exE conjE) (intro exI conjI, assumption+, auto simp: g mg other metrics_streams algebra_simps)
qed (simp add: mget_def)

lemma flush_run:
  assumes "\<not> wrCancelled w"
  shows "\<exists>w' d'. run store_step (flushBatchLocked L ro w) d = (Some (True, w'), d') \<and> wrBatch w' = [] \<and>
    wrConfig w' = wrConfig w \<and> \<not> wrCancelled w' \<and> (\<forall>ty. owed L ro ty w' d' = owed L ro ty w d)"
proof (cases "wrBatch w = []")
  case True
  then show ?thesis using assms by (simp add: flushBatchLocked_def)
next
  case False
  let ?gs = "range_map ro ''byType'' (group_by_type (wrBatch w))" and ?w = "w\<lparr>wrTimer := False\<rparr>"
  have "distinct (map fst ?gs)" using group_by_type(1) by (simp add: go_ok_def [symmetric])
  from flush_types_run [OF this, of ?w L ro d] assms
  obtain w' d' where "run store_step (flush_types L ro ?gs ?w) d = (Some (True, w'), d')" "wrBatch w' = []"
    "wrConfig w' = wrConfig w" "\<not> wrCancelled w'"
    "\<And>ty. streams d' (type_stream (wrConfig w) ty) =
      streams d (type_stream (wrConfig w) ty) @ entries_of L ro (mget [] ?gs ty)" by auto
  then show ?thesis using False
    by (auto simp: flushBatchLocked_def owed_def written_def mget_range_map group_by_type)
qed

text \<open>Nothing is lost or written twice on the way: what a type's stream holds or is to hold grows by the new metrics.\<close>

lemma WriteBatch_run:
  assumes "\<not> wrCancelled w"
  shows "\<exists>w' d'. run store_step (WriteBatch L ro ms w) d = (Some (True, w'), d') \<and> wrConfig w' = wrConfig w \<and>
    \<not> wrCancelled w' \<and> (\<forall>ty. owed L ro ty w' d' = owed L ro ty w d @ written L ro ty ms)"
proof -
  let ?w = "w\<lparr>wrBatch := wrBatch w @ ms\<rparr>"
  have owed: "owed L ro ty ?w d = owed L ro ty w d @ written L ro ty ms" for ty
    by (simp add: owed_def written_append)
  obtain w' d' where "run store_step (flushBatchLocked L ro ?w) d = (Some (True, w'), d')" "wrConfig w' = wrConfig w"
    "\<not> wrCancelled w'" "\<And>ty. owed L ro ty w' d' = owed L ro ty ?w d"
    using flush_run [of ?w L ro d] assms by auto
  then show ?thesis using assms
    by (auto simp: WriteBatch_def Let_def owed, simp add: owed_def written_append)
qed

section \<open>A turn of the collector\<close>

definition own_counters :: "registry \<Rightarrow> bool" where
  "own_counters r \<longleftrightarrow>
     (\<forall>n \<in> {''metrics.collected.total'', ''metrics.dropped.total'', ''metrics.errors.total''}.
       map_of (rgMetrics r) (metricKey n []) \<noteq> None)"

definition collector_ok :: "collector \<Rightarrow> bool" where
  "collector_ok c \<longleftrightarrow> own_counters (clRegistry c) \<and> \<not> wrCancelled (clWriter c)"

lemma put_metric_keys: "own_counters r \<Longrightarrow> own_counters (put_metric k m r)"
  by (simp add: own_counters_def put_metric_def gomap_simps)

lemma own_counters_new:
  "own_counters (register_own ''metrics.errors.total'' b (register_own ''metrics.dropped.total'' c
     (register_own ''metrics.collected.total'' a NewRegistry)))"
  by (simp add: own_counters_def register_own_def Register_def Let_def metric_config_def new_metric_def
      NewRegistry_def metricKey_def gomap_simps)

lemma count_update_Some: "u \<in> {Increment, Advance x} \<Longrightarrow> \<exists>m'. apply_update u t m = Some m'"
  by (cases m) auto

lemma bump_run:
  assumes "own_counters (clRegistry c)" and "u \<in> {Increment, Advance x}"
    and "n \<in> {''metrics.collected.total'', ''metrics.dropped.total'', ''metrics.errors.total''}"
  shows "\<exists>r' d'. run store_step (bump n u c) d = (Some (c\<lparr>clRegistry := r'\<rparr>), d') \<and> own_counters r' \<and>
    streams d' = streams d"
proof -
  obtain m where m: "map_of (rgMetrics (clRegistry c)) (metricKey n []) = Some m"
    using assms(1,3) by (auto simp: own_counters_def)
  obtain m' where "apply_update u (clock d (readings d)) m = Some m'" using count_update_Some [OF assms(2)] by blast
  then show ?thesis using put_metric_keys [OF assms(1)]
    by (intro exI [of _ "put_metric (metricKey n []) m' (clRegistry c)"]) (simp add: bump_def m run_Call)
qed

lemma write_collected_run:
  assumes "collector_ok c"
  shows "\<exists>c' d'. run store_step (write_collected L ro ms c) d = (Some c', d') \<and> collector_ok c' \<and>
    clConfig c' = clConfig c \<and> wrConfig (clWriter c') = wrConfig (clWriter c) \<and>
    (\<forall>ty. owed L ro ty (clWriter c') d' = owed L ro ty (clWriter c) d @ written L ro ty ms)"
proof -
  obtain w' d1 where w: "run store_step (WriteBatch L ro ms (clWriter c)) d = (Some (True, w'), d1)"
    "wrConfig w' = wrConfig (clWriter c)" "\<not> wrCancelled w'"
    "\<And>ty. owed L ro ty w' d1 = owed L ro ty (clWriter c) d @ written L ro ty ms"
    using WriteBatch_run assms unfolding collector_ok_def by metis
  obtain r' d' where "run store_step (bump ''metrics.collected.total'' (Advance (f_of_int (int (length ms))))
      (c\<lparr>clWriter := w'\<rparr>)) d1 = (Some (c\<lparr>clWriter := w', clRegistry := r'\<rparr>), d')" "own_counters r'" "streams d' = streams d1"
    using bump_run [of "c\<lparr>clWriter := w'\<rparr>" "Advance (f_of_int (int (length ms)))" "f_of_int (int (length ms))"
      "''metrics.collected.total''" d1] assms by (auto simp: collector_ok_def)
  then show ?thesis using w
    by (auto simp: write_collected_def run_bindp collector_ok_def) (auto simp: owed_def)
qed

lemma collect_batches_run:
  assumes "collector_ok c"
  shows "\<exists>c' d'. run store_step (collect_batches L ro batch ms c) d = (Some c', d') \<and> collector_ok c' \<and>
    wrConfig (clWriter c') = wrConfig (clWriter c) \<and>
    (\<forall>ty. owed L ro ty (clWriter c') d' = owed L ro ty (clWriter c) d @ written L ro ty (batch @ ms))"
  using assms
proof (induction ms arbitrary: batch c d)
  case Nil
  then show ?case using write_collected_run [OF Nil.prems, of L ro batch d] by auto
next
  case (Cons m ms)
  show ?case
  proof (cases "ccBatchSize (clConfig c) \<le> int (length (batch @ [m]))")
    case True
    obtain c1 d1 where 1: "run store_step (write_collected L ro (batch @ [m]) c) d = (Some c1, d1)" "collector_ok c1"
      "wrConfig (clWriter c1) = wrConfig (clWriter c)"
      "\<And>ty. owed L ro ty (clWriter c1) d1 = owed L ro ty (clWriter c) d @ written L ro ty (batch @ [m])"
      using write_collected_run [OF Cons.prems] by metis
    obtain c2 d2 where 2: "run store_step (collect_batches L ro [] ms c1) d1 = (Some c2, d2)" "collector_ok c2"
      "wrConfig (clWriter c2) = wrConfig (clWriter c1)"
      "\<And>ty. owed L ro ty (clWriter c2) d2 = owed L ro ty (clWriter c1) d1 @ written L ro ty ([] @ ms)"
      using Cons.IH [OF 1(2), of "[]" d1] by metis
    have "written L ro ty (batch @ m # ms) = written L ro ty (batch @ [m]) @ written L ro ty ms" for ty
      by (simp flip: written_append)
    then show ?thesis using True 1(1,3,4) 2 by (simp add: run_bindp)
  next
    case False
    then show ?thesis using Cons.IH [OF Cons.prems, of "batch @ [m]" d] by auto
  qed
qed

lemma export_all_keys:
  "export_all t ms r = Some (es, r') \<Longrightarrow> map_of (rgMetrics r) k \<noteq> None \<Longrightarrow> map_of (rgMetrics r') k \<noteq> None"
proof (induction t ms r arbitrary: es r' rule: export_all.induct)
  case (2 t k' m ms r)
  from 2(2) obtain e m' es1 where "export_metric t m = Some (e, m')"
    and all: "export_all t ms (r\<lparr>rgMetrics := AList.update k' m' (rgMetrics r)\<rparr>) = Some (es1, r')"
    by (auto simp: bind_eq_Some_conv)
  from 2(1) [OF this(1) refl all] 2(3) show ?case by (simp add: map_of_update)
qed simp

definition collect_then_flush :: "golib \<Rightarrow> range_order \<Rightarrow> collector \<Rightarrow> writer prog" where
  "collect_then_flush L ro c = bindp (collect L ro c) (\<lambda>c'. flushBatch L ro (clWriter c'))"

text \<open>C16. What one turn of the collector and a flush write, on a connection that works: the exports that marshal, and those
  that waited in the batch, each once, in order, in the stream of its type, whatever the sizes of the batches and
  the order in which the types are sent, and nothing else in these streams; the batch is empty. (The
  trimming of streams at \<open>MAXLEN\<close> is left to Redis.)\<close>

theorem collected_metrics_are_written:
  assumes "reliable R v" and "own_counters (clRegistry c)" and "\<not> wrCancelled (clWriter c)"
    and "Export ro (clock (v s) (readings (v s))) (clRegistry c) = Some (ms, r)"
  shows "\<exists>w'. outcome R (collect_then_flush L ro c) s = Some w' \<and> wrBatch w' = [] \<and>
    (\<forall>ty. streams (v (final R (collect_then_flush L ro c) s)) (type_stream (wrConfig (clWriter c)) ty) =
      streams (v s) (type_stream (wrConfig (clWriter c)) ty) @ written L ro ty (wrBatch (clWriter c) @ ms))"
proof -
  let ?c = "c\<lparr>clRegistry := r\<rparr>" and ?d = "v s\<lparr>readings := Suc (readings (v s))\<rparr>"
  have "own_counters r" using assms(2) export_all_keys [OF assms(4) [unfolded Export_def]] by (simp add: own_counters_def)
  then have "collector_ok ?c" using assms(3) by (simp add: collector_ok_def)
  from collect_batches_run [OF this, of L ro "[]" ms ?d] obtain c1 d1 where
    1: "run store_step (collect_batches L ro [] ms ?c) ?d = (Some c1, d1)" "\<not> wrCancelled (clWriter c1)"
      "wrConfig (clWriter c1) = wrConfig (clWriter c)"
      "\<And>ty. owed L ro ty (clWriter c1) d1 = owed L ro ty (clWriter c) ?d @ written L ro ty ms"
    by (auto simp: collector_ok_def)
  from flush_run [OF 1(2), of L ro d1] obtain w2 d2 where
    2: "run store_step (flushBatchLocked L ro (clWriter c1)) d1 = (Some (True, w2), d2)" "wrBatch w2 = []"
      "wrConfig w2 = wrConfig (clWriter c1)" "\<And>ty. owed L ro ty w2 d2 = owed L ro ty (clWriter c1) d1" by auto
  have run: "run store_step (collect_then_flush L ro c) (v s) = (Some w2, d2)"
    using 1(1) 2(1) assms(4) by (simp add: collect_then_flush_def collect_def flushBatch_def run_bindp run_Call)
  have "streams d2 (type_stream (wrConfig (clWriter c)) ty) =
      streams (v s) (type_stream (wrConfig (clWriter c)) ty) @ written L ro ty (wrBatch (clWriter c) @ ms)" for ty
    using 1(3) 1(4) [of ty] 2(2,3) 2(4) [of ty] by (simp add: owed_def written_append)
  then show ?thesis using run 2(2) by (simp add: reliable_run [OF assms(1)])
qed

definition demo_config :: collectorConfig where
  "demo_config = DefaultCollectorConfig\<lparr>ccRedisKeyPrefix := ''m''\<rparr>"

definition demo_writer :: writer where
  "demo_writer = \<lparr>wrConfig = demo_config, wrBatch = [], wrTimer = False, wrCancelled = False,
     wrBytesWritten = 0, wrWritesSuccess = 0, wrWritesFailed = 0\<rparr>"

definition demo_registry :: registry where
  "demo_registry = register_own ''metrics.errors.total'' [] (register_own ''metrics.dropped.total'' []
     (register_own ''metrics.collected.total'' [] NewRegistry))"

definition demo_collector :: collector where
  "demo_collector = \<lparr>clRegistry = demo_registry, clWriter = demo_writer, clConfig = demo_config, clEventChan = [], clStopped = False\<rparr>"

lemma demo_registry_eq:
  "rgMetrics demo_registry = map (\<lambda>n. (n, MCounter (NewCounter n [] [])))
     [''metrics.collected.total'', ''metrics.dropped.total'', ''metrics.errors.total'']"
  by (simp add: demo_registry_def register_own_def Register_def Let_def metric_config_def new_metric_def NewRegistry_def metricKey_def)

lemma demo_registry_ok: "own_counters demo_registry"
  unfolding demo_registry_def by (rule own_counters_new)

lemma demo_export: "\<exists>ms r. Export in_order t demo_registry = Some (ms, r)"
proof -
  have "range_map in_order ''metrics'' (rgMetrics demo_registry) = rgMetrics demo_registry"
    by (rule range_map_in_order) (simp add: demo_registry_eq go_ok_def)
  then show ?thesis by (simp add: Export_def) (simp add: demo_registry_eq)
qed

theorem collected_metrics_are_written_witness:
  "\<exists>ms w'. outcome store_step (collect_then_flush demo_lib in_order demo_collector) empty_store = Some w' \<and> wrBatch w' = [] \<and>
    (\<forall>ty. streams (final store_step (collect_then_flush demo_lib in_order demo_collector) empty_store)
        (type_stream (wrConfig (clWriter demo_collector)) ty) =
      streams empty_store (type_stream (wrConfig (clWriter demo_collector)) ty) @
        written demo_lib in_order ty (wrBatch (clWriter demo_collector) @ ms))"
proof -
  obtain ms r where "Export in_order (clock empty_store (readings empty_store)) demo_registry = Some (ms, r)"
    using demo_export by blast
  then show ?thesis
    using collected_metrics_are_written [OF reliable_store, of demo_collector in_order empty_store ms r demo_lib]
    by (simp add: demo_collector_def demo_writer_def demo_registry_ok) blast
qed

section \<open>Histograms\<close>

lemma marshals_omit: "list_all (\<lambda>(k, j). marshals j) (omit b k j) \<longleftrightarrow> b \<or> marshals j"
  by (simp add: omit_def)

lemma cumulative_infinite: "\<exists>c. (Inf False, c) \<in> set (cumulative acc bs cs)"
proof (induction acc bs cs rule: cumulative.induct)
  case (1 acc b bs c cs)
  then show ?case by auto
qed auto

lemma histogram_unmarshalled: "\<not> marshals (enc_export L (Histogram_Export h))"
proof -
  obtain c where c: "(Inf False, c) \<in> set (cumulative 0 (hsBuckets h) (hsCounts h))" using cumulative_infinite by blast
  then have "\<not> list_all marshals (map enc_bound (cumulative 0 (hsBuckets h) (hsCounts h)))"
    by (auto simp: list_all_iff enc_bound_def finite_float_def intro!: bexI [of _ "(Inf False, c)"])
  moreover have "cumulative 0 (hsBuckets h) (hsCounts h) \<noteq> []" using c by auto
  ultimately show ?thesis by (simp add: enc_export_def Histogram_Export_def marshals_omit zero_export_def)
qed

text \<open>C26. No histogram is ever written: its export ends with an infinite bound, which \<open>encoding/json\<close> refuses, so
  whatever the histograms of a batch hold, a flush of them asks Redis for nothing at all, but empties the batch and
  counts every one of them as written.\<close>

theorem histograms_are_never_written:
  assumes "wrBatch w = map Histogram_Export hs" and "hs \<noteq> []"
  shows "flushBatchLocked L ro w = Ret (True, w\<lparr>wrTimer := False, wrBatch := [],
    wrWritesSuccess := wrWritesSuccess w + of_nat (length hs)\<rparr>)"
proof -
  have ty: "exType (Histogram_Export h) = ''histogram''" for h by (simp add: Histogram_Export_def)
  have "fold (\<lambda>m g. AList.update (exType m) (mget [] g (exType m) @ [m]) g) (map Histogram_Export xs) [(''histogram'', ms)] =
      [(''histogram'', ms @ map Histogram_Export xs)]" for xs ms
    by (induction xs arbitrary: ms) (simp_all add: ty mget_def)
  then have "group_by_type (wrBatch w) = [(''histogram'', wrBatch w)]"
    using assms by (cases hs) (simp_all add: group_by_type_def ty mget_def)
  moreover have "concat (map (metric_calls L ro c ty) (wrBatch w)) = []" "sum_list (map (metric_bytes L) (wrBatch w)) = 0" for c ty
    by (simp_all add: assms(1) metric_calls_def metric_bytes_def histogram_unmarshalled comp_def)
  ultimately show ?thesis using assms
    by (simp add: flushBatchLocked_def range_map_def order_keys_def exec_pipe_def Let_def)
qed

theorem histograms_are_never_written_witness:
  "flushBatchLocked demo_lib in_order (demo_writer\<lparr>wrBatch := map Histogram_Export [NewHistogram ''h'' [] [] [Fin 1]]\<rparr>) =
     Ret (True, demo_writer\<lparr>wrBatch := map Histogram_Export [NewHistogram ''h'' [] [] [Fin 1]], wrTimer := False, wrBatch := [],
       wrWritesSuccess := 0 + of_nat (length [NewHistogram ''h'' [] [] [Fin 1]])\<rparr>)"
  using histograms_are_never_written [of "demo_writer\<lparr>wrBatch := map Histogram_Export [NewHistogram ''h'' [] [] [Fin 1]]\<rparr>"
    "[NewHistogram ''h'' [] [] [Fin 1]]"] by (simp add: demo_writer_def)

section \<open>Stopping\<close>

lemma exec_pipe_cancelled: "exec_pipe True cs = Ret (if cs = [] then OkR else ErrR)"
  by (simp add: exec_pipe_def exec_call_def)

definition sends :: "golib \<Rightarrow> metricExport list \<Rightarrow> bool" where
  "sends L ms \<longleftrightarrow> list_ex (\<lambda>m. marshals (enc_export L m)) ms"

lemma no_calls: "concat (map (metric_calls L ro c ty) ms) = [] \<longleftrightarrow> \<not> sends L ms"
  by (auto simp: sends_def list_ex_iff metric_calls_def updateIndex_def Let_def split: if_splits)

lemma flush_types_cancelled:
  assumes "wrCancelled w"
  shows "\<exists>ok w'. flush_types L ro gs w = Ret (ok, w') \<and> (ok \<longleftrightarrow> (\<forall>g \<in> set gs. \<not> sends L (snd g))) \<and>
    wrBatch w' = (if ok then [] else wrBatch w) \<and> wrCancelled w'"
  using assms
proof (induction gs arbitrary: w)
  case (Cons g gs)
  obtain ty ms where g: "g = (ty, ms)" by fastforce
  obtain ok w' where IH: "flush_types L ro gs (w\<lparr>wrBytesWritten := wrBytesWritten w + sum_list (map (metric_bytes L) ms),
      wrWritesSuccess := wrWritesSuccess w + of_nat (length ms)\<rparr>) = Ret (ok, w')"
    "ok \<longleftrightarrow> (\<forall>g \<in> set gs. \<not> sends L (snd g))" "wrBatch w' = (if ok then [] else wrBatch w)" "wrCancelled w'"
    using Cons.IH [of "w\<lparr>wrBytesWritten := wrBytesWritten w + sum_list (map (metric_bytes L) ms),
      wrWritesSuccess := wrWritesSuccess w + of_nat (length ms)\<rparr>"] Cons.prems by auto
  show ?case
  proof (cases "sends L ms")
    case True
    then show ?thesis using Cons.prems
      by (intro exI [of _ False]) (simp add: g Let_def exec_pipe_cancelled no_calls del: concat_eq_Nil_conv)
  next
    case False
    then show ?thesis using Cons.prems IH
      by (simp add: g Let_def exec_pipe_cancelled no_calls del: concat_eq_Nil_conv)
  qed
qed auto

lemma group_members:
  "(\<exists>g \<in> set (range_map ro t (group_by_type ms)). sends L (snd g)) \<longleftrightarrow> sends L ms"
proof -
  have mem: "(ty, xs) \<in> set (range_map ro t (group_by_type ms)) \<Longrightarrow> xs = filter (\<lambda>m. exType m = ty) ms" for ty xs
    using group_by_type(1) [of ms] group_by_type(2) [of ms ty] by (simp add: set_range_map entry_map_of mget_def)
  have ex: "\<exists>xs. (exType m, xs) \<in> set (range_map ro t (group_by_type ms))" if "m \<in> set ms" for m
  proof -
    have "mget [] (group_by_type ms) (exType m) \<noteq> []" using that by (auto simp: group_by_type(2) filter_empty_conv)
    then show ?thesis using group_by_type(1) [of ms]
      by (auto simp: set_range_map entry_map_of mget_def split: option.splits)
  qed
  show ?thesis
  proof
    assume "\<exists>g \<in> set (range_map ro t (group_by_type ms)). sends L (snd g)"
    then obtain ty xs where g: "(ty, xs) \<in> set (range_map ro t (group_by_type ms))" "sends L xs" by auto
    from g(2) show "sends L ms" by (auto simp: mem [OF g(1)] sends_def list_ex_iff)
  next
    assume "sends L ms"
    then obtain m where m: "m \<in> set ms" "marshals (enc_export L m)" by (auto simp: sends_def list_ex_iff)
    obtain xs where g: "(exType m, xs) \<in> set (range_map ro t (group_by_type ms))" using ex [OF m(1)] by blast
    have "sends L xs" using m by (auto simp: mem [OF g] sends_def list_ex_iff)
    with g show "\<exists>g \<in> set (range_map ro t (group_by_type ms)). sends L (snd g)" by force
  qed
qed

text \<open>Stopping loses what waits in the batch: the writer cancels its context before it flushes, so the flush fails
  without asking Redis for anything, whatever the state of Redis, and metrics that could have been
  written stay in the memory of the process that ends.\<close>

theorem stop_writes_nothing:
  shows "trace R (Stop_collector L ro c) s = [] \<and>
    (\<exists>c'. outcome R (Stop_collector L ro c) s = Some c' \<and> clStopped c' \<and>
      (sends L (wrBatch (clWriter c)) \<longrightarrow> wrBatch (clWriter c') = wrBatch (clWriter c)))"
proof -
  let ?w = "(clWriter c)\<lparr>wrCancelled := True\<rparr>"
  have "\<exists>ok w'. flushBatchLocked L ro ?w = Ret (ok, w') \<and>
    (sends L (wrBatch (clWriter c)) \<longrightarrow> wrBatch w' = wrBatch (clWriter c))"
  proof (cases "wrBatch ?w = []")
    case True
    then show ?thesis by (auto simp: flushBatchLocked_def)
  next
    case False
    let ?gs = "range_map ro ''byType'' (group_by_type (wrBatch ?w))"
    obtain ok w' where "flush_types L ro ?gs (?w\<lparr>wrTimer := False\<rparr>) = Ret (ok, w')"
      "ok \<longleftrightarrow> (\<forall>g \<in> set ?gs. \<not> sends L (snd g))" "wrBatch w' = (if ok then [] else wrBatch ?w)"
      using flush_types_cancelled [of "?w\<lparr>wrTimer := False\<rparr>" L ro ?gs] by auto
    then show ?thesis using False group_members [of ro "''byType''" "wrBatch ?w" L]
      by (auto simp: flushBatchLocked_def)
  qed
  then show ?thesis by (auto simp: Stop_collector_def Stop_writer_def flushBatch_def)
qed

theorem stop_writes_nothing_witness:
  "sends demo_lib [Rate_Export (NewRate ''r'' [] [] 1)] \<and>
   (\<exists>c'. outcome store_step (Stop_collector demo_lib in_order
        (demo_collector\<lparr>clWriter := demo_writer\<lparr>wrBatch := [Rate_Export (NewRate ''r'' [] [] 1)]\<rparr>\<rparr>)) empty_store = Some c' \<and>
     wrBatch (clWriter c') = [Rate_Export (NewRate ''r'' [] [] 1)])"
proof -
  have "sends demo_lib [Rate_Export (NewRate ''r'' [] [] 1)]"
    by (simp add: sends_def enc_export_def Rate_Export_def NewRate_def Rate_Value_def zero_export_def omit_def omit_float_def)
  then show ?thesis
    using stop_writes_nothing [of store_step demo_lib in_order
      "demo_collector\<lparr>clWriter := demo_writer\<lparr>wrBatch := [Rate_Export (NewRate ''r'' [] [] 1)]\<rparr>\<rparr>" empty_store] by auto
qed

section \<open>A pipeline that fails\<close>

lemma flush_types_failed:
  "outcome R (flush_types L ro gs w) s = Some (False, w') \<Longrightarrow>
     wrBatch w' = wrBatch w \<and> wrConfig w' = wrConfig w \<and> wrCancelled w' = wrCancelled w"
proof (induction gs arbitrary: w s)
  case (Cons g gs)
  obtain ty ms where g: "g = (ty, ms)" by fastforce
  from Cons.prems Cons.IH show ?case
    by (force simp: g Let_def run_bindp split: option.splits prod.splits if_splits)
qed simp

text \<open>A flush that fails on one type forgets which types it has written: the batch keeps everything, and the next
  flush writes a second time what the first had written already. Here \<open>R\<close> is any surroundings
  in which the flush fails, and the entries of \<open>ty\<close> were written before it did.\<close>

theorem failed_flush_is_written_twice:
  assumes "run R (flushBatchLocked L ro w) s = (Some (False, w'), s')"
    and "streams (v s') (type_stream (wrConfig w) ty) = old @ written L ro ty (wrBatch w)"
    and "reliable R2 v" and "\<not> wrCancelled w"
  shows "streams (v (final R2 (flushBatchLocked L ro w') s')) (type_stream (wrConfig w) ty) =
    old @ written L ro ty (wrBatch w) @ written L ro ty (wrBatch w)"
proof -
  have "outcome R (flush_types L ro (range_map ro ''byType'' (group_by_type (wrBatch w))) (w\<lparr>wrTimer := False\<rparr>)) s =
      Some (False, w')"
    using assms(1) by (simp add: flushBatchLocked_def split: if_splits)
  from flush_types_failed [OF this]
  have w': "wrBatch w' = wrBatch w" "wrConfig w' = wrConfig w" "\<not> wrCancelled w'" using assms(4) by simp_all
  obtain w2 d2 where "run store_step (flushBatchLocked L ro w') (v s') = (Some (True, w2), d2)" "wrBatch w2 = []"
    "wrConfig w2 = wrConfig w'" "owed L ro ty w2 d2 = owed L ro ty w' (v s')"
    using flush_run [OF w'(3)] by metis
  then show ?thesis using w' assms(2) by (simp add: reliable_run [OF assms(3)] owed_def)
qed

definition flaky :: "(store \<times> nat) environment" where
  "flaky s c = (case c of
       RPipe cs \<Rightarrow> if snd s = 1 then (ErrR, (fst s, 2)) else (fst (store_step (fst s) c), (snd (store_step (fst s) c), snd s + 1))
     | _ \<Rightarrow> (fst (store_step (fst s) c), (snd (store_step (fst s) c), snd s)))"

definition steady :: "(store \<times> nat) environment" where
  "steady s c = (fst (store_step (fst s) c), (snd (store_step (fst s) c), snd s))"

definition demo_exports :: "metricExport list" where
  "demo_exports = [zero_export\<lparr>exName := ''a'', exType := ''counter''\<rparr>, zero_export\<lparr>exName := ''b'', exType := ''gauge''\<rparr>]"

lemma demo_exports_simps:
  "group_by_type demo_exports = [(''counter'', [hd demo_exports]), (''gauge'', [last demo_exports])]"
  "sends L [hd demo_exports]" "sends L [last demo_exports]"
  "written L ro ''counter'' demo_exports = entries_of L ro [hd demo_exports]"
  by (simp_all add: group_by_type_def demo_exports_def mget_def sends_def enc_export_def zero_export_def omit_def omit_float_def
      written_def)

lemma steady_reliable: "reliable steady fst"
  by (simp add: reliable_def steady_def)

lemma flaky_flush:
  defines "w \<equiv> demo_writer\<lparr>wrBatch := demo_exports\<rparr>"
  shows "\<exists>w' s'. run flaky (flushBatchLocked L in_order w) (empty_store, 0) = (Some (False, w'), s') \<and>
    streams (fst s') (type_stream demo_config ''counter'') = [] @ written L in_order ''counter'' (wrBatch w)"
proof -
  let ?cs = "\<lambda>ty m. concat (map (metric_calls L in_order demo_config ty) [m])"
  have pipe: "run flaky (exec_pipe False (?cs ty m)) (d, n) =
      (if n = 1 then (Some ErrR, (d, 2)) else (Some OkR, (snd (store_step d (RPipe (?cs ty m))), n + 1)))"
    if "sends L [m]" for ty m d n
    using that no_calls [of L in_order demo_config ty "[m]"]
    by (simp add: exec_pipe_def exec_call_def run_Call flaky_def pipe_ok)
  have gs: "range_map in_order ''byType'' (group_by_type demo_exports) = group_by_type demo_exports"
    by (rule range_map_in_order) (rule group_by_type(1))
  have ne: "demo_exports \<noteq> []" "streams empty_store k = []" for k by (simp_all add: demo_exports_def empty_store_def)
  show ?thesis
    using metrics_streams [of empty_store L in_order demo_config "''counter''" "[hd demo_exports]"]
    by (simp add: ne w_def flushBatchLocked_def demo_writer_def gs [unfolded demo_exports_simps] demo_exports_simps
        Let_def run_bindp pipe [simplified])
qed

theorem failed_flush_is_written_twice_witness:
  "\<exists>w' s'. run flaky (flushBatchLocked demo_lib in_order (demo_writer\<lparr>wrBatch := demo_exports\<rparr>)) (empty_store, 0) = (Some (False, w'), s') \<and>
    streams (fst (final steady (flushBatchLocked demo_lib in_order w') s')) (type_stream demo_config ''counter'') =
      entries_of demo_lib in_order [hd demo_exports] @ entries_of demo_lib in_order [hd demo_exports]"
proof -
  let ?w = "demo_writer\<lparr>wrBatch := demo_exports\<rparr>"
  obtain w' s' where f: "run flaky (flushBatchLocked demo_lib in_order ?w) (empty_store, 0) = (Some (False, w'), s')"
    "streams (fst s') (type_stream demo_config ''counter'') = [] @ written demo_lib in_order ''counter'' (wrBatch ?w)"
    using flaky_flush by blast
  have c: "wrConfig ?w = demo_config" "\<not> wrCancelled ?w" by (simp_all add: demo_writer_def)
  show ?thesis
    using f(1) failed_flush_is_written_twice [OF f(1) _ steady_reliable c(2), of "''counter''" "[]"] f(2)
    by (simp add: c demo_exports_simps)
qed

section \<open>Two ways to aggregate\<close>

lemma sorted_ends:
  assumes "(vs :: float64 list) \<noteq> []"
  shows "hd (sort vs) = Min (set vs)" "last (sort vs) = Max (set vs)"
proof -
  have ne: "sort vs \<noteq> []" using assms by (metis length_0_conv length_sort)
  have "hd (sort vs) \<in> set vs" "last (sort vs) \<in> set vs" using ne hd_in_set last_in_set set_sort by metis+
  moreover have "hd (sort vs) \<le> x" "x \<le> last (sort vs)" if x: "x \<in> set vs" for x
  proof -
    obtain i where i: "i < length (sort vs)" "sort vs ! i = x" using x in_set_conv_nth [of x "sort vs"] by auto
    have "sort vs ! 0 \<le> sort vs ! i" "sort vs ! i \<le> sort vs ! (length (sort vs) - 1)"
      using i(1) by (auto intro!: sorted_nth_mono)
    then show "hd (sort vs) \<le> x" "x \<le> last (sort vs)" using i(2) ne by (simp_all add: hd_conv_nth last_conv_nth)
  qed
  ultimately show "hd (sort vs) = Min (set vs)" "last (sort vs) = Max (set vs)"
    by (metis List.finite_set Min_eqI, metis List.finite_set Max_eqI)
qed

text \<open>C35. The collector and the writer agree: for values without NaN the sum, average, minimum, maximum and count that a query
  computes are those that the collector writes, although the one sorts the values and the other runs through
  them, and neither panics. The percentiles, which the collector computes too, a query asked for them leaves out.\<close>

theorem aggregations_agree:
  assumes "vs \<noteq> []" and "NaN \<notin> set vs" and "int (length vs) \<le> 2 ^ 53"
  shows "\<exists>agg. computeAggregations vs = Some agg \<and>
    computeAggregates vs [AggSum, AggAvg, AggMin, AggMax, AggCount] = take 5 agg \<and>
    computeAggregates vs (map fst agg) = take 5 agg \<and>
    map fst agg = [AggSum, AggAvg, AggMin, AggMax, AggCount, AggP50, AggP90, AggP95, AggP99]"
proof -
  have len: "int (length (sort vs)) \<le> 2 ^ 53" using assms(3) by simp
  obtain a b c d where ps: "percentile (sort vs) p50 = Some a" "percentile (sort vs) p90 = Some b"
    "percentile (sort vs) p95 = Some c" "percentile (sort vs) p99 = Some d"
    using percentile_some [OF len] by (metis insertI1 insertI2)
  note ends = sorted_ends [OF assms(1)] min_value_Min [OF assms(1,2)] max_value_Max [OF assms(1,2)]
  show ?thesis using assms(1) by (simp add: computeAggregations_def computeAggregates_def Let_def ps ends)
qed

theorem aggregations_agree_witness:
  "\<exists>agg. computeAggregations [Fin 3, Fin 1] = Some agg \<and>
    computeAggregates [Fin 3, Fin 1] [AggSum, AggAvg, AggMin, AggMax, AggCount] = take 5 agg \<and>
    computeAggregates [Fin 3, Fin 1] (map fst agg) = take 5 agg \<and>
    map fst agg = [AggSum, AggAvg, AggMin, AggMax, AggCount, AggP50, AggP90, AggP95, AggP99]"
  by (rule aggregations_agree) simp_all

end
