(* ===== verification/Counting.thy ===== *)
theory Counting
  imports Writing
begin

text \<open>
  What the collector counts: a burst of events, the thousand of them that its channel holds and the others that it
  drops, and the counters of submissions that they leave.
\<close>

named_theorems counting "programs that count events"

section \<open>Keys and values of the registry\<close>

definition key_name :: "string \<Rightarrow> string" where
  "key_name k = takeWhile (\<lambda>c. c \<noteq> CHR '','') k"

lemma key_name_metricKey [simp]: "CHR '','' \<notin> set n \<Longrightarrow> key_name (metricKey n ls) = n"
proof -
  assume n: "CHR '','' \<notin> set n"
  have "takeWhile (\<lambda>c. c \<noteq> CHR '','') (concat (map (\<lambda>k. '','' @ f k) ks)) = []" for f :: "string \<Rightarrow> string" and ks
    by (cases ks) auto
  then have "takeWhile (\<lambda>c. c \<noteq> CHR '','') (n @ concat (map (\<lambda>k. '','' @ k @ ''='' @ mget [] ls k) (sort (map fst ls)))) = n"
    using n by (subst takeWhile_append2) auto
  then show ?thesis unfolding key_name_def metricKey_def .
qed

text \<open>A histogram has one more count than it has bounds, so that observing does not panic.\<close>

fun wf_metric :: "metric \<Rightarrow> bool" where
  "wf_metric (MHistogram h) = (length (hsCounts h) = length (hsBuckets h) + 1)"
| "wf_metric m = True"

definition wf_registry :: "registry \<Rightarrow> bool" where
  "wf_registry r \<longleftrightarrow> (\<forall>k m. map_of (rgMetrics r) k = Some m \<longrightarrow> wf_metric m)"

definition counter_at :: "string \<Rightarrow> registry \<Rightarrow> bool" where
  "counter_at k r \<longleftrightarrow> (case map_of (rgMetrics r) k of None \<Rightarrow> True | Some m \<Rightarrow> metric_type m = ''counter'')"

fun counter_value :: "metric option \<Rightarrow> u64" where
  "counter_value (Some (MCounter c)) = ctValue c"
| "counter_value _ = 0"

definition count_at :: "string \<Rightarrow> registry \<Rightarrow> u64" where
  "count_at k r = counter_value (map_of (rgMetrics r) k)"

lemma metric_type_counter: "metric_type m = ''counter'' \<longleftrightarrow> (\<exists>c. m = MCounter c)"
  by (cases m) auto

lemma inc_value: "ctValue (Counter_Inc t c) = ctValue c + 1"
proof -
  have "\<not> flt (Fin 1) (Fin 0)" "f_to_u64 (Fin 1) = 1" by (simp_all add: Let_def Float64.trunc_def)
  then show ?thesis by (simp add: Counter_Inc_def Counter_Add_def Let_def)
qed

lemma observe_some:
  "length (hsCounts h) = length (hsBuckets h) + 1 \<Longrightarrow>
     \<exists>h'. Histogram_Observe x t h = Some h' \<and> length (hsCounts h') = length (hsBuckets h') + 1"
  using search_loop_bounds [of 0 "length (hsBuckets h)" "\<lambda>i. \<not> flt (hsBuckets h ! i) x"]
  by (auto simp: Histogram_Observe_def Let_def SearchFloat64s_def go_search_def)

lemma apply_update_wf: "wf_metric m \<Longrightarrow> \<exists>m'. apply_update u t m = Some m' \<and> wf_metric m' \<and> metric_type m' = metric_type m"
proof (cases "\<exists>x h. u = Observe x \<and> m = MHistogram h")
  case True
  then obtain x h where uh: "u = Observe x" "m = MHistogram h" by blast
  assume "wf_metric m"
  then obtain h' where "Histogram_Observe x t h = Some h'" "length (hsCounts h') = length (hsBuckets h') + 1"
    using observe_some [of h x t] by (auto simp: uh)
  then show ?thesis by (simp add: uh)
next
  case False
  assume "wf_metric m"
  with False show ?thesis by (cases u; cases m) auto
qed

lemma new_metric_wf: "new_metric cfg = Some m \<Longrightarrow> wf_metric m \<and> metric_type m = mcType cfg"
  by (auto simp: new_metric_def Let_def NewHistogram_def split: if_splits)

lemma put_metric_at: "map_of (rgMetrics (put_metric k m r)) = (map_of (rgMetrics r))(k \<mapsto> m)"
  by (simp add: put_metric_def map_of_update)

lemma put_metric_wf: "wf_registry r \<Longrightarrow> wf_metric m \<Longrightarrow> wf_registry (put_metric k m r)"
  by (auto simp: wf_registry_def put_metric_at)

section \<open>Programs that count\<close>

text \<open>\<open>p\<close>, from the registry \<open>r\<close>, ends without a panic, and adds \<open>d k\<close> to the counter of each key \<open>k\<close> of the
  name \<open>n\<close>.\<close>

definition counts :: "string \<Rightarrow> (string \<Rightarrow> u64) \<Rightarrow> registry prog \<Rightarrow> registry \<Rightarrow> 's environment \<Rightarrow> bool" where
  "counts n d p r R \<longleftrightarrow> (\<forall>s. \<exists>r' s'. run R p s = (Some r', s') \<and> wf_registry r' \<and>
     (\<forall>k. key_name k = n \<and> counter_at k r \<longrightarrow> counter_at k r' \<and> count_at k r' = count_at k r + d k))"

lemma counts_Ret [counting]: "wf_registry r \<Longrightarrow> counts n (\<lambda>_. 0) (Ret r) r R"
  by (simp add: counts_def)

lemma counts_bindp:
  assumes "counts n d p r R" and "\<And>r'. wf_registry r' \<Longrightarrow> counts n (\<lambda>_. 0) (f r') r' R"
  shows "counts n d (bindp p f) r R"
  unfolding counts_def
proof
  fix s
  obtain r1 s1 where 1: "run R p s = (Some r1, s1)" "wf_registry r1"
    "\<And>k. key_name k = n \<Longrightarrow> counter_at k r \<Longrightarrow> counter_at k r1 \<and> count_at k r1 = count_at k r + d k"
    using assms(1) unfolding counts_def by blast
  obtain r2 s2 where 2: "run R (f r1) s1 = (Some r2, s2)" "wf_registry r2"
    "\<And>k. key_name k = n \<Longrightarrow> counter_at k r1 \<Longrightarrow> counter_at k r2 \<and> count_at k r2 = count_at k r1 + 0"
    using assms(2) [OF 1(2)] unfolding counts_def by blast
  show "\<exists>r' s'. run R (bindp p f) s = (Some r', s') \<and> wf_registry r' \<and>
      (\<forall>k. key_name k = n \<and> counter_at k r \<longrightarrow> counter_at k r' \<and> count_at k r' = count_at k r + d k)"
    using 1 2 by (auto simp: run_bindp)
qed

text \<open>The metric that an update finds or makes.\<close>

lemma get_or_create:
  assumes "wf_registry r" and "Registry_GetOrCreate cfg r = (Some m, r1)"
  shows "wf_registry r1" and "wf_metric m" and "map_of (rgMetrics r1) (metricKey (mcName cfg) (mcLabels cfg)) = Some m"
    and "k \<noteq> metricKey (mcName cfg) (mcLabels cfg) \<Longrightarrow> map_of (rgMetrics r1) k = map_of (rgMetrics r) k"
    and "map_of (rgMetrics r) (metricKey (mcName cfg) (mcLabels cfg)) = Some m \<or>
      map_of (rgMetrics r) (metricKey (mcName cfg) (mcLabels cfg)) = None \<and> new_metric cfg = Some m"
  using assms new_metric_wf [of cfg m]
  by (auto simp: Registry_GetOrCreate_def Get_def Register_def Let_def wf_registry_def map_of_update
      split: option.splits if_splits)

lemma get_or_create_none: "Registry_GetOrCreate cfg r = (None, r1) \<Longrightarrow> r1 = r"
  by (auto simp: Registry_GetOrCreate_def Get_def Register_def Let_def split: option.splits if_splits)

lemma update_metric_run:
  assumes "wf_registry r"
  obtains r' s' where "run R (update_metric cfg u r) s = (Some r', s')" and "wf_registry r'"
    and "\<And>k. k \<noteq> metricKey (mcName cfg) (mcLabels cfg) \<Longrightarrow> map_of (rgMetrics r') k = map_of (rgMetrics r) k"
proof (cases "Registry_GetOrCreate cfg r")
  case (Pair mo r1)
  show ?thesis
  proof (cases mo)
    case None
    then show ?thesis using Pair assms get_or_create_none [of cfg r r1]
      by (intro that [of r s]) (simp_all add: update_metric_def)
  next
    case (Some m)
    note g = get_or_create [OF assms Pair [unfolded Some]]
    obtain m' where "apply_update u (int_of (fst (R s NowNano))) m = Some m'" "wf_metric m'"
      using apply_update_wf [OF g(2)] by blast
    then have "metric_type m = mcType cfg \<Longrightarrow> run R (update_metric cfg u r) s =
        (Some (put_metric (metricKey (mcName cfg) (mcLabels cfg)) m' r1), snd (R s NowNano))"
      "metric_type m \<noteq> mcType cfg \<Longrightarrow> run R (update_metric cfg u r) s = (Some r1, s)"
      using Pair Some by (simp_all add: update_metric_def run_Call)
    then show ?thesis using g(1,4) put_metric_wf [OF g(1) \<open>wf_metric m'\<close>] that
      by (cases "metric_type m = mcType cfg") (simp_all add: put_metric_at)
  qed
qed

lemma counts_other [counting]:
  assumes "wf_registry r" and "key_name (metricKey (mcName cfg) (mcLabels cfg)) \<noteq> n"
  shows "counts n (\<lambda>_. 0) (update_metric cfg u r) r R"
  unfolding counts_def
proof
  fix s
  obtain r' s' where "run R (update_metric cfg u r) s = (Some r', s')" "wf_registry r'"
    "\<And>k. k \<noteq> metricKey (mcName cfg) (mcLabels cfg) \<Longrightarrow> map_of (rgMetrics r') k = map_of (rgMetrics r) k"
    by (rule update_metric_run [OF assms(1), of R cfg u s], rule that)
  moreover have "counter_at k r' = counter_at k r \<and> count_at k r' = count_at k r" if "key_name k = n" for k
  proof -
    have "k \<noteq> metricKey (mcName cfg) (mcLabels cfg)" using that assms(2) by blast
    from calculation(3) [OF this] show ?thesis by (simp add: counter_at_def count_at_def)
  qed
  ultimately show "\<exists>r' s'. run R (update_metric cfg u r) s = (Some r', s') \<and> wf_registry r' \<and>
      (\<forall>k. key_name k = n \<and> counter_at k r \<longrightarrow> counter_at k r' \<and> count_at k r' = count_at k r + 0)"
    by auto
qed

lemma counts_increment:
  assumes "wf_registry r"
  shows "counts n (\<lambda>k. if k = metricKey n ls then 1 else 0) (update_metric (metric_config n ''counter'' ls) Increment r) r R"
proof -
  define key where "key = metricKey n ls"
  let ?cfg = "metric_config n ''counter'' ls"
  have cfg: "mcName ?cfg = n" "mcLabels ?cfg = ls" "mcType ?cfg = ''counter''" by (simp_all add: metric_config_def)
  have new: "new_metric ?cfg = Some (MCounter (NewCounter n [] ls))" by (simp add: new_metric_def metric_config_def Let_def)
  { fix s
  obtain r' s' where u: "run R (update_metric ?cfg Increment r) s = (Some r', s')" "wf_registry r'"
    "\<And>k. k \<noteq> key \<Longrightarrow> map_of (rgMetrics r') k = map_of (rgMetrics r) k"
    by (rule update_metric_run [OF assms(1), of R ?cfg Increment s, unfolded cfg, folded key_def], rule that)
  have "counter_at key r' \<and> count_at key r' = count_at key r + 1" if at: "counter_at key r"
  proof (cases "Registry_GetOrCreate ?cfg r")
    case (Pair mo r1)
    have "mo \<noteq> None" using Pair
      by (cases "map_of (rgMetrics r) key")
        (auto simp: Registry_GetOrCreate_def Register_def Get_def Let_def new cfg key_def [symmetric] dest: sym)
    then obtain m where mo: "mo = Some m" by blast
    note g = get_or_create [OF assms(1) Pair [unfolded mo], unfolded cfg, folded key_def]
    have "metric_type m = ''counter''" using g(5) at new by (auto simp: counter_at_def)
    then obtain c where m: "m = MCounter c" by (auto simp: metric_type_counter)
    have "count_at key r = ctValue c" using g(5) new by (auto simp: count_at_def m NewCounter_def)
    moreover have "map_of (rgMetrics r') key = Some (MCounter (Counter_Inc (int_of (fst (R s NowNano))) c))"
      using u(1) Pair mo by (auto simp: update_metric_def m cfg run_Call put_metric_at key_def)
    ultimately show ?thesis by (simp add: counter_at_def count_at_def inc_value)
  qed
  then have "\<exists>r' s'. run R (update_metric ?cfg Increment r) s = (Some r', s') \<and> wf_registry r' \<and>
      (\<forall>k. key_name k = n \<and> counter_at k r \<longrightarrow> counter_at k r' \<and> count_at k r' = count_at k r + (if k = key then 1 else 0))"
    using u(1,2) u(3) by (intro exI [of _ r'] exI [of _ s'])
      (auto simp: counter_at_def count_at_def) }
  then show ?thesis by (simp add: counts_def key_def)
qed

section \<open>Events\<close>

text \<open>The types of events of submissions and the counters they go to.\<close>

definition submission_counters :: "(string \<times> string) list" where
  "submission_counters = [(''submission_received'', ''submissions.received.count''),
     (''submission_validated'', ''submissions.validated.count''), (''submission_rejected'', ''submissions.rejected.count'')]"

definition hits :: "string \<Rightarrow> string \<Rightarrow> event \<Rightarrow> bool" where
  "hits n k e \<longleftrightarrow> (evType e, n) \<in> set submission_counters \<and> k = metricKey n (event_labels e)"

lemma counts_cong: "counts n d p r R \<Longrightarrow> d = d' \<Longrightarrow> counts n d' p r R"
  by simp

lemma config_fields [simp]:
  "mcName (metric_config n t ls) = n" "mcLabels (metric_config n t ls) = ls"
  "mcName (rate_config n ls) = n" "mcLabels (rate_config n ls) = ls"
  by (simp_all add: metric_config_def rate_config_def)

lemma counts_if [intro]:
  "(P \<Longrightarrow> counts n d p r R) \<Longrightarrow> (\<not> P \<Longrightarrow> counts n d q r R) \<Longrightarrow> counts n d (if P then p else q) r R"
  by simp

abbreviation watched :: "string set" where
  "watched \<equiv> insert ''metrics.dropped.total'' (set (map snd submission_counters))"

text \<open>Durations, depths and the rest are metrics of other names.\<close>

lemma counts_durations:
  assumes "wf_registry r" and "n \<in> watched"
    and "m \<in> {''finalization.duration'', ''ipfs.storage.duration'', ''epoch.processing.time''}"
  shows "counts n (\<lambda>_. 0) (observe_duration L fs m e r) r R"
proof -
  have "key_name (metricKey m ls) \<noteq> n" for ls using assms(2,3) by (auto simp: submission_counters_def)
  then show ?thesis using assms(1) by (auto simp: observe_duration_def Let_def counting split: option.split)
qed

lemma counts_aggregation:
  assumes "wf_registry r" and "n \<in> watched"
  shows "counts n (\<lambda>_. 0) (aggregation_completed L e r) r R"
proof -
  have "key_name (metricKey ''aggregation.duration'' ls) \<noteq> n" "key_name (metricKey ''validator.participation.count'' ls) \<noteq> n" for ls
    using assms(2) by (auto simp: submission_counters_def)
  then show ?thesis using assms(1)
    by (auto simp: aggregation_completed_def Let_def split: option.split intro!: counts_bindp counting)
qed

lemma counts_changes:
  assumes "wf_registry r" and "n \<in> watched"
  shows "counts n (\<lambda>_. 0) (queue_changed L e r) r R" "counts n (\<lambda>_. 0) (worker_changed L e r) r R"
proof -
  have "key_name (metricKey ''queue.depth'' ls) \<noteq> n" "key_name (metricKey ''worker.utilization'' ls) \<noteq> n" for ls
    using assms(2) by (auto simp: submission_counters_def)
  then show "counts n (\<lambda>_. 0) (queue_changed L e r) r R" "counts n (\<lambda>_. 0) (worker_changed L e r) r R"
    using assms(1) by (auto simp: queue_changed_def worker_changed_def Let_def counting split: option.split)
qed

lemma counts_submission:
  assumes "wf_registry r" and "n \<in> watched" and "(ty, m) \<in> set submission_counters" and "evType e = ty"
  shows "counts n (\<lambda>k. if hits n k e then 1 else 0) (update_metric (metric_config m ''counter'' (event_labels e)) Increment r) r R"
proof (cases "n = m")
  case True
  then show ?thesis using counts_increment [OF assms(1), of n "event_labels e" R] assms(3,4) by (simp add: hits_def)
next
  case False
  have "key_name (metricKey m ls) = m" for ls using assms(3) by (auto simp: submission_counters_def)
  moreover have "\<not> hits n k e" for k
    using False assms(3,4) eq_key_imp_eq_value [of submission_counters "evType e" n m]
    by (auto simp: hits_def) (simp add: submission_counters_def)
  ultimately show ?thesis using counts_other [OF assms(1), of "metric_config m ''counter'' (event_labels e)" n] False by simp
qed

lemma counts_event:
  assumes "wf_registry r" and n: "n \<in> watched"
  shows "counts n (\<lambda>k. if hits n k e then 1 else 0) (updateMetricsFromEvent L e r) r R"
proof (cases "evType e \<in> set (map fst submission_counters)")
  case True
  then obtain m where m: "(evType e, m) \<in> set submission_counters" by auto
  have "key_name (metricKey ''submissions.received.rate'' ls) \<noteq> n" for ls using n by (auto simp: submission_counters_def)
  then have rate: "wf_registry r' \<Longrightarrow> counts n (\<lambda>_. 0) (update_metric (rate_config ''submissions.received.rate'' ls) Mark r') r' R" for r' ls
    by (simp add: counts_other)
  have "updateMetricsFromEvent L e r \<in> {update_metric (metric_config m ''counter'' (event_labels e)) Increment r,
      bindp (update_metric (metric_config m ''counter'' (event_labels e)) Increment r)
        (update_metric (rate_config ''submissions.received.rate'' (event_labels e)) Mark)}"
    using m by (auto simp: submission_counters_def updateMetricsFromEvent_def Let_def)
  then show ?thesis
    using counts_submission [OF assms m refl, of R] counts_bindp [OF counts_submission [OF assms m refl, of R] rate]
    by (elim insertE emptyE) (simp_all only:)
next
  case False
  then have none: "\<not> hits n k e" for k by (force simp: hits_def)
  have "updateMetricsFromEvent L e r \<in> {observe_duration L finalization_fields ''finalization.duration'' e r,
      aggregation_completed L e r, queue_changed L e r, worker_changed L e r,
      observe_duration L ipfs_fields ''ipfs.storage.duration'' e r, observe_duration L epoch_fields ''epoch.processing.time'' e r, Ret r}"
    using False by (simp add: updateMetricsFromEvent_def Let_def submission_counters_def)
  moreover have "counts n (\<lambda>_. 0) (observe_duration L fs ''finalization.duration'' e r) r R"
    "counts n (\<lambda>_. 0) (observe_duration L fs ''ipfs.storage.duration'' e r) r R"
    "counts n (\<lambda>_. 0) (observe_duration L fs ''epoch.processing.time'' e r) r R" for fs
    by (rule counts_durations [OF assms]; simp)+
  ultimately have "counts n (\<lambda>_. 0) (updateMetricsFromEvent L e r) r R"
    using counts_aggregation [OF assms] counts_changes [OF assms] counts_Ret [OF assms(1)]
    by (elim insertE emptyE) (simp_all only:)
  then show ?thesis by (simp add: none)
qed

section \<open>A burst of events\<close>

definition burst :: "golib \<Rightarrow> event list \<Rightarrow> collector \<Rightarrow> collector prog" where
  "burst L es c = bindp (for_each ProcessEvent es c) (\<lambda>c. for_each (\<lambda>_. processEvents_step L) (clEventChan c) c)"

abbreviation drop_key :: string where
  "drop_key \<equiv> metricKey ''metrics.dropped.total'' []"

definition has_drops :: "collector \<Rightarrow> u64 \<Rightarrow> bool" where
  "has_drops c n \<longleftrightarrow> (\<exists>x. map_of (rgMetrics (clRegistry c)) drop_key = Some (MCounter x) \<and> ctValue x = n)"

lemma has_dropsD: "has_drops c n \<Longrightarrow> counter_at drop_key (clRegistry c) \<and> count_at drop_key (clRegistry c) = n"
  by (auto simp: has_drops_def counter_at_def count_at_def)

text \<open>One more event for a channel of a thousand.\<close>

lemma offer_event:
  assumes "wf_registry (clRegistry c)" and "has_drops c n"
  shows "\<exists>c' s'. run R (ProcessEvent e c) s = (Some c', s') \<and> wf_registry (clRegistry c') \<and>
    has_drops c' (if length (clEventChan c) < 1000 then n else n + 1) \<and> clStopped c' = clStopped c \<and>
    clEventChan c' = (if length (clEventChan c) < 1000 then clEventChan c @ [e] else clEventChan c) \<and>
    (\<forall>k. k \<noteq> drop_key \<longrightarrow> map_of (rgMetrics (clRegistry c')) k = map_of (rgMetrics (clRegistry c)) k)"
proof (cases "length (clEventChan c) < 1000")
  case True
  then show ?thesis using assms by (simp add: ProcessEvent_def has_drops_def)
next
  case False
  obtain x where x: "map_of (rgMetrics (clRegistry c)) drop_key = Some (MCounter x)" "ctValue x = n"
    using assms(2) by (auto simp: has_drops_def)
  let ?x = "Counter_Inc (int_of (fst (R s NowNano))) x"
  let ?c = "c\<lparr>clRegistry := put_metric drop_key (MCounter ?x) (clRegistry c)\<rparr>"
  have "run R (ProcessEvent e c) s = (Some ?c, snd (R s NowNano))"
    using False x(1) by (simp add: ProcessEvent_def bump_def run_Call)
  moreover have "wf_registry (clRegistry ?c)" using assms(1) by (simp add: put_metric_wf)
  moreover have "has_drops ?c (n + 1)" using x(2) by (simp add: has_drops_def put_metric_at inc_value)
  ultimately show ?thesis using False by (simp add: put_metric_at)
qed

lemma offer_events:
  assumes "wf_registry (clRegistry c)" and "has_drops c n" and "length (clEventChan c) \<le> 1000"
  shows "\<exists>c' s'. run R (for_each ProcessEvent es c) s = (Some c', s') \<and> wf_registry (clRegistry c') \<and>
    has_drops c' (n + of_nat (length (clEventChan c) + length es - 1000)) \<and> clStopped c' = clStopped c \<and>
    clEventChan c' = take 1000 (clEventChan c @ es) \<and>
    (\<forall>k. k \<noteq> drop_key \<longrightarrow> map_of (rgMetrics (clRegistry c')) k = map_of (rgMetrics (clRegistry c)) k)"
  using assms
proof (induction es arbitrary: c n s)
  case (Cons e es)
  let ?room = "length (clEventChan c) < 1000"
  obtain c1 s1 where 1: "run R (ProcessEvent e c) s = (Some c1, s1)" "wf_registry (clRegistry c1)"
    "has_drops c1 (if ?room then n else n + 1)" "clStopped c1 = clStopped c"
    "clEventChan c1 = (if ?room then clEventChan c @ [e] else clEventChan c)"
    "\<forall>k. k \<noteq> drop_key \<longrightarrow> map_of (rgMetrics (clRegistry c1)) k = map_of (rgMetrics (clRegistry c)) k"
    using offer_event [OF Cons.prems(1,2), of R e s] by blast
  have "length (clEventChan c1) \<le> 1000" using Cons.prems(3) 1(5) by auto
  from Cons.IH [OF 1(2,3) this, of s1] obtain c2 s2 where
    2: "run R (for_each ProcessEvent es c1) s1 = (Some c2, s2)" "wf_registry (clRegistry c2)"
      "has_drops c2 ((if ?room then n else n + 1) + of_nat (length (clEventChan c1) + length es - 1000))"
      "clStopped c2 = clStopped c1" "clEventChan c2 = take 1000 (clEventChan c1 @ es)"
      "\<forall>k. k \<noteq> drop_key \<longrightarrow> map_of (rgMetrics (clRegistry c2)) k = map_of (rgMetrics (clRegistry c1)) k" by blast
  have "(if ?room then n else n + 1) + of_nat (length (clEventChan c1) + length es - 1000) =
      n + of_nat (length (clEventChan c) + length (e # es) - 1000)"
    using Cons.prems(3) 1(5) by (cases ?room) (auto simp: not_less)
  moreover have "take 1000 (clEventChan c1 @ es) = take 1000 (clEventChan c @ e # es)"
    using Cons.prems(3) 1(5) by (cases ?room) auto
  ultimately show ?case using 1(1,4,6) 2 by (simp add: run_bindp)
qed simp

text \<open>The events of the channel, one after the other.\<close>

lemma drain_events:
  assumes "wf_registry (clRegistry c)" and "\<not> clStopped c"
  shows "\<exists>c' s'. run R (for_each (\<lambda>_. processEvents_step L) (clEventChan c) c) s = (Some c', s') \<and> clEventChan c' = [] \<and>
    (\<forall>n k. n \<in> watched \<longrightarrow> key_name k = n \<longrightarrow> counter_at k (clRegistry c) \<longrightarrow>
      count_at k (clRegistry c') = count_at k (clRegistry c) + of_nat (length (filter (hits n k) (clEventChan c))))"
  using assms
proof (induction "clEventChan c" arbitrary: c s)
  case Nil
  then show ?case by (auto simp flip: Nil(1))
next
  case (Cons e es)
  note chan = Cons.hyps(2) [symmetric]
  obtain r1 s1 where 1: "run R (updateMetricsFromEvent L e (clRegistry c)) s = (Some r1, s1)" "wf_registry r1"
    using counts_event [OF Cons.prems(1), of "''metrics.dropped.total''" e L R] unfolding counts_def by blast
  have counted: "counter_at k r1 \<and> count_at k r1 = count_at k (clRegistry c) + (if hits n k e then 1 else 0)"
    if at: "n \<in> watched" "key_name k = n" "counter_at k (clRegistry c)" for n k
  proof -
    obtain r' s' where r': "run R (updateMetricsFromEvent L e (clRegistry c)) s = (Some r', s')"
      "\<And>k. key_name k = n \<Longrightarrow> counter_at k (clRegistry c) \<Longrightarrow>
        counter_at k r' \<and> count_at k r' = count_at k (clRegistry c) + (if hits n k e then 1 else 0)"
      using counts_event [OF Cons.prems(1) at(1), of e L R] unfolding counts_def by blast
    have "r' = r1" using r'(1) 1(1) by simp
    with r'(2) [OF at(2,3)] show ?thesis by simp
  qed
  let ?c = "c\<lparr>clEventChan := es, clRegistry := r1\<rparr>"
  obtain c2 s2 where 2: "run R (for_each (\<lambda>_. processEvents_step L) (clEventChan ?c) ?c) s1 = (Some c2, s2)" "clEventChan c2 = []"
    "\<forall>n k. n \<in> watched \<longrightarrow> key_name k = n \<longrightarrow> counter_at k r1 \<longrightarrow>
      count_at k (clRegistry c2) = count_at k r1 + of_nat (length (filter (hits n k) es))"
    using Cons.hyps(1) [of ?c s1] 1(2) Cons.prems(2) by auto
  have step: "run R (processEvents_step L c) s = (Some ?c, s1)"
    using Cons.prems(2) 1(1) by (simp add: processEvents_step_def chan on_registry_def run_bindp)
  have "count_at k (clRegistry c2) = count_at k (clRegistry c) + of_nat (length (filter (hits n k) (clEventChan c)))"
    if "n \<in> watched" "key_name k = n" "counter_at k (clRegistry c)" for n k
    using counted [OF that] 2(3) [rule_format, OF that(1,2)] by (simp add: chan)
  then show ?case using step 2(1,2) by (auto simp: chan run_bindp)
qed

lemma new_collector:
  assumes "outcome R0 (NewCollector cfg) s0 = Some (Some c)"
  shows "clEventChan c = []" and "\<not> clStopped c" and "wf_registry (clRegistry c)" and "has_drops c 0"
    and "counter_at k (clRegistry c)" and "count_at k (clRegistry c) = 0"
proof -
  let ?r = "register_own ''metrics.errors.total'' ''Total collection errors'' (register_own ''metrics.dropped.total''
    ''Total metrics dropped'' (register_own ''metrics.collected.total'' ''Total metrics collected'' NewRegistry))"
  have c: "clRegistry c = ?r" "clEventChan c = []" "\<not> clStopped c"
    using assms by (auto simp: NewCollector_def NewWriter_def Let_def run_Call split: if_splits)
  have r: "rgMetrics ?r = map (\<lambda>(n, h). (n, MCounter (NewCounter n h [])))
      [(''metrics.collected.total'', ''Total metrics collected''), (''metrics.dropped.total'', ''Total metrics dropped''),
       (''metrics.errors.total'', ''Total collection errors'')]"
    by (simp add: register_own_def Register_def Let_def metric_config_def new_metric_def NewRegistry_def metricKey_def)
  show "clEventChan c = []" "\<not> clStopped c" by (rule c)+
  have all: "\<exists>x. m = MCounter x \<and> ctValue x = 0" if "map_of (rgMetrics (clRegistry c)) k = Some m" for k m
    using that by (auto simp: c r NewCounter_def split: if_splits)
  show "wf_registry (clRegistry c)" using all by (fastforce simp: wf_registry_def)
  show "has_drops c 0" by (simp add: has_drops_def c(1) r metricKey_def NewCounter_def)
  show "counter_at k (clRegistry c)" "count_at k (clRegistry c) = 0"
    using all [of k] by (cases "map_of (rgMetrics (clRegistry c)) k"; auto simp: counter_at_def count_at_def)+
qed

text \<open>C19. Events are counted or accounted for: of a burst of events that reaches a new collector before it takes any, the
  first thousand are processed and each of the others adds one to the counter of dropped events. Each counter of
  received, validated or rejected submissions ends with the number of the processed events that have its type and labels that
  make its key (modulo \<open>2 ^ 64\<close>), whatever the other events and their payloads hold; nothing panics.\<close>

theorem burst_is_counted:
  assumes "outcome R0 (NewCollector cfg) s0 = Some (Some c)"
  shows "\<exists>c'. outcome R (burst L es c) s = Some c' \<and> clEventChan c' = [] \<and>
    count_at (metricKey ''metrics.dropped.total'' []) (clRegistry c') = of_nat (length es - 1000) \<and>
    (\<forall>(ty, n) \<in> set submission_counters. \<forall>ls. count_at (metricKey n ls) (clRegistry c') =
      of_nat (length (filter (\<lambda>e. evType e = ty \<and> metricKey n (event_labels e) = metricKey n ls) (take 1000 es))))"
proof -
  note new = new_collector [OF assms]
  have "length (clEventChan c) \<le> 1000" by (simp add: new(1))
  from offer_events [OF new(3,4) this, of R es s] obtain c1 s1 where
    1: "run R (for_each ProcessEvent es c) s = (Some c1, s1)" "wf_registry (clRegistry c1)"
      "has_drops c1 (of_nat (length es - 1000))" "\<not> clStopped c1" "clEventChan c1 = take 1000 es"
      "\<forall>k. k \<noteq> drop_key \<longrightarrow> map_of (rgMetrics (clRegistry c1)) k = map_of (rgMetrics (clRegistry c)) k"
    using new(1,2) by auto
  from drain_events [OF 1(2,4), of R L s1] obtain c2 s2 where
    2: "run R (for_each (\<lambda>_. processEvents_step L) (clEventChan c1) c1) s1 = (Some c2, s2)" "clEventChan c2 = []"
      "\<And>n k. n \<in> watched \<Longrightarrow> key_name k = n \<Longrightarrow> counter_at k (clRegistry c1) \<Longrightarrow>
        count_at k (clRegistry c2) = count_at k (clRegistry c1) + of_nat (length (filter (hits n k) (take 1000 es)))"
    unfolding 1(5) by blast
  have "\<not> hits ''metrics.dropped.total'' drop_key e" for e by (simp add: hits_def submission_counters_def)
  then have drops: "count_at drop_key (clRegistry c2) = of_nat (length es - 1000)"
    using 2(3) [of "''metrics.dropped.total''" drop_key] has_dropsD [OF 1(3)] by simp
  have "count_at (metricKey n ls) (clRegistry c2) =
      of_nat (length (filter (\<lambda>e. evType e = ty \<and> metricKey n (event_labels e) = metricKey n ls) (take 1000 es)))"
    if n: "(ty, n) \<in> set submission_counters" for ty n ls
  proof -
    have key: "key_name (metricKey n ls) = n" "n \<in> watched" "n \<noteq> ''metrics.dropped.total''"
      using n by (auto simp: submission_counters_def)
    have "metricKey n ls \<noteq> drop_key" using key(1,3) key_name_metricKey [of "''metrics.dropped.total''" "[]"] by auto
    then have at: "map_of (rgMetrics (clRegistry c1)) (metricKey n ls) = map_of (rgMetrics (clRegistry c)) (metricKey n ls)"
      using 1(6) by blast
    have "counter_at (metricKey n ls) (clRegistry c1)" "count_at (metricKey n ls) (clRegistry c1) = 0"
      using at new(5,6) [of "metricKey n ls"] by (simp_all add: counter_at_def count_at_def)
    moreover have "hits n (metricKey n ls) = (\<lambda>e. evType e = ty \<and> metricKey n (event_labels e) = metricKey n ls)"
      using n by (auto simp: hits_def submission_counters_def)
    ultimately show ?thesis using 2(3) [OF key(2,1)] by simp
  qed
  with drops show ?thesis using 1(1) 2(1,2) by (auto simp: burst_def run_bindp)
qed

theorem burst_is_counted_witness:
  "\<exists>c c'. outcome store_step (NewCollector None) empty_store = Some (Some c) \<and>
    outcome store_step (burst demo_lib [zero_event\<lparr>evType := ''submission_received''\<rparr>] c) empty_store = Some c' \<and>
    count_at (metricKey ''submissions.received.count'' (event_labels zero_event)) (clRegistry c') = 1"
proof -
  have "\<exists>c. outcome store_step (NewCollector None) empty_store = Some (Some c)"
    by (simp add: NewCollector_def NewWriter_def DefaultCollectorConfig_def run_Call Let_def)
  then obtain c where c: "outcome store_step (NewCollector None) empty_store = Some (Some c)" by blast
  have "event_labels (zero_event\<lparr>evType := ''submission_received''\<rparr>) = event_labels zero_event"
    by (simp add: event_labels_def)
  with burst_is_counted [OF c, of store_step demo_lib "[zero_event\<lparr>evType := ''submission_received''\<rparr>]" empty_store] c
  show ?thesis by (auto simp: submission_counters_def)
qed

end
