(* ===== verification/Consumer.thy ===== *)
theory Consumer
  imports Aggregator Config
begin

text \<open>
  \<open>cmd/aggregator/main.go\<close>, the side towards Redis: the consumer of the aggregation stream with its health check and the
  claiming of stalled messages, the monitor of finalized batches, and the start. A turn of each loop is an operation; the
  pauses and the blocking of reads are left out. \<open>cfg\<close> are the settings.
\<close>

definition aggregator_of :: "settings \<Rightarrow> bool \<Rightarrow> aggregator" where
  "aggregator_of cfg ipfsClient = NewAggregator (cfProtocolStateContract cfg) (cfDataMarketAddresses cfg) (cfSequencerID cfg)
     ipfsClient (cfStreamConsumerGroup cfg)"

text \<open>An error whose text says that the group exists is none; \<open>busyGroup\<close> tells whether it says so.\<close>

definition initializeStreamConsumer :: "bool \<Rightarrow> settings \<Rightarrow> aggregator \<Rightarrow> bool prog" where
  "initializeStreamConsumer busyGroup cfg a =
     Call (RXGroupMk (AggregationStream (agKeys a)) (cfStreamConsumerGroup cfg)) (\<lambda>r. Ret (r \<noteq> ErrR \<or> busyGroup))"

text \<open>Redis must answer; without an IPFS client the aggregator goes on.\<close>

definition start_aggregator :: "settings \<Rightarrow> bool \<Rightarrow> bool \<Rightarrow> aggregator option prog" where
  "start_aggregator cfg ipfsClient busyGroup =
     Call RPing (\<lambda>r.
     if r = ErrR then Ret None
     else
       let a = aggregator_of cfg (cfIPFSAPI cfg \<noteq> [] \<and> ipfsClient) in
       bindp (initializeStreamConsumer busyGroup cfg a) (\<lambda>ok. Ret (if ok then Some a else None)))"

text \<open>A message that is processed is left as it is: only one that fails is acknowledged, by \<open>moveToDeadLetterQueue\<close>.\<close>

definition consume_turn :: "golib \<Rightarrow> settings \<Rightarrow> aggregator \<Rightarrow> aggregator prog" where
  "consume_turn L cfg a =
     Call (RXRead (AggregationStream (agKeys a)) (cfStreamConsumerGroup cfg) (cfStreamConsumerName cfg) (cfStreamBatchSize cfg)) (\<lambda>r.
       case r of
         MsgsR ms \<Rightarrow> for_each (handle_message L) (map (\<lambda>(i, fs). as_message i fs) ms) a
       | _ \<Rightarrow> Ret a)"

section \<open>Stalled messages\<close>

definition claim_message :: "golib \<Rightarrow> settings \<Rightarrow> string \<times> int \<Rightarrow> aggregator \<Rightarrow> aggregator prog" where
  "claim_message L cfg p a =
     (if cfStreamIdleTimeout cfg \<le> snd p
      then
        Call (RXClaim (AggregationStream (agKeys a)) (cfStreamConsumerGroup cfg) (cfStreamConsumerName cfg)
            (cfStreamIdleTimeout cfg) (fst p)) (\<lambda>r.
          case r of
            MsgsR (m # ms) \<Rightarrow> bindp (processStreamMessage L a (as_message (fst m) (snd m))) (\<lambda>(ok, a'). Ret a')
          | _ \<Rightarrow> Ret a)
      else Ret a)"

definition claimStalledMessages :: "golib \<Rightarrow> settings \<Rightarrow> aggregator \<Rightarrow> aggregator prog" where
  "claimStalledMessages L cfg a =
     Call (RXPending (AggregationStream (agKeys a)) (cfStreamConsumerGroup cfg) (cfStreamConsumerName cfg) 10) (\<lambda>r.
       case r of PendingR ps \<Rightarrow> for_each (claim_message L cfg) ps a | _ \<Rightarrow> Ret a)"

definition monitorConsumerHealth :: "golib \<Rightarrow> settings \<Rightarrow> aggregator \<Rightarrow> aggregator prog" where
  "monitorConsumerHealth L cfg a =
     Call (RXConsumers (AggregationStream (agKeys a)) (cfStreamConsumerGroup cfg)) (\<lambda>r.
       case r of
         ConsumersR cs \<Rightarrow>
           (case find (\<lambda>c. fst c = cfStreamConsumerName cfg) cs of
              None \<Rightarrow> Ret a
            | Some (name, pending, idle) \<Rightarrow>
                if cfStreamIdleTimeout cfg < idle then claimStalledMessages L cfg a else Ret a)
       | _ \<Rightarrow> Ret a)"

section \<open>The monitor of finalized batches\<close>

record batchMonitor =
  queuedEpochs :: "string list"
  lastCleanup :: int

definition is_aggregated_entry :: "string \<Rightarrow> bool" where
  "is_aggregated_entry m \<longleftrightarrow> has_prefix ''aggregated:'' m"

definition entry_epoch :: "string \<Rightarrow> string" where
  "entry_epoch m = drop (length ''aggregated:'') m"

text \<open>The first pass asks for each aggregated batch; what it counts is only logged.\<close>

definition count_entry :: "aggregator \<Rightarrow> string \<Rightarrow> call list" where
  "count_entry a m = (if is_aggregated_entry m then [RExists (BatchAggregated (agKeys a) (entry_epoch m))] else [])"

definition queue_entry :: "aggregator \<Rightarrow> string \<Rightarrow> batchMonitor \<Rightarrow> batchMonitor prog" where
  "queue_entry a m b =
     (let e = entry_epoch m in
      if \<not> is_aggregated_entry m \<or> e \<in> set (queuedEpochs b) then Ret b
      else
        Call (RExists (BatchAggregated (agKeys a) e)) (\<lambda>r1.
        if r1 = ErrR then Ret b
        else if 0 < int_of r1 then Ret (b\<lparr>queuedEpochs := queuedEpochs b @ [e]\<rparr>)
        else
          Call (RExists (FinalizedBatch (agKeys a) e)) (\<lambda>r2.
          if r2 = ErrR \<or> int_of r2 = 0 then Ret b
          else
            Call (RLPush (AggregationQueue (agKeys a)) (Txt e)) (\<lambda>r3.
            Ret (if r3 = ErrR then b else b\<lparr>queuedEpochs := queuedEpochs b @ [e]\<rparr>)))))"

definition monitorFinalizedBatches :: "aggregator \<Rightarrow> batchMonitor \<Rightarrow> batchMonitor prog" where
  "monitorFinalizedBatches a b =
     Call NowNano (\<lambda>t0.
     let reset = 5 * 60 * 10 ^ 9 < int_of t0 - lastCleanup b;
         after = (\<lambda>b. Call Now (\<lambda>t. Call (RZRevBy (MetricsBatchesTimeline (agKeys a)) (int_of t - 3600) 1000) (\<lambda>r.
           case r of
             StrsR ms \<Rightarrow> bindp (execs (concat (map (count_entry a) ms))) (\<lambda>_. for_each (queue_entry a) ms b)
           | _ \<Rightarrow> Ret b))) in
     if reset then Call NowNano (\<lambda>t1. after \<lparr>queuedEpochs = [], lastCleanup = int_of t1\<rparr>) else after b)"

end
