(* ===== verification/Consuming.thy ===== *)
theory Consuming
  imports Consumer
begin

text \<open>
  What the consumer makes of the aggregation stream on a reliable store: it reads every notification once and in
  order and opens the windows they announce, but never acknowledges one, so that all of them stay pending; and
  the claiming of stalled messages turns to the same oldest ten for ever.
\<close>

named_theorems consumer_simps "runs of the consumer"

section \<open>Turns\<close>

fun turns :: "nat \<Rightarrow> ('a \<Rightarrow> 'a prog) \<Rightarrow> 'a \<Rightarrow> 'a prog" where
  "turns 0 f a = Ret a"
| "turns (Suc n) f a = bindp (f a) (turns n f)"

abbreviation stream_key :: "aggregator \<Rightarrow> string" where
  "stream_key a \<equiv> AggregationStream (agKeys a)"

definition unread :: "store \<Rightarrow> string \<Rightarrow> string \<Rightarrow> (string \<times> blob) list list" where
  "unread d k g = drop (groupCursor d k g - trimmedOff d k) (streams d k)"

definition note_field :: "string \<Rightarrow> (string \<times> blob) list \<Rightarrow> string" where
  "note_field f fs = mget [] (xValues (as_message [] fs)) f"

text \<open>An entry as the gateway writes them.\<close>

definition notification :: "(string \<times> blob) list \<Rightarrow> bool" where
  "notification fs \<longleftrightarrow> set stream_fields \<subseteq> fst ` set fs"

text \<open>The epoch whose window a notification opens.\<close>

definition announces :: "golib \<Rightarrow> store \<Rightarrow> keyBuilder \<Rightarrow> (string \<times> blob) list \<Rightarrow> u64 \<Rightarrow> bool" where
  "announces L d kb fs e \<longleftrightarrow> note_field ''type'' fs = ''validator_batch'' \<and>
     parseEpochID L (note_field ''epoch'' fs) = Some e \<and> \<not> key_exists d (BatchAggregated kb (note_field ''epoch'' fs))"

definition window_opened :: "aggregator \<Rightarrow> u64 \<Rightarrow> bool" where
  "window_opened a e \<longleftrightarrow> map_of (epochTimers a) e \<noteq> None"

lemma startWindow_keys [simp]: "agKeys (startAggregationWindow L e a) = agKeys a"
  by (simp add: startAggregationWindow_def split: option.split)

lemma startWindow_opened:
  "window_opened (startAggregationWindow L t a) e \<longleftrightarrow> window_opened a e \<or> parseEpochID L t = Some e"
  by (auto simp: window_opened_def startAggregationWindow_def map_of_update split: option.splits)

section \<open>One message\<close>

lemma message_fields:
  "xValues (as_message i fs) = map (\<lambda>(f, x). (f, field_text (Some x))) fs"
  "mget [] (xValues (as_message i fs)) f = note_field f fs"
  by (simp_all add: as_message_def note_field_def)

lemma message_has: "map_of (xValues (as_message i fs)) f = None \<longleftrightarrow> f \<notin> fst ` set fs"
  unfolding message_fields map_of_eq_None_iff by force

definition after_note :: "golib \<Rightarrow> store \<Rightarrow> (string \<times> blob) list \<Rightarrow> aggregator \<Rightarrow> aggregator" where
  "after_note L d fs a =
     (if note_field ''type'' fs = ''validator_batch'' \<and> \<not> key_exists d (BatchAggregated (agKeys a) (note_field ''epoch'' fs))
      then startAggregationWindow L (note_field ''epoch'' fs) a else a)"

lemma after_note_keys [simp]: "agKeys (after_note L d fs a) = agKeys a"
  by (simp add: after_note_def)

lemma after_note_opened: "window_opened (after_note L d fs a) e \<longleftrightarrow> window_opened a e \<or> announces L d (agKeys a) fs e"
  unfolding after_note_def announces_def using startWindow_opened by auto

lemma process_run:
  assumes "notification fs"
  shows "run store_step (processStreamMessage L a (as_message i fs)) d = (Some (True, after_note L d fs a), d)"
proof -
  have "\<not> (\<exists>f \<in> set stream_fields. map_of (xValues (as_message i fs)) f = None)"
    using assms by (auto simp: message_has notification_def)
  then show ?thesis
    by (simp add: processStreamMessage_def Let_def message_fields(2) after_note_def run_Call)
qed

lemma handle_run:
  "notification fs \<Longrightarrow> run store_step (handle_message L (as_message i fs) a) d = (Some (after_note L d fs a), d)"
  by (simp add: handle_message_def run_bindp process_run)

lemma handle_all_run:
  "list_all (\<lambda>m. notification (snd m)) ms \<Longrightarrow>
     run store_step (for_each (handle_message L) (map (\<lambda>(i, fs). as_message i fs) ms) a) d =
       (Some (fold (after_note L d) (map snd ms) a), d)"
  by (induction ms arbitrary: a) (auto simp: run_bindp handle_run)

lemma fold_notes:
  "agKeys (fold (after_note L d) fss a) = agKeys a"
  "window_opened (fold (after_note L d) fss a) e \<longleftrightarrow> window_opened a e \<or> (\<exists>fs \<in> set fss. announces L d (agKeys a) fs e)"
  by (induction fss arbitrary: a) (auto simp: after_note_opened)

section \<open>One turn\<close>

text \<open>The part of the store on which the meaning of a notification depends, and what reading leaves alone.\<close>

lemma read_keeps:
  "key_exists (snd (group_read d k g c n)) = key_exists d" "groups (snd (group_read d k g c n)) = groups d"
  "trimmedOff (snd (group_read d k g c n)) = trimmedOff d" "acked (snd (group_read d k g c n)) = acked d"
  "entryID (snd (group_read d k g c n)) = entryID d"
  by (simp_all add: group_read_def Let_def key_exists_def stream_exists_def fun_eq_iff)

lemma announces_read [simp]: "announces L (snd (group_read d k g c n)) = announces L d"
  by (simp add: announces_def read_keeps fun_eq_iff)

lemma after_note_read [simp]: "after_note L (snd (group_read d k g c n)) = after_note L d"
  by (simp add: after_note_def read_keeps fun_eq_iff)

lemma group_read_fields:
  assumes "trimmedOff d k \<le> groupCursor d k g"
  shows "map snd (fst (group_read d k g c n)) = take n (unread d k g)"
    and "unread (snd (group_read d k g c n)) k g = drop n (unread d k g)"
    and "groupCursor (snd (group_read d k g c n)) k g = groupCursor d k g + length (take n (unread d k g))"
    and "map fst (groupPending (snd (group_read d k g c n)) k g) =
      map fst (groupPending d k g) @ [groupCursor d k g ..< groupCursor d k g + length (take n (unread d k g))]"
proof -
  have i: "max (groupCursor d k g) (trimmedOff d k) = groupCursor d k g" using assms by simp
  let ?es = "take n (unread d k g)"
  show "map snd (fst (group_read d k g c n)) = ?es"
    "groupCursor (snd (group_read d k g c n)) k g = groupCursor d k g + length ?es"
    "map fst (groupPending (snd (group_read d k g c n)) k g) =
      map fst (groupPending d k g) @ [groupCursor d k g ..< groupCursor d k g + length ?es]"
    by (simp_all add: group_read_def Let_def i unread_def comp_def)
  have "drop (length ?es) (unread d k g) = drop n (unread d k g)"
    by (cases "n \<le> length (unread d k g)") (simp_all add: min_def)
  then show "unread (snd (group_read d k g c n)) k g = drop n (unread d k g)"
    using assms by (simp add: group_read_def Let_def i unread_def add.commute del: length_take)
qed

lemma consume_run:
  assumes "cfStreamConsumerGroup cfg \<in> set (groups d (stream_key a))"
    and "list_all notification (unread d (stream_key a) (cfStreamConsumerGroup cfg))"
    and "trimmedOff d (stream_key a) \<le> groupCursor d (stream_key a) (cfStreamConsumerGroup cfg)"
  defines "rd \<equiv> group_read d (stream_key a) (cfStreamConsumerGroup cfg) (cfStreamConsumerName cfg) (nat (cfStreamBatchSize cfg))"
  shows "run store_step (consume_turn L cfg a) d =
    (Some (fold (after_note L d) (map snd (fst rd)) a), if fst rd = [] then d else snd rd)"
proof -
  have "list_all notification (map snd (fst rd))"
    using group_read_fields(1) [OF assms(3)] assms(2) unfolding rd_def
    by (metis append_take_drop_id list_all_append)
  then have n: "list_all (\<lambda>m. notification (snd m)) (map (\<lambda>(i, e). (entryID d (stream_key a) i, e)) (fst rd))"
    by (simp add: list.pred_map comp_def case_prod_unfold)
  obtain ms d' where rd: "rd = (ms, d')" by fastforce
  have d': "after_note L d' = after_note L d" using after_note_read [of L d] rd by (metis rd_def snd_conv)
  show ?thesis using assms(1) n rd handle_all_run [OF n, of L a d']
    by (simp add: consume_turn_def run_Call rd_def [symmetric] d' comp_def case_prod_unfold)
qed

section \<open>All turns\<close>

lemma consume_turns:
  assumes "cfStreamConsumerGroup cfg \<in> set (groups d (stream_key a))" (is "?g \<in> _")
    and "list_all notification (unread d (stream_key a) (cfStreamConsumerGroup cfg))"
    and "trimmedOff d (stream_key a) \<le> groupCursor d (stream_key a) (cfStreamConsumerGroup cfg)"
    and "0 < cfStreamBatchSize cfg"
    and "length (unread d (stream_key a) (cfStreamConsumerGroup cfg)) \<le> m * nat (cfStreamBatchSize cfg)"
  shows "\<exists>a' d'. run store_step (turns m (consume_turn L cfg) a) d = (Some a', d') \<and>
    (\<forall>e. window_opened a' e \<longleftrightarrow> window_opened a e \<or> (\<exists>fs \<in> set (unread d (stream_key a) ?g). announces L d (agKeys a) fs e)) \<and>
    unread d' (stream_key a) ?g = [] \<and> acked d' = acked d \<and>
    map fst (groupPending d' (stream_key a) ?g) = map fst (groupPending d (stream_key a) ?g) @
      [groupCursor d (stream_key a) ?g ..< groupCursor d (stream_key a) ?g + length (unread d (stream_key a) ?g)]"
  using assms
proof (induction m arbitrary: a d)
  case 0
  then show ?case by simp
next
  case (Suc m)
  let ?k = "stream_key a" and ?n = "nat (cfStreamBatchSize cfg)"
  let ?rd = "group_read d ?k ?g (cfStreamConsumerName cfg) ?n"
  note f = group_read_fields [OF Suc.prems(3), of "cfStreamConsumerName cfg" ?n]
  define us where "us = unread d ?k ?g"
  let ?a = "fold (after_note L d) (take ?n us) a"
  define d1 where "d1 = (if fst ?rd = [] then d else snd ?rd)"
  have turn: "run store_step (consume_turn L cfg a) d = (Some ?a, d1)"
    using consume_run [OF Suc.prems(1,2,3), of L] by (simp add: f(1) us_def d1_def)
  have empty: "fst ?rd = [] \<longleftrightarrow> us = []"
    using f(1) Suc.prems(4) by (metis map_is_Nil_conv nat_0_iff not_le take_eq_Nil us_def)
  have d1: "unread d1 ?k ?g = drop ?n us" "groupCursor d1 ?k ?g = groupCursor d ?k ?g + length (take ?n us)"
    "map fst (groupPending d1 ?k ?g) = map fst (groupPending d ?k ?g) @ [groupCursor d ?k ?g ..< groupCursor d ?k ?g + length (take ?n us)]"
    "groups d1 = groups d" "trimmedOff d1 = trimmedOff d" "acked d1 = acked d" "announces L d1 = announces L d"
    using empty f(2,3,4) by (simp_all add: d1_def us_def read_keeps)
  have keys: "agKeys ?a = agKeys a" by (rule fold_notes(1))
  have len: "length (drop ?n us) \<le> m * ?n" using Suc.prems(5) by (simp add: us_def)
  obtain a' d' where IH: "run store_step (turns m (consume_turn L cfg) ?a) d1 = (Some a', d')"
    "\<And>e. window_opened a' e \<longleftrightarrow> window_opened ?a e \<or> (\<exists>fs \<in> set (drop ?n us). announces L d (agKeys a) fs e)"
    "unread d' ?k ?g = []" "acked d' = acked d"
    "map fst (groupPending d' ?k ?g) = map fst (groupPending d1 ?k ?g) @
      [groupCursor d1 ?k ?g ..< groupCursor d1 ?k ?g + length (drop ?n us)]"
    using Suc.IH [of d1 ?a, unfolded keys d1(1,4,5)] Suc.prems(1,2,3,4) len d1(2,6,7)
    by (auto simp: us_def list_all_iff dest: in_set_dropD)
  have total: "length (take ?n us) + length (drop ?n us) = length us" by (metis append_take_drop_id length_append)
  have sets: "set us = set (take ?n us) \<union> set (drop ?n us)" by (metis append_take_drop_id set_append)
  have "window_opened a' e \<longleftrightarrow> window_opened a e \<or> (\<exists>fs \<in> set us. announces L d (agKeys a) fs e)" for e
    unfolding IH(2) fold_notes(2) sets by blast
  moreover have "map fst (groupPending d' ?k ?g) = map fst (groupPending d ?k ?g) @
      [groupCursor d ?k ?g ..< groupCursor d ?k ?g + length us]"
    unfolding IH(5) d1(2,3)
    using total upt_add_eq_append [of "groupCursor d ?k ?g" "groupCursor d ?k ?g + length (take ?n us)" "length (drop ?n us)"]
    by (simp add: add.assoc del: length_take length_drop)
  ultimately show ?case using turn IH(1,3,4) by (simp add: run_bindp us_def [symmetric])
qed

text \<open>C20. The stream is consumed once and kept pending for ever: after enough turns of the consumer every notification was
  handed to it exactly once, and the windows that are open then are those that were open and those of the
  epochs announced and not aggregated. But nothing is acknowledged: every notification, though processed, is pending.\<close>

theorem notifications_are_read_once_and_stay_pending:
  assumes "reliable R v" and "k = AggregationStream (agKeys a)" and "g = cfStreamConsumerGroup cfg"
    and "g \<in> set (groups (v s) k)" and "list_all notification (unread (v s) k g)"
    and "trimmedOff (v s) k \<le> groupCursor (v s) k g"
    and "0 < cfStreamBatchSize cfg" and "length (unread (v s) k g) \<le> m * nat (cfStreamBatchSize cfg)"
    and "s' = final R (turns m (consume_turn L cfg) a) s"
  shows "\<exists>a'. outcome R (turns m (consume_turn L cfg) a) s = Some a' \<and>
    (\<forall>e. window_opened a' e \<longleftrightarrow> window_opened a e \<or> (\<exists>fs \<in> set (unread (v s) k g). announces L (v s) (agKeys a) fs e)) \<and>
    unread (v s') k g = [] \<and> acked (v s') = acked (v s) \<and>
    map fst (groupPending (v s') k g) = map fst (groupPending (v s) k g) @
      [groupCursor (v s) k g ..< groupCursor (v s) k g + length (unread (v s) k g)]"
proof -
  obtain a' d' where r: "run store_step (turns m (consume_turn L cfg) a) (v s) = (Some a', d')"
    "\<forall>e. window_opened a' e \<longleftrightarrow> window_opened a e \<or> (\<exists>fs \<in> set (unread (v s) k g). announces L (v s) (agKeys a) fs e)"
    "unread d' k g = []" "acked d' = acked (v s)"
    "map fst (groupPending d' k g) = map fst (groupPending (v s) k g) @
      [groupCursor (v s) k g ..< groupCursor (v s) k g + length (unread (v s) k g)]"
    using consume_turns [OF assms(4,5,6) [unfolded assms(2,3)] assms(7) assms(8) [unfolded assms(2,3)], of L]
    unfolding assms(2,3) by blast
  then show ?thesis unfolding assms(9) by (simp add: reliable_run [OF assms(1)])
qed

definition demo_note :: "(string \<times> blob) list" where
  "demo_note = [(''epoch'', Txt ''7''), (''validator'', Txt ''v2''), (''batch_key'', Txt ''k''),
     (''timestamp'', Js (JNum 1)), (''type'', Txt ''validator_batch'')]"

definition demo_settings :: settings where
  "demo_settings = (read_settings (\<lambda>_. []))\<lparr>cfStreamConsumerGroup := ''g'', cfStreamConsumerName := ''c'', cfStreamBatchSize := 1,
     cfStreamIdleTimeout := 0\<rparr>"

definition demo_stream :: store where
  "demo_stream = empty_store\<lparr>streams := (\<lambda>_. [demo_note]), groups := (\<lambda>_. [''g''])\<rparr>"

lemma demo_settings_simps [simp]:
  "cfStreamConsumerGroup demo_settings = ''g''" "cfStreamBatchSize demo_settings = 1"
  "cfStreamConsumerName demo_settings = ''c''" "cfStreamIdleTimeout demo_settings = 0"
  by (simp_all add: demo_settings_def)

theorem notifications_are_read_once_and_stay_pending_witness:
  "\<exists>a'. outcome store_step (turns 1 (consume_turn demo_lib demo_settings) demo_agg) demo_stream = Some a' \<and>
    map fst (groupPending (final store_step (turns 1 (consume_turn demo_lib demo_settings) demo_agg) demo_stream)
      (AggregationStream (agKeys demo_agg)) ''g'') = [0]"
proof -
  have "list_all notification (unread demo_stream (stream_key demo_agg) ''g'')"
    by (simp add: unread_def demo_stream_def empty_store_def notification_def demo_note_def stream_fields_def)
  from notifications_are_read_once_and_stay_pending [OF reliable_store refl _ _ this _ _ _ refl, of demo_settings 1 demo_lib]
  show ?thesis by (simp add: demo_stream_def empty_store_def unread_def) blast
qed

section \<open>Claiming\<close>

fun claimed_id :: "call \<Rightarrow> string option" where
  "claimed_id (RXClaim k g c idle i) = Some i"
| "claimed_id _ = None"

definition claims_within :: "string set \<Rightarrow> call list \<Rightarrow> bool" where
  "claims_within ids cs \<longleftrightarrow> (\<forall>c \<in> set cs. case claimed_id c of None \<Rightarrow> True | Some i \<Rightarrow> i \<in> ids)"

lemma claims_within_simps [simp]:
  "claims_within ids []" "claims_within ids (c # cs) \<longleftrightarrow> (case claimed_id c of None \<Rightarrow> True | Some i \<Rightarrow> i \<in> ids) \<and> claims_within ids cs"
  "claims_within ids (as @ bs) \<longleftrightarrow> claims_within ids as \<and> claims_within ids bs"
  by (auto simp: claims_within_def)

lemma process_quiet:
  "\<exists>ok a'. run store_step (processStreamMessage L a m) d = (Some (ok, a'), d) \<and> agKeys a' = agKeys a"
  "claims_within ids (trace store_step (processStreamMessage L a m) d)"
  by (auto simp: processStreamMessage_def Let_def run_Call trace_Call claims_within_def)

text \<open>What no claim changes: the entries of the stream, and which are pending with which consumer.\<close>

definition same_pending :: "string \<Rightarrow> string \<Rightarrow> store \<Rightarrow> store \<Rightarrow> bool" where
  "same_pending k g d0 d \<longleftrightarrow> streams d k = streams d0 k \<and> trimmedOff d k = trimmedOff d0 k \<and> entryID d k = entryID d0 k \<and>
     g \<in> set (groups d k) \<and> acked d = acked d0 \<and>
     map (\<lambda>(i, c, t). (i, c)) (groupPending d k g) = map (\<lambda>(i, c, t). (i, c)) (groupPending d0 k g)"

definition pending_of :: "store \<Rightarrow> string \<Rightarrow> string \<Rightarrow> string \<Rightarrow> nat list" where
  "pending_of d k g c = map fst (filter (\<lambda>(i, c', t). c' = c) (groupPending d k g))"

lemma pending_of_pairs: "pending_of d k g c = map fst (filter (\<lambda>x. snd x = c) (map (\<lambda>(i, c, t). (i, c)) (groupPending d k g)))"
  unfolding pending_of_def filter_map map_map comp_def by (simp add: case_prod_unfold)

lemma pairs_fst: "map fst xs = map fst (map (\<lambda>(i, c, t). (i, c)) xs)"
  by (simp add: comp_def case_prod_unfold)

lemma same_pending_fst:
  assumes "same_pending k g d0 d"
  shows "map fst (groupPending d k g) = map fst (groupPending d0 k g)" and "pending_of d k g c = pending_of d0 k g c"
  using assms unfolding pending_of_pairs same_pending_def pairs_fst [of "groupPending d k g"] pairs_fst [of "groupPending d0 k g"]
  by (simp_all only:)

definition claims_ok :: "string \<Rightarrow> string \<Rightarrow> store \<Rightarrow> bool" where
  "claims_ok k g d \<longleftrightarrow> g \<in> set (groups d k) \<and> inj (entryID d k) \<and> distinct (map fst (groupPending d k g)) \<and>
     (\<forall>p \<in> set (groupPending d k g). trimmedOff d k \<le> fst p \<and> fst p - trimmedOff d k < length (streams d k))"

lemma same_claims_ok:
  assumes "claims_ok k g d0" and "same_pending k g d0 d"
  shows "claims_ok k g d"
proof -
  note f = same_pending_fst(1) [OF assms(2)]
  have "trimmedOff d k \<le> fst p \<and> fst p - trimmedOff d k < length (streams d k)" if "p \<in> set (groupPending d k g)" for p
  proof -
    have "fst p \<in> set (map fst (groupPending d0 k g))" using that f by (metis image_eqI set_map)
    then obtain q where "q \<in> set (groupPending d0 k g)" "fst q = fst p" by auto
    then show ?thesis using assms unfolding claims_ok_def same_pending_def by metis
  qed
  then show ?thesis using assms f by (simp add: claims_ok_def same_pending_def)
qed

lemma claim_same:
  assumes "claims_ok k g d" and "j \<in> set (pending_of d k g c)"
  shows "same_pending k g d (snd (group_claim d k g c idle (entryID d k j)))"
proof (cases "find (claimable d k idle (entryID d k j)) (groupPending d k g)")
  case None
  then show ?thesis using assms(1) by (simp add: group_claim_def Let_def same_pending_def claims_ok_def)
next
  case (Some p)
  obtain j' c' t where p: "p = (j', c', t)" by (cases p) auto
  obtain n where "n < length (groupPending d k g)" "claimable d k idle (entryID d k j) (groupPending d k g ! n)"
    "p = groupPending d k g ! n" using Some by (auto simp: find_Some_iff)
  then have "entryID d k j' = entryID d k j" by (simp add: claimable_def p flip: \<open>p = groupPending d k g ! n\<close>)
  then have j: "j' = j" using assms(1) by (metis claims_ok_def injD)
  obtain t' where mine: "(j, c, t') \<in> set (groupPending d k g)" using assms(2) by (auto simp: pending_of_def)
  have uniq: "q = (j, c, t')" if "q \<in> set (groupPending d k g)" "fst q = j" for q
  proof -
    have "(j, snd q) \<in> set (groupPending d k g)" using that by (metis prod.collapse)
    then have "snd q = (c, t')" using mine assms(1) eq_key_imp_eq_value unfolding claims_ok_def by metis
    then show ?thesis using that(2) by (simp add: prod_eq_iff)
  qed
  have "map (\<lambda>(i, c, t). (i, c)) (map (\<lambda>p. if fst p = j then (j, c, now) else p) (groupPending d k g)) =
      map (\<lambda>(i, c, t). (i, c)) (groupPending d k g)" for now
    using uniq by (auto simp: case_prod_unfold)
  moreover have "trimmedOff d k \<le> j \<and> j - trimmedOff d k < length (streams d k)"
    using assms(1) mine by (force simp: claims_ok_def)
  ultimately show ?thesis using assms(1) Some
    by (simp add: group_claim_def Let_def p j same_pending_def claims_ok_def)
qed

lemma claim_message_run:
  assumes "claims_ok (stream_key a) (cfStreamConsumerGroup cfg) d" (is "claims_ok ?k ?g d")
    and "j \<in> set (pending_of d (stream_key a) (cfStreamConsumerGroup cfg) (cfStreamConsumerName cfg))"
  shows "\<exists>a' d'. run store_step (claim_message L cfg (entryID d (stream_key a) j, idle) a) d = (Some a', d') \<and> agKeys a' = agKeys a \<and>
    same_pending ?k ?g d d' \<and> claims_within {entryID d ?k j} (trace store_step (claim_message L cfg (entryID d (stream_key a) j, idle) a) d)"
proof (cases "cfStreamIdleTimeout cfg \<le> idle")
  case True
  let ?r = "group_claim d ?k ?g (cfStreamConsumerName cfg) (cfStreamIdleTimeout cfg) (entryID d ?k j)"
  have g: "?g \<in> set (groups d ?k)" and same: "same_pending ?k ?g d (snd ?r)"
    using assms(1) claim_same [OF assms] by (simp_all add: claims_ok_def)
  obtain ms d1 where r: "?r = (ms, d1)" by fastforce
  have step: "store_step d (RXClaim ?k ?g (cfStreamConsumerName cfg) (cfStreamIdleTimeout cfg) (entryID d ?k j)) = (MsgsR ms, d1)"
    using g r by simp
  show ?thesis
  proof (cases ms)
    case Nil
    then show ?thesis using True step same r by (simp add: claim_message_def run_Call trace_Call claims_within_def)
  next
    case (Cons m ms')
    let ?p = "processStreamMessage L a (as_message (fst m) (snd m))"
    obtain ok a' where p: "run store_step ?p d1 = (Some (ok, a'), d1)" "agKeys a' = agKeys a"
      using process_quiet(1) by blast
    have "claims_within {entryID d ?k j} (trace store_step ?p d1)" by (rule process_quiet(2))
    then show ?thesis using True step same r Cons p
      by (simp add: claim_message_def run_Call trace_Call run_bindp trace_bindp)
  qed
next
  case False
  then show ?thesis using assms(1) by (simp add: claim_message_def same_pending_def claims_ok_def)
qed

lemma same_pending_trans: "same_pending k g d0 d1 \<Longrightarrow> same_pending k g d1 d2 \<Longrightarrow> same_pending k g d0 d2"
  by (simp add: same_pending_def)

lemma claims_within_mono: "claims_within A cs \<Longrightarrow> A \<subseteq> B \<Longrightarrow> claims_within B cs"
  by (auto simp: claims_within_def split: option.splits)

lemma claim_list_run:
  assumes "claims_ok (stream_key a) (cfStreamConsumerGroup cfg) d"
    and "fst ` set ps \<subseteq> entryID d (stream_key a) ` J"
    and "J \<subseteq> set (pending_of d (stream_key a) (cfStreamConsumerGroup cfg) (cfStreamConsumerName cfg))"
  shows "\<exists>a' d'. run store_step (for_each (claim_message L cfg) ps a) d = (Some a', d') \<and> agKeys a' = agKeys a \<and>
    same_pending (stream_key a) (cfStreamConsumerGroup cfg) d d' \<and>
    claims_within (entryID d (stream_key a) ` J) (trace store_step (for_each (claim_message L cfg) ps a) d)"
  using assms
proof (induction ps arbitrary: a d)
  case Nil
  then show ?case by (simp add: same_pending_def claims_ok_def)
next
  case (Cons p ps)
  let ?k = "stream_key a" and ?g = "cfStreamConsumerGroup cfg"
  obtain j where j: "fst p = entryID d ?k j" "j \<in> J" using Cons.prems(2) by auto
  then have p: "p = (entryID d ?k j, snd p)" by (metis prod.collapse)
  have "j \<in> set (pending_of d ?k ?g (cfStreamConsumerName cfg))" using j(2) Cons.prems(3) by blast
  from claim_message_run [OF Cons.prems(1) this, of L "snd p"] obtain a1 d1 where
    1: "run store_step (claim_message L cfg p a) d = (Some a1, d1)" "agKeys a1 = agKeys a" "same_pending ?k ?g d d1"
      "claims_within {entryID d ?k j} (trace store_step (claim_message L cfg p a) d)"
    using p by metis
  have ids: "entryID d1 ?k = entryID d ?k" using 1(3) by (simp add: same_pending_def)
  obtain a2 d2 where 2: "run store_step (for_each (claim_message L cfg) ps a1) d1 = (Some a2, d2)" "agKeys a2 = agKeys a1"
      "same_pending ?k ?g d1 d2"
      "claims_within (entryID d ?k ` J) (trace store_step (for_each (claim_message L cfg) ps a1) d1)"
    using Cons.IH [of a1 d1] same_claims_ok [OF Cons.prems(1) 1(3)] Cons.prems(2,3) same_pending_fst(2) [OF 1(3)] 1(2) ids by auto
  have "claims_within (entryID d ?k ` J) (trace store_step (claim_message L cfg p a) d)"
    using 1(4) j(2) by (rule_tac claims_within_mono) auto
  then show ?case using 1(1,2) 2 same_pending_trans [OF 1(3) 2(3)] by (simp add: run_bindp trace_bindp)
qed

definition oldest_ten :: "store \<Rightarrow> string \<Rightarrow> string \<Rightarrow> string \<Rightarrow> nat list" where
  "oldest_ten d k g c = take 10 (pending_of d k g c)"

lemma claim_turn:
  assumes "claims_ok (stream_key a) (cfStreamConsumerGroup cfg) d"
  shows "\<exists>a' d'. run store_step (claimStalledMessages L cfg a) d = (Some a', d') \<and> agKeys a' = agKeys a \<and>
    same_pending (stream_key a) (cfStreamConsumerGroup cfg) d d' \<and>
    claims_within (entryID d (stream_key a) ` set (oldest_ten d (stream_key a) (cfStreamConsumerGroup cfg) (cfStreamConsumerName cfg)))
      (trace store_step (claimStalledMessages L cfg a) d)"
proof -
  let ?k = "stream_key a" and ?g = "cfStreamConsumerGroup cfg" and ?c = "cfStreamConsumerName cfg"
  let ?d = "d\<lparr>readings := Suc (readings d)\<rparr>"
  let ?mine = "filter (\<lambda>(i, c', t). c' = ?c) (groupPending d ?k ?g)"
  define ps where "ps = take 10 (map (\<lambda>(i, c', t). (entryID d ?k i, clock d (readings d) - t)) ?mine)"
  have step: "store_step d (RXPending ?k ?g ?c 10) = (PendingR ps, ?d)"
    using assms by (simp add: claims_ok_def ps_def)
  have same: "same_pending ?k ?g d ?d" using assms by (simp add: same_pending_def claims_ok_def)
  have "map fst ps = map (entryID d ?k) (oldest_ten d ?k ?g ?c)"
    by (simp add: ps_def oldest_ten_def pending_of_def take_map comp_def case_prod_unfold)
  then have "set (map fst ps) = set (map (entryID d ?k) (oldest_ten d ?k ?g ?c))" by (rule arg_cong)
  then have sub: "fst ` set ps \<subseteq> entryID ?d ?k ` set (oldest_ten d ?k ?g ?c)" by simp
  have mine: "set (oldest_ten d ?k ?g ?c) \<subseteq> set (pending_of ?d ?k ?g ?c)"
    using same_pending_fst(2) [OF same] by (simp add: oldest_ten_def set_take_subset)
  from claim_list_run [OF same_claims_ok [OF assms same] sub mine, of L] obtain a' d' where
    "run store_step (for_each (claim_message L cfg) ps a) ?d = (Some a', d')" "agKeys a' = agKeys a" "same_pending ?k ?g ?d d'"
    "claims_within (entryID ?d ?k ` set (oldest_ten d ?k ?g ?c)) (trace store_step (for_each (claim_message L cfg) ps a) ?d)"
    by blast
  then show ?thesis using step same_pending_trans [OF same]
    by (simp add: claimStalledMessages_def run_Call trace_Call)
qed

lemma claim_turns:
  assumes "claims_ok (stream_key a) (cfStreamConsumerGroup cfg) d"
  shows "\<exists>a' d'. run store_step (turns m (claimStalledMessages L cfg) a) d = (Some a', d') \<and>
    same_pending (stream_key a) (cfStreamConsumerGroup cfg) d d' \<and>
    claims_within (entryID d (stream_key a) ` set (oldest_ten d (stream_key a) (cfStreamConsumerGroup cfg) (cfStreamConsumerName cfg)))
      (trace store_step (turns m (claimStalledMessages L cfg) a) d)"
  using assms
proof (induction m arbitrary: a d)
  case 0
  then show ?case by (simp add: same_pending_def claims_ok_def)
next
  case (Suc m)
  let ?k = "stream_key a" and ?g = "cfStreamConsumerGroup cfg" and ?c = "cfStreamConsumerName cfg"
  obtain a1 d1 where 1: "run store_step (claimStalledMessages L cfg a) d = (Some a1, d1)" "agKeys a1 = agKeys a"
    "same_pending ?k ?g d d1"
    "claims_within (entryID d ?k ` set (oldest_ten d ?k ?g ?c)) (trace store_step (claimStalledMessages L cfg a) d)"
    using claim_turn [OF Suc.prems] by blast
  have ids: "entryID d1 ?k = entryID d ?k" "oldest_ten d1 ?k ?g ?c = oldest_ten d ?k ?g ?c"
    using 1(3) same_pending_fst(2) [OF 1(3)] by (simp_all add: same_pending_def oldest_ten_def)
  obtain a2 d2 where 2: "run store_step (turns m (claimStalledMessages L cfg) a1) d1 = (Some a2, d2)" "same_pending ?k ?g d1 d2"
    "claims_within (entryID d ?k ` set (oldest_ten d ?k ?g ?c)) (trace store_step (turns m (claimStalledMessages L cfg) a1) d1)"
    using Suc.IH [of a1 d1] same_claims_ok [OF Suc.prems 1(3)] 1(2) ids by auto
  then show ?case using 1(1,4) same_pending_trans [OF 1(3) 2(2)] by (simp add: run_bindp trace_bindp)
qed

text \<open>C31. While the stream keeps the pending entries, no stalled message beyond the tenth is ever recovered: since claiming
  acknowledges nothing, the same entries remain pending, and every claim, however often the health check starts one, names one of
  the consumer's oldest ten. (The condition: each entry that is pending in the group is still in the stream, and Redis names
  entries distinctly. The gateway trims the stream to about a thousand entries; a claim of an entry that was trimmed off takes it from the
  pending ones, and then the next entry is among the ten.)\<close>

theorem claims_never_pass_the_tenth:
  assumes "reliable R v" and "k = AggregationStream (agKeys a)" and "g = cfStreamConsumerGroup cfg"
    and "c = cfStreamConsumerName cfg" and "claims_ok k g (v s)"
  shows "(\<exists>a'. outcome R (turns m (claimStalledMessages L cfg) a) s = Some a') \<and>
    claims_within (entryID (v s) k ` set (take 10 (pending_of (v s) k g c)))
      (trace R (turns m (claimStalledMessages L cfg) a) s) \<and>
    pending_of (v (final R (turns m (claimStalledMessages L cfg) a) s)) k g c = pending_of (v s) k g c"
proof -
  obtain a' d' where t: "run store_step (turns m (claimStalledMessages L cfg) a) (v s) = (Some a', d')"
    "same_pending k g (v s) d'"
    "claims_within (entryID (v s) k ` set (take 10 (pending_of (v s) k g c)))
      (trace store_step (turns m (claimStalledMessages L cfg) a) (v s))"
    using claim_turns [OF assms(5) [unfolded assms(2,3)], of m L] unfolding assms(2,3,4) oldest_ten_def by blast
  then show ?thesis using same_pending_fst(2) [OF t(2)] by (simp add: reliable_run [OF assms(1)])
qed

lemma inj_show_nat: "inj show_nat"
  by (rule injI) (simp add: fmt_simps)

theorem claims_never_pass_the_tenth_witness:
  "pending_of (final store_step (turns 2 (claimStalledMessages demo_lib demo_settings) demo_agg)
      (demo_stream\<lparr>groupPending := \<lambda>_ _. [(0, ''c'', 0)]\<rparr>)) (AggregationStream (agKeys demo_agg)) ''g'' ''c'' = [0]"
proof -
  let ?d = "demo_stream\<lparr>groupPending := \<lambda>_ _. [(0, ''c'', 0)]\<rparr>"
  have "claims_ok (AggregationStream (agKeys demo_agg)) ''g'' ?d"
    by (simp add: claims_ok_def demo_stream_def empty_store_def inj_show_nat)
  from claims_never_pass_the_tenth [OF reliable_store refl _ _ this, of demo_settings "''c''" 2 demo_lib]
  show ?thesis by (simp add: pending_of_def demo_stream_def)
qed

end
