(* ===== verification/Startup.thy ===== *)
theory Startup
  imports Config Consensus Windows Finalizer Votes Identity
begin

text \<open>
  \<open>cmd/unified/main.go\<close>, the start of the sequencer: which components the settings switch on, what each is given, and the
  goroutines that run them. What libp2p, IPFS, the RPC helper and the file system answer is in \<open>nodeLib\<close>. A fatal log
  line ends the process: its value is in \<open>fatal\<close>. Banners and statistics that are only logged, and the
  search for peers, are left out.
\<close>

record nodeLib =
  ndUnmarshalKey :: "byte list \<Rightarrow> bool"
  ndGenerateKey :: bool
  ndConnManager :: "int \<Rightarrow> int \<Rightarrow> bool"
  ndMultiaddr :: "string \<Rightarrow> bool"
  ndHost :: "string \<Rightarrow> string list \<Rightarrow> string option"
  ndDHT :: bool
  ndBootstrap :: bool
  ndAddrInfo :: "string \<Rightarrow> string option"
  ndConnect :: "string \<Rightarrow> bool"
  ndGossipSub :: bool
  ndIpfs :: "string \<Rightarrow> bool"
  ndIpfsAvailable :: "string \<Rightarrow> bool"
  ndJoin :: "string \<Rightarrow> bool"
  ndSubscribe :: "string \<Rightarrow> bool"
  ndRPC :: "rpcConfig \<Rightarrow> bool"
  ndBlock :: "u64 option"
  ndABI :: "string \<Rightarrow> string list option"

datatype fatal =
    FatalRedis | FatalDedup | FatalKey | FatalConnManager | FatalHost | FatalDHT | FatalBootstrap | FatalPubsub
  | FatalDequeuer | FatalNoNodes | FatalRPC

record 'c unifiedSequencer = "'c sequencer" +
  usHost :: "string option"
  usIpfs :: bool
  usEnableListener :: bool
  usEnableDequeuer :: bool
  usEnableFinalizer :: bool
  usEnableBatchAggregation :: bool
  usEnableEventMonitor :: bool
  usBatchGen :: "dummyGenerator option"
  usEventMonitor :: "eventMonitor option"
  usConsensus :: "p2pConsensus option"
  usConfig :: settings
  usPrimary :: string

section \<open>Roles\<close>

definition detectPrimaryComponent :: "bool \<Rightarrow> bool \<Rightarrow> bool \<Rightarrow> bool \<Rightarrow> bool \<Rightarrow> string" where
  "detectPrimaryComponent listener dequeuer finalizer batchAggregation eventMonitor =
     (let enabled = map snd (filter fst [(listener, ''listener''), (dequeuer, ''dequeuer''), (finalizer, ''finalizer''),
            (batchAggregation, ''batch-aggregator''), (eventMonitor, ''event-monitor'')]) in
      if 1 < length enabled then ''multi-component'' else if enabled = [] then ''unknown'' else last enabled)"

section \<open>What the components stand on\<close>

definition needs_redis :: "settings \<Rightarrow> bool" where
  "needs_redis cfg \<longleftrightarrow> cfEnableListener cfg \<or> cfEnableDequeuer cfg \<or> cfEnableFinalizer cfg \<or> cfEnableEventMonitor cfg"

definition connect_redis :: "settings \<Rightarrow> (fatal + bool) prog" where
  "connect_redis cfg =
     (if needs_redis cfg then Call RPing (\<lambda>r. Ret (if r = ErrR then Inl FatalRedis else Inr True)) else Ret (Inr False))"

definition make_dedup :: "'c lruLib \<Rightarrow> settings \<Rightarrow> bool \<Rightarrow> fatal + 'c deduplicator option" where
  "make_dedup U cfg redis =
     (if redis \<and> cfEnableListener cfg
      then (case NewDeduplicator U (cfDedupLocalCacheSize cfg) (nat (cfDedupTTL cfg div 1000000000)) of
          None \<Rightarrow> Inl FatalDedup | Some d \<Rightarrow> Inr (Some d))
      else Inr None)"

definition loadOrCreatePrivateKey :: "nodeLib \<Rightarrow> string \<Rightarrow> bool" where
  "loadOrCreatePrivateKey N privKeyHex =
     (if privKeyHex \<noteq> [] then (case hex_decode privKeyHex of None \<Rightarrow> False | Some bs \<Rightarrow> ndUnmarshalKey N bs)
      else ndGenerateKey N)"

definition advertised :: "nodeLib \<Rightarrow> settings \<Rightarrow> string list" where
  "advertised N cfg =
     (let addr = ''/ip4/'' @ cfP2PPublicIP cfg @ ''/tcp/'' @ show_int (cfP2PPort cfg) in
      if cfP2PPublicIP cfg \<noteq> [] \<and> ndMultiaddr N addr then [addr] else [])"

text \<open>Whether the node reaches the first bootstrap peer; it goes on in any case.\<close>

definition connectToBootstrap :: "nodeLib \<Rightarrow> string \<Rightarrow> bool" where
  "connectToBootstrap N addr \<longleftrightarrow> addr \<noteq> [] \<and> ndMultiaddr N addr \<and>
     (case ndAddrInfo N addr of None \<Rightarrow> False | Some p \<Rightarrow> ndConnect N p)"

definition new_host :: "nodeLib \<Rightarrow> settings \<Rightarrow> string option" where
  "new_host N cfg = ndHost N (''/ip4/0.0.0.0/tcp/'' @ show_int (cfP2PPort cfg)) (advertised N cfg)"

text \<open>The ID of the host, when there is one.\<close>

definition make_p2p :: "nodeLib \<Rightarrow> settings \<Rightarrow> fatal + string option" where
  "make_p2p N cfg =
     (if \<not> cfEnableListener cfg \<and> \<not> cfEnableBatchAggregation cfg then Inr None
      else if \<not> loadOrCreatePrivateKey N (cfP2PPrivateKey cfg) then Inl FatalKey
      else if \<not> ndConnManager N (cfConnManagerLowWater cfg) (cfConnManagerHighWater cfg) then Inl FatalConnManager
      else case new_host N cfg of
        None \<Rightarrow> Inl FatalHost
      | Some i \<Rightarrow>
          if \<not> ndDHT N then Inl FatalDHT
          else if \<not> ndBootstrap N then Inl FatalBootstrap
          else if \<not> ndGossipSub N then Inl FatalPubsub
          else Inr (Some i))"

text \<open>\<open>NewClient\<close> of \<open>pkgs/ipfs/client.go\<close>: a multiaddress of a known form or an address without a scheme becomes an URL.\<close>

definition api_url :: "string \<Rightarrow> string" where
  "api_url given =
     (let apiURL = (if given = [] then ''127.0.0.1:5001'' else given) in
      if has_prefix ''/ip4/'' apiURL \<or> has_prefix ''/dns/'' apiURL then
        (let parts = split_on CHR ''/'' apiURL in
         if 5 \<le> length parts then ''http://'' @ parts ! 2 @ '':'' @ parts ! 4 else apiURL)
      else if \<not> has_prefix ''http://'' apiURL \<and> \<not> has_prefix ''https://'' apiURL then ''http://'' @ apiURL
      else apiURL)"

definition make_ipfs :: "nodeLib \<Rightarrow> settings \<Rightarrow> bool" where
  "make_ipfs N cfg \<longleftrightarrow>
     (let url = api_url (if cfIPFSAPI cfg = [] then ''/ip4/127.0.0.1/tcp/5001'' else cfIPFSAPI cfg) in
      cfEnableFinalizer cfg \<and> ndIpfs N url \<and> ndIpfsAvailable N url)"

definition node_keys :: "settings \<Rightarrow> keyBuilder" where
  "node_keys cfg = NewKeyBuilder (cfProtocolStateContract cfg)
     (case cfDataMarketAddresses cfg of [] \<Rightarrow> [] | m # ms \<Rightarrow> m)"

section \<open>The components\<close>

definition make_dequeuer :: "golib \<Rightarrow> settings \<Rightarrow> bool \<Rightarrow> fatal + dequeuer option" where
  "make_dequeuer L cfg redis =
     (if cfEnableDequeuer cfg \<and> redis
      then (case NewDequeuer L (node_keys cfg) (cfSequencerID cfg) (cfChainID cfg) (cfProtocolStateContract cfg)
            (cfEnableSlotValidation cfg) of Inl e \<Rightarrow> Inl FatalDequeuer | Inr d \<Rightarrow> Inr (Some d))
      else Inr None)"

text \<open>\<open>NewP2PConsensus\<close>: it joins two topics, subscribes to both, and starts its loops.\<close>

definition setupTopics :: "nodeLib \<Rightarrow> settings \<Rightarrow> bool" where
  "setupTopics N cfg =
     (let presence = cfGossipsubValidatorPresenceTopic cfg; batches = snd (GetFinalizedBatchTopics cfg) in
      ndJoin N presence \<and> ndJoin N batches \<and> ndSubscribe N presence \<and> ndSubscribe N batches)"

definition consensus_loops :: "string list" where
  "consensus_loops = [''handleDiscoveryMessages'', ''handleBatchMessages'', ''periodicConsensusCheck'', ''sendPeriodicPresence'']"

definition make_consensus :: "nodeLib \<Rightarrow> settings \<Rightarrow> string option \<Rightarrow> bool \<Rightarrow> p2pConsensus option prog" where
  "make_consensus N cfg host ipfsClient =
     (case host of
        Some i \<Rightarrow>
          if cfEnableBatchAggregation cfg \<and> ipfsClient \<and> setupTopics N cfg
          then bindp (execs (map Spawn consensus_loops)) (\<lambda>_.
            Ret (Some (NewP2PConsensus (cfSequencerID cfg) i True (snd (GetFinalizedBatchTopics cfg)))))
          else Ret None
      | None \<Rightarrow> Ret None)"

text \<open>\<open>NewEventMonitor\<close>. A window's duration is taken in whole seconds, none below zero.\<close>

definition start_block :: "nodeLib \<Rightarrow> u64 \<Rightarrow> u64" where
  "start_block N b = (if b = 0 then (case ndBlock N of None \<Rightarrow> 0 | Some c \<Rightarrow> if 0 < c then c - 1 else 0) else b)"

definition abi_ok :: "nodeLib \<Rightarrow> string \<Rightarrow> bool" where
  "abi_ok N path \<longleftrightarrow> path = [] \<or> (case ndABI N path of None \<Rightarrow> False | Some evs \<Rightarrow> ''EpochReleased'' \<in> set evs)"

definition NewEventMonitor :: "nodeLib \<Rightarrow> settings \<Rightarrow> eventMonitor option prog" where
  "NewEventMonitor N cfg =
     (if \<not> abi_ok N (cfContractABIPath cfg) then Ret None
      else if cfMaxConcurrentWindows cfg < 0 then Panic
      else Ret (Some \<lparr>lastProcessedBlock = start_block N (cfEventStartBlock cfg),
        windowManager = \<lparr>activeWindows = [], semUsed = 0, maxWindows = nat (cfMaxConcurrentWindows cfg),
          wmProtocol = cfProtocolStateContract cfg, finalizationBatchSize = cfFinalizationBatchSize cfg\<rparr>,
        windowDuration = nat (cfSubmissionWindowDuration cfg div 1000000000), monMarkets = cfDataMarketAddresses cfg\<rparr>))"

definition make_monitor :: "nodeLib \<Rightarrow> settings \<Rightarrow> bool \<Rightarrow> (fatal + eventMonitor option) prog" where
  "make_monitor N cfg redis =
     (if \<not> cfEnableEventMonitor cfg \<or> \<not> redis then Ret (Inr None)
      else if rcNodes (ToRPCConfig cfg) = [] then Ret (Inl FatalNoNodes)
      else if \<not> ndRPC N (ToRPCConfig cfg) then Ret (Inl FatalRPC)
      else bindp (NewEventMonitor N cfg) (\<lambda>m. Ret (Inr m)))"

section \<open>Starting\<close>

definition worker_count :: "int \<Rightarrow> nat" where
  "worker_count n = (if n = 0 then 5 else nat n)"

text \<open>The goroutines of \<open>Start\<close>, in order.\<close>

definition components :: "'c unifiedSequencer \<Rightarrow> string list" where
  "components s =
     (if usEnableListener s \<and> usHost s \<noteq> None then [''runListener''] else []) @
     (if usEnableDequeuer s \<and> seqRedis s
      then map (\<lambda>i. ''runDequeuerWorker:'' @ show_nat i) [0 ..< worker_count (cfDequeueWorkers (usConfig s))] @ [''monitorQueueDepth'']
      else []) @
     (if usEnableFinalizer s \<and> seqRedis s then [''runFinalizer''] else []) @
     (if usEnableBatchAggregation s \<and> usHost s \<noteq> None then [''runBatchAggregation''] else []) @
     (if usEnableEventMonitor s \<and> usEventMonitor s \<noteq> None then [''runEventMonitor''] else [])"

definition Start :: "'c unifiedSequencer \<Rightarrow> unit prog" where
  "Start s = execs (map Spawn (components s))"

definition assemble ::
  "settings \<Rightarrow> bool \<Rightarrow> 'c deduplicator option \<Rightarrow> string option \<Rightarrow> bool \<Rightarrow> dequeuer option \<Rightarrow> p2pConsensus option \<Rightarrow>
     eventMonitor option \<Rightarrow> 'c unifiedSequencer" where
  "assemble cfg redis dedup host ipfsClient dq pc mon =
     \<lparr>seqKeys = node_keys cfg, seqDedup = dedup, seqDequeuer = dq, seqRedis = redis,
      cfgProtocolState = cfProtocolStateContract cfg, cfgDataMarkets = cfDataMarketAddresses cfg,
      usHost = host, usIpfs = ipfsClient, usEnableListener = cfEnableListener cfg, usEnableDequeuer = cfEnableDequeuer cfg,
      usEnableFinalizer = cfEnableFinalizer cfg, usEnableBatchAggregation = cfEnableBatchAggregation cfg,
      usEnableEventMonitor = cfEnableEventMonitor cfg \<and> mon \<noteq> None,
      usBatchGen = (if cfEnableBatchAggregation cfg then Some (NewDummyBatchGenerator (cfSequencerID cfg)) else None),
      usEventMonitor = mon, usConsensus = pc, usConfig = cfg,
      usPrimary = detectPrimaryComponent (cfEnableListener cfg) (cfEnableDequeuer cfg) (cfEnableFinalizer cfg)
        (cfEnableBatchAggregation cfg) (cfEnableEventMonitor cfg)\<rparr>"

definition start_parts ::
  "nodeLib \<Rightarrow> settings \<Rightarrow> bool \<Rightarrow> 'c deduplicator option \<Rightarrow> string option \<Rightarrow> dequeuer option \<Rightarrow>
     (fatal + 'c unifiedSequencer) prog" where
  "start_parts N cfg redis dedup host dq =
     bindp (make_consensus N cfg host (make_ipfs N cfg)) (\<lambda>pc.
     bindp (make_monitor N cfg redis) (\<lambda>m. case m of Inl e \<Rightarrow> Ret (Inl e) | Inr mon \<Rightarrow>
     let s = assemble cfg redis dedup host (make_ipfs N cfg) dq pc mon in
     bindp (Start s) (\<lambda>_. Ret (Inr s))))"

definition start_with :: "golib \<Rightarrow> 'c lruLib \<Rightarrow> nodeLib \<Rightarrow> settings \<Rightarrow> bool \<Rightarrow> (fatal + 'c unifiedSequencer) prog" where
  "start_with L U N cfg redis =
     (case make_dedup U cfg redis of Inl e \<Rightarrow> Ret (Inl e) | Inr dedup \<Rightarrow>
     case make_p2p N cfg of Inl e \<Rightarrow> Ret (Inl e) | Inr host \<Rightarrow>
     case make_dequeuer L cfg redis of Inl e \<Rightarrow> Ret (Inl e) | Inr dq \<Rightarrow>
     start_parts N cfg redis dedup host dq)"

definition start_sequencer :: "golib \<Rightarrow> 'c lruLib \<Rightarrow> nodeLib \<Rightarrow> settings \<Rightarrow> (fatal + 'c unifiedSequencer) prog" where
  "start_sequencer L U N cfg =
     bindp (connect_redis cfg) (\<lambda>r. case r of Inl e \<Rightarrow> Ret (Inl e) | Inr redis \<Rightarrow> start_with L U N cfg redis)"

section \<open>Running\<close>

text \<open>A topic that cannot be joined or subscribed to is left out.\<close>

definition runListener :: "nodeLib \<Rightarrow> 'c unifiedSequencer \<Rightarrow> unit prog" where
  "runListener N s =
     (let (discovery, submissions) = GetSnapshotSubmissionTopics (usConfig s) in
      execs (map (\<lambda>t. Spawn (''handleSubmissionMessages:'' @ t))
          (filter (\<lambda>t. ndJoin N t \<and> ndSubscribe N t) [discovery, submissions]) @ [Spawn ''logListenerStats'']))"

text \<open>One message; the node's own ones are skipped.\<close>

definition handleSubmissionMessages ::
  "golib \<Rightarrow> 'c lruLib \<Rightarrow> 'c unifiedSequencer \<Rightarrow> blob \<Rightarrow> string \<Rightarrow> 'c unifiedSequencer prog" where
  "handleSubmissionMessages L U s data receivedFrom =
     (if usHost s = Some receivedFrom then Ret s
      else bindp (queueSubmissionFromP2P L U (sequencer.truncate s) data receivedFrom) (\<lambda>q.
        Ret (sequencer.extend q (sequencer.more s))))"

definition runFinalizer :: "'c unifiedSequencer \<Rightarrow> unit prog" where
  "runFinalizer s =
     execs (map (\<lambda>i. Spawn (''runFinalizationWorker:'' @ show_nat i)) [0 ..< worker_count (cfFinalizerWorkers (usConfig s))])"

text \<open>What a finalization worker works with.\<close>

definition fin_config :: "'c unifiedSequencer \<Rightarrow> finConfig" where
  "fin_config s = \<lparr>finKeys = seqKeys s, finProtocolState = cfgProtocolState s, finDataMarkets = cfgDataMarkets s,
     finSequencerID = cfSequencerID (usConfig s)\<rparr>"

definition fin_monitor :: "'c unifiedSequencer \<Rightarrow> nat \<Rightarrow> workerMonitor" where
  "fin_monitor s i = \<lparr>wmWorkerID = ''finalizer-'' @ show_nat i, wmWorkerType = WorkerTypeFinalizer,
     wmProtocolState = cfgProtocolState s\<rparr>"

definition runFinalizationWorker :: "golib \<Rightarrow> range_order \<Rightarrow> 'c unifiedSequencer \<Rightarrow> nat \<Rightarrow> unit prog" where
  "runFinalizationWorker L ro s i = bindp (StartWorker (fin_monitor s i)) (\<lambda>_. finalizer_round L ro (fin_config s) (fin_monitor s i))"

text \<open>One tick: what is known of the last three epochs, taken to last thirty seconds each, is only logged.\<close>

definition runBatchAggregation :: "'c unifiedSequencer \<Rightarrow> aggregationStatus list prog" where
  "runBatchAggregation s =
     Call Now (\<lambda>t. let currentEpoch = (word_of_int (int_of t div 30) :: u64) in
       Ret (case usConsensus s of
           None \<Rightarrow> []
         | Some pc \<Rightarrow> filter (\<lambda>st. AggregatedProjects st \<noteq> [])
             (List.map_filter (\<lambda>i. GetAggregationStatus pc (currentEpoch - of_nat i)) [0 ..< 3])))"

definition monitorQueueDepth :: "'c unifiedSequencer \<Rightarrow> unit prog" where
  "monitorQueueDepth s = exec (RLLen (SubmissionQueue (seqKeys s)))"

definition runEventMonitor :: "unit prog" where
  "runEventMonitor = execs [Spawn ''processEvents'', Spawn ''pollBlocks'']"

text \<open>A ticker without a positive interval panics.\<close>

definition pollBlocks :: "settings \<Rightarrow> unit prog" where
  "pollBlocks cfg = (if cfEventPollInterval cfg \<le> 0 then Panic else Ret ())"

end
