(* ===== verification/Finalization.thy ===== *)
theory Finalization
  imports Collection Level1
begin

text \<open>
  From the submissions of a closed epoch to its local batch: the event monitor collects and splits them into parts,
  one finalizer after the other pops a part from the queue and counts it, the last one announces the epoch, and level 1 of
  the aggregator joins the parts. Each process sees only the store; the theorem puts them together.
\<close>

section \<open>Frames\<close>

text \<open>The lists that a call changes.\<close>

fun moves :: "call \<Rightarrow> string set" where
  "moves (RLPush k b) = {k}"
| "moves (RBRPop k) = {k}"
| "moves (RLTrim k n) = {k}"
| "moves (RDel ks) = set ks"
| "moves (RPipe []) = {}"
| "moves (RPipe (c # cs)) = moves c \<union> moves (RPipe cs)"
| "moves _ = {}"

lemma del_keys_lists: "k \<notin> set ks \<Longrightarrow> lists (fold del_key ks d) k = lists d k"
  by (induction ks arbitrary: d) (auto simp: del_key_def)

lemma group_lists [simp]:
  "lists (snd (group_read d k g c n)) = lists d" "lists (snd (group_claim d k g c idle i)) = lists d"
  by (auto simp: group_read_def group_claim_def Let_def split: option.split)

lemma unmoved: "k \<notin> moves c \<Longrightarrow> lists (snd (store_step d c)) k = lists d k"
  by (induction d c rule: store_step.induct)
    (auto simp: del_keys_lists Let_def case_prod_unfold split: option.splits)

text \<open>A program that stays out of a set of keys.\<close>

definition avoids :: "string set \<Rightarrow> call \<Rightarrow> bool" where
  "avoids K c \<longleftrightarrow> touches c \<inter> K = {} \<and> moves c \<inter> K = {}"

lemma avoids_pipe: "avoids K (RPipe cs) \<longleftrightarrow> list_all (avoids K) cs"
  by (induction cs) (auto simp: avoids_def)

definition same_on :: "string set \<Rightarrow> store \<Rightarrow> store \<Rightarrow> bool" where
  "same_on K d d' \<longleftrightarrow> (\<forall>k \<in> K. map_of (strs d') k = map_of (strs d) k \<and> lists d' k = lists d k)"

lemma avoids_clock [simp]: "avoids K Now"
  by (simp add: avoids_def)

lemma same_on_refl [simp]: "same_on K d d"
  by (simp add: same_on_def)

lemma same_on_trans: "same_on K d d' \<Longrightarrow> same_on K d' d'' \<Longrightarrow> same_on K d d''"
  by (simp add: same_on_def)

lemma same_on_step: "avoids K c \<Longrightarrow> same_on K d (snd (store_step d c))"
  by (auto simp: same_on_def avoids_def disjoint_iff intro: unmoved dest: untouched [THEN conjunct1])

lemma same_on_final: "calls_sat (avoids K) p \<Longrightarrow> same_on K d (final store_step p d)"
proof (induction p arbitrary: d)
  case (Call c k)
  then show ?case using same_on_step [of K c d] by (auto simp: run_Call intro: same_on_trans)
qed simp_all

lemma quiet_run:
  assumes "calls_sat (avoids K) p" and "no_panic p"
  obtains a d' where "run store_step p d = (Some a, d')" and "same_on K d d'"
proof -
  obtain a where "outcome store_step p d = Some a" using no_panic_outcome [OF assms(2), of store_step d] by auto
  then show thesis using that [of a "final store_step p d"] same_on_final [OF assms(1), of d] by (simp add: prod_eq_iff)
qed

text \<open>The namespaced keys are apart from those with a fixed first word, if that is not the name of the protocol's contract.\<close>

definition namespace_ok :: "keyBuilder \<Rightarrow> bool" where
  "namespace_ok kb \<longleftrightarrow> colon_free (ProtocolState kb) \<and> ProtocolState kb \<notin> {''worker'', ''batch'', ''metrics''}"

abbreviation spaced :: "keyBuilder \<Rightarrow> string set" where
  "spaced kb \<equiv> range (ns kb)"

lemma fixed_word:
  assumes "namespace_ok kb" and "w \<in> {''worker'', ''batch'', ''metrics''}"
  shows "w @ CHR '':'' # x \<notin> spaced kb"
proof
  assume "w @ CHR '':'' # x \<in> spaced kb"
  then obtain y where "w @ CHR '':'' # x = ProtocolState kb @ CHR '':'' # y" by (auto simp: ns_def)
  moreover have "CHR '':'' \<notin> set w" using assms(2) by auto
  ultimately have "w = ProtocolState kb" using assms(1) by (simp add: colon_split_inject namespace_ok_def colon_free_def)
  then show False using assms by (simp add: namespace_ok_def)
qed

lemma fixed_keys:
  assumes "namespace_ok kb"
  shows "''worker:'' @ x \<notin> spaced kb" "''batch:'' @ x \<notin> spaced kb" "''metrics:'' @ x \<notin> spaced kb"
  using fixed_word [OF assms, of "''worker''" x] fixed_word [OF assms, of "''batch''" x]
    fixed_word [OF assms, of "''metrics''" x] by simp_all

lemma worker_quiet:
  assumes "namespace_ok kb"
  shows "calls_sat (avoids (spaced kb)) (ProcessingStarted wm x) \<and> no_panic (ProcessingStarted wm x)"
    and "calls_sat (avoids (spaced kb)) (ProcessingCompleted wm) \<and> no_panic (ProcessingCompleted wm)"
    and "calls_sat (avoids (spaced kb)) (TrackBatchPart e b st) \<and> no_panic (TrackBatchPart e b st)"
  using fixed_keys [OF assms]
  by (auto simp: ProcessingStarted_def ProcessingCompleted_def UpdateStatus_def UpdateHeartbeat_def SetCurrentBatch_def
      IncrementProcessedCount_def TrackBatchPart_def avoids_def WorkerStatus_def WorkerHeartbeat_def WorkerCurrentBatch_def
      WorkerCurrentEpoch_def WorkerBatchesProcessed_def BatchPartStatus_def BatchPartWorker_def
      intro!: calls_sat_bindp no_panic_bindp split: workerType.split)

section \<open>One part\<close>

lemma part_keys [simp]:
  "EpochPartsCompleted kb e \<in> spaced kb" "BatchPart kb e i \<in> spaced kb" "FinalizationQueue kb \<in> spaced kb"
  "AggregationQueueLevel1 kb \<in> spaced kb"
  by (simp_all add: key_defs)

lemma part_keys_apart [simp]:
  "BatchPart kb e i \<noteq> EpochPartsCompleted kb e" "BatchPart kb e i \<noteq> EpochPartsTotal kb e"
  "BatchPart kb e i \<noteq> EpochPartsReady kb e" "FinalizationQueue kb \<noteq> AggregationQueueLevel1 kb"
  "AggregationQueueLevel1 kb \<noteq> FinalizationQueue kb"
  by (simp_all add: key_defs ns_same)

lemma counter_same: "same_on (spaced (NewKeyBuilder p m)) d d' \<Longrightarrow> counter p m e d' = counter p m e d"
  by (simp add: same_on_def counter_def EpochPartsCompleted_def)

lemma count_part_run:
  assumes "counter p m (show_u64 e) d = int j" and "j < n"
  obtains d' t where "run store_step (count_part (NewKeyBuilder p m) p m (show_u64 e) (int n)) d = (Some True, d')"
    and "counter p m (show_u64 e) d' = int (Suc j)"
    and "\<And>i. map_of (strs d') (BatchPart (NewKeyBuilder p m) (show_u64 e) i) = map_of (strs d) (BatchPart (NewKeyBuilder p m) (show_u64 e) i)"
    and "lists d' = (if Suc j = n then (lists d)(AggregationQueueLevel1 (NewKeyBuilder p m) :=
      ready_entry e n t # lists d (AggregationQueueLevel1 (NewKeyBuilder p m))) else lists d)"
proof -
  let ?kb = "NewKeyBuilder p m"
  define d1 where "d1 = snd (store_step d (RIncr (EpochPartsCompleted ?kb (show_u64 e))))"
  have r: "fst (store_step d (RIncr (EpochPartsCompleted ?kb (show_u64 e)))) = IntR (int (Suc j))"
    using incr_step(1) [of d p m "show_u64 e"] assms(1) by simp
  have d1: "lists d1 = lists d" "map_of (strs d1) (BatchPart ?kb (show_u64 e) i) = map_of (strs d) (BatchPart ?kb (show_u64 e) i)" for i
    by (simp_all add: d1_def map_of_update)
  let ?u = "UpdateBatchPartsProgress p m (show_u64 e) (int (Suc j)) (int n)"
  have run: "run store_step (count_part ?kb p m (show_u64 e) (int n)) d = run store_step ?u d1"
    by (simp add: count_part_def run_Call r d1_def del: store_step.simps)
  show thesis
  proof (cases "Suc j = n")
    case True
    let ?t = "clock d1 (readings d1) div 1000000000"
    let ?d2 = "snd (store_step d1 Now)"
    let ?d' = "snd (store_step ?d2 (RPipe (progress_calls ?kb (show_u64 e) (int n) (int n) @ ready_calls ?kb (show_u64 e) (int n) ?t)))"
    have "run store_step ?u d1 = (Some True, ?d')"
      using True pipe_ready(1) [of ?d2 p m "show_u64 e" "int n" "int n" ?t]
      by (auto simp: UpdateBatchPartsProgress_def Let_def run_Call simp del: store_step.simps(28) store_step.simps(29))
    moreover have "map_of (strs ?d') (BatchPart ?kb (show_u64 e) i) = map_of (strs d) (BatchPart ?kb (show_u64 e) i)" for i
      by (simp add: progress_calls_def ready_calls_def map_of_update d1(2))
    moreover have "lists ?d' = (lists d)(AggregationQueueLevel1 ?kb := ready_entry e n ?t # lists d (AggregationQueueLevel1 ?kb))"
      by (simp add: progress_calls_def ready_calls_def d1(1) ready_entry_def)
    moreover have "counter p m (show_u64 e) ?d' = int (Suc j)" using True by (simp only: pipe_ready)
    ultimately show thesis using that [of ?d' ?t] run True by simp
  next
    case False
    let ?d' = "snd (store_step d1 (RPipe (progress_calls ?kb (show_u64 e) (int (Suc j)) (int n))))"
    have "run store_step ?u d1 = (Some True, ?d')"
      using False pipe_progress(1) [of d1 p m "show_u64 e" "int (Suc j)" "int n"]
      by (simp add: UpdateBatchPartsProgress_def Let_def run_Call del: store_step.simps)
    moreover have "map_of (strs ?d') (BatchPart ?kb (show_u64 e) i) = map_of (strs d) (BatchPart ?kb (show_u64 e) i)" for i
      by (simp add: progress_calls_def map_of_update d1(2))
    moreover have "lists ?d' = lists d" by (simp add: progress_calls_def d1(1))
    moreover have "counter p m (show_u64 e) ?d' = int (Suc j)" by (simp only: pipe_progress)
    ultimately show thesis using that [of ?d'] run False by simp
  qed
qed

definition part_stored :: "keyBuilder \<Rightarrow> u64 \<Rightarrow> nat \<Rightarrow> (string, selection) gomap \<Rightarrow> store \<Rightarrow> bool" where
  "part_stored kb e i res d \<longleftrightarrow> map_of (strs d) (BatchPart kb (show_u64 e) (int i)) = Some (part_json res)"

definition long_cids :: "(string, selection) gomap \<Rightarrow> bool" where
  "long_cids res \<longleftrightarrow> (\<forall>(p, x) \<in> set res. 16 \<le> length (selCid x))"

lemma log_results_run:
  assumes "long_cids res" and "go_ok res"
  shows "run store_step (log_results ro res) d = (Some (), d)"
proof -
  have "run store_step (for_each (\<lambda>(p, s) u. or_panic (slice_to 16 (selCid s)) (\<lambda>_. Ret ())) xs ()) d = (Some (), d)"
    if "\<forall>x \<in> set xs. 16 \<le> length (selCid (snd x))" for xs :: "(string \<times> selection) list"
    using that by (induction xs) (auto simp: run_bindp slice_to_def case_prod_unfold)
  moreover have "\<forall>x \<in> set (take 3 (range_map ro ''partResults'' res)). 16 \<le> length (selCid (snd x))"
    using assms(1) set_range_map [OF assms(2)] unfolding long_cids_def by (fastforce dest: in_set_takeD)
  ultimately show ?thesis by (simp add: log_results_def)
qed

lemma metrics_avoid:
  assumes "namespace_ok kb"
  shows "avoids (spaced kb) (RPipe (part_metrics f e b n c t))"
  using fixed_keys(3) [OF assms] by (simp add: avoids_pipe part_metrics_def Let_def) (simp add: avoids_def)

lemma process_part_run:
  assumes "finKeys f = NewKeyBuilder p m" and "finProtocolState f = p" and "finDataMarkets f = m # ms"
    and "namespace_ok (NewKeyBuilder p m)" and "counter p m (show_u64 e) d = int j" and "j < n"
    and "long_cids (part_results L ro ps)" and "go_ok (part_results L ro ps)"
  obtains d' t where "run store_step (processBatchPart L ro f e (int i) (int n) ps) d = (Some True, d')"
    and "counter p m (show_u64 e) d' = int (Suc j)"
    and "part_stored (NewKeyBuilder p m) e i (part_results L ro ps) d'"
    and "\<And>i' r. i' \<noteq> i \<Longrightarrow> part_stored (NewKeyBuilder p m) e i' r d' \<longleftrightarrow> part_stored (NewKeyBuilder p m) e i' r d"
    and "lists d' (FinalizationQueue (NewKeyBuilder p m)) = lists d (FinalizationQueue (NewKeyBuilder p m))"
    and "lists d' (AggregationQueueLevel1 (NewKeyBuilder p m)) = (if Suc j = n
      then ready_entry e n t # lists d (AggregationQueueLevel1 (NewKeyBuilder p m)) else lists d (AggregationQueueLevel1 (NewKeyBuilder p m)))"
proof -
  let ?kb = "NewKeyBuilder p m" and ?e = "show_u64 e" and ?res = "part_results L ro ps"
  let ?set = "RSet (BatchPart ?kb ?e (int i)) (part_json ?res) 7200"
  note q = worker_quiet(3) [OF assms(4)]
  obtain a1 d1 where 1: "run store_step (TrackBatchPart ?e (int i) ''processing'') d = (Some a1, d1)" "same_on (spaced ?kb) d d1"
    using quiet_run q by blast
  define d2 where "d2 = snd (store_step d1 ?set)"
  obtain a3 d3 where 3: "run store_step (TrackBatchPart ?e (int i) ''completed'') d2 = (Some a3, d3)" "same_on (spaced ?kb) d2 d3"
    using quiet_run q by blast
  define d4 where "d4 = snd (store_step d3 Now)"
  define d5 where "d5 = snd (store_step d4 (RPipe (part_metrics f e (int i) (int n) (length ps) (int_of (fst (store_step d3 Now))))))"
  have 5: "same_on (spaced ?kb) d2 d5"
    using 3(2) same_on_step [OF avoids_clock, of "spaced ?kb" d3] same_on_step [OF metrics_avoid [OF assms(4)], of d4]
    unfolding d4_def d5_def by (blast intro: same_on_trans)
  have "counter p m ?e d2 = counter p m ?e d1"
    by (simp add: d2_def counter_def map_of_update part_keys_apart [symmetric])
  then have c: "counter p m ?e d5 = int j"
    using counter_same [OF 1(2)] counter_same [OF 5] assms(5) by simp
  obtain d6 t where 6: "run store_step (count_part ?kb p m ?e (int n)) d5 = (Some True, d6)" "counter p m ?e d6 = int (Suc j)"
    "\<And>i. map_of (strs d6) (BatchPart ?kb ?e i) = map_of (strs d5) (BatchPart ?kb ?e i)"
    "lists d6 = (if Suc j = n then (lists d5)(AggregationQueueLevel1 ?kb := ready_entry e n t # lists d5 (AggregationQueueLevel1 ?kb))
      else lists d5)"
    using count_part_run [OF c assms(6)] by metis
  have json: "Js (JObj (map (\<lambda>(p, s). (p, enc_selection s)) ?res)) = part_json ?res" by (simp add: part_json_def)
  have ok: "fst (store_step d1 ?set) = OkR" by simp
  have "run store_step (processBatchPart L ro f e (int i) (int n) ps) d = (Some True, d6)"
    using log_results_run [OF assms(7,8), of ro d6] 6(1) assms(3)
    using ok
    by (simp add: processBatchPart_def Let_def run_bindp 1(1) run_Call json assms(1,2) 3(1) del: store_step.simps
        flip: d2_def d4_def d5_def)
  moreover have l: "lists d5 k = lists d k" if "k \<in> spaced ?kb" for k
    using that 1(2) 5 by (auto simp: same_on_def d2_def)
  moreover have "map_of (strs d6) (BatchPart ?kb ?e (int i')) = (if i' = i then Some (part_json ?res)
      else map_of (strs d) (BatchPart ?kb ?e (int i')))" for i'
  proof -
    have "map_of (strs d5) (BatchPart ?kb ?e (int i')) = map_of (strs d2) (BatchPart ?kb ?e (int i'))"
      using 5 by (simp add: same_on_def key_defs)
    moreover have "map_of (strs d1) (BatchPart ?kb ?e (int i')) = map_of (strs d) (BatchPart ?kb ?e (int i'))"
      using 1(2) by (simp add: same_on_def key_defs)
    ultimately show ?thesis by (auto simp: 6(3) d2_def map_of_update part_key_inject)
  qed
  ultimately show thesis
    using that [of d6 t] 6(2,4) by (auto simp: part_stored_def)
qed

lemma go_ok_part_results: "go_ok (part_results L ro ps)"
proof -
  have "go_ok acc \<Longrightarrow> go_ok (fold (\<lambda>(p, data) acc. case select_project L ro data of
        None \<Rightarrow> acc | Some s \<Rightarrow> AList.update p s acc) xs acc)" for xs acc
    by (induction xs arbitrary: acc) (auto split: option.split)
  from this [of "[]"] show ?thesis unfolding part_results_def by simp
qed

lemma round_run:
  assumes "finKeys f = NewKeyBuilder p m" and "finProtocolState f = p" and "finDataMarkets f = m # ms"
    and "namespace_ok (NewKeyBuilder p m)" and "counter p m (show_u64 e) d = int j" and "j < n" and "n \<le> 2 ^ 53" and "i < n"
    and "lists d (FinalizationQueue (NewKeyBuilder p m)) = q @ [Js (batch_data (unat e) m n i ps)]"
    and "long_cids (part_results L ro ps)"
  obtains d' t where "run store_step (finalizer_round L ro f w) d = (Some (), d')"
    and "counter p m (show_u64 e) d' = int (Suc j)"
    and "part_stored (NewKeyBuilder p m) e i (part_results L ro ps) d'"
    and "\<And>i' r. i' \<noteq> i \<Longrightarrow> part_stored (NewKeyBuilder p m) e i' r d' \<longleftrightarrow> part_stored (NewKeyBuilder p m) e i' r d"
    and "lists d' (FinalizationQueue (NewKeyBuilder p m)) = q"
    and "lists d' (AggregationQueueLevel1 (NewKeyBuilder p m)) = (if Suc j = n
      then ready_entry e n t # lists d (AggregationQueueLevel1 (NewKeyBuilder p m)) else lists d (AggregationQueueLevel1 (NewKeyBuilder p m)))"
proof -
  let ?kb = "NewKeyBuilder p m"
  define d1 where "d1 = snd (store_step d (RBRPop (FinalizationQueue ?kb)))"
  have d1: "strs d1 = strs d" "lists d1 = (lists d)(FinalizationQueue ?kb := q)" using assms(9) by (simp_all add: d1_def)
  let ?info = "''epoch:'' @ show_u64 e @ '':batch:'' @ show_int (int i) @ ''/'' @ show_int (int n)"
  obtain a2 d2 where 2: "run store_step (ProcessingStarted w ?info) d1 = (Some a2, d2)" "same_on (spaced ?kb) d1 d2"
    using quiet_run worker_quiet(1) [OF assms(4)] by blast
  have "counter p m (show_u64 e) d2 = int j" using counter_same [OF 2(2)] assms(5) d1(1) by (simp add: counter_def)
  from process_part_run [OF assms(1-4) this assms(6,10) go_ok_part_results, of i] obtain d3 t where
    3: "run store_step (processBatchPart L ro f e (int i) (int n) ps) d2 = (Some True, d3)"
    "counter p m (show_u64 e) d3 = int (Suc j)" "part_stored ?kb e i (part_results L ro ps) d3"
    "\<And>i' r. i' \<noteq> i \<Longrightarrow> part_stored ?kb e i' r d3 \<longleftrightarrow> part_stored ?kb e i' r d2"
    "lists d3 (FinalizationQueue ?kb) = lists d2 (FinalizationQueue ?kb)"
    "lists d3 (AggregationQueueLevel1 ?kb) = (if Suc j = n
      then ready_entry e n t # lists d2 (AggregationQueueLevel1 ?kb) else lists d2 (AggregationQueueLevel1 ?kb))" by metis
  obtain a4 d4 where 4: "run store_step (ProcessingCompleted w) d3 = (Some a4, d4)" "same_on (spaced ?kb) d3 d4"
    using quiet_run worker_quiet(2) [OF assms(4)] by blast
  have pop: "fst (store_step d (RBRPop (FinalizationQueue ?kb))) = BlobR (Js (batch_data (unat e) m n i ps))"
    using assms(9) by simp
  have ints: "int_of_float L (f64 (int i)) = int i" "int_of_float L (f64 (int n)) = int n"
    using assms(7,8) int_of_float_count by simp_all
  have "parseEpochID L (show_nat (unat e)) = Some e" using parse_shown_epoch [of L e] by (simp add: show_u64_def)
  then have "run store_step (finalizer_round L ro f w) d = (Some (), d4)"
    using 2(1) 3(1) 4(1) ints
    by (simp add: finalizer_round_def run_Call assms(1) pop finalize_popped_def batch_data_def epoch_text_def get_num_def
        get_obj_def run_bindp Let_def del: store_step.simps flip: d1_def)
  moreover have same: "lists d4 k = lists d3 k" "lists d2 k = lists d1 k" if "k \<in> spaced ?kb" for k
    using that 2(2) 4(2) by (auto simp: same_on_def)
  moreover have "part_stored ?kb e i' r d4 \<longleftrightarrow> part_stored ?kb e i' r d3"
    "part_stored ?kb e i' r d2 \<longleftrightarrow> part_stored ?kb e i' r d" for i' r
    using 2(2) 4(2) by (simp_all add: part_stored_def same_on_def key_defs d1(1))
  moreover have "counter p m (show_u64 e) d4 = int (Suc j)" using counter_same [OF 4(2)] 3(2) by simp
  ultimately show thesis using that [of d4 t] 3(3-6) by (simp add: d1(2))
qed

section \<open>All parts\<close>

definition queued_parts :: "u64 \<Rightarrow> string \<Rightarrow> (string, json) gomap list \<Rightarrow> blob list" where
  "queued_parts e m bs = map (\<lambda>i. Js (batch_data (unat e) m (length bs) i (bs ! i))) [0 ..< length bs]"

lemma rounds_run:
  assumes "finKeys f = NewKeyBuilder p m" and "finProtocolState f = p" and "finDataMarkets f = m # ms"
    and "namespace_ok (NewKeyBuilder p m)" and "length bs \<le> 2 ^ 53"
    and "\<And>b. b \<in> set bs \<Longrightarrow> long_cids (part_results L ro b)"
    and "counter p m (show_u64 e) d = int j" and "j < length bs"
    and "lists d (FinalizationQueue (NewKeyBuilder p m)) = rev (drop j (queued_parts e m bs))"
    and "lists d (AggregationQueueLevel1 (NewKeyBuilder p m)) = []"
    and "\<And>i. i < j \<Longrightarrow> part_stored (NewKeyBuilder p m) e i (part_results L ro (bs ! i)) d"
  shows "\<exists>d' t. run store_step (for_each (\<lambda>_ _. finalizer_round L ro f w) [j ..< length bs] ()) d = (Some (), d') \<and>
    (\<forall>i < length bs. part_stored (NewKeyBuilder p m) e i (part_results L ro (bs ! i)) d') \<and>
    lists d' (FinalizationQueue (NewKeyBuilder p m)) = [] \<and>
    lists d' (AggregationQueueLevel1 (NewKeyBuilder p m)) = [ready_entry e (length bs) t]"
  using assms(7-11)
proof (induction "length bs - j" arbitrary: d j)
  case 0
  then show ?case by simp
next
  case (Suc r)
  let ?kb = "NewKeyBuilder p m" and ?n = "length bs"
  have j: "j < ?n" using Suc.hyps(2) by simp
  have "drop j (queued_parts e m bs) = Js (batch_data (unat e) m ?n j (bs ! j)) # drop (Suc j) (queued_parts e m bs)"
    using j by (simp add: queued_parts_def Cons_nth_drop_Suc [symmetric] del: upt_Suc)
  then have q: "lists d (FinalizationQueue ?kb) = rev (drop (Suc j) (queued_parts e m bs)) @ [Js (batch_data (unat e) m ?n j (bs ! j))]"
    using Suc.prems(3) by simp
  have "long_cids (part_results L ro (bs ! j))" using assms(6) j by simp
  from round_run [OF assms(1-4) Suc.prems(1,2) assms(5) j q this, of w] obtain d1 t where
    1: "run store_step (finalizer_round L ro f w) d = (Some (), d1)" "counter p m (show_u64 e) d1 = int (Suc j)"
    "part_stored ?kb e j (part_results L ro (bs ! j)) d1"
    "\<And>i' r. i' \<noteq> j \<Longrightarrow> part_stored ?kb e i' r d1 \<longleftrightarrow> part_stored ?kb e i' r d"
    "lists d1 (FinalizationQueue ?kb) = rev (drop (Suc j) (queued_parts e m bs))"
    "lists d1 (AggregationQueueLevel1 ?kb) = (if Suc j = ?n then [ready_entry e ?n t] else [])"
    using Suc.prems(4) by metis
  have parts: "part_stored ?kb e i (part_results L ro (bs ! i)) d1" if "i < Suc j" for i
    using that 1(3,4) Suc.prems(5) by (cases "i = j") auto
  have upt: "[j ..< ?n] = j # [Suc j ..< ?n]" using j by (simp add: upt_conv_Cons)
  show ?case
  proof (cases "Suc j = ?n")
    case True
    then have "\<forall>i < ?n. part_stored ?kb e i (part_results L ro (bs ! i)) d1" using parts by metis
    then show ?thesis using True 1(1,5,6) by (auto simp: upt run_bindp queued_parts_def)
  next
    case False
    then have "lists d1 (AggregationQueueLevel1 ?kb) = []" "Suc j < ?n" using 1(6) j by auto
    with Suc.hyps(1) [of "Suc j" d1] Suc.hyps(2) 1(2,5) parts
    show ?thesis using 1(1) by (simp add: upt run_bindp)
  qed
qed

lemma idle_round:
  "lists d (FinalizationQueue (finKeys f)) = [] \<Longrightarrow> run store_step (finalizer_round L ro f w) d = (Some (), d)"
  by (simp add: finalizer_round_def run_Call)

lemma idle_rounds:
  "lists d (FinalizationQueue (finKeys f)) = [] \<Longrightarrow>
     run store_step (for_each (\<lambda>_ _. finalizer_round L ro f w) xs ()) d = (Some (), d)"
  by (induction xs) (simp_all add: run_bindp idle_round)

lemma run_for_each_append:
  "run R (for_each body (xs @ ys) a) s =
     (case run R (for_each body xs a) s of (None, s') \<Rightarrow> (None, s') | (Some a', s') \<Rightarrow> run R (for_each body ys a') s')"
  by (induction xs arbitrary: a s) (auto simp: run_bindp split: option.splits prod.splits)

section \<open>Closing an epoch\<close>

lemma pushes_run:
  "run store_step (execs (map (RLPush k) bs)) d = (Some (), d\<lparr>lists := (lists d)(k := rev bs @ lists d k)\<rparr>)"
  by (induction bs arbitrary: d) (simp_all add: run_Call)

lemma counting_avoids: "calls_sat (avoids K) (count_record L key acc)"
  by (auto simp: count_record_def avoids_def Let_def split: reply.split option.split prod.split)

lemma scanning_avoids: "calls_sat (avoids K) (scanKeys n pat cur ks)"
  by (induction n pat cur ks rule: scanKeys.induct) (auto simp: avoids_def split: reply.split)

lemma counting_all_avoid: "calls_sat (avoids K) (count_submission L fuel wm m i acc)"
  by (auto simp: count_submission_def split: option.split scanResult.split
      intro!: calls_sat_bindp calls_sat_for_each scanning_avoids counting_avoids)

definition unread_keys :: "keyBuilder \<Rightarrow> u64 \<Rightarrow> string set" where
  "unread_keys kb e = spaced kb - {ns kb (''batch:ready:'' @ show_u64 e), ns kb (''epoch:'' @ show_u64 e @ '':batch:meta'')}"

lemma collecting_avoids:
  "calls_sat (avoids (unread_keys (NewKeyBuilder (wmProtocol wm) m) e)) (collectEpochSubmissions L fuel wm m (unat e))"
  by (auto simp: collectEpochSubmissions_def Let_def avoids_def unread_keys_def show_u64_def split: reply.split option.split
      intro!: calls_sat_bindp calls_sat_for_each counting_all_avoid)

lemma queued_enumerate:
  "map (\<lambda>(i, b). RLPush k (Js (batch_data (unat e) m (length bs) i b))) (List.enumerate 0 bs) = map (RLPush k) (queued_parts e m bs)"
  by (rule nth_equalityI) (simp_all add: queued_parts_def nth_enumerate_eq case_prod_unfold)

abbreviation batch_size :: "windowManager \<Rightarrow> int" where
  "batch_size wm \<equiv> (if finalizationBatchSize wm \<le> 0 then 20 else finalizationBatchSize wm)"

lemma trigger_run:
  assumes "scans_fit fuel d (wmProtocol wm) m (unat e)" and "kb = NewKeyBuilder (wmProtocol wm) m"
  obtains a d' where "run store_step (triggerFinalization L fuel ro wm m (unat e)) d = (Some True, d')"
    and "projectVotes a = fold count_vote (epoch_votes d (wmProtocol wm) m (unat e)) []"
    and "lists d' (FinalizationQueue kb) =
      rev (queued_parts e m (splitIntoBatches ro (project_submissions a) (batch_size wm))) @ lists d (FinalizationQueue kb)"
    and "same_on (unread_keys kb e - {FinalizationQueue kb}) d d'"
proof -
  obtain a d1 where 1: "run store_step (collectEpochSubmissions L fuel wm m (unat e)) d = (Some (Some (project_submissions a)), d1)"
    "projectVotes a = fold count_vote (epoch_votes d (wmProtocol wm) m (unat e)) []"
    using collect_store [OF assms(1), of L] by blast
  have same: "same_on (unread_keys kb e) d d1"
    using same_on_final [OF collecting_avoids [of wm m e L fuel], of d] 1(1) by (simp add: assms(2))
  define bs where "bs = splitIntoBatches ro (project_submissions a) (batch_size wm)"
  define d2 where "d2 = snd (store_step d1 Now)"
  let ?meta = "RSet (ns kb (''epoch:'' @ show_u64 e @ '':batch:meta'')) (Js (JObj [(''epoch_id'', JStr (show_u64 e)),
    (''total_batches'', JNum (int (length bs))), (''total_projects'', JNum (int (length (project_submissions a)))),
    (''created_at'', JNum (int_of (fst (store_step d1 Now)))), (''data_market'', JStr m)])) 7200"
  define d3 where "d3 = snd (store_step d2 ?meta)"
  define d4 where "d4 = d3\<lparr>lists := (lists d3)(FinalizationQueue kb := rev (queued_parts e m bs) @ lists d3 (FinalizationQueue kb))\<rparr>"
  have r: "run store_step (triggerFinalization L fuel ro wm m (unat e)) d = (Some True, d4)"
    using pushes_run [of "FinalizationQueue kb" "queued_parts e m bs" d3]
    by (simp add: triggerFinalization_def run_bindp 1(1) run_Call Let_def queued_enumerate bs_def d2_def d3_def d4_def assms(2) show_u64_def
        del: store_step.simps)
  have "same_on (unread_keys kb e) d1 d3"
  proof -
    have "avoids (unread_keys kb e) ?meta" by (auto simp: avoids_def unread_keys_def)
    from same_on_step [OF this, of d2] same_on_step [OF avoids_clock, of "unread_keys kb e" d1] show ?thesis
      unfolding d2_def d3_def by (blast intro: same_on_trans)
  qed
  with same have s3: "same_on (unread_keys kb e) d d3" by (rule same_on_trans)
  have "FinalizationQueue kb \<in> unread_keys kb e" by (auto simp: unread_keys_def key_defs ns_same)
  then have "lists d3 (FinalizationQueue kb) = lists d (FinalizationQueue kb)" using s3 by (simp add: same_on_def)
  then show thesis using that [OF r 1(2)] s3 by (simp add: d4_def bs_def same_on_def)
qed

section \<open>The parts and their results\<close>

lemma part_results_in:
  "go_ok b \<Longrightarrow> (p, x) \<in> set (part_results L ro b) \<longleftrightarrow> (\<exists>data. (p, data) \<in> set b \<and> select_project L ro data = Some x)"
proof -
  assume b: "go_ok b"
  have "(p, x) \<in> set (part_results L ro b) \<longleftrightarrow> map_of (part_results L ro b) p = Some x"
    using go_ok_part_results [of L ro b] by (simp add: go_ok_def)
  also have "\<dots> \<longleftrightarrow> (\<exists>data. map_of b p = Some data \<and> select_project L ro data = Some x)"
    by (simp add: part_results_pointwise [OF b] bind_eq_Some_conv)
  finally show ?thesis using b by (simp add: go_ok_def)
qed

lemma split_parts:
  assumes "go_ok subs" and "0 < width" and "bs = splitIntoBatches ro subs width"
  shows "set (concat bs) = set subs" and "length bs \<le> length subs" and "subs \<noteq> [] \<Longrightarrow> bs \<noteq> []"
    and "i < length bs \<Longrightarrow> go_ok (bs ! i)"
    and "i < length bs \<Longrightarrow> j < length bs \<Longrightarrow> i \<noteq> j \<Longrightarrow> fst ` set (bs ! i) \<inter> fst ` set (bs ! j) = {}"
proof -
  have width: "width = int (nat width)" "0 < nat width" using assms(2) by simp_all
  from batches_partition_projects [OF assms(1) width(2), of ro] have
    m: "mset (concat bs) = mset subs" and ne: "\<forall>b \<in> set bs. b \<noteq> []"
    unfolding assms(3) using width(1) by auto
  show s: "set (concat bs) = set subs" using m by (metis set_mset_mset)
  have "length xs \<le> length (concat xs)" if "\<forall>b \<in> set xs. b \<noteq> []" for xs :: "(string, json) gomap list"
    using that
  proof (induction xs)
    case (Cons b xs)
    then show ?case by (cases b) auto
  qed simp
  moreover have "length (concat bs) = length subs" using m by (metis size_mset)
  ultimately show "length bs \<le> length subs" using ne by metis
  show "subs \<noteq> [] \<Longrightarrow> bs \<noteq> []" using s by (cases bs) auto
  let ?ks = "map (map fst) bs"
  have "mset (map fst (concat bs)) = mset (map fst subs)" using m by simp
  then have "distinct (map fst (concat bs))" using assms(1) by (metis go_ok_def mset_eq_imp_distinct_iff)
  then have d: "distinct (concat ?ks)" by (simp add: map_concat)
  have "removeAll [] ?ks = ?ks" using ne by (intro removeAll_id) auto
  then have dd: "distinct ?ks" "\<And>ks ks'. ks \<in> set ?ks \<Longrightarrow> ks' \<in> set ?ks \<Longrightarrow> ks \<noteq> ks' \<Longrightarrow> set ks \<inter> set ks' = {}"
    "\<And>ks. ks \<in> set ?ks \<Longrightarrow> distinct ks"
    using d unfolding distinct_concat_iff by metis+
  show "go_ok (bs ! i)" if "i < length bs" using dd(3) [of "map fst (bs ! i)"] that by (simp add: go_ok_def)
  show "fst ` set (bs ! i) \<inter> fst ` set (bs ! j) = {}" if ij: "i < length bs" "j < length bs" "i \<noteq> j"
  proof -
    have "?ks ! i \<noteq> ?ks ! j" using dd(1) ij by (simp add: nth_eq_iff_index_eq del: nth_map)
    then show ?thesis using dd(2) [of "?ks ! i" "?ks ! j"] ij by simp
  qed
qed

text \<open>What was collected: one entry for each project with a vote, and the votes decide what is selected from it.\<close>

lemma count_vote_keys: "fst ` set (fold count_vote vs pv) = fst ` set pv \<union> fst ` set vs"
proof -
  have "fst ` set (count_vote v pv) = insert (fst v) (fst ` set pv)" for v pv
    by (simp add: count_vote_def dom_update)
  then show ?thesis by (induction vs arbitrary: pv) auto
qed

lemma collected_entries:
  assumes "projectVotes a = fold count_vote vs []"
  shows "go_ok (project_submissions a)" and "fst ` set (project_submissions a) = fst ` set vs"
    and "length (project_submissions a) \<le> length vs"
proof -
  have "pv_ok (projectVotes a)" unfolding assms by (rule pv_ok_fold) (simp add: pv_ok_def)
  then show ok: "go_ok (project_submissions a)"
    by (simp add: pv_ok_def project_submissions_def go_ok_def comp_def case_prod_unfold)
  show k: "fst ` set (project_submissions a) = fst ` set vs"
  proof -
    have "fst ` set (project_submissions a) = fst ` set (projectVotes a)"
      unfolding project_submissions_def by (simp add: image_image case_prod_unfold)
    then show ?thesis using count_vote_keys [of vs "[]"] by (simp add: assms)
  qed
  have "length (project_submissions a) = card (fst ` set vs)"
    using ok unfolding k [symmetric] go_ok_def by (metis distinct_card length_map set_map)
  also have "\<dots> \<le> length vs" by (metis card_image_le card_length finite_set order_trans)
  finally show "length (project_submissions a) \<le> length vs" .
qed

lemma entry_selected:
  assumes "projectVotes a = fold count_vote vs []" and "length vs \<le> 2 ^ 53"
    and "map_of (project_submissions a) p = Some data" and "(p, c) \<in> set vs" and "\<And>c. (p, c) \<in> set vs \<Longrightarrow> c \<noteq> []"
  shows "select_project L ro data \<noteq> None"
proof -
  obtain votes where vi: "votes_in L data = votes" and ok: "go_ok votes" and n: "\<And>c. mget 0 votes c = int (count_list vs (p, c))"
    using entry_votes [OF assms(1-3)] by metis
  let ?r = "range_map ro ''cidVotes'' votes"
  have "count_list vs (p, c) \<noteq> 0" using assms(4) by (simp add: count_list_0_iff)
  then have pos: "0 < mget 0 votes c" using n [of c] by simp
  then obtain k where k: "map_of votes c = Some k" "0 < k" by (auto simp: mget_def split: option.splits)
  then have "(c, k) \<in> set ?r" using set_range_map [OF ok] by (simp add: map_of_SomeD)
  then have "0 < snd (select_winner ?r)" using finalizer_pick.votes_max [of c k ?r] k(2) by linarith
  then have w: "select_winner ?r \<in> set votes" using finalizer_pick.winner_in [of ?r] set_range_map [OF ok] by simp
  have "mget 0 votes (fst (select_winner ?r)) = snd (select_winner ?r)"
    using mget_in [OF ok, of "fst (select_winner ?r)" "snd (select_winner ?r)" 0] w by simp
  then have "count_list vs (p, fst (select_winner ?r)) \<noteq> 0" using n \<open>0 < snd (select_winner ?r)\<close> by simp
  then have ne: "fst (select_winner ?r) \<noteq> []" using assms(5) by (simp add: count_list_0_iff)
  obtain kvs raw where "as_obj data = Some kvs" "get_obj ''cid_votes'' kvs = Some raw" "cid_votes_of L raw = votes"
    using vi k(1) by (auto simp: votes_in_def bind_eq_Some_conv split: option.splits)
  then show ?thesis using ne by (auto simp: select_project_def Let_def case_prod_unfold)
qed

section \<open>The whole way\<close>

definition node_round ::
  "golib \<Rightarrow> range_order \<Rightarrow> nat \<Rightarrow> windowManager \<Rightarrow> string \<Rightarrow> u64 \<Rightarrow> finConfig \<Rightarrow> workerMonitor \<Rightarrow> nat \<Rightarrow> aggregator \<Rightarrow> unit prog" where
  "node_round L ro fuel wm m e f w k a =
     bindp (triggerFinalization L fuel ro wm m (unat e)) (\<lambda>_.
     bindp (for_each (\<lambda>_ _. finalizer_round L ro f w) [0 ..< k] ()) (\<lambda>_.
     level1_round L ro a))"

lemma parts_of_epoch:
  assumes "agKeys a = NewKeyBuilder (wmProtocol wm) m" and "namespace_ok (agKeys a)"
    and "finKeys f = agKeys a" and "finProtocolState f = wmProtocol wm" and "finDataMarkets f = m # ms"
    and "fresh_epoch (wmProtocol wm) m (show_u64 e) d" and "lists d (FinalizationQueue (agKeys a)) = []"
    and "vs = epoch_votes d (wmProtocol wm) m (unat e)" and "vs \<noteq> []" and "length vs \<le> 2 ^ 53" and "length vs \<le> k"
    and "\<And>p c. (p, c) \<in> set vs \<Longrightarrow> 16 \<le> length c" and "scans_fit fuel d (wmProtocol wm) m (unat e)"
  obtains acc bs d' t where "projectVotes acc = fold count_vote vs []"
    and "bs = splitIntoBatches ro (project_submissions acc) (batch_size wm)"
    and "run store_step (node_round L ro fuel wm m e f w k a) d = run store_step (level1_round L ro a) d'"
    and "\<And>i. i < length bs \<Longrightarrow> part_stored (agKeys a) e i (part_results L ro (bs ! i)) d'"
    and "lists d' (AggregationQueueLevel1 (agKeys a)) = [ready_entry e (length bs) t]"
proof -
  let ?kb = "agKeys a"
  obtain acc d1 where 1: "run store_step (triggerFinalization L fuel ro wm m (unat e)) d = (Some True, d1)"
    "projectVotes acc = fold count_vote vs []"
    "lists d1 (FinalizationQueue ?kb) =
      rev (queued_parts e m (splitIntoBatches ro (project_submissions acc) (batch_size wm))) @ lists d (FinalizationQueue ?kb)"
    "same_on (unread_keys ?kb e - {FinalizationQueue ?kb}) d d1"
    using trigger_run [OF assms(13,1), where L = L and ro = ro] assms(8) by metis
  define bs where "bs = splitIntoBatches ro (project_submissions acc) (batch_size wm)"
  note ce = collected_entries [OF 1(2)]
  have "0 < batch_size wm" by auto
  note sp = split_parts [OF ce(1) this bs_def]
  have ne: "project_submissions acc \<noteq> []" using ce(2) assms(9) by auto
  have bs: "0 < length bs" "length bs \<le> length vs" using sp(2,3) ne ce(3) by auto
  have long: "long_cids (part_results L ro b)" if b: "b \<in> set bs" for b
    unfolding long_cids_def
  proof (clarify)
    fix p x assume x: "(p, x) \<in> set (part_results L ro b)"
    obtain i where i: "i < length bs" "b = bs ! i" using b by (auto simp: in_set_conv_nth)
    then have "go_ok b" using sp(4) by simp
    then obtain data where data: "(p, data) \<in> set b" "select_project L ro data = Some x" using x part_results_in by blast
    then have "(p, data) \<in> set (project_submissions acc)" using b sp(1) by auto
    then have m: "map_of (project_submissions acc) p = Some data" using ce(1) by (simp add: go_ok_def)
    have "0 < selVotes x" using selected_winner [OF data(2)] entry_votes [OF 1(2) assms(10) m, of L] by metis
    then have "count_list vs (p, selCid x) \<noteq> 0" using entry_plurality(1) [OF 1(2) assms(10) m data(2)] by simp
    then show "16 \<le> length (selCid x)" using assms(12) by (simp add: count_list_0_iff)
  qed
  have keep: "map_of (strs d1) x = map_of (strs d) x" "lists d1 x = lists d x"
    if "x \<in> {EpochPartsCompleted ?kb (show_u64 e), AggregationQueueLevel1 ?kb}" for x
    using that 1(4) by (auto simp: same_on_def unread_keys_def key_defs ns_same)
  have c: "counter (wmProtocol wm) m (show_u64 e) d1 = int 0"
    using assms(6) keep(1) by (simp add: counter_def fresh_epoch_def assms(1) [symmetric])
  have q: "lists d1 (FinalizationQueue ?kb) = rev (drop 0 (queued_parts e m bs))"
    "lists d1 (AggregationQueueLevel1 ?kb) = []"
    using 1(3) assms(6,7) keep(2) by (simp_all add: bs_def fresh_epoch_def assms(1) [symmetric])
  from rounds_run [OF assms(3) [unfolded assms(1)] assms(4,5) assms(2) [unfolded assms(1)] _ long c bs(1), of w]
    q [unfolded assms(1)] bs(2) assms(10)
  obtain d2 t where 2: "run store_step (for_each (\<lambda>_ _. finalizer_round L ro f w) [0 ..< length bs] ()) d1 = (Some (), d2)"
    "\<forall>i < length bs. part_stored ?kb e i (part_results L ro (bs ! i)) d2"
    "lists d2 (FinalizationQueue ?kb) = []" "lists d2 (AggregationQueueLevel1 ?kb) = [ready_entry e (length bs) t]"
    unfolding assms(1) by auto
  have "[0 ..< k] = [0 ..< length bs] @ [length bs ..< k]"
    using bs(2) assms(11) by (metis le_add_diff_inverse order_trans upt_add_eq_append zero_le)
  then have "run store_step (for_each (\<lambda>_ _. finalizer_round L ro f w) [0 ..< k] ()) d1 = (Some (), d2)"
    using 2(1,3) idle_rounds [of d2 f] by (simp add: run_for_each_append assms(3))
  then have "run store_step (node_round L ro fuel wm m e f w k a) d = run store_step (level1_round L ro a) d2"
    by (simp add: node_round_def run_bindp 1(1))
  then show thesis using that [OF 1(2) bs_def] 2(2,4) by blast
qed

lemma reported_submissions_become_local_batch:
  assumes "reliable R v" and "agKeys a = NewKeyBuilder (wmProtocol wm) m" and "namespace_ok (agKeys a)"
    and "finKeys f = agKeys a" and "finProtocolState f = wmProtocol wm" and "finDataMarkets f = m # ms"
    and "fresh_epoch (wmProtocol wm) m (show_u64 e) (v s)" and "lists (v s) (FinalizationQueue (agKeys a)) = []"
    and "vs = epoch_votes (v s) (wmProtocol wm) m (unat e)" and "vs \<noteq> []" and "length vs < 2 ^ 32" and "length vs \<le> k"
    and "\<And>p c. (p, c) \<in> set vs \<Longrightarrow> 16 \<le> length c" and "scans_fit fuel (v s) (wmProtocol wm) m (unat e)"
  shows "\<exists>b. outcome R (node_round L ro fuel wm m e f w k a) s = Some () \<and>
    map_of (strs (v (final R (node_round L ro fuel wm m e f w k a) s))) (FinalizedBatch (agKeys a) (show_u64 e)) = Some (Js (enc_batch b)) \<and>
    fbEpochId b = e \<and> distinct (ProjectIds b) \<and> set (ProjectIds b) = fst ` set vs \<and> length (SnapshotCids b) = length (ProjectIds b) \<and>
    (\<forall>(p, c) \<in> set (zip (ProjectIds b) (SnapshotCids b)).
       (\<forall>c'. count_list vs (p, c') \<le> count_list vs (p, c)) \<and> map_of (ProjectVotes b) p = Some (of_nat (count_list vs (p, c))))"
proof -
  have small: "length vs \<le> 2 ^ 53" using assms(11) by simp
  obtain acc bs d t where acc: "projectVotes acc = fold count_vote vs []"
    and bs: "bs = splitIntoBatches ro (project_submissions acc) (batch_size wm)"
    and run: "run store_step (node_round L ro fuel wm m e f w k a) (v s) = run store_step (level1_round L ro a) d"
    and parts: "\<And>i. i < length bs \<Longrightarrow> part_stored (agKeys a) e i (part_results L ro (bs ! i)) d"
    and ready: "lists d (AggregationQueueLevel1 (agKeys a)) = [ready_entry e (length bs) t]"
    by (rule parts_of_epoch [OF assms(2-10) small assms(12-14), where L = L and ro = ro and w = w], assumption, rule that)
  define res where "res i = part_results L ro (bs ! i)" for i
  note ce = collected_entries [OF acc]
  have "0 < batch_size wm" by auto
  note sp = split_parts [OF ce(1) this bs]
  have results: "(\<exists>i < length bs. (p, x) \<in> set (res i)) \<longleftrightarrow>
      (\<exists>data. map_of (project_submissions acc) p = Some data \<and> select_project L ro data = Some x)" for p x
  proof -
    have "(p, x) \<in> set (res i) \<longleftrightarrow> (\<exists>data. (p, data) \<in> set (bs ! i) \<and> select_project L ro data = Some x)" if "i < length bs" for i
      unfolding res_def by (rule part_results_in [OF sp(4) [OF that]])
    then have "(\<exists>i < length bs. (p, x) \<in> set (res i)) \<longleftrightarrow>
        (\<exists>data. (\<exists>i < length bs. (p, data) \<in> set (bs ! i)) \<and> select_project L ro data = Some x)" by blast
    also have "(\<lambda>data. \<exists>i < length bs. (p, data) \<in> set (bs ! i)) = (\<lambda>data. (p, data) \<in> set (concat bs))"
      by (simp add: set_concat set_conv_nth [of bs]) blast
    finally show ?thesis using ce(1) unfolding sp(1) by (simp add: go_ok_def)
  qed
  have n: "length bs \<le> 2 ^ 53" using sp(2) ce(3) small by linarith
  have votes: "int (count_list vs (p, selCid x)) = selVotes x" "int (count_list vs (p, c)) \<le> selVotes x" "selVotes x < 2 ^ 32"
    if at: "i < length bs" "(p, x) \<in> set (res i)" for i p x c
  proof -
    obtain data where data: "map_of (project_submissions acc) p = Some data" "select_project L ro data = Some x"
      using at results by blast
    show c: "int (count_list vs (p, selCid x)) = selVotes x" "int (count_list vs (p, c)) \<le> selVotes x"
      by (rule entry_plurality [OF acc small data])+
    have "int (count_list vs (p, selCid x)) < 2 ^ 32"
      using of_nat_less_iff [where 'a = int, THEN iffD2, OF le_less_trans [OF count_list_le [of vs "(p, selCid x)"] assms(11)]] by simp
    then show "selVotes x < 2 ^ 32" using c(1) by simp
  qed
  have stored: "map_of (strs d) (BatchPart (agKeys a) (show_u64 e) (int i)) = Some (part_json (res i))" "go_ok (res i)"
    if "i < length bs" for i
    using parts [OF that] by (simp_all add: part_stored_def res_def go_ok_part_results)
  have sub: "fst ` set (res i) \<subseteq> fst ` set (bs ! i)" if "i < length bs" for i
    unfolding res_def using part_results_in [OF sp(4) [OF that]] by force
  then have apart: "fst ` set (res i) \<inter> fst ` set (res j) = {}" if "i < length bs" "j < length bs" "i \<noteq> j" for i j
    using sp(5) [OF that] that by blast
  have bound: "\<forall>i < length bs. \<forall>(p, x) \<in> set (res i). 0 \<le> selVotes x \<and> selVotes x < 2 ^ 32"
    using votes(1,3) by (metis (no_types, lifting) case_prodI2 of_nat_0_le_iff)
  have "lists d (AggregationQueueLevel1 (agKeys a)) = [] @ [ready_entry e (length bs) t]" using ready by simp
  note rdy = this
  obtain b where b: "outcome store_step (level1_round L ro a) d = Some ()"
    "map_of (strs (final store_step (level1_round L ro a) d)) (FinalizedBatch (agKeys a) (show_u64 e)) = Some (Js (enc_batch b))"
    "fbEpochId b = e" "distinct (ProjectIds b)" "length (SnapshotCids b) = length (ProjectIds b)"
    "\<forall>p c. (p, c) \<in> set (zip (ProjectIds b) (SnapshotCids b)) \<longleftrightarrow> (\<exists>i < length bs. \<exists>x. (p, x) \<in> set (res i) \<and> c = selCid x)"
    "\<forall>i < length bs. \<forall>(p, x) \<in> set (res i). map_of (ProjectVotes b) p = Some (word_of_int (selVotes x))"
    by (rule exE [OF local_batch_of_parts [OF reliable_store rdy n stored apart bound, of L ro]])
      (assumption | elim conjE, rule that)+
  have listed: "(\<forall>c'. count_list vs (p, c') \<le> count_list vs (p, c)) \<and> map_of (ProjectVotes b) p = Some (of_nat (count_list vs (p, c)))"
    if pc: "(p, c) \<in> set (zip (ProjectIds b) (SnapshotCids b))" for p c
  proof -
    obtain i x where x: "i < length bs" "(p, x) \<in> set (res i)" "c = selCid x" using pc b(6) by blast
    have "map_of (ProjectVotes b) p = Some (word_of_int (selVotes x))" using b(7) x(1,2) by blast
    moreover have "count_list vs (p, c') \<le> count_list vs (p, c)" for c'
      using votes(1) [OF x(1,2)] votes(2) [OF x(1,2), of c'] x(3) by simp
    moreover have "word_of_int (selVotes x) = (of_nat (count_list vs (p, c)) :: u32)"
      unfolding x(3) votes(1) [OF x(1,2), symmetric] by simp
    ultimately show ?thesis by simp
  qed
  have projects: "set (ProjectIds b) = fst ` set vs"
  proof -
    have "set (ProjectIds b) = fst ` set (zip (ProjectIds b) (SnapshotCids b))" using b(5) by (metis map_fst_zip set_map)
    also have "\<dots> = {p. \<exists>data x. map_of (project_submissions acc) p = Some data \<and> select_project L ro data = Some x}"
    proof -
      have img: "p \<in> fst ` Z \<longleftrightarrow> (\<exists>c. (p, c) \<in> Z)" for p and Z :: "(string \<times> string) set" by force
      show ?thesis unfolding set_eq_iff img mem_Collect_eq using b(6) results by blast
    qed
    also have "\<dots> = fst ` set (project_submissions acc)"
    proof -
      have "select_project L ro data \<noteq> None" if "map_of (project_submissions acc) p = Some data" for p data
      proof -
        have "p \<in> fst ` set vs" using that ce(2) by (metis map_of_eq_None_iff option.distinct(1))
        then obtain c where "(p, c) \<in> set vs" by auto
        then show ?thesis using entry_selected [OF acc small that] assms(13) by fastforce
      qed
      then show ?thesis by (auto simp: dom_map_of_conv_image_fst [symmetric] dom_def)
    qed
    finally show ?thesis using ce(2) by simp
  qed
  show ?thesis
    unfolding reliable_run [OF assms(1)] run
    by (rule exI [of _ b]) (use b(1-5) projects listed in auto)
qed


definition demo_worker :: workerMonitor where
  "demo_worker = \<lparr>wmWorkerID = ''finalizer-0'', wmWorkerType = WorkerTypeFinalizer, wmProtocolState = ''P''\<rparr>"


end
