(* ===== verification/Started.thy ===== *)
theory Started
  imports Startup Finalization
begin

text \<open>
  What a started sequencer is: which goroutines the settings lead to, that batches are exchanged only by a
  node that finalizes too, and that of several data markets only the first is ever finalized.
\<close>

section \<open>The parts of a started node\<close>

definition consensus_of :: "nodeLib \<Rightarrow> settings \<Rightarrow> string option \<Rightarrow> p2pConsensus option" where
  "consensus_of N cfg host =
     (if cfEnableBatchAggregation cfg \<and> make_ipfs N cfg \<and> setupTopics N cfg
      then map_option (\<lambda>i. NewP2PConsensus (cfSequencerID cfg) i True (snd (GetFinalizedBatchTopics cfg))) host else None)"

lemma make_consensus_outcome: "outcome R (make_consensus N cfg host (make_ipfs N cfg)) s = Some (consensus_of N cfg host)"
proof -
  have "outcome R (bindp (execs cs) (\<lambda>_. Ret x)) s = Some x" for cs and x :: "p2pConsensus option" and s
    using outcome_execs [of R cs s] by (auto simp: run_bindp split: option.splits prod.splits)
  then show ?thesis by (auto simp: make_consensus_def consensus_of_def split: option.split)
qed

definition monitor_of :: "settings \<Rightarrow> eventMonitor option \<Rightarrow> bool" where
  "monitor_of cfg mon \<longleftrightarrow> (\<forall>m. mon = Some m \<longrightarrow> cfEnableEventMonitor cfg \<and> monMarkets m = cfDataMarketAddresses cfg \<and>
     wmProtocol (windowManager m) = cfProtocolStateContract cfg)"

lemma make_monitor_outcome:
  "outcome R (make_monitor N cfg redis) s = Some (Inr mon) \<Longrightarrow> monitor_of cfg mon"
  by (auto simp: make_monitor_def NewEventMonitor_def monitor_of_def run_bindp split: if_splits)

lemma start_made:
  assumes "outcome R (start_sequencer L U N cfg) s = Some (Inr n)"
  shows "\<exists>dedup dq mon host. n = assemble cfg (needs_redis cfg) dedup host (make_ipfs N cfg) dq (consensus_of N cfg host) mon \<and>
    make_p2p N cfg = Inr host \<and> monitor_of cfg mon"
proof -
  obtain s1 where "outcome R (start_with L U N cfg (needs_redis cfg)) s1 = Some (Inr n)"
    using assms by (auto simp: start_sequencer_def run_bindp connect_redis_def run_Call split: if_splits)
  then obtain dedup host dq where p: "make_p2p N cfg = Inr host"
    and o: "outcome R (start_parts N cfg (needs_redis cfg) dedup host dq) s1 = Some (Inr n)"
    by (auto simp: start_with_def split: sum.splits)
  obtain s2 where c: "run R (make_consensus N cfg host (make_ipfs N cfg)) s1 = (Some (consensus_of N cfg host), s2)"
    using make_consensus_outcome [of R N cfg host s1] by (metis prod.collapse)
  obtain m s3 where m: "run R (make_monitor N cfg (needs_redis cfg)) s2 = (Some m, s3)"
    using o c by (cases "run R (make_monitor N cfg (needs_redis cfg)) s2") (auto simp: start_parts_def run_bindp split: option.splits)
  with o c obtain mon where "m = Inr mon"
    "n = assemble cfg (needs_redis cfg) dedup host (make_ipfs N cfg) dq (consensus_of N cfg host) mon"
    by (cases m) (auto simp: start_parts_def run_bindp Let_def split: option.splits prod.splits)
  then show ?thesis using p m make_monitor_outcome [of R N cfg _ s2 mon] by (metis fst_conv)
qed

lemma started_parts:
  assumes "outcome R (start_sequencer L U N cfg) s = Some (Inr n)"
  shows "seqKeys n = node_keys cfg" and "make_p2p N cfg = Inr (usHost n)" and "usConsensus n = consensus_of N cfg (usHost n)"
    and "monitor_of cfg (usEventMonitor n)" and "usEnableBatchAggregation n = cfEnableBatchAggregation cfg"
    and "seqRedis n = needs_redis cfg" and "usConfig n = cfg"
  using start_made [OF assms] by (auto simp: assemble_def)

lemma p2p_host: "make_p2p N cfg = Inr host \<Longrightarrow> host \<noteq> None \<longleftrightarrow> cfEnableListener cfg \<or> cfEnableBatchAggregation cfg"
proof -
  assume h: "make_p2p N cfg = Inr host"
  show ?thesis
  proof (cases "cfEnableListener cfg \<or> cfEnableBatchAggregation cfg")
    case True
    then obtain i where "new_host N cfg = Some i"
      using h by (cases "new_host N cfg") (simp_all add: make_p2p_def split: if_splits)
    then have "host = Some i" using h True by (simp add: make_p2p_def split: if_splits)
    then show ?thesis using True by simp
  next
    case False
    then show ?thesis using h by (simp add: make_p2p_def)
  qed
qed

section \<open>Who exchanges batches\<close>

text \<open>C21. A sequencer that is to aggregate batches runs the component for it, but has something to exchange them with exactly when it
  is a finalizer too, with an IPFS node that answers: the client that the exchange needs is made for finalizers only. A batch
  aggregator by itself just writes log lines.\<close>

theorem batch_exchange_needs_finalizer:
  assumes "outcome R (start_sequencer L U N cfg) s = Some (Inr n)" and "cfEnableBatchAggregation cfg"
  shows "''runBatchAggregation'' \<in> set (components n) \<and>
    (usConsensus n \<noteq> None \<longleftrightarrow> cfEnableFinalizer cfg \<and> make_ipfs N cfg \<and> setupTopics N cfg) \<and>
    (\<not> cfEnableFinalizer cfg \<longrightarrow> (\<forall>R' s'. outcome R' (runBatchAggregation n) s' = Some []))"
proof -
  note p = started_parts [OF assms(1)]
  have host: "usHost n \<noteq> None" using p2p_host [OF p(2)] assms(2) by simp
  have ipfs: "make_ipfs N cfg \<Longrightarrow> cfEnableFinalizer cfg" by (simp add: make_ipfs_def Let_def)
  have "usConsensus n \<noteq> None \<longleftrightarrow> cfEnableFinalizer cfg \<and> make_ipfs N cfg \<and> setupTopics N cfg"
    using host ipfs assms(2) by (auto simp: p(3) consensus_of_def)
  moreover have "''runBatchAggregation'' \<in> set (components n)"
    using host assms(2) p(5) by (simp add: components_def)
  ultimately show ?thesis by (auto simp: runBatchAggregation_def run_Call Let_def)
qed

definition demo_node :: nodeLib where
  "demo_node = \<lparr>ndUnmarshalKey = (\<lambda>_. True), ndGenerateKey = True, ndConnManager = (\<lambda>_ _. True), ndMultiaddr = (\<lambda>_. True),
     ndHost = (\<lambda>_ _. Some ''peer''), ndDHT = True, ndBootstrap = True, ndAddrInfo = (\<lambda>_. None), ndConnect = (\<lambda>_. True),
     ndGossipSub = True, ndIpfs = (\<lambda>_. True), ndIpfsAvailable = (\<lambda>_. True), ndJoin = (\<lambda>_. True), ndSubscribe = (\<lambda>_. True),
     ndRPC = (\<lambda>_. True), ndBlock = None, ndABI = (\<lambda>_. None)\<rparr>"

text \<open>The roles that the settings switch on: aggregation of batches, finalization, the event monitor.\<close>

definition role_settings :: "bool \<Rightarrow> bool \<Rightarrow> bool \<Rightarrow> settings" where
  "role_settings aggregation finalizer monitor = (read_settings (\<lambda>_. []))\<lparr>cfEnableListener := False, cfEnableDequeuer := False,
     cfEnableFinalizer := finalizer, cfEnableBatchAggregation := aggregation, cfEnableEventMonitor := monitor,
     cfP2PPrivateKey := [], cfMaxConcurrentWindows := 2, cfContractABIPath := [], cfRPCNodes := [''http://n''],
     cfProtocolStateContract := ''P'', cfDataMarketAddresses := [''M'', ''M2'']\<rparr>"

lemma role_simps [simp]:
  "cfEnableListener (role_settings a f m) = False" "cfEnableDequeuer (role_settings a f m) = False"
  "cfEnableFinalizer (role_settings a f m) = f" "cfEnableBatchAggregation (role_settings a f m) = a"
  "cfEnableEventMonitor (role_settings a f m) = m" "cfP2PPrivateKey (role_settings a f m) = []"
  "cfMaxConcurrentWindows (role_settings a f m) = 2" "cfContractABIPath (role_settings a f m) = []"
  "cfRPCNodes (role_settings a f m) = [''http://n'']" "cfProtocolStateContract (role_settings a f m) = ''P''"
  "cfDataMarketAddresses (role_settings a f m) = [''M'', ''M2'']"
  by (simp_all add: role_settings_def)

lemma role_starts:
  "\<exists>n. outcome store_step (start_sequencer demo_lib list_lru demo_node (role_settings a f m)) empty_store = Some (Inr n) \<and>
     (m \<longrightarrow> usEventMonitor n \<noteq> None)"
proof -
  let ?cfg = "role_settings a f m"
  have "\<exists>host. make_p2p demo_node ?cfg = Inr host"
    by (simp add: make_p2p_def demo_node_def loadOrCreatePrivateKey_def new_host_def)
  then obtain host where host: "make_p2p demo_node ?cfg = Inr host" ..
  have parts: "\<exists>n. outcome store_step (start_parts demo_node ?cfg (needs_redis ?cfg) (None :: string list deduplicator option) host None) d = Some (Inr n) \<and>
      (m \<longrightarrow> usEventMonitor n \<noteq> None)" for d
  proof -
    obtain d1 where c: "run store_step (make_consensus demo_node ?cfg host (make_ipfs demo_node ?cfg)) d =
        (Some (consensus_of demo_node ?cfg host), d1)"
      using make_consensus_outcome [of store_step demo_node ?cfg host d] by (metis prod.collapse)
    obtain mon where m: "run store_step (make_monitor demo_node ?cfg (needs_redis ?cfg)) d1 = (Some (Inr mon), d1)" "m \<longrightarrow> mon \<noteq> None"
      by (cases m) (simp_all add: make_monitor_def needs_redis_def ToRPCConfig_def NewEventMonitor_def abi_ok_def demo_node_def)
    define n where "n = assemble ?cfg (needs_redis ?cfg) (None :: string list deduplicator option) host (make_ipfs demo_node ?cfg) (None :: dequeuer option)
      (consensus_of demo_node ?cfg host) mon"
    obtain d2 where s: "run store_step (Start n) d1 = (Some (), d2)"
      using outcome_execs [of store_step "map Spawn (components n)" d1] by (auto simp: Start_def prod_eq_iff)
    have "outcome store_step (start_parts demo_node ?cfg (needs_redis ?cfg) None host None) d = Some (Inr n)"
      using s by (simp add: start_parts_def run_bindp c m(1) Let_def flip: n_def)
    moreover have "usEventMonitor n = mon" by (simp add: n_def assemble_def)
    ultimately show ?thesis using m(2) by auto
  qed
  show ?thesis
    using host parts
    by (cases "needs_redis ?cfg")
      (auto simp: start_sequencer_def connect_redis_def run_Call start_with_def make_dedup_def make_dequeuer_def)
qed

theorem batch_exchange_needs_finalizer_witness:
  "\<exists>n. outcome store_step (start_sequencer demo_lib list_lru demo_node (role_settings True False False)) empty_store = Some (Inr n) \<and>
     ''runBatchAggregation'' \<in> set (components n) \<and> usConsensus n = None"
proof -
  obtain n where n: "outcome store_step (start_sequencer demo_lib list_lru demo_node (role_settings True False False)) empty_store = Some (Inr n)"
    using role_starts by blast
  from batch_exchange_needs_finalizer [OF n] show ?thesis using n by auto
qed

section \<open>Whose epochs are finalized\<close>

lemma calls_sat_mono: "calls_sat P p \<Longrightarrow> (\<And>c. P c \<Longrightarrow> Q c) \<Longrightarrow> calls_sat Q p"
  by (induction p) auto

definition pushes_to :: "string \<Rightarrow> call \<Rightarrow> bool" where
  "pushes_to q c \<longleftrightarrow> (\<forall>k b. c = RLPush k b \<longrightarrow> k = q)"

definition pops_from :: "string \<Rightarrow> call \<Rightarrow> bool" where
  "pops_from q c \<longleftrightarrow> (\<forall>k. c = RBRPop k \<longrightarrow> k = q)"

lemma still_pushes: "calls_sat (avoids UNIV) p \<Longrightarrow> calls_sat (pushes_to q) p"
  by (erule calls_sat_mono) (auto simp: pushes_to_def avoids_def)

lemma collect_pushes: "calls_sat (pushes_to q) (collectEpochSubmissions L fuel wm m e)"
  by (auto simp: collectEpochSubmissions_def Let_def pushes_to_def [of q "RSMembers _"] pushes_to_def [of q "RSet _ _ _"]
      split: reply.split option.split intro!: calls_sat_bindp calls_sat_for_each still_pushes [OF counting_all_avoid])

lemma trigger_pushes:
  "calls_sat (pushes_to (FinalizationQueue (NewKeyBuilder (wmProtocol wm) m))) (triggerFinalization L fuel ro wm m e)"
  unfolding triggerFinalization_def Let_def
  by (rule calls_sat_bindp [OF collect_pushes]) (auto simp: list_all_iff pushes_to_def split: option.split intro!: calls_sat_bindp)

lemma close_pushes:
  "calls_sat (pushes_to (FinalizationQueue (NewKeyBuilder (wmProtocol wm) m))) (closeWindow L fuel ro wm m e)"
proof -
  have "wmProtocol (release (remove_window k wm)) = wmProtocol wm" for k by (simp add: release_def remove_window_def)
  then have "calls_sat (pushes_to (FinalizationQueue (NewKeyBuilder (wmProtocol wm) m)))
      (triggerFinalization L fuel ro (release (remove_window k wm)) m e)" for k
    using trigger_pushes [of "release (remove_window k wm)" m] by simp
  then show ?thesis by (auto simp: closeWindow_def Let_def pushes_to_def [of _ "RSet _ _ _"] pushes_to_def [of _ Now]
      pushes_to_def [of _ "RPipe _"] intro!: calls_sat_bindp)
qed

lemma worker_pops:
  "calls_sat (pops_from q) (ProcessingStarted w x)" "calls_sat (pops_from q) (ProcessingCompleted w)"
  "calls_sat (pops_from q) (ProcessingFailed w y)" "calls_sat (pops_from q) (StartWorker w)"
  "calls_sat (pops_from q) (TrackBatchPart e b st)" "calls_sat (pops_from q) (count_part kb p m e' k)"
  by (auto simp: ProcessingStarted_def ProcessingCompleted_def ProcessingFailed_def StartWorker_def UpdateStatus_def
      UpdateHeartbeat_def SetCurrentBatch_def IncrementProcessedCount_def TrackBatchPart_def count_part_def
      UpdateBatchPartsProgress_def Let_def pops_from_def intro!: calls_sat_bindp)

lemma log_pops: "calls_sat P (log_results ro res)"
proof -
  have "calls_sat P (or_panic x (\<lambda>_. Ret u))" for x :: "'b option" and u :: unit by (cases x) simp_all
  then show ?thesis by (auto simp: log_results_def intro!: calls_sat_for_each)
qed

lemma part_pops: "calls_sat (pops_from q) (processBatchPart L ro f e b k ps)"
  unfolding processBatchPart_def Let_def
  by (auto simp: pops_from_def [of q "RSet _ _ _"] pops_from_def [of q Now] pops_from_def [of q "RPipe _"] pops_from_def [of q "RIncr _"]
      split: list.split intro!: calls_sat_bindp worker_pops log_pops)

lemma calls_or_panic: "(\<And>a. x = Some a \<Longrightarrow> calls_sat P (f a)) \<Longrightarrow> calls_sat P (or_panic x f)"
  by (cases x) simp_all

lemma round_pops: "calls_sat (pops_from (FinalizationQueue (finKeys f))) (finalizer_round L ro f w)"
  by (auto simp: finalizer_round_def finalize_popped_def Let_def pops_from_def [of _ "RBRPop _"]
      split: reply.split option.split json.split intro!: calls_sat_bindp calls_or_panic worker_pops part_pops)

text \<open>The lists that a program leaves as they are.\<close>

definition keeps :: "string \<Rightarrow> call \<Rightarrow> bool" where
  "keeps q c \<longleftrightarrow> q \<notin> moves c"

lemma keeps_simps [simp]:
  "keeps q (RSet k b t)" "keeps q Now" "keeps q (RIncr k)" "keeps q (RBRPop k) \<longleftrightarrow> q \<noteq> k" "keeps q (RLPush k b) \<longleftrightarrow> q \<noteq> k"
  "keeps q (RHSet k fs)" "keeps q (RExpire k t)" "keeps q (RSAdd k i)" "keeps q (RPublish k i)" "keeps q (RZAdd k z i)" "keeps q (RHIncrBy k f n)"
  "keeps q (Spawn w)" "keeps q (RDel ks) \<longleftrightarrow> q \<notin> set ks"
  by (auto simp: keeps_def)

lemma keeps_pipe [simp]: "keeps q (RPipe cs) \<longleftrightarrow> list_all (keeps q) cs"
  by (induction cs) (auto simp: keeps_def)

lemma kept: "calls_sat (keeps q) p \<Longrightarrow> lists (final store_step p d) q = lists d q"
proof (induction p arbitrary: d)
  case (Call c k)
  then show ?case using unmoved [of q c d] by (auto simp: run_Call keeps_def)
qed simp_all

lemma worker_keeps:
  assumes "\<And>a i. q \<noteq> WorkerCurrentBatch a i"
  shows "calls_sat (keeps q) (ProcessingStarted w x)" "calls_sat (keeps q) (ProcessingCompleted w)"
  "calls_sat (keeps q) (ProcessingFailed w y)" "calls_sat (keeps q) (StartWorker w)" "calls_sat (keeps q) (TrackBatchPart e b st)"
  using assms by (auto simp: ProcessingStarted_def ProcessingCompleted_def ProcessingFailed_def StartWorker_def UpdateStatus_def
      UpdateHeartbeat_def SetCurrentBatch_def IncrementProcessedCount_def TrackBatchPart_def Let_def intro!: calls_sat_bindp)

lemma count_keeps: "q \<noteq> AggregationQueueLevel1 (NewKeyBuilder p m) \<Longrightarrow> calls_sat (keeps q) (count_part (NewKeyBuilder p m) p m e k)"
  by (auto simp: count_part_def UpdateBatchPartsProgress_def Let_def progress_calls_def ready_calls_def)

lemma part_keeps:
  assumes "finProtocolState f = p" and "finDataMarkets f = m # ms" and "finKeys f = NewKeyBuilder p m"
    and "q \<noteq> AggregationQueueLevel1 (NewKeyBuilder p m)" and "\<And>a i. q \<noteq> WorkerCurrentBatch a i"
  shows "calls_sat (keeps q) (processBatchPart L ro f e b k ps)"
  unfolding processBatchPart_def Let_def
  by (auto simp: assms(1-3) part_metrics_def Let_def split: list.split intro!: calls_sat_bindp worker_keeps [OF assms(5)] log_pops count_keeps assms(4))

lemma round_keeps:
  assumes "finProtocolState f = p" and "finDataMarkets f = m # ms" and "finKeys f = NewKeyBuilder p m"
    and "q \<noteq> AggregationQueueLevel1 (NewKeyBuilder p m)" and "\<And>a i. q \<noteq> WorkerCurrentBatch a i"
    and "q \<noteq> FinalizationQueue (NewKeyBuilder p m)"
  shows "calls_sat (keeps q) (finalizer_round L ro f w)"
  using assms(6)
  by (auto simp: assms(3) finalizer_round_def finalize_popped_def Let_def
      split: reply.split option.split json.split intro!: calls_sat_bindp calls_or_panic worker_keeps [OF assms(5)] part_keeps [OF assms(1-5)])

text \<open>What the closing of a window queues.\<close>

lemma close_run:
  assumes "has_window wm (window_key m (unat e))" and "kb = NewKeyBuilder (wmProtocol wm) m"
    and "d' = snd (store_step d (RSet (EpochWindow kb (show_u64 e)) (Txt ''closed'') 3600))"
    and "scans_fit fuel d' (wmProtocol wm) m (unat e)"
  obtains bs where "lists (final store_step (closeWindow L fuel ro wm m (unat e)) d) (FinalizationQueue kb) =
      rev (queued_parts e m bs) @ lists d (FinalizationQueue kb)"
    and "fst ` set (concat bs) = fst ` set (stored_votes d' (wmProtocol wm) m (unat e))"
proof -
  define wm' where "wm' = release (remove_window (window_key m (unat e)) wm)"
  have wm': "wmProtocol wm' = wmProtocol wm" by (simp add: wm'_def release_def remove_window_def)
  obtain a d1 where 1: "run store_step (triggerFinalization L fuel ro wm' m (unat e)) d' = (Some True, d1)"
    "projectVotes a = fold count_vote (epoch_votes d' (wmProtocol wm) m (unat e)) []"
    "lists d1 (FinalizationQueue kb) =
      rev (queued_parts e m (splitIntoBatches ro (project_submissions a) (batch_size wm'))) @ lists d' (FinalizationQueue kb)"
    using trigger_run [of fuel d' wm' m e kb L ro] assms(2,4) unfolding wm' by metis
  define bs where "bs = splitIntoBatches ro (project_submissions a) (batch_size wm')"
  note ce = collected_entries [OF 1(2)]
  have "0 < batch_size wm'" by auto
  from split_parts(1) [OF ce(1) this bs_def] ce(2)
  have "fst ` set (concat bs) = fst ` set (stored_votes d' (wmProtocol wm) m (unat e))"
    unfolding reported_votes(3) [symmetric] by simp
  moreover have "lists (final store_step (closeWindow L fuel ro wm m (unat e)) d) (FinalizationQueue kb) = lists d1 (FinalizationQueue kb)"
  proof -
    let ?rest = "Call Now (\<lambda>t. Call (RPipe (close_metrics kb (unat e) (int_of t))) (\<lambda>_. Ret wm'))"
    have "final store_step (closeWindow L fuel ro wm m (unat e)) d = final store_step ?rest d1"
      using assms(1) 1(1)
      by (simp add: closeWindow_def Let_def run_Call run_bindp wm'_def show_u64_def assms(2,3) del: store_step.simps)
    moreover have "calls_sat (keeps (FinalizationQueue kb)) ?rest" by (simp add: close_metrics_def Let_def)
    ultimately show ?thesis using kept by metis
  qed
  moreover have "lists d' (FinalizationQueue kb) = lists d (FinalizationQueue kb)" by (simp add: assms(3))
  ultimately show thesis using that [of bs] 1(3) unfolding bs_def [symmetric] by metis
qed

text \<open>C11. Of several data markets only the first is finalized. The event monitor of a started sequencer accepts the releases of
  every configured market, and when a window of another one closes, its projects are queued in parts: on a store that works, in a
  scan that ends, the queue of that market grows by one entry for each part, and the parts hold exactly the projects with a stored
  vote. What the closing of a window queues goes to no other queue. But every finalization worker pops from the queue of the
  first market alone, which is a different key, and leaves the other market's queue as it is.\<close>

theorem only_first_market_is_finalized:
  assumes "outcome R (start_sequencer L U N cfg) s = Some (Inr n)" and "usEventMonitor n = Some mon"
    and "cfDataMarketAddresses cfg = first # others" and "m \<in> set others" and "m \<noteq> first"
    and "wmProtocol wm = wmProtocol (windowManager mon)" and "kb = NewKeyBuilder (cfProtocolStateContract cfg) m"
    and "q = FinalizationQueue kb"
  shows "isValidDataMarket mon m \<and>
    (\<forall>k b. RLPush k b \<in> set (trace R1 (closeWindow L fuel ro wm m (unat e)) s1) \<longrightarrow> k = q) \<and>
    (reliable R1 v1 \<and> has_window wm (window_key m (unat e)) \<and>
       d = v1 (after R1 [RSet (EpochWindow kb (show_u64 e)) (Txt ''closed'') 3600] s1) \<and> scans_fit fuel d (wmProtocol wm) m (unat e) \<longrightarrow>
     (\<exists>bs. lists (v1 (final R1 (closeWindow L fuel ro wm m (unat e)) s1)) q = rev (queued_parts e m bs) @ lists (v1 s1) q \<and>
        fst ` set (concat bs) = fst ` set (stored_votes d (wmProtocol wm) m (unat e)))) \<and>
    (\<forall>k. RBRPop k \<in> set (trace R2 (runFinalizationWorker L ro n i) s2) \<longrightarrow> k \<noteq> q) \<and>
    (reliable R2 v2 \<longrightarrow> lists (v2 (final R2 (runFinalizationWorker L ro n i) s2)) q = lists (v2 s2) q)"
proof -
  note p = started_parts [OF assms(1)]
  have mon: "monMarkets mon = cfDataMarketAddresses cfg" "wmProtocol wm = cfProtocolStateContract cfg"
    using p(4) assms(2,6) by (simp_all add: monitor_of_def)
  have push: "k = q" if "RLPush k b \<in> set (trace R1 (closeWindow L fuel ro wm m (unat e)) s1)" for k b
    using calls_sat_trace [OF close_pushes that] by (simp add: mon(2) assms(7,8) pushes_to_def)
  let ?first = "FinalizationQueue (NewKeyBuilder (cfProtocolStateContract cfg) first)"
  have f: "finKeys (fin_config n) = NewKeyBuilder (cfProtocolStateContract cfg) first"
    "finProtocolState (fin_config n) = cfProtocolStateContract cfg" "finDataMarkets (fin_config n) = first # others"
    using start_made [OF assms(1)] by (auto simp: fin_config_def assemble_def node_keys_def assms(3))
  have pop0: "calls_sat (pops_from ?first) (runFinalizationWorker L ro n i)"
    using round_pops [of "fin_config n" L ro "fin_monitor n i"] worker_pops(4) f(1) by (auto simp: runFinalizationWorker_def)
  have q: "q \<noteq> ?first" using assms(5) by (simp add: assms(7,8) FinalizationQueue_def ns_def NewKeyBuilder_def)
  then have pop: "k \<noteq> q" if "RBRPop k \<in> set (trace R2 (runFinalizationWorker L ro n i) s2)" for k
    using calls_sat_trace [OF pop0 that] by (simp add: pops_from_def)
  have apart: "q \<noteq> AggregationQueueLevel1 (NewKeyBuilder (cfProtocolStateContract cfg) first)" "q \<noteq> WorkerCurrentBatch a j" for a j
    by (rule ccontr, drule notnotD, drule arg_cong [of _ _ rev], simp add: assms(7,8) key_defs ns_def NewKeyBuilder_def)+
  from round_keeps [OF f(2,3,1) apart q] worker_keeps(4) [OF apart(2)]
  have keep: "calls_sat (keeps q) (runFinalizationWorker L ro n i)" by (auto simp: runFinalizationWorker_def)
  have stay: "reliable R2 v2 \<longrightarrow> lists (v2 (final R2 (runFinalizationWorker L ro n i) s2)) q = lists (v2 s2) q"
    using kept [OF keep, of "v2 s2"] by (auto simp: reliable_run(3))
  have grow: "\<exists>bs. lists (v1 (final R1 (closeWindow L fuel ro wm m (unat e)) s1)) q = rev (queued_parts e m bs) @ lists (v1 s1) q \<and>
      fst ` set (concat bs) = fst ` set (stored_votes d (wmProtocol wm) m (unat e))"
    if "reliable R1 v1" "has_window wm (window_key m (unat e))"
      "d = v1 (after R1 [RSet (EpochWindow kb (show_u64 e)) (Txt ''closed'') 3600] s1)" "scans_fit fuel d (wmProtocol wm) m (unat e)"
  proof -
    have "d = snd (store_step (v1 s1) (RSet (EpochWindow kb (show_u64 e)) (Txt ''closed'') 3600))"
      using that(3) reliable_step(2) [OF that(1)] by simp
    from close_run [OF that(2) _ this that(4), where L = L and ro = ro] show ?thesis
      unfolding reliable_run(3) [OF that(1)] by (metis assms(7,8) mon(2))
  qed
  have "isValidDataMarket mon m" using mon(1) assms(3,4) by (simp add: isValidDataMarket_def)
  with push pop stay grow show ?thesis by blast
qed

text \<open>A store with one vote for the second market, and an open window for its epoch.\<close>

definition second_stored :: store where
  "second_stored = empty_store\<lparr>
     strs := [(''P:M2:processed:v:i'', Js (JObj [(''Submission'',
       JObj [(''request'', JObj [(''projectId'', JStr ''p''), (''snapshotCid'', JStr ''QmSixteenLetters'')])])]))],
     sets := (\<lambda>k. if k = EpochProcessed (NewKeyBuilder ''P'' ''M2'') (show_nat 7) then [''i''] else [])\<rparr>"

definition second_window :: windowManager where
  "second_window = \<lparr>activeWindows = [(''M2:7'', \<lparr>WinEpochID = 7, WinMarket = ''M2'', WinStart = 0, WinDuration = 20, WinStartBlock = 1\<rparr>)],
     semUsed = 1, maxWindows = 2, wmProtocol = ''P'', finalizationBatchSize = 20\<rparr>"

lemma second_votes:
  assumes "d = snd (store_step second_stored (RSet (EpochWindow (NewKeyBuilder ''P'' ''M2'') ''7'') (Txt ''closed'') 3600))"
  shows "stored_votes d ''P'' ''M2'' 7 = [(''p'', ''QmSixteenLetters'')]" and "scans_fit 1 d ''P'' ''M2'' 7"
proof -
  have w: "EpochWindow (NewKeyBuilder ''P'' ''M2'') ''7'' = ''P:M2:epoch:7:window''"
    by (simp add: key_defs ns_def NewKeyBuilder_def)
  have "processed_pattern ''P'' ''M2'' ''i'' = ''P:M2:processed:*:i''" by (simp add: processed_pattern_def ns_def NewKeyBuilder_def)
  then have g: "glob (processed_pattern ''P'' ''M2'' ''i'') ''P:M2:processed:v:i''"
    using processed_key_found [of "''P''" "''M2''" "''i''" "''v''"]
    by (simp add: ProcessedSubmission_def ns_def NewKeyBuilder_def glob_plain_def)
  have s: "map_of (strs d) ''P:M2:epoch:7:window'' = Some (Txt ''closed'')" "map fst (strs d) = [''P:M2:processed:v:i'', ''P:M2:epoch:7:window'']"
    by (simp_all add: assms w second_stored_def)
  have v: "vote_at d ''P:M2:epoch:7:window'' = None" by (simp add: vote_at_def s(1))
  have "vote_at d ''P:M2:processed:v:i'' = Some (''p'', ''QmSixteenLetters'')"
    by (simp add: assms w second_stored_def vote_at_def parse_stored_def get_obj_def get_str_def)
  moreover have "sets d (EpochProcessed (NewKeyBuilder ''P'' ''M2'') (show_nat 7)) = [''i'']" by (simp add: assms second_stored_def)
  ultimately show "stored_votes d ''P'' ''M2'' 7 = [(''p'', ''QmSixteenLetters'')]"
    using g v by (simp add: stored_votes_def stored_keys_def s(2) map_filter_def)
  have "scanPages d = (\<lambda>_ ks. [ks])" by (simp add: assms second_stored_def empty_store_def)
  then have "length (scan_pages d p) = 1" for p by (simp add: scan_pages_def Let_def)
  then show "scans_fit 1 d ''P'' ''M2'' 7" by (auto simp: scans_fit_def epoch_walks_def list_all_iff)
qed

theorem only_first_market_is_finalized_witness:
  "\<exists>n mon. outcome store_step (start_sequencer demo_lib list_lru demo_node (role_settings False True True)) empty_store = Some (Inr n) \<and>
     usEventMonitor n = Some mon \<and> isValidDataMarket mon ''M2'' \<and>
     lists (final store_step (closeWindow demo_lib 1 in_order second_window ''M2'' (unat (7 :: u64))) second_stored) ''P:M2:finalizationQueue'' \<noteq> [] \<and>
     lists (final store_step (runFinalizationWorker demo_lib in_order n 0) second_stored) ''P:M2:finalizationQueue'' =
       lists second_stored ''P:M2:finalizationQueue''"
proof -
  obtain n mon where n: "outcome store_step (start_sequencer demo_lib list_lru demo_node (role_settings False True True)) empty_store = Some (Inr n)"
    "usEventMonitor n = Some mon" using role_starts [of False True True] by auto
  have p: "wmProtocol second_window = wmProtocol (windowManager mon)"
    using started_parts(4) [OF n(1)] n(2) by (simp add: monitor_of_def second_window_def)
  let ?cfg = "role_settings False True True"
  have q: "''P:M2:finalizationQueue'' = FinalizationQueue (NewKeyBuilder (cfProtocolStateContract ?cfg) ''M2'')"
    by (simp add: FinalizationQueue_def ns_def NewKeyBuilder_def)
  have m: "cfDataMarketAddresses ?cfg = ''M'' # [''M2'']" "''M2'' \<in> set [''M2'']" "''M2'' \<noteq> ''M''" by simp_all
  have e: "show_u64 7 = ''7''" "unat (7 :: u64) = 7" by (simp_all add: show_u64_def show_nat.simps digits_def)
  let ?d = "after store_step [RSet (EpochWindow (NewKeyBuilder ''P'' ''M2'') ''7'') (Txt ''closed'') 3600] second_stored"
  have d: "?d = snd (store_step second_stored (RSet (EpochWindow (NewKeyBuilder ''P'' ''M2'') ''7'') (Txt ''closed'') 3600))" by (simp add: after_def)
  have w: "has_window second_window (window_key ''M2'' (unat (7 :: u64)))"
    by (simp add: has_window_def second_window_def window_key_def e(2) show_nat.simps digits_def)
  note f = only_first_market_is_finalized [OF n m p refl q, where ?R1.0 = store_step and ?s1.0 = second_stored and ?v1.0 = "\<lambda>d. d" and fuel = 1
      and e = 7 and ro = in_order and ?R2.0 = store_step and ?s2.0 = second_stored and i = 0 and ?v2.0 = "\<lambda>d. d" and d = ?d, unfolded e(1) role_simps]
  have p': "wmProtocol second_window = ''P''" by (simp add: second_window_def)
  note f1 = f [THEN conjunct2, THEN conjunct2, THEN conjunct1, THEN mp, unfolded p']
  have fit: "scans_fit 1 ?d ''P'' ''M2'' (unat (7 :: u64))" unfolding e(2) by (rule second_votes(2) [OF d])
  from f1 [OF conjI [OF reliable_store conjI [OF w conjI [OF refl fit]]]] obtain bs where
    bs: "lists (final store_step (closeWindow demo_lib 1 in_order second_window ''M2'' (unat (7 :: u64))) second_stored)
      ''P:M2:finalizationQueue'' = rev (queued_parts 7 ''M2'' bs) @ lists second_stored ''P:M2:finalizationQueue''"
    "fst ` set (concat bs) = fst ` set (stored_votes ?d ''P'' ''M2'' (unat (7 :: u64)))" by (elim exE conjE) (rule that)
  have "fst ` set (concat bs) = {''p''}" unfolding bs(2) e(2) second_votes(1) [OF d] by simp
  then have "bs \<noteq> []" by (cases bs) simp_all
  then have "queued_parts 7 ''M2'' bs \<noteq> []" by (simp add: queued_parts_def)
  then have grown: "rev (queued_parts 7 ''M2'' bs) @ lists second_stored ''P:M2:finalizationQueue'' \<noteq> []" by simp
  note stay = f [THEN conjunct2, THEN conjunct2, THEN conjunct2, THEN conjunct2, THEN mp, OF reliable_store]
  show ?thesis
    by (intro exI conjI, rule n(1), rule n(2), rule f [THEN conjunct1], unfold bs(1), rule grown, rule stay)
qed

end
