(* ===== verification/Broadcaster.thy ===== *)
theory Broadcaster
  imports Consensus Config
begin

text \<open>
  \<open>pkgs/p2p/batch_broadcaster.go\<close>, which sends and receives votes for the CID of a batch, and the presence messages of
  \<open>pkgs/consensus/p2p_consensus.go\<close>. A topic is its name; the peers of a topic are an argument. The channel of received
  votes holds a hundred; when it is full the receiver waits, which is \<open>None\<close>. No process of the repository makes a broadcaster.
\<close>

record finalizedBatchMessage =
  fmCID :: string
  fmSequencerID :: string
  fmEpochID :: int
  fmPeerID :: string
  fmReceived :: int

record batchBroadcaster =
  bbHost :: string
  bbSequencerID :: string
  bbDiscovery :: string
  bbAll :: string
  IncomingBatches :: "finalizedBatchMessage list"

text \<open>\<open>joins\<close> and \<open>subscribes\<close> tell for which topics libp2p does it.\<close>

definition NewBatchBroadcaster ::
  "(string \<Rightarrow> bool) \<Rightarrow> (string \<Rightarrow> bool) \<Rightarrow> string \<Rightarrow> string \<Rightarrow> settings \<Rightarrow> batchBroadcaster option prog" where
  "NewBatchBroadcaster joins subscribes host sid cfg =
     (let (discovery, everyone) = GetFinalizedBatchTopics cfg in
      if joins discovery \<and> joins everyone \<and> subscribes discovery \<and> subscribes everyone
      then Call (Spawn ''handleIncomingBatches'') (\<lambda>_.
        Ret (Some \<lparr>bbHost = host, bbSequencerID = sid, bbDiscovery = discovery, bbAll = everyone, IncomingBatches = []\<rparr>))
      else Ret None)"

definition SendPresenceMessage :: "batchBroadcaster \<Rightarrow> bool prog" where
  "SendPresenceMessage bb =
     Call Now (\<lambda>t.
     Call (TopicPublish (bbDiscovery bb) (Js (JObj [(''peer_id'', JStr (bbHost bb)), (''sequencer_id'', JStr (bbSequencerID bb)),
         (''timestamp'', JNum (int_of t)), (''type'', JStr ''validator_presence'')])))
       (\<lambda>r. Ret (r \<noteq> ErrR)))"

text \<open>The objects are written with sorted keys, as \<open>encoding/json\<close> writes maps. The batch is any value; only a map with a text for its CID can be broadcast.\<close>

definition batch_cid :: "json \<Rightarrow> string" where
  "batch_cid batch = (case Option.bind (as_obj batch) (get_str ''batch_ipfs_cid'') of None \<Rightarrow> [] | Some c \<Rightarrow> c)"

definition vote_message :: "batchBroadcaster \<Rightarrow> string \<Rightarrow> u64 \<Rightarrow> int \<Rightarrow> json" where
  "vote_message bb cid epochID now =
     JObj [(''batch_ipfs_cid'', JStr cid), (''broadcast_timestamp'', JNum now), (''epoch_id'', JNum (uint epochID)),
       (''peer_id'', JStr (bbHost bb)), (''sequencer_id'', JStr (bbSequencerID bb)), (''type'', JStr ''finalized_batch_vote'')]"

definition BroadcastBatch :: "batchBroadcaster \<Rightarrow> json \<Rightarrow> u64 \<Rightarrow> bool prog" where
  "BroadcastBatch bb batch epochID =
     (if batch_cid batch = [] then Ret False
      else Call Now (\<lambda>t. Call (TopicPublish (bbAll bb) (Js (vote_message bb (batch_cid batch) epochID (int_of t))))
        (\<lambda>r. Ret (r \<noteq> ErrR))))"

text \<open>The map in the code's \<open>Batch\<close> field has three keys, here fields of the record.\<close>

definition received_vote :: "(string, json) gomap \<Rightarrow> int \<Rightarrow> finalizedBatchMessage" where
  "received_vote data now =
     (let str = (\<lambda>k. case get_str k data of None \<Rightarrow> [] | Some s \<Rightarrow> s) in
      \<lparr>fmCID = str ''batch_ipfs_cid'', fmSequencerID = str ''sequencer_id'',
       fmEpochID = (case get_num ''epoch_id'' data of None \<Rightarrow> 0 | Some n \<Rightarrow> n), fmPeerID = str ''peer_id'', fmReceived = now\<rparr>)"

text \<open>\<open>None\<close> when the receiver has to wait for room in the channel.\<close>

definition processMessage :: "batchBroadcaster \<Rightarrow> string \<Rightarrow> blob \<Rightarrow> batchBroadcaster option prog" where
  "processMessage bb receivedFrom payload =
     (if receivedFrom = bbHost bb then Ret (Some bb)
      else case unmarshal_map payload of
        None \<Rightarrow> Ret (Some bb)
      | Some m \<Rightarrow>
          let data = (case m of None \<Rightarrow> [] | Some kvs \<Rightarrow> kvs) in
          if get_str ''type'' data \<noteq> Some ''finalized_batch_vote'' then Ret (Some bb)
          else Call NowNano (\<lambda>t. Ret (if length (IncomingBatches bb) < 100
            then Some (bb\<lparr>IncomingBatches := IncomingBatches bb @ [received_vote data (int_of t)]\<rparr>) else None)))"

text \<open>The peers of both topics, each once, without the host itself, in the order of the map.\<close>

definition other_peers :: "range_order \<Rightarrow> string \<Rightarrow> string list \<Rightarrow> string list \<Rightarrow> string list" where
  "other_peers ro host discovery everyone =
     (let peers = fold (\<lambda>p m. AList.update p True m) (discovery @ everyone) [] in
      filter (\<lambda>p. p \<noteq> host) (map fst (range_map ro ''peers'' peers)))"

definition GetConnectedPeers :: "range_order \<Rightarrow> batchBroadcaster \<Rightarrow> string list \<Rightarrow> string list \<Rightarrow> string list" where
  "GetConnectedPeers ro bb discovery everyone = other_peers ro (bbHost bb) discovery everyone"

section \<open>Presence of a validator\<close>

definition sendPresenceMessage :: "string \<Rightarrow> p2pConsensus \<Rightarrow> bool prog" where
  "sendPresenceMessage discoveryTopic pc =
     Call Now (\<lambda>t.
     Call (TopicPublish discoveryTopic (Js (JObj [(''capabilities'', JArr [JStr ''consensus'', JStr ''ipfs'', JStr ''batch_validation'']),
         (''peer_id'', JStr (hostID pc)), (''timestamp'', JNum (int_of t)), (''type'', JStr ''validator_presence''),
         (''validator_id'', JStr (sequencerID pc))])))
       (\<lambda>r. Ret (r \<noteq> ErrR)))"

definition getConnectedValidators :: "range_order \<Rightarrow> p2pConsensus \<Rightarrow> string list \<Rightarrow> string list \<Rightarrow> string list" where
  "getConnectedValidators ro pc discovery batch = other_peers ro (hostID pc) discovery batch"

section \<open>What is sent is received\<close>

text \<open>A vote is received as it was sent, but for the rounding of epochs beyond 53 bits; nothing of it is lost while the channel
  has room.\<close>

lemma vote_is_received:
  assumes "bbHost bb \<noteq> bbHost bb'" and "length (IncomingBatches bb') < 100" and "uint e \<le> 2 ^ 53"
  shows "\<exists>t. outcome R (processMessage bb' (bbHost bb) (Js (vote_message bb cid e now))) s = Some (Some (bb'\<lparr>IncomingBatches := IncomingBatches bb' @
    [\<lparr>fmCID = cid, fmSequencerID = bbSequencerID bb, fmEpochID = uint e, fmPeerID = bbHost bb, fmReceived = t\<rparr>]\<rparr>))"
  using assms
  by (intro exI [of _ "int_of (fst (R s NowNano))"])
    (simp add: processMessage_def vote_message_def received_vote_def get_str_def get_num_def run_Call Let_def f64_exact)

lemma vote_is_received_witness:
  "\<exists>t. outcome store_step (processMessage \<lparr>bbHost = ''b'', bbSequencerID = ''v2'', bbDiscovery = ''d'', bbAll = ''t'', IncomingBatches = []\<rparr> ''a''
      (Js (vote_message \<lparr>bbHost = ''a'', bbSequencerID = ''v1'', bbDiscovery = ''d'', bbAll = ''t'', IncomingBatches = []\<rparr> ''Qm'' 7 0))) empty_store =
    Some (Some \<lparr>bbHost = ''b'', bbSequencerID = ''v2'', bbDiscovery = ''d'', bbAll = ''t'', IncomingBatches =
      [\<lparr>fmCID = ''Qm'', fmSequencerID = ''v1'', fmEpochID = 7, fmPeerID = ''a'', fmReceived = t\<rparr>]\<rparr>)"
  using vote_is_received [of "\<lparr>bbHost = ''a'', bbSequencerID = ''v1'', bbDiscovery = ''d'', bbAll = ''t'', IncomingBatches = []\<rparr>"
      "\<lparr>bbHost = ''b'', bbSequencerID = ''v2'', bbDiscovery = ''d'', bbAll = ''t'', IncomingBatches = []\<rparr>" 7 store_step "''Qm''" 0 empty_store]
  by simp

lemma peers_distinct: "distinct (other_peers ro host ds es) \<and> set (other_peers ro host ds es) = (set ds \<union> set es) - {host}"
proof -
  let ?m = "fold (\<lambda>p m. AList.update p True m) (ds @ es) []"
  have "go_ok m \<Longrightarrow> go_ok (fold (\<lambda>p m. AList.update p True m) xs m) \<and>
      fst ` set (fold (\<lambda>p m. AList.update p True m) xs m) = fst ` set m \<union> set xs" for xs and m :: "(string, bool) gomap"
    by (induction xs arbitrary: m) (auto simp: gomap_simps)
  from this [of "[]" "ds @ es"] have ok: "go_ok ?m" and keys: "fst ` set ?m = set ds \<union> set es" by auto
  have "distinct (map fst (range_map ro ''peers'' ?m))" using go_ok_range_map [OF ok] by (simp add: go_ok_def)
  then show ?thesis using set_range_map [OF ok, of ro "''peers''"] keys by (auto simp: other_peers_def Let_def)
qed

end
