(* ===== verification/Spec2Isabelle.thy ===== *)
theory Spec2Isabelle
  imports GoText Collection Level1 Level2 Voting Timeline Metrics Events Network Votes Identity Tracking Monitoring Configured Counting Consuming Started Broadcaster
begin

text \<open>
  The snapshot sequencer and validator of a Powerloom node. Snapshotters gossip submissions (a CID for a
  project in an epoch, signed for a slot); the sequencer validates and stores them, collects an epoch's
  submissions in a window of time, picks a CID for each project, and exchanges the resulting batch with
  the other validators, from whose batches it computes that of the network. The processes share
  no memory but Redis, and each other's network messages.

  \<^bold>\<open>The parts and their theories.\<close>

  \<^item> \<open>Prelude\<close>: texts of numbers and times, lists, association lists (Go maps, with \<open>range_map\<close> for
    the arbitrary order of \<open>range\<close>), fact collections. \<open>Json\<close>: JSON values, \<open>encoding/json\<close>'s
    case-insensitive decoding into structs and base64. \<open>GoText\<close>: JSON texts, the texts of floats,
    \<open>pkgs/utils/epoch_formatter.go\<close>. \<open>Float64\<close>, \<open>FloatText\<close>, \<open>Search\<close>: binary64, its
    shortest decimal texts, and \<open>sort.Search\<close>.
  \<^item> \<open>Env\<close>: programs as trees of calls (Redis, IPFS, clock, gossip), their runs in any environment,
    and \<open>reliable\<close>: an environment that behaves as the documented one, \<open>store_step\<close>.
  \<^item> \<open>Keys\<close>: \<open>pkgs/redis/keys.go\<close>; a key determines the builder and the arguments it is made of.
  \<^item> \<open>Submissions\<close>, \<open>Eip712\<close>, \<open>Dequeuer\<close>: \<open>pkgs/submissions\<close>, \<open>pkgs/crypto/eip712.go\<close>; what makes a
    submission acceptable and what accepting it writes. \<open>Dedup\<close>: \<open>pkgs/deduplication\<close>.
  \<^item> \<open>Intake\<close>: the submission side of \<open>cmd/unified/main.go\<close>, from gossip to the queue and from the queue
    to the dequeuer. \<open>Gateway\<close>: \<open>cmd/p2p-gateway/main.go\<close>, the same bridge as a process of its own, with
    the intake and the broadcast of batches. \<open>Network\<close>: what passes through it.
  \<^item> \<open>Windows\<close>, \<open>Collection\<close>: \<open>pkgs/eventmonitor/monitor.go\<close>: polling of the chain, the submission windows
    under any interleaving, and the collection of an epoch's submissions into parts. \<open>Tally\<close>:
    counting votes and picking a plurality, shared by all that vote.
  \<^item> \<open>Workers\<close>, \<open>Threads\<close>, \<open>Progress\<close>: \<open>pkgs/workers/monitoring.go\<close> and what concurrent workers make
    of its counters. \<open>Finalizer\<close>: the finalization workers of \<open>cmd/unified/main.go\<close>.
    \<open>Startup\<close>, \<open>Started\<close>: its start: the components that the settings switch on, and what a started node can do.
    \<open>Finalization\<close>: event monitor, finalizers and level 1 one after the other.
  \<^item> \<open>Batches\<close>, \<open>Consensus\<close>, \<open>Voting\<close>: \<open>pkgs/consensus\<close>: the batches and their JSON forms, announcing,
    receiving and tallying them. \<open>Votes\<close>: the vote aggregator and the generator of test batches.
    \<open>Broadcaster\<close>: \<open>pkgs/p2p/batch_broadcaster.go\<close>, an exchange of votes that no process uses, and
    presence messages.
  \<^item> \<open>Identity\<close>: \<open>pkgs/identity/verifier.go\<close>: the senders of submissions against the slot table in Redis,
    with a cache.
  \<^item> \<open>Aggregator\<close>, \<open>Level1\<close>, \<open>Level2\<close>: \<open>cmd/aggregator/main.go\<close>: the local batch from the finalizers'
    parts, and the network-wide batch from those of all validators. \<open>Consumer\<close>,
    \<open>Consuming\<close>: its side towards Redis: the stream consumer, stalled messages, the monitor of
    finalized batches; what is read, and what stays pending.
  \<^item> \<open>TimeSeries\<close>, \<open>Timeline\<close>, \<open>Metrics\<close>: \<open>pkgs/metrics\<close>: series, statistics, metric types, registry.
    \<open>Writer\<close>, \<open>Collector\<close>: \<open>writer.go\<close> and \<open>collector.go\<close>, from events to metrics to Redis streams;
    \<open>Writing\<close>, \<open>Counting\<close>: what arrives there, and what is counted.
    \<open>Events\<close>: \<open>pkgs/events\<close>: the emitter with its buffer and workers, and the Redis publisher.
  \<^item> \<open>Tracker\<close>, \<open>Tracking\<close>: \<open>cmd/state-tracker/worker.go\<close>, which turns the records of the other processes into
    the data sets of the dashboard, and what these say. \<open>MonitorApi\<close>, \<open>Monitoring\<close>: \<open>cmd/monitor-api/main.go\<close>,
    the handlers that serve them, and what reaches a client.
  \<^item> \<open>Config\<close>, \<open>Configured\<close>: \<open>config/settings.go\<close>: the environment read into the settings, which settings
    are refused, and which data market each process takes from them.
  \<^bold>\<open>How code becomes definitions.\<close> A struct is a record, a handler a function from its state and input
  to a \<open>prog\<close>; \<open>Panic\<close> is a Go run-time panic. A worker's loop is modelled by one round of it, an
  interleaving by an inductive step relation or by schedules of atomic steps. \<open>uint64\<close> and \<open>uint32\<close>
  are words. Logging is left out, but for the slices in log lines that may panic. Libraries
  (go-ethereum, the LRU cache, SHA-256, time formats) are fields of the records \<open>golib\<close> and \<open>lruLib\<close>;
  what a theorem needs of them is an assumption on these.

  \<^bold>\<open>What is shown.\<close> The path of a submission: nothing is written for an invalid one, an accepted one makes
  exactly the documented calls, is counted in its epoch's window, and the CID picked for a project is
  one that no other beats in what the scans report; from the stored submissions to the local batch of the node no vote is lost
  or moved. The path of a batch: parts are announced once and never early,
  level 1 joins exactly the announced parts, the gateways carry the batch unchanged to where
  level 2 of another validator looks for it, and the aggregate lists a plurality CID for each project.
  Under any interleaving the window table keeps its bound, a deduplication key is new exactly once,
  and every emitted event reaches an interested subscriber once, is dropped and counted, or is lost in a stop. The tracker's counts are those of Redis and reach the dashboard, and the API
  changes nothing. Every notification of the stream is read once. Metrics reach their streams once and in order while Redis answers. Other theorems pin down where the code fails: lost counter updates, which strand an epoch of three parts or more,
  a quorum of half where two thirds are announced, panics on short signatures, roots and CIDs, votes that are never counted, validators that collapse into
  one, a gateway that stops taking batches, an identity cache that crosses data markets, participation rates that
  cannot exceed one half, histograms that are never written,
  notifications that are never acknowledged, data markets beyond the first that are never finalized, a list of markets that each process reads its own way.

  \<^bold>\<open>Bounds.\<close> The SCAN loop and the polling loop carry fuel, and the theorems on them ask for one unit for each page that
  Redis hands out (\<open>scans_fit\<close>), or show how much is enough for the number of blocks. A scan may come in any pages and order and repeat
  keys, as Redis documents; the theorems on votes say what is counted then, and what is exact when no key is repeated (\<open>scans_once\<close>). Three stream attempts are the code's own. Where the code takes
  numbers through \<open>float64\<close> the theorems ask for at most 53 bits. Texts are byte lists; two invalid
  encodings of one text are not told apart.

  \<^bold>\<open>Not modelled.\<close> libp2p host set-up and discovery (\<open>pkgs/p2p/host.go\<close>, \<open>pkgs/gossipconfig\<close>), the IPFS and RPC
  clients and the ABI loader, which only wrap their libraries, generated documentation, stand-alone
  tools. Expiry of keys during a run (so a deduplication mark lasts for all of it), the trimming of the metric
  streams on writing, and Redis failures in theorems that assume \<open>reliable\<close>. The clean-up of a time series is an operation of
  its own, not interleaved with its additions and queries; an event handler is one step.
\<close>

end
